(* ===== verification/Prelude.thy ===== *)
theory Prelude
  imports Complex_Main "HOL-Library.AList" "HOL-Library.Char_ord" "HOL-Library.List_Lexorder"
    "HOL-Library.Product_Lexorder" "HOL-Library.Multiset"
begin

text \<open>
  Shared vocabulary of the development: Python strings and timestamps, exceptions as
  values, the state-and-exception computations in which the stateful classes of the
  program are written, insertion-ordered dictionaries, and the generic lemmas on lists,
  sorting and dictionaries that the component theories use.

  Conventions.  A Python \<open>str\<close> is a \<open>string\<close>; its characters stand for the code points
  below 256.  A Python \<open>dict\<close> is an association list without repeated keys, in insertion
  order (\<open>AList.update\<close> keeps the position of an existing key and appends a new one, as
  Python does).  Values that the source type-checks with \<open>isinstance\<close> carry a HOL type, so
  that the corresponding \<open>TypeError\<close> branches cannot be expressed; every \<open>ValueError\<close> and
  domain-error branch is kept.
\<close>

section \<open>Text\<close>

definition py_isspace :: "char \<Rightarrow> bool" where
  "py_isspace c \<longleftrightarrow> (let n = (of_char c :: nat) in
     (9 \<le> n \<and> n \<le> 13) \<or> (28 \<le> n \<and> n \<le> 32) \<or> n = 133 \<or> n = 160)"

text \<open>\<open>not value.strip()\<close>: nothing is left once white space is removed from both ends.\<close>

definition blank :: "string \<Rightarrow> bool" where
  "blank s \<longleftrightarrow> list_all py_isspace s"

lemma blank_Nil [simp]: "blank []"
  by (simp add: blank_def)

definition py_strip :: "string \<Rightarrow> string" where
  "py_strip s = rev (dropWhile py_isspace (rev (dropWhile py_isspace s)))"

lemma dropWhile_all: "list_all P xs \<Longrightarrow> dropWhile P xs = []"
  by (induction xs) auto

lemma list_all_dropWhile: "list_all P (dropWhile P xs) \<longleftrightarrow> list_all P xs"
  by (induction xs) auto

lemma py_strip_eq_Nil: "py_strip s = [] \<longleftrightarrow> blank s"
  using list_all_dropWhile [of py_isspace s]
  by (simp add: py_strip_def blank_def list_all_iff)

definition py_quote :: "string \<Rightarrow> string" where
  \<comment> \<open>\<open>repr\<close> of a text without quotes or escapes, as the f-strings with \<open>!r\<close> render it.\<close>
  "py_quote s = [CHR 0x27] @ s @ [CHR 0x27]"

fun digits_of :: "nat \<Rightarrow> string" where
  "digits_of n = (if n < 10 then [char_of (48 + n)]
                  else digits_of (n div 10) @ [char_of (48 + n mod 10)])"

declare digits_of.simps [simp del]

definition py_str_int :: "int \<Rightarrow> string" where
  \<comment> \<open>\<open>str(n)\<close> for an integer.\<close>
  "py_str_int i = (if i < 0 then CHR ''-'' # digits_of (nat (- i)) else digits_of (nat i))"

section \<open>Numbers\<close>

text \<open>
  A Python number where the source accepts \<open>int\<close> or \<open>float\<close>.  Integers are unbounded.  A
  finite double is its exact rational value: products and sums are exact, except that a
  result of magnitude \<open>2 ^ 1024\<close> or more is infinite, and converting an integer of that
  magnitude to \<open>float\<close> raises \<open>OverflowError\<close>.  Rounding is not modelled.
\<close>

datatype pynum = PyInt int | PyFloat rat | PyInf | PyNegInf | PyNaN

primrec py_isfinite :: "pynum \<Rightarrow> bool" where
  "py_isfinite (PyInt i) \<longleftrightarrow> True"
| "py_isfinite (PyFloat r) \<longleftrightarrow> True"
| "py_isfinite PyInf \<longleftrightarrow> False"
| "py_isfinite PyNegInf \<longleftrightarrow> False"
| "py_isfinite PyNaN \<longleftrightarrow> False"

text \<open>The value of a finite number (only ever read after \<open>isfinite\<close> has been checked).\<close>

primrec num_val :: "pynum \<Rightarrow> rat" where
  "num_val (PyInt i) = of_int i"
| "num_val (PyFloat r) = r"
| "num_val PyInf = 0"
| "num_val PyNegInf = 0"
| "num_val PyNaN = 0"

definition FLOAT_LIMIT :: rat where
  \<comment> \<open>\<open>2 ^ 1024\<close>, written out so that it evaluates.\<close>
  "FLOAT_LIMIT = 179769313486231590772930519078902473361797697894230657273430081157732675805500963132708477322407536021120113879871393357658789768814416622492847430639474124377767893424865485276302219601246094119453082952085005768838150682342462881473913110540827237163350510684586298239947245938479716304835356329624224137216"

lemma FLOAT_LIMIT_eq: "FLOAT_LIMIT = 2 ^ 1024"
  by (simp add: FLOAT_LIMIT_def)

definition float_of_rat :: "rat \<Rightarrow> pynum" where
  "float_of_rat r = (if FLOAT_LIMIT \<le> r then PyInf else if r \<le> - FLOAT_LIMIT then PyNegInf
                     else PyFloat r)"

text \<open>\<open>a > b\<close> for a number \<open>a\<close> and a finite \<open>b\<close>.\<close>

primrec num_gt :: "pynum \<Rightarrow> rat \<Rightarrow> bool" where
  "num_gt (PyInt i) b \<longleftrightarrow> b < of_int i"
| "num_gt (PyFloat r) b \<longleftrightarrow> b < r"
| "num_gt PyInf b \<longleftrightarrow> True"
| "num_gt PyNegInf b \<longleftrightarrow> False"
| "num_gt PyNaN b \<longleftrightarrow> False"

section \<open>Timestamps\<close>

text \<open>
  A \<open>datetime\<close> is an instant in microseconds together with whether it is timezone-aware.
  The program refuses naive values wherever a timestamp enters a persisted entity.
\<close>

datatype datetime = Datetime (dt_us: int) (dt_aware: bool)

instantiation datetime :: linorder
begin

definition less_eq_datetime :: "datetime \<Rightarrow> datetime \<Rightarrow> bool" where
  "less_eq_datetime a b \<longleftrightarrow> (dt_us a, dt_aware a) \<le> (dt_us b, dt_aware b)"

definition less_datetime :: "datetime \<Rightarrow> datetime \<Rightarrow> bool" where
  "less_datetime a b \<longleftrightarrow> (dt_us a, dt_aware a) < (dt_us b, dt_aware b)"

instance
  by standard (auto simp: less_eq_datetime_def less_datetime_def datetime.expand)

end

definition us_per_second :: int where "us_per_second = 1000000"

definition us_per_day :: int where "us_per_day = 86400 * us_per_second"

section \<open>Exceptions\<close>

text \<open>
  The exceptions that the modelled code raises.  \<open>MetadataNotFound entity id\<close> and its kin
  carry the arguments of the constructor in \<open>errors.py\<close>.  \<open>Raised name text\<close> is an exception that code outside the
  program raised, with the name of its class and its text.  \<open>Diverged\<close> is no exception of
  the program: it is the value of a fuel-bounded loop that ran out of fuel, and the
  theorems show where it cannot occur.
\<close>

text \<open>The exceptions that only the first-generation engine raises.\<close>

datatype v1_error =
    DefinitionError string
  | InvalidWorkflowDefinition string string
  | DuplicateTaskDefinition string string
  | UnknownDependency string string
  | SelfDependency string
  | DuplicateDependency string string
  | CycleDetected "string list"
  | InvalidExecutionPlan string
  | PlanningInvariant string
  | TimeoutCapability string string string string
  | DuplicateHandlerRegistration string
  | HandlerNotFound string
  | InvalidHandler string string
  | TaskExecution string "string option" string string string
  | ExternalWorkload string string string string string "string option"
  | CapacityConfiguration string
  | CapacityInvariant string
  | CapacityRelease string
  | InvalidWorkflowParameters string
  | ReconciliationError string string
  | ResumeError string string
  | SerializationError string string string
  | InvalidEventSequence string int "int option"
  | UnitOfWorkState string

datatype pyexc =
    TypeError string
  | ValueError string
  | KeyError string
  | RuntimeInvariant string
  | ExecutorNotFound string
  | WorkflowNotFound string
  | InvalidRunStateForResume string string
  | GraphTopologyMismatch string string string
  | DuplicateReconciliationVerifier string
  | MetadataNotFound string string
  | DuplicateMetadata string string
  | MetadataConflict string string string string
  | MetadataInvariant string
  | InvalidStateTransition string string string string
  | TerminalState string string string string
  | CircularDependency "string list"
  | OverflowError string
  | V1Error v1_error
  | Raised string string
  | Diverged

type_synonym 'a result = "pyexc + 'a"

section \<open>Computations with state and exceptions\<close>

text \<open>
  A method that reads and writes state and may raise is a function from the state to its
  outcome and the state it leaves behind; an exception keeps the writes made before it.
\<close>

type_synonym ('s, 'a) act = "'s \<Rightarrow> 'a result \<times> 's"

definition ret :: "'a \<Rightarrow> ('s, 'a) act" where
  "ret x = (\<lambda>s. (Inr x, s))"

definition raise :: "pyexc \<Rightarrow> ('s, 'a) act" where
  "raise e = (\<lambda>s. (Inl e, s))"

definition bindA :: "('s, 'a) act \<Rightarrow> ('a \<Rightarrow> ('s, 'b) act) \<Rightarrow> ('s, 'b) act" where
  "bindA m f = (\<lambda>s. case m s of (Inl e, t) \<Rightarrow> (Inl e, t) | (Inr x, t) \<Rightarrow> f x t)"

definition thenA :: "('s, 'a) act \<Rightarrow> ('s, 'b) act \<Rightarrow> ('s, 'b) act" where
  "thenA m k = bindA m (\<lambda>_. k)"

definition gets :: "('s \<Rightarrow> 'a) \<Rightarrow> ('s, 'a) act" where
  "gets f = (\<lambda>s. (Inr (f s), s))"

definition modifyA :: "('s \<Rightarrow> 's) \<Rightarrow> ('s, unit) act" where
  "modifyA f = (\<lambda>s. (Inr (), f s))"

definition liftR :: "'a result \<Rightarrow> ('s, 'a) act" where
  "liftR r = (\<lambda>s. (r, s))"

definition requireA :: "bool \<Rightarrow> pyexc \<Rightarrow> ('s, unit) act" where
  "requireA b e = (if b then ret () else raise e)"

definition require :: "bool \<Rightarrow> pyexc \<Rightarrow> unit result" where
  "require b e = (if b then Inr () else Inl e)"

definition bindR :: "'a result \<Rightarrow> ('a \<Rightarrow> 'b result) \<Rightarrow> 'b result" where
  "bindR r f = (case r of Inl e \<Rightarrow> Inl e | Inr x \<Rightarrow> f x)"

definition thenR :: "'a result \<Rightarrow> 'b result \<Rightarrow> 'b result" where
  "thenR r k = bindR r (\<lambda>_. k)"

definition catchA :: "('s, 'a) act \<Rightarrow> (pyexc \<Rightarrow> ('s, 'a) act) \<Rightarrow> ('s, 'a) act" where
  "catchA m h = (\<lambda>s. case m s of (Inl e, t) \<Rightarrow> h e t | (Inr x, t) \<Rightarrow> (Inr x, t))"

text \<open>\<open>attemptA\<close> hands the outcome to its caller, as \<open>try: ... except Exception\<close> does;
  \<open>finallyA\<close> runs its second part whatever the first did.\<close>

definition attemptA :: "('s, 'a) act \<Rightarrow> ('s, 'a result) act" where
  "attemptA m = (\<lambda>s. case m s of (r, t) \<Rightarrow> (Inr r, t))"

definition finallyA :: "('s, 'a) act \<Rightarrow> ('s, unit) act \<Rightarrow> ('s, 'a) act" where
  "finallyA m k = (\<lambda>s. case m s of (r, t) \<Rightarrow>
     (case k t of (Inl e, u) \<Rightarrow> (Inl e, u) | (Inr _, u) \<Rightarrow> (r, u)))"

primrec mapA :: "('b \<Rightarrow> ('s, 'a) act) \<Rightarrow> 'b list \<Rightarrow> ('s, 'a list) act" where
  "mapA f [] = ret []"
| "mapA f (x # xs) = bindA (f x) (\<lambda>y. bindA (mapA f xs) (\<lambda>ys. ret (y # ys)))"

primrec forA :: "'b list \<Rightarrow> ('b \<Rightarrow> ('s, unit) act) \<Rightarrow> ('s, unit) act" where
  "forA [] f = ret ()"
| "forA (x # xs) f = thenA (f x) (forA xs f)"

primrec foldA :: "('b \<Rightarrow> 'a \<Rightarrow> ('s, 'a) act) \<Rightarrow> 'b list \<Rightarrow> 'a \<Rightarrow> ('s, 'a) act" where
  "foldA f [] a = ret a"
| "foldA f (x # xs) a = bindA (f x a) (foldA f xs)"

primrec mapR :: "('b \<Rightarrow> 'a result) \<Rightarrow> 'b list \<Rightarrow> 'a list result" where
  "mapR f [] = Inr []"
| "mapR f (x # xs) = bindR (f x) (\<lambda>y. bindR (mapR f xs) (\<lambda>ys. Inr (y # ys)))"

primrec forR :: "'b list \<Rightarrow> ('b \<Rightarrow> unit result) \<Rightarrow> unit result" where
  "forR [] f = Inr ()"
| "forR (x # xs) f = thenR (f x) (forR xs f)"

primrec foldR :: "('b \<Rightarrow> 'a \<Rightarrow> 'a result) \<Rightarrow> 'b list \<Rightarrow> 'a \<Rightarrow> 'a result" where
  "foldR f [] a = Inr a"
| "foldR f (x # xs) a = bindR (f x a) (foldR f xs)"

text \<open>Run a computation on one part of a larger state.\<close>

definition zoomA :: "('t \<Rightarrow> 's) \<Rightarrow> ('s \<Rightarrow> 't \<Rightarrow> 't) \<Rightarrow> ('s, 'a) act \<Rightarrow> ('t, 'a) act" where
  "zoomA get put m = (\<lambda>t. case m (get t) of (r, s) \<Rightarrow> (r, put s t))"

text \<open>Adding a duration: \<open>timedelta\<close> rounds to microseconds and both types are bounded.\<close>

definition round_half_even :: "rat \<Rightarrow> int" where
  "round_half_even r = (let f = \<lfloor>r\<rfloor>; d = r - of_int f in
     if d < 1 / 2 \<or> d = 1 / 2 \<and> even f then f else f + 1)"

definition MAX_TIMEDELTA_US :: int where
  "MAX_TIMEDELTA_US = 1000000000 * us_per_day - 1"

definition MAX_DATETIME_US :: int where
  \<comment> \<open>The last microsecond of the year 9999, from the start of 1970 (UTC).\<close>
  "MAX_DATETIME_US = 253402300799999999"

definition add_seconds :: "datetime \<Rightarrow> pynum \<Rightarrow> datetime result" where
  \<comment> \<open>\<open>t + timedelta(seconds=x)\<close> for a finite \<open>x \<ge> 0\<close>.\<close>
  "add_seconds t x = (let us = round_half_even (num_val x * of_int us_per_second) in
     thenR (require (us \<le> MAX_TIMEDELTA_US) (OverflowError ''timedelta days must have magnitude <= 999999999''))
    (thenR (require (dt_us t + us \<le> MAX_DATETIME_US) (OverflowError ''date value out of range''))
    (Inr (Datetime (dt_us t + us) (dt_aware t)))))"

lemmas act_defs = ret_def raise_def bindA_def thenA_def gets_def modifyA_def liftR_def
  requireA_def catchA_def zoomA_def attemptA_def finallyA_def

lemma act_ret [simp]: "ret x s = (Inr x, s)"
  and act_raise [simp]: "raise e s = (Inl e, s)"
  and act_gets [simp]: "gets f s = (Inr (f s), s)"
  and act_modify [simp]: "modifyA g s = (Inr (), g s)"
  and act_lift [simp]: "liftR r s = (r, s)"
  by (simp_all add: act_defs)

lemma act_require [simp]:
  "requireA b e s = (if b then Inr () else Inl e, s)"
  by (simp add: act_defs)

lemma bindA_Inr [simp]: "m s = (Inr x, t) \<Longrightarrow> bindA m f s = f x t"
  by (simp add: bindA_def)

lemma bindA_Inl [simp]: "m s = (Inl e, t) \<Longrightarrow> bindA m f s = (Inl e, t)"
  by (simp add: bindA_def)

lemma thenA_Inr [simp]: "m s = (Inr x, t) \<Longrightarrow> thenA m k s = k t"
  by (simp add: thenA_def)

lemma thenA_Inl [simp]: "m s = (Inl e, t) \<Longrightarrow> thenA m k s = (Inl e, t)"
  by (simp add: thenA_def)

lemma bindA_okE:
  assumes "bindA m f s = (Inr y, u)"
  obtains x t where "m s = (Inr x, t)" "f x t = (Inr y, u)"
  using assms by (auto simp: bindA_def split: prod.splits sum.splits)

lemma thenA_okE:
  assumes "thenA m k s = (Inr y, u)"
  obtains x t where "m s = (Inr x, t)" "k t = (Inr y, u)"
  using assms by (auto simp: thenA_def elim: bindA_okE)

lemma bindR_simps [simp]: "bindR (Inl e) f = Inl e" "bindR (Inr x) f = f x"
  by (simp_all add: bindR_def)

lemma thenR_simps [simp]: "thenR (Inl e) k = Inl e" "thenR (Inr x) k = k"
  by (simp_all add: thenR_def)

lemma bindR_Inr_iff: "bindR r f = Inr y \<longleftrightarrow> (\<exists>x. r = Inr x \<and> f x = Inr y)"
  by (cases r) auto

lemma thenR_Inr_iff: "thenR r k = Inr y \<longleftrightarrow> (\<exists>x. r = Inr x) \<and> k = Inr y"
  by (cases r) auto

lemma require_Inr_iff [simp]: "require b e = Inr u \<longleftrightarrow> b"
  by (simp add: require_def)

lemma require_Inl_iff [simp]: "require b e = Inl e' \<longleftrightarrow> \<not> b \<and> e' = e"
  by (auto simp: require_def)

lemmas result_iffs = bindR_Inr_iff thenR_Inr_iff

lemma forR_Inr_iff: "forR xs f = Inr u \<longleftrightarrow> (\<forall>x \<in> set xs. f x = Inr ())"
  by (induction xs) (auto simp: thenR_Inr_iff)

lemma forR_Inl: "forR xs f = Inl e \<Longrightarrow> \<exists>x \<in> set xs. f x = Inl e"
  by (induction xs) (auto simp: thenR_def bindR_def split: sum.splits)

lemma thenR_Inl_iff: "thenR r k = Inl e \<longleftrightarrow> r = Inl e \<or> (\<exists>x. r = Inr x) \<and> k = Inl e"
  by (cases r) auto

lemma bindR_Inl_iff: "bindR r f = Inl e \<longleftrightarrow> r = Inl e \<or> (\<exists>x. r = Inr x \<and> f x = Inl e)"
  by (cases r) auto

lemma mapR_Inr_iff: "mapR f xs = Inr ys \<longleftrightarrow> list_all2 (\<lambda>x y. f x = Inr y) xs ys"
  by (induction xs arbitrary: ys) (auto simp: bindR_Inr_iff list_all2_Cons1)

lemma mapR_cong [fundef_cong]:
  "xs = ys \<Longrightarrow> (\<And>x. x \<in> set ys \<Longrightarrow> f x = g x) \<Longrightarrow> mapR f xs = mapR g ys"
  by (induction xs arbitrary: ys) auto

section \<open>State relations that every computation of a component maintains\<close>

text \<open>
  \<open>maintains R m\<close>: whatever \<open>m\<close> returns or raises, the state it leaves is related to the
  one it was given.  For a reflexive and transitive \<open>R\<close> (an invariant kept, a log that only
  grows, terminal entities untouched) the combinators maintain \<open>R\<close> when their parts do.
\<close>

definition maintains :: "('s \<Rightarrow> 's \<Rightarrow> bool) \<Rightarrow> ('s, 'a) act \<Rightarrow> bool" where
  "maintains R m \<longleftrightarrow> (\<forall>s. R s (snd (m s)))"

lemma maintainsI: "(\<And>s. R s (snd (m s))) \<Longrightarrow> maintains R m"
  by (simp add: maintains_def)

lemma maintainsD: "maintains R m \<Longrightarrow> m s = (r, t) \<Longrightarrow> R s t"
  by (metis maintains_def snd_conv)

text \<open>\<open>returns m x\<close>: \<open>x\<close> is a value that \<open>m\<close> returns in some state.\<close>

definition returns :: "('s, 'a) act \<Rightarrow> 'a \<Rightarrow> bool" where
  "returns m x \<longleftrightarrow> (\<exists>s t. m s = (Inr x, t))"

lemma returns_simps [simp]:
  "returns (liftR r) x \<longleftrightarrow> r = Inr x" "returns (ret y) x \<longleftrightarrow> x = y" "\<not> returns (raise e) x"
  by (auto simp: returns_def)

lemma returns_bindE:
  assumes "returns (bindA m f) y"
  obtains x where "returns m x" "returns (f x) y"
proof -
  from assms obtain s u where "bindA m f s = (Inr y, u)" by (auto simp: returns_def)
  then obtain x t where "m s = (Inr x, t)" "f x t = (Inr y, u)" by (rule bindA_okE)
  then show thesis by (intro that) (auto simp: returns_def)
qed

locale state_preorder =
  fixes R :: "'s \<Rightarrow> 's \<Rightarrow> bool"
  assumes refl: "R s s"
    and trans: "R s t \<Longrightarrow> R t u \<Longrightarrow> R s u"
begin

lemma ret: "maintains R (ret x)"
  and raise: "maintains R (raise e)"
  and gets: "maintains R (gets f)"
  and liftR: "maintains R (liftR r)"
  and requireA: "maintains R (requireA b e)"
  by (simp_all add: maintains_def refl)

lemma modifyA: "(\<And>s. R s (f s)) \<Longrightarrow> maintains R (modifyA f)"
  by (simp add: maintains_def)

lemma bindA:
  assumes "maintains R m" and "\<And>x. maintains R (f x)"
  shows "maintains R (bindA m f)"
proof (rule maintainsI)
  fix s
  obtain r t where m: "m s = (r, t)" by fastforce
  with assms(1) have "R s t" by (blast dest: maintainsD)
  moreover have "R t (snd (f x t))" for x
    using assms(2) by (simp add: maintains_def)
  ultimately show "R s (snd (bindA m f s))"
    using m by (cases r) (auto intro: trans)
qed

lemma bindA_returns:
  assumes "maintains R m" and "\<And>x. returns m x \<Longrightarrow> maintains R (f x)"
  shows "maintains R (bindA m f)"
proof (rule maintainsI)
  fix s
  obtain r t where m: "m s = (r, t)" by fastforce
  with assms(1) have "R s t" by (blast dest: maintainsD)
  moreover have "R t (snd (f x t))" if "r = Inr x" for x
    using assms(2) [of x] m that by (auto simp: maintains_def returns_def)
  ultimately show "R s (snd (bindA m f s))"
    using m by (cases r) (auto intro: trans)
qed

lemma thenA: "maintains R m \<Longrightarrow> maintains R k \<Longrightarrow> maintains R (thenA m k)"
  by (simp add: thenA_def bindA)

lemma catchA:
  assumes "maintains R m" and "\<And>e. maintains R (h e)"
  shows "maintains R (catchA m h)"
proof (rule maintainsI)
  fix s
  obtain r t where m: "m s = (r, t)" by fastforce
  with assms(1) have "R s t" by (blast dest: maintainsD)
  moreover have "R t (snd (h e t))" for e
    using assms(2) by (simp add: maintains_def)
  ultimately show "R s (snd (catchA m h s))"
    using m by (cases r) (auto simp: Prelude.catchA_def intro: trans)
qed

lemma attemptA: "maintains R m \<Longrightarrow> maintains R (attemptA m)"
  by (simp add: maintains_def attemptA_def split_beta)

lemma finallyA:
  assumes "maintains R m" and "maintains R k"
  shows "maintains R (finallyA m k)"
proof (rule maintainsI)
  fix s
  have "R s (snd (m s))" "R (snd (m s)) (snd (k (snd (m s))))"
    using assms by (simp_all add: maintains_def)
  then show "R s (snd (finallyA m k s))"
    by (auto simp: finallyA_def split: prod.splits sum.splits intro: trans)
qed

lemma mapA: "(\<And>x. maintains R (f x)) \<Longrightarrow> maintains R (mapA f xs)"
  by (induction xs) (auto intro!: ret bindA)

lemma forA: "(\<And>x. maintains R (f x)) \<Longrightarrow> maintains R (forA xs f)"
  by (induction xs) (auto intro!: ret thenA)

lemma foldA: "(\<And>x a. maintains R (f x a)) \<Longrightarrow> maintains R (foldA f xs a)"
  by (induction xs arbitrary: a) (auto intro!: ret bindA)

lemma if_split: "(b \<Longrightarrow> maintains R m) \<Longrightarrow> (\<not> b \<Longrightarrow> maintains R k) \<Longrightarrow> maintains R (if b then m else k)"
  by simp

lemma option_split:
  "maintains R m \<Longrightarrow> (\<And>x. maintains R (f x)) \<Longrightarrow>
   maintains R (case v of None \<Rightarrow> m | Some x \<Rightarrow> f x)"
  by (cases v) simp_all

lemma sum_split:
  "(\<And>e. maintains R (f e)) \<Longrightarrow> (\<And>x. maintains R (g x)) \<Longrightarrow>
   maintains R (case v of Inl e \<Rightarrow> f e | Inr x \<Rightarrow> g x)"
  by (cases v) simp_all

lemma prod_split: "(\<And>a b. maintains R (f a b)) \<Longrightarrow> maintains R (case p of (a, b) \<Rightarrow> f a b)"
  by (cases p) simp

lemma let_split: "(\<And>x. maintains R (f x)) \<Longrightarrow> maintains R (let x = v in f x)"
  by simp

lemmas combinators = ret raise gets liftR requireA bindA thenA catchA attemptA finallyA mapA forA foldA
  if_split option_split sum_split prod_split let_split

end

section \<open>Dictionaries\<close>

type_synonym ('k, 'v) dict = "('k \<times> 'v) list"

definition dict_ok :: "('k, 'v) dict \<Rightarrow> bool" where
  "dict_ok d \<longleftrightarrow> distinct (map fst d)"

abbreviation dict_get :: "('k, 'v) dict \<Rightarrow> 'k \<Rightarrow> 'v option" where
  "dict_get d k \<equiv> map_of d k"

abbreviation dict_has :: "('k, 'v) dict \<Rightarrow> 'k \<Rightarrow> bool" where
  "dict_has d k \<equiv> k \<in> fst ` set d"

definition dict_set :: "'k \<Rightarrow> 'v \<Rightarrow> ('k, 'v) dict \<Rightarrow> ('k, 'v) dict" where
  "dict_set = AList.update"

definition dict_pop :: "'k \<Rightarrow> ('k, 'v) dict \<Rightarrow> ('k, 'v) dict" where
  \<comment> \<open>\<open>d.pop(k, None)\<close>\<close>
  "dict_pop k d = filter (\<lambda>p. fst p \<noteq> k) d"

definition dict_values :: "('k, 'v) dict \<Rightarrow> 'v list" where
  "dict_values d = map snd d"

lemma dict_get_set: "dict_get (dict_set k v d) j = (if j = k then Some v else dict_get d j)"
  by (simp add: dict_set_def update_conv')

lemma dict_get_pop: "dict_get (dict_pop k d) j = (if j = k then None else dict_get d j)"
  by (induction d) (auto simp: dict_pop_def)

lemma dict_set_keys: "fst ` set (dict_set k v d) = insert k (fst ` set d)"
  by (simp add: dict_set_def dom_update)

lemma dict_set_fresh: "k \<notin> fst ` set d \<Longrightarrow> dict_set k v d = d @ [(k, v)]"
  by (induction d) (auto simp: dict_set_def)

lemma dict_set_existing_keys: "k \<in> fst ` set d \<Longrightarrow> map fst (dict_set k v d) = map fst d"
  by (simp add: dict_set_def update_keys)

lemma dict_ok_Nil [simp]: "dict_ok []"
  by (simp add: dict_ok_def)

lemma dict_ok_set [simp]: "dict_ok d \<Longrightarrow> dict_ok (dict_set k v d)"
  by (simp add: dict_ok_def dict_set_def distinct_update)

lemma dict_ok_pop [simp]: "dict_ok d \<Longrightarrow> dict_ok (dict_pop k d)"
  by (simp add: dict_ok_def dict_pop_def distinct_map_filter)

lemma dict_ok_filter: "dict_ok d \<Longrightarrow> dict_ok (filter P d)"
  by (simp add: dict_ok_def distinct_map_filter)

lemma dict_get_iff: "dict_ok d \<Longrightarrow> dict_get d k = Some v \<longleftrightarrow> (k, v) \<in> set d"
  by (simp add: dict_ok_def)

lemma dict_get_None_iff: "dict_get d k = None \<longleftrightarrow> k \<notin> fst ` set d"
  by (simp add: map_of_eq_None_iff)

lemma dict_has_iff: "dict_has d k \<longleftrightarrow> (\<exists>v. dict_get d k = Some v)"
  by (metis dict_get_None_iff not_None_eq)

lemma dict_set_set:
  "dict_ok d \<Longrightarrow> set (dict_set k v d) = {p \<in> set d. fst p \<noteq> k} \<union> {(k, v)}"
proof -
  assume ok: "dict_ok d"
  have "(j, w) \<in> set (dict_set k v d) \<longleftrightarrow> (j, w) \<in> {p \<in> set d. fst p \<noteq> k} \<union> {(k, v)}" for j w
    using ok dict_get_iff [of d j w] dict_get_iff [of "dict_set k v d" j w]
    by (auto simp: dict_get_set split: if_splits)
  then show ?thesis by auto
qed

lemma dict_values_set: "dict_ok d \<Longrightarrow> set (dict_values d) = {v. \<exists>k. dict_get d k = Some v}"
  by (force simp: dict_values_def dict_get_iff)

section \<open>Sorting\<close>

lemma sort_key_filter_set [simp]: "set (sort_key f (filter P xs)) = {x \<in> set xs. P x}"
  by auto

lemma distinct_sort_key: "distinct xs \<Longrightarrow> distinct (sort_key f xs)"
  by simp

lemma map_sort_key: "map f (sort_key f xs) = sort (map f xs)"
  by (rule sym, rule properties_for_sort) simp_all

end
