(* ===== verification/States.thy ===== *)
theory States
  imports Prelude
begin

text \<open>
  The lifecycle vocabulary of \<open>states/enums.py\<close> and the transition tables of
  \<open>states/machine.py\<close>: workflow runs, task runs and task attempts, each with its statuses,
  its terminal statuses and the targets allowed from every status.  The three tables share
  the contract of the locale \<open>lifecycle\<close>; every fact about histories of statuses is proved
  once there and interpreted for the three machines.
\<close>

section \<open>Statuses\<close>

datatype workflow_run_status =
    W_PENDING | W_RUNNING | W_SUCCEEDED | W_FAILED | W_CANCELLATION_REQUESTED
  | W_CANCELLED | W_TIMED_OUT | W_UNKNOWN_OUTCOME

datatype task_run_status =
    T_PENDING | T_READY | T_RUNNING | T_SUCCEEDED | T_FAILED | T_SKIPPED | T_CANCELLED
  | T_TIMED_OUT | T_BLOCKED | T_UNKNOWN_OUTCOME | T_REUSED

datatype task_attempt_status =
    A_PENDING | A_STARTING | A_RUNNING | A_SUCCEEDED | A_FAILED | A_TIMED_OUT
  | A_CANCELLATION_REQUESTED | A_CANCELLED | A_CANCELLATION_UNCONFIRMED
  | A_UNKNOWN_OUTCOME | A_REQUIRES_RECONCILIATION

datatype skip_reason =
    CONDITION_FALSE | DEPENDENCY_FAILED | FAIL_FAST_ABORT | BRANCH_NOT_SELECTED
  | TRIGGER_RULE_UNSATISFIED | UPSTREAM_SKIPPED

datatype block_reason =
    UPSTREAM_FAILED | UPSTREAM_UNKNOWN | MISSING_INPUT | POLICY | CANCELLATION

primrec workflow_status_value :: "workflow_run_status \<Rightarrow> string" where
  "workflow_status_value W_PENDING = ''PENDING''"
| "workflow_status_value W_RUNNING = ''RUNNING''"
| "workflow_status_value W_SUCCEEDED = ''SUCCEEDED''"
| "workflow_status_value W_FAILED = ''FAILED''"
| "workflow_status_value W_CANCELLATION_REQUESTED = ''CANCELLATION_REQUESTED''"
| "workflow_status_value W_CANCELLED = ''CANCELLED''"
| "workflow_status_value W_TIMED_OUT = ''TIMED_OUT''"
| "workflow_status_value W_UNKNOWN_OUTCOME = ''UNKNOWN_OUTCOME''"

primrec task_status_value :: "task_run_status \<Rightarrow> string" where
  "task_status_value T_PENDING = ''PENDING''"
| "task_status_value T_READY = ''READY''"
| "task_status_value T_RUNNING = ''RUNNING''"
| "task_status_value T_SUCCEEDED = ''SUCCEEDED''"
| "task_status_value T_FAILED = ''FAILED''"
| "task_status_value T_SKIPPED = ''SKIPPED''"
| "task_status_value T_CANCELLED = ''CANCELLED''"
| "task_status_value T_TIMED_OUT = ''TIMED_OUT''"
| "task_status_value T_BLOCKED = ''BLOCKED''"
| "task_status_value T_UNKNOWN_OUTCOME = ''UNKNOWN_OUTCOME''"
| "task_status_value T_REUSED = ''REUSED''"

primrec attempt_status_value :: "task_attempt_status \<Rightarrow> string" where
  "attempt_status_value A_PENDING = ''PENDING''"
| "attempt_status_value A_STARTING = ''STARTING''"
| "attempt_status_value A_RUNNING = ''RUNNING''"
| "attempt_status_value A_SUCCEEDED = ''SUCCEEDED''"
| "attempt_status_value A_FAILED = ''FAILED''"
| "attempt_status_value A_TIMED_OUT = ''TIMED_OUT''"
| "attempt_status_value A_CANCELLATION_REQUESTED = ''CANCELLATION_REQUESTED''"
| "attempt_status_value A_CANCELLED = ''CANCELLED''"
| "attempt_status_value A_CANCELLATION_UNCONFIRMED = ''CANCELLATION_UNCONFIRMED''"
| "attempt_status_value A_UNKNOWN_OUTCOME = ''UNKNOWN_OUTCOME''"
| "attempt_status_value A_REQUIRES_RECONCILIATION = ''REQUIRES_RECONCILIATION''"

lemma workflow_status_value_inj [simp]:
  "workflow_status_value s = workflow_status_value t \<longleftrightarrow> s = t"
  by (cases s; cases t; simp)

lemma task_status_value_inj [simp]: "task_status_value s = task_status_value t \<longleftrightarrow> s = t"
  by (cases s; cases t; simp)

lemma attempt_status_value_inj [simp]:
  "attempt_status_value s = attempt_status_value t \<longleftrightarrow> s = t"
  by (cases s; cases t; simp)

definition WORKFLOW_TERMINAL_STATUSES :: "workflow_run_status set" where
  "WORKFLOW_TERMINAL_STATUSES = {W_SUCCEEDED, W_FAILED, W_CANCELLED, W_TIMED_OUT}"

definition TASK_RUN_TERMINAL_STATUSES :: "task_run_status set" where
  "TASK_RUN_TERMINAL_STATUSES =
     {T_SUCCEEDED, T_FAILED, T_SKIPPED, T_CANCELLED, T_TIMED_OUT, T_REUSED}"

definition TASK_ATTEMPT_TERMINAL_STATUSES :: "task_attempt_status set" where
  "TASK_ATTEMPT_TERMINAL_STATUSES = {A_SUCCEEDED, A_FAILED, A_TIMED_OUT, A_CANCELLED}"

lemmas terminal_defs = WORKFLOW_TERMINAL_STATUSES_def TASK_RUN_TERMINAL_STATUSES_def
  TASK_ATTEMPT_TERMINAL_STATUSES_def

section \<open>Transition tables\<close>

fun workflow_transitions :: "workflow_run_status \<Rightarrow> workflow_run_status set" where
  "workflow_transitions W_PENDING = {W_RUNNING, W_CANCELLATION_REQUESTED}"
| "workflow_transitions W_RUNNING =
     {W_SUCCEEDED, W_FAILED, W_CANCELLATION_REQUESTED, W_TIMED_OUT, W_UNKNOWN_OUTCOME}"
| "workflow_transitions W_CANCELLATION_REQUESTED =
     {W_RUNNING, W_CANCELLED, W_UNKNOWN_OUTCOME}"
| "workflow_transitions W_UNKNOWN_OUTCOME =
     {W_RUNNING, W_SUCCEEDED, W_FAILED, W_CANCELLED, W_TIMED_OUT}"
| "workflow_transitions W_SUCCEEDED = {}"
| "workflow_transitions W_FAILED = {}"
| "workflow_transitions W_CANCELLED = {}"
| "workflow_transitions W_TIMED_OUT = {}"

fun task_run_transitions :: "task_run_status \<Rightarrow> task_run_status set" where
  "task_run_transitions T_PENDING = {T_READY, T_SKIPPED, T_BLOCKED, T_CANCELLED, T_REUSED}"
| "task_run_transitions T_READY = {T_RUNNING, T_SKIPPED, T_BLOCKED, T_CANCELLED}"
| "task_run_transitions T_BLOCKED = {T_READY, T_SKIPPED, T_CANCELLED}"
| "task_run_transitions T_RUNNING =
     {T_SUCCEEDED, T_FAILED, T_CANCELLED, T_TIMED_OUT, T_UNKNOWN_OUTCOME}"
| "task_run_transitions T_UNKNOWN_OUTCOME =
     {T_RUNNING, T_SUCCEEDED, T_FAILED, T_CANCELLED, T_TIMED_OUT}"
| "task_run_transitions T_SUCCEEDED = {}"
| "task_run_transitions T_FAILED = {}"
| "task_run_transitions T_SKIPPED = {}"
| "task_run_transitions T_CANCELLED = {}"
| "task_run_transitions T_TIMED_OUT = {}"
| "task_run_transitions T_REUSED = {}"

fun task_attempt_transitions :: "task_attempt_status \<Rightarrow> task_attempt_status set" where
  "task_attempt_transitions A_PENDING =
     {A_STARTING, A_CANCELLATION_REQUESTED, A_CANCELLED}"
| "task_attempt_transitions A_STARTING =
     {A_RUNNING, A_FAILED, A_CANCELLATION_REQUESTED, A_UNKNOWN_OUTCOME}"
| "task_attempt_transitions A_RUNNING =
     {A_SUCCEEDED, A_FAILED, A_TIMED_OUT, A_CANCELLATION_REQUESTED, A_UNKNOWN_OUTCOME,
      A_REQUIRES_RECONCILIATION}"
| "task_attempt_transitions A_CANCELLATION_REQUESTED =
     {A_RUNNING, A_CANCELLED, A_CANCELLATION_UNCONFIRMED, A_SUCCEEDED, A_FAILED,
      A_UNKNOWN_OUTCOME}"
| "task_attempt_transitions A_CANCELLATION_UNCONFIRMED =
     {A_REQUIRES_RECONCILIATION, A_CANCELLED, A_SUCCEEDED, A_FAILED, A_UNKNOWN_OUTCOME}"
| "task_attempt_transitions A_UNKNOWN_OUTCOME =
     {A_REQUIRES_RECONCILIATION, A_SUCCEEDED, A_FAILED, A_CANCELLED}"
| "task_attempt_transitions A_REQUIRES_RECONCILIATION =
     {A_RUNNING, A_SUCCEEDED, A_FAILED, A_CANCELLED, A_UNKNOWN_OUTCOME}"
| "task_attempt_transitions A_SUCCEEDED = {}"
| "task_attempt_transitions A_FAILED = {}"
| "task_attempt_transitions A_TIMED_OUT = {}"
| "task_attempt_transitions A_CANCELLED = {}"

section \<open>The contract of a lifecycle\<close>

text \<open>
  A lifecycle is a transition table whose terminal statuses are exactly its dead ends,
  whose initial status is never entered again, and from whose every status some terminal
  status can be reached.  A history is a list of statuses in which each one is an allowed
  target of the one before.
\<close>

locale lifecycle =
  fixes targets :: "'s \<Rightarrow> 's set" and terminal :: "'s set" and initial :: 's
  assumes terminal_iff: "s \<in> terminal \<longleftrightarrow> targets s = {}"
    and initial_not_target: "initial \<notin> targets s"
    and initial_live: "initial \<notin> terminal"
    and no_self_loop: "s \<notin> targets s"
    and completable: "\<exists>t \<in> terminal. (\<lambda>a b. b \<in> targets a)\<^sup>*\<^sup>* s t"
begin

lemma terminal_no_target: "s \<in> terminal \<Longrightarrow> t \<notin> targets s"
  by (simp add: terminal_iff)

lemma terminal_absorbing:
  "(\<lambda>a b. b \<in> targets a)\<^sup>*\<^sup>* s t \<Longrightarrow> s \<in> terminal \<Longrightarrow> t = s"
  by (induction rule: rtranclp_induct) (auto simp: terminal_iff)

lemma history_after_terminal:
  "successively (\<lambda>a b. b \<in> targets a) (s # ss) \<Longrightarrow> s \<in> terminal \<Longrightarrow> ss = []"
  by (cases ss) (auto simp: terminal_iff)

lemma terminal_only_last:
  assumes "successively (\<lambda>a b. b \<in> targets a) (xs @ s # ys)" and "s \<in> terminal"
  shows "ys = []"
proof -
  have "successively (\<lambda>a b. b \<in> targets a) (s # ys)"
    using assms(1) by (simp add: successively_append_iff)
  then show ?thesis using assms(2) by (rule history_after_terminal)
qed

lemma initial_only_first:
  assumes "successively (\<lambda>a b. b \<in> targets a) (xs @ initial # ys)"
  shows "xs = []"
proof (rule ccontr)
  assume "xs \<noteq> []"
  then have "initial \<in> targets (last xs)"
    using assms by (simp add: successively_append_iff)
  then show False by (simp add: initial_not_target)
qed

lemma history_reaches:
  assumes "successively (\<lambda>a b. b \<in> targets a) (s # ss)"
  shows "(\<lambda>a b. b \<in> targets a)\<^sup>*\<^sup>* s (last (s # ss))"
  using assms
proof (induction ss arbitrary: s)
  case Nil
  then show ?case by simp
next
  case (Cons t ss)
  then have "t \<in> targets s" and "(\<lambda>a b. b \<in> targets a)\<^sup>*\<^sup>* t (last (t # ss))"
    by simp_all
  then show ?case by (simp add: converse_rtranclp_into_rtranclp)
qed

end

lemma reach_step:
  "t \<in> f s \<Longrightarrow> (\<lambda>a b. b \<in> f a)\<^sup>*\<^sup>* t u \<Longrightarrow> (\<lambda>a b. b \<in> f a)\<^sup>*\<^sup>* s u"
  by (simp add: converse_rtranclp_into_rtranclp)

lemma workflow_completable:
  "\<exists>t \<in> WORKFLOW_TERMINAL_STATUSES. (\<lambda>a b. b \<in> workflow_transitions a)\<^sup>*\<^sup>* s t"
proof -
  have run: "(\<lambda>a b. b \<in> workflow_transitions a)\<^sup>*\<^sup>* W_RUNNING W_SUCCEEDED"
    by (rule r_into_rtranclp) simp
  show ?thesis
    by (cases s) (force simp: terminal_defs intro: run reach_step [OF _ run])+
qed

lemma task_run_completable:
  "\<exists>t \<in> TASK_RUN_TERMINAL_STATUSES. (\<lambda>a b. b \<in> task_run_transitions a)\<^sup>*\<^sup>* s t"
  by (cases s) (force simp: terminal_defs intro: r_into_rtranclp)+

lemma task_attempt_completable:
  "\<exists>t \<in> TASK_ATTEMPT_TERMINAL_STATUSES. (\<lambda>a b. b \<in> task_attempt_transitions a)\<^sup>*\<^sup>* s t"
  by (cases s) (force simp: terminal_defs intro: r_into_rtranclp)+

interpretation workflow_lc: lifecycle workflow_transitions WORKFLOW_TERMINAL_STATUSES W_PENDING
proof unfold_locales
  show "s \<in> WORKFLOW_TERMINAL_STATUSES \<longleftrightarrow> workflow_transitions s = {}" for s
    by (cases s) (simp_all add: terminal_defs)
  show "W_PENDING \<notin> workflow_transitions s" and "s \<notin> workflow_transitions s" for s
    by (cases s; simp)+
qed (simp_all add: workflow_completable, simp add: terminal_defs)

interpretation task_lc: lifecycle task_run_transitions TASK_RUN_TERMINAL_STATUSES T_PENDING
proof unfold_locales
  show "s \<in> TASK_RUN_TERMINAL_STATUSES \<longleftrightarrow> task_run_transitions s = {}" for s
    by (cases s) (simp_all add: terminal_defs)
  show "T_PENDING \<notin> task_run_transitions s" and "s \<notin> task_run_transitions s" for s
    by (cases s; simp)+
qed (simp_all add: task_run_completable, simp add: terminal_defs)

interpretation attempt_lc: lifecycle task_attempt_transitions TASK_ATTEMPT_TERMINAL_STATUSES
  A_PENDING
proof unfold_locales
  show "s \<in> TASK_ATTEMPT_TERMINAL_STATUSES \<longleftrightarrow> task_attempt_transitions s = {}" for s
    by (cases s) (simp_all add: terminal_defs)
  show "A_PENDING \<notin> task_attempt_transitions s" and "s \<notin> task_attempt_transitions s" for s
    by (cases s; simp)+
qed (simp_all add: task_attempt_completable, simp add: terminal_defs)

section \<open>The published state contract\<close>

definition V2_WORKFLOW_RUN_STATUSES :: "string list" where
  "V2_WORKFLOW_RUN_STATUSES =
     [''PENDING'', ''RUNNING'', ''SUCCEEDED'', ''FAILED'', ''CANCELLATION_REQUESTED'',
      ''CANCELLED'', ''TIMED_OUT'', ''UNKNOWN_OUTCOME'']"

definition V2_TASK_RUN_STATUSES :: "string list" where
  "V2_TASK_RUN_STATUSES =
     [''PENDING'', ''READY'', ''RUNNING'', ''SUCCEEDED'', ''FAILED'', ''SKIPPED'',
      ''CANCELLED'', ''TIMED_OUT'', ''BLOCKED'', ''UNKNOWN_OUTCOME'']"

definition V2_TASK_ATTEMPT_STATUSES :: "string list" where
  "V2_TASK_ATTEMPT_STATUSES =
     [''PENDING'', ''STARTING'', ''RUNNING'', ''SUCCEEDED'', ''FAILED'', ''TIMED_OUT'',
      ''CANCELLATION_REQUESTED'', ''CANCELLED'', ''CANCELLATION_UNCONFIRMED'',
      ''UNKNOWN_OUTCOME'', ''REQUIRES_RECONCILIATION'']"

lemma workflow_contract_covers: "workflow_status_value s \<in> set V2_WORKFLOW_RUN_STATUSES"
  by (cases s) (simp_all add: V2_WORKFLOW_RUN_STATUSES_def)

lemma attempt_contract_covers: "attempt_status_value s \<in> set V2_TASK_ATTEMPT_STATUSES"
  by (cases s) (simp_all add: V2_TASK_ATTEMPT_STATUSES_def)

end
