(* ===== verification/Evidence.thy ===== *)
theory Evidence
  imports States
begin

text \<open>
  The immutable values that cross every boundary of the runtime: opaque identifiers
  (\<open>runtime/identity.py\<close>), correlation contexts (\<open>runtime/context.py\<close>), references to
  external runs (\<open>runtime/references.py\<close>), failure evidence (\<open>diagnostics/failure.py\<close>) and
  diagnostics (\<open>diagnostics/model.py\<close>).  A frozen dataclass is a record; its
  \<open>__post_init__\<close> is a function \<open>..._post_init\<close> that returns the exception it raises, and
  \<open>mk_...\<close> is the constructor call: validation, then the value.
\<close>

section \<open>Identifiers\<close>

datatype workflow_run_id = WorkflowRunId (wid_str: string)

datatype task_run_id = TaskRunId (tid_str: string)

datatype task_attempt_id = TaskAttemptId (aid_str: string)

datatype correlation_id = CorrelationId (cid_str: string)

text \<open>\<open>Identifier.__post_init__\<close>, and \<open>parse\<close> which runs it on a stored text.\<close>

definition identifier_post_init :: "string \<Rightarrow> unit result" where
  "identifier_post_init v = require (\<not> blank v) (ValueError ''identifier value must not be empty'')"

definition parse_workflow_run_id :: "string \<Rightarrow> workflow_run_id result" where
  "parse_workflow_run_id v = thenR (identifier_post_init v) (Inr (WorkflowRunId v))"

definition parse_task_run_id :: "string \<Rightarrow> task_run_id result" where
  "parse_task_run_id v = thenR (identifier_post_init v) (Inr (TaskRunId v))"

definition parse_task_attempt_id :: "string \<Rightarrow> task_attempt_id result" where
  "parse_task_attempt_id v = thenR (identifier_post_init v) (Inr (TaskAttemptId v))"

text \<open>Identifiers are ordered by their text, as \<open>sorted(..., key=str)\<close> orders them.\<close>

instantiation workflow_run_id :: linorder
begin

definition less_eq_workflow_run_id :: "workflow_run_id \<Rightarrow> workflow_run_id \<Rightarrow> bool" where
  "less_eq_workflow_run_id a b \<longleftrightarrow> wid_str a \<le> wid_str b"

definition less_workflow_run_id :: "workflow_run_id \<Rightarrow> workflow_run_id \<Rightarrow> bool" where
  "less_workflow_run_id a b \<longleftrightarrow> wid_str a < wid_str b"

instance
  by standard (auto simp: less_eq_workflow_run_id_def less_workflow_run_id_def
    workflow_run_id.expand)

end

instantiation task_run_id :: linorder
begin

definition less_eq_task_run_id :: "task_run_id \<Rightarrow> task_run_id \<Rightarrow> bool" where
  "less_eq_task_run_id a b \<longleftrightarrow> tid_str a \<le> tid_str b"

definition less_task_run_id :: "task_run_id \<Rightarrow> task_run_id \<Rightarrow> bool" where
  "less_task_run_id a b \<longleftrightarrow> tid_str a < tid_str b"

instance
  by standard (auto simp: less_eq_task_run_id_def less_task_run_id_def task_run_id.expand)

end

section \<open>Correlation contexts\<close>

record correlation_context =
  cc_correlation_id :: correlation_id
  cc_causation_id :: "string option"
  cc_parent_execution_id :: "string option"
  cc_workflow_run_id :: "string option"
  cc_task_run_id :: "string option"
  cc_task_attempt_id :: "string option"
  cc_ingestion_run_id :: "string option"
  cc_transformation_execution_id :: "string option"
  cc_trace_id :: "string option"
  cc_span_id :: "string option"
  cc_traceparent :: "string option"
  cc_tracestate :: "string option"
  cc_baggage :: "(string, string) dict"

definition optional_text :: "string \<Rightarrow> string option \<Rightarrow> unit result" where
  \<comment> \<open>\<open>value is not None and not value.strip()\<close> raises.\<close>
  "optional_text name v = (case v of None \<Rightarrow> Inr ()
     | Some s \<Rightarrow> require (\<not> blank s)
         (ValueError (name @ '' must be a non-empty string when provided'')))"

definition required_text :: "string \<Rightarrow> string \<Rightarrow> unit result" where
  "required_text name v = require (\<not> blank v) (ValueError (name @ '' must not be empty''))"

lemma optional_text_None [simp]: "optional_text name None = Inr ()"
  by (simp add: optional_text_def)

lemma optional_text_ok_iff:
  "optional_text name v = Inr u \<longleftrightarrow> (case v of None \<Rightarrow> True | Some s \<Rightarrow> \<not> blank s)"
  by (simp add: optional_text_def split: option.splits)

lemma required_text_ok_iff [simp]: "required_text name v = Inr u \<longleftrightarrow> \<not> blank v"
  by (simp add: required_text_def)

definition correlation_context_post_init :: "correlation_context \<Rightarrow> unit result" where
  "correlation_context_post_init c = forR
     [(''causation_id'', cc_causation_id c),
      (''parent_execution_id'', cc_parent_execution_id c),
      (''workflow_run_id'', cc_workflow_run_id c),
      (''task_run_id'', cc_task_run_id c),
      (''task_attempt_id'', cc_task_attempt_id c),
      (''ingestion_run_id'', cc_ingestion_run_id c),
      (''transformation_execution_id'', cc_transformation_execution_id c),
      (''trace_id'', cc_trace_id c),
      (''span_id'', cc_span_id c),
      (''traceparent'', cc_traceparent c),
      (''tracestate'', cc_tracestate c)]
     (\<lambda>(name, v). optional_text name v)"

definition mk_correlation_context :: "correlation_context \<Rightarrow> correlation_context result" where
  "mk_correlation_context c = thenR (correlation_context_post_init c) (Inr c)"

definition bare_correlation :: "correlation_id \<Rightarrow> correlation_context" where
  \<comment> \<open>The dataclass defaults: every field but the identifier is \<open>None\<close>.\<close>
  "bare_correlation cid =
     \<lparr>cc_correlation_id = cid, cc_causation_id = None, cc_parent_execution_id = None,
      cc_workflow_run_id = None, cc_task_run_id = None, cc_task_attempt_id = None,
      cc_ingestion_run_id = None, cc_transformation_execution_id = None, cc_trace_id = None,
      cc_span_id = None, cc_traceparent = None, cc_tracestate = None, cc_baggage = []\<rparr>"

text \<open>\<open>with_trace\<close>: a trace parent is derived only when none is given and both identifiers
  are non-empty.\<close>

definition py_lower :: "string \<Rightarrow> string" where
  "py_lower = map (\<lambda>c. let n = (of_char c :: nat) in
     if 65 \<le> n \<and> n \<le> 90 \<or> 192 \<le> n \<and> n \<le> 222 \<and> n \<noteq> 215 then char_of (n + 32) else c)"

definition with_trace ::
  "correlation_context \<Rightarrow> string \<Rightarrow> string option \<Rightarrow> string option \<Rightarrow> string option \<Rightarrow>
   (string, string) dict option \<Rightarrow> correlation_context result" where
  "with_trace c trace_id span_id traceparent tracestate baggage =
     (let resolved = (case traceparent of Some t \<Rightarrow> Some t
        | None \<Rightarrow> (case span_id of
            Some sp \<Rightarrow> (if trace_id \<noteq> [] \<and> sp \<noteq> []
                        then Some (''00-'' @ py_lower trace_id @ ''-'' @ py_lower sp @ ''-01'')
                        else None)
          | None \<Rightarrow> None))
      in mk_correlation_context (c\<lparr>
           cc_trace_id := Some trace_id,
           cc_span_id := span_id,
           cc_traceparent := resolved,
           cc_tracestate := (case tracestate of Some t \<Rightarrow> Some t | None \<Rightarrow> cc_tracestate c),
           cc_baggage := (case baggage of Some b \<Rightarrow> b | None \<Rightarrow> cc_baggage c)\<rparr>))"

fun split_on :: "char \<Rightarrow> string \<Rightarrow> string list" where
  \<comment> \<open>\<open>s.split(sep)\<close> for a one-character separator.\<close>
  "split_on sep [] = [[]]"
| "split_on sep (c # cs) =
     (if c = sep then [] # split_on sep cs
      else (case split_on sep cs of [] \<Rightarrow> [[c]] | w # ws \<Rightarrow> (c # w) # ws))"

definition with_w3c_trace ::
  "correlation_context \<Rightarrow> string \<Rightarrow> string option \<Rightarrow> (string, string) dict option \<Rightarrow>
   correlation_context result" where
  "with_w3c_trace c traceparent tracestate baggage =
     (let parts = split_on (CHR ''-'') (py_strip traceparent);
          four = 4 \<le> length parts
      in mk_correlation_context (c\<lparr>
           cc_trace_id := (if four then Some (parts ! 1) else cc_trace_id c),
           cc_span_id := (if four then Some (parts ! 2) else cc_span_id c),
           cc_traceparent := Some (py_strip traceparent),
           cc_tracestate := (case tracestate of Some t \<Rightarrow> Some t | None \<Rightarrow> cc_tracestate c),
           cc_baggage := (case baggage of Some b \<Rightarrow> b | None \<Rightarrow> cc_baggage c)\<rparr>))"

section \<open>References to external runs\<close>

record external_run_ref =
  er_provider :: string
  er_external_run_id :: string
  er_kind :: string
  er_status_hint :: "string option"
  er_status_locator :: "string option"
  er_correlation_id :: "correlation_id option"
  er_causation_id :: "string option"
  er_metadata :: "(string \<times> string) list"
  er_namespace :: string
  er_contract_version :: string

definition require_optional_text :: "string \<Rightarrow> string option \<Rightarrow> unit result" where
  "require_optional_text name v = (case v of None \<Rightarrow> Inr () | Some s \<Rightarrow> required_text name s)"

definition external_run_ref_post_init :: "external_run_ref \<Rightarrow> unit result" where
  "external_run_ref_post_init r =
     thenR (required_text ''provider'' (er_provider r))
    (thenR (required_text ''external_run_id'' (er_external_run_id r))
    (thenR (required_text ''kind'' (er_kind r))
    (thenR (require_optional_text ''status_hint'' (er_status_hint r))
    (thenR (require_optional_text ''status_locator'' (er_status_locator r))
    (thenR (require_optional_text ''causation_id'' (er_causation_id r))
    (thenR (required_text ''namespace'' (er_namespace r))
           (required_text ''contract_version'' (er_contract_version r))))))))"

record workflow_execution_reference =
  we_workflow_run_id :: workflow_run_id
  we_workflow_definition_id :: string
  we_status :: "string option"
  we_started_at :: "datetime option"
  we_owner :: string
  we_namespace :: string
  we_contract_version :: string

definition execution_reference_post_init :: "workflow_execution_reference \<Rightarrow> unit result" where
  "execution_reference_post_init r =
     thenR (required_text ''workflow_definition_id'' (we_workflow_definition_id r))
    (thenR (require_optional_text ''status'' (we_status r))
    (thenR (require (\<forall>d \<in> set_option (we_started_at r). dt_aware d)
       (ValueError ''started_at must be timezone-aware when provided''))
    (thenR (required_text ''owner'' (we_owner r))
    (thenR (required_text ''namespace'' (we_namespace r))
           (required_text ''contract_version'' (we_contract_version r))))))"

definition mk_execution_reference :: "workflow_execution_reference \<Rightarrow> workflow_execution_reference result" where
  "mk_execution_reference r = thenR (execution_reference_post_init r) (Inr r)"

definition external_key :: "external_run_ref \<Rightarrow> string \<times> string \<times> string" where
  "external_key r = (er_provider r, er_kind r, er_external_run_id r)"

section \<open>Failure evidence\<close>

datatype failure_category =
    F_VALIDATION | F_CONFIGURATION | F_CAPABILITY | F_AUTHENTICATION | F_AUTHORIZATION
  | F_NOT_FOUND | F_CONFLICT | F_TRANSIENT | F_TIMEOUT | F_CANCELLED | F_RESOURCE_EXHAUSTED
  | F_RATE_LIMITED | F_INTEGRITY | F_CONTRACT_VIOLATION | F_SIDE_EFFECT_FAILED
  | F_UNKNOWN_OUTCOME | F_INTERNAL | F_EXTERNAL_PROVIDER

primrec failure_category_value :: "failure_category \<Rightarrow> string" where
  "failure_category_value F_VALIDATION = ''validation''"
| "failure_category_value F_CONFIGURATION = ''configuration''"
| "failure_category_value F_CAPABILITY = ''capability''"
| "failure_category_value F_AUTHENTICATION = ''authentication''"
| "failure_category_value F_AUTHORIZATION = ''authorization''"
| "failure_category_value F_NOT_FOUND = ''not_found''"
| "failure_category_value F_CONFLICT = ''conflict''"
| "failure_category_value F_TRANSIENT = ''transient''"
| "failure_category_value F_TIMEOUT = ''timeout''"
| "failure_category_value F_CANCELLED = ''cancelled''"
| "failure_category_value F_RESOURCE_EXHAUSTED = ''resource_exhausted''"
| "failure_category_value F_RATE_LIMITED = ''rate_limited''"
| "failure_category_value F_INTEGRITY = ''integrity''"
| "failure_category_value F_CONTRACT_VIOLATION = ''contract_violation''"
| "failure_category_value F_SIDE_EFFECT_FAILED = ''side_effect_failed''"
| "failure_category_value F_UNKNOWN_OUTCOME = ''unknown_outcome''"
| "failure_category_value F_INTERNAL = ''internal''"
| "failure_category_value F_EXTERNAL_PROVIDER = ''external_provider''"

datatype retryability =
    R_RETRYABLE | R_NON_RETRYABLE | R_UNKNOWN | R_RETRYABLE_AFTER_RECONCILIATION

primrec retryability_value :: "retryability \<Rightarrow> string" where
  "retryability_value R_RETRYABLE = ''retryable''"
| "retryability_value R_NON_RETRYABLE = ''non_retryable''"
| "retryability_value R_UNKNOWN = ''unknown''"
| "retryability_value R_RETRYABLE_AFTER_RECONCILIATION = ''retryable_after_reconciliation''"

datatype outcome_uncertainty = U_KNOWN | U_UNKNOWN | U_REQUIRES_RECONCILIATION

primrec uncertainty_value :: "outcome_uncertainty \<Rightarrow> string" where
  "uncertainty_value U_KNOWN = ''known''"
| "uncertainty_value U_UNKNOWN = ''unknown''"
| "uncertainty_value U_REQUIRES_RECONCILIATION = ''requires_reconciliation''"

record failure_evidence =
  fe_error_code :: string
  fe_category :: failure_category
  fe_retryability :: retryability
  fe_uncertainty :: outcome_uncertainty
  fe_correlation_id :: correlation_id
  fe_source_framework :: string
  fe_workflow_run_id :: "string option"
  fe_task_run_id :: "string option"
  fe_task_attempt_id :: "string option"
  fe_external_run :: "external_run_ref option"
  fe_source_component :: "string option"
  fe_provider_code :: "string option"
  fe_message_summary :: "string option"
  fe_occurred_at :: datetime
  fe_details :: "(string \<times> string) list"
  fe_contract_version :: string

definition failure_evidence_post_init :: "failure_evidence \<Rightarrow> unit result" where
  "failure_evidence_post_init f =
     thenR (required_text ''error_code'' (fe_error_code f))
    (thenR (required_text ''source_framework'' (fe_source_framework f))
    (thenR (forR
       [(''workflow_run_id'', fe_workflow_run_id f), (''task_run_id'', fe_task_run_id f),
        (''task_attempt_id'', fe_task_attempt_id f),
        (''source_component'', fe_source_component f),
        (''provider_code'', fe_provider_code f),
        (''message_summary'', fe_message_summary f)]
       (\<lambda>(name, v). optional_text name v))
    (thenR (require (dt_aware (fe_occurred_at f)) (ValueError ''occurred_at must be timezone-aware''))
           (required_text ''contract_version'' (fe_contract_version f)))))"

definition mk_failure_evidence :: "failure_evidence \<Rightarrow> failure_evidence result" where
  "mk_failure_evidence f = thenR (failure_evidence_post_init f) (Inr f)"

section \<open>Diagnostics\<close>

datatype diagnostic_severity = S_DEBUG | S_INFO | S_WARNING | S_ERROR | S_CRITICAL

primrec severity_value :: "diagnostic_severity \<Rightarrow> string" where
  "severity_value S_DEBUG = ''debug''"
| "severity_value S_INFO = ''info''"
| "severity_value S_WARNING = ''warning''"
| "severity_value S_ERROR = ''error''"
| "severity_value S_CRITICAL = ''critical''"

record diagnostic =
  dg_code :: string
  dg_severity :: diagnostic_severity
  dg_summary :: string
  dg_details :: "(string \<times> string) list"
  dg_workflow_run_id :: "string option"
  dg_task_run_id :: "string option"
  dg_task_attempt_id :: "string option"
  dg_correlation_id :: "correlation_id option"
  dg_source_component :: "string option"
  dg_decision_context :: "string option"
  dg_related_policy :: "string option"
  dg_source_framework :: string

definition diagnostic_post_init :: "diagnostic \<Rightarrow> unit result" where
  "diagnostic_post_init d =
     thenR (required_text ''diagnostic code'' (dg_code d))
    (thenR (required_text ''diagnostic summary'' (dg_summary d))
    (thenR (forR
       [(''workflow_run_id'', dg_workflow_run_id d), (''task_run_id'', dg_task_run_id d),
        (''task_attempt_id'', dg_task_attempt_id d),
        (''source_component'', dg_source_component d),
        (''decision_context'', dg_decision_context d),
        (''related_policy'', dg_related_policy d)]
       (\<lambda>(name, v). optional_text name v))
       (required_text ''source_framework'' (dg_source_framework d))))"

definition mk_diagnostic :: "diagnostic \<Rightarrow> diagnostic result" where
  "mk_diagnostic d = thenR (diagnostic_post_init d) (Inr d)"

lemmas post_init_defs = correlation_context_post_init_def failure_evidence_post_init_def
  diagnostic_post_init_def external_run_ref_post_init_def

lemma mk_correlation_context_Inr:
  "mk_correlation_context c = Inr d \<longleftrightarrow> correlation_context_post_init c = Inr () \<and> d = c"
  by (auto simp: mk_correlation_context_def thenR_Inr_iff)

lemma mk_failure_evidence_Inr:
  "mk_failure_evidence f = Inr g \<longleftrightarrow> failure_evidence_post_init f = Inr () \<and> g = f"
  by (auto simp: mk_failure_evidence_def thenR_Inr_iff)

lemma mk_diagnostic_Inr:
  "mk_diagnostic d = Inr e \<longleftrightarrow> diagnostic_post_init d = Inr () \<and> e = d"
  by (auto simp: mk_diagnostic_def thenR_Inr_iff)

end
