(* ===== verification/Entities.thy ===== *)
theory Entities
  imports Evidence
begin

text \<open>
  The three mutable runtime entities of \<open>runtime/entities.py\<close> and the state-machine services
  of \<open>states/machine.py\<close> that are the only authority over their status.  An entity is a
  record; \<open>_apply_status\<close> returns the updated record; a transition returns the exception it
  raises or the updated record.  \<open>..._post_init\<close> is the validation that runs whenever an
  entity is built, which includes every clone that the metadata store makes.

  The lemmas show that a transition happens exactly along the transition table, what it
  writes, and that it keeps an entity valid, so a store never refuses to clone an entity
  that a state machine produced.
\<close>

section \<open>Workflow runs\<close>

record workflow_run =
  wr_run_id :: workflow_run_id
  wr_workflow_name :: string
  wr_workflow_version :: string
  wr_definition_fingerprint :: string
  wr_plan_fingerprint :: string
  wr_correlation :: correlation_context
  wr_created_at :: datetime
  wr_status :: workflow_run_status
  wr_started_at :: "datetime option"
  wr_ended_at :: "datetime option"
  wr_failure :: "failure_evidence option"
  wr_resume_of_run_id :: "string option"

definition ensure_aware :: "string \<Rightarrow> datetime option \<Rightarrow> unit result" where
  "ensure_aware name v = (case v of None \<Rightarrow> Inr ()
     | Some d \<Rightarrow> require (dt_aware d) (ValueError (name @ '' must be timezone-aware'')))"

lemma ensure_aware_ok_iff:
  "ensure_aware name v = Inr u \<longleftrightarrow> (case v of None \<Rightarrow> True | Some d \<Rightarrow> dt_aware d)"
  by (simp add: ensure_aware_def split: option.splits)

definition workflow_run_post_init :: "workflow_run \<Rightarrow> unit result" where
  "workflow_run_post_init w =
     thenR (required_text ''workflow_name'' (wr_workflow_name w))
    (thenR (required_text ''workflow_version'' (wr_workflow_version w))
    (thenR (required_text ''definition_fingerprint'' (wr_definition_fingerprint w))
    (thenR (required_text ''plan_fingerprint'' (wr_plan_fingerprint w))
    (thenR (require_optional_text ''resume_of_run_id'' (wr_resume_of_run_id w))
    (thenR (ensure_aware ''created_at'' (Some (wr_created_at w)))
    (thenR (ensure_aware ''started_at'' (wr_started_at w))
    (thenR (ensure_aware ''ended_at'' (wr_ended_at w))
    (if wr_status w = W_PENDING then
       require (wr_started_at w = None \<and> wr_ended_at w = None)
         (ValueError ''PENDING WorkflowRun cannot have runtime timestamps'')
     else if wr_status w \<in> {W_RUNNING, W_CANCELLATION_REQUESTED, W_UNKNOWN_OUTCOME} then
       require (wr_ended_at w = None)
         (ValueError (workflow_status_value (wr_status w) @ '' WorkflowRun cannot have ended_at''))
     else
       require (wr_ended_at w \<noteq> None)
         (ValueError ''terminal WorkflowRun must have ended_at'')))))))))"

definition workflow_apply_status ::
  "workflow_run \<Rightarrow> workflow_run_status \<Rightarrow> datetime option \<Rightarrow> datetime option \<Rightarrow>
   failure_evidence option \<Rightarrow> workflow_run" where
  "workflow_apply_status w status started_at ended_at failure =
     w\<lparr>wr_status := status,
       wr_started_at := (case started_at of Some d \<Rightarrow> Some d | None \<Rightarrow> wr_started_at w),
       wr_ended_at := ended_at,
       wr_failure := failure\<rparr>"

section \<open>Task runs\<close>

record task_run =
  tr_task_run_id :: task_run_id
  tr_workflow_run_id :: workflow_run_id
  tr_task_key :: string
  tr_created_at :: datetime
  tr_status :: task_run_status
  tr_started_at :: "datetime option"
  tr_ended_at :: "datetime option"
  tr_skip_reason :: "skip_reason option"
  tr_block_reason :: "block_reason option"
  tr_failure :: "failure_evidence option"

definition task_run_post_init :: "task_run \<Rightarrow> unit result" where
  "task_run_post_init t =
     thenR (required_text ''task_key'' (tr_task_key t))
    (thenR (ensure_aware ''created_at'' (Some (tr_created_at t)))
    (thenR (ensure_aware ''started_at'' (tr_started_at t))
    (thenR (ensure_aware ''ended_at'' (tr_ended_at t))
    (thenR (if tr_status t = T_SKIPPED then
              require (tr_skip_reason t \<noteq> None) (ValueError ''SKIPPED TaskRun requires skip_reason'')
            else
              require (tr_skip_reason t = None)
                (ValueError ''skip_reason is only valid for SKIPPED TaskRun''))
    (thenR (if tr_status t = T_BLOCKED then
              require (tr_block_reason t \<noteq> None) (ValueError ''BLOCKED TaskRun requires block_reason'')
            else
              require (tr_block_reason t = None)
                (ValueError ''block_reason is only valid for BLOCKED TaskRun''))
    (if tr_status t \<in> {T_PENDING, T_READY, T_BLOCKED, T_RUNNING, T_UNKNOWN_OUTCOME} then
       require (tr_ended_at t = None)
         (ValueError (task_status_value (tr_status t) @ '' TaskRun cannot have ended_at''))
     else
       require (tr_ended_at t \<noteq> None) (ValueError ''terminal TaskRun must have ended_at'')))))))"

definition task_apply_status ::
  "task_run \<Rightarrow> task_run_status \<Rightarrow> datetime option \<Rightarrow> datetime option \<Rightarrow>
   skip_reason option \<Rightarrow> block_reason option \<Rightarrow> failure_evidence option \<Rightarrow> task_run" where
  "task_apply_status t status started_at ended_at skip block failure =
     t\<lparr>tr_status := status,
       tr_started_at := (case started_at of Some d \<Rightarrow> Some d | None \<Rightarrow> tr_started_at t),
       tr_ended_at := ended_at,
       tr_skip_reason := skip,
       tr_block_reason := block,
       tr_failure := failure\<rparr>"

section \<open>Task attempts\<close>

record task_attempt =
  ta_attempt_id :: task_attempt_id
  ta_task_run_id :: task_run_id
  ta_attempt_number :: int
  ta_created_at :: datetime
  ta_status :: task_attempt_status
  ta_started_at :: "datetime option"
  ta_ended_at :: "datetime option"
  ta_failure :: "failure_evidence option"

definition task_attempt_post_init :: "task_attempt \<Rightarrow> unit result" where
  "task_attempt_post_init a =
     thenR (require (1 \<le> ta_attempt_number a)
              (ValueError ''attempt_number must be greater than or equal to 1''))
    (thenR (ensure_aware ''created_at'' (Some (ta_created_at a)))
    (thenR (ensure_aware ''started_at'' (ta_started_at a))
    (thenR (ensure_aware ''ended_at'' (ta_ended_at a))
    (if ta_status a \<in> {A_PENDING, A_STARTING, A_RUNNING, A_CANCELLATION_REQUESTED,
          A_CANCELLATION_UNCONFIRMED, A_UNKNOWN_OUTCOME, A_REQUIRES_RECONCILIATION} then
       require (ta_ended_at a = None)
         (ValueError (attempt_status_value (ta_status a) @ '' TaskAttempt cannot have ended_at''))
     else
       require (ta_ended_at a \<noteq> None) (ValueError ''terminal TaskAttempt must have ended_at'')))))"

definition attempt_apply_status ::
  "task_attempt \<Rightarrow> task_attempt_status \<Rightarrow> datetime option \<Rightarrow> datetime option \<Rightarrow>
   failure_evidence option \<Rightarrow> task_attempt" where
  "attempt_apply_status a status started_at ended_at failure =
     a\<lparr>ta_status := status,
       ta_started_at := (case started_at of Some d \<Rightarrow> Some d | None \<Rightarrow> ta_started_at a),
       ta_ended_at := ended_at,
       ta_failure := failure\<rparr>"

section \<open>State machines\<close>

definition reject :: "string \<Rightarrow> string \<Rightarrow> string \<Rightarrow> string \<Rightarrow> bool \<Rightarrow> pyexc" where
  "reject entity_type entity_id current target terminal =
     (if terminal then TerminalState entity_type entity_id current target
      else InvalidStateTransition entity_type entity_id current target)"

definition ensure_transition_aware :: "datetime \<Rightarrow> unit result" where
  "ensure_transition_aware ts =
     require (dt_aware ts) (ValueError ''transition timestamp must be timezone-aware'')"

definition workflow_transition ::
  "workflow_run \<Rightarrow> workflow_run_status \<Rightarrow> datetime \<Rightarrow> failure_evidence option \<Rightarrow>
   workflow_run result" where
  "workflow_transition w target ts failure =
     thenR (ensure_transition_aware ts)
    (thenR (require (target \<in> workflow_transitions (wr_status w))
              (reject ''WorkflowRun'' (wid_str (wr_run_id w))
                 (workflow_status_value (wr_status w)) (workflow_status_value target)
                 (wr_status w \<in> WORKFLOW_TERMINAL_STATUSES)))
    (let started_at = (if target = W_RUNNING \<and> wr_started_at w = None then Some ts
                       else wr_started_at w);
         ended_at = (if target \<in> WORKFLOW_TERMINAL_STATUSES then Some ts else None)
     in Inr (workflow_apply_status w target started_at ended_at failure)))"

definition task_transition ::
  "task_run \<Rightarrow> task_run_status \<Rightarrow> datetime \<Rightarrow> skip_reason option \<Rightarrow> block_reason option \<Rightarrow>
   failure_evidence option \<Rightarrow> task_run result" where
  "task_transition t target ts skip block failure =
     thenR (ensure_transition_aware ts)
    (thenR (require (target \<in> task_run_transitions (tr_status t))
              (reject ''TaskRun'' (tid_str (tr_task_run_id t))
                 (task_status_value (tr_status t)) (task_status_value target)
                 (tr_status t \<in> TASK_RUN_TERMINAL_STATUSES)))
    (thenR (if target = T_SKIPPED
            then require (skip \<noteq> None) (ValueError ''SKIPPED transition requires skip_reason'')
            else require (skip = None) (ValueError ''skip_reason is only valid for SKIPPED''))
    (thenR (if target = T_BLOCKED
            then require (block \<noteq> None) (ValueError ''BLOCKED transition requires block_reason'')
            else require (block = None) (ValueError ''block_reason is only valid for BLOCKED''))
    (let started_at = (if target \<in> {T_RUNNING, T_REUSED} \<and> tr_started_at t = None then Some ts
                       else tr_started_at t);
         ended_at = (if target \<in> TASK_RUN_TERMINAL_STATUSES then Some ts else None)
     in Inr (task_apply_status t target started_at ended_at skip block failure)))))"

definition attempt_transition ::
  "task_attempt \<Rightarrow> task_attempt_status \<Rightarrow> datetime \<Rightarrow> failure_evidence option \<Rightarrow>
   task_attempt result" where
  "attempt_transition a target ts failure =
     thenR (ensure_transition_aware ts)
    (thenR (require (target \<in> task_attempt_transitions (ta_status a))
              (reject ''TaskAttempt'' (aid_str (ta_attempt_id a))
                 (attempt_status_value (ta_status a)) (attempt_status_value target)
                 (ta_status a \<in> TASK_ATTEMPT_TERMINAL_STATUSES)))
    (let started_at = (if target \<in> {A_STARTING, A_RUNNING} \<and> ta_started_at a = None then Some ts
                       else ta_started_at a);
         ended_at = (if target \<in> TASK_ATTEMPT_TERMINAL_STATUSES then Some ts else None)
     in Inr (attempt_apply_status a target started_at ended_at failure)))"

lemmas transition_defs = workflow_transition_def task_transition_def attempt_transition_def
lemmas apply_status_defs = workflow_apply_status_def task_apply_status_def
  attempt_apply_status_def

section \<open>What a transition does\<close>

lemma workflow_transition_Inr:
  "workflow_transition w target ts failure = Inr w' \<longleftrightarrow>
     dt_aware ts \<and> target \<in> workflow_transitions (wr_status w) \<and>
     w' = w\<lparr>wr_status := target,
            wr_started_at := (if target = W_RUNNING \<and> wr_started_at w = None then Some ts
                              else wr_started_at w),
            wr_ended_at := (if target \<in> WORKFLOW_TERMINAL_STATUSES then Some ts else None),
            wr_failure := failure\<rparr>"
  by (auto simp: workflow_transition_def ensure_transition_aware_def result_iffs
    workflow_apply_status_def Let_def split: option.splits)

lemma task_transition_Inr:
  "task_transition t target ts skip block failure = Inr t' \<longleftrightarrow>
     dt_aware ts \<and> target \<in> task_run_transitions (tr_status t) \<and>
     (skip \<noteq> None \<longleftrightarrow> target = T_SKIPPED) \<and> (block \<noteq> None \<longleftrightarrow> target = T_BLOCKED) \<and>
     t' = t\<lparr>tr_status := target,
            tr_started_at := (if target \<in> {T_RUNNING, T_REUSED} \<and> tr_started_at t = None
                              then Some ts else tr_started_at t),
            tr_ended_at := (if target \<in> TASK_RUN_TERMINAL_STATUSES then Some ts else None),
            tr_skip_reason := skip, tr_block_reason := block, tr_failure := failure\<rparr>"
  by (cases "tr_started_at t")
     (auto simp: task_transition_def ensure_transition_aware_def result_iffs
       task_apply_status_def Let_def split: if_splits)

lemma attempt_transition_Inr:
  "attempt_transition a target ts failure = Inr a' \<longleftrightarrow>
     dt_aware ts \<and> target \<in> task_attempt_transitions (ta_status a) \<and>
     a' = a\<lparr>ta_status := target,
            ta_started_at := (if target \<in> {A_STARTING, A_RUNNING} \<and> ta_started_at a = None
                              then Some ts else ta_started_at a),
            ta_ended_at := (if target \<in> TASK_ATTEMPT_TERMINAL_STATUSES then Some ts else None),
            ta_failure := failure\<rparr>"
  by (cases "ta_started_at a")
     (auto simp: attempt_transition_def ensure_transition_aware_def result_iffs
       attempt_apply_status_def Let_def split: if_splits)

text \<open>A terminal entity refuses every transition with \<open>TerminalStateError\<close>.\<close>

lemma workflow_transition_terminal:
  "wr_status w \<in> WORKFLOW_TERMINAL_STATUSES \<Longrightarrow> dt_aware ts \<Longrightarrow>
   workflow_transition w target ts failure =
     Inl (TerminalState ''WorkflowRun'' (wid_str (wr_run_id w))
       (workflow_status_value (wr_status w)) (workflow_status_value target))"
  by (simp add: workflow_transition_def ensure_transition_aware_def require_def reject_def
    workflow_lc.terminal_iff)

lemma task_transition_terminal:
  "tr_status t \<in> TASK_RUN_TERMINAL_STATUSES \<Longrightarrow> dt_aware ts \<Longrightarrow>
   task_transition t target ts skip block failure =
     Inl (TerminalState ''TaskRun'' (tid_str (tr_task_run_id t))
       (task_status_value (tr_status t)) (task_status_value target))"
  by (simp add: task_transition_def ensure_transition_aware_def require_def reject_def
    task_lc.terminal_iff)

lemma attempt_transition_terminal:
  "ta_status a \<in> TASK_ATTEMPT_TERMINAL_STATUSES \<Longrightarrow> dt_aware ts \<Longrightarrow>
   attempt_transition a target ts failure =
     Inl (TerminalState ''TaskAttempt'' (aid_str (ta_attempt_id a))
       (attempt_status_value (ta_status a)) (attempt_status_value target))"
  by (simp add: attempt_transition_def ensure_transition_aware_def require_def reject_def
    attempt_lc.terminal_iff)

section \<open>Validity is kept\<close>

abbreviation valid_workflow_run :: "workflow_run \<Rightarrow> bool" where
  "valid_workflow_run w \<equiv> workflow_run_post_init w = Inr ()"

abbreviation valid_task_run :: "task_run \<Rightarrow> bool" where
  "valid_task_run t \<equiv> task_run_post_init t = Inr ()"

abbreviation valid_task_attempt :: "task_attempt \<Rightarrow> bool" where
  "valid_task_attempt a \<equiv> task_attempt_post_init a = Inr ()"

lemma valid_workflow_run_iff:
  "valid_workflow_run w \<longleftrightarrow>
     \<not> blank (wr_workflow_name w) \<and> \<not> blank (wr_workflow_version w) \<and>
     \<not> blank (wr_definition_fingerprint w) \<and> \<not> blank (wr_plan_fingerprint w) \<and>
     (\<forall>s. wr_resume_of_run_id w = Some s \<longrightarrow> \<not> blank s) \<and>
     dt_aware (wr_created_at w) \<and> (\<forall>d. wr_started_at w = Some d \<longrightarrow> dt_aware d) \<and>
     (\<forall>d. wr_ended_at w = Some d \<longrightarrow> dt_aware d) \<and>
     (wr_status w = W_PENDING \<longrightarrow> wr_started_at w = None) \<and>
     (wr_ended_at w \<noteq> None \<longleftrightarrow> wr_status w \<in> WORKFLOW_TERMINAL_STATUSES)"
  by (cases "wr_status w")
     (auto simp: workflow_run_post_init_def result_iffs ensure_aware_ok_iff
       require_optional_text_def terminal_defs split: option.splits)

lemma valid_task_run_iff:
  "valid_task_run t \<longleftrightarrow>
     \<not> blank (tr_task_key t) \<and> dt_aware (tr_created_at t) \<and>
     (\<forall>d. tr_started_at t = Some d \<longrightarrow> dt_aware d) \<and>
     (\<forall>d. tr_ended_at t = Some d \<longrightarrow> dt_aware d) \<and>
     (tr_skip_reason t \<noteq> None \<longleftrightarrow> tr_status t = T_SKIPPED) \<and>
     (tr_block_reason t \<noteq> None \<longleftrightarrow> tr_status t = T_BLOCKED) \<and>
     (tr_ended_at t \<noteq> None \<longleftrightarrow> tr_status t \<in> TASK_RUN_TERMINAL_STATUSES)"
  by (cases "tr_status t")
     (auto simp: task_run_post_init_def result_iffs ensure_aware_ok_iff terminal_defs
       split: option.splits)

lemma valid_task_attempt_iff:
  "valid_task_attempt a \<longleftrightarrow>
     1 \<le> ta_attempt_number a \<and> dt_aware (ta_created_at a) \<and>
     (\<forall>d. ta_started_at a = Some d \<longrightarrow> dt_aware d) \<and>
     (\<forall>d. ta_ended_at a = Some d \<longrightarrow> dt_aware d) \<and>
     (ta_ended_at a \<noteq> None \<longleftrightarrow> ta_status a \<in> TASK_ATTEMPT_TERMINAL_STATUSES)"
  by (cases "ta_status a")
     (auto simp: task_attempt_post_init_def result_iffs ensure_aware_ok_iff terminal_defs
       split: option.splits)

lemma workflow_transition_valid:
  assumes "valid_workflow_run w" and "workflow_transition w target ts failure = Inr w'"
  shows "valid_workflow_run w'"
proof -
  have "target \<noteq> W_PENDING"
    using assms(2) workflow_lc.initial_not_target by (auto simp: workflow_transition_Inr)
  then show ?thesis
    using assms by (auto simp: valid_workflow_run_iff workflow_transition_Inr split: if_splits)
qed

lemma task_transition_valid:
  "valid_task_run t \<Longrightarrow> task_transition t target ts skip block failure = Inr t' \<Longrightarrow>
   valid_task_run t'"
  by (auto simp: valid_task_run_iff task_transition_Inr split: if_splits)

lemma attempt_transition_valid:
  "valid_task_attempt a \<Longrightarrow> attempt_transition a target ts failure = Inr a' \<Longrightarrow>
   valid_task_attempt a'"
  by (auto simp: valid_task_attempt_iff attempt_transition_Inr split: if_splits)

end
