(* ===== verification/Retry.thy ===== *)
theory Retry
  imports Entities
begin

text \<open>
  Retry and timeout policies (\<open>policies/retry.py\<close>, \<open>policies/timeout.py\<close>): the declarations
  with their validation, the backoff delay and the evidence-driven retry decision.

  The jitter source is randomness outside the program: it is the argument \<open>jitter\<close> of the
  definitions that use it, and the code's own check of its answer is part of the model.
\<close>

section \<open>Declarations\<close>

datatype backoff_strategy = B_NONE | B_FIXED | B_LINEAR | B_EXPONENTIAL

datatype retry_jitter = J_NONE | J_FULL

datatype retry_decision =
  D_RETRY | D_DO_NOT_RETRY | D_RECONCILE | D_ABORT | D_CANCEL | D_ESCALATE

primrec backoff_value :: "backoff_strategy \<Rightarrow> string" where
  "backoff_value B_NONE = ''NONE''"
| "backoff_value B_FIXED = ''FIXED''"
| "backoff_value B_LINEAR = ''LINEAR''"
| "backoff_value B_EXPONENTIAL = ''EXPONENTIAL''"

primrec jitter_value :: "retry_jitter \<Rightarrow> string" where
  "jitter_value J_NONE = ''none''"
| "jitter_value J_FULL = ''full''"

primrec decision_value :: "retry_decision \<Rightarrow> string" where
  "decision_value D_RETRY = ''retry''"
| "decision_value D_DO_NOT_RETRY = ''do_not_retry''"
| "decision_value D_RECONCILE = ''reconcile''"
| "decision_value D_ABORT = ''abort''"
| "decision_value D_CANCEL = ''cancel''"
| "decision_value D_ESCALATE = ''escalate''"

definition validate_non_negative_number :: "string \<Rightarrow> pynum \<Rightarrow> unit result" where
  "validate_non_negative_number name v =
     thenR (require (py_isfinite v) (ValueError (name @ '' must be finite'')))
           (require (0 \<le> num_val v) (ValueError (name @ '' must be greater than or equal to 0'')))"

lemma validate_non_negative_number_ok [simp]:
  "validate_non_negative_number name v = Inr u \<longleftrightarrow> py_isfinite v \<and> 0 \<le> num_val v"
  by (simp add: validate_non_negative_number_def thenR_Inr_iff)

text \<open>The frozen set of retryable categories is a list; only membership is used.\<close>

record retry_policy =
  rp_max_attempts :: int
  rp_backoff_strategy :: backoff_strategy
  rp_initial_delay_seconds :: pynum
  rp_max_delay_seconds :: "pynum option"
  rp_jitter :: retry_jitter
  rp_retryable_failure_categories :: "failure_category list"
  rp_total_budget_seconds :: "pynum option"
  rp_reconciliation_required :: bool

definition optional_non_negative :: "string \<Rightarrow> pynum option \<Rightarrow> unit result" where
  "optional_non_negative name v = (case v of None \<Rightarrow> Inr ()
     | Some x \<Rightarrow> validate_non_negative_number name x)"

definition retry_policy_post_init :: "retry_policy \<Rightarrow> unit result" where
  "retry_policy_post_init p =
     thenR (require (1 \<le> rp_max_attempts p)
              (ValueError ''max_attempts must be greater than or equal to 1''))
    (thenR (validate_non_negative_number ''initial_delay_seconds'' (rp_initial_delay_seconds p))
    (thenR (optional_non_negative ''max_delay_seconds'' (rp_max_delay_seconds p))
           (optional_non_negative ''total_budget_seconds'' (rp_total_budget_seconds p))))"

definition default_retry_policy :: retry_policy where
  "default_retry_policy =
     \<lparr>rp_max_attempts = 1, rp_backoff_strategy = B_NONE,
      rp_initial_delay_seconds = PyFloat 0, rp_max_delay_seconds = None, rp_jitter = J_NONE,
      rp_retryable_failure_categories = [], rp_total_budget_seconds = None,
      rp_reconciliation_required = True\<rparr>"

abbreviation valid_retry_policy :: "retry_policy \<Rightarrow> bool" where
  "valid_retry_policy p \<equiv> retry_policy_post_init p = Inr ()"

lemma valid_retry_policy_iff:
  "valid_retry_policy p \<longleftrightarrow> 1 \<le> rp_max_attempts p \<and>
     py_isfinite (rp_initial_delay_seconds p) \<and> 0 \<le> num_val (rp_initial_delay_seconds p) \<and>
     (\<forall>m. rp_max_delay_seconds p = Some m \<longrightarrow> py_isfinite m \<and> 0 \<le> num_val m) \<and>
     (\<forall>b. rp_total_budget_seconds p = Some b \<longrightarrow> py_isfinite b \<and> 0 \<le> num_val b)"
  by (auto simp: retry_policy_post_init_def result_iffs optional_non_negative_def
    split: option.splits)

definition timeout_policy_post_init :: "pynum option \<Rightarrow> unit result" where
  "timeout_policy_post_init execution_timeout =
     (case execution_timeout of None \<Rightarrow> Inr ()
      | Some v \<Rightarrow>
          thenR (require (py_isfinite v) (ValueError ''execution_timeout must be finite''))
                (require (0 < num_val v) (ValueError ''execution_timeout must be greater than 0'')))"

section \<open>Evaluation\<close>

record retry_evaluation =
  re_decision :: retry_decision
  re_reason :: string
  re_delay_seconds :: pynum
  re_attempt_number :: int
  re_max_attempts :: int
  re_failure_category :: failure_category
  re_retryability :: retryability
  re_uncertainty :: outcome_uncertainty
  re_budget_remaining_seconds :: "pynum option"

definition retry_evaluation_post_init :: "retry_evaluation \<Rightarrow> unit result" where
  "retry_evaluation_post_init e =
     thenR (required_text ''reason'' (re_reason e))
    (thenR (validate_non_negative_number ''delay_seconds'' (re_delay_seconds e))
    (thenR (require (1 \<le> re_attempt_number e)
              (ValueError ''attempt_number must be greater than or equal to 1''))
    (thenR (require (1 \<le> re_max_attempts e)
              (ValueError ''max_attempts must be greater than or equal to 1''))
           (optional_non_negative ''budget_remaining_seconds'' (re_budget_remaining_seconds e)))))"

definition build_evaluation ::
  "retry_policy \<Rightarrow> failure_evidence \<Rightarrow> int \<Rightarrow> retry_decision \<Rightarrow> string \<Rightarrow> pynum \<Rightarrow> pynum \<Rightarrow>
   retry_evaluation result" where
  "build_evaluation policy failure attempt_number decision reason delay_seconds elapsed_seconds =
     (let remaining = (case rp_total_budget_seconds policy of None \<Rightarrow> None
            | Some b \<Rightarrow> Some (PyFloat (max 0 (num_val b - num_val elapsed_seconds))));
          e = \<lparr>re_decision = decision, re_reason = reason, re_delay_seconds = delay_seconds,
               re_attempt_number = attempt_number, re_max_attempts = rp_max_attempts policy,
               re_failure_category = fe_category failure,
               re_retryability = fe_retryability failure,
               re_uncertainty = fe_uncertainty failure,
               re_budget_remaining_seconds = remaining\<rparr>
      in thenR (retry_evaluation_post_init e) (Inr e))"

definition to_float :: "pynum \<Rightarrow> pynum result" where
  \<comment> \<open>\<open>float(x)\<close>\<close>
  "to_float x = (case x of
     PyInt i \<Rightarrow> (if FLOAT_LIMIT \<le> of_int \<bar>i\<bar> then Inl (OverflowError ''int too large to convert to float'')
                 else Inr (PyFloat (of_int i)))
   | _ \<Rightarrow> Inr x)"

definition backoff_delay :: "backoff_strategy \<Rightarrow> rat \<Rightarrow> int \<Rightarrow> pynum result" where
  "backoff_delay strategy initial n = (case strategy of
     B_NONE \<Rightarrow> Inr (PyFloat 0)
   | B_FIXED \<Rightarrow> Inr (PyFloat initial)
   | B_LINEAR \<Rightarrow> bindR (to_float (PyInt n)) (\<lambda>k. Inr (float_of_rat (initial * num_val k)))
   | B_EXPONENTIAL \<Rightarrow> bindR (to_float (PyInt (2 ^ nat (n - 1))))
       (\<lambda>k. Inr (float_of_rat (initial * num_val k))))"

definition cap_delay :: "pynum \<Rightarrow> pynum option \<Rightarrow> pynum result" where
  \<comment> \<open>\<open>min(delay, float(max_delay_seconds))\<close> keeps \<open>delay\<close> unless the bound is smaller.\<close>
  "cap_delay delay bound = (case bound of None \<Rightarrow> Inr delay
     | Some m \<Rightarrow> bindR (to_float m) (\<lambda>f. Inr (if num_gt delay (num_val f) then f else delay)))"

definition jitter_delay :: "(pynum \<Rightarrow> pynum) \<Rightarrow> retry_jitter \<Rightarrow> pynum \<Rightarrow> pynum result" where
  "jitter_delay jitter mode upper = (case mode of
     J_NONE \<Rightarrow> Inr upper
   | J_FULL \<Rightarrow> (let d = jitter upper in
       thenR (validate_non_negative_number ''jitter delay'' d)
      (thenR (require (upper = PyInf \<or> num_val d \<le> num_val upper)
                (ValueError ''jitter delay must not exceed its upper bound''))
             (Inr d))))"

definition retry_delay :: "(pynum \<Rightarrow> pynum) \<Rightarrow> retry_policy \<Rightarrow> int \<Rightarrow> pynum result" where
  "retry_delay jitter policy failed_attempt_number =
     bindR (to_float (rp_initial_delay_seconds policy)) (\<lambda>initial.
     bindR (backoff_delay (rp_backoff_strategy policy) (num_val initial) failed_attempt_number) (\<lambda>d.
     bindR (cap_delay d (rp_max_delay_seconds policy)) (\<lambda>capped.
     jitter_delay jitter (rp_jitter policy) capped)))"

definition is_uncertain :: "failure_evidence \<Rightarrow> bool" where
  "is_uncertain f \<longleftrightarrow> fe_uncertainty f \<noteq> U_KNOWN \<or>
     fe_retryability f = R_RETRYABLE_AFTER_RECONCILIATION \<or> fe_category f = F_UNKNOWN_OUTCOME"

definition evaluate ::
  "(pynum \<Rightarrow> pynum) \<Rightarrow> retry_policy \<Rightarrow> failure_evidence \<Rightarrow> int \<Rightarrow> pynum \<Rightarrow> retry_evaluation result"
  where
  "evaluate jitter policy failure attempt_number elapsed_seconds =
     thenR (require (1 \<le> attempt_number)
              (ValueError ''attempt_number must be greater than or equal to 1''))
    (thenR (validate_non_negative_number ''elapsed_seconds'' elapsed_seconds)
    (let answer = (\<lambda>decision reason delay.
           build_evaluation policy failure attempt_number decision reason delay elapsed_seconds)
     in
     if is_uncertain failure then
       (if rp_reconciliation_required policy
        then answer D_RECONCILE ''uncertain_outcome_requires_reconciliation'' (PyFloat 0)
        else answer D_ESCALATE ''uncertain_outcome_escalated'' (PyFloat 0))
     else if rp_max_attempts policy \<le> attempt_number then
       answer D_DO_NOT_RETRY ''max_attempts_exhausted'' (PyFloat 0)
     else if fe_retryability failure = R_NON_RETRYABLE then
       answer D_DO_NOT_RETRY ''failure_marked_non_retryable'' (PyFloat 0)
     else if fe_retryability failure = R_UNKNOWN then
       answer D_DO_NOT_RETRY ''retryability_unknown'' (PyFloat 0)
     else if rp_retryable_failure_categories policy \<noteq> [] \<and>
             fe_category failure \<notin> set (rp_retryable_failure_categories policy) then
       answer D_DO_NOT_RETRY ''failure_category_not_retryable'' (PyFloat 0)
     else
       bindR (retry_delay jitter policy attempt_number) (\<lambda>delay_seconds.
         (case rp_total_budget_seconds policy of
            Some b \<Rightarrow>
              (if delay_seconds = PyInf \<or> num_val b < num_val elapsed_seconds + num_val delay_seconds
               then answer D_DO_NOT_RETRY ''retry_budget_exhausted'' (PyFloat 0)
               else answer D_RETRY ''structured_failure_retryable'' delay_seconds)
          | None \<Rightarrow> answer D_RETRY ''structured_failure_retryable'' delay_seconds))))"

text \<open>\<open>SystemRetryJitterSource.full_jitter\<close>; \<open>uniform\<close> is the operating system's randomness.\<close>

definition system_full_jitter :: "(rat \<Rightarrow> rat \<Rightarrow> rat) \<Rightarrow> pynum \<Rightarrow> pynum result" where
  "system_full_jitter uniform upper =
     thenR (validate_non_negative_number ''upper_bound_seconds'' upper)
       (Inr (if num_val upper = 0 then PyFloat 0 else PyFloat (uniform 0 (num_val upper))))"

text \<open>\<open>SystemRetryWaiter.wait\<close>: how long it sleeps.\<close>

definition system_wait :: "pynum \<Rightarrow> rat result" where
  "system_wait seconds =
     thenR (require (py_isfinite seconds) (ValueError ''seconds must be finite''))
    (thenR (require (0 \<le> num_val seconds) (ValueError ''seconds must be greater than or equal to 0''))
           (Inr (num_val seconds)))"

section \<open>Facts about delays\<close>

lemma to_float_val: "to_float x = Inr y \<Longrightarrow> num_val y = num_val x \<and> py_isfinite y = py_isfinite x"
  by (cases x) (auto simp: to_float_def split: if_splits)

lemma to_float_float: "to_float x = Inr y \<Longrightarrow> py_isfinite x \<Longrightarrow> y = PyFloat (num_val x)"
  by (cases x) (auto simp: to_float_def split: if_splits)

lemma FLOAT_LIMIT_pos: "0 < FLOAT_LIMIT"
  by (simp add: FLOAT_LIMIT_def)

text \<open>The delays that the policy can produce: a non-negative finite number or infinity.\<close>

definition delay_like :: "pynum \<Rightarrow> bool" where
  "delay_like d \<longleftrightarrow> d = PyInf \<or> (\<exists>r\<ge>0. d = PyFloat r)"

lemma delay_like_float: "0 \<le> r \<Longrightarrow> delay_like (float_of_rat r)"
  using FLOAT_LIMIT_pos by (auto simp: float_of_rat_def delay_like_def)

lemma backoff_delay_like:
  "backoff_delay strategy initial n = Inr d \<Longrightarrow> 0 \<le> initial \<Longrightarrow> 1 \<le> n \<Longrightarrow> delay_like d"
  by (cases strategy)
     (auto simp: backoff_delay_def result_iffs delay_like_def
       dest!: to_float_val intro!: delay_like_float [unfolded delay_like_def] mult_nonneg_nonneg)

lemma cap_delay_bounds:
  assumes "cap_delay d bound = Inr c" and "delay_like d"
    and "\<forall>m. bound = Some m \<longrightarrow> py_isfinite m \<and> 0 \<le> num_val m"
  shows "delay_like c" and "\<forall>m. bound = Some m \<longrightarrow> c \<noteq> PyInf \<and> num_val c \<le> num_val m"
    and "c = d \<or> (\<exists>m. bound = Some m \<and> num_val c = num_val m \<and> num_gt d (num_val m))"
  using assms
  by (auto simp: cap_delay_def delay_like_def result_iffs split: option.splits if_splits
    dest!: to_float_float)

lemma jitter_delay_bounds:
  assumes "jitter_delay jitter mode u = Inr d" and "delay_like u"
  shows "0 \<le> num_val d" and "u \<noteq> PyInf \<Longrightarrow> d \<noteq> PyInf \<and> num_val d \<le> num_val u"
    and "mode = J_NONE \<Longrightarrow> d = u"
  using assms
  by (auto simp: jitter_delay_def delay_like_def result_iffs Let_def split: retry_jitter.splits)

lemma build_evaluation_Inr:
  "build_evaluation policy failure n decision reason delay elapsed = Inr e \<Longrightarrow>
     re_decision e = decision \<and> re_reason e = reason \<and> re_delay_seconds e = delay \<and>
     re_attempt_number e = n \<and> re_max_attempts e = rp_max_attempts policy \<and>
     py_isfinite delay \<and> 0 \<le> num_val delay"
  by (auto simp: build_evaluation_def Let_def thenR_Inr_iff retry_evaluation_post_init_def)

lemma build_evaluation_ok:
  "valid_retry_policy policy \<Longrightarrow> 1 \<le> n \<Longrightarrow> \<not> blank reason \<Longrightarrow> py_isfinite delay \<Longrightarrow>
   0 \<le> num_val delay \<Longrightarrow>
   \<exists>e. build_evaluation policy failure n decision reason delay elapsed = Inr e"
  by (auto simp: build_evaluation_def Let_def thenR_Inr_iff retry_evaluation_post_init_def
    valid_retry_policy_iff optional_non_negative_def split: option.splits)

section \<open>The decision\<close>

definition category_allowed :: "retry_policy \<Rightarrow> failure_evidence \<Rightarrow> bool" where
  "category_allowed p f \<longleftrightarrow> rp_retryable_failure_categories p = [] \<or>
     fe_category f \<in> set (rp_retryable_failure_categories p)"

definition within_budget :: "retry_policy \<Rightarrow> pynum \<Rightarrow> pynum \<Rightarrow> bool" where
  "within_budget p elapsed d \<longleftrightarrow> (\<forall>b. rp_total_budget_seconds p = Some b \<longrightarrow>
     d \<noteq> PyInf \<and> num_val elapsed + num_val d \<le> num_val b)"

text \<open>What the answer says about the failure and the policy, on every branch at once.\<close>

lemma evaluate_cases:
  assumes "evaluate jitter p f n elapsed = Inr e"
  obtains
    (uncertain) "is_uncertain f"
      "re_decision e = (if rp_reconciliation_required p then D_RECONCILE else D_ESCALATE)"
  | (refused) "\<not> is_uncertain f" "re_decision e = D_DO_NOT_RETRY"
      "\<not> (n < rp_max_attempts p \<and> fe_retryability f = R_RETRYABLE \<and> category_allowed p f)"
  | (evaluated) d where "\<not> is_uncertain f" "n < rp_max_attempts p"
      "fe_retryability f = R_RETRYABLE" "category_allowed p f" "retry_delay jitter p n = Inr d"
      "re_decision e = (if within_budget p elapsed d then D_RETRY else D_DO_NOT_RETRY)"
proof (cases "is_uncertain f")
  case True
  then show thesis
    using assms uncertain
    by (auto simp: evaluate_def Let_def result_iffs dest!: build_evaluation_Inr split: if_splits)
next
  case certain: False
  show thesis
  proof (cases "n < rp_max_attempts p \<and> fe_retryability f = R_RETRYABLE \<and> category_allowed p f")
    case False
    then show thesis
      using assms certain refused
      by (cases "fe_retryability f")
         (auto simp: evaluate_def Let_def result_iffs category_allowed_def is_uncertain_def
           dest!: build_evaluation_Inr split: if_splits)
  next
    case True
    then obtain d where "retry_delay jitter p n = Inr d"
      "re_decision e = (if within_budget p elapsed d then D_RETRY else D_DO_NOT_RETRY)"
      using assms certain
      by (cases "rp_total_budget_seconds p")
         (auto simp: evaluate_def Let_def result_iffs category_allowed_def within_budget_def
           dest!: build_evaluation_Inr split: if_splits)
    then show thesis
      using True certain evaluated by blast
  qed
qed

lemma evaluate_decision:
  assumes "evaluate jitter p f n elapsed = Inr e"
  shows "re_decision e =
    (if is_uncertain f then (if rp_reconciliation_required p then D_RECONCILE else D_ESCALATE)
     else if n < rp_max_attempts p \<and> fe_retryability f = R_RETRYABLE \<and> category_allowed p f \<and>
             (\<exists>d. retry_delay jitter p n = Inr d \<and> within_budget p elapsed d)
     then D_RETRY else D_DO_NOT_RETRY)"
  using assms by (cases rule: evaluate_cases) auto

lemma evaluate_echo:
  "evaluate jitter p f n elapsed = Inr e \<Longrightarrow>
     1 \<le> n \<and> re_attempt_number e = n \<and> re_max_attempts e = rp_max_attempts p \<and>
     0 \<le> num_val (re_delay_seconds e) \<and> py_isfinite (re_delay_seconds e)"
  by (auto simp: evaluate_def Let_def result_iffs dest!: build_evaluation_Inr
    split: if_splits option.splits)

lemma evaluate_retry_delay:
  assumes "evaluate jitter p f n elapsed = Inr e" and "re_decision e = D_RETRY"
  shows "retry_delay jitter p n = Inr (re_delay_seconds e)"
  using assms
  by (auto simp: evaluate_def Let_def result_iffs dest!: build_evaluation_Inr
    split: if_splits option.splits)

lemma retry_delay_stages:
  assumes "retry_delay jitter p n = Inr d" and "valid_retry_policy p" and "1 \<le> n"
  obtains raw capped where
    "backoff_delay (rp_backoff_strategy p) (num_val (rp_initial_delay_seconds p)) n = Inr raw"
    "delay_like raw" "cap_delay raw (rp_max_delay_seconds p) = Inr capped" "delay_like capped"
    "jitter_delay jitter (rp_jitter p) capped = Inr d"
    "\<forall>m. rp_max_delay_seconds p = Some m \<longrightarrow> capped \<noteq> PyInf \<and> num_val capped \<le> num_val m"
proof -
  from assms(1) obtain initial raw capped where
    i: "to_float (rp_initial_delay_seconds p) = Inr initial" and
    r: "backoff_delay (rp_backoff_strategy p) (num_val initial) n = Inr raw" and
    c: "cap_delay raw (rp_max_delay_seconds p) = Inr capped" and
    j: "jitter_delay jitter (rp_jitter p) capped = Inr d"
    by (auto simp: retry_delay_def result_iffs)
  have v: "num_val initial = num_val (rp_initial_delay_seconds p)"
    using to_float_val [OF i] by simp
  have raw: "delay_like raw"
    using backoff_delay_like [OF r] assms(2,3) v by (simp add: valid_retry_policy_iff)
  have bound: "\<forall>m. rp_max_delay_seconds p = Some m \<longrightarrow> py_isfinite m \<and> 0 \<le> num_val m"
    using assms(2) by (simp add: valid_retry_policy_iff)
  show thesis
    using that r [unfolded v] raw c cap_delay_bounds(1,2) [OF c raw bound] j by blast
qed

lemma retry_delay_max:
  assumes "retry_delay jitter p n = Inr d" and "valid_retry_policy p" and "1 \<le> n"
    and "rp_max_delay_seconds p = Some m"
  shows "num_val d \<le> num_val m"
proof -
  obtain capped where "jitter_delay jitter (rp_jitter p) capped = Inr d" "delay_like capped"
    "capped \<noteq> PyInf" "num_val capped \<le> num_val m"
    using retry_delay_stages [OF assms(1-3)] assms(4) by metis
  then show ?thesis
    using jitter_delay_bounds(2) by fastforce
qed

text \<open>C13: A retry is scheduled only when the policy permits it.  If the evaluator answers RETRY,
  the outcome of the failed attempt is known, the attempt budget is not exhausted, the failure
  is marked retryable and in a category the policy accepts, the delay is a finite non-negative
  number of seconds below the policy's maximal delay, and the time already spent plus the delay
  stays within the total budget.\<close>

theorem retry_decision_sound:
  assumes "valid_retry_policy p"
    and "evaluate jitter p f n elapsed = Inr e" and "re_decision e = D_RETRY"
  shows "\<not> is_uncertain f \<and> n < rp_max_attempts p \<and> fe_retryability f = R_RETRYABLE \<and>
    category_allowed p f \<and> py_isfinite (re_delay_seconds e) \<and> 0 \<le> num_val (re_delay_seconds e) \<and>
    (\<forall>m. rp_max_delay_seconds p = Some m \<longrightarrow> num_val (re_delay_seconds e) \<le> num_val m) \<and>
    (\<forall>b. rp_total_budget_seconds p = Some b \<longrightarrow>
       num_val elapsed + num_val (re_delay_seconds e) \<le> num_val b)"
proof -
  have d: "retry_delay jitter p n = Inr (re_delay_seconds e)"
    by (rule evaluate_retry_delay [OF assms(2,3)])
  have "1 \<le> n" "py_isfinite (re_delay_seconds e)" "0 \<le> num_val (re_delay_seconds e)"
    using evaluate_echo [OF assms(2)] by auto
  moreover have "\<not> is_uncertain f \<and> n < rp_max_attempts p \<and> fe_retryability f = R_RETRYABLE \<and>
      category_allowed p f \<and> within_budget p elapsed (re_delay_seconds e)"
    using evaluate_decision [OF assms(2)] assms(3) d by (auto split: if_splits)
  ultimately show ?thesis
    using retry_delay_max [OF d assms(1)] by (auto simp: within_budget_def)
qed

definition sample_failure :: "failure_category \<Rightarrow> retryability \<Rightarrow> outcome_uncertainty \<Rightarrow> failure_evidence"
  where
  "sample_failure cat r u =
     \<lparr>fe_error_code = ''E1'', fe_category = cat, fe_retryability = r, fe_uncertainty = u,
      fe_correlation_id = CorrelationId ''c'', fe_source_framework = ''pyworkflowkit'',
      fe_workflow_run_id = None, fe_task_run_id = None, fe_task_attempt_id = None,
      fe_external_run = None, fe_source_component = None, fe_provider_code = None,
      fe_message_summary = None, fe_occurred_at = Datetime 0 True, fe_details = [],
      fe_contract_version = ''1''\<rparr>"

definition sample_policy :: retry_policy where
  "sample_policy = default_retry_policy\<lparr>rp_max_attempts := 5,
     rp_backoff_strategy := B_EXPONENTIAL, rp_initial_delay_seconds := PyInt 2,
     rp_max_delay_seconds := Some (PyInt 5), rp_total_budget_seconds := Some (PyInt 60)\<rparr>"

definition sample_answer :: retry_evaluation where
  "sample_answer = \<lparr>re_decision = D_RETRY, re_reason = ''structured_failure_retryable'',
     re_delay_seconds = PyFloat 5, re_attempt_number = 3, re_max_attempts = 5,
     re_failure_category = F_TRANSIENT, re_retryability = R_RETRYABLE,
     re_uncertainty = U_KNOWN, re_budget_remaining_seconds = Some (PyFloat 53)\<rparr>"

lemma sample_evaluation:
  "evaluate (\<lambda>u. u) sample_policy (sample_failure F_TRANSIENT R_RETRYABLE U_KNOWN) 3 (PyInt 7) =
     Inr sample_answer"
  by code_simp

lemma sample_policy_valid: "valid_retry_policy sample_policy"
  by code_simp

theorem retry_decision_sound_witness:
  "evaluate (\<lambda>u. u) sample_policy (sample_failure F_TRANSIENT R_RETRYABLE U_KNOWN) 3 (PyInt 7)
     = Inr sample_answer \<and> re_decision sample_answer = D_RETRY \<and>
   num_val (re_delay_seconds sample_answer) \<le> 5"
proof -
  have d: "re_decision sample_answer = D_RETRY"
    by (simp add: sample_answer_def)
  show ?thesis
    using retry_decision_sound [OF sample_policy_valid sample_evaluation d] sample_evaluation d
    by (simp add: sample_policy_def)
qed

text \<open>The evaluator's answer is exactly the documented decision: an uncertain outcome is
  reconciled (or escalated when reconciliation is not required) and never retried; a known
  outcome is retried exactly when attempts remain, the failure is retryable, its category is
  accepted and the computed delay fits the time budget; everything else is DO_NOT_RETRY.\<close>

theorem retry_decision_exact:
  assumes "evaluate jitter p f n elapsed = Inr e"
  shows "re_decision e =
    (if is_uncertain f then (if rp_reconciliation_required p then D_RECONCILE else D_ESCALATE)
     else if n < rp_max_attempts p \<and> fe_retryability f = R_RETRYABLE \<and> category_allowed p f \<and>
             (\<exists>d. retry_delay jitter p n = Inr d \<and> within_budget p elapsed d)
     then D_RETRY else D_DO_NOT_RETRY)"
  by (rule evaluate_decision [OF assms])

theorem retry_decision_exact_witness:
  "\<exists>e. evaluate (\<lambda>u. u) sample_policy (sample_failure F_TRANSIENT R_RETRYABLE U_UNKNOWN) 1 (PyInt 0)
     = Inr e \<and> re_decision e = D_RECONCILE"
proof -
  have "evaluate (\<lambda>u. u) sample_policy (sample_failure F_TRANSIENT R_RETRYABLE U_UNKNOWN) 1 (PyInt 0)
     \<noteq> Inl err" for err
    by (simp add: evaluate_def is_uncertain_def sample_failure_def sample_policy_def
      default_retry_policy_def build_evaluation_def retry_evaluation_post_init_def
      optional_non_negative_def validate_non_negative_number_def require_def required_text_def
      blank_def py_isspace_def)
  then obtain e where "evaluate (\<lambda>u. u) sample_policy
      (sample_failure F_TRANSIENT R_RETRYABLE U_UNKNOWN) 1 (PyInt 0) = Inr e"
    by (metis sum.exhaust)
  then show ?thesis
    using retry_decision_exact
    by (fastforce simp: is_uncertain_def sample_failure_def sample_policy_def
      default_retry_policy_def)
qed

definition backoff_factor :: "backoff_strategy \<Rightarrow> int \<Rightarrow> rat" where
  "backoff_factor strategy n = (case strategy of B_NONE \<Rightarrow> 0 | B_FIXED \<Rightarrow> 1
     | B_LINEAR \<Rightarrow> of_int n | B_EXPONENTIAL \<Rightarrow> 2 ^ nat (n - 1))"

lemma backoff_delay_value:
  assumes "backoff_delay strategy initial n = Inr d" and "0 \<le> initial" and "1 \<le> n"
  shows "d = PyFloat (initial * backoff_factor strategy n) \<or>
         d = PyInf \<and> FLOAT_LIMIT \<le> initial * backoff_factor strategy n"
proof -
  have "0 \<le> initial * backoff_factor strategy n"
    using assms(2,3) by (cases strategy) (simp_all add: backoff_factor_def)
  then have "\<not> initial * backoff_factor strategy n \<le> - FLOAT_LIMIT"
    using FLOAT_LIMIT_pos by linarith
  then show ?thesis
    using assms(1)
    by (cases strategy)
       (auto simp: backoff_delay_def backoff_factor_def result_iffs float_of_rat_def to_float_def
         split: if_splits)
qed

text \<open>C14: Without jitter the delay before attempt \<open>n + 1\<close> is the configured backoff of the
  \<open>n\<close>-th failure, nothing, the initial delay, \<open>n\<close> times or \<open>2 ^ (n - 1)\<close> times the initial
  delay, cut at the policy's maximal delay.\<close>

theorem backoff_schedule:
  assumes "valid_retry_policy p" and "1 \<le> n" and "rp_jitter p = J_NONE"
    and "retry_delay jitter p n = Inr d" and "py_isfinite d"
    and "\<forall>m. rp_max_delay_seconds p = Some m \<longrightarrow> num_val m < FLOAT_LIMIT"
  shows "num_val d =
    (let raw = num_val (rp_initial_delay_seconds p) * backoff_factor (rp_backoff_strategy p) n
     in case rp_max_delay_seconds p of None \<Rightarrow> raw | Some m \<Rightarrow> min raw (num_val m))"
proof -
  obtain raw capped where
    b: "backoff_delay (rp_backoff_strategy p) (num_val (rp_initial_delay_seconds p)) n = Inr raw"
    and raw: "delay_like raw" and c: "cap_delay raw (rp_max_delay_seconds p) = Inr capped"
    and j: "jitter_delay jitter (rp_jitter p) capped = Inr d"
    by (rule retry_delay_stages [OF assms(4,1,2)])
  have d: "d = capped"
    using j assms(3) by (simp add: jitter_delay_def)
  have v: "raw = PyFloat (num_val (rp_initial_delay_seconds p) *
        backoff_factor (rp_backoff_strategy p) n) \<or>
      raw = PyInf \<and> FLOAT_LIMIT \<le> num_val (rp_initial_delay_seconds p) *
        backoff_factor (rp_backoff_strategy p) n"
    using backoff_delay_value [OF b] assms(1,2) by (simp add: valid_retry_policy_iff)
  show ?thesis
    using v c assms(1,5,6)
    by (cases "rp_max_delay_seconds p")
       (auto simp: d cap_delay_def Let_def result_iffs valid_retry_policy_iff min_def
         dest!: to_float_float split: if_splits)
qed

theorem backoff_schedule_witness:
  "num_val (PyFloat 4) = 4 \<and> retry_delay (\<lambda>u. u) sample_policy 2 = Inr (PyFloat 4)"
proof -
  have r: "retry_delay (\<lambda>u. u) sample_policy 2 = Inr (PyFloat 4)"
    by code_simp
  show ?thesis
    using backoff_schedule [OF sample_policy_valid _ _ r] r
    by (simp add: sample_policy_def default_retry_policy_def FLOAT_LIMIT_def)
qed

text \<open>Exponential backoff overflows before the maximal delay can cap it: from the failure of
  attempt 1025 on, converting \<open>2 ** (n - 1)\<close> to \<open>float\<close> raises \<open>OverflowError\<close> whatever
  \<open>max_delay_seconds\<close> says, so the evaluation of a retryable failure raises instead of
  answering.\<close>

theorem exponential_backoff_overflows:
  assumes "1025 \<le> n" and "rp_backoff_strategy p = B_EXPONENTIAL"
    and "rp_initial_delay_seconds p = PyFloat initial"
  shows "retry_delay jitter p n = Inl (OverflowError ''int too large to convert to float'')"
proof -
  have "(2::int) ^ 1024 \<le> 2 ^ nat (n - 1)"
    using assms(1) by (intro power_increasing) auto
  then have "FLOAT_LIMIT \<le> of_int (2 ^ nat (n - 1))"
    unfolding FLOAT_LIMIT_eq by (metis of_int_le_iff of_int_numeral of_int_power)
  then show ?thesis
    by (simp add: retry_delay_def assms to_float_def backoff_delay_def)
qed

theorem exponential_backoff_overflows_witness:
  "retry_delay (\<lambda>u. u) (sample_policy\<lparr>rp_max_attempts := 2000,
     rp_initial_delay_seconds := PyFloat 1\<rparr>) 1025 =
   Inl (OverflowError ''int too large to convert to float'')"
  by (rule exponential_backoff_overflows [where initial = 1]) (simp_all add: sample_policy_def)

end
