(* ===== verification/Json.thy ===== *)
theory Json
  imports Retry
begin

text \<open>
  Portable values: the Python objects a task may return, their normalisation to immutable
  JSON (\<open>normalize_json_value\<close>), the canonical encoding and digest, the output checkpoint of
  \<open>runtime/evidence.py\<close>, and the freezing of authoring metadata in \<open>authoring/_values.py\<close>.

  \<open>sha256\<close> (bytes to hexadecimal text) and \<open>float_repr\<close> (the shortest decimal text of a
  double) belong to the standard library and are collected in \<open>codec\<close>.  Error messages drop
  the path at which an unsupported value was met.
\<close>

section \<open>Values\<close>

text \<open>
  A mapping key is a text or something else, of which only \<open>str(key)\<close> is ever used.
  \<open>PyEnum v\<close> is a member, with value \<open>v\<close>, of an enumeration that is not itself a \<open>str\<close> or an
  \<open>int\<close>; a member of a \<open>StrEnum\<close> or \<open>IntEnum\<close> is the text or number it is.  \<open>PyOther\<close> is a
  value of any other type, with the type's name.
\<close>

datatype pykey = KStr string | KOther string

primrec key_text :: "pykey \<Rightarrow> string" where
  "key_text (KStr s) = s"
| "key_text (KOther s) = s"

datatype pyval =
    PyNone
  | PyBool bool
  | PyNum pynum
  | PyStr string
  | PyList "pyval list"
  | PyTuple "pyval list"
  | PyMap "(pykey \<times> pyval) list"
  | PyEnum pyval
  | PyOther string

datatype jval =
    JNull
  | JBool bool
  | JNum pynum
  | JStr string
  | JArr "jval list"
  | JObj "(string \<times> jval) list"

record codec =
  sha256 :: "string \<Rightarrow> string"
  float_repr :: "rat \<Rightarrow> string"

lemma size_entry:
  "(k, v) \<in> set items \<Longrightarrow> size v < Suc (size_list (size_prod (\<lambda>x. 0) size) items)"
  by (induction items) auto

lemma size_list_member: "v \<in> set vs \<Longrightarrow> size v < Suc (size_list size vs)"
  by (induction vs) auto

section \<open>Normalisation\<close>

function normalize_json :: "pyval \<Rightarrow> jval result" where
  "normalize_json PyNone = Inr JNull"
| "normalize_json (PyBool b) = Inr (JBool b)"
| "normalize_json (PyNum n) =
     (if py_isfinite n then Inr (JNum n)
      else Inl (ValueError ''value must contain only finite JSON numbers''))"
| "normalize_json (PyStr s) = Inr (JStr s)"
| "normalize_json (PyEnum v) = normalize_json v"
| "normalize_json (PyMap items) =
     bindR (mapR (\<lambda>(key, v). case key of
              KOther s \<Rightarrow> Inl (TypeError ''value mapping keys must be strings'')
            | KStr s \<Rightarrow> bindR (normalize_json v) (\<lambda>j. Inr (s, j)))
          (sort_key (\<lambda>(key, v). key_text key) items))
       (\<lambda>entries. Inr (JObj entries))"
| "normalize_json (PyList vs) = bindR (mapR normalize_json vs) (\<lambda>js. Inr (JArr js))"
| "normalize_json (PyTuple vs) = bindR (mapR normalize_json vs) (\<lambda>js. Inr (JArr js))"
| "normalize_json (PyOther name) = Inl (TypeError (''value contains unsupported value type '' @ name))"
  by pat_completeness auto
termination
  by (relation "measure size") (auto intro: size_entry size_list_member)

function plain_json :: "jval \<Rightarrow> pyval" where
  "plain_json JNull = PyNone"
| "plain_json (JBool b) = PyBool b"
| "plain_json (JNum n) = PyNum n"
| "plain_json (JStr s) = PyStr s"
| "plain_json (JArr js) = PyList (map plain_json js)"
| "plain_json (JObj entries) = PyMap (map (\<lambda>(k, v). (KStr k, plain_json v)) entries)"
  by pat_completeness auto
termination
  by (relation "measure size") (auto intro: size_entry size_list_member)

text \<open>A Python mapping holds no key twice.\<close>

function wf_pyval :: "pyval \<Rightarrow> bool" where
  "wf_pyval (PyMap items) \<longleftrightarrow> distinct (map fst items) \<and> (\<forall>(k, v) \<in> set items. wf_pyval v)"
| "wf_pyval (PyList vs) \<longleftrightarrow> (\<forall>v \<in> set vs. wf_pyval v)"
| "wf_pyval (PyTuple vs) \<longleftrightarrow> (\<forall>v \<in> set vs. wf_pyval v)"
| "wf_pyval (PyEnum v) \<longleftrightarrow> wf_pyval v"
| "wf_pyval PyNone \<longleftrightarrow> True"
| "wf_pyval (PyBool b) \<longleftrightarrow> True"
| "wf_pyval (PyNum n) \<longleftrightarrow> True"
| "wf_pyval (PyStr s) \<longleftrightarrow> True"
| "wf_pyval (PyOther name) \<longleftrightarrow> True"
  by pat_completeness auto
termination
  by (relation "measure size") (auto intro: size_entry size_list_member)

text \<open>Normal form: finite numbers, and objects whose keys are strictly increasing.\<close>

function normal_json :: "jval \<Rightarrow> bool" where
  "normal_json (JObj entries) \<longleftrightarrow> sorted (map fst entries) \<and> distinct (map fst entries) \<and>
     (\<forall>(k, v) \<in> set entries. normal_json v)"
| "normal_json (JArr js) \<longleftrightarrow> (\<forall>j \<in> set js. normal_json j)"
| "normal_json (JNum n) \<longleftrightarrow> py_isfinite n"
| "normal_json JNull \<longleftrightarrow> True"
| "normal_json (JBool b) \<longleftrightarrow> True"
| "normal_json (JStr s) \<longleftrightarrow> True"
  by pat_completeness auto
termination
  by (relation "measure size") (auto intro: size_entry size_list_member)

section \<open>Canonical encoding\<close>

definition hex_digit :: "nat \<Rightarrow> char" where
  "hex_digit n = (if n < 10 then char_of (48 + n) else char_of (87 + n))"

definition json_escape_char :: "char \<Rightarrow> string" where
  "json_escape_char c = (let n = (of_char c :: nat) in
     if c = CHR 0x22 then [CHR 0x5C, CHR 0x22]
     else if c = CHR 0x5C then [CHR 0x5C, CHR 0x5C]
     else if n = 10 then [CHR 0x5C, CHR ''n'']
     else if n = 13 then [CHR 0x5C, CHR ''r'']
     else if n = 9 then [CHR 0x5C, CHR ''t'']
     else if n = 8 then [CHR 0x5C, CHR ''b'']
     else if n = 12 then [CHR 0x5C, CHR ''f'']
     else if n < 32 then [CHR 0x5C, CHR ''u'', CHR ''0'', CHR ''0'', hex_digit (n div 16), hex_digit (n mod 16)]
     else [c])"

definition json_string :: "string \<Rightarrow> string" where
  "json_string s = [CHR 0x22] @ concat (map json_escape_char s) @ [CHR 0x22]"

fun join_with :: "string \<Rightarrow> string list \<Rightarrow> string" where
  \<comment> \<open>\<open>sep.join(parts)\<close>\<close>
  "join_with sep [] = []"
| "join_with sep [w] = w"
| "join_with sep (w # v # ws) = w @ sep @ join_with sep (v # ws)"

text \<open>\<open>json.dumps(..., ensure_ascii=False, sort_keys=True, separators=(",", ":"))\<close> on finite
  numbers.\<close>

function json_dumps :: "codec \<Rightarrow> jval \<Rightarrow> string" where
  "json_dumps c JNull = ''null''"
| "json_dumps c (JBool b) = (if b then ''true'' else ''false'')"
| "json_dumps c (JNum n) = (case n of PyInt i \<Rightarrow> py_str_int i | PyFloat r \<Rightarrow> float_repr c r
     | PyInf \<Rightarrow> ''Infinity'' | PyNegInf \<Rightarrow> ''-Infinity'' | PyNaN \<Rightarrow> ''NaN'')"
| "json_dumps c (JStr s) = json_string s"
| "json_dumps c (JArr js) = ''['' @ join_with '','' (map (json_dumps c) js) @ '']''"
| "json_dumps c (JObj entries) =
     ''{'' @ join_with '','' (map (\<lambda>(k, v). json_string k @ '':'' @ json_dumps c v)
       (sort_key fst entries)) @ ''}''"
  by pat_completeness auto
termination
  by (relation "measure (\<lambda>(c, j). size j)") (auto intro: size_entry size_list_member)

definition utf8_encode :: "string \<Rightarrow> string" where
  "utf8_encode s = concat (map (\<lambda>ch. let n = (of_char ch :: nat) in
     if n < 128 then [ch] else [char_of (192 + n div 64), char_of (128 + n mod 64)]) s)"

definition canonical_json_digest :: "codec \<Rightarrow> jval \<Rightarrow> string" where
  "canonical_json_digest c j = ''sha256:'' @ sha256 c (utf8_encode (json_dumps c j))"

section \<open>Output checkpoints\<close>

record checkpoint =
  cp_task_run_id :: task_run_id
  cp_output :: jval
  cp_recorded_at :: datetime
  cp_digest :: string

definition mk_checkpoint ::
  "codec \<Rightarrow> task_run_id \<Rightarrow> pyval \<Rightarrow> datetime \<Rightarrow> string \<Rightarrow> checkpoint result" where
  "mk_checkpoint c tid output recorded_at digest =
     thenR (require (dt_aware recorded_at) (ValueError ''recorded_at must be timezone-aware''))
    (bindR (normalize_json output) (\<lambda>normalized.
       let expected = canonical_json_digest c normalized in
       if digest \<noteq> [] then
         thenR (require (digest = expected) (ValueError ''digest does not match canonical output JSON''))
           (Inr \<lparr>cp_task_run_id = tid, cp_output = normalized, cp_recorded_at = recorded_at,
                 cp_digest = digest\<rparr>)
       else Inr \<lparr>cp_task_run_id = tid, cp_output = normalized, cp_recorded_at = recorded_at,
                 cp_digest = expected\<rparr>))"

section \<open>Authoring metadata\<close>

function freeze_json :: "pyval \<Rightarrow> jval result" where
  "freeze_json PyNone = Inr JNull"
| "freeze_json (PyBool b) = Inr (JBool b)"
| "freeze_json (PyNum n) =
     (if py_isfinite n then Inr (JNum n)
      else Inl (ValueError ''must contain only finite numbers''))"
| "freeze_json (PyStr s) = Inr (JStr s)"
| "freeze_json (PyMap items) =
     bindR (mapR (\<lambda>(key, v). case key of
              KOther s \<Rightarrow> Inl (ValueError ''mapping keys must be non-empty strings'')
            | KStr s \<Rightarrow> thenR (require (\<not> blank s) (ValueError ''mapping keys must be non-empty strings''))
                (bindR (freeze_json v) (\<lambda>j. Inr (s, j)))) items)
       (\<lambda>entries. Inr (JObj entries))"
| "freeze_json (PyList vs) = bindR (mapR freeze_json vs) (\<lambda>js. Inr (JArr js))"
| "freeze_json (PyTuple vs) = bindR (mapR freeze_json vs) (\<lambda>js. Inr (JArr js))"
| "freeze_json (PyEnum v) = Inl (TypeError ''must contain only JSON-like immutable authoring values'')"
| "freeze_json (PyOther name) =
     Inl (TypeError ''must contain only JSON-like immutable authoring values'')"
  by pat_completeness auto
termination
  by (relation "measure size") (auto intro: size_entry size_list_member)

definition freeze_metadata :: "(string \<times> pyval) list \<Rightarrow> (string \<times> jval) list result" where
  "freeze_metadata metadata = mapR (\<lambda>(key, v).
     thenR (required_text ''metadata key'' key)
       (bindR (freeze_json v) (\<lambda>j. Inr (key, j)))) metadata"

function thaw_json :: "jval \<Rightarrow> jval" where
  "thaw_json (JObj entries) = JObj (map (\<lambda>(k, v). (k, thaw_json v)) (sort_key fst entries))"
| "thaw_json (JArr js) = JArr (map thaw_json js)"
| "thaw_json JNull = JNull"
| "thaw_json (JBool b) = JBool b"
| "thaw_json (JNum n) = JNum n"
| "thaw_json (JStr s) = JStr s"
  by pat_completeness auto
termination
  by (relation "measure size") (auto intro: size_entry size_list_member)

definition metadata_payload :: "(string \<times> jval) list \<Rightarrow> jval" where
  "metadata_payload metadata =
     JObj (map (\<lambda>(k, v). (k, thaw_json v)) (sort_key fst metadata))"

section \<open>Normal forms\<close>

lemma mapR_set: "mapR f xs = Inr ys \<Longrightarrow> y \<in> set ys \<Longrightarrow> \<exists>x \<in> set xs. f x = Inr y"
  by (induction xs arbitrary: ys) (fastforce simp: bindR_Inr_iff)+

lemma mapR_items:
  assumes "mapR (\<lambda>(key, v). case key of
              KOther s \<Rightarrow> Inl (TypeError msg)
            | KStr s \<Rightarrow> bindR (f v) (\<lambda>j. Inr (s, j))) items = Inr entries"
  shows "map (\<lambda>p. KStr (fst p)) entries = map fst items"
    and "\<forall>(k, j) \<in> set entries. \<exists>v. (KStr k, v) \<in> set items \<and> f v = Inr j"
proof -
  show "map (\<lambda>p. KStr (fst p)) entries = map fst items"
    using assms by (induction items arbitrary: entries) (auto simp: bindR_Inr_iff split: pykey.splits)
  show "\<forall>(k, j) \<in> set entries. \<exists>v. (KStr k, v) \<in> set items \<and> f v = Inr j"
    using mapR_set [OF assms] by (fastforce simp: bindR_Inr_iff split: pykey.splits)
qed

lemma map_fst_KStr: "map (\<lambda>p. KStr (fst p)) entries = map KStr (map fst entries)"
  by simp

lemma sorted_key_texts: "sorted (map (\<lambda>(k, v). key_text k) (sort_key (\<lambda>(k, v). key_text k) items))"
  by (rule sorted_sort_key)

lemma normal_form:
  assumes "wf_pyval v" "normalize_json v = Inr j"
  shows "normal_json j"
  using assms
proof (induction v arbitrary: j rule: normalize_json.induct)
  case (6 items)
  let ?sorted = "sort_key (\<lambda>(k, v). key_text k) items"
  from 6(3) obtain entries where j: "j = JObj entries" and
    m: "mapR (\<lambda>(key, v). case key of
              KOther s \<Rightarrow> Inl (TypeError ''value mapping keys must be strings'')
            | KStr s \<Rightarrow> bindR (normalize_json v) (\<lambda>j. Inr (s, j))) ?sorted = Inr entries"
    by (auto simp: bindR_Inr_iff)
  note keys = mapR_items(1) [OF m] and vals = mapR_items(2) [OF m]
  have "map (\<lambda>(k, v). key_text k) ?sorted = map key_text (map fst ?sorted)"
    by (simp add: case_prod_unfold)
  also have "\<dots> = map fst entries"
    unfolding keys [symmetric] by (simp add: comp_def)
  finally have "sorted (map fst entries)"
    using sorted_key_texts [of items] by simp
  moreover have "distinct (map KStr (map fst entries))"
    unfolding map_fst_KStr [symmetric] keys using 6(2)
    by (simp add: distinct_map inj_on_def)
  then have "distinct (map fst entries)" by (subst (asm) distinct_map) simp
  moreover have "normal_json w" if "(k, w) \<in> set entries" for k w
  proof -
    from vals that obtain v where v: "(KStr k, v) \<in> set items" "normalize_json v = Inr w" by auto
    then show ?thesis using 6(1) [of "(KStr k, v)" "KStr k" v k w] 6(2) by auto
  qed
  ultimately show ?case using j by auto
next
  case (7 vs)
  then obtain js where "j = JArr js" "mapR normalize_json vs = Inr js" by (auto simp: bindR_Inr_iff)
  with 7 show ?case by (fastforce dest: mapR_set)
next
  case (8 vs)
  then obtain js where "j = JArr js" "mapR normalize_json vs = Inr js" by (auto simp: bindR_Inr_iff)
  with 8 show ?case by (fastforce dest: mapR_set)
qed (auto split: if_splits)

text \<open>C38: Normalising any Python value yields canonical JSON: whatever nesting of mappings,
  lists, tuples and enumeration members it is given, if \<open>normalize_json_value\<close> returns, every
  number in the result is finite and every object has strictly increasing text keys.\<close>
theorem normalize_gives_normal_form:
  assumes "wf_pyval v" "normalize_json v = Inr j"
  shows "normal_json j"
  using assms by (rule normal_form)

section \<open>Round trips\<close>

lemma mapR_all: "(\<And>x. x \<in> set xs \<Longrightarrow> f x = Inr (g x)) \<Longrightarrow> mapR f xs = Inr (map g xs)"
  by (induction xs) auto

lemma sort_key_sorted_id: "sorted (map f xs) \<Longrightarrow> sort_key f xs = xs"
  by (induction xs) (auto simp: insort_is_Cons)

lemma roundtrip:
  assumes "normal_json j"
  shows "normalize_json (plain_json j) = Inr j"
  using assms
proof (induction j rule: plain_json.induct)
  case (6 entries)
  have "map (\<lambda>(k, v). key_text k) (map (\<lambda>(k, v). (KStr k, plain_json v)) entries) = map fst entries"
    by (simp add: case_prod_unfold comp_def)
  with 6(2) have sorted: "sort_key (\<lambda>(k, v). key_text k) (map (\<lambda>(k, v). (KStr k, plain_json v)) entries)
      = map (\<lambda>(k, v). (KStr k, plain_json v)) entries"
    by (intro sort_key_sorted_id) (simp only: normal_json.simps)
  have "\<forall>(k, v) \<in> set entries. normalize_json (plain_json v) = Inr v"
    using 6(1,2) by fastforce
  then have "mapR (\<lambda>(key, v). case key of
              KOther s \<Rightarrow> Inl (TypeError ''value mapping keys must be strings'')
            | KStr s \<Rightarrow> bindR (normalize_json v) (\<lambda>j. Inr (s, j)))
          (map (\<lambda>(k, v). (KStr k, plain_json v)) entries) = Inr entries"
    by (induction entries) (auto simp: bindR_Inr_iff)
  then show ?case by (simp add: sorted)
next
  case (5 js)
  then have "mapR normalize_json (map plain_json js) = Inr js"
    by (induction js) (auto simp: bindR_Inr_iff)
  then show ?case by simp
qed auto

text \<open>A canonical JSON value survives conversion to plain Python containers: normalising
  what \<open>plain_json_value\<close> produces gives the value back, so a checkpoint or an event payload
  that is written out and read in again is unchanged.\<close>
theorem normalize_plain_roundtrip:
  assumes "normal_json j"
  shows "normalize_json (plain_json j) = Inr j"
  using assms by (rule roundtrip)

text \<open>A checkpoint read back from its stored output and digest is the checkpoint.\<close>

lemma mk_checkpoint_Inr:
  "mk_checkpoint c tid output recorded_at digest = Inr cp \<longleftrightarrow>
     dt_aware recorded_at \<and>
     (\<exists>j. normalize_json output = Inr j \<and> (digest = [] \<or> digest = canonical_json_digest c j) \<and>
       cp = \<lparr>cp_task_run_id = tid, cp_output = j, cp_recorded_at = recorded_at,
             cp_digest = canonical_json_digest c j\<rparr>)"
  by (auto simp: mk_checkpoint_def thenR_Inr_iff bindR_Inr_iff Let_def)

section \<open>Insertion order\<close>

text \<open>
  \<open>reorder v w\<close>: \<open>w\<close> is \<open>v\<close> with the entries of its mappings, at any depth, in another
  insertion order.
\<close>

inductive reorder :: "pyval \<Rightarrow> pyval \<Rightarrow> bool" where
  same: "reorder v v"
| in_enum: "reorder v w \<Longrightarrow> reorder (PyEnum v) (PyEnum w)"
| in_list: "list_all2 reorder vs ws \<Longrightarrow> reorder (PyList vs) (PyList ws)"
| in_tuple: "list_all2 reorder vs ws \<Longrightarrow> reorder (PyTuple vs) (PyTuple ws)"
| in_map: "list_all2 (\<lambda>p q. fst p = fst q \<and> reorder (snd p) (snd q)) items items' \<Longrightarrow>
    mset items' = mset items'' \<Longrightarrow> distinct (map (\<lambda>p. key_text (fst p)) items) \<Longrightarrow>
    reorder (PyMap items) (PyMap items'')"

lemma mapR_list_all2:
  "list_all2 (\<lambda>v w. f v = g w) vs ws \<Longrightarrow> mapR f vs = mapR g ws"
  by (induction rule: list_all2_induct) auto

lemma sort_key_list_all2:
  assumes "list_all2 P xs ys" "\<And>x y. P x y \<Longrightarrow> f x = g y"
  shows "list_all2 P (sort_key f xs) (sort_key g ys)"
  using assms(1)
proof (induction rule: list_all2_induct)
  case (Cons x xs y ys)
  have "list_all2 P us vs \<Longrightarrow> list_all2 P (insort_key f x us) (insort_key g y vs)" for us vs
  proof (induction rule: list_all2_induct)
    case (Cons u us v vs)
    then show ?case using assms(2) \<open>P x y\<close> by auto
  qed (use \<open>P x y\<close> in simp)
  with Cons show ?case by simp
qed simp

lemma distinct_singleton:
  assumes "distinct zs" "set zs = {k}"
  shows "zs = [k]"
proof (cases zs)
  case (Cons z us)
  with assms have "z = k" "set us \<subseteq> {k}" "k \<notin> set us" by auto
  then have "set us = {}" using subset_singletonD [of "set us" k] by auto
  with Cons \<open>z = k\<close> show ?thesis by simp
qed (use assms in simp)

lemma sort_key_mset:
  assumes "mset xs = mset ys" "distinct (map f xs)"
  shows "sort_key f xs = sort_key f ys"
proof (rule properties_for_sort_key)
  show "mset (sort_key f ys) = mset xs" using assms(1) by simp
  show "sorted (map f (sort_key f ys))" by simp
  have inj: "inj_on f (set xs)" "distinct xs" using assms(2) by (auto simp: distinct_map)
  have "distinct ys" using assms(1) inj(2) by (metis mset_eq_imp_distinct_iff)
  fix k assume "k \<in> set (sort_key f ys)"
  then have k: "k \<in> set ys" "k \<in> set xs" using assms(1) by (auto dest: mset_eq_setD)
  have one: "filter (\<lambda>x. f k = f x) zs = [k]" if zs: "distinct zs" "set zs = set xs" for zs
  proof (rule distinct_singleton)
    show "distinct (filter (\<lambda>x. f k = f x) zs)" using zs(1) by simp
    show "set (filter (\<lambda>x. f k = f x) zs) = {k}"
      using zs(2) inj(1) k(2) by (auto simp: inj_on_def)
  qed
  have "set (sort_key f ys) = set xs" using assms(1) by (metis mset_eq_setD set_sort)
  moreover have "distinct (sort_key f ys)" using \<open>distinct ys\<close> by simp
  ultimately show "filter (\<lambda>x. f k = f x) (sort_key f ys) = filter (\<lambda>x. f k = f x) xs"
    using one [OF inj(2) refl] one [of "sort_key f ys"] by (simp only:)
qed

text \<open>Insertion order is invisible: Python values that differ only in the order in which
  their mappings were filled, at any depth, normalise to the same canonical JSON (or fail with
  the same error), hence have the same digest and make the same checkpoint.\<close>
theorem normalize_ignores_insertion_order:
  assumes "reorder v w"
  shows "normalize_json v = normalize_json w \<and>
    mk_checkpoint c tid v recorded_at digest = mk_checkpoint c tid w recorded_at digest"
proof -
  from assms have "normalize_json v = normalize_json w"
  proof (induction rule: reorder.induct)
    case (in_map items items' items'')
    let ?key = "\<lambda>(k, v). key_text k"
    have keys: "map (\<lambda>p. key_text (fst p)) items = map ?key items'"
      using in_map(1) by (induction rule: list_all2_induct) (auto simp: case_prod_unfold)
    then have "sort_key ?key items' = sort_key ?key items''"
      using in_map(2,3) by (intro sort_key_mset) simp_all
    moreover have "list_all2 (\<lambda>p q. fst p = fst q \<and> normalize_json (snd p) = normalize_json (snd q))
        (sort_key ?key items) (sort_key ?key items')"
      using in_map(1) by (intro sort_key_list_all2) (auto elim!: list_all2_mono)
    ultimately show ?case
      by (auto intro!: arg_cong [of _ _ "\<lambda>r. bindR r f" for f] mapR_list_all2
          elim!: list_all2_mono split: pykey.splits)
  qed (auto intro!: arg_cong [of _ _ "\<lambda>r. bindR r f" for f] mapR_list_all2 elim!: list_all2_mono)
  then show ?thesis by (simp add: mk_checkpoint_def)
qed

text \<open>C39: A persisted output checkpoint is verified when it is read back: rebuilding it from its
  plain output and its digest gives the same checkpoint, and rebuilding it with any other
  non-empty digest raises.\<close>
theorem checkpoint_roundtrip:
  assumes "wf_pyval output" "mk_checkpoint c tid output recorded_at digest = Inr cp"
  shows "mk_checkpoint c tid (plain_json (cp_output cp)) recorded_at (cp_digest cp) = Inr cp \<and>
    (digest' \<noteq> [] \<and> digest' \<noteq> cp_digest cp \<longrightarrow>
      mk_checkpoint c tid (plain_json (cp_output cp)) recorded_at digest' =
        Inl (ValueError ''digest does not match canonical output JSON''))"
proof -
  from assms(2) obtain j where j: "normalize_json output = Inr j" "cp_output cp = j"
    "cp_digest cp = canonical_json_digest c j" "dt_aware recorded_at" "cp_task_run_id cp = tid"
    "cp_recorded_at cp = recorded_at"
    by (auto simp: mk_checkpoint_Inr)
  have "normal_json j" by (rule normal_form [OF assms(1) j(1)])
  then have "normalize_json (plain_json j) = Inr j" by (rule roundtrip)
  with j show ?thesis
    by (auto simp: mk_checkpoint_def require_def Let_def)
qed

section \<open>Concrete instances\<close>

definition sample_codec :: codec where
  "sample_codec = \<lparr>sha256 = (\<lambda>s. digits_of (length s)), float_repr = (\<lambda>r. ''0.5'')\<rparr>"

definition sample_value :: pyval where
  "sample_value = PyMap [(KStr ''rows'', PyNum (PyInt 2)), (KStr ''ids'', PyTuple [PyStr ''b'', PyNone])]"

definition sample_json :: jval where
  "sample_json = JObj [(''ids'', JArr [JStr ''b'', JNull]), (''rows'', JNum (PyInt 2))]"

lemma sample_value_wf: "wf_pyval sample_value"
  by (simp add: sample_value_def)

lemma sample_normalized: "normalize_json sample_value = Inr sample_json"
  by (simp add: sample_value_def sample_json_def)

lemma sample_json_normal: "normal_json sample_json"
  by (rule normal_form [OF sample_value_wf sample_normalized])

theorem normalize_gives_normal_form_witness: "normal_json sample_json"
  by (rule normalize_gives_normal_form [OF sample_value_wf sample_normalized])

theorem normalize_plain_roundtrip_witness: "normalize_json (plain_json sample_json) = Inr sample_json"
  by (rule normalize_plain_roundtrip [OF sample_json_normal])

theorem normalize_ignores_insertion_order_witness:
  "normalize_json sample_value = normalize_json (PyMap (rev [(KStr ''rows'', PyNum (PyInt 2)),
     (KStr ''ids'', PyTuple [PyStr ''b'', PyNone])]))"
proof -
  have "reorder sample_value (PyMap (rev [(KStr ''rows'', PyNum (PyInt 2)),
     (KStr ''ids'', PyTuple [PyStr ''b'', PyNone])]))"
    unfolding sample_value_def
    by (rule reorder.in_map [OF list_all2_refl]) (simp_all add: reorder.same)
  from normalize_ignores_insertion_order [OF this] show ?thesis by blast
qed

theorem checkpoint_roundtrip_witness:
  "mk_checkpoint sample_codec (TaskRunId ''t'') sample_value (Datetime 0 True) [] =
     Inr \<lparr>cp_task_run_id = TaskRunId ''t'', cp_output = sample_json, cp_recorded_at = Datetime 0 True,
          cp_digest = canonical_json_digest sample_codec sample_json\<rparr> \<and>
   mk_checkpoint sample_codec (TaskRunId ''t'') (plain_json sample_json) (Datetime 0 True)
     (canonical_json_digest sample_codec sample_json) =
     Inr \<lparr>cp_task_run_id = TaskRunId ''t'', cp_output = sample_json, cp_recorded_at = Datetime 0 True,
          cp_digest = canonical_json_digest sample_codec sample_json\<rparr>"
proof -
  have cp: "mk_checkpoint sample_codec (TaskRunId ''t'') sample_value (Datetime 0 True) [] =
     Inr \<lparr>cp_task_run_id = TaskRunId ''t'', cp_output = sample_json, cp_recorded_at = Datetime 0 True,
          cp_digest = canonical_json_digest sample_codec sample_json\<rparr>"
    by (simp add: mk_checkpoint_Inr sample_normalized)
  from checkpoint_roundtrip [OF sample_value_wf cp] cp show ?thesis by simp
qed

end
