(* ===== verification/Store.thy ===== *)
theory Store
  imports Json
begin

text \<open>
  The metadata store (\<open>persistence/contracts.py\<close>, \<open>persistence/memory.py\<close>) and the semantic
  event journal of \<open>runtime/evidence.py\<close>.  \<open>store\<close> is \<open>_MemoryState\<close>; every method of
  \<open>InMemoryMetadataStore\<close> is a computation on it.  The methods hold the store's lock from
  their first read to their last write, so each is one atomic step; values are copied on the
  way in and out (\<open>_clone_...\<close>), which here is only their re-validation.

  The journal invariant: replaying the transition records of an entity from nothing gives the
  status under which the entity is stored, for every entity and for none that is not stored.
\<close>

section \<open>State\<close>

datatype state_entity_type = WORKFLOW_RUN | TASK_RUN | TASK_ATTEMPT

primrec entity_type_value :: "state_entity_type \<Rightarrow> string" where
  "entity_type_value WORKFLOW_RUN = ''workflow_run''"
| "entity_type_value TASK_RUN = ''task_run''"
| "entity_type_value TASK_ATTEMPT = ''task_attempt''"

record transition_record =
  tx_sequence :: int
  tx_entity_type :: state_entity_type
  tx_entity_id :: string
  tx_from_status :: "string option"
  tx_to_status :: string
  tx_occurred_at :: datetime

definition transition_record_post_init :: "transition_record \<Rightarrow> unit result" where
  "transition_record_post_init r =
     thenR (require (1 \<le> tx_sequence r) (ValueError ''sequence must be greater than or equal to 1''))
    (thenR (required_text ''entity_id'' (tx_entity_id r))
    (thenR (optional_text ''from_status'' (tx_from_status r))
    (thenR (required_text ''to_status'' (tx_to_status r))
           (require (dt_aware (tx_occurred_at r)) (ValueError ''occurred_at must be timezone-aware'')))))"

record manifest_reference =
  mr_locator :: string
  mr_schema_version :: string
  mr_digest :: "string option"

definition manifest_reference_post_init :: "manifest_reference \<Rightarrow> unit result" where
  "manifest_reference_post_init m =
     thenR (required_text ''locator'' (mr_locator m))
    (thenR (required_text ''schema_version'' (mr_schema_version m))
           (optional_text ''digest'' (mr_digest m)))"

type_synonym ref_key = "task_attempt_id \<times> string \<times> string \<times> string"

record store =
  st_workflow_runs :: "(workflow_run_id, workflow_run) dict"
  st_task_runs :: "(task_run_id, task_run) dict"
  st_task_attempts :: "(task_attempt_id, task_attempt) dict"
  st_external_refs :: "(ref_key, external_run_ref) dict"
  st_transitions :: "transition_record list"
  st_checkpoints :: "(task_run_id, checkpoint) dict"
  st_manifests :: "(workflow_run_id, manifest_reference) dict"
  st_next_sequence :: int

definition empty_store :: store where
  "empty_store = \<lparr>st_workflow_runs = [], st_task_runs = [], st_task_attempts = [],
     st_external_refs = [], st_transitions = [], st_checkpoints = [], st_manifests = [],
     st_next_sequence = 1\<rparr>"

section \<open>Shared checks\<close>

definition clone_workflow_run :: "workflow_run \<Rightarrow> workflow_run result" where
  "clone_workflow_run r = thenR (workflow_run_post_init r) (Inr r)"

definition clone_task_run :: "task_run \<Rightarrow> task_run result" where
  "clone_task_run t = thenR (task_run_post_init t) (Inr t)"

definition clone_task_attempt :: "task_attempt \<Rightarrow> task_attempt result" where
  "clone_task_attempt a = thenR (task_attempt_post_init a) (Inr a)"

definition require_initial_status :: "string \<Rightarrow> string \<Rightarrow> string \<Rightarrow> string \<Rightarrow> unit result" where
  "require_initial_status entity_type entity_id actual expected =
     require (actual = expected) (MetadataInvariant
       (''new '' @ entity_type @ '' '' @ entity_id @ '' must begin in '' @ expected @ ''; got '' @ actual))"

definition require_status :: "string \<Rightarrow> string \<Rightarrow> string \<Rightarrow> string \<Rightarrow> unit result" where
  "require_status entity_type entity_id actual expected =
     require (actual = expected) (MetadataConflict entity_type entity_id expected actual)"

definition require_transition_timestamp :: "string \<Rightarrow> string \<Rightarrow> datetime option \<Rightarrow> unit result" where
  "require_transition_timestamp current candidate transitioned_at =
     require (current = candidate \<or> transitioned_at \<noteq> None)
       (MetadataInvariant ''status-changing update requires transitioned_at'')"

definition require_workflow_identity :: "workflow_run \<Rightarrow> workflow_run \<Rightarrow> unit result" where
  "require_workflow_identity current candidate = require
     (wr_run_id current = wr_run_id candidate \<and>
      wr_workflow_name current = wr_workflow_name candidate \<and>
      wr_workflow_version current = wr_workflow_version candidate \<and>
      wr_definition_fingerprint current = wr_definition_fingerprint candidate \<and>
      wr_plan_fingerprint current = wr_plan_fingerprint candidate \<and>
      wr_correlation current = wr_correlation candidate \<and>
      wr_created_at current = wr_created_at candidate)
     (MetadataInvariant ''WorkflowRun immutable identity fields changed'')"

definition require_task_run_identity :: "task_run \<Rightarrow> task_run \<Rightarrow> unit result" where
  "require_task_run_identity current candidate = require
     (tr_task_run_id current = tr_task_run_id candidate \<and>
      tr_workflow_run_id current = tr_workflow_run_id candidate \<and>
      tr_task_key current = tr_task_key candidate \<and>
      tr_created_at current = tr_created_at candidate)
     (MetadataInvariant ''TaskRun immutable identity fields changed'')"

definition require_attempt_identity :: "task_attempt \<Rightarrow> task_attempt \<Rightarrow> unit result" where
  "require_attempt_identity current candidate = require
     (ta_attempt_id current = ta_attempt_id candidate \<and>
      ta_task_run_id current = ta_task_run_id candidate \<and>
      ta_attempt_number current = ta_attempt_number candidate \<and>
      ta_created_at current = ta_created_at candidate)
     (MetadataInvariant ''TaskAttempt immutable identity fields changed'')"

definition append_transition ::
  "state_entity_type \<Rightarrow> string \<Rightarrow> string option \<Rightarrow> string \<Rightarrow> datetime option \<Rightarrow> (store, unit) act"
  where
  "append_transition entity_type entity_id from_status to_status occurred_at =
     (case occurred_at of
        None \<Rightarrow> raise (MetadataInvariant ''state transition evidence requires occurred_at'')
      | Some ts \<Rightarrow>
          bindA (gets st_next_sequence) (\<lambda>n.
          let r = \<lparr>tx_sequence = n, tx_entity_type = entity_type, tx_entity_id = entity_id,
                   tx_from_status = from_status, tx_to_status = to_status, tx_occurred_at = ts\<rparr>
          in thenA (liftR (transition_record_post_init r))
               (modifyA (\<lambda>s. s\<lparr>st_transitions := st_transitions s @ [r], st_next_sequence := n + 1\<rparr>))))"

section \<open>Workflow runs\<close>

definition create_workflow_run :: "workflow_run \<Rightarrow> (store, unit) act" where
  "create_workflow_run run =
     bindA (liftR (clone_workflow_run run)) (\<lambda>candidate.
     thenA (liftR (require_initial_status ''WorkflowRun'' (wid_str (wr_run_id candidate))
              (workflow_status_value (wr_status candidate)) (workflow_status_value W_PENDING)))
    (bindA (gets st_workflow_runs) (\<lambda>runs.
     thenA (requireA (\<not> dict_has runs (wr_run_id candidate))
              (DuplicateMetadata ''WorkflowRun'' (wid_str (wr_run_id candidate))))
    (thenA (modifyA (\<lambda>s. s\<lparr>st_workflow_runs := dict_set (wr_run_id candidate) candidate (st_workflow_runs s)\<rparr>))
           (append_transition WORKFLOW_RUN (wid_str (wr_run_id candidate)) None
              (workflow_status_value (wr_status candidate)) (Some (wr_created_at candidate)))))))"

definition workflow_in_store :: "workflow_run_id \<Rightarrow> (store, workflow_run) act" where
  \<comment> \<open>\<open>_workflow\<close>\<close>
  "workflow_in_store run_id = bindA (gets st_workflow_runs) (\<lambda>runs. case dict_get runs run_id of
     None \<Rightarrow> raise (MetadataNotFound ''WorkflowRun'' (wid_str run_id)) | Some r \<Rightarrow> ret r)"

definition get_workflow_run :: "workflow_run_id \<Rightarrow> (store, workflow_run) act" where
  "get_workflow_run run_id = bindA (workflow_in_store run_id) (\<lambda>r. liftR (clone_workflow_run r))"

definition update_workflow_run ::
  "workflow_run \<Rightarrow> workflow_run_status \<Rightarrow> datetime option \<Rightarrow> (store, unit) act" where
  "update_workflow_run run expected_status transitioned_at =
     bindA (liftR (clone_workflow_run run)) (\<lambda>candidate.
     bindA (workflow_in_store (wr_run_id candidate)) (\<lambda>current.
     thenA (liftR (require_status ''WorkflowRun'' (wid_str (wr_run_id candidate))
              (workflow_status_value (wr_status current)) (workflow_status_value expected_status)))
    (thenA (liftR (require_workflow_identity current candidate))
    (thenA (liftR (require_transition_timestamp (workflow_status_value (wr_status current))
              (workflow_status_value (wr_status candidate)) transitioned_at))
    (thenA (modifyA (\<lambda>s. s\<lparr>st_workflow_runs := dict_set (wr_run_id candidate) candidate (st_workflow_runs s)\<rparr>))
           (if wr_status current \<noteq> wr_status candidate then
              append_transition WORKFLOW_RUN (wid_str (wr_run_id candidate))
                (Some (workflow_status_value (wr_status current)))
                (workflow_status_value (wr_status candidate)) transitioned_at
            else ret ()))))))"

definition list_workflow_runs :: "(store, workflow_run list) act" where
  "list_workflow_runs = bindA (gets st_workflow_runs) (\<lambda>runs.
     liftR (mapR (\<lambda>run_id. bindR (case dict_get runs run_id of None \<Rightarrow> Inl (KeyError (wid_str run_id))
                            | Some r \<Rightarrow> Inr r) clone_workflow_run)
       (sort_key wid_str (map fst runs))))"

definition list_unfinished_workflow_runs :: "(store, workflow_run list) act" where
  "list_unfinished_workflow_runs = bindA (gets st_workflow_runs) (\<lambda>runs.
     liftR (mapR clone_workflow_run (sort_key (\<lambda>r. wid_str (wr_run_id r))
       (filter (\<lambda>r. wr_status r \<notin> WORKFLOW_TERMINAL_STATUSES) (dict_values runs)))))"

section \<open>Task runs\<close>

definition create_task_run :: "task_run \<Rightarrow> (store, unit) act" where
  "create_task_run task_run =
     bindA (liftR (clone_task_run task_run)) (\<lambda>candidate.
     thenA (liftR (require_initial_status ''TaskRun'' (tid_str (tr_task_run_id candidate))
              (task_status_value (tr_status candidate)) (task_status_value T_PENDING)))
    (bindA (gets st_task_runs) (\<lambda>tasks.
     thenA (requireA (\<not> dict_has tasks (tr_task_run_id candidate))
              (DuplicateMetadata ''TaskRun'' (tid_str (tr_task_run_id candidate))))
    (bindA (gets st_workflow_runs) (\<lambda>runs.
     thenA (requireA (dict_has runs (tr_workflow_run_id candidate))
              (MetadataNotFound ''WorkflowRun'' (wid_str (tr_workflow_run_id candidate))))
    (thenA (modifyA (\<lambda>s. s\<lparr>st_task_runs := dict_set (tr_task_run_id candidate) candidate (st_task_runs s)\<rparr>))
           (append_transition TASK_RUN (tid_str (tr_task_run_id candidate)) None
              (task_status_value (tr_status candidate)) (Some (tr_created_at candidate)))))))))"

definition task_in_store :: "task_run_id \<Rightarrow> (store, task_run) act" where
  "task_in_store task_run_id = bindA (gets st_task_runs) (\<lambda>tasks. case dict_get tasks task_run_id of
     None \<Rightarrow> raise (MetadataNotFound ''TaskRun'' (tid_str task_run_id)) | Some t \<Rightarrow> ret t)"

definition get_task_run :: "task_run_id \<Rightarrow> (store, task_run) act" where
  "get_task_run task_run_id = bindA (task_in_store task_run_id) (\<lambda>t. liftR (clone_task_run t))"

definition update_task_run ::
  "task_run \<Rightarrow> task_run_status \<Rightarrow> datetime option \<Rightarrow> (store, unit) act" where
  "update_task_run task_run expected_status transitioned_at =
     bindA (liftR (clone_task_run task_run)) (\<lambda>candidate.
     bindA (task_in_store (tr_task_run_id candidate)) (\<lambda>current.
     thenA (liftR (require_status ''TaskRun'' (tid_str (tr_task_run_id candidate))
              (task_status_value (tr_status current)) (task_status_value expected_status)))
    (thenA (liftR (require_task_run_identity current candidate))
    (thenA (liftR (require_transition_timestamp (task_status_value (tr_status current))
              (task_status_value (tr_status candidate)) transitioned_at))
    (thenA (modifyA (\<lambda>s. s\<lparr>st_task_runs := dict_set (tr_task_run_id candidate) candidate (st_task_runs s)\<rparr>))
           (if tr_status current \<noteq> tr_status candidate then
              append_transition TASK_RUN (tid_str (tr_task_run_id candidate))
                (Some (task_status_value (tr_status current)))
                (task_status_value (tr_status candidate)) transitioned_at
            else ret ()))))))"

definition list_task_runs :: "workflow_run_id \<Rightarrow> (store, task_run list) act" where
  "list_task_runs workflow_run_id = bindA (gets st_task_runs) (\<lambda>tasks.
     liftR (mapR clone_task_run (sort_key (\<lambda>t. (tr_task_key t, tid_str (tr_task_run_id t)))
       (filter (\<lambda>t. tr_workflow_run_id t = workflow_run_id) (dict_values tasks)))))"

section \<open>Attempts\<close>

definition attempts_of :: "task_run_id \<Rightarrow> store \<Rightarrow> task_attempt list" where
  \<comment> \<open>The attempts of one task run, in insertion order.\<close>
  "attempts_of task_run_id s =
     filter (\<lambda>a. ta_task_run_id a = task_run_id) (dict_values (st_task_attempts s))"

definition append_task_attempt :: "task_attempt \<Rightarrow> (store, unit) act" where
  "append_task_attempt attempt =
     bindA (liftR (clone_task_attempt attempt)) (\<lambda>candidate.
     thenA (liftR (require_initial_status ''TaskAttempt'' (aid_str (ta_attempt_id candidate))
              (attempt_status_value (ta_status candidate)) (attempt_status_value A_PENDING)))
    (bindA (gets st_task_attempts) (\<lambda>attempts.
     thenA (requireA (\<not> dict_has attempts (ta_attempt_id candidate))
              (DuplicateMetadata ''TaskAttempt'' (aid_str (ta_attempt_id candidate))))
    (bindA (gets st_task_runs) (\<lambda>tasks.
     thenA (requireA (dict_has tasks (ta_task_run_id candidate))
              (MetadataNotFound ''TaskRun'' (tid_str (ta_task_run_id candidate))))
    (bindA (gets (attempts_of (ta_task_run_id candidate))) (\<lambda>siblings.
     let expected_number = int (length siblings) + 1 in
     thenA (requireA (ta_attempt_number candidate = expected_number)
              (MetadataInvariant (''TaskAttempt '' @ aid_str (ta_attempt_id candidate) @
                 '' must use attempt_number '' @ py_str_int expected_number @
                 '', got '' @ py_str_int (ta_attempt_number candidate))))
    (thenA (modifyA (\<lambda>s. s\<lparr>st_task_attempts := dict_set (ta_attempt_id candidate) candidate (st_task_attempts s)\<rparr>))
           (append_transition TASK_ATTEMPT (aid_str (ta_attempt_id candidate)) None
              (attempt_status_value (ta_status candidate)) (Some (ta_created_at candidate)))))))))))"

definition attempt_in_store :: "task_attempt_id \<Rightarrow> (store, task_attempt) act" where
  "attempt_in_store attempt_id = bindA (gets st_task_attempts) (\<lambda>attempts. case dict_get attempts attempt_id of
     None \<Rightarrow> raise (MetadataNotFound ''TaskAttempt'' (aid_str attempt_id)) | Some a \<Rightarrow> ret a)"

definition get_task_attempt :: "task_attempt_id \<Rightarrow> (store, task_attempt) act" where
  "get_task_attempt attempt_id = bindA (attempt_in_store attempt_id) (\<lambda>a. liftR (clone_task_attempt a))"

definition update_task_attempt ::
  "task_attempt \<Rightarrow> task_attempt_status \<Rightarrow> datetime option \<Rightarrow> (store, unit) act" where
  "update_task_attempt attempt expected_status transitioned_at =
     bindA (liftR (clone_task_attempt attempt)) (\<lambda>candidate.
     bindA (attempt_in_store (ta_attempt_id candidate)) (\<lambda>current.
     thenA (liftR (require_status ''TaskAttempt'' (aid_str (ta_attempt_id candidate))
              (attempt_status_value (ta_status current)) (attempt_status_value expected_status)))
    (thenA (liftR (require_attempt_identity current candidate))
    (thenA (liftR (require_transition_timestamp (attempt_status_value (ta_status current))
              (attempt_status_value (ta_status candidate)) transitioned_at))
    (thenA (modifyA (\<lambda>s. s\<lparr>st_task_attempts := dict_set (ta_attempt_id candidate) candidate (st_task_attempts s)\<rparr>))
           (if ta_status current \<noteq> ta_status candidate then
              append_transition TASK_ATTEMPT (aid_str (ta_attempt_id candidate))
                (Some (attempt_status_value (ta_status current)))
                (attempt_status_value (ta_status candidate)) transitioned_at
            else ret ()))))))"

definition list_task_attempts :: "task_run_id \<Rightarrow> (store, task_attempt list) act" where
  "list_task_attempts task_run_id = bindA (gets (attempts_of task_run_id)) (\<lambda>attempts.
     liftR (mapR clone_task_attempt (sort_key ta_attempt_number attempts)))"

section \<open>External references, checkpoints and manifests\<close>

definition external_ref_key :: "task_attempt_id \<Rightarrow> external_run_ref \<Rightarrow> ref_key" where
  "external_ref_key attempt_id r = (attempt_id, external_key r)"

definition append_external_run_ref :: "task_attempt_id \<Rightarrow> external_run_ref \<Rightarrow> (store, unit) act" where
  "append_external_run_ref attempt_id external_ref =
     bindA (gets st_task_attempts) (\<lambda>attempts.
     thenA (requireA (dict_has attempts attempt_id) (MetadataNotFound ''TaskAttempt'' (aid_str attempt_id)))
    (bindA (gets st_external_refs) (\<lambda>refs.
     let key = external_ref_key attempt_id external_ref in
     thenA (requireA (\<not> dict_has refs key)
              (DuplicateMetadata ''ExternalRunRef'' (case key of (a, p, k, e) \<Rightarrow>
                 aid_str a @ '':'' @ p @ '':'' @ k @ '':'' @ e)))
           (modifyA (\<lambda>s. s\<lparr>st_external_refs := dict_set key external_ref (st_external_refs s)\<rparr>)))))"

definition list_external_run_refs :: "task_attempt_id \<Rightarrow> (store, external_run_ref list) act" where
  "list_external_run_refs attempt_id = gets (\<lambda>s.
     sort_key external_key (map snd (filter (\<lambda>p. fst (fst p) = attempt_id) (st_external_refs s))))"

definition set_task_output_checkpoint :: "checkpoint \<Rightarrow> (store, unit) act" where
  "set_task_output_checkpoint cp =
     bindA (task_in_store (cp_task_run_id cp)) (\<lambda>task_run.
     thenA (requireA (tr_status task_run \<in> {T_SUCCEEDED, T_REUSED})
              (MetadataInvariant ''TaskOutputCheckpoint requires a SUCCEEDED or REUSED TaskRun''))
    (bindA (gets st_checkpoints) (\<lambda>checkpoints.
     thenA (requireA (dict_get checkpoints (cp_task_run_id cp) \<in> {None, Some cp})
              (MetadataConflict ''TaskOutputCheckpoint'' (tid_str (cp_task_run_id cp))
                 ''unchanged or absent'' ''different persisted checkpoint''))
           (modifyA (\<lambda>s. s\<lparr>st_checkpoints := dict_set (cp_task_run_id cp) cp (st_checkpoints s)\<rparr>)))))"

definition get_task_output_checkpoint :: "task_run_id \<Rightarrow> (store, checkpoint) act" where
  "get_task_output_checkpoint task_run_id = bindA (gets st_checkpoints) (\<lambda>checkpoints.
     case dict_get checkpoints task_run_id of
       None \<Rightarrow> raise (MetadataNotFound ''TaskOutputCheckpoint'' (tid_str task_run_id)) | Some cp \<Rightarrow> ret cp)"

definition set_manifest_reference :: "workflow_run_id \<Rightarrow> manifest_reference \<Rightarrow> (store, unit) act" where
  "set_manifest_reference run_id reference =
     bindA (gets st_workflow_runs) (\<lambda>runs.
     thenA (requireA (dict_has runs run_id) (MetadataNotFound ''WorkflowRun'' (wid_str run_id)))
    (bindA (gets st_manifests) (\<lambda>manifests.
     thenA (requireA (dict_get manifests run_id \<in> {None, Some reference})
              (MetadataConflict ''ManifestReference'' (wid_str run_id)
                 ''unchanged or absent'' ''different persisted reference''))
           (modifyA (\<lambda>s. s\<lparr>st_manifests := dict_set run_id reference (st_manifests s)\<rparr>)))))"

definition get_manifest_reference :: "workflow_run_id \<Rightarrow> (store, manifest_reference) act" where
  "get_manifest_reference run_id = bindA (gets st_manifests) (\<lambda>manifests.
     case dict_get manifests run_id of
       None \<Rightarrow> raise (MetadataNotFound ''ManifestReference'' (wid_str run_id)) | Some m \<Rightarrow> ret m)"

definition list_state_transitions ::
  "state_entity_type option \<Rightarrow> string option \<Rightarrow> (store, transition_record list) act" where
  "list_state_transitions entity_type entity_id =
     bindA (gets st_transitions) (\<lambda>values.
     let values = (case entity_type of None \<Rightarrow> values
                   | Some t \<Rightarrow> filter (\<lambda>r. tx_entity_type r = t) values) in
     case entity_id of
       None \<Rightarrow> ret values
     | Some i \<Rightarrow> thenA (requireA (\<not> blank i) (ValueError ''entity_id must not be empty when provided''))
                  (ret (filter (\<lambda>r. tx_entity_id r = i) values)))"

section \<open>Semantic events\<close>

datatype runtime_event_type =
    WORKFLOW_STARTED | WORKFLOW_RESUMED | WORKFLOW_SUCCEEDED | WORKFLOW_FAILED
  | WORKFLOW_CANCELLATION_REQUESTED | WORKFLOW_CANCELLED | WORKFLOW_TIMED_OUT
  | WORKFLOW_UNKNOWN_OUTCOME
  | TASK_READY | TASK_STARTED | TASK_RESUMED | TASK_RETRYING | TASK_SUCCEEDED | TASK_FAILED
  | TASK_SKIPPED | TASK_CANCELLED | TASK_TIMED_OUT | TASK_BLOCKED | TASK_UNKNOWN_OUTCOME

definition workflow_event_by_status :: "string \<Rightarrow> runtime_event_type option" where
  "workflow_event_by_status = map_of
     [(''SUCCEEDED'', WORKFLOW_SUCCEEDED), (''FAILED'', WORKFLOW_FAILED),
      (''CANCELLATION_REQUESTED'', WORKFLOW_CANCELLATION_REQUESTED),
      (''CANCELLED'', WORKFLOW_CANCELLED), (''TIMED_OUT'', WORKFLOW_TIMED_OUT),
      (''UNKNOWN_OUTCOME'', WORKFLOW_UNKNOWN_OUTCOME)]"

definition task_event_by_status :: "string \<Rightarrow> runtime_event_type option" where
  "task_event_by_status = map_of
     [(''READY'', TASK_READY), (''SUCCEEDED'', TASK_SUCCEEDED), (''FAILED'', TASK_FAILED),
      (''SKIPPED'', TASK_SKIPPED), (''CANCELLED'', TASK_CANCELLED), (''TIMED_OUT'', TASK_TIMED_OUT),
      (''BLOCKED'', TASK_BLOCKED), (''UNKNOWN_OUTCOME'', TASK_UNKNOWN_OUTCOME),
      (''REUSED'', TASK_RESUMED)]"

definition runtime_event_type_for_transition ::
  "string \<Rightarrow> string option \<Rightarrow> string \<Rightarrow> int option \<Rightarrow> bool \<Rightarrow> runtime_event_type option result" where
  "runtime_event_type_for_transition entity_type from_status to_status attempt_number is_resume =
     (if entity_type = ''workflow_run'' then Inr
        (if from_status = None then None
         else if to_status = ''RUNNING'' then
           (if from_status = Some ''PENDING'' \<and> \<not> is_resume then Some WORKFLOW_STARTED
            else Some WORKFLOW_RESUMED)
         else workflow_event_by_status to_status)
      else if entity_type = ''task_run'' then Inr
        (if from_status = None then None
         else if to_status = ''RUNNING'' then
           (if from_status = Some ''READY'' then Some TASK_STARTED else Some TASK_RESUMED)
         else task_event_by_status to_status)
      else if entity_type = ''task_attempt'' then Inr
        (if from_status = None \<and> to_status = ''PENDING'' \<and>
            (case attempt_number of None \<Rightarrow> False | Some n \<Rightarrow> 1 < n)
         then Some TASK_RETRYING else None)
      else Inl (ValueError (''unsupported state entity type '' @ py_quote entity_type)))"

record runtime_event =
  ev_sequence :: int
  ev_event_id :: string
  ev_event_type :: runtime_event_type
  ev_workflow_run_id :: workflow_run_id
  ev_occurred_at :: datetime
  ev_from_status :: "string option"
  ev_to_status :: string
  ev_task_run_id :: "task_run_id option"
  ev_attempt_id :: "task_attempt_id option"
  ev_task_key :: "string option"
  ev_attempt_number :: "int option"
  ev_payload :: jval

definition is_object :: "jval \<Rightarrow> bool" where
  "is_object j = (case j of JObj entries \<Rightarrow> True | _ \<Rightarrow> False)"

text \<open>\<open>__post_init__\<close> of an event; the payload is given as a Python mapping.\<close>

definition mk_runtime_event :: "runtime_event \<Rightarrow> pyval \<Rightarrow> runtime_event result" where
  "mk_runtime_event e payload =
     thenR (require (1 \<le> ev_sequence e) (ValueError ''sequence must be greater than or equal to 1''))
    (thenR (required_text ''event_id'' (ev_event_id e))
    (thenR (optional_text ''task_key'' (ev_task_key e))
    (thenR (require (case ev_attempt_number e of None \<Rightarrow> True | Some n \<Rightarrow> 1 \<le> n)
       (ValueError ''attempt_number must be greater than or equal to 1''))
    (thenR (require (dt_aware (ev_occurred_at e)) (ValueError ''occurred_at must be timezone-aware''))
    (thenR (optional_text ''from_status'' (ev_from_status e))
    (thenR (required_text ''to_status'' (ev_to_status e))
    (bindR (normalize_json payload) (\<lambda>normalized.
     thenR (require (is_object normalized) (TypeError ''payload must normalize to a mapping''))
       (Inr (e\<lparr>ev_payload := normalized\<rparr>))))))))))"

text \<open>The entity a record is about: its run, task run, attempt, key, number and resume flag;
  \<open>None\<close> when it is no longer stored.\<close>

definition event_subject ::
  "store \<Rightarrow> transition_record \<Rightarrow>
   (workflow_run_id \<times> task_run_id option \<times> task_attempt_id option \<times> string option \<times>
    int option \<times> bool) option result" where
  "event_subject s r = (case tx_entity_type r of
     WORKFLOW_RUN \<Rightarrow> bindR (parse_workflow_run_id (tx_entity_id r)) (\<lambda>run_id.
       Inr (case dict_get (st_workflow_runs s) run_id of
              None \<Rightarrow> None
            | Some w \<Rightarrow> Some (run_id, None, None, None, None, wr_resume_of_run_id w \<noteq> None)))
   | TASK_RUN \<Rightarrow> bindR (parse_task_run_id (tx_entity_id r)) (\<lambda>tid.
       Inr (case dict_get (st_task_runs s) tid of
              None \<Rightarrow> None
            | Some t \<Rightarrow> Some (tr_workflow_run_id t, Some tid, None, Some (tr_task_key t), None, False)))
   | TASK_ATTEMPT \<Rightarrow> bindR (parse_task_attempt_id (tx_entity_id r)) (\<lambda>aid.
       Inr (case dict_get (st_task_attempts s) aid of
              None \<Rightarrow> None
            | Some a \<Rightarrow> (case dict_get (st_task_runs s) (ta_task_run_id a) of
                None \<Rightarrow> None
              | Some t \<Rightarrow> Some (tr_workflow_run_id t, Some (tr_task_run_id t), Some aid,
                  Some (tr_task_key t), Some (ta_attempt_number a), False)))))"

definition event_for_transition :: "store \<Rightarrow> transition_record \<Rightarrow> runtime_event option result" where
  "event_for_transition s r = bindR (event_subject s r) (\<lambda>subject. case subject of
     None \<Rightarrow> Inr None
   | Some (run_id, tid, aid, key, number, is_resume) \<Rightarrow>
     bindR (runtime_event_type_for_transition (entity_type_value (tx_entity_type r))
              (tx_from_status r) (tx_to_status r) number is_resume) (\<lambda>event_type. case event_type of
       None \<Rightarrow> Inr None
     | Some ty \<Rightarrow> bindR (mk_runtime_event
         \<lparr>ev_sequence = tx_sequence r,
          ev_event_id = wid_str run_id @ '':event-'' @ py_str_int (tx_sequence r),
          ev_event_type = ty, ev_workflow_run_id = run_id, ev_occurred_at = tx_occurred_at r,
          ev_from_status = tx_from_status r, ev_to_status = tx_to_status r,
          ev_task_run_id = tid, ev_attempt_id = aid, ev_task_key = key,
          ev_attempt_number = number, ev_payload = JNull\<rparr>
         (PyMap [(KStr ''entity_type'', PyStr (entity_type_value (tx_entity_type r))),
                 (KStr ''entity_id'', PyStr (tx_entity_id r))])) (\<lambda>e. Inr (Some e))))"

definition list_runtime_events :: "workflow_run_id \<Rightarrow> (store, runtime_event list) act" where
  "list_runtime_events run_id =
     bindA (gets st_workflow_runs) (\<lambda>runs.
     thenA (requireA (dict_has runs run_id) (MetadataNotFound ''WorkflowRun'' (wid_str run_id)))
    (bindA (gets (\<lambda>s. mapR (event_for_transition s) (st_transitions s))) (\<lambda>events.
     bindA (liftR events) (\<lambda>events.
     ret (filter (\<lambda>e. ev_workflow_run_id e = run_id) (List.map_filter (\<lambda>e. e) events))))))"

section \<open>The store invariant\<close>

text \<open>Replaying the records of an entity: each must start where the one before ended.\<close>

fun replay :: "string option \<Rightarrow> (string option \<times> string) list \<Rightarrow> string option option" where
  "replay current [] = Some current"
| "replay current ((f, t) # h) = (if f = current then replay (Some t) h else None)"

definition history :: "store \<Rightarrow> state_entity_type \<Rightarrow> string \<Rightarrow> (string option \<times> string) list" where
  "history s ty i = map (\<lambda>r. (tx_from_status r, tx_to_status r))
     (filter (\<lambda>r. tx_entity_type r = ty \<and> tx_entity_id r = i) (st_transitions s))"

primrec stored_status :: "state_entity_type \<Rightarrow> string \<Rightarrow> store \<Rightarrow> string option" where
  "stored_status WORKFLOW_RUN i s =
     map_option (\<lambda>w. workflow_status_value (wr_status w)) (dict_get (st_workflow_runs s) (WorkflowRunId i))"
| "stored_status TASK_RUN i s =
     map_option (\<lambda>t. task_status_value (tr_status t)) (dict_get (st_task_runs s) (TaskRunId i))"
| "stored_status TASK_ATTEMPT i s =
     map_option (\<lambda>a. attempt_status_value (ta_status a)) (dict_get (st_task_attempts s) (TaskAttemptId i))"

definition entities_ok :: "store \<Rightarrow> bool" where
  "entities_ok s \<longleftrightarrow>
     dict_ok (st_workflow_runs s) \<and> dict_ok (st_task_runs s) \<and> dict_ok (st_task_attempts s) \<and>
     dict_ok (st_external_refs s) \<and> dict_ok (st_checkpoints s) \<and> dict_ok (st_manifests s) \<and>
     (\<forall>i w. dict_get (st_workflow_runs s) i = Some w \<longrightarrow>
        wr_run_id w = i \<and> valid_workflow_run w \<and> \<not> blank (wid_str i)) \<and>
     (\<forall>i t. dict_get (st_task_runs s) i = Some t \<longrightarrow>
        tr_task_run_id t = i \<and> valid_task_run t \<and> \<not> blank (tid_str i) \<and>
        dict_has (st_workflow_runs s) (tr_workflow_run_id t)) \<and>
     (\<forall>i a. dict_get (st_task_attempts s) i = Some a \<longrightarrow>
        ta_attempt_id a = i \<and> valid_task_attempt a \<and> \<not> blank (aid_str i) \<and>
        dict_has (st_task_runs s) (ta_task_run_id a)) \<and>
     (\<forall>k. dict_has (st_external_refs s) k \<longrightarrow> dict_has (st_task_attempts s) (fst k)) \<and>
     (\<forall>i cp. dict_get (st_checkpoints s) i = Some cp \<longrightarrow>
        cp_task_run_id cp = i \<and> dict_has (st_task_runs s) i) \<and>
     (\<forall>i. dict_has (st_manifests s) i \<longrightarrow> dict_has (st_workflow_runs s) i)"

definition numbers_ok :: "store \<Rightarrow> bool" where
  "numbers_ok s \<longleftrightarrow> (\<forall>tid. map ta_attempt_number (attempts_of tid s) =
     map int [1..<Suc (length (attempts_of tid s))])"

definition journal_ok :: "store \<Rightarrow> bool" where
  "journal_ok s \<longleftrightarrow> 1 \<le> st_next_sequence s \<and>
     sorted_wrt (<) (map tx_sequence (st_transitions s)) \<and>
     (\<forall>r \<in> set (st_transitions s). tx_sequence r < st_next_sequence s \<and>
        transition_record_post_init r = Inr ()) \<and>
     (\<forall>ty i. replay None (history s ty i) = Some (stored_status ty i s))"

definition store_ok :: "store \<Rightarrow> bool" where
  "store_ok s \<longleftrightarrow> entities_ok s \<and> numbers_ok s \<and> journal_ok s"

lemma empty_store_ok: "store_ok empty_store"
proof -
  have "journal_ok empty_store"
    unfolding journal_ok_def
  proof (intro conjI allI)
    fix ty i
    show "replay None (history empty_store ty i) = Some (stored_status ty i empty_store)"
      by (cases ty) (simp_all add: history_def empty_store_def)
  qed (simp_all add: empty_store_def)
  then show ?thesis
    by (simp add: store_ok_def entities_ok_def numbers_ok_def attempts_of_def empty_store_def dict_values_def)
qed

section \<open>What the writes do\<close>

text \<open>A journal entry, once the record is known to be valid.\<close>

definition journal ::
  "state_entity_type \<Rightarrow> string \<Rightarrow> string option \<Rightarrow> string \<Rightarrow> datetime \<Rightarrow> store \<Rightarrow> store" where
  "journal ty i f t ts s = s\<lparr>
     st_transitions := st_transitions s @ [\<lparr>tx_sequence = st_next_sequence s, tx_entity_type = ty,
       tx_entity_id = i, tx_from_status = f, tx_to_status = t, tx_occurred_at = ts\<rparr>],
     st_next_sequence := st_next_sequence s + 1\<rparr>"

lemma status_values_not_blank [simp]:
  "\<not> blank (workflow_status_value ws)" "\<not> blank (task_status_value tst)" "\<not> blank (attempt_status_value ast)"
proof -
  show "\<not> blank (workflow_status_value ws)" by (cases ws) (simp_all add: blank_def py_isspace_def)
  show "\<not> blank (task_status_value tst)" by (cases tst) (simp_all add: blank_def py_isspace_def)
  show "\<not> blank (attempt_status_value ast)" by (cases ast) (simp_all add: blank_def py_isspace_def)
qed

lemma pending_values [simp]:
  "workflow_status_value ws = ''PENDING'' \<longleftrightarrow> ws = W_PENDING"
  "task_status_value tst = ''PENDING'' \<longleftrightarrow> tst = T_PENDING"
  "attempt_status_value ast = ''PENDING'' \<longleftrightarrow> ast = A_PENDING"
  subgoal by (cases ws) simp_all
  subgoal by (cases tst) simp_all
  subgoal by (cases ast) simp_all
  done

lemma clone_valid [simp]:
  "valid_workflow_run w \<Longrightarrow> clone_workflow_run w = Inr w"
  "valid_task_run t \<Longrightarrow> clone_task_run t = Inr t"
  "valid_task_attempt a \<Longrightarrow> clone_task_attempt a = Inr a"
  by (simp_all add: clone_workflow_run_def clone_task_run_def clone_task_attempt_def)

lemma thenR_not_Inr: "r \<noteq> Inr () \<Longrightarrow> \<exists>e. thenR r k = Inl e" for r :: "unit result"
  by (cases r) auto

lemma clone_invalid:
  "\<not> valid_workflow_run w \<Longrightarrow> \<exists>e. clone_workflow_run w = Inl e"
  "\<not> valid_task_run t \<Longrightarrow> \<exists>e. clone_task_run t = Inl e"
  "\<not> valid_task_attempt a \<Longrightarrow> \<exists>e. clone_task_attempt a = Inl e"
  by (metis clone_workflow_run_def clone_task_run_def clone_task_attempt_def thenR_not_Inr)+

definition good_record :: "string \<Rightarrow> string option \<Rightarrow> string \<Rightarrow> datetime \<Rightarrow> bool" where
  "good_record i f t ts \<longleftrightarrow> \<not> blank i \<and> (\<forall>x. f = Some x \<longrightarrow> \<not> blank x) \<and> \<not> blank t \<and> dt_aware ts"

lemma good_record_init:
  "good_record i f t ts \<Longrightarrow> 1 \<le> n \<Longrightarrow> transition_record_post_init
     \<lparr>tx_sequence = n, tx_entity_type = ty, tx_entity_id = i, tx_from_status = f,
      tx_to_status = t, tx_occurred_at = ts\<rparr> = Inr ()"
  by (cases f) (simp_all add: good_record_def transition_record_post_init_def required_text_def
      optional_text_def require_def)

lemma append_transition_good:
  assumes "good_record i f t ts" "1 \<le> st_next_sequence s"
  shows "append_transition ty i f t (Some ts) s = (Inr (), journal ty i f t ts s)"
  using assms
  by (cases f)
    (simp_all add: append_transition_def good_record_def transition_record_post_init_def Let_def
      journal_def required_text_def optional_text_def require_def thenA_def bindA_def)

lemma replay_append:
  "replay c (h @ [(f, t)]) = (case replay c h of None \<Rightarrow> None | Some d \<Rightarrow> if f = d then Some (Some t) else None)"
  by (induction c h rule: replay.induct) auto

lemma history_journal:
  "history (journal ty i f t ts s) ty' i' =
     history s ty' i' @ (if ty' = ty \<and> i' = i then [(f, t)] else [])"
  by (simp add: history_def journal_def)

text \<open>The journal grows by one record, and exactly the status it names changes.\<close>

lemma journal_ok_step:
  assumes "journal_ok s" "good_record i f t ts"
    and "f = stored_status ty i s"
    and "st_transitions s' = st_transitions s" "st_next_sequence s' = st_next_sequence s"
    and "\<And>ty' i'. stored_status ty' i' s' = (if ty' = ty \<and> i' = i then Some t else stored_status ty' i' s)"
  shows "journal_ok (journal ty i f t ts s')"
  unfolding journal_ok_def
proof (intro conjI allI)
  from assms(1) have old: "1 \<le> st_next_sequence s" "sorted_wrt (<) (map tx_sequence (st_transitions s))"
    "\<forall>r \<in> set (st_transitions s). tx_sequence r < st_next_sequence s \<and> transition_record_post_init r = Inr ()"
    "\<And>ty i. replay None (history s ty i) = Some (stored_status ty i s)"
    by (auto simp: journal_ok_def)
  show "1 \<le> st_next_sequence (journal ty i f t ts s')" using old(1) assms(5) by (simp add: journal_def)
  show "sorted_wrt (<) (map tx_sequence (st_transitions (journal ty i f t ts s')))"
    using old(2,3) assms(4,5) by (auto simp: journal_def sorted_wrt_append)
  show "\<forall>r \<in> set (st_transitions (journal ty i f t ts s')).
      tx_sequence r < st_next_sequence (journal ty i f t ts s') \<and> transition_record_post_init r = Inr ()"
  proof
    fix r assume "r \<in> set (st_transitions (journal ty i f t ts s'))"
    then consider "r \<in> set (st_transitions s)"
      | "r = \<lparr>tx_sequence = st_next_sequence s, tx_entity_type = ty, tx_entity_id = i,
               tx_from_status = f, tx_to_status = t, tx_occurred_at = ts\<rparr>"
      using assms(4,5) by (auto simp: journal_def)
    then show "tx_sequence r < st_next_sequence (journal ty i f t ts s') \<and> transition_record_post_init r = Inr ()"
    proof cases
      case 1
      with old(3) assms(5) show ?thesis by (auto simp: journal_def)
    next
      case 2
      with good_record_init [OF assms(2) old(1)] assms(5) show ?thesis by (simp add: journal_def)
    qed
  qed
  fix ty' i'
  have h: "history s' ty' i' = history s ty' i'" using assms(4) by (simp add: history_def)
  show "replay None (history (journal ty i f t ts s') ty' i') =
      Some (stored_status ty' i' (journal ty i f t ts s'))"
  proof -
    have "stored_status ty' i' (journal ty i f t ts s') = stored_status ty' i' s'"
      by (cases ty') (simp_all add: journal_def)
    then show ?thesis
      using old(4) [of ty' i'] assms(3,6) h by (auto simp: history_journal replay_append)
  qed
qed

lemma journal_ok_same:
  assumes "journal_ok s" "st_transitions s' = st_transitions s" "st_next_sequence s' = st_next_sequence s"
    "\<And>ty i. stored_status ty i s' = stored_status ty i s"
  shows "journal_ok s'"
  using assms by (simp add: journal_ok_def history_def)

lemma journal_entities [simp]:
  "entities_ok (journal ty i f t ts s) = entities_ok s" "numbers_ok (journal ty i f t ts s) = numbers_ok s"
  by (simp_all add: entities_ok_def numbers_ok_def attempts_of_def journal_def)

lemma store_okD:
  assumes "store_ok s"
  shows "1 \<le> st_next_sequence s" "dict_ok (st_workflow_runs s)" "dict_ok (st_task_runs s)"
    "dict_ok (st_task_attempts s)"
    "\<And>i w. dict_get (st_workflow_runs s) i = Some w \<Longrightarrow>
       wr_run_id w = i \<and> valid_workflow_run w \<and> \<not> blank (wid_str i)"
    "\<And>i t. dict_get (st_task_runs s) i = Some t \<Longrightarrow>
       tr_task_run_id t = i \<and> valid_task_run t \<and> \<not> blank (tid_str i) \<and>
       dict_has (st_workflow_runs s) (tr_workflow_run_id t)"
    "\<And>i a. dict_get (st_task_attempts s) i = Some a \<Longrightarrow>
       ta_attempt_id a = i \<and> valid_task_attempt a \<and> \<not> blank (aid_str i) \<and>
       dict_has (st_task_runs s) (ta_task_run_id a)"
  using assms by (auto simp: store_ok_def journal_ok_def entities_ok_def)

subsection \<open>Workflow runs\<close>

definition put_workflow :: "workflow_run \<Rightarrow> store \<Rightarrow> store" where
  "put_workflow w s = s\<lparr>st_workflow_runs := dict_set (wr_run_id w) w (st_workflow_runs s)\<rparr>"

definition same_workflow :: "workflow_run \<Rightarrow> workflow_run \<Rightarrow> bool" where
  "same_workflow c w \<longleftrightarrow> require_workflow_identity c w = Inr ()"

definition log_workflow :: "workflow_run \<Rightarrow> workflow_run \<Rightarrow> datetime option \<Rightarrow> store \<Rightarrow> store" where
  "log_workflow c w ts s =
     (if wr_status c \<noteq> wr_status w then journal WORKFLOW_RUN (wid_str (wr_run_id w))
        (Some (workflow_status_value (wr_status c))) (workflow_status_value (wr_status w)) (the ts) s
      else s)"

lemma create_workflow_run_cases:
  assumes "store_ok s" "\<not> blank (wid_str (wr_run_id w))" "create_workflow_run w s = (r, s')"
  shows "(\<exists>e. r = Inl e) \<and> s' = s \<or>
    r = Inr () \<and> valid_workflow_run w \<and> wr_status w = W_PENDING \<and>
    \<not> dict_has (st_workflow_runs s) (wr_run_id w) \<and>
    s' = journal WORKFLOW_RUN (wid_str (wr_run_id w)) None ''PENDING'' (wr_created_at w) (put_workflow w s)"
proof (cases "valid_workflow_run w")
  case True
  then have "good_record (wid_str (wr_run_id w)) None ''PENDING'' (wr_created_at w)"
    using assms(2) status_values_not_blank(1) [of W_PENDING] by (simp add: good_record_def valid_workflow_run_iff)
  moreover have "1 \<le> st_next_sequence (put_workflow w s)"
    using store_okD(1) [OF assms(1)] by (simp add: put_workflow_def)
  ultimately have "append_transition WORKFLOW_RUN (wid_str (wr_run_id w)) None ''PENDING''
      (Some (wr_created_at w)) (put_workflow w s) =
      (Inr (), journal WORKFLOW_RUN (wid_str (wr_run_id w)) None ''PENDING'' (wr_created_at w) (put_workflow w s))"
    by (rule append_transition_good)
  then show ?thesis
    using assms(3) True
    by (auto simp: create_workflow_run_def require_initial_status_def require_def
        bindA_def thenA_def put_workflow_def split: if_splits)
next
  case False
  then obtain e where "clone_workflow_run w = Inl e" using clone_invalid(1) by blast
  then show ?thesis using assms(3) by (auto simp: create_workflow_run_def)
qed

lemma update_workflow_run_cases:
  assumes "store_ok s" "\<forall>t. ts = Some t \<longrightarrow> dt_aware t" "update_workflow_run w expected ts s = (r, s')"
  shows "(\<exists>e. r = Inl e) \<and> s' = s \<or>
    r = Inr () \<and> valid_workflow_run w \<and> (\<exists>c. dict_get (st_workflow_runs s) (wr_run_id w) = Some c \<and>
      wr_status c = expected \<and> same_workflow c w \<and> (wr_status c \<noteq> wr_status w \<longrightarrow> ts \<noteq> None) \<and>
      s' = log_workflow c w ts (put_workflow w s))"
proof (cases "valid_workflow_run w")
  case True
  show ?thesis
  proof (cases "dict_get (st_workflow_runs s) (wr_run_id w)")
    case None
    with True assms(3) show ?thesis
      by (auto simp: update_workflow_run_def workflow_in_store_def bindA_def)
  next
    case (Some c)
    then have nb: "\<not> blank (wid_str (wr_run_id w))" using store_okD(5) [OF assms(1)] by blast
    have log: "append_transition WORKFLOW_RUN (wid_str (wr_run_id w)) (Some (workflow_status_value (wr_status c)))
        (workflow_status_value (wr_status w)) (Some t) (put_workflow w s) =
      (Inr (), journal WORKFLOW_RUN (wid_str (wr_run_id w)) (Some (workflow_status_value (wr_status c)))
        (workflow_status_value (wr_status w)) t (put_workflow w s))" if "ts = Some t" for t
      using assms(2) nb that store_okD(1) [OF assms(1)]
      by (intro append_transition_good) (simp_all add: good_record_def put_workflow_def)
    from True Some assms(3) log show ?thesis
      by (cases ts) (auto simp: update_workflow_run_def workflow_in_store_def bindA_def
          thenA_def require_status_def same_workflow_def log_workflow_def require_def
          require_workflow_identity_def require_transition_timestamp_def put_workflow_def split: if_splits)
  qed
next
  case False
  then obtain e where "clone_workflow_run w = Inl e" using clone_invalid(1) by blast
  then show ?thesis using assms(3) by (auto simp: update_workflow_run_def)
qed

lemma put_workflow_entities:
  assumes "entities_ok s" "valid_workflow_run w" "\<not> blank (wid_str (wr_run_id w))"
  shows "entities_ok (put_workflow w s)"
  using assms unfolding entities_ok_def put_workflow_def
  by (auto simp: dict_get_set dict_set_keys)

lemma put_workflow_numbers [simp]: "numbers_ok (put_workflow w s) = numbers_ok s"
  by (simp add: numbers_ok_def attempts_of_def put_workflow_def)

lemma stored_status_put_workflow:
  "stored_status ty i (put_workflow w s) =
     (if ty = WORKFLOW_RUN \<and> WorkflowRunId i = wr_run_id w then Some (workflow_status_value (wr_status w))
      else stored_status ty i s)"
  by (cases ty) (simp_all add: put_workflow_def dict_get_set)

lemma wid_eq: "WorkflowRunId i = w \<longleftrightarrow> i = wid_str w"
  by (cases w) auto

lemma tid_eq: "TaskRunId i = t \<longleftrightarrow> i = tid_str t"
  by (cases t) auto

lemma aid_eq: "TaskAttemptId i = a \<longleftrightarrow> i = aid_str a"
  by (cases a) auto

lemma create_workflow_run_ok:
  assumes "store_ok s" "\<not> blank (wid_str (wr_run_id w))" "create_workflow_run w s = (r, s')"
  shows "store_ok s'"
  using create_workflow_run_cases [OF assms]
proof
  assume new: "r = Inr () \<and> valid_workflow_run w \<and> wr_status w = W_PENDING \<and>
    \<not> dict_has (st_workflow_runs s) (wr_run_id w) \<and>
    s' = journal WORKFLOW_RUN (wid_str (wr_run_id w)) None ''PENDING'' (wr_created_at w) (put_workflow w s)"
  have "journal_ok s'"
  proof -
    have "journal_ok (journal WORKFLOW_RUN (wid_str (wr_run_id w)) None ''PENDING'' (wr_created_at w) (put_workflow w s))"
    proof (rule journal_ok_step [of s])
      show "good_record (wid_str (wr_run_id w)) None ''PENDING'' (wr_created_at w)"
        using new assms(2) status_values_not_blank(1) [of W_PENDING]
        by (simp add: good_record_def valid_workflow_run_iff)
      show "None = stored_status WORKFLOW_RUN (wid_str (wr_run_id w)) s"
        using new by (simp add: dict_get_None_iff)
    qed (use assms(1) new in \<open>auto simp: store_ok_def put_workflow_def stored_status_put_workflow
        [unfolded put_workflow_def] wid_eq\<close>)
    then show ?thesis using new by simp
  qed
  then show ?thesis
    using new assms(1,2) by (simp add: store_ok_def put_workflow_entities)
qed (use assms(1) in simp)

lemma update_workflow_run_ok:
  assumes "store_ok s" "\<forall>t. ts = Some t \<longrightarrow> dt_aware t" "update_workflow_run w expected ts s = (r, s')"
  shows "store_ok s'"
  using update_workflow_run_cases [OF assms]
proof
  assume "r = Inr () \<and> valid_workflow_run w \<and> (\<exists>c. dict_get (st_workflow_runs s) (wr_run_id w) = Some c \<and>
      wr_status c = expected \<and> same_workflow c w \<and> (wr_status c \<noteq> wr_status w \<longrightarrow> ts \<noteq> None) \<and>
      s' = log_workflow c w ts (put_workflow w s))"
  then obtain c where v: "valid_workflow_run w" and c: "dict_get (st_workflow_runs s) (wr_run_id w) = Some c"
    and ts: "wr_status c \<noteq> wr_status w \<longrightarrow> ts \<noteq> None" and s': "s' = log_workflow c w ts (put_workflow w s)"
    by blast
  have nb: "\<not> blank (wid_str (wr_run_id w))" using store_okD(5) [OF assms(1) c] by simp
  have "journal_ok s'"
  proof (cases "wr_status c = wr_status w")
    case True
    have "journal_ok (put_workflow w s)"
    proof (rule journal_ok_same [of s])
      show "stored_status ty i (put_workflow w s) = stored_status ty i s" for ty i
        using c True by (simp add: stored_status_put_workflow)
    qed (use assms(1) in \<open>simp_all add: store_ok_def put_workflow_def\<close>)
    with True s' show ?thesis by (simp add: log_workflow_def)
  next
    case False
    have "journal_ok (journal WORKFLOW_RUN (wid_str (wr_run_id w)) (Some (workflow_status_value (wr_status c)))
        (workflow_status_value (wr_status w)) (the ts) (put_workflow w s))"
    proof (rule journal_ok_step [of s])
      show "good_record (wid_str (wr_run_id w)) (Some (workflow_status_value (wr_status c)))
          (workflow_status_value (wr_status w)) (the ts)"
        using assms(2) ts False nb by (auto simp: good_record_def)
      show "Some (workflow_status_value (wr_status c)) = stored_status WORKFLOW_RUN (wid_str (wr_run_id w)) s"
        using c by simp
      show "stored_status ty i (put_workflow w s) = (if ty = WORKFLOW_RUN \<and> i = wid_str (wr_run_id w)
          then Some (workflow_status_value (wr_status w)) else stored_status ty i s)" for ty i
        by (simp add: stored_status_put_workflow wid_eq)
    qed (use assms(1) in \<open>simp_all add: store_ok_def put_workflow_def\<close>)
    with False s' show ?thesis by (simp add: log_workflow_def)
  qed
  then show ?thesis
    using s' assms(1) v nb by (simp add: store_ok_def put_workflow_entities log_workflow_def)
qed (use assms(1) in simp)

subsection \<open>Task runs\<close>

definition put_task :: "task_run \<Rightarrow> store \<Rightarrow> store" where
  "put_task w s = s\<lparr>st_task_runs := dict_set (tr_task_run_id w) w (st_task_runs s)\<rparr>"

definition same_task :: "task_run \<Rightarrow> task_run \<Rightarrow> bool" where
  "same_task c w \<longleftrightarrow> require_task_run_identity c w = Inr ()"

definition log_task :: "task_run \<Rightarrow> task_run \<Rightarrow> datetime option \<Rightarrow> store \<Rightarrow> store" where
  "log_task c w ts s =
     (if tr_status c \<noteq> tr_status w then journal TASK_RUN (tid_str (tr_task_run_id w))
        (Some (task_status_value (tr_status c))) (task_status_value (tr_status w)) (the ts) s
      else s)"

lemma create_task_run_cases:
  assumes "store_ok s" "\<not> blank (tid_str (tr_task_run_id w))" "create_task_run w s = (r, s')"
  shows "(\<exists>e. r = Inl e) \<and> s' = s \<or>
    r = Inr () \<and> valid_task_run w \<and> tr_status w = T_PENDING \<and>
    \<not> dict_has (st_task_runs s) (tr_task_run_id w) \<and> dict_has (st_workflow_runs s) (tr_workflow_run_id w) \<and>
    s' = journal TASK_RUN (tid_str (tr_task_run_id w)) None ''PENDING'' (tr_created_at w) (put_task w s)"
proof (cases "valid_task_run w")
  case True
  then have "good_record (tid_str (tr_task_run_id w)) None ''PENDING'' (tr_created_at w)"
    using assms(2) status_values_not_blank(2) [of T_PENDING] by (simp add: good_record_def valid_task_run_iff)
  moreover have "1 \<le> st_next_sequence (put_task w s)"
    using store_okD(1) [OF assms(1)] by (simp add: put_task_def)
  ultimately have "append_transition TASK_RUN (tid_str (tr_task_run_id w)) None ''PENDING''
      (Some (tr_created_at w)) (put_task w s) =
      (Inr (), journal TASK_RUN (tid_str (tr_task_run_id w)) None ''PENDING'' (tr_created_at w) (put_task w s))"
    by (rule append_transition_good)
  then show ?thesis
    using assms(3) True
    by (auto simp: create_task_run_def require_initial_status_def require_def
        bindA_def thenA_def put_task_def split: if_splits)
next
  case False
  then obtain e where "clone_task_run w = Inl e" using clone_invalid(2) by blast
  then show ?thesis using assms(3) by (auto simp: create_task_run_def)
qed

lemma update_task_run_cases:
  assumes "store_ok s" "\<forall>t. ts = Some t \<longrightarrow> dt_aware t" "update_task_run w expected ts s = (r, s')"
  shows "(\<exists>e. r = Inl e) \<and> s' = s \<or>
    r = Inr () \<and> valid_task_run w \<and> (\<exists>c. dict_get (st_task_runs s) (tr_task_run_id w) = Some c \<and>
      tr_status c = expected \<and> same_task c w \<and> (tr_status c \<noteq> tr_status w \<longrightarrow> ts \<noteq> None) \<and>
      s' = log_task c w ts (put_task w s))"
proof (cases "valid_task_run w")
  case True
  show ?thesis
  proof (cases "dict_get (st_task_runs s) (tr_task_run_id w)")
    case None
    with True assms(3) show ?thesis
      by (auto simp: update_task_run_def task_in_store_def bindA_def)
  next
    case (Some c)
    then have nb: "\<not> blank (tid_str (tr_task_run_id w))" using store_okD(6) [OF assms(1)] by blast
    have log: "append_transition TASK_RUN (tid_str (tr_task_run_id w)) (Some (task_status_value (tr_status c)))
        (task_status_value (tr_status w)) (Some t) (put_task w s) =
      (Inr (), journal TASK_RUN (tid_str (tr_task_run_id w)) (Some (task_status_value (tr_status c)))
        (task_status_value (tr_status w)) t (put_task w s))" if "ts = Some t" for t
      using assms(2) nb that store_okD(1) [OF assms(1)]
      by (intro append_transition_good) (simp_all add: good_record_def put_task_def)
    from True Some assms(3) log show ?thesis
      by (cases ts) (auto simp: update_task_run_def task_in_store_def bindA_def
          thenA_def require_status_def same_task_def log_task_def require_def
          require_task_run_identity_def require_transition_timestamp_def put_task_def split: if_splits)
  qed
next
  case False
  then obtain e where "clone_task_run w = Inl e" using clone_invalid(2) by blast
  then show ?thesis using assms(3) by (auto simp: update_task_run_def)
qed

lemma put_task_entities:
  assumes "entities_ok s" "valid_task_run w" "\<not> blank (tid_str (tr_task_run_id w))"
    "dict_has (st_workflow_runs s) (tr_workflow_run_id w)"
  shows "entities_ok (put_task w s)"
  using assms unfolding entities_ok_def put_task_def
  by (auto simp: dict_get_set dict_set_keys)

lemma put_task_numbers [simp]: "numbers_ok (put_task w s) = numbers_ok s"
  by (simp add: numbers_ok_def attempts_of_def put_task_def)

lemma stored_status_put_task:
  "stored_status ty i (put_task w s) =
     (if ty = TASK_RUN \<and> TaskRunId i = tr_task_run_id w then Some (task_status_value (tr_status w))
      else stored_status ty i s)"
  by (cases ty) (simp_all add: put_task_def dict_get_set)

lemma create_task_run_ok:
  assumes "store_ok s" "\<not> blank (tid_str (tr_task_run_id w))" "create_task_run w s = (r, s')"
  shows "store_ok s'"
  using create_task_run_cases [OF assms]
proof
  assume new: "r = Inr () \<and> valid_task_run w \<and> tr_status w = T_PENDING \<and>
    \<not> dict_has (st_task_runs s) (tr_task_run_id w) \<and> dict_has (st_workflow_runs s) (tr_workflow_run_id w) \<and>
    s' = journal TASK_RUN (tid_str (tr_task_run_id w)) None ''PENDING'' (tr_created_at w) (put_task w s)"
  have "journal_ok s'"
  proof -
    have "journal_ok (journal TASK_RUN (tid_str (tr_task_run_id w)) None ''PENDING'' (tr_created_at w) (put_task w s))"
    proof (rule journal_ok_step [of s])
      show "good_record (tid_str (tr_task_run_id w)) None ''PENDING'' (tr_created_at w)"
        using new assms(2) status_values_not_blank(2) [of T_PENDING]
        by (simp add: good_record_def valid_task_run_iff)
      show "None = stored_status TASK_RUN (tid_str (tr_task_run_id w)) s"
        using new by (simp add: dict_get_None_iff)
    qed (use assms(1) new in \<open>auto simp: store_ok_def put_task_def stored_status_put_task
        [unfolded put_task_def] tid_eq\<close>)
    then show ?thesis using new by simp
  qed
  then show ?thesis
    using new assms(1,2) by (simp add: store_ok_def put_task_entities)
qed (use assms(1) in simp)

lemma update_task_run_ok:
  assumes "store_ok s" "\<forall>t. ts = Some t \<longrightarrow> dt_aware t" "update_task_run w expected ts s = (r, s')"
  shows "store_ok s'"
  using update_task_run_cases [OF assms]
proof
  assume "r = Inr () \<and> valid_task_run w \<and> (\<exists>c. dict_get (st_task_runs s) (tr_task_run_id w) = Some c \<and>
      tr_status c = expected \<and> same_task c w \<and> (tr_status c \<noteq> tr_status w \<longrightarrow> ts \<noteq> None) \<and>
      s' = log_task c w ts (put_task w s))"
  then obtain c where v: "valid_task_run w" and c: "dict_get (st_task_runs s) (tr_task_run_id w) = Some c"
    and ts: "tr_status c \<noteq> tr_status w \<longrightarrow> ts \<noteq> None" and same: "same_task c w" and s': "s' = log_task c w ts (put_task w s)"
    by blast
  have nb: "\<not> blank (tid_str (tr_task_run_id w))" using store_okD(6) [OF assms(1) c] by simp
  have ref: "dict_has (st_workflow_runs s) (tr_workflow_run_id w)"
    using store_okD(6) [OF assms(1) c] same by (simp add: same_task_def require_task_run_identity_def)
  have "journal_ok s'"
  proof (cases "tr_status c = tr_status w")
    case True
    have "journal_ok (put_task w s)"
    proof (rule journal_ok_same [of s])
      show "stored_status ty i (put_task w s) = stored_status ty i s" for ty i
        using c True by (simp add: stored_status_put_task)
    qed (use assms(1) in \<open>simp_all add: store_ok_def put_task_def\<close>)
    with True s' show ?thesis by (simp add: log_task_def)
  next
    case False
    have "journal_ok (journal TASK_RUN (tid_str (tr_task_run_id w)) (Some (task_status_value (tr_status c)))
        (task_status_value (tr_status w)) (the ts) (put_task w s))"
    proof (rule journal_ok_step [of s])
      show "good_record (tid_str (tr_task_run_id w)) (Some (task_status_value (tr_status c)))
          (task_status_value (tr_status w)) (the ts)"
        using assms(2) ts False nb by (auto simp: good_record_def)
      show "Some (task_status_value (tr_status c)) = stored_status TASK_RUN (tid_str (tr_task_run_id w)) s"
        using c by simp
      show "stored_status ty i (put_task w s) = (if ty = TASK_RUN \<and> i = tid_str (tr_task_run_id w)
          then Some (task_status_value (tr_status w)) else stored_status ty i s)" for ty i
        by (simp add: stored_status_put_task tid_eq)
    qed (use assms(1) in \<open>simp_all add: store_ok_def put_task_def\<close>)
    with False s' show ?thesis by (simp add: log_task_def)
  qed
  then show ?thesis
    using s' assms(1) v nb ref by (simp add: store_ok_def put_task_entities log_task_def)
qed (use assms(1) in simp)

subsection \<open>Attempts\<close>

definition put_attempt :: "task_attempt \<Rightarrow> store \<Rightarrow> store" where
  "put_attempt w s = s\<lparr>st_task_attempts := dict_set (ta_attempt_id w) w (st_task_attempts s)\<rparr>"

definition same_attempt :: "task_attempt \<Rightarrow> task_attempt \<Rightarrow> bool" where
  "same_attempt c w \<longleftrightarrow> require_attempt_identity c w = Inr ()"

definition log_attempt :: "task_attempt \<Rightarrow> task_attempt \<Rightarrow> datetime option \<Rightarrow> store \<Rightarrow> store" where
  "log_attempt c w ts s =
     (if ta_status c \<noteq> ta_status w then journal TASK_ATTEMPT (aid_str (ta_attempt_id w))
        (Some (attempt_status_value (ta_status c))) (attempt_status_value (ta_status w)) (the ts) s
      else s)"

lemma append_task_attempt_cases:
  assumes "store_ok s" "\<not> blank (aid_str (ta_attempt_id w))" "append_task_attempt w s = (r, s')"
  shows "(\<exists>e. r = Inl e) \<and> s' = s \<or>
    r = Inr () \<and> valid_task_attempt w \<and> ta_status w = A_PENDING \<and>
    \<not> dict_has (st_task_attempts s) (ta_attempt_id w) \<and> dict_has (st_task_runs s) (ta_task_run_id w) \<and>
    ta_attempt_number w = int (length (attempts_of (ta_task_run_id w) s)) + 1 \<and>
    s' = journal TASK_ATTEMPT (aid_str (ta_attempt_id w)) None ''PENDING'' (ta_created_at w) (put_attempt w s)"
proof (cases "valid_task_attempt w")
  case True
  then have "good_record (aid_str (ta_attempt_id w)) None ''PENDING'' (ta_created_at w)"
    using assms(2) status_values_not_blank(3) [of A_PENDING] by (simp add: good_record_def valid_task_attempt_iff)
  moreover have "1 \<le> st_next_sequence (put_attempt w s)"
    using store_okD(1) [OF assms(1)] by (simp add: put_attempt_def)
  ultimately have "append_transition TASK_ATTEMPT (aid_str (ta_attempt_id w)) None ''PENDING''
      (Some (ta_created_at w)) (put_attempt w s) =
      (Inr (), journal TASK_ATTEMPT (aid_str (ta_attempt_id w)) None ''PENDING'' (ta_created_at w) (put_attempt w s))"
    by (rule append_transition_good)
  then show ?thesis
    using assms(3) True
    by (auto simp: append_task_attempt_def require_initial_status_def require_def
        bindA_def thenA_def put_attempt_def Let_def split: if_splits)
next
  case False
  then obtain e where "clone_task_attempt w = Inl e" using clone_invalid(3) by blast
  then show ?thesis using assms(3) by (auto simp: append_task_attempt_def)
qed

lemma update_task_attempt_cases:
  assumes "store_ok s" "\<forall>t. ts = Some t \<longrightarrow> dt_aware t" "update_task_attempt w expected ts s = (r, s')"
  shows "(\<exists>e. r = Inl e) \<and> s' = s \<or>
    r = Inr () \<and> valid_task_attempt w \<and> (\<exists>c. dict_get (st_task_attempts s) (ta_attempt_id w) = Some c \<and>
      ta_status c = expected \<and> same_attempt c w \<and> (ta_status c \<noteq> ta_status w \<longrightarrow> ts \<noteq> None) \<and>
      s' = log_attempt c w ts (put_attempt w s))"
proof (cases "valid_task_attempt w")
  case True
  show ?thesis
  proof (cases "dict_get (st_task_attempts s) (ta_attempt_id w)")
    case None
    with True assms(3) show ?thesis
      by (auto simp: update_task_attempt_def attempt_in_store_def bindA_def)
  next
    case (Some c)
    then have nb: "\<not> blank (aid_str (ta_attempt_id w))" using store_okD(7) [OF assms(1)] by blast
    have log: "append_transition TASK_ATTEMPT (aid_str (ta_attempt_id w)) (Some (attempt_status_value (ta_status c)))
        (attempt_status_value (ta_status w)) (Some t) (put_attempt w s) =
      (Inr (), journal TASK_ATTEMPT (aid_str (ta_attempt_id w)) (Some (attempt_status_value (ta_status c)))
        (attempt_status_value (ta_status w)) t (put_attempt w s))" if "ts = Some t" for t
      using assms(2) nb that store_okD(1) [OF assms(1)]
      by (intro append_transition_good) (simp_all add: good_record_def put_attempt_def)
    from True Some assms(3) log show ?thesis
      by (cases ts) (auto simp: update_task_attempt_def attempt_in_store_def bindA_def
          thenA_def require_status_def same_attempt_def log_attempt_def require_def
          require_attempt_identity_def require_transition_timestamp_def put_attempt_def split: if_splits)
  qed
next
  case False
  then obtain e where "clone_task_attempt w = Inl e" using clone_invalid(3) by blast
  then show ?thesis using assms(3) by (auto simp: update_task_attempt_def)
qed

lemma put_attempt_entities:
  assumes "entities_ok s" "valid_task_attempt w" "\<not> blank (aid_str (ta_attempt_id w))"
    "dict_has (st_task_runs s) (ta_task_run_id w)"
  shows "entities_ok (put_attempt w s)"
  using assms unfolding entities_ok_def put_attempt_def
  by (auto simp: dict_get_set dict_set_keys)

lemma attempts_of_new:
  "\<not> dict_has (st_task_attempts s) (ta_attempt_id w) \<Longrightarrow>
   attempts_of tid (put_attempt w s) = attempts_of tid s @ (if ta_task_run_id w = tid then [w] else [])"
  by (simp add: attempts_of_def put_attempt_def dict_values_def dict_set_fresh)

lemma put_attempt_numbers_new:
  assumes "numbers_ok s" "\<not> dict_has (st_task_attempts s) (ta_attempt_id w)"
    "ta_attempt_number w = int (length (attempts_of (ta_task_run_id w) s)) + 1"
  shows "numbers_ok (put_attempt w s)"
  unfolding numbers_ok_def
proof
  fix tid
  have "map ta_attempt_number (attempts_of tid s) = map int [1..<Suc (length (attempts_of tid s))]"
    using assms(1) unfolding numbers_ok_def by blast
  then show "map ta_attempt_number (attempts_of tid (put_attempt w s)) =
      map int [1..<Suc (length (attempts_of tid (put_attempt w s)))]"
    using assms(3) by (simp add: attempts_of_new [OF assms(2)])
qed

lemma map_filter_dict_set:
  "dict_get d k = Some c \<Longrightarrow> P c = P v \<Longrightarrow> f c = f v \<Longrightarrow>
   map f (filter P (dict_values (dict_set k v d))) = map f (filter P (dict_values d))"
  by (induction d) (auto simp: dict_set_def dict_values_def)

lemma put_attempt_numbers_same:
  assumes "numbers_ok s" "dict_get (st_task_attempts s) (ta_attempt_id w) = Some c" "same_attempt c w"
  shows "numbers_ok (put_attempt w s)"
  unfolding numbers_ok_def
proof
  fix tid
  have m: "map ta_attempt_number (attempts_of tid (put_attempt w s)) = map ta_attempt_number (attempts_of tid s)"
    using assms(2,3) unfolding attempts_of_def put_attempt_def
    by (simp add: map_filter_dict_set same_attempt_def require_attempt_identity_def)
  moreover have "length (attempts_of tid (put_attempt w s)) = length (attempts_of tid s)"
    using m by (metis length_map)
  ultimately show "map ta_attempt_number (attempts_of tid (put_attempt w s)) =
      map int [1..<Suc (length (attempts_of tid (put_attempt w s)))]"
    using assms(1) unfolding numbers_ok_def by simp
qed

lemma stored_status_put_attempt:
  "stored_status ty i (put_attempt w s) =
     (if ty = TASK_ATTEMPT \<and> TaskAttemptId i = ta_attempt_id w then Some (attempt_status_value (ta_status w))
      else stored_status ty i s)"
  by (cases ty) (simp_all add: put_attempt_def dict_get_set)

lemma append_task_attempt_ok:
  assumes "store_ok s" "\<not> blank (aid_str (ta_attempt_id w))" "append_task_attempt w s = (r, s')"
  shows "store_ok s'"
  using append_task_attempt_cases [OF assms]
proof
  assume new: "r = Inr () \<and> valid_task_attempt w \<and> ta_status w = A_PENDING \<and>
    \<not> dict_has (st_task_attempts s) (ta_attempt_id w) \<and> dict_has (st_task_runs s) (ta_task_run_id w) \<and>
    ta_attempt_number w = int (length (attempts_of (ta_task_run_id w) s)) + 1 \<and>
    s' = journal TASK_ATTEMPT (aid_str (ta_attempt_id w)) None ''PENDING'' (ta_created_at w) (put_attempt w s)"
  have "journal_ok s'"
  proof -
    have "journal_ok (journal TASK_ATTEMPT (aid_str (ta_attempt_id w)) None ''PENDING'' (ta_created_at w) (put_attempt w s))"
    proof (rule journal_ok_step [of s])
      show "good_record (aid_str (ta_attempt_id w)) None ''PENDING'' (ta_created_at w)"
        using new assms(2) status_values_not_blank(3) [of A_PENDING]
        by (simp add: good_record_def valid_task_attempt_iff)
      show "None = stored_status TASK_ATTEMPT (aid_str (ta_attempt_id w)) s"
        using new by (simp add: dict_get_None_iff)
    qed (use assms(1) new in \<open>auto simp: store_ok_def put_attempt_def stored_status_put_attempt
        [unfolded put_attempt_def] aid_eq\<close>)
    then show ?thesis using new by simp
  qed
  then show ?thesis
    using new assms(1,2) by (simp add: store_ok_def put_attempt_entities put_attempt_numbers_new)
qed (use assms(1) in simp)

lemma update_task_attempt_ok:
  assumes "store_ok s" "\<forall>t. ts = Some t \<longrightarrow> dt_aware t" "update_task_attempt w expected ts s = (r, s')"
  shows "store_ok s'"
  using update_task_attempt_cases [OF assms]
proof
  assume "r = Inr () \<and> valid_task_attempt w \<and> (\<exists>c. dict_get (st_task_attempts s) (ta_attempt_id w) = Some c \<and>
      ta_status c = expected \<and> same_attempt c w \<and> (ta_status c \<noteq> ta_status w \<longrightarrow> ts \<noteq> None) \<and>
      s' = log_attempt c w ts (put_attempt w s))"
  then obtain c where v: "valid_task_attempt w" and c: "dict_get (st_task_attempts s) (ta_attempt_id w) = Some c"
    and ts: "ta_status c \<noteq> ta_status w \<longrightarrow> ts \<noteq> None" and same: "same_attempt c w" and s': "s' = log_attempt c w ts (put_attempt w s)"
    by blast
  have nb: "\<not> blank (aid_str (ta_attempt_id w))" using store_okD(7) [OF assms(1) c] by simp
  have ref: "dict_has (st_task_runs s) (ta_task_run_id w)"
    using store_okD(7) [OF assms(1) c] same by (simp add: same_attempt_def require_attempt_identity_def)
  have "journal_ok s'"
  proof (cases "ta_status c = ta_status w")
    case True
    have "journal_ok (put_attempt w s)"
    proof (rule journal_ok_same [of s])
      show "stored_status ty i (put_attempt w s) = stored_status ty i s" for ty i
        using c True by (simp add: stored_status_put_attempt)
    qed (use assms(1) in \<open>simp_all add: store_ok_def put_attempt_def\<close>)
    with True s' show ?thesis by (simp add: log_attempt_def)
  next
    case False
    have "journal_ok (journal TASK_ATTEMPT (aid_str (ta_attempt_id w)) (Some (attempt_status_value (ta_status c)))
        (attempt_status_value (ta_status w)) (the ts) (put_attempt w s))"
    proof (rule journal_ok_step [of s])
      show "good_record (aid_str (ta_attempt_id w)) (Some (attempt_status_value (ta_status c)))
          (attempt_status_value (ta_status w)) (the ts)"
        using assms(2) ts False nb by (auto simp: good_record_def)
      show "Some (attempt_status_value (ta_status c)) = stored_status TASK_ATTEMPT (aid_str (ta_attempt_id w)) s"
        using c by simp
      show "stored_status ty i (put_attempt w s) = (if ty = TASK_ATTEMPT \<and> i = aid_str (ta_attempt_id w)
          then Some (attempt_status_value (ta_status w)) else stored_status ty i s)" for ty i
        by (simp add: stored_status_put_attempt aid_eq)
    qed (use assms(1) in \<open>simp_all add: store_ok_def put_attempt_def\<close>)
    with False s' show ?thesis by (simp add: log_attempt_def)
  qed
  then show ?thesis
    using s' assms(1) v nb ref put_attempt_numbers_same [OF _ c same]
    by (simp add: store_ok_def put_attempt_entities log_attempt_def)
qed (use assms(1) in simp)

subsection \<open>References, checkpoints and manifests\<close>

text \<open>A write outside the three entity tables and the journal only has to keep \<open>entities_ok\<close>.\<close>

lemma store_ok_tables:
  assumes ok: "store_ok s" and ent: "entities_ok s'"
    and same: "st_transitions s' = st_transitions s" "st_next_sequence s' = st_next_sequence s"
      "st_workflow_runs s' = st_workflow_runs s" "st_task_runs s' = st_task_runs s"
      "st_task_attempts s' = st_task_attempts s"
  shows "store_ok s'"
proof -
  have status: "stored_status ty i s' = stored_status ty i s" for ty i
    using same(3-5) by (cases ty) simp_all
  have "journal_ok s'"
    by (rule journal_ok_same [OF _ same(1,2) status]) (use ok in \<open>simp add: store_ok_def\<close>)
  moreover have "numbers_ok s'"
    using ok same(5) unfolding store_ok_def numbers_ok_def attempts_of_def by simp
  ultimately show ?thesis using ent by (simp add: store_ok_def)
qed

lemma append_external_run_ref_ok:
  assumes "store_ok s" "append_external_run_ref aid ref s = (r, s')"
  shows "store_ok s'"
proof (cases "s' = s")
  case False
  then have s': "s' = s\<lparr>st_external_refs := dict_set (external_ref_key aid ref) ref (st_external_refs s)\<rparr>"
    and aid: "dict_has (st_task_attempts s) aid"
    using assms(2) by (auto simp: append_external_run_ref_def bindA_def thenA_def Let_def split: if_splits)
  have "entities_ok s'"
    using assms(1) aid unfolding s' store_ok_def entities_ok_def external_ref_key_def
    by (elim conjE, intro conjI) (simp_all add: dict_set_keys)
  then show ?thesis by (rule store_ok_tables [OF assms(1)]) (simp_all add: s')
qed (use assms(1) in simp)

lemma set_task_output_checkpoint_ok:
  assumes "store_ok s" "set_task_output_checkpoint cp s = (r, s')"
  shows "store_ok s'"
proof (cases "s' = s")
  case False
  then have s': "s' = s\<lparr>st_checkpoints := dict_set (cp_task_run_id cp) cp (st_checkpoints s)\<rparr>"
    and task: "dict_has (st_task_runs s) (cp_task_run_id cp)"
    using assms(2)
    by (auto simp: set_task_output_checkpoint_def task_in_store_def bindA_def thenA_def dict_has_iff
        split: if_splits option.splits)
  have "entities_ok s'"
    using assms(1) task unfolding s' store_ok_def entities_ok_def
    by (elim conjE, intro conjI) (simp_all add: dict_get_set)
  then show ?thesis by (rule store_ok_tables [OF assms(1)]) (simp_all add: s')
qed (use assms(1) in simp)

lemma set_manifest_reference_ok:
  assumes "store_ok s" "set_manifest_reference run_id m s = (r, s')"
  shows "store_ok s'"
proof (cases "s' = s")
  case False
  then have s': "s' = s\<lparr>st_manifests := dict_set run_id m (st_manifests s)\<rparr>"
    and run: "dict_has (st_workflow_runs s) run_id"
    using assms(2) by (auto simp: set_manifest_reference_def bindA_def thenA_def split: if_splits)
  have "entities_ok s'"
    using assms(1) run unfolding s' store_ok_def entities_ok_def
    by (elim conjE, intro conjI) (simp_all add: dict_set_keys)
  then show ?thesis by (rule store_ok_tables [OF assms(1)]) (simp_all add: s')
qed (use assms(1) in simp)

section \<open>Reads\<close>

text \<open>Reads leave the store alone; on a consistent store they return what is stored.\<close>

lemma bindA_read: "(\<And>s. snd (m s) = s) \<Longrightarrow> (\<And>x s. snd (f x s) = s) \<Longrightarrow> snd (bindA m f s) = s"
  by (simp add: bindA_def split: prod.splits sum.splits) (metis snd_conv)

lemma reads_pure [simp]:
  "snd (workflow_in_store i s) = s" "snd (task_in_store t s) = s" "snd (attempt_in_store a s) = s"
  "snd (get_workflow_run i s) = s" "snd (get_task_run t s) = s" "snd (get_task_attempt a s) = s"
  "snd (list_workflow_runs s) = s" "snd (list_unfinished_workflow_runs s) = s"
  "snd (list_task_runs i s) = s" "snd (list_task_attempts t s) = s"
  "snd (list_external_run_refs a s) = s" "snd (get_task_output_checkpoint t s) = s"
  "snd (get_manifest_reference i s) = s" "snd (list_state_transitions ty n s) = s"
  "snd (list_runtime_events i s) = s"
proof -
  show w: "snd (workflow_in_store i s) = s" for i s
    unfolding workflow_in_store_def by (rule bindA_read) (auto split: option.splits)
  show t: "snd (task_in_store t s) = s" for t s
    unfolding task_in_store_def by (rule bindA_read) (auto split: option.splits)
  show a: "snd (attempt_in_store a s) = s" for a s
    unfolding attempt_in_store_def by (rule bindA_read) (auto split: option.splits)
  show "snd (get_workflow_run i s) = s" "snd (get_task_run t s) = s" "snd (get_task_attempt a s) = s"
    unfolding get_workflow_run_def get_task_run_def get_task_attempt_def
    by (rule bindA_read; simp add: w t a)+
  show "snd (list_workflow_runs s) = s" "snd (list_unfinished_workflow_runs s) = s"
    "snd (list_task_runs i s) = s" "snd (list_task_attempts t s) = s"
    unfolding list_workflow_runs_def list_unfinished_workflow_runs_def list_task_runs_def list_task_attempts_def
    by (rule bindA_read; simp)+
  show "snd (list_external_run_refs a s) = s" by (simp add: list_external_run_refs_def)
  show "snd (get_task_output_checkpoint t s) = s" "snd (get_manifest_reference i s) = s"
    unfolding get_task_output_checkpoint_def get_manifest_reference_def
    by (rule bindA_read; simp split: option.splits)+
  show "snd (list_state_transitions ty n s) = s"
    unfolding list_state_transitions_def Let_def
    by (rule bindA_read) (auto simp: thenA_def bindA_def split: option.splits)
  show "snd (list_runtime_events i s) = s"
    unfolding list_runtime_events_def by (simp add: thenA_def bindA_def split: sum.splits)
qed

lemma get_workflow_run_Inr:
  "get_workflow_run i s = (Inr w, s') \<longleftrightarrow> s' = s \<and> dict_get (st_workflow_runs s) i = Some w \<and> valid_workflow_run w"
  by (auto simp: get_workflow_run_def workflow_in_store_def bindA_def clone_workflow_run_def thenR_Inr_iff
      split: option.splits)

lemma get_task_run_Inr:
  "get_task_run i s = (Inr t, s') \<longleftrightarrow> s' = s \<and> dict_get (st_task_runs s) i = Some t \<and> valid_task_run t"
  by (auto simp: get_task_run_def task_in_store_def bindA_def clone_task_run_def thenR_Inr_iff
      split: option.splits)

lemma get_task_attempt_Inr:
  "get_task_attempt i s = (Inr a, s') \<longleftrightarrow> s' = s \<and> dict_get (st_task_attempts s) i = Some a \<and> valid_task_attempt a"
  by (auto simp: get_task_attempt_def attempt_in_store_def bindA_def clone_task_attempt_def thenR_Inr_iff
      split: option.splits)

lemma mapR_clone: "(\<And>x. x \<in> set xs \<Longrightarrow> f x = Inr x) \<Longrightarrow> mapR f xs = Inr xs"
  by (induction xs) auto

lemma list_task_runs_ok:
  assumes "store_ok s"
  shows "list_task_runs i s = (Inr (sort_key (\<lambda>t. (tr_task_key t, tid_str (tr_task_run_id t)))
       (filter (\<lambda>t. tr_workflow_run_id t = i) (dict_values (st_task_runs s)))), s)"
proof -
  have "valid_task_run t" if "t \<in> set (dict_values (st_task_runs s))" for t
    using that assms store_okD(3,6) [OF assms] dict_values_set by blast
  then have "mapR clone_task_run (sort_key (\<lambda>t. (tr_task_key t, tid_str (tr_task_run_id t)))
       (filter (\<lambda>t. tr_workflow_run_id t = i) (dict_values (st_task_runs s)))) =
     Inr (sort_key (\<lambda>t. (tr_task_key t, tid_str (tr_task_run_id t)))
       (filter (\<lambda>t. tr_workflow_run_id t = i) (dict_values (st_task_runs s))))"
    by (intro mapR_clone) simp
  then show ?thesis by (simp add: list_task_runs_def)
qed

lemma list_task_attempts_ok:
  assumes "store_ok s"
  shows "list_task_attempts tid s = (Inr (attempts_of tid s), s)"
proof -
  have "valid_task_attempt a" if "a \<in> set (attempts_of tid s)" for a
    using that assms store_okD(4,7) [OF assms] dict_values_set unfolding attempts_of_def by fastforce
  then have "mapR clone_task_attempt (sort_key ta_attempt_number (attempts_of tid s)) =
      Inr (sort_key ta_attempt_number (attempts_of tid s))"
    by (intro mapR_clone) simp
  moreover have "sorted (map ta_attempt_number (attempts_of tid s))"
  proof -
    have "sorted (map int [m..<n])" for m n
      unfolding sorted_map by (rule sorted_wrt_mono_rel [OF _ sorted_upt]) simp
    moreover have "map ta_attempt_number (attempts_of tid s) = map int [1..<Suc (length (attempts_of tid s))]"
      using assms unfolding store_ok_def numbers_ok_def by blast
    ultimately show ?thesis by (simp only:)
  qed
  then have "sort_key ta_attempt_number (attempts_of tid s) = attempts_of tid s"
    by (rule sort_key_sorted_id)
  ultimately show ?thesis by (simp add: list_task_attempts_def)
qed

section \<open>The contract of an entity table\<close>

text \<open>
  The three kinds of entities obey one contract: an update is a compare-and-set on the status.
  \<open>lookup\<close>, \<open>ident\<close> and \<open>status\<close> read the table and its entities; \<open>valid\<close> is the validation
  that every copy repeats; \<open>conflict\<close> is the exception for a stale expectation.
\<close>

locale entity_table =
  fixes lookup :: "store \<Rightarrow> 'i \<Rightarrow> 'e option"
    and ident :: "'e \<Rightarrow> 'i"
    and status :: "'e \<Rightarrow> 'st"
    and valid :: "'e \<Rightarrow> bool"
    and conflict :: "'e \<Rightarrow> 'st \<Rightarrow> 'st \<Rightarrow> pyexc"
    and update :: "'e \<Rightarrow> 'st \<Rightarrow> datetime option \<Rightarrow> (store, unit) act"
  assumes keyed: "store_ok s \<Longrightarrow> lookup s i = Some c \<Longrightarrow> ident c = i"
    and keeps_ok: "store_ok s \<Longrightarrow> \<forall>t. ts = Some t \<longrightarrow> dt_aware t \<Longrightarrow> update e x ts s = (r, s') \<Longrightarrow> store_ok s'"
    and success: "store_ok s \<Longrightarrow> \<forall>t. ts = Some t \<longrightarrow> dt_aware t \<Longrightarrow> update e x ts s = (Inr u, s') \<Longrightarrow>
      \<exists>c. lookup s (ident e) = Some c \<and> status c = x"
    and effect: "store_ok s \<Longrightarrow> \<forall>t. ts = Some t \<longrightarrow> dt_aware t \<Longrightarrow> update e x ts s = (Inr u, s') \<Longrightarrow>
      lookup s' i = (if i = ident e then Some e else lookup s i)"
    and failure: "store_ok s \<Longrightarrow> \<forall>t. ts = Some t \<longrightarrow> dt_aware t \<Longrightarrow> update e x ts s = (Inl err, s') \<Longrightarrow> s' = s"
    and stale: "valid e \<Longrightarrow> lookup s (ident e) = Some c \<Longrightarrow> status c \<noteq> x \<Longrightarrow>
      update e x ts s = (Inl (conflict e x (status c)), s)"
begin

text \<open>Of two writers that have read the same status, the second is refused once the first has
  changed it, and its write is not applied.\<close>

lemma no_lost_update:
  assumes "store_ok s" "\<forall>t. ts1 = Some t \<longrightarrow> dt_aware t"
    and "update e1 x ts1 s = (Inr u, s1)" "status e1 \<noteq> x" "ident e2 = ident e1" "valid e2"
  shows "update e2 x ts2 s1 = (Inl (conflict e2 x (status e1)), s1) \<and> lookup s1 (ident e1) = Some e1"
proof -
  have "lookup s1 (ident e1) = Some e1" using effect [OF assms(1-3)] by simp
  then show ?thesis using stale [OF assms(6), of s1 e1 x ts2] assms(4,5) by simp
qed

lemma update_frame:
  assumes "store_ok s" "\<forall>t. ts = Some t \<longrightarrow> dt_aware t" "update e x ts s = (r, s')" "i \<noteq> ident e"
  shows "lookup s' i = lookup s i"
proof (cases r)
  case (Inl err)
  with assms(3) have "s' = s" using failure [OF assms(1,2)] by blast
  then show ?thesis by simp
next
  case (Inr u)
  with assms(3) have "lookup s' i = (if i = ident e then Some e else lookup s i)"
    using effect [OF assms(1,2)] by blast
  with assms(4) show ?thesis by simp
qed

end

lemma lookup_log [simp]:
  "st_workflow_runs (journal ty i f t ts s) = st_workflow_runs s"
  "st_task_runs (journal ty i f t ts s) = st_task_runs s"
  "st_task_attempts (journal ty i f t ts s) = st_task_attempts s"
  "st_external_refs (journal ty i f t ts s) = st_external_refs s"
  "st_checkpoints (journal ty i f t ts s) = st_checkpoints s"
  "st_manifests (journal ty i f t ts s) = st_manifests s"
  by (simp_all add: journal_def)

lemma log_tables [simp]:
  "st_workflow_runs (log_workflow c w ts s) = st_workflow_runs s"
  "st_task_runs (log_workflow c w ts s) = st_task_runs s"
  "st_task_attempts (log_workflow c w ts s) = st_task_attempts s"
  "st_workflow_runs (log_task c2 t ts s) = st_workflow_runs s"
  "st_task_runs (log_task c2 t ts s) = st_task_runs s"
  "st_task_attempts (log_task c2 t ts s) = st_task_attempts s"
  "st_workflow_runs (log_attempt c3 a ts s) = st_workflow_runs s"
  "st_task_runs (log_attempt c3 a ts s) = st_task_runs s"
  "st_task_attempts (log_attempt c3 a ts s) = st_task_attempts s"
  by (simp_all add: log_workflow_def log_task_def log_attempt_def)

interpretation workflow_table: entity_table "\<lambda>s. dict_get (st_workflow_runs s)" wr_run_id wr_status
  valid_workflow_run
  "\<lambda>w x y. MetadataConflict ''WorkflowRun'' (wid_str (wr_run_id w)) (workflow_status_value x) (workflow_status_value y)"
  update_workflow_run
proof
  fix s i c assume "store_ok s" "dict_get (st_workflow_runs s) i = Some c"
  then show "wr_run_id c = i" using store_okD(5) by blast
next
  fix s ts e x r s' assume "store_ok s" "\<forall>t. ts = Some t \<longrightarrow> dt_aware t" "update_workflow_run e x ts s = (r, s')"
  then show "store_ok s'" by (rule update_workflow_run_ok)
next
  fix s ts e x u s' assume a: "store_ok s" "\<forall>t. ts = Some t \<longrightarrow> dt_aware t" "update_workflow_run e x ts s = (Inr u, s')"
  from update_workflow_run_cases [OF a]
  show "\<exists>c. dict_get (st_workflow_runs s) (wr_run_id e) = Some c \<and> wr_status c = x" by auto
next
  fix s ts e x u s' i assume a: "store_ok s" "\<forall>t. ts = Some t \<longrightarrow> dt_aware t" "update_workflow_run e x ts s = (Inr u, s')"
  from update_workflow_run_cases [OF a]
  show "dict_get (st_workflow_runs s') i = (if i = wr_run_id e then Some e else dict_get (st_workflow_runs s) i)"
    by (auto simp: put_workflow_def dict_get_set)
next
  fix s ts e x err s' assume a: "store_ok s" "\<forall>t. ts = Some t \<longrightarrow> dt_aware t" "update_workflow_run e x ts s = (Inl err, s')"
  from update_workflow_run_cases [OF a] show "s' = s" by auto
next
  fix e and s :: store and c x ts assume "valid_workflow_run e" "dict_get (st_workflow_runs s) (wr_run_id e) = Some c" "wr_status c \<noteq> x"
  then show "update_workflow_run e x ts s = (Inl (MetadataConflict ''WorkflowRun'' (wid_str (wr_run_id e))
      (workflow_status_value x) (workflow_status_value (wr_status c))), s)"
    by (simp add: update_workflow_run_def workflow_in_store_def bindA_def thenA_def require_status_def require_def)
qed

interpretation task_table: entity_table "\<lambda>s. dict_get (st_task_runs s)" tr_task_run_id tr_status
  valid_task_run
  "\<lambda>w x y. MetadataConflict ''TaskRun'' (tid_str (tr_task_run_id w)) (task_status_value x) (task_status_value y)"
  update_task_run
proof
  fix s i c assume "store_ok s" "dict_get (st_task_runs s) i = Some c"
  then show "tr_task_run_id c = i" using store_okD(6) by blast
next
  fix s ts e x r s' assume "store_ok s" "\<forall>t. ts = Some t \<longrightarrow> dt_aware t" "update_task_run e x ts s = (r, s')"
  then show "store_ok s'" by (rule update_task_run_ok)
next
  fix s ts e x u s' assume a: "store_ok s" "\<forall>t. ts = Some t \<longrightarrow> dt_aware t" "update_task_run e x ts s = (Inr u, s')"
  from update_task_run_cases [OF a]
  show "\<exists>c. dict_get (st_task_runs s) (tr_task_run_id e) = Some c \<and> tr_status c = x" by auto
next
  fix s ts e x u s' i assume a: "store_ok s" "\<forall>t. ts = Some t \<longrightarrow> dt_aware t" "update_task_run e x ts s = (Inr u, s')"
  from update_task_run_cases [OF a]
  show "dict_get (st_task_runs s') i = (if i = tr_task_run_id e then Some e else dict_get (st_task_runs s) i)"
    by (auto simp: put_task_def dict_get_set)
next
  fix s ts e x err s' assume a: "store_ok s" "\<forall>t. ts = Some t \<longrightarrow> dt_aware t" "update_task_run e x ts s = (Inl err, s')"
  from update_task_run_cases [OF a] show "s' = s" by auto
next
  fix e and s :: store and c x ts assume "valid_task_run e" "dict_get (st_task_runs s) (tr_task_run_id e) = Some c" "tr_status c \<noteq> x"
  then show "update_task_run e x ts s = (Inl (MetadataConflict ''TaskRun'' (tid_str (tr_task_run_id e))
      (task_status_value x) (task_status_value (tr_status c))), s)"
    by (simp add: update_task_run_def task_in_store_def bindA_def thenA_def require_status_def require_def)
qed

interpretation attempt_table: entity_table "\<lambda>s. dict_get (st_task_attempts s)" ta_attempt_id ta_status
  valid_task_attempt
  "\<lambda>w x y. MetadataConflict ''TaskAttempt'' (aid_str (ta_attempt_id w)) (attempt_status_value x) (attempt_status_value y)"
  update_task_attempt
proof
  fix s i c assume "store_ok s" "dict_get (st_task_attempts s) i = Some c"
  then show "ta_attempt_id c = i" using store_okD(7) by blast
next
  fix s ts e x r s' assume "store_ok s" "\<forall>t. ts = Some t \<longrightarrow> dt_aware t" "update_task_attempt e x ts s = (r, s')"
  then show "store_ok s'" by (rule update_task_attempt_ok)
next
  fix s ts e x u s' assume a: "store_ok s" "\<forall>t. ts = Some t \<longrightarrow> dt_aware t" "update_task_attempt e x ts s = (Inr u, s')"
  from update_task_attempt_cases [OF a]
  show "\<exists>c. dict_get (st_task_attempts s) (ta_attempt_id e) = Some c \<and> ta_status c = x" by auto
next
  fix s ts e x u s' i assume a: "store_ok s" "\<forall>t. ts = Some t \<longrightarrow> dt_aware t" "update_task_attempt e x ts s = (Inr u, s')"
  from update_task_attempt_cases [OF a]
  show "dict_get (st_task_attempts s') i = (if i = ta_attempt_id e then Some e else dict_get (st_task_attempts s) i)"
    by (auto simp: put_attempt_def dict_get_set)
next
  fix s ts e x err s' assume a: "store_ok s" "\<forall>t. ts = Some t \<longrightarrow> dt_aware t" "update_task_attempt e x ts s = (Inl err, s')"
  from update_task_attempt_cases [OF a] show "s' = s" by auto
next
  fix e and s :: store and c x ts assume "valid_task_attempt e" "dict_get (st_task_attempts s) (ta_attempt_id e) = Some c" "ta_status c \<noteq> x"
  then show "update_task_attempt e x ts s = (Inl (MetadataConflict ''TaskAttempt'' (aid_str (ta_attempt_id e))
      (attempt_status_value x) (attempt_status_value (ta_status c))), s)"
    by (simp add: update_task_attempt_def attempt_in_store_def bindA_def thenA_def require_status_def require_def)
qed

text \<open>C28: No lost update.  When two writers have read a task run in the same status and the
  first changes it, the second one's update is refused with \<open>MetadataConflictError\<close> and
  leaves the store as the first writer left it, so a completion and a cancellation that race
  cannot both be recorded.\<close>
theorem no_lost_task_update:
  assumes "store_ok s" "dt_aware t1"
    and "update_task_run e1 expected (Some t1) s = (Inr u, s1)" "tr_status e1 \<noteq> expected"
    and "tr_task_run_id e2 = tr_task_run_id e1" "valid_task_run e2"
  shows "update_task_run e2 expected ts2 s1 =
      (Inl (MetadataConflict ''TaskRun'' (tid_str (tr_task_run_id e2)) (task_status_value expected)
         (task_status_value (tr_status e1))), s1) \<and>
    dict_get (st_task_runs s1) (tr_task_run_id e1) = Some e1"
  using task_table.no_lost_update [OF assms(1) _ assms(3,4,5,6)] assms(2) by simp

text \<open>C29: A successful update of a workflow run writes exactly the run and its evidence: the run
  found under the expected status is replaced, no other entity is touched, and one record with
  the next sequence number is appended to the journal if and only if the status changed.\<close>
theorem update_workflow_run_exact:
  assumes "store_ok s" "\<forall>t. ts = Some t \<longrightarrow> dt_aware t" "update_workflow_run w expected ts s = (Inr u, s')"
  shows "(\<exists>c. dict_get (st_workflow_runs s) (wr_run_id w) = Some c \<and> wr_status c = expected) \<and>
    st_workflow_runs s' = dict_set (wr_run_id w) w (st_workflow_runs s) \<and>
    st_task_runs s' = st_task_runs s \<and> st_task_attempts s' = st_task_attempts s \<and>
    st_transitions s' = st_transitions s @
      (if wr_status w = expected then []
       else [\<lparr>tx_sequence = st_next_sequence s, tx_entity_type = WORKFLOW_RUN,
              tx_entity_id = wid_str (wr_run_id w),
              tx_from_status = Some (workflow_status_value expected),
              tx_to_status = workflow_status_value (wr_status w), tx_occurred_at = the ts\<rparr>]) \<and>
    st_next_sequence s' = st_next_sequence s + (if wr_status w = expected then 0 else 1) \<and>
    st_checkpoints s' = st_checkpoints s \<and> st_external_refs s' = st_external_refs s \<and> st_manifests s' = st_manifests s"
proof -
  from update_workflow_run_cases [OF assms] obtain c where
    "dict_get (st_workflow_runs s) (wr_run_id w) = Some c" "wr_status c = expected"
    "s' = log_workflow c w ts (put_workflow w s)" by auto
  then show ?thesis
    by (auto simp: log_workflow_def put_workflow_def journal_def)
qed

section \<open>Reading events\<close>

lemma event_subject_total:
  assumes "store_ok s" "r \<in> set (st_transitions s)"
  shows "\<exists>x. event_subject s r = Inr x"
proof -
  have "\<not> blank (tx_entity_id r)"
    using assms by (auto simp: store_ok_def journal_ok_def transition_record_post_init_def thenR_Inr_iff)
  then show ?thesis
    by (cases "tx_entity_type r")
      (simp_all add: event_subject_def parse_workflow_run_id_def parse_task_run_id_def
        parse_task_attempt_id_def identifier_post_init_def require_def)
qed

lemma event_subject_facts:
  assumes "store_ok s" "event_subject s r = Inr (Some (run_id, tid, aid, key, number, res))"
  shows "\<forall>k. key = Some k \<longrightarrow> \<not> blank k" "\<forall>n. number = Some n \<longrightarrow> 1 \<le> n"
proof -
  have "(\<forall>k. key = Some k \<longrightarrow> \<not> blank k) \<and> (\<forall>n. number = Some n \<longrightarrow> 1 \<le> n)"
  proof (cases "tx_entity_type r")
    case WORKFLOW_RUN
    with assms(2) show ?thesis by (auto simp: event_subject_def bindR_Inr_iff split: option.splits)
  next
    case TASK_RUN
    with assms(2) store_okD(6) [OF assms(1)] show ?thesis
      by (auto simp: event_subject_def bindR_Inr_iff valid_task_run_iff split: option.splits)
  next
    case TASK_ATTEMPT
    with assms(2) store_okD(6,7) [OF assms(1)] show ?thesis
      by (auto simp: event_subject_def bindR_Inr_iff valid_task_run_iff valid_task_attempt_iff split: option.splits)
  qed
  then show "\<forall>k. key = Some k \<longrightarrow> \<not> blank k" "\<forall>n. number = Some n \<longrightarrow> 1 \<le> n" by blast+
qed

lemma event_type_total:
  "\<exists>x. runtime_event_type_for_transition (entity_type_value ty) f t n res = Inr x"
  by (cases ty) (simp_all add: runtime_event_type_for_transition_def)

lemma payload_object:
  "\<exists>j. normalize_json (PyMap [(KStr ''entity_type'', PyStr a), (KStr ''entity_id'', PyStr b)]) = Inr j \<and> is_object j"
  by (simp add: is_object_def)

lemma event_for_transition_total:
  assumes "store_ok s" "r \<in> set (st_transitions s)"
  shows "\<exists>x. event_for_transition s r = Inr x"
proof -
  obtain subject where subject: "event_subject s r = Inr subject" using event_subject_total [OF assms] by blast
  show ?thesis
  proof (cases subject)
    case None
    with subject show ?thesis by (simp add: event_for_transition_def)
  next
    case (Some x)
    obtain run_id tid aid key number res where x: "x = (run_id, tid, aid, key, number, res)"
      by (cases x) auto
    note facts = event_subject_facts [OF assms(1) subject [unfolded Some x]]
    have r: "1 \<le> tx_sequence r" "\<not> blank (tx_to_status r)" "dt_aware (tx_occurred_at r)"
      "optional_text ''from_status'' (tx_from_status r) = Inr ()"
      using assms by (auto simp: store_ok_def journal_ok_def transition_record_post_init_def thenR_Inr_iff)
    have id: "\<not> blank (wid_str run_id @ '':event-'' @ py_str_int (tx_sequence r))"
      by (simp add: blank_def py_isspace_def)
    obtain ty where ty: "runtime_event_type_for_transition (entity_type_value (tx_entity_type r))
        (tx_from_status r) (tx_to_status r) number res = Inr ty"
      using event_type_total by blast
    obtain j where j: "normalize_json (PyMap [(KStr ''entity_type'', PyStr (entity_type_value (tx_entity_type r))),
        (KStr ''entity_id'', PyStr (tx_entity_id r))]) = Inr j" "is_object j"
      using payload_object by blast
    show ?thesis
      using subject Some x ty j facts r id
      by (cases ty; cases number; cases key)
        (simp_all add: event_for_transition_def mk_runtime_event_def require_def required_text_def optional_text_def
          del: normalize_json.simps append.simps)
  qed
qed

lemma mk_runtime_event_Inr:
  "mk_runtime_event e payload = Inr e' \<Longrightarrow> \<exists>j. e' = e\<lparr>ev_payload := j\<rparr>"
  unfolding mk_runtime_event_def by (auto simp: bindR_Inr_iff thenR_Inr_iff)

lemma event_for_transition_Some:
  assumes "event_for_transition s r = Inr (Some e)"
  shows "ev_sequence e = tx_sequence r \<and> ev_from_status e = tx_from_status r \<and>
    ev_to_status e = tx_to_status r \<and> ev_occurred_at e = tx_occurred_at r"
proof -
  from assms obtain subject where subject: "event_subject s r = Inr (Some subject)"
    by (auto simp: event_for_transition_def bindR_Inr_iff split: option.splits)
  obtain run_id tid aid key number res where x: "subject = (run_id, tid, aid, key, number, res)"
    by (cases subject) auto
  from assms subject x obtain e0 payload where "mk_runtime_event e0 payload = Inr e"
    "ev_sequence e0 = tx_sequence r" "ev_from_status e0 = tx_from_status r"
    "ev_to_status e0 = tx_to_status r" "ev_occurred_at e0 = tx_occurred_at r"
    by (fastforce simp: event_for_transition_def bindR_Inr_iff split: option.splits
        simp del: normalize_json.simps append.simps)
  with mk_runtime_event_Inr [OF this(1)] show ?thesis by auto
qed

lemma sorted_map_filter:
  "sorted_wrt (<) (map g xs) \<Longrightarrow> list_all2 (\<lambda>x y. \<forall>e. y = Some e \<longrightarrow> h e = g x) xs ys \<Longrightarrow>
   sorted_wrt (<) (map h (List.map_filter (\<lambda>e. e) ys)) \<and>
   (\<forall>e \<in> set (List.map_filter (\<lambda>e. e) ys). \<exists>x \<in> set xs. h e = g x)"
  for g :: "'x \<Rightarrow> int"
proof (induction xs arbitrary: ys)
  case (Cons x xs)
  then obtain y ys' where ys: "ys = y # ys'" "list_all2 (\<lambda>x y. \<forall>e. y = Some e \<longrightarrow> h e = g x) xs ys'"
    "\<forall>e. y = Some e \<longrightarrow> h e = g x" by (auto simp: list_all2_Cons1)
  with Cons.IH [OF _ ys(2)] Cons.prems(1) show ?case
    by (cases y) (fastforce simp: map_filter_simps)+
qed (simp add: map_filter_simps)

lemma events_listed:
  assumes "store_ok s" "dict_has (st_workflow_runs s) run_id"
  shows "\<exists>events. list_runtime_events run_id s = (Inr events, s) \<and>
    sorted_wrt (<) (map ev_sequence events) \<and>
    (\<forall>e \<in> set events. ev_workflow_run_id e = run_id \<and>
      (\<exists>r \<in> set (st_transitions s). ev_sequence e = tx_sequence r))"
proof -
  obtain ys where ys: "mapR (event_for_transition s) (st_transitions s) = Inr ys"
  proof -
    have "\<exists>ys. mapR (event_for_transition s) rs = Inr ys" if "set rs \<subseteq> set (st_transitions s)" for rs
      using that event_for_transition_total [OF assms(1)] by (induction rs) (auto, fastforce)
    then show thesis using that by blast
  qed
  have "list_all2 (\<lambda>r y. event_for_transition s r = Inr y) (st_transitions s) ys"
    using ys by (simp add: mapR_Inr_iff)
  then have all: "list_all2 (\<lambda>r y. \<forall>e. y = Some e \<longrightarrow> ev_sequence e = tx_sequence r) (st_transitions s) ys"
    using event_for_transition_Some by (auto elim!: list_all2_mono)
  have "sorted_wrt (<) (map tx_sequence (st_transitions s))"
    using assms(1) by (simp add: store_ok_def journal_ok_def)
  note sorted = sorted_map_filter [OF this all]
  let ?events = "filter (\<lambda>e. ev_workflow_run_id e = run_id) (List.map_filter (\<lambda>e. e) ys)"
  have "list_runtime_events run_id s = (Inr ?events, s)"
    using assms(2) ys by (simp add: list_runtime_events_def thenA_def bindA_def)
  moreover have "sorted_wrt (<) (map ev_sequence ?events)"
    using sorted by (auto simp: sorted_wrt_map intro: sorted_wrt_filter)
  ultimately show ?thesis using sorted by auto
qed

text \<open>
  What a journal record tells of: the run it belongs to, with the task run and the attempt as they are
  stored; and the event it announces.  A record of an entity that is no longer stored tells of
  nothing.  Announced are every change of a run or a task run, save into a status that no event stands
  for, and of attempts only that a further one was made.
\<close>

definition record_owner :: "store \<Rightarrow> transition_record \<Rightarrow> (workflow_run_id \<times> task_run option \<times> task_attempt option) option"
  where
  "record_owner s r = (case tx_entity_type r of
     WORKFLOW_RUN \<Rightarrow> map_option (\<lambda>w. (WorkflowRunId (tx_entity_id r), None, None))
       (dict_get (st_workflow_runs s) (WorkflowRunId (tx_entity_id r)))
   | TASK_RUN \<Rightarrow> map_option (\<lambda>t. (tr_workflow_run_id t, Some t, None)) (dict_get (st_task_runs s) (TaskRunId (tx_entity_id r)))
   | TASK_ATTEMPT \<Rightarrow> Option.bind (dict_get (st_task_attempts s) (TaskAttemptId (tx_entity_id r))) (\<lambda>a.
       map_option (\<lambda>t. (tr_workflow_run_id t, Some t, Some a)) (dict_get (st_task_runs s) (ta_task_run_id a))))"

definition resumption :: "store \<Rightarrow> string \<Rightarrow> bool" where
  "resumption s i \<longleftrightarrow> (\<exists>w. dict_get (st_workflow_runs s) (WorkflowRunId i) = Some w \<and> wr_resume_of_run_id w \<noteq> None)"

definition announces :: "store \<Rightarrow> transition_record \<Rightarrow> runtime_event_type \<Rightarrow> bool" where
  "announces s r ty \<longleftrightarrow> (case tx_entity_type r of
     WORKFLOW_RUN \<Rightarrow> tx_from_status r \<noteq> None \<and> (tx_to_status r, ty) \<in>
       {(''RUNNING'', if tx_from_status r = Some ''PENDING'' \<and> \<not> resumption s (tx_entity_id r) then WORKFLOW_STARTED
           else WORKFLOW_RESUMED),
        (''SUCCEEDED'', WORKFLOW_SUCCEEDED), (''FAILED'', WORKFLOW_FAILED),
        (''CANCELLATION_REQUESTED'', WORKFLOW_CANCELLATION_REQUESTED), (''CANCELLED'', WORKFLOW_CANCELLED),
        (''TIMED_OUT'', WORKFLOW_TIMED_OUT), (''UNKNOWN_OUTCOME'', WORKFLOW_UNKNOWN_OUTCOME)}
   | TASK_RUN \<Rightarrow> tx_from_status r \<noteq> None \<and> (tx_to_status r, ty) \<in>
       {(''RUNNING'', if tx_from_status r = Some ''READY'' then TASK_STARTED else TASK_RESUMED),
        (''READY'', TASK_READY), (''SUCCEEDED'', TASK_SUCCEEDED), (''FAILED'', TASK_FAILED), (''SKIPPED'', TASK_SKIPPED),
        (''CANCELLED'', TASK_CANCELLED), (''TIMED_OUT'', TASK_TIMED_OUT), (''BLOCKED'', TASK_BLOCKED),
        (''UNKNOWN_OUTCOME'', TASK_UNKNOWN_OUTCOME), (''REUSED'', TASK_RESUMED)}
   | TASK_ATTEMPT \<Rightarrow> tx_from_status r = None \<and> tx_to_status r = ''PENDING'' \<and> ty = TASK_RETRYING \<and>
       (\<exists>a. dict_get (st_task_attempts s) (TaskAttemptId (tx_entity_id r)) = Some a \<and> 1 < ta_attempt_number a))"

definition event_reports :: "store \<Rightarrow> workflow_run_id \<Rightarrow> transition_record \<Rightarrow> runtime_event \<Rightarrow> bool" where
  "event_reports s run_id r e \<longleftrightarrow> announces s r (ev_event_type e) \<and>
     (\<exists>t a. record_owner s r = Some (run_id, t, a) \<and> ev_workflow_run_id e = run_id \<and>
       ev_task_run_id e = map_option tr_task_run_id t \<and> ev_task_key e = map_option tr_task_key t \<and>
       ev_attempt_id e = map_option ta_attempt_id a \<and> ev_attempt_number e = map_option ta_attempt_number a) \<and>
     ev_sequence e = tx_sequence r \<and> ev_event_id e = wid_str run_id @ '':event-'' @ py_str_int (tx_sequence r) \<and>
     ev_occurred_at e = tx_occurred_at r \<and> ev_from_status e = tx_from_status r \<and> ev_to_status e = tx_to_status r"

definition reportable :: "store \<Rightarrow> workflow_run_id \<Rightarrow> transition_record \<Rightarrow> bool" where
  "reportable s run_id r \<longleftrightarrow> (\<exists>t a ty. record_owner s r = Some (run_id, t, a) \<and> announces s r ty)"

lemma subject_owner:
  assumes ok: "store_ok s" and "event_subject s r = Inr subject"
  shows "subject = map_option (\<lambda>(run_id, t, a). (run_id, map_option tr_task_run_id t, map_option ta_attempt_id a,
    map_option tr_task_key t, map_option ta_attempt_number a, tx_entity_type r = WORKFLOW_RUN \<and> resumption s (tx_entity_id r)))
    (record_owner s r)"
proof (cases "tx_entity_type r")
  case WORKFLOW_RUN
  then show ?thesis using assms(2)
    by (auto simp: event_subject_def bindR_Inr_iff parse_workflow_run_id_def thenR_Inr_iff record_owner_def resumption_def
      split: option.splits)
next
  case TASK_RUN
  then show ?thesis using assms(2) store_okD(6) [OF ok]
    by (auto simp: event_subject_def bindR_Inr_iff parse_task_run_id_def thenR_Inr_iff record_owner_def split: option.splits)
next
  case TASK_ATTEMPT
  then show ?thesis using assms(2) store_okD(7) [OF ok]
    by (auto simp: event_subject_def bindR_Inr_iff parse_task_attempt_id_def thenR_Inr_iff record_owner_def split: option.splits)
qed

lemma workflow_event_table: "workflow_event_by_status st = Some ty \<longleftrightarrow> (st, ty) \<in>
    {(''SUCCEEDED'', WORKFLOW_SUCCEEDED), (''FAILED'', WORKFLOW_FAILED),
     (''CANCELLATION_REQUESTED'', WORKFLOW_CANCELLATION_REQUESTED), (''CANCELLED'', WORKFLOW_CANCELLED),
     (''TIMED_OUT'', WORKFLOW_TIMED_OUT), (''UNKNOWN_OUTCOME'', WORKFLOW_UNKNOWN_OUTCOME)}"
proof -
  let ?table = "[(''SUCCEEDED'', WORKFLOW_SUCCEEDED), (''FAILED'', WORKFLOW_FAILED),
     (''CANCELLATION_REQUESTED'', WORKFLOW_CANCELLATION_REQUESTED), (''CANCELLED'', WORKFLOW_CANCELLED),
     (''TIMED_OUT'', WORKFLOW_TIMED_OUT), (''UNKNOWN_OUTCOME'', WORKFLOW_UNKNOWN_OUTCOME)]"
  have "distinct (map fst ?table)" by code_simp
  from map_of_eq_Some_iff [OF this, of st ty] show ?thesis
    unfolding workflow_event_by_status_def by (simp only: list.set)
qed

lemma task_event_table: "task_event_by_status st = Some ty \<longleftrightarrow> (st, ty) \<in>
    {(''READY'', TASK_READY), (''SUCCEEDED'', TASK_SUCCEEDED), (''FAILED'', TASK_FAILED), (''SKIPPED'', TASK_SKIPPED),
     (''CANCELLED'', TASK_CANCELLED), (''TIMED_OUT'', TASK_TIMED_OUT), (''BLOCKED'', TASK_BLOCKED),
     (''UNKNOWN_OUTCOME'', TASK_UNKNOWN_OUTCOME), (''REUSED'', TASK_RESUMED)}"
proof -
  let ?table = "[(''READY'', TASK_READY), (''SUCCEEDED'', TASK_SUCCEEDED), (''FAILED'', TASK_FAILED), (''SKIPPED'', TASK_SKIPPED),
     (''CANCELLED'', TASK_CANCELLED), (''TIMED_OUT'', TASK_TIMED_OUT), (''BLOCKED'', TASK_BLOCKED),
     (''UNKNOWN_OUTCOME'', TASK_UNKNOWN_OUTCOME), (''REUSED'', TASK_RESUMED)]"
  have "distinct (map fst ?table)" by code_simp
  from map_of_eq_Some_iff [OF this, of st ty] show ?thesis
    unfolding task_event_by_status_def by (simp only: list.set)
qed

lemma event_type_announced:
  assumes "record_owner s r = Some (run_id, t, a)"
    and x: "runtime_event_type_for_transition (entity_type_value (tx_entity_type r)) (tx_from_status r) (tx_to_status r)
      (map_option ta_attempt_number a) (tx_entity_type r = WORKFLOW_RUN \<and> resumption s (tx_entity_id r)) = Inr x"
  shows "announces s r ty \<longleftrightarrow> x = Some ty"
proof (cases "tx_entity_type r")
  case WORKFLOW_RUN
  then have "x = (if tx_from_status r = None then None
     else if tx_to_status r = ''RUNNING'' then
       (if tx_from_status r = Some ''PENDING'' \<and> \<not> resumption s (tx_entity_id r) then Some WORKFLOW_STARTED else Some WORKFLOW_RESUMED)
     else workflow_event_by_status (tx_to_status r))"
    using x by (simp add: runtime_event_type_for_transition_def)
  then show ?thesis
    using WORKFLOW_RUN by (cases "tx_to_status r = ''RUNNING''") (simp_all add: announces_def workflow_event_table eq_commute [of _ ty])
next
  case TASK_RUN
  then have "x = (if tx_from_status r = None then None
     else if tx_to_status r = ''RUNNING'' then (if tx_from_status r = Some ''READY'' then Some TASK_STARTED else Some TASK_RESUMED)
     else task_event_by_status (tx_to_status r))"
    using x by (simp add: runtime_event_type_for_transition_def)
  then show ?thesis
    using TASK_RUN by (cases "tx_to_status r = ''RUNNING''") (simp_all add: announces_def task_event_table eq_commute [of _ ty])
next
  case TASK_ATTEMPT
  then obtain a' where a: "a = Some a'" "dict_get (st_task_attempts s) (TaskAttemptId (tx_entity_id r)) = Some a'"
    using assms(1) by (auto simp: record_owner_def split: bind_splits)
  then have "x = (if tx_from_status r = None \<and> tx_to_status r = ''PENDING'' \<and> 1 < ta_attempt_number a' then Some TASK_RETRYING else None)"
    using x TASK_ATTEMPT by (simp add: runtime_event_type_for_transition_def)
  then show ?thesis using TASK_ATTEMPT a(2) by (auto simp: announces_def)
qed

lemma bind_Some_Inr: "bindR m (\<lambda>e. Inr (Some e)) = Inr x \<Longrightarrow> \<exists>e. x = Some e \<and> m = Inr e"
  by (auto simp: bindR_Inr_iff)

lemma event_projection:
  assumes ok: "store_ok s" and r: "r \<in> set (st_transitions s)"
  shows "\<exists>x. event_for_transition s r = Inr x \<and> (case x of
       None \<Rightarrow> \<forall>run_id. \<not> reportable s run_id r
     | Some e \<Rightarrow> event_reports s (ev_workflow_run_id e) r e \<and> (\<forall>run_id. reportable s run_id r \<longleftrightarrow> run_id = ev_workflow_run_id e))"
proof -
  obtain subject where subject: "event_subject s r = Inr subject" using event_subject_total [OF assms] by blast
  note owner = subject_owner [OF ok subject]
  obtain x where x: "event_for_transition s r = Inr x" using event_for_transition_total [OF assms] by blast
  show ?thesis
  proof (cases "record_owner s r")
    case None
    then have "x = None" using x subject owner by (simp add: event_for_transition_def)
    then show ?thesis using None x by (simp add: reportable_def)
  next
    case (Some p)
    obtain run_id t a where p: "p = (run_id, t, a)" by (cases p)
    let ?type = "runtime_event_type_for_transition (entity_type_value (tx_entity_type r)) (tx_from_status r) (tx_to_status r)
      (map_option ta_attempt_number a) (tx_entity_type r = WORKFLOW_RUN \<and> resumption s (tx_entity_id r))"
    obtain ty where ty: "?type = Inr ty" using event_type_total by blast
    note announced = event_type_announced [OF Some [unfolded p] ty]
    have reportable: "reportable s i r \<longleftrightarrow> i = run_id \<and> ty \<noteq> None" for i
      using Some p announced by (auto simp: reportable_def)
    show ?thesis
    proof (cases ty)
      case None
      then have "x = None" using x subject owner Some p ty by (simp add: event_for_transition_def)
      then show ?thesis using x None reportable by simp
    next
      case (Some e0)
      let ?event = "\<lparr>ev_sequence = tx_sequence r, ev_event_id = wid_str run_id @ '':event-'' @ py_str_int (tx_sequence r),
         ev_event_type = e0, ev_workflow_run_id = run_id, ev_occurred_at = tx_occurred_at r,
         ev_from_status = tx_from_status r, ev_to_status = tx_to_status r,
         ev_task_run_id = map_option tr_task_run_id t, ev_attempt_id = map_option ta_attempt_id a,
         ev_task_key = map_option tr_task_key t, ev_attempt_number = map_option ta_attempt_number a, ev_payload = JNull\<rparr>"
      let ?payload = "PyMap [(KStr ''entity_type'', PyStr (entity_type_value (tx_entity_type r))), (KStr ''entity_id'', PyStr (tx_entity_id r))]"
      have "event_for_transition s r = bindR (mk_runtime_event ?event ?payload) (\<lambda>e. Inr (Some e))"
        unfolding event_for_transition_def subject owner \<open>record_owner s r = Some p\<close> p
        by (simp only: option.map option.case prod.case bindR_simps ty Some)
      from bind_Some_Inr [OF this [symmetric, THEN trans, OF x]]
      obtain e where e: "x = Some e \<and> mk_runtime_event ?event ?payload = Inr e" ..
      from mk_runtime_event_Inr [OF conjunct2 [OF e]] obtain j where j: "e = ?event\<lparr>ev_payload := j\<rparr>" ..
      have announced: "announces s r e0" using announced Some by simp
      have "event_reports s run_id r e"
        unfolding event_reports_def j by (simp add: announced \<open>record_owner s r = Some p\<close> p)
      moreover have "ev_workflow_run_id e = run_id" unfolding j by simp
      ultimately show ?thesis using x conjunct1 [OF e] reportable Some by simp
    qed
  qed
qed

lemma events_projected:
  assumes ok: "store_ok s" and "set rs \<subseteq> set (st_transitions s)" and "mapR (event_for_transition s) rs = Inr ys"
  shows "list_all2 (event_reports s run_id) (filter (reportable s run_id) rs)
    (filter (\<lambda>e. ev_workflow_run_id e = run_id) (List.map_filter (\<lambda>e. e) ys))"
  using assms(2,3)
proof (induction rs arbitrary: ys)
  case (Cons r rs)
  obtain y ys' where ys: "ys = y # ys'" "event_for_transition s r = Inr y" "mapR (event_for_transition s) rs = Inr ys'"
    using Cons.prems(2) by (auto simp: bindR_Inr_iff)
  note rest = Cons.IH [OF _ ys(3)]
  have "case y of None \<Rightarrow> \<forall>run_id. \<not> reportable s run_id r
     | Some e \<Rightarrow> event_reports s (ev_workflow_run_id e) r e \<and> (\<forall>run_id. reportable s run_id r \<longleftrightarrow> run_id = ev_workflow_run_id e)"
    using event_projection [OF ok, of r] Cons.prems(1) ys(2) by auto
  then show ?case using rest Cons.prems(1) ys(1) by (cases y) (auto simp: map_filter_simps)
qed (simp add: map_filter_simps)

text \<open>C30: The events of a stored run are exactly what the journal announces of it.  On a consistent store
  \<open>list_runtime_events\<close> never fails, changes nothing and returns, in strictly increasing sequence
  order, one event for each journal record of the run, of its task runs or of their attempts that
  stands for an event, and no other: every change of status of a run or task run (save a task run
  put back to PENDING), and every attempt after the first.  The event carries the type that the
  statuses call for (started or resumed, say), the sequence number, time and statuses of its record
  and the identifiers of the entities concerned.\<close>
theorem runtime_events_readable:
  assumes "store_ok s" "dict_has (st_workflow_runs s) run_id"
  shows "\<exists>events. list_runtime_events run_id s = (Inr events, s) \<and>
    list_all2 (event_reports s run_id) (filter (reportable s run_id) (st_transitions s)) events \<and>
    sorted_wrt (<) (map ev_sequence events)"
proof -
  obtain events where events: "list_runtime_events run_id s = (Inr events, s)" "sorted_wrt (<) (map ev_sequence events)"
    using events_listed [OF assms] by blast
  then obtain ys where "mapR (event_for_transition s) (st_transitions s) = Inr ys"
    "events = filter (\<lambda>e. ev_workflow_run_id e = run_id) (List.map_filter (\<lambda>e. e) ys)"
    using assms(2) by (cases "mapR (event_for_transition s) (st_transitions s)")
      (auto simp: list_runtime_events_def thenA_def bindA_def)
  then show ?thesis using events events_projected [OF assms(1) subset_refl] by auto
qed

section \<open>A write without evidence\<close>

text \<open>An update whose timestamp is naive is half applied.  \<open>update_workflow_run\<close> stores the
  run before the transition record is validated, so when \<open>transitioned_at\<close> lacks a time zone the
  call raises \<open>ValueError\<close> and yet the new status stays in the store, with no record in the
  journal: the store is no longer consistent.\<close>
theorem naive_timestamp_loses_evidence:
  assumes "store_ok s" "dict_get (st_workflow_runs s) (wr_run_id w) = Some c"
    and "valid_workflow_run w" "same_workflow c w" "wr_status w \<noteq> wr_status c" "\<not> dt_aware ts"
  shows "\<exists>s'. update_workflow_run w (wr_status c) (Some ts) s =
      (Inl (ValueError ''occurred_at must be timezone-aware''), s') \<and>
    dict_get (st_workflow_runs s') (wr_run_id w) = Some w \<and>
    st_transitions s' = st_transitions s \<and> \<not> store_ok s'"
proof -
  have nb: "\<not> blank (wid_str (wr_run_id w))" using store_okD(5) [OF assms(1,2)] by simp
  have n: "1 \<le> st_next_sequence s" using store_okD(1) [OF assms(1)] .
  have "update_workflow_run w (wr_status c) (Some ts) s =
      (Inl (ValueError ''occurred_at must be timezone-aware''), put_workflow w s)"
    using assms(2-6) nb n
    by (auto simp: update_workflow_run_def workflow_in_store_def bindA_def thenA_def require_status_def
        require_def same_workflow_def require_workflow_identity_def require_transition_timestamp_def
        append_transition_def transition_record_post_init_def put_workflow_def Let_def required_text_def
        optional_text_def split: if_splits)
  moreover have "\<not> journal_ok (put_workflow w s)"
  proof
    assume "journal_ok (put_workflow w s)"
    then have "replay None (history (put_workflow w s) WORKFLOW_RUN (wid_str (wr_run_id w))) =
        Some (Some (workflow_status_value (wr_status w)))"
      by (simp add: journal_ok_def stored_status_put_workflow)
    moreover have "replay None (history s WORKFLOW_RUN (wid_str (wr_run_id w))) =
        Some (Some (workflow_status_value (wr_status c)))"
      using assms(1,2) by (simp add: store_ok_def journal_ok_def)
    ultimately show False using assms(5) by (simp add: history_def put_workflow_def)
  qed
  ultimately show ?thesis
    by (auto simp: store_ok_def put_workflow_def dict_get_set)
qed

text \<open>Well-formedness is preserved: a state-machine step takes a valid workflow run, task run or
  attempt to a valid one (timestamps aware, an end time exactly in terminal statuses, reasons exactly
  where they belong), so the copy that the store makes of it never refuses it.\<close>
theorem transitions_keep_entities_valid:
  "(workflow_run_post_init run = Inr () \<and> workflow_transition run ws ts f = Inr run' \<longrightarrow>
      clone_workflow_run run' = Inr run') \<and>
   (task_run_post_init t = Inr () \<and> task_transition t tst ts skip block f = Inr t' \<longrightarrow>
      clone_task_run t' = Inr t') \<and>
   (task_attempt_post_init a = Inr () \<and> attempt_transition a ast ts f = Inr a' \<longrightarrow>
      clone_task_attempt a' = Inr a')"
  using workflow_transition_valid [of run ws ts f run'] task_transition_valid [of t tst ts skip block f t']
    attempt_transition_valid [of a ast ts f a']
  by simp

section \<open>Concrete instances\<close>

definition sample_correlation :: correlation_context where
  "sample_correlation = bare_correlation (CorrelationId ''corr'')"

definition sample_run :: workflow_run where
  "sample_run = \<lparr>wr_run_id = WorkflowRunId ''run'', wr_workflow_name = ''flow'', wr_workflow_version = ''1'',
     wr_definition_fingerprint = ''d'', wr_plan_fingerprint = ''p'', wr_correlation = sample_correlation,
     wr_created_at = Datetime 0 True, wr_status = W_PENDING, wr_started_at = None, wr_ended_at = None,
     wr_failure = None, wr_resume_of_run_id = None\<rparr>"

definition sample_task_run :: task_run where
  "sample_task_run = \<lparr>tr_task_run_id = TaskRunId ''task'', tr_workflow_run_id = WorkflowRunId ''run'',
     tr_task_key = ''load'', tr_created_at = Datetime 0 True, tr_status = T_PENDING, tr_started_at = None,
     tr_ended_at = None, tr_skip_reason = None, tr_block_reason = None, tr_failure = None\<rparr>"

definition store_with_run :: store where
  "store_with_run = snd (create_workflow_run sample_run empty_store)"

definition store_with_task :: store where
  "store_with_task = snd (create_task_run sample_task_run store_with_run)"

lemma store_with_run_ok: "store_ok store_with_run"
proof -
  have "\<not> blank (wid_str (wr_run_id sample_run))"
    by (simp add: sample_run_def blank_def py_isspace_def)
  then show ?thesis
    unfolding store_with_run_def
    by (rule create_workflow_run_ok [OF empty_store_ok _ surjective_pairing])
qed

lemma store_with_task_ok: "store_ok store_with_task"
proof -
  have "\<not> blank (tid_str (tr_task_run_id sample_task_run))"
    by (simp add: sample_task_run_def blank_def py_isspace_def)
  then show ?thesis
    unfolding store_with_task_def
    by (rule create_task_run_ok [OF store_with_run_ok _ surjective_pairing])
qed

definition running_run :: workflow_run where
  "running_run = sample_run\<lparr>wr_status := W_RUNNING, wr_started_at := Some (Datetime 1 True)\<rparr>"

lemma running_run_facts:
  "dict_get (st_workflow_runs store_with_run) (wr_run_id running_run) = Some sample_run"
  "workflow_run_post_init running_run = Inr ()" "require_workflow_identity sample_run running_run = Inr ()"
  "wr_status running_run \<noteq> wr_status sample_run" "wr_status sample_run = W_PENDING"
  "dict_has (st_workflow_runs store_with_run) (WorkflowRunId ''run'')"
  by code_simp+

theorem update_workflow_run_exact_witness:
  "\<exists>s'. update_workflow_run running_run W_PENDING (Some (Datetime 1 True)) store_with_run = (Inr (), s') \<and>
    st_transitions s' = st_transitions store_with_run @
      [\<lparr>tx_sequence = 2, tx_entity_type = WORKFLOW_RUN, tx_entity_id = ''run'',
        tx_from_status = Some ''PENDING'', tx_to_status = ''RUNNING'', tx_occurred_at = Datetime 1 True\<rparr>]"
proof -
  have "fst (update_workflow_run running_run W_PENDING (Some (Datetime 1 True)) store_with_run) = Inr ()"
    "st_next_sequence store_with_run = 2"
    by code_simp+
  then obtain s' where s': "update_workflow_run running_run W_PENDING (Some (Datetime 1 True)) store_with_run = (Inr (), s')"
    by (metis prod.collapse)
  from update_workflow_run_exact [OF store_with_run_ok _ this] s' \<open>st_next_sequence store_with_run = 2\<close>
  show ?thesis by (auto simp: running_run_def sample_run_def)
qed

theorem naive_timestamp_loses_evidence_witness:
  "\<exists>s'. update_workflow_run running_run W_PENDING (Some (Datetime 1 False)) store_with_run =
      (Inl (ValueError ''occurred_at must be timezone-aware''), s') \<and> \<not> store_ok s'"
  using naive_timestamp_loses_evidence [OF store_with_run_ok running_run_facts(1) _ _ running_run_facts(4),
      of "Datetime 1 False"] running_run_facts(2,3,5)
  by (auto simp: same_workflow_def)

definition store_running :: store where
  "store_running = snd (update_workflow_run running_run W_PENDING (Some (Datetime 1 True)) store_with_run)"

theorem runtime_events_readable_witness:
  "\<exists>e. list_runtime_events (WorkflowRunId ''run'') store_running = (Inr [e], store_running) \<and>
     ev_event_type e = WORKFLOW_STARTED \<and> ev_sequence e = 2"
proof -
  have facts: "dict_has (st_workflow_runs store_running) (WorkflowRunId ''run'')"
    "st_transitions store_running = [
       \<lparr>tx_sequence = 1, tx_entity_type = WORKFLOW_RUN, tx_entity_id = ''run'', tx_from_status = None,
        tx_to_status = ''PENDING'', tx_occurred_at = Datetime 0 True\<rparr>,
       \<lparr>tx_sequence = 2, tx_entity_type = WORKFLOW_RUN, tx_entity_id = ''run'', tx_from_status = Some ''PENDING'',
        tx_to_status = ''RUNNING'', tx_occurred_at = Datetime 1 True\<rparr>]"
    "dict_get (st_workflow_runs store_running) (WorkflowRunId ''run'') = Some running_run"
    "wr_resume_of_run_id running_run = None"
    by code_simp+
  have "store_ok store_running"
    unfolding store_running_def by (rule update_workflow_run_ok [OF store_with_run_ok _ surjective_pairing]) simp
  from runtime_events_readable [OF this facts(1)] facts(2-4) show ?thesis
    by (auto simp: reportable_def event_reports_def announces_def record_owner_def resumption_def list_all2_Cons1)
qed

definition ready_task_run :: task_run where
  "ready_task_run = sample_task_run\<lparr>tr_status := T_READY\<rparr>"

definition cancelled_task_run :: task_run where
  "cancelled_task_run = sample_task_run\<lparr>tr_status := T_CANCELLED, tr_ended_at := Some (Datetime 1 True)\<rparr>"

theorem no_lost_task_update_witness:
  "\<exists>s1. update_task_run ready_task_run T_PENDING (Some (Datetime 1 True)) store_with_task = (Inr (), s1) \<and>
    update_task_run cancelled_task_run T_PENDING (Some (Datetime 1 True)) s1 =
      (Inl (MetadataConflict ''TaskRun'' ''task'' ''PENDING'' ''READY''), s1)"
proof -
  have first: "fst (update_task_run ready_task_run T_PENDING (Some (Datetime 1 True)) store_with_task) = Inr ()"
    and facts: "tr_status ready_task_run \<noteq> T_PENDING"
      "tr_task_run_id cancelled_task_run = tr_task_run_id ready_task_run"
      "task_run_post_init cancelled_task_run = Inr ()" "tid_str (tr_task_run_id cancelled_task_run) = ''task''"
      "task_status_value (tr_status ready_task_run) = ''READY''" "task_status_value T_PENDING = ''PENDING''"
    by code_simp+
  then obtain s1 where s1: "update_task_run ready_task_run T_PENDING (Some (Datetime 1 True)) store_with_task = (Inr (), s1)"
    by (metis prod.collapse)
  from no_lost_task_update [OF store_with_task_ok _ s1 facts(1-3), of "Some (Datetime 1 True)"] s1 facts(4-6)
  show ?thesis by auto
qed


theorem transitions_keep_entities_valid_witness:
  "clone_workflow_run running_run = Inr running_run \<and> clone_task_run ready_task_run = Inr ready_task_run"
proof -
  have "workflow_run_post_init sample_run = Inr ()"
    "workflow_transition sample_run W_RUNNING (Datetime 1 True) None = Inr running_run"
    "task_run_post_init sample_task_run = Inr ()"
    "task_transition sample_task_run T_READY (Datetime 1 True) None None None = Inr ready_task_run"
    by code_simp+
  then show ?thesis
    using transitions_keep_entities_valid [of sample_run W_RUNNING "Datetime 1 True" None running_run
        sample_task_run T_READY None None ready_task_run] by blast
qed

end
