(* ===== verification/Retention.thy ===== *)
theory Retention
  imports Store
begin

text \<open>
  Retention (\<open>persistence/retention.py\<close> and \<open>InMemoryMetadataStore.prune_runs\<close>): the policy
  with its validation, the selection of the runs to delete and the deletion of everything that
  belongs to them.  The selection is shown to be exactly the terminal runs the policy names
  that are too old or have too many newer runs beside them, and pruning to keep the store
  consistent.

  Timestamps are unbounded instants: the \<open>OverflowError\<close> of a cutoff before year 1 is not modelled.
\<close>

section \<open>Policies and reports\<close>

record retention_policy =
  rt_retention_days :: "int option"
  rt_max_runs_per_workflow :: "int option"
  rt_prune_states :: "workflow_run_status list"
  rt_retain_failed_runs_days :: "int option"
  rt_workflow_names :: "string list option"

definition DEFAULT_PRUNE_STATES :: "workflow_run_status list" where
  "DEFAULT_PRUNE_STATES = [W_SUCCEEDED, W_CANCELLED]"

definition default_retention_policy :: retention_policy where
  "default_retention_policy = \<lparr>rt_retention_days = Some 30, rt_max_runs_per_workflow = Some 100,
     rt_prune_states = DEFAULT_PRUNE_STATES, rt_retain_failed_runs_days = Some 90,
     rt_workflow_names = None\<rparr>"

definition at_least_one :: "string \<Rightarrow> int option \<Rightarrow> unit result" where
  "at_least_one name v = require (case v of None \<Rightarrow> True | Some n \<Rightarrow> 1 \<le> n)
     (ValueError (name @ '' must be greater than or equal to 1''))"

definition validate_prune_states :: "workflow_run_status list \<Rightarrow> unit result" where
  "validate_prune_states states =
     thenR (require (states \<noteq> []) (ValueError ''prune_states must not be empty''))
       (forR states (\<lambda>state. require (state \<in> WORKFLOW_TERMINAL_STATUSES)
          (ValueError (''Only terminal workflow statuses can be pruned; '' @
             workflow_status_value state @ '' is non-terminal''))))"

definition mk_retention_policy :: "retention_policy \<Rightarrow> retention_policy result" where
  "mk_retention_policy p =
     thenR (at_least_one ''retention_days'' (rt_retention_days p))
    (thenR (at_least_one ''max_runs_per_workflow'' (rt_max_runs_per_workflow p))
    (thenR (validate_prune_states (rt_prune_states p))
    (thenR (at_least_one ''retain_failed_runs_days'' (rt_retain_failed_runs_days p))
    (Inr p))))"

record deleted_records =
  dr_workflow_runs :: nat
  dr_task_runs :: nat
  dr_task_attempts :: nat
  dr_events :: nat
  dr_checkpoints :: nat
  dr_external_refs :: nat
  dr_manifests :: nat

record prune_report =
  pr_dry_run :: bool
  pr_scanned_workflows :: nat
  pr_eligible_runs :: nat
  pr_deleted :: deleted_records

section \<open>Selection\<close>

definition name_selected :: "retention_policy \<Rightarrow> workflow_run \<Rightarrow> bool" where
  "name_selected p run \<longleftrightarrow> (case rt_workflow_names p of None \<Rightarrow> True
     | Some names \<Rightarrow> names = [] \<or> wr_workflow_name run \<in> set names)"

text \<open>\<open>runs_by_workflow.setdefault(name, []).append(run)\<close>\<close>

definition add_to_group ::
  "workflow_run \<Rightarrow> (string, workflow_run list) dict \<Rightarrow> (string, workflow_run list) dict" where
  "add_to_group run groups = dict_set (wr_workflow_name run)
     ((case dict_get groups (wr_workflow_name run) of None \<Rightarrow> [] | Some rs \<Rightarrow> rs) @ [run]) groups"

definition runs_by_workflow :: "retention_policy \<Rightarrow> store \<Rightarrow> (string, workflow_run list) dict" where
  "runs_by_workflow p s = fold add_to_group (filter (name_selected p) (dict_values (st_workflow_runs s))) []"

text \<open>The sort key of \<open>sorted(runs, key=..., reverse=True)\<close>, newest first.\<close>

definition run_key :: "workflow_run \<Rightarrow> int \<times> string" where
  "run_key r = (dt_us (wr_created_at r), wid_str (wr_run_id r))"

definition newest_first :: "workflow_run list \<Rightarrow> workflow_run list" where
  "newest_first runs = rev (sort_key run_key (rev runs))"

definition age_eligible :: "retention_policy \<Rightarrow> datetime \<Rightarrow> workflow_run \<Rightarrow> bool" where
  "age_eligible p now run \<longleftrightarrow>
     (case (if wr_status run = W_FAILED \<and> rt_retain_failed_runs_days p \<noteq> None
            then rt_retain_failed_runs_days p else rt_retention_days p) of
        None \<Rightarrow> False
      | Some days \<Rightarrow> dt_us (wr_created_at run) < dt_us now - days * us_per_day)"

definition run_eligible :: "retention_policy \<Rightarrow> datetime \<Rightarrow> nat \<Rightarrow> workflow_run \<Rightarrow> bool" where
  \<comment> \<open>\<open>rank\<close> counts from 1.\<close>
  "run_eligible p now rank run \<longleftrightarrow>
     wr_status run \<in> WORKFLOW_TERMINAL_STATUSES \<and> wr_status run \<in> set (rt_prune_states p) \<and>
     (age_eligible p now run \<or>
      (case rt_max_runs_per_workflow p of None \<Rightarrow> False | Some m \<Rightarrow> m < int rank))"

definition eligible_in_group ::
  "retention_policy \<Rightarrow> datetime \<Rightarrow> workflow_run list \<Rightarrow> workflow_run_id list" where
  "eligible_in_group p now runs =
     map (\<lambda>(rank, run). wr_run_id run)
       (filter (\<lambda>(rank, run). run_eligible p now rank run) (List.enumerate 1 (newest_first runs)))"

definition eligible_run_ids :: "retention_policy \<Rightarrow> datetime \<Rightarrow> store \<Rightarrow> workflow_run_id list" where
  "eligible_run_ids p now s =
     concat (map (\<lambda>(name, runs). eligible_in_group p now runs) (runs_by_workflow p s))"

section \<open>Deletion\<close>

definition target_task_run_ids :: "workflow_run_id list \<Rightarrow> store \<Rightarrow> task_run_id list" where
  "target_task_run_ids ids s = map tr_task_run_id
     (filter (\<lambda>t. tr_workflow_run_id t \<in> set ids) (dict_values (st_task_runs s)))"

definition target_attempt_ids :: "task_run_id list \<Rightarrow> store \<Rightarrow> task_attempt_id list" where
  "target_attempt_ids tids s = map ta_attempt_id
     (filter (\<lambda>a. ta_task_run_id a \<in> set tids) (dict_values (st_task_attempts s)))"

definition target_transition ::
  "workflow_run_id list \<Rightarrow> task_run_id list \<Rightarrow> task_attempt_id list \<Rightarrow> transition_record \<Rightarrow> bool" where
  "target_transition ids tids aids r \<longleftrightarrow>
     (tx_entity_type r = WORKFLOW_RUN \<and> tx_entity_id r \<in> wid_str ` set ids) \<or>
     (tx_entity_type r = TASK_RUN \<and> tx_entity_id r \<in> tid_str ` set tids) \<or>
     (tx_entity_type r = TASK_ATTEMPT \<and> tx_entity_id r \<in> aid_str ` set aids)"

definition delete_runs :: "workflow_run_id list \<Rightarrow> store \<Rightarrow> store" where
  "delete_runs ids s =
     (let tids = target_task_run_ids ids s;
          aids = target_attempt_ids tids s;
          refs = filter (\<lambda>k. fst k \<in> set aids) (map fst (st_external_refs s));
          cps = filter (\<lambda>k. k \<in> set tids) (map fst (st_checkpoints s));
          mans = filter (\<lambda>k. k \<in> set ids) (map fst (st_manifests s));
          doomed = map tx_sequence (filter (target_transition ids tids aids) (st_transitions s))
      in s\<lparr>st_checkpoints := fold dict_pop cps (st_checkpoints s),
           st_external_refs := fold dict_pop refs (st_external_refs s),
           st_transitions := filter (\<lambda>r. tx_sequence r \<notin> set doomed) (st_transitions s),
           st_task_attempts := fold dict_pop aids (st_task_attempts s),
           st_task_runs := fold dict_pop tids (st_task_runs s),
           st_manifests := fold dict_pop mans (st_manifests s),
           st_workflow_runs := fold dict_pop ids (st_workflow_runs s)\<rparr>)"

definition prune_summary :: "workflow_run_id list \<Rightarrow> store \<Rightarrow> deleted_records" where
  "prune_summary ids s =
     (let tids = target_task_run_ids ids s; aids = target_attempt_ids tids s in
      \<lparr>dr_workflow_runs = length ids, dr_task_runs = length tids, dr_task_attempts = length aids,
       dr_events = length (filter (target_transition ids tids aids) (st_transitions s)),
       dr_checkpoints = length (filter (\<lambda>k. k \<in> set tids) (map fst (st_checkpoints s))),
       dr_external_refs = length (filter (\<lambda>k. fst k \<in> set aids) (map fst (st_external_refs s))),
       dr_manifests = length (filter (\<lambda>k. k \<in> set ids) (map fst (st_manifests s)))\<rparr>)"

definition prune_runs ::
  "retention_policy \<Rightarrow> bool \<Rightarrow> int \<Rightarrow> datetime \<Rightarrow> (store, prune_report) act" where
  "prune_runs p dry_run batch_size now =
     thenA (requireA (1 \<le> batch_size) (ValueError ''batch_size must be >= 1''))
    (bindA (gets (\<lambda>s. (eligible_run_ids p now s, length (runs_by_workflow p s)))) (\<lambda>(ids, scanned).
     bindA (gets (prune_summary ids)) (\<lambda>summary.
     thenA (if dry_run then ret () else modifyA (delete_runs ids))
       (ret \<lparr>pr_dry_run = dry_run, pr_scanned_workflows = scanned, pr_eligible_runs = length ids,
             pr_deleted = summary\<rparr>))))"

section \<open>The selection, declaratively\<close>

lemma dict_ok_group: "dict_ok groups \<Longrightarrow> dict_ok (add_to_group run groups)"
  by (simp add: add_to_group_def)

lemma groups_fold:
  "dict_ok groups \<Longrightarrow>
   dict_ok (fold add_to_group runs groups) \<and>
   (\<forall>name. (case dict_get (fold add_to_group runs groups) name of None \<Rightarrow> [] | Some rs \<Rightarrow> rs) =
      (case dict_get groups name of None \<Rightarrow> [] | Some rs \<Rightarrow> rs) @ filter (\<lambda>r. wr_workflow_name r = name) runs) \<and>
   fst ` set (fold add_to_group runs groups) = fst ` set groups \<union> wr_workflow_name ` set runs"
proof (induction runs arbitrary: groups)
  case (Cons r runs)
  have "dict_ok (add_to_group r groups)" using Cons.prems by (rule dict_ok_group)
  from Cons.IH [OF this] show ?case
    by (auto simp: add_to_group_def dict_get_set dict_set_keys)
qed simp

lemma runs_by_workflow_group:
  assumes "(name, runs) \<in> set (runs_by_workflow p s)"
  shows "runs = filter (\<lambda>r. name_selected p r \<and> wr_workflow_name r = name) (dict_values (st_workflow_runs s))"
proof -
  let ?g = "runs_by_workflow p s"
  have g: "dict_ok ?g" "(case dict_get ?g name of None \<Rightarrow> [] | Some rs \<Rightarrow> rs) =
      filter (\<lambda>r. wr_workflow_name r = name) (filter (name_selected p) (dict_values (st_workflow_runs s)))"
    using groups_fold [of "[]" "filter (name_selected p) (dict_values (st_workflow_runs s))"]
    by (simp_all add: runs_by_workflow_def)
  then have "dict_get ?g name = Some runs" using assms by (simp add: dict_get_iff)
  with g(2) show ?thesis by (auto intro: filter_cong)
qed

lemma runs_by_workflow_names:
  "fst ` set (runs_by_workflow p s) =
     wr_workflow_name ` {r \<in> set (dict_values (st_workflow_runs s)). name_selected p r}"
  using groups_fold [of "[]" "filter (name_selected p) (dict_values (st_workflow_runs s))"]
  by (simp add: runs_by_workflow_def)

lemma enumerate_from_one: "List.enumerate (Suc 0) xs = map (\<lambda>k. (Suc k, xs ! k)) [0..<length xs]"
  by (rule nth_equalityI) (simp_all add: nth_enumerate_eq)

lemma eligible_in_group_alt:
  "eligible_in_group p now runs = map (\<lambda>k. wr_run_id (newest_first runs ! k))
     (filter (\<lambda>k. run_eligible p now (Suc k) (newest_first runs ! k)) [0..<length (newest_first runs)])"
  by (simp add: eligible_in_group_def enumerate_from_one filter_map comp_def)

text \<open>In a list sorted by a key without ties, the elements before one are those above it.\<close>

lemma newest_first_rank:
  assumes "distinct runs" "inj_on run_key (set runs)" "i < length (newest_first runs)"
  shows "i = card {r \<in> set runs. run_key (newest_first runs ! i) < run_key r}"
proof -
  let ?xs = "newest_first runs"
  have set_xs: "set ?xs = set runs" and dist: "distinct ?xs" and len: "length ?xs = length runs"
    using assms(1) by (simp_all add: newest_first_def)
  have sorted: "run_key (?xs ! k) \<le> run_key (?xs ! j)" if "j < k" "k < length ?xs" for j k
  proof -
    have "sorted (rev (map run_key ?xs))" by (simp add: newest_first_def rev_map)
    from sorted_rev_nth_mono [OF this, of j k] that show ?thesis by simp
  qed
  have strict: "run_key (?xs ! k) < run_key (?xs ! j)" if "j < k" "k < length ?xs" for j k
  proof -
    have "?xs ! k \<noteq> ?xs ! j" using dist that by (simp add: nth_eq_iff_index_eq)
    moreover have "?xs ! k \<in> set runs" "?xs ! j \<in> set runs"
      using set_xs that by (metis less_trans nth_mem)+
    ultimately have "run_key (?xs ! k) \<noteq> run_key (?xs ! j)"
      using assms(2) by (auto dest: inj_onD)
    then show ?thesis using sorted [OF that] by simp
  qed
  have "{r \<in> set runs. run_key (?xs ! i) < run_key r} = (\<lambda>j. ?xs ! j) ` {..<i}"
  proof (intro equalityI subsetI)
    fix r assume "r \<in> {r \<in> set runs. run_key (?xs ! i) < run_key r}"
    then obtain j where j: "j < length ?xs" "?xs ! j = r" "run_key (?xs ! i) < run_key r"
      using set_xs by (metis (lifting) in_set_conv_nth mem_Collect_eq)
    then have "j < i" using strict [of i j] by (metis less_asym less_irrefl linorder_neqE_nat)
    then show "r \<in> (\<lambda>j. ?xs ! j) ` {..<i}" using j(2) by auto
  next
    fix r assume "r \<in> (\<lambda>j. ?xs ! j) ` {..<i}"
    then obtain j where "j < i" "r = ?xs ! j" by auto
    then show "r \<in> {r \<in> set runs. run_key (?xs ! i) < run_key r}"
      using strict [of j i] assms(3) set_xs by (metis (lifting) less_trans mem_Collect_eq nth_mem)
  qed
  moreover have "inj_on (\<lambda>j. ?xs ! j) {..<i}"
    using dist assms(3) by (auto simp: inj_on_def nth_eq_iff_index_eq)
  ultimately show ?thesis by (simp add: card_image)
qed

definition newer_runs :: "store \<Rightarrow> workflow_run \<Rightarrow> workflow_run set" where
  "newer_runs s run = {r \<in> set (dict_values (st_workflow_runs s)).
     wr_workflow_name r = wr_workflow_name run \<and> run_key run < run_key r}"

definition prunable :: "retention_policy \<Rightarrow> datetime \<Rightarrow> store \<Rightarrow> workflow_run \<Rightarrow> bool" where
  "prunable p now s run \<longleftrightarrow> name_selected p run \<and>
     wr_status run \<in> WORKFLOW_TERMINAL_STATUSES \<and> wr_status run \<in> set (rt_prune_states p) \<and>
     (age_eligible p now run \<or>
      (\<exists>m. rt_max_runs_per_workflow p = Some m \<and> m \<le> int (card (newer_runs s run))))"

lemma run_values_distinct:
  assumes "store_ok s"
  shows "distinct (dict_values (st_workflow_runs s))"
    and "inj_on run_key (set (dict_values (st_workflow_runs s)))"
proof -
  have id: "wr_run_id w = i" if "(i, w) \<in> set (st_workflow_runs s)" for i w
    using that store_okD(2,5) [OF assms] by (auto simp: dict_get_iff)
  have "map wr_run_id (dict_values (st_workflow_runs s)) = map fst (st_workflow_runs s)"
    unfolding dict_values_def using id by auto
  then have d: "distinct (map wr_run_id (dict_values (st_workflow_runs s)))"
    using store_okD(2) [OF assms] by (simp add: dict_ok_def)
  then show "distinct (dict_values (st_workflow_runs s))" by (simp add: distinct_map)
  have "inj_on wr_run_id (set (dict_values (st_workflow_runs s)))" using d by (simp add: distinct_map)
  then show "inj_on run_key (set (dict_values (st_workflow_runs s)))"
    by (auto simp: inj_on_def run_key_def workflow_run_id.expand)
qed

lemma eligible_iff:
  assumes ok: "store_ok s"
  shows "i \<in> set (eligible_run_ids p now s) \<longleftrightarrow>
    (\<exists>w. dict_get (st_workflow_runs s) i = Some w \<and> prunable p now s w)"
proof -
  let ?vals = "dict_values (st_workflow_runs s)"
  let ?grp = "\<lambda>name. filter (\<lambda>r. name_selected p r \<and> wr_workflow_name r = name) ?vals"
  note d = run_values_distinct [OF ok]
  have rank: "Suc k = Suc (card (newer_runs s w))"
    if k: "k < length (newest_first (?grp name))" "newest_first (?grp name) ! k = w" for name k w
  proof -
    have "w \<in> set (?grp name)" using k by (metis newest_first_def nth_mem set_rev set_sort)
    then have "{r \<in> set (?grp name). run_key w < run_key r} = newer_runs s w"
      by (auto simp: newer_runs_def name_selected_def split: option.splits)
    moreover have "inj_on run_key (set (?grp name))" using d(2) by (auto simp: inj_on_def)
    ultimately show ?thesis using newest_first_rank [OF _ _ k(1)] d(1) k(2) by simp
  qed
  have group: "i \<in> set (eligible_in_group p now (?grp name)) \<longleftrightarrow>
      (\<exists>w \<in> set (?grp name). wr_run_id w = i \<and> prunable p now s w)" for name
  proof -
    have "i \<in> set (eligible_in_group p now (?grp name)) \<longleftrightarrow>
        (\<exists>k w. k < length (newest_first (?grp name)) \<and> newest_first (?grp name) ! k = w \<and>
          run_eligible p now (Suc k) w \<and> wr_run_id w = i)"
      by (auto simp: eligible_in_group_alt)
    also have "\<dots> \<longleftrightarrow> (\<exists>k w. k < length (newest_first (?grp name)) \<and> newest_first (?grp name) ! k = w \<and>
          run_eligible p now (Suc (card (newer_runs s w))) w \<and> wr_run_id w = i)"
    proof -
      have "run_eligible p now (Suc k) w = run_eligible p now (Suc (card (newer_runs s w))) w"
        if "k < length (newest_first (?grp name))" "newest_first (?grp name) ! k = w" for k w
        using rank [OF that] by (rule arg_cong)
      then show ?thesis by blast
    qed
    also have "\<dots> \<longleftrightarrow> (\<exists>w \<in> set (newest_first (?grp name)).
          run_eligible p now (Suc (card (newer_runs s w))) w \<and> wr_run_id w = i)"
      unfolding in_set_conv_nth Bex_def by blast
    also have "set (newest_first (?grp name)) = set (?grp name)" by (simp add: newest_first_def)
    finally have members: "i \<in> set (eligible_in_group p now (?grp name)) \<longleftrightarrow>
        (\<exists>w \<in> set (?grp name). run_eligible p now (Suc (card (newer_runs s w))) w \<and> wr_run_id w = i)" .
    have "run_eligible p now (Suc (card (newer_runs s w))) w \<longleftrightarrow> prunable p now s w"
      if "w \<in> set (?grp name)" for w
    proof -
      have "name_selected p w" using that by simp
      then show ?thesis
        by (cases "rt_max_runs_per_workflow p") (auto simp: run_eligible_def prunable_def)
    qed
    then show ?thesis unfolding members by blast
  qed
  have "i \<in> set (eligible_run_ids p now s) \<longleftrightarrow>
      (\<exists>name. name \<in> fst ` set (runs_by_workflow p s) \<and> i \<in> set (eligible_in_group p now (?grp name)))"
  proof -
    have "i \<in> set (eligible_run_ids p now s) \<longleftrightarrow>
        (\<exists>name runs. (name, runs) \<in> set (runs_by_workflow p s) \<and> i \<in> set (eligible_in_group p now runs))"
      by (auto simp: eligible_run_ids_def)
    also have "\<dots> \<longleftrightarrow> (\<exists>name runs. (name, runs) \<in> set (runs_by_workflow p s) \<and>
        i \<in> set (eligible_in_group p now (?grp name)))"
    proof -
      have "(i \<in> set (eligible_in_group p now runs)) = (i \<in> set (eligible_in_group p now (?grp name)))"
        if "(name, runs) \<in> set (runs_by_workflow p s)" for name runs
        using runs_by_workflow_group [OF that] by (rule arg_cong)
      then show ?thesis by blast
    qed
    also have "\<dots> \<longleftrightarrow> (\<exists>name. name \<in> fst ` set (runs_by_workflow p s) \<and>
        i \<in> set (eligible_in_group p now (?grp name)))"
    proof -
      have "(\<exists>runs. (name, runs) \<in> set g) \<longleftrightarrow> name \<in> fst ` set g" for name and g :: "(string, workflow_run list) dict"
        by force
      then show ?thesis by blast
    qed
    finally show ?thesis .
  qed
  also have "\<dots> \<longleftrightarrow> (\<exists>w \<in> set ?vals. wr_run_id w = i \<and> prunable p now s w)"
    unfolding group runs_by_workflow_names by (auto simp: prunable_def)
  also have "\<dots> \<longleftrightarrow> (\<exists>w. dict_get (st_workflow_runs s) i = Some w \<and> prunable p now s w)"
    using dict_values_set [OF store_okD(2) [OF ok]] store_okD(5) [OF ok] by auto
  finally show ?thesis .
qed

lemma eligible_distinct:
  assumes ok: "store_ok s"
  shows "distinct (eligible_run_ids p now s)"
proof -
  let ?vals = "dict_values (st_workflow_runs s)"
  note d = run_values_distinct [OF ok]
  have id_inj: "inj_on wr_run_id (set ?vals)"
  proof (rule inj_onI)
    fix x y assume "x \<in> set ?vals" "y \<in> set ?vals" "wr_run_id x = wr_run_id y"
    then show "x = y"
      using dict_values_set [OF store_okD(2) [OF ok]] store_okD(5) [OF ok] by auto
  qed
  have one: "distinct (eligible_in_group p now runs)" and sub: "set (eligible_in_group p now runs) \<subseteq> wr_run_id ` set runs"
    if "distinct runs" "set runs \<subseteq> set ?vals" for runs
  proof -
    let ?xs = "newest_first runs"
    have xs: "distinct ?xs" "set ?xs = set runs" using that(1) by (simp_all add: newest_first_def)
    have "map (\<lambda>k. wr_run_id (?xs ! k)) [0..<length ?xs] = map wr_run_id ?xs"
      by (rule nth_equalityI) simp_all
    moreover have "distinct (map wr_run_id ?xs)"
      using xs id_inj that(2) by (auto simp: distinct_map intro: inj_on_subset)
    ultimately have "distinct (map (\<lambda>k. wr_run_id (?xs ! k)) [0..<length ?xs])" by (simp only:)
    then show "distinct (eligible_in_group p now runs)"
      unfolding eligible_in_group_alt by (rule distinct_map_filter)
    show "set (eligible_in_group p now runs) \<subseteq> wr_run_id ` set runs"
      using xs(2) nth_mem [of _ ?xs] by (auto simp: eligible_in_group_alt)
  qed
  have "distinct (concat (map (\<lambda>(name, runs). eligible_in_group p now runs) gs))"
    if "distinct (map fst gs)" "\<forall>(name, runs) \<in> set gs. distinct runs \<and> set runs \<subseteq> set ?vals \<and>
      (\<forall>r \<in> set runs. wr_workflow_name r = name)" for gs
    using that
  proof (induction gs)
    case (Cons g gs)
    obtain name runs where g: "g = (name, runs)" by fastforce
    with Cons.prems have runs: "distinct runs" "set runs \<subseteq> set ?vals" "\<forall>r \<in> set runs. wr_workflow_name r = name"
      by auto
    have "set (eligible_in_group p now runs) \<inter>
        set (concat (map (\<lambda>(name, runs). eligible_in_group p now runs) gs)) = {}"
    proof (rule ccontr)
      assume "\<not> ?thesis"
      then obtain i name' runs' where i: "i \<in> set (eligible_in_group p now runs)"
        "(name', runs') \<in> set gs" "i \<in> set (eligible_in_group p now runs')" by auto
      with Cons.prems(2) have runs': "distinct runs'" "set runs' \<subseteq> set ?vals"
        "\<forall>r \<in> set runs'. wr_workflow_name r = name'" by auto
      have "i \<in> wr_run_id ` set runs" using sub [OF runs(1,2)] i(1) by (rule subsetD)
      moreover have "i \<in> wr_run_id ` set runs'" using sub [OF runs'(1,2)] i(3) by (rule subsetD)
      ultimately obtain r r' where
        "r \<in> set runs" "r' \<in> set runs'" "wr_run_id r = i" "wr_run_id r' = i" by auto
      then have "r = r'" using runs(2) runs'(2) id_inj by (auto dest: inj_onD)
      then have "name = name'" using runs(3) runs'(3) \<open>r \<in> set runs\<close> \<open>r' \<in> set runs'\<close> by auto
      then show False using Cons.prems(1) i(2) g by (force simp: rev_image_eqI)
    qed
    then show ?case using Cons one [OF runs(1,2)] g by auto
  qed simp
  moreover have "distinct (map fst (runs_by_workflow p s))"
    using groups_fold [of "[]" "filter (name_selected p) ?vals"] by (simp add: runs_by_workflow_def dict_ok_def)
  moreover have "\<forall>(name, runs) \<in> set (runs_by_workflow p s). distinct runs \<and> set runs \<subseteq> set ?vals \<and>
      (\<forall>r \<in> set runs. wr_workflow_name r = name)"
  proof (intro ballI, clarify)
    fix name runs assume "(name, runs) \<in> set (runs_by_workflow p s)"
    then have "runs = filter (\<lambda>r. name_selected p r \<and> wr_workflow_name r = name) ?vals"
      by (rule runs_by_workflow_group)
    then show "distinct runs \<and> set runs \<subseteq> set ?vals \<and> (\<forall>r \<in> set runs. wr_workflow_name r = name)"
      using d(1) by auto
  qed
  ultimately show ?thesis unfolding eligible_run_ids_def by blast
qed

section \<open>What deletion leaves\<close>

lemma fold_dict_pop: "fold dict_pop ks d = filter (\<lambda>p. fst p \<notin> set ks) d"
  by (induction ks arbitrary: d) (auto simp: dict_pop_def conj_commute intro: filter_cong)

lemma dict_get_without: "dict_get (filter (\<lambda>p. fst p \<notin> S) d) k = (if k \<in> S then None else dict_get d k)"
  by (induction d) auto

lemma dict_has_filter: "k \<in> fst ` {p \<in> set d. Q (fst p)} \<longleftrightarrow> Q k \<and> dict_has d k"
  by force

lemma dict_has_without: "k \<in> fst ` {p \<in> set d. fst p \<notin> S} \<longleftrightarrow> k \<notin> S \<and> dict_has d k"
  by force

lemma filter_values_without:
  "(\<And>k v. (k, v) \<in> set d \<Longrightarrow> k \<in> S \<longleftrightarrow> P v) \<Longrightarrow>
   dict_values (filter (\<lambda>p. fst p \<notin> S) d) = filter (\<lambda>v. \<not> P v) (dict_values d)"
  by (induction d) (force simp: dict_values_def)+

lemma sequence_filter:
  assumes "sorted_wrt (<) (map tx_sequence rs)"
  shows "filter (\<lambda>r. tx_sequence r \<notin> set (map tx_sequence (filter P rs))) rs = filter (\<lambda>r. \<not> P r) rs"
proof (rule filter_cong [OF refl])
  fix r assume r: "r \<in> set rs"
  have "inj_on tx_sequence (set rs)"
    using assms strict_sorted_iff [of "map tx_sequence rs"] by (simp add: distinct_map)
  then show "tx_sequence r \<notin> set (map tx_sequence (filter P rs)) \<longleftrightarrow> \<not> P r"
    using r by (auto dest: inj_onD)
qed

lemma target_task_iff:
  assumes "store_ok s"
  shows "tid \<in> set (target_task_run_ids ids s) \<longleftrightarrow>
    (\<exists>t. dict_get (st_task_runs s) tid = Some t \<and> tr_workflow_run_id t \<in> set ids)"
  using dict_values_set [OF store_okD(3) [OF assms]] store_okD(6) [OF assms]
  by (auto simp: target_task_run_ids_def)

lemma target_attempt_iff:
  assumes "store_ok s"
  shows "aid \<in> set (target_attempt_ids tids s) \<longleftrightarrow>
    (\<exists>a. dict_get (st_task_attempts s) aid = Some a \<and> ta_task_run_id a \<in> set tids)"
  using dict_values_set [OF store_okD(4) [OF assms]] store_okD(7) [OF assms]
  by (auto simp: target_attempt_ids_def)

lemma delete_runs_tables:
  fixes ids :: "workflow_run_id list" and s :: store
  assumes ok: "store_ok s"
  defines "tids \<equiv> target_task_run_ids ids s" and "aids \<equiv> target_attempt_ids (target_task_run_ids ids s) s"
  shows "st_workflow_runs (delete_runs ids s) = filter (\<lambda>p. fst p \<notin> set ids) (st_workflow_runs s)"
    "st_task_runs (delete_runs ids s) = filter (\<lambda>p. fst p \<notin> set tids) (st_task_runs s)"
    "st_task_attempts (delete_runs ids s) = filter (\<lambda>p. fst p \<notin> set aids) (st_task_attempts s)"
    "st_external_refs (delete_runs ids s) = filter (\<lambda>p. fst (fst p) \<notin> set aids) (st_external_refs s)"
    "st_checkpoints (delete_runs ids s) = filter (\<lambda>p. fst p \<notin> set tids) (st_checkpoints s)"
    "st_manifests (delete_runs ids s) = filter (\<lambda>p. fst p \<notin> set ids) (st_manifests s)"
    "st_transitions (delete_runs ids s) = filter (\<lambda>r. \<not> target_transition ids tids aids r) (st_transitions s)"
    "st_next_sequence (delete_runs ids s) = st_next_sequence s"
proof -
  have "sorted_wrt (<) (map tx_sequence (st_transitions s))"
    using ok by (simp add: store_ok_def journal_ok_def)
  from sequence_filter [OF this]
  show "st_transitions (delete_runs ids s) = filter (\<lambda>r. \<not> target_transition ids tids aids r) (st_transitions s)"
    by (simp add: delete_runs_def Let_def tids_def aids_def)
qed (auto simp: delete_runs_def Let_def tids_def aids_def fold_dict_pop intro!: filter_cong)

lemma history_deleted:
  assumes "st_transitions s' = filter (\<lambda>r. \<not> target_transition ids tids aids r) (st_transitions s)"
  shows "history s' ty i = (if (ty = WORKFLOW_RUN \<and> i \<in> wid_str ` set ids) \<or>
      (ty = TASK_RUN \<and> i \<in> tid_str ` set tids) \<or> (ty = TASK_ATTEMPT \<and> i \<in> aid_str ` set aids)
    then [] else history s ty i)"
proof -
  let ?C = "(ty = WORKFLOW_RUN \<and> i \<in> wid_str ` set ids) \<or> (ty = TASK_RUN \<and> i \<in> tid_str ` set tids) \<or>
      (ty = TASK_ATTEMPT \<and> i \<in> aid_str ` set aids)"
  let ?P = "\<lambda>r. tx_entity_type r = ty \<and> tx_entity_id r = i"
  have T: "?P r \<Longrightarrow> target_transition ids tids aids r \<longleftrightarrow> ?C" for r
    unfolding target_transition_def by (cases ty) simp_all
  have "filter ?P (filter (\<lambda>r. \<not> target_transition ids tids aids r) rs) =
      (if ?C then [] else filter ?P rs)" for rs
  proof (cases ?C)
    case True
    then have "filter ?P (filter (\<lambda>r. \<not> target_transition ids tids aids r) rs) = []"
      using T unfolding filter_filter filter_empty_conv by blast
    with True show ?thesis by (simp only: if_True)
  next
    case False
    then have "filter ?P (filter (\<lambda>r. \<not> target_transition ids tids aids r) rs) = filter ?P rs"
      unfolding filter_filter using T by (intro filter_cong) blast+
    with False show ?thesis by (simp only: if_False)
  qed
  then show ?thesis using assms by (simp add: history_def)
qed

lemma id_text_image [simp]:
  "i \<in> wid_str ` S \<longleftrightarrow> WorkflowRunId i \<in> S" "i \<in> tid_str ` T \<longleftrightarrow> TaskRunId i \<in> T"
  "i \<in> aid_str ` A \<longleftrightarrow> TaskAttemptId i \<in> A"
proof -
  show "i \<in> wid_str ` S \<longleftrightarrow> WorkflowRunId i \<in> S" by (metis image_iff workflow_run_id.collapse workflow_run_id.sel)
  show "i \<in> tid_str ` T \<longleftrightarrow> TaskRunId i \<in> T" by (metis image_iff task_run_id.collapse task_run_id.sel)
  show "i \<in> aid_str ` A \<longleftrightarrow> TaskAttemptId i \<in> A" by (metis image_iff task_attempt_id.collapse task_attempt_id.sel)
qed

lemma delete_runs_ok:
  assumes ok: "store_ok s"
  shows "store_ok (delete_runs ids s)"
proof -
  let ?s = "delete_runs ids s" and ?tids = "target_task_run_ids ids s"
  let ?aids = "target_attempt_ids ?tids s"
  note tab = delete_runs_tables [OF ok, of ids]
  note tt = target_task_iff [OF ok, of _ ids] and ta = target_attempt_iff [OF ok, of _ ?tids]
  from ok have ent: "entities_ok s" and num: "numbers_ok s" and jou: "journal_ok s"
    by (simp_all add: store_ok_def)
  have tt': "tr_workflow_run_id t \<notin> set ids" if "dict_get (st_task_runs s) i = Some t" "i \<notin> set ?tids" for i t
    using tt that by blast
  have ta': "ta_task_run_id a \<notin> set ?tids" if "dict_get (st_task_attempts s) i = Some a" "i \<notin> set ?aids" for i a
    using ta that by blast
  have "entities_ok ?s"
    using ent unfolding entities_ok_def tab
    apply (elim conjE)
    apply (intro conjI)
    subgoal by (simp add: dict_ok_filter)
    subgoal by (simp add: dict_ok_filter)
    subgoal by (simp add: dict_ok_filter)
    subgoal by (simp add: dict_ok_filter)
    subgoal by (simp add: dict_ok_filter)
    subgoal by (simp add: dict_ok_filter)
    subgoal by (simp add: dict_get_without)
    subgoal using tt' by (simp add: dict_get_without dict_has_without)
    subgoal using ta' by (simp add: dict_get_without dict_has_without)
    subgoal by (simp add: dict_has_filter [where Q = "\<lambda>k. fst k \<notin> S" for S] dict_has_without)
    subgoal by (simp add: dict_get_without dict_has_without)
    subgoal by (simp add: dict_has_without)
    done
  moreover have "numbers_ok ?s"
  proof -
    have "k \<in> set ?aids \<longleftrightarrow> ta_task_run_id a \<in> set ?tids" if "(k, a) \<in> set (st_task_attempts s)" for k a
    proof -
      have "dict_get (st_task_attempts s) k = Some a"
        using that store_okD(4) [OF ok] by (simp add: dict_get_iff)
      then show ?thesis using ta [of k] by simp
    qed
    then have "dict_values (st_task_attempts ?s) =
        filter (\<lambda>a. \<not> ta_task_run_id a \<in> set ?tids) (dict_values (st_task_attempts s))"
      unfolding tab by (rule filter_values_without)
    then have "attempts_of tid ?s = (if tid \<in> set ?tids then [] else attempts_of tid s)" for tid
      by (auto simp: attempts_of_def filter_empty_conv intro: filter_cong)
    with num show ?thesis by (simp add: numbers_ok_def del: upt_Suc)
  qed
  moreover have "journal_ok ?s"
    unfolding journal_ok_def
  proof (intro conjI allI)
    show "1 \<le> st_next_sequence ?s" using jou tab(8) by (simp add: journal_ok_def)
    show "sorted_wrt (<) (map tx_sequence (st_transitions ?s))"
      using jou unfolding tab by (auto simp: journal_ok_def sorted_wrt_map intro: sorted_wrt_filter)
    show "\<forall>r \<in> set (st_transitions ?s). tx_sequence r < st_next_sequence ?s \<and> transition_record_post_init r = Inr ()"
      using jou unfolding tab by (auto simp: journal_ok_def)
    fix ty i
    have old: "replay None (history s ty i) = Some (stored_status ty i s)"
      using jou by (simp add: journal_ok_def)
    show "replay None (history ?s ty i) = Some (stored_status ty i ?s)"
      using old
      by (cases ty) (simp_all add: history_deleted [OF tab(7)] tab(1-3) dict_get_without)
  qed
  ultimately show ?thesis by (simp add: store_ok_def)
qed

lemma prune_runs_effect:
  "1 \<le> batch_size \<Longrightarrow> prune_runs p dry_run batch_size now s =
     (Inr \<lparr>pr_dry_run = dry_run, pr_scanned_workflows = length (runs_by_workflow p s),
           pr_eligible_runs = length (eligible_run_ids p now s),
           pr_deleted = prune_summary (eligible_run_ids p now s) s\<rparr>,
      if dry_run then s else delete_runs (eligible_run_ids p now s) s)"
  by (simp add: prune_runs_def thenA_def bindA_def)

lemma prune_runs_ok: "store_ok s \<Longrightarrow> store_ok (snd (prune_runs p dry_run batch_size now s))"
  by (cases "1 \<le> batch_size")
    (simp_all add: prune_runs_effect delete_runs_ok prune_runs_def thenA_def bindA_def)

section \<open>What a deletion leaves\<close>

lemma replay_some: "replay (Some t) h \<noteq> Some None"
  by (induction h arbitrary: t) (auto split: if_splits)

lemma record_entity_stored:
  assumes "store_ok s" "r \<in> set (st_transitions s)"
  shows "stored_status (tx_entity_type r) (tx_entity_id r) s \<noteq> None"
proof -
  have "(tx_from_status r, tx_to_status r) \<in> set (history s (tx_entity_type r) (tx_entity_id r))"
    using assms(2) by (auto simp: history_def)
  then obtain f t h where "history s (tx_entity_type r) (tx_entity_id r) = (f, t) # h"
    by (cases "history s (tx_entity_type r) (tx_entity_id r)") auto
  moreover have "replay None (history s (tx_entity_type r) (tx_entity_id r)) =
      Some (stored_status (tx_entity_type r) (tx_entity_id r) s)"
    using assms(1) by (simp add: store_ok_def journal_ok_def)
  ultimately show ?thesis using replay_some [of t h] by (auto split: if_splits)
qed

lemma dict_get_filter: "dict_get (filter (\<lambda>p. Q (fst p)) d) k = (if Q k then dict_get d k else None)"
  by (induction d) auto

lemma delete_runs_rest:
  fixes ids :: "workflow_run_id list" and s :: store
  assumes ok: "store_ok s"
  defines "s' \<equiv> delete_runs ids s"
  shows "dict_get (st_checkpoints s') tid =
      (if dict_has (st_task_runs s') tid then dict_get (st_checkpoints s) tid else None)"
    "dict_get (st_external_refs s') key =
      (if dict_has (st_task_attempts s') (fst key) then dict_get (st_external_refs s) key else None)"
    "dict_get (st_manifests s') i =
      (if dict_has (st_workflow_runs s') i then dict_get (st_manifests s) i else None)"
    "st_transitions s' = filter (\<lambda>r. stored_status (tx_entity_type r) (tx_entity_id r) s' \<noteq> None) (st_transitions s)"
proof -
  note tab = delete_runs_tables [OF ok, of ids]
  have ent: "entities_ok s" using ok by (simp add: store_ok_def)
  have "dict_has (st_checkpoints s) tid \<Longrightarrow> dict_has (st_task_runs s) tid"
    using ent unfolding entities_ok_def by (metis dict_has_iff)
  then show "dict_get (st_checkpoints s') tid =
      (if dict_has (st_task_runs s') tid then dict_get (st_checkpoints s) tid else None)"
    unfolding s'_def tab dict_get_without by (cases "dict_get (st_checkpoints s) tid") (auto simp: dict_has_without dict_has_iff)
  have "dict_has (st_external_refs s) key \<Longrightarrow> dict_has (st_task_attempts s) (fst key)"
    using ent unfolding entities_ok_def by blast
  then show "dict_get (st_external_refs s') key =
      (if dict_has (st_task_attempts s') (fst key) then dict_get (st_external_refs s) key else None)"
    unfolding s'_def tab dict_get_filter [where Q = "\<lambda>k. fst k \<notin> S" for S]
    by (cases "dict_get (st_external_refs s) key") (auto simp: dict_has_without dict_has_iff)
  have "dict_has (st_manifests s) i \<Longrightarrow> dict_has (st_workflow_runs s) i"
    using ent unfolding entities_ok_def by blast
  then show "dict_get (st_manifests s') i =
      (if dict_has (st_workflow_runs s') i then dict_get (st_manifests s) i else None)"
    unfolding s'_def tab dict_get_without by (cases "dict_get (st_manifests s) i") (auto simp: dict_has_without dict_has_iff)
  let ?tids = "target_task_run_ids ids s"
  let ?aids = "target_attempt_ids ?tids s"
  have "\<not> target_transition ids ?tids ?aids r \<longleftrightarrow> stored_status (tx_entity_type r) (tx_entity_id r) s' \<noteq> None"
    if "r \<in> set (st_transitions s)" for r
    using record_entity_stored [OF ok that]
    by (cases "tx_entity_type r") (simp_all add: target_transition_def s'_def tab dict_get_without)
  then show "st_transitions s' = filter (\<lambda>r. stored_status (tx_entity_type r) (tx_entity_id r) s' \<noteq> None) (st_transitions s)"
    unfolding s'_def tab by (auto intro!: filter_cong)
qed

section \<open>Properties\<close>

text \<open>C31: Pruning removes exactly the runs the policy describes, with everything that belongs to them.  A
  workflow run survives a real prune of a consistent store if and only if it is not both terminal, in
  a status to prune, of a selected workflow and either older than its cutoff (failed runs have their
  own) or preceded by at least the allowed number of newer runs of the same workflow.  Unchanged
  survive exactly the task runs and manifests of the surviving runs, the attempts and checkpoints of
  the surviving task runs, the external references of the surviving attempts and, in their order,
  the journal records of the surviving entities; all else in the store is gone, and the sequence
  counter stands where it stood.  A batch size below one, which the code refuses, is left aside, and
  dates are unbounded: a retention so long that its cutoff lies before year 1 raises OverflowError in
  the code.\<close>
theorem prune_exact:
  assumes "store_ok s" "1 \<le> batch_size" "prune_runs p False batch_size now s = (r, s')"
  shows "dict_get (st_workflow_runs s') i =
      (case dict_get (st_workflow_runs s) i of None \<Rightarrow> None
       | Some w \<Rightarrow> if prunable p now s w then None else Some w) \<and>
    dict_get (st_task_runs s') tid =
      (case dict_get (st_task_runs s) tid of None \<Rightarrow> None
       | Some t \<Rightarrow> if dict_has (st_workflow_runs s') (tr_workflow_run_id t) then Some t else None) \<and>
    dict_get (st_task_attempts s') aid =
      (case dict_get (st_task_attempts s) aid of None \<Rightarrow> None
       | Some a \<Rightarrow> if dict_has (st_task_runs s') (ta_task_run_id a) then Some a else None) \<and>
    dict_get (st_checkpoints s') tid =
      (if dict_has (st_task_runs s') tid then dict_get (st_checkpoints s) tid else None) \<and>
    dict_get (st_external_refs s') key =
      (if dict_has (st_task_attempts s') (fst key) then dict_get (st_external_refs s) key else None) \<and>
    dict_get (st_manifests s') i =
      (if dict_has (st_workflow_runs s') i then dict_get (st_manifests s) i else None) \<and>
    st_transitions s' =
      filter (\<lambda>r. stored_status (tx_entity_type r) (tx_entity_id r) s' \<noteq> None) (st_transitions s) \<and>
    st_next_sequence s' = st_next_sequence s"
proof -
  let ?ids = "eligible_run_ids p now s"
  let ?tids = "target_task_run_ids ?ids s"
  have s': "s' = delete_runs ?ids s" using assms(2,3) by (simp add: prune_runs_effect)
  note tab = delete_runs_tables [OF assms(1), of ?ids]
  note el = eligible_iff [OF assms(1), of _ p now]
  have "dict_get (st_workflow_runs s') i = (case dict_get (st_workflow_runs s) i of None \<Rightarrow> None
       | Some w \<Rightarrow> if prunable p now s w then None else Some w)"
    using el [of i] by (auto simp: s' tab(1) dict_get_without split: option.splits)
  moreover have "dict_get (st_task_runs s') tid = (case dict_get (st_task_runs s) tid of None \<Rightarrow> None
       | Some t \<Rightarrow> if dict_has (st_workflow_runs s') (tr_workflow_run_id t) then Some t else None)"
    using target_task_iff [OF assms(1), of tid ?ids] store_okD(6) [OF assms(1), of tid]
    by (auto simp: s' tab(1,2) dict_get_without dict_has_without split: option.splits)
  moreover have "dict_get (st_task_attempts s') aid = (case dict_get (st_task_attempts s) aid of None \<Rightarrow> None
       | Some a \<Rightarrow> if dict_has (st_task_runs s') (ta_task_run_id a) then Some a else None)"
    using target_attempt_iff [OF assms(1), of aid ?tids] store_okD(7) [OF assms(1), of aid]
    by (auto simp: s' tab(2,3) dict_get_without dict_has_without split: option.splits)
  moreover note delete_runs_rest [OF assms(1), of ?ids, folded s'] tab(8) [folded s']
  ultimately show ?thesis by simp
qed

text \<open>A dry run is a faithful rehearsal: it leaves the store unchanged and reports the same
  numbers as the real prune, which deletes as many runs as it reports.\<close>
theorem dry_run_faithful:
  assumes "store_ok s" "1 \<le> batch_size"
  shows "snd (prune_runs p True batch_size now s) = s \<and>
    (\<exists>report. fst (prune_runs p True batch_size now s) = Inr (report\<lparr>pr_dry_run := True\<rparr>) \<and>
      fst (prune_runs p False batch_size now s) = Inr report \<and>
      length (st_workflow_runs (snd (prune_runs p False batch_size now s))) + pr_eligible_runs report =
        length (st_workflow_runs s))"
proof -
  let ?ids = "eligible_run_ids p now s"
  have sub: "set ?ids \<subseteq> fst ` set (st_workflow_runs s)"
    using eligible_iff [OF assms(1), of _ p now] by (auto simp: dict_has_iff)
  have keys: "distinct (map fst (st_workflow_runs s))"
    using store_okD(2) [OF assms(1)] by (simp add: dict_ok_def)
  have dist: "distinct ?ids" by (rule eligible_distinct [OF assms(1)])
  have "length (filter (\<lambda>q. fst q \<notin> set ?ids) (st_workflow_runs s)) + length ?ids = length (st_workflow_runs s)"
  proof -
    have "length (filter (\<lambda>q. fst q \<in> set ?ids) (st_workflow_runs s)) =
        card (fst ` {q \<in> set (st_workflow_runs s). fst q \<in> set ?ids})"
      using distinct_card [OF distinct_map_filter [OF keys, of "\<lambda>q. fst q \<in> set ?ids"]] by simp
    also have "fst ` {q \<in> set (st_workflow_runs s). fst q \<in> set ?ids} = set ?ids" using sub by auto
    also have "card (set ?ids) = length ?ids" using dist by (rule distinct_card)
    finally show ?thesis
      using sum_length_filter_compl [of "\<lambda>q. fst q \<in> set ?ids" "st_workflow_runs s"] by simp
  qed
  then show ?thesis
    using assms(2) by (simp add: prune_runs_effect delete_runs_tables [OF assms(1)])
qed

section \<open>A concrete instance\<close>

definition keep_none :: retention_policy where
  "keep_none = default_retention_policy\<lparr>rt_prune_states := [W_SUCCEEDED, W_CANCELLED, W_FAILED]\<rparr>"

definition done_run :: workflow_run where
  "done_run = running_run\<lparr>wr_status := W_SUCCEEDED, wr_ended_at := Some (Datetime 2 True)\<rparr>"

definition store_finished :: store where
  "store_finished = snd (update_workflow_run done_run W_RUNNING (Some (Datetime 2 True))
     (snd (update_workflow_run running_run W_PENDING (Some (Datetime 1 True)) store_with_task)))"

lemma store_finished_ok: "store_ok store_finished"
proof -
  have "store_ok (snd (update_workflow_run running_run W_PENDING (Some (Datetime 1 True)) store_with_task))"
    by (rule update_workflow_run_ok [OF store_with_task_ok _ surjective_pairing]) simp
  then show ?thesis
    unfolding store_finished_def by (rule update_workflow_run_ok [OF _ _ surjective_pairing]) simp
qed

definition far_future :: datetime where
  "far_future = Datetime (31 * us_per_day) True"

theorem prune_exact_witness:
  "\<exists>report s'. prune_runs keep_none False 1 far_future store_finished = (Inr report, s') \<and>
     dict_get (st_workflow_runs s') (WorkflowRunId ''run'') = None \<and>
     dict_get (st_task_runs s') (TaskRunId ''task'') = None \<and> st_transitions s' = [] \<and> st_next_sequence s' = 5"
proof -
  have facts: "dict_get (st_workflow_runs store_finished) (WorkflowRunId ''run'') = Some done_run"
    "dict_get (st_task_runs store_finished) (TaskRunId ''task'') = Some sample_task_run"
    "age_eligible keep_none far_future done_run" "name_selected keep_none done_run"
    "wr_status done_run \<in> WORKFLOW_TERMINAL_STATUSES" "wr_status done_run \<in> set (rt_prune_states keep_none)"
    "tr_workflow_run_id sample_task_run = WorkflowRunId ''run''" "st_next_sequence store_finished = 5"
    "map (\<lambda>r. (tx_entity_type r, tx_entity_id r)) (st_transitions store_finished) =
       [(WORKFLOW_RUN, ''run''), (TASK_RUN, ''task''), (WORKFLOW_RUN, ''run''), (WORKFLOW_RUN, ''run'')]"
    by code_simp+
  then have "prunable keep_none far_future store_finished done_run" by (simp add: prunable_def)
  moreover obtain report s' where r: "prune_runs keep_none False 1 far_future store_finished = (Inr report, s')"
    by (simp add: prune_runs_effect)
  note exact = prune_exact [OF store_finished_ok _ r, of "WorkflowRunId ''run''" "TaskRunId ''task''"]
  ultimately have gone: "dict_get (st_workflow_runs s') (WorkflowRunId ''run'') = None"
    "dict_get (st_task_runs s') (TaskRunId ''task'') = None"
    using exact facts by (auto simp: dict_has_iff)
  have "stored_status (tx_entity_type x) (tx_entity_id x) s' = None" if "x \<in> set (st_transitions store_finished)" for x
  proof -
    have "(tx_entity_type x, tx_entity_id x) \<in> set (map (\<lambda>r. (tx_entity_type r, tx_entity_id r)) (st_transitions store_finished))"
      using that by auto
    then show ?thesis unfolding facts(9) using gone by auto
  qed
  then have "st_transitions s' = []" using exact by simp
  then show ?thesis using r gone exact facts(8) by auto
qed

theorem dry_run_faithful_witness:
  "snd (prune_runs keep_none True 1 far_future store_finished) = store_finished"
  using dry_run_faithful [OF store_finished_ok, of 1 keep_none far_future] by simp

end
