(* ===== verification/Authoring.thy ===== *)
theory Authoring
  imports Json
begin

text \<open>
  Authoring values (\<open>authoring/workloads.py\<close>, \<open>io.py\<close>, \<open>definitions.py\<close>): workload
  declarations, task and workflow definitions with their validation, the acyclicity check of
  \<open>_validate_acyclic\<close> and the definition fingerprint.  The acyclicity check is shown to accept
  exactly the acyclic workflows.

  A \<open>workload\<close> is one of the three things the source distinguishes: a local callable (of which
  only \<open>__module__\<close> and \<open>__qualname__\<close> are read), a \<open>RegisteredWorkload\<close>, or another value
  that implements the \<open>WorkloadDescriptor\<close> protocol, represented by the attributes that are
  read from it.  A constructor is a function \<open>mk_...\<close> from the fields as given to the value
  with normalised fields, or to the exception of \<open>__post_init__\<close>.
\<close>

section \<open>Workloads\<close>

datatype portability = LOCAL_ONLY | PORTABLE

primrec portability_value :: "portability \<Rightarrow> string" where
  "portability_value LOCAL_ONLY = ''local_only''"
| "portability_value PORTABLE = ''portable''"

record registered_workload =
  rw_registry_key :: string
  rw_parameters :: "(string \<times> string) list"
  rw_executor_key :: "string option"
  rw_contract_version :: string

definition first_duplicate_text :: "string list \<Rightarrow> string option" where
  \<comment> \<open>The first text of the list that has occurred before.\<close>
  "first_duplicate_text xs = map_option (\<lambda>i. xs ! i)
     (find (\<lambda>i. xs ! i \<in> set (take i xs)) [0..<length xs])"

definition mk_registered_workload :: "registered_workload \<Rightarrow> registered_workload result" where
  "mk_registered_workload w =
     thenR (required_text ''registry_key'' (rw_registry_key w))
    (thenR (optional_text ''executor_key'' (rw_executor_key w))
    (thenR (required_text ''contract_version'' (rw_contract_version w))
    (thenR (forR [0..<length (rw_parameters w)] (\<lambda>i.
         let key = fst (rw_parameters w ! i) in
         thenR (required_text ''parameter key'' key)
           (require (key \<notin> set (take i (map fst (rw_parameters w))))
             (ValueError (''duplicate workload parameter '' @ py_quote key)))))
      (Inr (w\<lparr>rw_parameters := sort_key fst (rw_parameters w)\<rparr>)))))"

record descriptor =
  wd_kind :: string
  wd_portability :: portability
  wd_payload :: "pyval result"
  wd_executor_key :: "string option"
  wd_integration_key :: "string option"

datatype workload =
    LocalCallable "string option" "string option"
  | Registered registered_workload
  | Descriptor descriptor

primrec workload_portability :: "workload \<Rightarrow> portability" where
  "workload_portability (LocalCallable m q) = LOCAL_ONLY"
| "workload_portability (Registered w) = PORTABLE"
| "workload_portability (Descriptor d) = wd_portability d"

definition registered_fingerprint_payload :: "registered_workload \<Rightarrow> pyval" where
  "registered_fingerprint_payload w = PyMap
     [(KStr ''kind'', PyStr ''registered''),
      (KStr ''registry_key'', PyStr (rw_registry_key w)),
      (KStr ''parameters'',
        PyList (map (\<lambda>(k, v). PyList [PyStr k, PyStr v]) (rw_parameters w))),
      (KStr ''executor_key'', case rw_executor_key w of None \<Rightarrow> PyNone | Some k \<Rightarrow> PyStr k),
      (KStr ''contract_version'', PyStr (rw_contract_version w))]"

definition is_mapping :: "pyval \<Rightarrow> bool" where
  "is_mapping v = (case v of PyMap items \<Rightarrow> True | _ \<Rightarrow> False)"

primrec workload_fingerprint_payload :: "workload \<Rightarrow> pyval result" where
  "workload_fingerprint_payload (LocalCallable module_name qualname) =
     thenR (require (case module_name of None \<Rightarrow> False | Some m \<Rightarrow> \<not> blank m)
       (ValueError ''local callable workload must expose __module__ for deterministic fingerprinting''))
    (thenR (require (case qualname of None \<Rightarrow> False | Some q \<Rightarrow> \<not> blank q)
       (ValueError ''local callable workload must expose __qualname__; use RegisteredWorkload for callable objects''))
    (Inr (PyMap
       [(KStr ''kind'', PyStr ''python_callable''),
        (KStr ''callable_ref'', PyStr (the module_name @ '':'' @ the qualname)),
        (KStr ''portability'', PyStr (portability_value LOCAL_ONLY))])))"
| "workload_fingerprint_payload (Registered w) = Inr (registered_fingerprint_payload w)"
| "workload_fingerprint_payload (Descriptor d) = bindR (wd_payload d) (\<lambda>payload.
     thenR (require (is_mapping payload) (TypeError ''fingerprint_payload() must return a mapping''))
       (Inr payload))"

section \<open>Input and output declarations\<close>

record input_declaration =
  in_name :: string
  in_required :: bool
  in_portable :: bool
  in_metadata :: "(string \<times> jval) list"

record output_declaration =
  od_name :: string
  od_portable :: bool
  od_metadata :: "(string \<times> jval) list"

definition mk_input_declaration ::
  "string \<Rightarrow> bool \<Rightarrow> bool \<Rightarrow> (string \<times> pyval) list \<Rightarrow> input_declaration result" where
  "mk_input_declaration name required portable metadata =
     thenR (required_text ''input name'' name)
    (bindR (freeze_metadata metadata) (\<lambda>frozen.
       Inr \<lparr>in_name = name, in_required = required, in_portable = portable, in_metadata = frozen\<rparr>))"

definition mk_output_declaration ::
  "string \<Rightarrow> bool \<Rightarrow> (string \<times> pyval) list \<Rightarrow> output_declaration result" where
  "mk_output_declaration name portable metadata =
     thenR (required_text ''output name'' name)
    (bindR (freeze_metadata metadata) (\<lambda>frozen.
       Inr \<lparr>od_name = name, od_portable = portable, od_metadata = frozen\<rparr>))"

definition input_payload :: "input_declaration \<Rightarrow> jval" where
  "input_payload d = JObj
     [(''name'', JStr (in_name d)), (''portable'', JBool (in_portable d)),
      (''required'', JBool (in_required d)), (''metadata'', metadata_payload (in_metadata d))]"

definition output_payload :: "output_declaration \<Rightarrow> jval" where
  "output_payload d = JObj
     [(''name'', JStr (od_name d)), (''portable'', JBool (od_portable d)),
      (''metadata'', metadata_payload (od_metadata d))]"

section \<open>Task definitions\<close>

datatype trigger_rule =
  ALL_SUCCESS | ALL_DONE | ANY_SUCCESS | ANY_FAILED | NONE_FAILED | ALWAYS

primrec trigger_value :: "trigger_rule \<Rightarrow> string" where
  "trigger_value ALL_SUCCESS = ''all_success''"
| "trigger_value ALL_DONE = ''all_done''"
| "trigger_value ANY_SUCCESS = ''any_success''"
| "trigger_value ANY_FAILED = ''any_failed''"
| "trigger_value NONE_FAILED = ''none_failed''"
| "trigger_value ALWAYS = ''always''"

record task_definition =
  td_key :: string
  td_workload :: workload
  td_dependencies :: "string list"
  td_retry_policy :: retry_policy
  td_execution_timeout :: "pynum option"
  td_trigger_rule :: trigger_rule
  td_is_deterministic :: bool
  td_inputs :: "input_declaration list"
  td_outputs :: "output_declaration list"
  td_metadata :: "(string \<times> jval) list"

definition validate_named_declarations :: "string \<Rightarrow> string list \<Rightarrow> unit result" where
  "validate_named_declarations kind names = (case first_duplicate_text names of
     None \<Rightarrow> Inr ()
   | Some name \<Rightarrow> Inl (ValueError (''task declares duplicate '' @ kind @ '' '' @ py_quote name)))"

text \<open>\<open>__post_init__\<close> of a task; the metadata is given unfrozen.\<close>

definition mk_task_definition ::
  "task_definition \<Rightarrow> (string \<times> pyval) list \<Rightarrow> task_definition result" where
  "mk_task_definition t metadata =
     thenR (required_text ''task key'' (td_key t))
    (thenR (require (distinct (td_dependencies t))
       (ValueError (''task '' @ py_quote (td_key t) @ '' declares duplicate dependencies'')))
    (thenR (forR (td_dependencies t) (\<lambda>d. required_text ''dependency key'' d))
    (thenR (require (td_key t \<notin> set (td_dependencies t))
       (ValueError (''task '' @ py_quote (td_key t) @ '' cannot depend on itself'')))
    (thenR (validate_named_declarations ''input'' (map in_name (td_inputs t)))
    (thenR (validate_named_declarations ''output'' (map od_name (td_outputs t)))
    (bindR (freeze_metadata metadata) (\<lambda>frozen. Inr (t\<lparr>td_metadata := frozen\<rparr>))))))))"

definition task_portable :: "task_definition \<Rightarrow> bool" where
  "task_portable t \<longleftrightarrow> portability_value (workload_portability (td_workload t)) = ''portable''"

text \<open>\<open>_canonicalize\<close>: keys become texts by \<open>str\<close>, later ones winning; no finiteness check.\<close>

function canonicalize :: "pyval \<Rightarrow> jval result" where
  "canonicalize PyNone = Inr JNull"
| "canonicalize (PyBool b) = Inr (JBool b)"
| "canonicalize (PyNum n) = Inr (JNum n)"
| "canonicalize (PyStr s) = Inr (JStr s)"
| "canonicalize (PyMap items) =
     bindR (mapR (\<lambda>(key, v). bindR (canonicalize v) (\<lambda>j. Inr (key_text key, j)))
              (sort_key (\<lambda>(key, v). key_text key) items))
       (\<lambda>entries. Inr (JObj (fold (\<lambda>(k, j). dict_set k j) entries [])))"
| "canonicalize (PyList vs) = bindR (mapR canonicalize vs) (\<lambda>js. Inr (JArr js))"
| "canonicalize (PyTuple vs) = bindR (mapR canonicalize vs) (\<lambda>js. Inr (JArr js))"
| "canonicalize (PyEnum v) = Inl (TypeError ''workload fingerprint payload must contain only JSON-compatible values'')"
| "canonicalize (PyOther name) = Inl (TypeError ''workload fingerprint payload must contain only JSON-compatible values'')"
  by pat_completeness auto
termination
  by (relation "measure size") (auto intro: size_entry size_list_member)

definition opt_num :: "pynum option \<Rightarrow> jval" where
  "opt_num x = (case x of None \<Rightarrow> JNull | Some n \<Rightarrow> JNum n)"

definition retry_policy_payload :: "retry_policy \<Rightarrow> jval" where
  "retry_policy_payload p = JObj
     [(''max_attempts'', JNum (PyInt (rp_max_attempts p))),
      (''backoff_strategy'', JStr (backoff_value (rp_backoff_strategy p))),
      (''initial_delay_seconds'', JNum (rp_initial_delay_seconds p)),
      (''max_delay_seconds'', opt_num (rp_max_delay_seconds p)),
      (''jitter'', JStr (jitter_value (rp_jitter p))),
      (''retryable_failure_categories'',
        JArr (map JStr (sort (map failure_category_value (remdups (rp_retryable_failure_categories p)))))),
      (''total_budget_seconds'', opt_num (rp_total_budget_seconds p)),
      (''reconciliation_required'', JBool (rp_reconciliation_required p))]"

definition task_payload :: "task_definition \<Rightarrow> jval result" where
  "task_payload t =
     bindR (workload_fingerprint_payload (td_workload t)) (\<lambda>payload.
     bindR (canonicalize payload) (\<lambda>workload_json.
     Inr (JObj
       [(''key'', JStr (td_key t)),
        (''workload'', workload_json),
        (''dependencies'', JArr (map JStr (sort (td_dependencies t)))),
        (''retry_policy'', retry_policy_payload (td_retry_policy t)),
        (''timeout_policy'', JObj [(''execution_timeout'', opt_num (td_execution_timeout t))]),
        (''trigger_rule'', JStr (trigger_value (td_trigger_rule t))),
        (''is_deterministic'', JBool (td_is_deterministic t)),
        (''inputs'', JArr (map input_payload (sort_key in_name (td_inputs t)))),
        (''outputs'', JArr (map output_payload (sort_key od_name (td_outputs t)))),
        (''metadata'', metadata_payload (td_metadata t))])))"

section \<open>Acyclicity\<close>

type_synonym depmap = "(string, string list) dict"

definition deps_of :: "depmap \<Rightarrow> string \<Rightarrow> string list" where
  "deps_of deps k = (case dict_get deps k of None \<Rightarrow> [] | Some ds \<Rightarrow> ds)"

text \<open>One pass of the \<open>for downstream\<close> loop, for one downstream task.\<close>

definition release :: "string \<Rightarrow> string list \<Rightarrow> string \<Rightarrow> depmap \<times> string list \<Rightarrow> depmap \<times> string list"
  where
  "release key visited downstream s = (case s of (deps, ready) \<Rightarrow>
     if key \<notin> set (deps_of deps downstream) then (deps, ready)
     else let rest = removeAll key (deps_of deps downstream);
              deps' = dict_set downstream rest deps
          in if rest = [] \<and> downstream \<notin> set visited \<and> downstream \<notin> set ready
             then (deps', sort (ready @ [downstream]))
             else (deps', ready))"

definition release_all :: "string \<Rightarrow> string list \<Rightarrow> depmap \<Rightarrow> string list \<Rightarrow> depmap \<times> string list" where
  "release_all key visited deps ready =
     fold (release key visited) (sort (map fst deps)) (deps, ready)"

definition dep_total :: "depmap \<Rightarrow> nat" where
  "dep_total deps = sum_list (map (\<lambda>p. length (snd p)) deps)"

lemma dep_total_update:
  "dict_get deps k = Some ds \<Longrightarrow>
   dep_total (dict_set k rest deps) + length ds = dep_total deps + length rest"
  by (induction deps) (auto simp: dep_total_def dict_set_def)

lemma removeAll_shorter: "x \<in> set xs \<Longrightarrow> length (removeAll x xs) < length xs"
  by (rule length_removeAll_less)

lemma deps_of_member:
  "key \<in> set (deps_of deps d) \<Longrightarrow> dict_get deps d = Some (deps_of deps d)"
  by (cases "dict_get deps d") (simp_all add: deps_of_def)

lemma release_measure:
  assumes "release key visited d (deps, ready) = (deps', ready')"
  shows "length ready' + dep_total deps' \<le> length ready + dep_total deps"
proof (cases "key \<in> set (deps_of deps d)")
  case True
  then have some: "dict_get deps d = Some (deps_of deps d)"
    by (rule deps_of_member)
  have "dep_total (dict_set d (removeAll key (deps_of deps d)) deps) < dep_total deps"
    using dep_total_update [OF some, of "removeAll key (deps_of deps d)"]
      removeAll_shorter [OF True] by linarith
  then have less: "dep_total (dict_set d (removeAll key (deps_of deps d)) deps) + 1 \<le> dep_total deps"
    "dep_total (dict_set d (removeAll key (deps_of deps d)) deps) \<le> dep_total deps"
    by simp_all
  show ?thesis
    using assms True less by (auto simp: release_def Let_def split: if_splits)
qed (use assms in \<open>auto simp: release_def\<close>)

lemma release_all_measure:
  "fold (release key visited) ds (deps, ready) = (deps', ready') \<Longrightarrow>
   length ready' + dep_total deps' \<le> length ready + dep_total deps"
proof (induction ds arbitrary: deps ready)
  case (Cons d ds)
  obtain deps1 ready1 where "release key visited d (deps, ready) = (deps1, ready1)" by fastforce
  with Cons show ?case using release_measure by fastforce
qed simp

function acyclic_loop :: "depmap \<Rightarrow> string list \<Rightarrow> string list \<Rightarrow> depmap \<times> string list" where
  "acyclic_loop deps [] visited = (deps, visited)"
| "acyclic_loop deps (key # ready) visited =
     (let (deps', ready') = release_all key (visited @ [key]) deps ready
      in acyclic_loop deps' ready' (visited @ [key]))"
  by pat_completeness auto
termination
proof (relation "measure (\<lambda>(deps, ready, visited). length ready + dep_total deps)")
  fix deps :: depmap and key ready visited x deps' ready'
  assume "x = release_all key (visited @ [key]) deps ready" "(deps', ready') = x"
  then show "((deps', ready', visited @ [key]), deps, key # ready, visited)
      \<in> measure (\<lambda>(deps, ready, visited). length ready + dep_total deps)"
    using release_all_measure [of key "visited @ [key]" "sort (map fst deps)" deps ready deps' ready']
    by (simp add: release_all_def)
qed simp

definition initial_deps :: "task_definition list \<Rightarrow> depmap" where
  "initial_deps tasks = map (\<lambda>t. (td_key t, remdups (td_dependencies t))) tasks"

definition validate_acyclic :: "task_definition list \<Rightarrow> unit result" where
  "validate_acyclic tasks =
     (let deps = initial_deps tasks;
          ready = sort (map fst (filter (\<lambda>p. snd p = []) deps));
          (deps', visited) = acyclic_loop deps ready []
      in require (length visited = length tasks)
           (CircularDependency (sort (map fst (filter (\<lambda>p. snd p \<noteq> []) deps')))))"

subsection \<open>What the loop computes\<close>

lemma deps_of_release:
  assumes "release key visited d (deps, ready) = (deps', ready')"
  shows "deps_of deps' k = (if k = d then removeAll key (deps_of deps k) else deps_of deps k)"
    and "map fst deps' = map fst deps"
    and "set ready' = set ready \<union> {k. k = d \<and> key \<in> set (deps_of deps d) \<and>
           removeAll key (deps_of deps d) = [] \<and> d \<notin> set visited}"
    and "distinct ready \<Longrightarrow> distinct ready'"
proof -
  have "key \<in> set (deps_of deps d) \<Longrightarrow> d \<in> fst ` set deps"
    by (auto simp: dict_has_iff dest: deps_of_member)
  then have keys: "key \<in> set (deps_of deps d) \<Longrightarrow> map fst (dict_set d v deps) = map fst deps" for v
    by (rule dict_set_existing_keys)
  show "deps_of deps' k = (if k = d then removeAll key (deps_of deps k) else deps_of deps k)"
    using assms
    by (auto simp: release_def Let_def deps_of_def dict_get_set removeAll_id split: if_splits)
  show "map fst deps' = map fst deps"
    using assms keys by (auto simp: release_def Let_def split: if_splits)
  show "set ready' = set ready \<union> {k. k = d \<and> key \<in> set (deps_of deps d) \<and>
           removeAll key (deps_of deps d) = [] \<and> d \<notin> set visited}"
    using assms by (auto simp: release_def Let_def split: if_splits)
  show "distinct ready \<Longrightarrow> distinct ready'"
    using assms by (auto simp: release_def Let_def split: if_splits)
qed

lemma deps_of_release_fold:
  assumes "fold (release key visited) ds (deps, ready) = (deps', ready')" "distinct ds"
  shows "(\<forall>k. deps_of deps' k =
           (if k \<in> set ds then removeAll key (deps_of deps k) else deps_of deps k)) \<and>
    map fst deps' = map fst deps \<and>
    set ready' = set ready \<union> {k \<in> set ds. key \<in> set (deps_of deps k) \<and>
           removeAll key (deps_of deps k) = [] \<and> k \<notin> set visited} \<and>
    (distinct ready \<longrightarrow> distinct ready')"
  using assms
proof (induction ds arbitrary: deps ready)
  case (Cons d ds)
  obtain deps1 ready1 where one: "release key visited d (deps, ready) = (deps1, ready1)" by fastforce
  note step = deps_of_release [OF one]
  have "fold (release key visited) ds (deps1, ready1) = (deps', ready')"
    using Cons.prems(1) one by simp
  moreover have ds: "distinct ds" "d \<notin> set ds" using Cons.prems(2) by simp_all
  ultimately have IH: "\<forall>k. deps_of deps' k =
           (if k \<in> set ds then removeAll key (deps_of deps1 k) else deps_of deps1 k)"
    "map fst deps' = map fst deps1"
    "set ready' = set ready1 \<union> {k \<in> set ds. key \<in> set (deps_of deps1 k) \<and>
           removeAll key (deps_of deps1 k) = [] \<and> k \<notin> set visited}"
    "distinct ready1 \<longrightarrow> distinct ready'"
    using Cons.IH by blast+
  have same: "deps_of deps1 k = deps_of deps k" if "k \<in> set ds" for k
    using step(1) that ds(2) by auto
  show ?case
    using IH(1,2,4) step(1,2,4) ds(2) same unfolding IH(3) step(3) by auto
qed auto

text \<open>The tasks visited so far, in order, are exactly closed under \<open>all dependencies visited\<close>.\<close>

definition kahn_inv ::
  "string list \<Rightarrow> (string \<Rightarrow> string set) \<Rightarrow> depmap \<Rightarrow> string list \<Rightarrow> string list \<Rightarrow> bool" where
  "kahn_inv keys D deps ready visited \<longleftrightarrow>
     map fst deps = keys \<and> distinct keys \<and>
     (\<forall>k \<in> set keys. set (deps_of deps k) = D k - set visited) \<and>
     distinct (visited @ ready) \<and>
     set visited \<union> set ready = {k \<in> set keys. D k \<subseteq> set visited} \<and>
     (\<forall>i < length visited. D (visited ! i) \<subseteq> set (take i visited))"

lemma kahn_step:
  assumes inv: "kahn_inv keys D deps (key # ready) visited"
    and all: "release_all key (visited @ [key]) deps ready = (deps', ready')"
  shows "kahn_inv keys D deps' ready' (visited @ [key])"
proof -
  from inv have keys: "map fst deps = keys" "distinct keys"
    and deps: "\<And>k. k \<in> set keys \<Longrightarrow> set (deps_of deps k) = D k - set visited"
    and dist: "distinct (visited @ key # ready)"
    and closed: "set visited \<union> set (key # ready) = {k \<in> set keys. D k \<subseteq> set visited}"
    and topo: "\<forall>i < length visited. D (visited ! i) \<subseteq> set (take i visited)"
    by (auto simp: kahn_inv_def)
  have ds: "distinct (sort (map fst deps))" "set (sort (map fst deps)) = set keys"
    using keys by auto
  note fold = deps_of_release_fold [OF all [unfolded release_all_def] ds(1), unfolded ds(2)]
  note new = fold [THEN conjunct1] fold [THEN conjunct2, THEN conjunct1]
    fold [THEN conjunct2, THEN conjunct2, THEN conjunct1]
    fold [THEN conjunct2, THEN conjunct2, THEN conjunct2]
  have key: "D key \<subseteq> set visited" using closed by auto
  have empty: "removeAll key (deps_of deps k) = [] \<longleftrightarrow> D k - set visited \<subseteq> {key}"
    if "k \<in> set keys" for k
  proof -
    have "removeAll key (deps_of deps k) = [] \<longleftrightarrow> set (removeAll key (deps_of deps k)) = {}"
      by (simp only: set_empty)
    also have "\<dots> \<longleftrightarrow> D k - set visited \<subseteq> {key}" using deps [OF that] by auto
    finally show ?thesis .
  qed
  have ready': "set ready' = set ready \<union> {k \<in> set keys. key \<in> D k - set visited \<and>
      D k - set visited \<subseteq> {key} \<and> k \<notin> set (visited @ [key])}"
    unfolding new(3) using deps empty by auto
  show ?thesis
    unfolding kahn_inv_def
  proof (intro conjI)
    show "map fst deps' = keys" "distinct keys" using new(2) keys by simp_all
    show "\<forall>k \<in> set keys. set (deps_of deps' k) = D k - set (visited @ [key])"
      using new(1) deps by auto
    show "distinct ((visited @ [key]) @ ready')"
      using dist new(4) ready' by auto
    show "set (visited @ [key]) \<union> set ready' = {k \<in> set keys. D k \<subseteq> set (visited @ [key])}"
      unfolding ready' using closed by auto
    show "\<forall>i < length (visited @ [key]).
        D ((visited @ [key]) ! i) \<subseteq> set (take i (visited @ [key]))"
      using topo key by (auto simp: nth_append less_Suc_eq)
  qed
qed

lemma kahn_loop:
  assumes "kahn_inv keys D deps ready visited" "acyclic_loop deps ready visited = (deps', visited')"
  shows "kahn_inv keys D deps' [] visited'"
  using assms
proof (induction deps ready visited rule: acyclic_loop.induct)
  case (2 deps key ready visited)
  obtain deps1 ready1 where all: "release_all key (visited @ [key]) deps ready = (deps1, ready1)"
    by fastforce
  show ?case
    using 2(1) [OF all [symmetric] refl] kahn_step [OF 2(2) all] 2(3) all by simp
qed simp

lemma topological_acyclic:
  assumes "distinct vs" "\<forall>i < length vs. D (vs ! i) \<subseteq> set (take i vs)"
  shows "acyclic {(d, k). k \<in> set vs \<and> d \<in> D k}"
proof -
  define pos where "pos = inv_into {..<length vs} (nth vs)"
  have pos: "pos (vs ! i) = i" if "i < length vs" for i
    using assms(1) that unfolding pos_def
    by (intro inv_into_f_f) (auto simp: inj_on_def nth_eq_iff_index_eq)
  have "{(d, k). k \<in> set vs \<and> d \<in> D k} \<subseteq> inv_image less_than pos"
  proof (clarsimp simp: in_set_conv_nth)
    fix d i assume i: "i < length vs" "d \<in> D (vs ! i)"
    with assms(2) have "d \<in> set (take i vs)" by blast
    then obtain j where "j < i" "j < length vs" "vs ! j = d" by (auto simp: in_set_conv_nth)
    with pos i(1) show "pos d < pos (vs ! i)" by auto
  qed
  then show ?thesis
    by (meson acyclic_subset wf_acyclic wf_inv_image wf_less_than)
qed

lemma acyclic_closed_set:
  assumes "finite K" "acyclic {(d, k). k \<in> K \<and> d \<in> D k}" "\<And>k. k \<in> K \<Longrightarrow> D k \<subseteq> K"
    and V: "V = {k \<in> K. D k \<subseteq> V}"
  shows "V = K"
proof (rule ccontr)
  assume "V \<noteq> K"
  with V obtain x where x: "x \<in> K - V" by blast
  let ?E = "{(d, k). k \<in> K \<and> d \<in> D k}"
  have "?E \<subseteq> K \<times> K" using assms(3) by auto
  then have "finite ?E" using assms(1) finite_subset by blast
  then have "wf ?E" using assms(2) by (rule finite_acyclic_wf)
  then obtain z where z: "z \<in> K - V" "\<And>y. (y, z) \<in> ?E \<Longrightarrow> y \<notin> K - V"
    using x by (rule wfE_min) blast
  then have "D z \<subseteq> V" using assms(3) by auto
  with z(1) V show False by auto
qed

text \<open>The dependency edges of a list of tasks, from upstream to downstream.\<close>

definition dep_edges :: "task_definition list \<Rightarrow> (string \<times> string) set" where
  "dep_edges tasks = {(d, td_key t) | d t. t \<in> set tasks \<and> d \<in> set (td_dependencies t)}"

definition deps_known :: "task_definition list \<Rightarrow> bool" where
  "deps_known tasks \<longleftrightarrow> (\<forall>t \<in> set tasks. set (td_dependencies t) \<subseteq> td_key ` set tasks)"

definition dep_set :: "task_definition list \<Rightarrow> string \<Rightarrow> string set" where
  "dep_set tasks k = {d. (d, k) \<in> dep_edges tasks}"

lemma dep_set_task:
  "distinct (map td_key tasks) \<Longrightarrow> t \<in> set tasks \<Longrightarrow> dep_set tasks (td_key t) = set (td_dependencies t)"
  by (auto simp: dep_set_def dep_edges_def distinct_map dest: inj_onD)

lemma dep_edges_alt: "{(d, k). k \<in> td_key ` set tasks \<and> d \<in> dep_set tasks k} = dep_edges tasks"
  by (auto simp: dep_set_def dep_edges_def)

lemma dep_set_known: "deps_known tasks \<Longrightarrow> dep_set tasks k \<subseteq> td_key ` set tasks"
  by (fastforce simp: dep_set_def dep_edges_def deps_known_def)

lemma deps_of_initial:
  assumes "distinct (map td_key tasks)" "t \<in> set tasks"
  shows "deps_of (initial_deps tasks) (td_key t) = remdups (td_dependencies t)"
proof -
  have "dict_get (initial_deps tasks) (td_key t) = Some (remdups (td_dependencies t))"
    using assms by (subst dict_get_iff)
      (auto simp: dict_ok_def initial_deps_def comp_def)
  then show ?thesis by (simp add: deps_of_def)
qed

lemma kahn_start:
  assumes "distinct (map td_key tasks)"
  shows "kahn_inv (map td_key tasks) (dep_set tasks) (initial_deps tasks)
    (sort (map fst (filter (\<lambda>p. snd p = []) (initial_deps tasks)))) []"
proof -
  let ?ready = "sort (map fst (filter (\<lambda>p. snd p = []) (initial_deps tasks)))"
  have keys: "map fst (initial_deps tasks) = map td_key tasks"
    by (simp add: initial_deps_def)
  have deps: "\<forall>k \<in> td_key ` set tasks. set (deps_of (initial_deps tasks) k) = dep_set tasks k"
    using assms by (auto simp: deps_of_initial dep_set_task)
  have "distinct ?ready"
    using assms keys by (metis distinct_sort distinct_map_filter)
  moreover have "set ?ready = {k \<in> td_key ` set tasks. dep_set tasks k \<subseteq> {}}"
    using assms by (force simp: initial_deps_def dep_set_task)
  ultimately show ?thesis
    using assms keys deps by (simp add: kahn_inv_def)
qed

lemma acyclic_loop_result:
  assumes "distinct (map td_key tasks)"
    and "acyclic_loop (initial_deps tasks)
      (sort (map fst (filter (\<lambda>p. snd p = []) (initial_deps tasks)))) [] = (deps', visited)"
  shows "kahn_inv (map td_key tasks) (dep_set tasks) deps' [] visited"
  using kahn_loop [OF kahn_start [OF assms(1)] assms(2)] .

lemma kahn_complete_iff:
  assumes inv: "kahn_inv (map td_key tasks) (dep_set tasks) deps' [] visited"
    and known: "deps_known tasks"
  shows "length visited = length tasks \<longleftrightarrow> acyclic (dep_edges tasks)"
proof -
  let ?K = "td_key ` set tasks" and ?V = "set visited"
  from inv have dist: "distinct (map td_key tasks)" "distinct visited"
    and closed: "?V = {k \<in> ?K. dep_set tasks k \<subseteq> ?V}"
    and topo: "\<forall>i < length visited. dep_set tasks (visited ! i) \<subseteq> set (take i visited)"
    by (auto simp: kahn_inv_def)
  have "card ?K = length tasks"
    using dist(1) by (metis card_set distinct_card length_map set_map)
  moreover have "card ?V = length visited" using dist(2) by (rule distinct_card)
  moreover have sub: "?V \<subseteq> ?K" using closed by blast
  ultimately have len: "length visited = length tasks \<longleftrightarrow> ?V = ?K"
    by (metis card_subset_eq finite_imageI finite_set)
  have "?V = ?K \<Longrightarrow> acyclic (dep_edges tasks)"
    using topological_acyclic [OF dist(2) topo] dep_edges_alt [of tasks] by simp
  moreover have "acyclic (dep_edges tasks) \<Longrightarrow> ?V = ?K"
    by (rule acyclic_closed_set [where D = "dep_set tasks"])
      (use closed dep_set_known [OF known] dep_edges_alt [of tasks] in auto)
  ultimately show ?thesis using len by blast
qed

lemma validate_acyclic_iff:
  assumes "distinct (map td_key tasks)" "deps_known tasks"
  shows "validate_acyclic tasks = Inr u \<longleftrightarrow> acyclic (dep_edges tasks)"
  using kahn_complete_iff [OF acyclic_loop_result [OF assms(1)] assms(2)]
  by (auto simp: validate_acyclic_def Let_def split: prod.splits)

section \<open>Workflow definitions\<close>

datatype failure_policy = FAIL_FAST

primrec failure_policy_value :: "failure_policy \<Rightarrow> string" where
  "failure_policy_value FAIL_FAST = ''FAIL_FAST''"

record workflow_definition =
  wf_name :: string
  wf_tasks :: "task_definition list"
  wf_version :: string
  wf_failure_policy :: failure_policy
  wf_metadata :: "(string \<times> jval) list"

definition validate :: "workflow_definition \<Rightarrow> unit result" where
  "validate w =
     thenR (forR (wf_tasks w) (\<lambda>t. forR (td_dependencies t) (\<lambda>d.
         require (d \<in> td_key ` set (wf_tasks w))
           (ValueError (''task '' @ py_quote (td_key t) @ '' depends on unknown task '' @ py_quote d)))))
       (validate_acyclic (wf_tasks w))"

definition mk_workflow_definition ::
  "workflow_definition \<Rightarrow> (string \<times> pyval) list \<Rightarrow> workflow_definition result" where
  "mk_workflow_definition w metadata =
     thenR (required_text ''workflow name'' (wf_name w))
    (thenR (required_text ''workflow version'' (wf_version w))
    (thenR (require (wf_tasks w \<noteq> []) (ValueError ''workflow must contain at least one task''))
    (thenR (case first_duplicate_text (map td_key (wf_tasks w)) of None \<Rightarrow> Inr ()
        | Some k \<Rightarrow> Inl (ValueError (''workflow declares duplicate task key '' @ py_quote k)))
    (bindR (freeze_metadata metadata) (\<lambda>frozen.
     thenR (validate (w\<lparr>wf_metadata := frozen\<rparr>)) (Inr (w\<lparr>wf_metadata := frozen\<rparr>)))))))"

definition workflow_task :: "workflow_definition \<Rightarrow> string \<Rightarrow> task_definition result" where
  "workflow_task w key = (case find (\<lambda>t. td_key t = key) (wf_tasks w) of
     Some t \<Rightarrow> Inr t | None \<Rightarrow> Inl (KeyError key))"

text \<open>\<open>json.dumps(..., allow_nan=False)\<close> refuses a number that is not finite.\<close>

function all_finite :: "jval \<Rightarrow> bool" where
  "all_finite (JObj entries) \<longleftrightarrow> (\<forall>(k, v) \<in> set entries. all_finite v)"
| "all_finite (JArr js) \<longleftrightarrow> (\<forall>j \<in> set js. all_finite j)"
| "all_finite (JNum n) \<longleftrightarrow> py_isfinite n"
| "all_finite JNull \<longleftrightarrow> True"
| "all_finite (JBool b) \<longleftrightarrow> True"
| "all_finite (JStr s) \<longleftrightarrow> True"
  by pat_completeness auto
termination
  by (relation "measure size") (auto intro: size_entry size_list_member)

definition strict_digest :: "codec \<Rightarrow> jval \<Rightarrow> string result" where
  "strict_digest c j =
     thenR (require (all_finite j) (ValueError ''Out of range float values are not JSON compliant''))
       (Inr (canonical_json_digest c j))"

definition workflow_payload :: "workflow_definition \<Rightarrow> jval result" where
  "workflow_payload w = bindR (mapR task_payload (sort_key td_key (wf_tasks w))) (\<lambda>tasks.
     Inr (JObj
       [(''name'', JStr (wf_name w)), (''version'', JStr (wf_version w)),
        (''failure_policy'', JStr (failure_policy_value (wf_failure_policy w))),
        (''tasks'', JArr tasks), (''metadata'', metadata_payload (wf_metadata w))]))"

definition fingerprint :: "codec \<Rightarrow> workflow_definition \<Rightarrow> string result" where
  "fingerprint c w = bindR (workflow_payload w) (strict_digest c)"

definition workflow_portability :: "workflow_definition \<Rightarrow> portability" where
  "workflow_portability w = (if list_all task_portable (wf_tasks w) then PORTABLE else LOCAL_ONLY)"

text \<open>A workflow is itself a workload descriptor; \<open>as_task\<close> nests it in a parent workflow.\<close>

definition workflow_descriptor :: "codec \<Rightarrow> workflow_definition \<Rightarrow> descriptor" where
  "workflow_descriptor c w =
     \<lparr>wd_kind = ''workflow'', wd_portability = workflow_portability w,
      wd_payload = bindR (fingerprint c w) (\<lambda>digest. Inr (PyMap
        [(KStr ''kind'', PyStr ''workflow''), (KStr ''name'', PyStr (wf_name w)),
         (KStr ''version'', PyStr (wf_version w)), (KStr ''fingerprint'', PyStr digest),
         (KStr ''portability'', PyStr (portability_value (workflow_portability w)))])),
      wd_executor_key = None, wd_integration_key = None\<rparr>"

definition as_task ::
  "codec \<Rightarrow> workflow_definition \<Rightarrow> task_definition \<Rightarrow> (string \<times> pyval) list \<Rightarrow> task_definition result"
  where
  \<comment> \<open>\<open>t\<close> holds the arguments of the call as a task; its workload becomes the workflow.\<close>
  "as_task c w t metadata =
     mk_task_definition (t\<lparr>td_workload := Descriptor (workflow_descriptor c w)\<rparr>) metadata"

section \<open>What construction guarantees\<close>

lemma first_duplicate_text_None: "first_duplicate_text xs = None \<longleftrightarrow> distinct xs"
  by (auto simp: first_duplicate_text_def find_None_iff distinct_conv_nth in_set_conv_nth)
    (metis linorder_neqE_nat)

definition valid_workflow :: "workflow_definition \<Rightarrow> bool" where
  "valid_workflow w \<longleftrightarrow> \<not> blank (wf_name w) \<and> \<not> blank (wf_version w) \<and> wf_tasks w \<noteq> [] \<and>
     distinct (map td_key (wf_tasks w)) \<and> deps_known (wf_tasks w) \<and>
     acyclic (dep_edges (wf_tasks w))"

lemma validate_Inr_iff:
  assumes "distinct (map td_key (wf_tasks w))"
  shows "validate w = Inr u \<longleftrightarrow> deps_known (wf_tasks w) \<and> acyclic (dep_edges (wf_tasks w))"
proof -
  have "validate w = Inr u \<longleftrightarrow> deps_known (wf_tasks w) \<and> validate_acyclic (wf_tasks w) = Inr u"
    by (auto simp: validate_def thenR_Inr_iff forR_Inr_iff deps_known_def)
  then show ?thesis using validate_acyclic_iff [OF assms] by blast
qed

lemma case_duplicate_Inr:
  "(case first_duplicate_text xs of None \<Rightarrow> Inr () | Some k \<Rightarrow> Inl (f k)) = Inr u \<longleftrightarrow> distinct xs"
  by (simp add: first_duplicate_text_None [symmetric] split: option.splits)

text \<open>C32: A \<open>WorkflowDefinition\<close> can be constructed exactly when its name and version are not
  blank, it has tasks, their keys are unique, every dependency names a task of the workflow and
  the dependency relation is acyclic (and its metadata freezes): \<open>_validate_acyclic\<close>, a
  work-list algorithm, neither misses a cycle nor reports one that is not there.\<close>
theorem workflow_definition_exact:
  "mk_workflow_definition w metadata = Inr w' \<longleftrightarrow>
     (\<exists>frozen. freeze_metadata metadata = Inr frozen \<and> w' = w\<lparr>wf_metadata := frozen\<rparr> \<and>
       valid_workflow w')"
proof -
  let ?ok = "\<not> blank (wf_name w) \<and> \<not> blank (wf_version w) \<and> wf_tasks w \<noteq> [] \<and>
      distinct (map td_key (wf_tasks w))"
  have "mk_workflow_definition w metadata = Inr w' \<longleftrightarrow> ?ok \<and>
    (\<exists>frozen. freeze_metadata metadata = Inr frozen \<and> w' = w\<lparr>wf_metadata := frozen\<rparr> \<and>
       validate w' = Inr ())"
    by (auto simp: mk_workflow_definition_def thenR_Inr_iff bindR_Inr_iff case_duplicate_Inr)
  moreover have "?ok \<Longrightarrow> validate (w\<lparr>wf_metadata := frozen\<rparr>) = Inr () \<longleftrightarrow>
      valid_workflow (w\<lparr>wf_metadata := frozen\<rparr>)" for frozen
    using validate_Inr_iff [of "w\<lparr>wf_metadata := frozen\<rparr>"] by (simp add: valid_workflow_def)
  moreover have "valid_workflow (w\<lparr>wf_metadata := frozen\<rparr>) \<Longrightarrow> ?ok" for frozen
    by (simp add: valid_workflow_def)
  ultimately show ?thesis by blast
qed

lemma cycle_report_closed:
  assumes inv: "kahn_inv (map td_key tasks) (dep_set tasks) deps [] visited"
    and known: "deps_known tasks"
  shows "set (map fst (filter (\<lambda>p. snd p \<noteq> []) deps)) = td_key ` set tasks - set visited"
    and "td_key ` set tasks - set visited =
      {k \<in> td_key ` set tasks. \<exists>d \<in> td_key ` set tasks - set visited. (d, k) \<in> dep_edges tasks}"
proof -
  let ?K = "td_key ` set tasks"
  from inv have keys: "map fst deps = map td_key tasks" "dict_ok deps"
    and deps: "\<And>k. k \<in> ?K \<Longrightarrow> set (deps_of deps k) = dep_set tasks k - set visited"
    and closed: "set visited = {k \<in> ?K. dep_set tasks k \<subseteq> set visited}"
    by (auto simp: kahn_inv_def dict_ok_def)
  have some: "dict_get deps k = Some (deps_of deps k)" if "k \<in> ?K" for k
    using that keys(1) by (metis deps_of_def dict_has_iff image_set option.simps(5))
  have "set (map fst (filter (\<lambda>p. snd p \<noteq> []) deps)) = {k \<in> ?K. deps_of deps k \<noteq> []}"
  proof -
    have mem: "(k, ds) \<in> set deps \<longleftrightarrow> k \<in> ?K \<and> ds = deps_of deps k" for k ds
      using some keys dict_get_iff [OF keys(2)]
      by (metis fst_conv image_eqI image_set option.inject)
    have "k \<in> set (map fst (filter (\<lambda>p. snd p \<noteq> []) deps)) \<longleftrightarrow>
        (\<exists>ds. (k, ds) \<in> set deps \<and> ds \<noteq> [])" for k
      by (fastforce intro: rev_image_eqI)
    then show ?thesis unfolding mem by blast
  qed
  also have "\<dots> = {k \<in> ?K. \<not> dep_set tasks k \<subseteq> set visited}"
    using deps by (metis (lifting) Diff_eq_empty_iff set_empty)
  also have "\<dots> = ?K - set visited" using closed by blast
  finally show "set (map fst (filter (\<lambda>p. snd p \<noteq> []) deps)) = ?K - set visited" .
  show "?K - set visited = {k \<in> ?K. \<exists>d \<in> ?K - set visited. (d, k) \<in> dep_edges tasks}"
  proof (rule set_eqI)
    fix k
    have "k \<in> ?K - set visited \<longleftrightarrow> k \<in> ?K \<and> \<not> dep_set tasks k \<subseteq> set visited"
      by (subst closed) blast
    also have "\<dots> \<longleftrightarrow> k \<in> ?K \<and> (\<exists>d \<in> ?K - set visited. d \<in> dep_set tasks k)"
      using dep_set_known [OF known, of k] by blast
    finally show "k \<in> ?K - set visited \<longleftrightarrow>
        k \<in> {k \<in> ?K. \<exists>d \<in> ?K - set visited. (d, k) \<in> dep_edges tasks}"
      by (simp add: dep_set_def)
  qed
qed

text \<open>A rejected cycle is reported faithfully.  The tasks named by the
  \<open>CircularDependencyError\<close> of \<open>validate\<close> are sorted, at least one, each waits for another
  reported task, and every task that lies on a cycle is among them.\<close>
theorem cycle_report_sound:
  assumes "distinct (map td_key (wf_tasks w))" "validate w = Inl (CircularDependency ks)"
  shows "sorted ks \<and> ks \<noteq> [] \<and>
    (\<forall>k \<in> set ks. \<exists>d \<in> set ks. (d, k) \<in> dep_edges (wf_tasks w)) \<and>
    (\<forall>k. (k, k) \<in> (dep_edges (wf_tasks w))\<^sup>+ \<longrightarrow> k \<in> set ks)"
proof -
  let ?tasks = "wf_tasks w"
  have known: "deps_known ?tasks" and bad: "validate_acyclic ?tasks = Inl (CircularDependency ks)"
    using assms(2) by (auto simp: validate_def thenR_Inl_iff forR_Inr_iff deps_known_def dest!: forR_Inl)
  obtain deps visited where loop: "acyclic_loop (initial_deps ?tasks)
      (sort (map fst (filter (\<lambda>p. snd p = []) (initial_deps ?tasks)))) [] = (deps, visited)"
    by fastforce
  note inv = acyclic_loop_result [OF assms(1) loop]
  let ?R = "td_key ` set ?tasks - set visited"
  have ks: "ks = sort (map fst (filter (\<lambda>p. snd p \<noteq> []) deps))" and
    len: "length visited \<noteq> length ?tasks"
    using bad loop by (auto simp: validate_acyclic_def Let_def)
  have set_ks: "set ks = ?R"
    unfolding ks using cycle_report_closed(1) [OF inv known] by simp
  note closed = cycle_report_closed(2) [OF inv known]
  have "\<not> acyclic (dep_edges ?tasks)" using kahn_complete_iff [OF inv known] len by simp
  have on_cycle: "k \<in> ?R" if "(k, k) \<in> (dep_edges ?tasks)\<^sup>+" for k
  proof (rule ccontr)
    assume "k \<notin> ?R"
    have K: "y \<in> td_key ` set ?tasks" if "(x, y) \<in> (dep_edges ?tasks)\<^sup>+" for x y
      using that by (induction rule: trancl_induct) (auto simp: dep_edges_def)
    with that \<open>k \<notin> ?R\<close> have "k \<in> set visited" by blast
    have down: "y \<in> set visited \<Longrightarrow> x \<in> set visited" if "(x, y) \<in> dep_edges ?tasks" for x y
      using inv that by (auto simp: kahn_inv_def dep_set_def)
    have "y \<in> set visited \<Longrightarrow> (x, y) \<in> (dep_edges ?tasks \<inter> set visited \<times> set visited)\<^sup>+"
      if "(x, y) \<in> (dep_edges ?tasks)\<^sup>+" for x y
      using that
    proof (induction rule: trancl_induct)
      case (step y z)
      then show ?case using down by (meson IntI SigmaI trancl.simps)
    qed (use down in blast)
    with that \<open>k \<in> set visited\<close>
    have "(k, k) \<in> (dep_edges ?tasks \<inter> set visited \<times> set visited)\<^sup>+" by blast
    moreover have "acyclic {(d, k). k \<in> set visited \<and> d \<in> dep_set ?tasks k}"
      using inv by (intro topological_acyclic) (auto simp: kahn_inv_def)
    then have "acyclic (dep_edges ?tasks \<inter> set visited \<times> set visited)"
      by (rule acyclic_subset) (auto simp: dep_set_def)
    ultimately show False by (simp add: acyclic_def)
  qed
  have "?R \<noteq> {}"
    using on_cycle \<open>\<not> acyclic (dep_edges ?tasks)\<close> unfolding acyclic_def by blast
  then have "ks \<noteq> []" using set_ks by auto
  moreover have "sorted ks" by (simp add: ks)
  ultimately show ?thesis
    using set_ks on_cycle closed by blast
qed

definition sample_task :: "string \<Rightarrow> string list \<Rightarrow> task_definition" where
  "sample_task key dependencies =
     \<lparr>td_key = key, td_workload = LocalCallable (Some ''app'') (Some key),
      td_dependencies = dependencies, td_retry_policy = default_retry_policy,
      td_execution_timeout = None, td_trigger_rule = ALL_SUCCESS, td_is_deterministic = True,
      td_inputs = [], td_outputs = [], td_metadata = []\<rparr>"

definition sample_workflow :: "task_definition list \<Rightarrow> workflow_definition" where
  "sample_workflow tasks =
     \<lparr>wf_name = ''sample'', wf_tasks = tasks, wf_version = ''1'',
      wf_failure_policy = FAIL_FAST, wf_metadata = []\<rparr>"

lemma sample_simps [simp]:
  "td_key (sample_task k ds) = k" "td_dependencies (sample_task k ds) = ds"
  "wf_tasks (sample_workflow ts) = ts"
  "workload_portability (td_workload (sample_task k ds)) = LOCAL_ONLY"
  by (simp_all add: sample_task_def sample_workflow_def)

definition cyclic_sample :: workflow_definition where
  "cyclic_sample = sample_workflow [sample_task ''a'' [''b''], sample_task ''b'' [''a''],
     sample_task ''c'' []]"

lemma cyclic_sample_rejected:
  "validate cyclic_sample = Inl (CircularDependency [''a'', ''b''])"
  by code_simp

theorem cycle_report_sound_witness:
  "sorted [''a'', ''b''] \<and> {k. (k, k) \<in> (dep_edges (wf_tasks cyclic_sample))\<^sup>+} \<subseteq> {''a'', ''b''}"
proof -
  have "distinct (map td_key (wf_tasks cyclic_sample))" by (simp add: cyclic_sample_def)
  from cycle_report_sound [OF this cyclic_sample_rejected] show ?thesis by auto
qed

section \<open>Fingerprints\<close>

text \<open>\<open>redeclared t t'\<close>: the task \<open>t'\<close> is \<open>t\<close> with its dependencies, inputs and outputs listed in
  another order.\<close>

definition redeclared :: "task_definition \<Rightarrow> task_definition \<Rightarrow> bool" where
  "redeclared t t' \<longleftrightarrow>
     t' = t\<lparr>td_dependencies := td_dependencies t', td_inputs := td_inputs t', td_outputs := td_outputs t'\<rparr> \<and>
     mset (td_dependencies t') = mset (td_dependencies t) \<and>
     mset (td_inputs t') = mset (td_inputs t) \<and> distinct (map in_name (td_inputs t)) \<and>
     mset (td_outputs t') = mset (td_outputs t) \<and> distinct (map od_name (td_outputs t))"

lemma redeclared_payload:
  assumes "redeclared t t'"
  shows "task_payload t' = task_payload t" and "td_key t' = td_key t"
proof -
  from assms have
    t': "t' = t\<lparr>td_dependencies := td_dependencies t', td_inputs := td_inputs t', td_outputs := td_outputs t'\<rparr>"
    and deps: "sort (td_dependencies t) = sort (td_dependencies t')"
    and ins: "sort_key in_name (td_inputs t) = sort_key in_name (td_inputs t')"
    and outs: "sort_key od_name (td_outputs t) = sort_key od_name (td_outputs t')"
    by (auto simp: redeclared_def intro: sort_key_mset properties_for_sort)
  have fields: "td_key t' = td_key t" "td_workload t' = td_workload t"
    "td_retry_policy t' = td_retry_policy t" "td_execution_timeout t' = td_execution_timeout t"
    "td_trigger_rule t' = td_trigger_rule t" "td_is_deterministic t' = td_is_deterministic t"
    "td_metadata t' = td_metadata t"
    by (subst t', simp)+
  show "task_payload t' = task_payload t"
    by (simp add: task_payload_def deps ins outs fields)
  show "td_key t' = td_key t" by (rule fields(1))
qed

text \<open>The definition fingerprint does not depend on the order in which an author lists things:
  permuting the tasks of a workflow and, in each task, its dependencies, inputs and outputs
  leaves \<open>fingerprint()\<close> unchanged.\<close>
theorem fingerprint_ignores_declaration_order:
  assumes "list_all2 redeclared (wf_tasks w) tasks" "mset tasks = mset tasks'"
    and "distinct (map td_key (wf_tasks w))"
  shows "fingerprint c (w\<lparr>wf_tasks := tasks'\<rparr>) = fingerprint c w"
proof -
  have keys: "map td_key tasks = map td_key (wf_tasks w)"
    using assms(1) by (induction rule: list_all2_induct) (auto simp: redeclared_payload)
  then have "sort_key td_key tasks = sort_key td_key tasks'"
    using assms(2,3) by (intro sort_key_mset) simp_all
  moreover have "list_all2 redeclared (sort_key td_key (wf_tasks w)) (sort_key td_key tasks)"
    using assms(1) redeclared_payload(2) by (intro sort_key_list_all2) auto
  then have "mapR task_payload (sort_key td_key (wf_tasks w)) = mapR task_payload (sort_key td_key tasks)"
    by (intro mapR_list_all2) (auto simp: redeclared_payload elim!: list_all2_mono)
  ultimately show ?thesis by (simp add: fingerprint_def workflow_payload_def)
qed

theorem fingerprint_ignores_declaration_order_witness:
  "fingerprint sample_codec (sample_workflow [sample_task ''c'' [''b'', ''a''], sample_task ''b'' [], sample_task ''a'' []])
   = fingerprint sample_codec (sample_workflow [sample_task ''a'' [], sample_task ''b'' [], sample_task ''c'' [''a'', ''b'']])"
proof -
  have "fingerprint sample_codec ((sample_workflow [sample_task ''a'' [], sample_task ''b'' [], sample_task ''c'' [''a'', ''b'']])
      \<lparr>wf_tasks := [sample_task ''c'' [''b'', ''a''], sample_task ''b'' [], sample_task ''a'' []]\<rparr>)
    = fingerprint sample_codec (sample_workflow [sample_task ''a'' [], sample_task ''b'' [], sample_task ''c'' [''a'', ''b'']])"
    by (rule fingerprint_ignores_declaration_order
        [where tasks = "[sample_task ''a'' [], sample_task ''b'' [], sample_task ''c'' [''b'', ''a'']]"])
      (simp_all add: redeclared_def sample_task_def)
  then show ?thesis by (simp add: sample_workflow_def)
qed

end
