(* ===== verification/Planning.thy ===== *)
theory Planning
  imports Authoring
begin

text \<open>
  Planning (\<open>planning/_graph.py\<close>, \<open>model.py\<close>, \<open>planner.py\<close>): the dependency graph of a
  workflow, its deterministic topological layers, the \<open>ExecutionPlan\<close> value with its
  validation, and \<open>WorkflowPlanner.compile\<close>.  The layering is shown to put every task
  strictly after its dependencies and as early as possible, and compilation to succeed on
  every valid workflow whose workloads can be described.
\<close>

section \<open>The dependency graph\<close>

record dependency_graph =
  gr_task_keys :: "string list"
  gr_dependencies :: depmap
  gr_downstream :: depmap
  gr_edges :: "(string \<times> string) list"

text \<open>Append one downstream task, in the loop that builds the graph.\<close>

definition add_downstream :: "string \<times> string \<Rightarrow> depmap \<Rightarrow> depmap" where
  "add_downstream e dm = dict_set (fst e) (deps_of dm (fst e) @ [snd e]) dm"

definition graph_edges :: "string list \<Rightarrow> depmap \<Rightarrow> (string \<times> string) list" where
  "graph_edges keys deps = concat (map (\<lambda>k. map (\<lambda>d. (d, k)) (deps_of deps k)) keys)"

definition mk_dependency_graph :: "workflow_definition \<Rightarrow> dependency_graph result" where
  "mk_dependency_graph w = thenR (validate w)
     (let keys = sort (map td_key (wf_tasks w));
          deps = map (\<lambda>t. (td_key t, sort (td_dependencies t))) (wf_tasks w);
          edges = graph_edges keys deps;
          downstream = fold add_downstream edges (map (\<lambda>k. (k, [])) keys)
      in Inr \<lparr>gr_task_keys = keys, gr_dependencies = deps,
              gr_downstream = map (\<lambda>(k, vs). (k, sort vs)) downstream,
              gr_edges = sort edges\<rparr>)"

section \<open>Topological layers\<close>

type_synonym degrees = "(string, int) dict"

definition degree :: "degrees \<Rightarrow> string \<Rightarrow> int" where
  "degree deg k = (case dict_get deg k of None \<Rightarrow> 0 | Some n \<Rightarrow> n)"

text \<open>\<open>in_degree[downstream] -= 1\<close>, collecting the task when it reaches zero.\<close>

definition decrement :: "string \<Rightarrow> degrees \<times> string list \<Rightarrow> degrees \<times> string list" where
  "decrement d s = (case s of (deg, next_ready) \<Rightarrow>
     let n = degree deg d - 1
     in (dict_set d n deg, if n = 0 then next_ready @ [d] else next_ready))"

definition relax_layer :: "depmap \<Rightarrow> string list \<Rightarrow> degrees \<Rightarrow> degrees \<times> string list" where
  "relax_layer downstream layer deg =
     fold (\<lambda>k. fold decrement (deps_of downstream k)) layer (deg, [])"

definition positive :: "degrees \<Rightarrow> nat" where
  "positive deg = length (filter (\<lambda>p. 0 < snd p) deg)"

lemma positive_update:
  "positive (dict_set d n deg) + (if 0 < degree deg d then 1 else 0) =
   positive deg + (if 0 < n then 1 else 0)"
  by (induction deg) (auto simp: positive_def dict_set_def degree_def)

lemma decrement_measure:
  "decrement d (deg, nr) = (deg', nr') \<Longrightarrow> length nr' + positive deg' \<le> length nr + positive deg"
  using positive_update [of d "degree deg d - 1" deg]
  by (auto simp: decrement_def Let_def split: if_splits)

lemma decrement_fold_measure:
  "fold decrement ds (deg, nr) = (deg', nr') \<Longrightarrow>
   length nr' + positive deg' \<le> length nr + positive deg"
proof (induction ds arbitrary: deg nr)
  case (Cons d ds)
  obtain deg1 nr1 where "decrement d (deg, nr) = (deg1, nr1)" by fastforce
  with Cons show ?case using decrement_measure by fastforce
qed simp

lemma fold_concat_map: "fold (\<lambda>k. fold f (g k)) ks s = fold f (concat (map g ks)) s"
  by (induction ks arbitrary: s) simp_all

lemma relax_layer_concat:
  "relax_layer downstream layer deg = fold decrement (concat (map (deps_of downstream) layer)) (deg, [])"
  by (simp add: relax_layer_def fold_concat_map)

text \<open>The \<open>while ready\<close> loop; \<open>visited\<close> is the source's counter.\<close>

function layers_loop ::
  "depmap \<Rightarrow> string list \<Rightarrow> degrees \<Rightarrow> string list list \<Rightarrow> nat \<Rightarrow> degrees \<times> string list list \<times> nat"
  where
  "layers_loop downstream ready deg layers visited =
     (if ready = [] then (deg, layers, visited)
      else let layer = sort ready;
               (deg', next_ready) = relax_layer downstream layer deg
           in layers_loop downstream (sort next_ready) deg' (layers @ [layer])
                (visited + length layer))"
  by pat_completeness auto
termination
proof (relation "measure (\<lambda>(dm, ready, deg, layers, visited). length ready + positive deg)")
  fix dm :: depmap and ready deg layers visited layer x deg' nr
  assume "ready \<noteq> []" "layer = sort ready" "x = relax_layer dm layer deg" "(deg', nr) = x"
  then show "((dm, sort nr, deg', layers @ [layer], visited + length layer),
      dm, ready, deg, layers, visited)
      \<in> measure (\<lambda>(dm, ready, deg, layers, visited). length ready + positive deg)"
    using decrement_fold_measure [of "concat (map (deps_of dm) layer)" deg "[]" deg' nr]
    by (cases ready) (auto simp: relax_layer_concat)
qed simp

declare layers_loop.simps [simp del]

definition topological_layers :: "dependency_graph \<Rightarrow> string list list result" where
  "topological_layers g =
     (let deg = map (\<lambda>k. (k, int (length (deps_of (gr_dependencies g) k)))) (gr_task_keys g);
          ready = sort (map fst (filter (\<lambda>p. snd p = 0) deg));
          (deg', layers, visited) = layers_loop (gr_downstream g) ready deg [] 0
      in if visited \<noteq> length (gr_task_keys g)
         then Inl (ValueError (''workflow dependency topology contains a cycle involving: '' @
                join_with '', '' (sort (map fst (filter (\<lambda>p. 0 < snd p) deg')))))
         else Inr layers)"

definition topological_order :: "dependency_graph \<Rightarrow> string list result" where
  "topological_order g = bindR (topological_layers g) (\<lambda>layers. Inr (concat layers))"

section \<open>Plans\<close>

record executor_requirement =
  er_executor_key :: string
  er_workload_kind :: string
  er_portable :: bool

definition mk_executor_requirement :: "string \<Rightarrow> string \<Rightarrow> bool \<Rightarrow> executor_requirement result" where
  "mk_executor_requirement executor_key workload_kind portable =
     thenR (required_text ''executor_key'' executor_key)
    (thenR (required_text ''workload_kind'' workload_kind)
    (Inr \<lparr>er_executor_key = executor_key, er_workload_kind = workload_kind, er_portable = portable\<rparr>))"

record task_plan_entry =
  te_task :: task_definition
  te_position :: int
  te_group_index :: int
  te_requirement :: executor_requirement
  te_integrations :: "string list"

definition mk_task_plan_entry :: "task_plan_entry \<Rightarrow> task_plan_entry result" where
  "mk_task_plan_entry e =
     thenR (require (0 \<le> te_position e) (ValueError ''position must be greater than or equal to 0''))
    (thenR (require (0 \<le> te_group_index e) (ValueError ''group_index must be greater than or equal to 0''))
    (let integrations = sort (remdups (te_integrations e)) in
     thenR (require (list_all (\<lambda>i. \<not> blank i) integrations)
       (ValueError ''required integration names must not be empty''))
    (Inr (e\<lparr>te_integrations := integrations\<rparr>))))"

abbreviation te_key :: "task_plan_entry \<Rightarrow> string" where
  "te_key e \<equiv> td_key (te_task e)"

abbreviation te_dependencies :: "task_plan_entry \<Rightarrow> string list" where
  "te_dependencies e \<equiv> td_dependencies (te_task e)"

record execution_plan =
  ep_workflow_name :: string
  ep_workflow_version :: string
  ep_definition_fingerprint :: string
  ep_failure_policy :: failure_policy
  ep_tasks :: "task_plan_entry list"
  ep_topological_order :: "string list"
  ep_groups :: "string list list"
  ep_required_capabilities :: "string list"
  ep_required_integrations :: "string list"
  ep_diagnostics :: "diagnostic list"

definition entry_named :: "task_plan_entry list \<Rightarrow> string \<Rightarrow> task_plan_entry option" where
  \<comment> \<open>\<open>by_key[key]\<close>: the last entry of that key.\<close>
  "entry_named entries key = find (\<lambda>e. te_key e = key) (rev entries)"

definition check_group_indices :: "execution_plan \<Rightarrow> unit result" where
  "check_group_indices p = forR (List.enumerate 0 (ep_groups p)) (\<lambda>(i, group).
     forR group (\<lambda>key. case entry_named (ep_tasks p) key of
         None \<Rightarrow> Inl (KeyError key)
       | Some e \<Rightarrow> require (te_group_index e = int i)
           (ValueError (''task '' @ py_quote key @ '' has inconsistent group_index''))))"

definition mk_execution_plan :: "execution_plan \<Rightarrow> execution_plan result" where
  "mk_execution_plan p =
     thenR (required_text ''workflow_name'' (ep_workflow_name p))
    (thenR (required_text ''workflow_version'' (ep_workflow_version p))
    (thenR (required_text ''definition_fingerprint'' (ep_definition_fingerprint p))
    (thenR (require (ep_tasks p \<noteq> []) (ValueError ''ExecutionPlan must contain at least one task''))
    (thenR (require (distinct (map te_key (ep_tasks p)))
       (ValueError ''ExecutionPlan task keys must be unique''))
    (thenR (require (map te_position (ep_tasks p) = map int [0..<length (ep_tasks p)])
       (ValueError ''ExecutionPlan task positions must be contiguous from zero''))
    (thenR (require (ep_topological_order p = map te_key (ep_tasks p))
       (ValueError ''ExecutionPlan task order must match topological_order exactly''))
    (thenR (require (concat (ep_groups p) = ep_topological_order p)
       (ValueError ''ExecutionPlan groups must flatten to topological_order''))
    (thenR (check_group_indices p)
    (Inr (p\<lparr>ep_required_capabilities := sort (remdups (ep_required_capabilities p)),
            ep_required_integrations := sort (remdups (ep_required_integrations p))\<rparr>))))))))))"

definition plan_task :: "execution_plan \<Rightarrow> string \<Rightarrow> task_plan_entry result" where
  "plan_task p key = (case find (\<lambda>e. te_key e = key) (ep_tasks p) of
     Some e \<Rightarrow> Inr e | None \<Rightarrow> Inl (KeyError key))"

definition plan_portable :: "execution_plan \<Rightarrow> bool" where
  "plan_portable p \<longleftrightarrow> list_all (\<lambda>e. er_portable (te_requirement e)) (ep_tasks p)"

definition requirement_payload :: "executor_requirement \<Rightarrow> jval" where
  "requirement_payload r = JObj
     [(''executor_key'', JStr (er_executor_key r)), (''workload_kind'', JStr (er_workload_kind r)),
      (''portable'', JBool (er_portable r))]"

definition entry_payload :: "task_plan_entry \<Rightarrow> jval result" where
  "entry_payload e = bindR (task_payload (te_task e)) (\<lambda>task. Inr (JObj
     [(''task'', task), (''position'', JNum (PyInt (te_position e))),
      (''group_index'', JNum (PyInt (te_group_index e))),
      (''executor_requirement'', requirement_payload (te_requirement e)),
      (''required_integrations'', JArr (map JStr (te_integrations e)))]))"

definition opt_text :: "string option \<Rightarrow> jval" where
  "opt_text x = (case x of None \<Rightarrow> JNull | Some s \<Rightarrow> JStr s)"

definition diagnostic_payload :: "diagnostic \<Rightarrow> jval" where
  "diagnostic_payload d = JObj
     [(''code'', JStr (dg_code d)), (''severity'', JStr (severity_value (dg_severity d))),
      (''summary'', JStr (dg_summary d)),
      (''details'', JArr (map (\<lambda>(k, v). JArr [JStr k, JStr v]) (dg_details d))),
      (''decision_context'', opt_text (dg_decision_context d)),
      (''related_policy'', opt_text (dg_related_policy d))]"

definition plan_fingerprint :: "codec \<Rightarrow> execution_plan \<Rightarrow> string result" where
  "plan_fingerprint c p = bindR (mapR entry_payload (ep_tasks p)) (\<lambda>tasks.
     strict_digest c (JObj
       [(''workflow_name'', JStr (ep_workflow_name p)),
        (''workflow_version'', JStr (ep_workflow_version p)),
        (''definition_fingerprint'', JStr (ep_definition_fingerprint p)),
        (''failure_policy'', JStr (failure_policy_value (ep_failure_policy p))),
        (''tasks'', JArr tasks),
        (''topological_order'', JArr (map JStr (ep_topological_order p))),
        (''groups'', JArr (map (\<lambda>g. JArr (map JStr g)) (ep_groups p))),
        (''required_capabilities'', JArr (map JStr (ep_required_capabilities p))),
        (''required_integrations'', JArr (map JStr (ep_required_integrations p))),
        (''diagnostics'', JArr (map diagnostic_payload (ep_diagnostics p)))]))"

section \<open>Compilation\<close>

text \<open>\<open>payload.get("kind", "unknown")\<close>, which must be a text that is not blank.\<close>

definition payload_kind :: "pyval \<Rightarrow> string result" where
  "payload_kind payload =
     (let items = (case payload of PyMap items \<Rightarrow> items | _ \<Rightarrow> []) in
      case map_of items (KStr ''kind'') of
        None \<Rightarrow> Inr ''unknown''
      | Some (PyStr s) \<Rightarrow> (if blank s
          then Inl (ValueError ''workload fingerprint payload kind must be a non-empty string'')
          else Inr s)
      | Some v \<Rightarrow> Inl (ValueError ''workload fingerprint payload kind must be a non-empty string''))"

definition declared_executor_key :: "task_definition \<Rightarrow> string result" where
  "declared_executor_key t = (case td_workload t of
     LocalCallable m q \<Rightarrow> Inr ''inline''
   | Registered w \<Rightarrow> Inr (case rw_executor_key w of
         None \<Rightarrow> ''inline'' | Some k \<Rightarrow> (if k = [] then ''inline'' else k))
   | Descriptor d \<Rightarrow> (case wd_executor_key d of
         None \<Rightarrow> Inr ''inline''
       | Some k \<Rightarrow> thenR (require (\<not> blank k)
           (ValueError (''task '' @ py_quote (td_key t) @ '' declares an invalid executor_key''))) (Inr k)))"

definition executor_requirement_of :: "task_definition \<Rightarrow> executor_requirement result" where
  "executor_requirement_of t =
     bindR (workload_fingerprint_payload (td_workload t)) (\<lambda>payload.
     bindR (payload_kind payload) (\<lambda>kind.
     bindR (declared_executor_key t) (\<lambda>executor_key.
     mk_executor_requirement executor_key kind (task_portable t))))"

definition starts_with :: "string \<Rightarrow> string \<Rightarrow> bool" where
  "starts_with p s \<longleftrightarrow> take (length p) s = p"

definition workload_kind_of :: "workload \<Rightarrow> string" where
  "workload_kind_of w = (case w of
     LocalCallable m q \<Rightarrow> ''python_callable'' | Registered r \<Rightarrow> ''registered'' | Descriptor d \<Rightarrow> wd_kind d)"

definition integration_requirements :: "task_definition \<Rightarrow> string list result" where
  "integration_requirements t = (case td_workload t of
     LocalCallable m q \<Rightarrow> Inr []
   | w \<Rightarrow>
       let explicit = (case w of Descriptor d \<Rightarrow> wd_integration_key d | _ \<Rightarrow> None);
           kind = py_lower (workload_kind_of w) in
       thenR (require (case explicit of None \<Rightarrow> True | Some k \<Rightarrow> \<not> blank k)
         (ValueError (''task '' @ py_quote (td_key t) @ '' declares an invalid integration_key'')))
       (Inr (sort (remdups
          ((case explicit of None \<Rightarrow> [] | Some k \<Rightarrow> [k]) @
           (if starts_with ''pyingestkit'' kind then [''pyingestkit''] else []) @
           (if starts_with ''pytransformkit'' kind then [''pytransformkit''] else []))))))"

definition plan_diagnostic ::
  "string \<Rightarrow> diagnostic_severity \<Rightarrow> string \<Rightarrow> (string \<times> string) list \<Rightarrow> string \<Rightarrow> diagnostic result" where
  "plan_diagnostic code severity summary details decision_context = mk_diagnostic
     \<lparr>dg_code = code, dg_severity = severity, dg_summary = summary, dg_details = details,
      dg_workflow_run_id = None, dg_task_run_id = None, dg_task_attempt_id = None,
      dg_correlation_id = None, dg_source_component = Some ''planning'',
      dg_decision_context = Some decision_context, dg_related_policy = None,
      dg_source_framework = ''pyworkflowkit''\<rparr>"

text \<open>The accumulators of the two nested loops.\<close>

record compile_state =
  cs_entries :: "task_plan_entry list"
  cs_capabilities :: "string list"
  cs_integrations :: "string list"
  cs_diagnostics :: "diagnostic list"

definition compile_task ::
  "task_definition list \<Rightarrow> nat \<Rightarrow> string \<Rightarrow> compile_state \<Rightarrow> compile_state result" where
  "compile_task tasks group_index key cs = (case find (\<lambda>t. td_key t = key) (rev tasks) of
     None \<Rightarrow> Inl (KeyError key)
   | Some t \<Rightarrow>
     bindR (executor_requirement_of t) (\<lambda>requirement.
     bindR (integration_requirements t) (\<lambda>integrations.
     bindR (if er_portable requirement then Inr []
            else bindR (plan_diagnostic ''PWK-PLAN-PORTABILITY-001'' S_WARNING
                    ''task workload is process-local and non-portable''
                    [(''task_key'', td_key t)] ''portability'') (\<lambda>d. Inr [d])) (\<lambda>diagnostics.
     bindR (mk_task_plan_entry
              \<lparr>te_task = t, te_position = int (length (cs_entries cs)),
               te_group_index = int group_index, te_requirement = requirement,
               te_integrations = integrations\<rparr>) (\<lambda>entry.
     Inr \<lparr>cs_entries = cs_entries cs @ [entry],
          cs_capabilities = cs_capabilities cs @
            [''executor:'' @ er_executor_key requirement, ''workload:'' @ er_workload_kind requirement],
          cs_integrations = cs_integrations cs @ integrations,
          cs_diagnostics = cs_diagnostics cs @ diagnostics\<rparr>)))))"

definition compile_groups ::
  "task_definition list \<Rightarrow> string list list \<Rightarrow> compile_state \<Rightarrow> compile_state result" where
  "compile_groups tasks groups cs =
     foldR (\<lambda>(i, group). foldR (compile_task tasks i) group) (List.enumerate 0 groups) cs"

definition compile :: "codec \<Rightarrow> workflow_definition \<Rightarrow> execution_plan result" where
  "compile c w =
     thenR (validate w)
    (bindR (mk_dependency_graph w) (\<lambda>graph.
     bindR (topological_layers graph) (\<lambda>groups.
     bindR (plan_diagnostic ''PWK-PLAN-001'' S_INFO ''workflow topology validated''
              [(''task_count'', py_str_int (int (length (wf_tasks w)))),
               (''edge_count'', py_str_int (int (length (gr_edges graph))))] ''compile'') (\<lambda>first.
     bindR (compile_groups (wf_tasks w) groups
              \<lparr>cs_entries = [], cs_capabilities = [], cs_integrations = [],
               cs_diagnostics = [first]\<rparr>) (\<lambda>cs.
     bindR (fingerprint c w) (\<lambda>digest.
     mk_execution_plan
       \<lparr>ep_workflow_name = wf_name w, ep_workflow_version = wf_version w,
        ep_definition_fingerprint = digest, ep_failure_policy = wf_failure_policy w,
        ep_tasks = cs_entries cs, ep_topological_order = concat groups, ep_groups = groups,
        ep_required_capabilities = cs_capabilities cs,
        ep_required_integrations = cs_integrations cs,
        ep_diagnostics = cs_diagnostics cs\<rparr>))))))"

section \<open>The downstream index\<close>

lemma deps_of_set: "deps_of (dict_set k v dm) j = (if j = k then v else deps_of dm j)"
  by (simp add: deps_of_def dict_get_set)

lemma deps_of_add_fold:
  "deps_of (fold add_downstream es dm) d = deps_of dm d @ map snd (filter (\<lambda>e. fst e = d) es)"
  by (induction es arbitrary: dm) (auto simp: add_downstream_def deps_of_set)

lemma deps_of_map_sort: "deps_of (map (\<lambda>(k, vs). (k, sort vs)) dm) d = sort (deps_of dm d)"
  by (induction dm) (auto simp: deps_of_def)

lemma deps_of_const_empty: "deps_of (map (\<lambda>k. (k, [])) keys) d = []"
  by (induction keys) (auto simp: deps_of_def)

lemma graph_edges_set:
  "(d, k) \<in> set (graph_edges keys deps) \<longleftrightarrow> k \<in> set keys \<and> d \<in> set (deps_of deps k)"
  by (auto simp: graph_edges_def)

lemma graph_edges_distinct:
  assumes "distinct keys" "\<And>k. k \<in> set keys \<Longrightarrow> distinct (deps_of deps k)"
  shows "distinct (graph_edges keys deps)"
  using assms
proof (induction keys)
  case (Cons k keys)
  have "distinct (map (\<lambda>d. (d, k)) (deps_of deps k))"
    using Cons.prems(2) by (auto simp: distinct_map inj_on_def)
  moreover have "set (map (\<lambda>d. (d, k)) (deps_of deps k)) \<inter> set (graph_edges keys deps) = {}"
    using Cons.prems(1) graph_edges_set [of _ k keys deps] by auto
  ultimately show ?case using Cons by (simp add: graph_edges_def)
qed (simp add: graph_edges_def)

lemma deps_of_sorted_index:
  assumes "distinct (map td_key tasks)" "t \<in> set tasks"
  shows "deps_of (map (\<lambda>t. (td_key t, sort (td_dependencies t))) tasks) (td_key t) = sort (td_dependencies t)"
proof -
  have "dict_get (map (\<lambda>t. (td_key t, sort (td_dependencies t))) tasks) (td_key t) = Some (sort (td_dependencies t))"
    using assms by (subst dict_get_iff) (auto simp: dict_ok_def comp_def)
  then show ?thesis by (simp add: deps_of_def)
qed

text \<open>What the planner relies on: \<open>downstream_of\<close> inverts \<open>dependencies_of\<close>.\<close>

definition graph_of :: "task_definition list \<Rightarrow> dependency_graph \<Rightarrow> bool" where
  "graph_of tasks g \<longleftrightarrow>
     gr_task_keys g = sort (map td_key tasks) \<and> distinct (map td_key tasks) \<and>
     (\<forall>t \<in> set tasks. deps_of (gr_dependencies g) (td_key t) = sort (td_dependencies t) \<and>
        distinct (td_dependencies t)) \<and>
     (\<forall>d. distinct (deps_of (gr_downstream g) d) \<and>
        set (deps_of (gr_downstream g) d) = {k. (d, k) \<in> dep_edges tasks})"

lemma mk_dependency_graph_correct:
  assumes "distinct (map td_key (wf_tasks w))" "\<forall>t \<in> set (wf_tasks w). distinct (td_dependencies t)"
    and "mk_dependency_graph w = Inr g"
  shows "graph_of (wf_tasks w) g"
proof -
  let ?keys = "sort (map td_key (wf_tasks w))"
  let ?deps = "map (\<lambda>t. (td_key t, sort (td_dependencies t))) (wf_tasks w)"
  let ?edges = "graph_edges ?keys ?deps"
  have g: "gr_task_keys g = ?keys" "gr_dependencies g = ?deps"
    "gr_downstream g = map (\<lambda>(k, vs). (k, sort vs)) (fold add_downstream ?edges (map (\<lambda>k. (k, [])) ?keys))"
    using assms(3) by (auto simp: mk_dependency_graph_def thenR_Inr_iff Let_def)
  note idx = deps_of_sorted_index [OF assms(1)]
  have down: "deps_of (gr_downstream g) d = sort (map snd (filter (\<lambda>e. fst e = d) ?edges))" for d
    by (simp add: g(3) deps_of_map_sort deps_of_add_fold deps_of_const_empty)
  have "distinct ?edges"
    using assms(1,2) idx by (intro graph_edges_distinct) auto
  then have dist: "distinct (map snd (filter (\<lambda>e. fst e = d) ?edges))" for d
    by (auto simp: distinct_map inj_on_def prod_eq_iff)
  have edges: "(d, k) \<in> set ?edges \<longleftrightarrow> (d, k) \<in> dep_edges (wf_tasks w)" for d k
    using idx by (auto simp: graph_edges_set dep_edges_def)
  have "set (map snd (filter (\<lambda>e. fst e = d) ?edges)) = {k. (d, k) \<in> dep_edges (wf_tasks w)}" for d
    unfolding edges [symmetric] by force
  then show ?thesis
    using assms(1,2) idx dist by (simp add: graph_of_def g(1,2) down)
qed

section \<open>What the layers are\<close>

lemma degree_set: "degree (dict_set k n deg) j = (if j = k then n else degree deg j)"
  by (simp add: degree_def dict_get_set)

lemma decrement_fold:
  "fold decrement ds (deg, nr) = (deg', nr') \<Longrightarrow>
   (\<forall>k. degree deg' k = degree deg k - int (count_list ds k)) \<and>
   set nr' = set nr \<union> {k. 1 \<le> degree deg k \<and> degree deg k \<le> int (count_list ds k)} \<and>
   (distinct nr \<and> (\<forall>k \<in> set nr. degree deg k \<le> 0) \<longrightarrow> distinct nr')"
proof (induction ds arbitrary: deg nr)
  case (Cons d ds)
  obtain deg1 nr1 where one: "decrement d (deg, nr) = (deg1, nr1)" by fastforce
  have d1: "degree deg1 k = (if k = d then degree deg d - 1 else degree deg k)" for k
    using one by (auto simp: decrement_def Let_def degree_set)
  have n1: "nr1 = (if degree deg d = 1 then nr @ [d] else nr)"
    using one by (auto simp: decrement_def Let_def)
  have rest: "fold decrement ds (deg1, nr1) = (deg', nr')" using Cons.prems one by simp
  note IH = Cons.IH [OF rest]
  have deg': "\<forall>k. degree deg' k = degree deg k - int (count_list (d # ds) k)"
    using IH d1 by auto
  have "set nr' = set nr \<union> {k. 1 \<le> degree deg k \<and> degree deg k \<le> int (count_list (d # ds) k)}"
    using IH d1 n1 by (auto split: if_splits)
  moreover have "distinct nr'" if "distinct nr" "\<forall>k \<in> set nr. degree deg k \<le> 0"
  proof -
    have "d \<notin> set nr" if "degree deg d = 1" using that \<open>\<forall>k \<in> set nr. degree deg k \<le> 0\<close> by force
    then show ?thesis using IH d1 n1 that by (auto split: if_splits)
  qed
  ultimately show ?case using deg' by blast
qed auto

lemma count_list_distinct: "distinct xs \<Longrightarrow> count_list xs k = (if k \<in> set xs then 1 else 0)"
  by (induction xs) auto

lemma count_concat_map:
  assumes "distinct layer" "\<And>d. distinct (f d)"
  shows "count_list (concat (map f layer)) k = card {d \<in> set layer. k \<in> set (f d)}"
  using assms(1)
proof (induction layer)
  case (Cons d layer)
  have "{x \<in> set (d # layer). k \<in> set (f x)} =
      (if k \<in> set (f d) then insert d {x \<in> set layer. k \<in> set (f x)} else {x \<in> set layer. k \<in> set (f x)})"
    by auto
  then show ?case using Cons assms(2) by (simp add: count_list_distinct)
qed simp

text \<open>
  After some rounds, \<open>V\<close> is the set of tasks in the layers built so far: it is downward
  closed, every remaining degree counts the dependencies outside \<open>V\<close>, and the ready tasks are
  exactly those outside \<open>V\<close> whose dependencies are all in \<open>V\<close>.
\<close>

definition next_layer :: "task_definition list \<Rightarrow> string set \<Rightarrow> string set" where
  "next_layer tasks V = {k \<in> td_key ` set tasks. dep_set tasks k \<subseteq> V} - V"

definition layers_inv ::
  "task_definition list \<Rightarrow> string list \<Rightarrow> degrees \<Rightarrow> string list list \<Rightarrow> nat \<Rightarrow> bool" where
  "layers_inv tasks ready deg layers visited \<longleftrightarrow>
     (let K = td_key ` set tasks; V = set (concat layers) in
      (\<forall>k \<in> K. degree deg k = int (card (dep_set tasks k - V))) \<and>
      (\<forall>k. k \<notin> K \<longrightarrow> degree deg k \<le> 0) \<and>
      V \<subseteq> K \<and> (\<forall>k \<in> V. dep_set tasks k \<subseteq> V) \<and>
      distinct (concat layers) \<and> distinct ready \<and> set ready = next_layer tasks V \<and>
      visited = length (concat layers) \<and> (\<forall>l \<in> set layers. sorted l) \<and>
      (\<forall>i < length layers. set (layers ! i) = next_layer tasks (set (concat (take i layers)))))"

lemma finite_dep_set: "finite (dep_set tasks k)"
proof -
  have "dep_set tasks k \<subseteq> (\<Union>t \<in> set tasks. set (td_dependencies t))"
    by (auto simp: dep_set_def dep_edges_def)
  then show ?thesis by (rule finite_subset) simp
qed

lemma layers_step:
  assumes g: "graph_of tasks g"
    and inv: "layers_inv tasks ready deg layers visited"
    and relax: "relax_layer (gr_downstream g) (sort ready) deg = (deg', next_ready)"
  shows "layers_inv tasks (sort next_ready) deg' (layers @ [sort ready]) (visited + length (sort ready))"
proof -
  let ?K = "td_key ` set tasks" and ?V = "set (concat layers)" and ?L = "set ready"
  let ?W = "?V \<union> ?L"
  from inv have deg: "\<And>k. k \<in> ?K \<Longrightarrow> degree deg k = int (card (dep_set tasks k - ?V))"
    and deg0: "\<And>k. k \<notin> ?K \<Longrightarrow> degree deg k \<le> 0"
    and V: "?V \<subseteq> ?K" "\<And>k. k \<in> ?V \<Longrightarrow> dep_set tasks k \<subseteq> ?V"
    and dist: "distinct (concat layers)" "distinct ready"
    and ready: "?L = next_layer tasks ?V"
    and layers: "\<forall>i < length layers. set (layers ! i) = next_layer tasks (set (concat (take i layers)))"
    and misc: "visited = length (concat layers)" "\<forall>l \<in> set layers. sorted l"
    unfolding layers_inv_def Let_def by blast+
  have LK: "?L \<subseteq> ?K" "?L \<inter> ?V = {}" "\<And>k. k \<in> ?L \<Longrightarrow> dep_set tasks k \<subseteq> ?V"
    using ready by (auto simp: next_layer_def)
  have count: "count_list (concat (map (deps_of (gr_downstream g)) (sort ready))) k =
      card (dep_set tasks k \<inter> ?L)" for k
  proof -
    have "{d \<in> set (sort ready). k \<in> set (deps_of (gr_downstream g) d)} = dep_set tasks k \<inter> ?L"
      using g by (auto simp: graph_of_def dep_set_def)
    then show ?thesis
      using g dist(2) by (subst count_concat_map) (auto simp: graph_of_def)
  qed
  have no_edge: "dep_set tasks k = {}" if "k \<notin> ?K" for k
    using that by (auto simp: dep_set_def dep_edges_def)
  note fold = decrement_fold [OF relax [unfolded relax_layer_concat], unfolded count]
  have split: "dep_set tasks k - ?V = (dep_set tasks k - ?W) \<union> (dep_set tasks k \<inter> ?L)"
    "(dep_set tasks k - ?W) \<inter> (dep_set tasks k \<inter> ?L) = {}" for k
    using LK(2) by auto
  have card: "card (dep_set tasks k - ?V) = card (dep_set tasks k - ?W) + card (dep_set tasks k \<inter> ?L)" for k
    using split finite_dep_set [of tasks k] by (metis card_Un_disjoint finite_Diff finite_Int)
  have deg': "degree deg' k = int (card (dep_set tasks k - ?W))" if "k \<in> ?K" for k
    using fold deg [OF that] card [of k] by simp
  have deg0': "degree deg' k \<le> 0" if "k \<notin> ?K" for k
    using fold deg0 [OF that] no_edge [OF that] by simp
  have new: "set next_ready = next_layer tasks ?W"
  proof (rule set_eqI)
    fix k
    have "k \<in> set next_ready \<longleftrightarrow> 1 \<le> degree deg k \<and> degree deg k \<le> int (card (dep_set tasks k \<inter> ?L))"
      using fold by auto
    also have "\<dots> \<longleftrightarrow> k \<in> ?K \<and> 1 \<le> card (dep_set tasks k - ?V) \<and> card (dep_set tasks k - ?W) = 0"
      using deg [of k] deg0 [of k] card [of k] by (cases "k \<in> ?K") auto
    also have "\<dots> \<longleftrightarrow> k \<in> ?K \<and> \<not> dep_set tasks k \<subseteq> ?V \<and> dep_set tasks k \<subseteq> ?W"
      using finite_dep_set [of tasks k] by (auto simp: Suc_le_eq card_gt_0_iff)
    also have "\<dots> \<longleftrightarrow> k \<in> next_layer tasks ?W"
      using V(2) LK(3) ready by (auto simp: next_layer_def)
    finally show "k \<in> set next_ready \<longleftrightarrow> k \<in> next_layer tasks ?W" .
  qed
  have "distinct next_ready" using fold by simp
  moreover have "set (concat (layers @ [sort ready])) = ?W" by simp
  moreover have "\<forall>i < length (layers @ [sort ready]). set ((layers @ [sort ready]) ! i) =
      next_layer tasks (set (concat (take i (layers @ [sort ready]))))"
    using layers ready by (auto simp: nth_append less_Suc_eq)
  moreover have "\<forall>k \<in> ?W. dep_set tasks k \<subseteq> ?W" using V(2) LK(3) by blast
  moreover have "distinct (concat (layers @ [sort ready]))" using dist LK(2) by auto
  moreover have "\<forall>l \<in> set (layers @ [sort ready]). sorted l" using misc(2) by simp
  ultimately show ?thesis
    unfolding layers_inv_def Let_def using deg' deg0' new V(1) LK(1) misc(1)
    by (simp only: Un_subset_iff set_sort distinct_sort) simp
qed

lemma layers_loop_inv:
  assumes "graph_of tasks g" "layers_inv tasks ready deg layers visited"
    and "layers_loop (gr_downstream g) ready deg layers visited = (deg', layers', visited')"
  shows "layers_inv tasks [] deg' layers' visited'"
  using assms(2,3)
proof (induction "gr_downstream g" ready deg layers visited rule: layers_loop.induct)
  case (1 ready deg layers visited)
  obtain deg1 nr where relax: "relax_layer (gr_downstream g) (sort ready) deg = (deg1, nr)" by fastforce
  show ?case
  proof (cases "ready = []")
    case True
    with 1 show ?thesis by (simp add: layers_loop.simps)
  next
    case False
    have "layers_loop (gr_downstream g) (sort nr) deg1 (layers @ [sort ready])
        (visited + length (sort ready)) = (deg', layers', visited')"
      using 1(3) False relax by (subst (asm) layers_loop.simps) simp
    from 1(1) [OF False refl relax [symmetric] refl layers_step [OF assms(1) 1(2) relax] this]
    show ?thesis .
  qed
qed

lemma filter_zero_degree:
  "map fst (filter (\<lambda>p. snd p = 0) (map (\<lambda>k. (k, n k)) ks)) = filter (\<lambda>k. n k = 0) ks"
  by (induction ks) simp_all

lemma layers_start:
  assumes "graph_of tasks g"
  shows "layers_inv tasks
    (sort (map fst (filter (\<lambda>p. snd p = 0)
       (map (\<lambda>k. (k, int (length (deps_of (gr_dependencies g) k)))) (gr_task_keys g)))))
    (map (\<lambda>k. (k, int (length (deps_of (gr_dependencies g) k)))) (gr_task_keys g)) [] 0"
proof -
  let ?K = "td_key ` set tasks"
  let ?n = "\<lambda>k. int (length (deps_of (gr_dependencies g) k))"
  let ?deg = "map (\<lambda>k. (k, ?n k)) (gr_task_keys g)"
  from assms have keys: "set (gr_task_keys g) = ?K" "distinct (gr_task_keys g)"
    and dist: "distinct (map td_key tasks)" and deps: "\<And>t. t \<in> set tasks \<Longrightarrow>
      deps_of (gr_dependencies g) (td_key t) = sort (td_dependencies t) \<and> distinct (td_dependencies t)"
    by (auto simp: graph_of_def)
  have n: "?n k = int (card (dep_set tasks k))" if "k \<in> ?K" for k
    using that deps dist by (auto simp: dep_set_task distinct_card)
  have degree: "degree ?deg k = (if k \<in> ?K then ?n k else 0)" for k
    unfolding degree_def keys(1) [symmetric] by (auto simp: map_of_map_restrict)
  have "set (map fst (filter (\<lambda>p. snd p = 0) ?deg)) = {k \<in> ?K. ?n k = 0}"
    using keys(1) by (simp only: filter_zero_degree set_filter)
  also have "\<dots> = {k \<in> ?K. dep_set tasks k = {}}"
  proof -
    have "?n k = 0 \<longleftrightarrow> dep_set tasks k = {}" if "k \<in> ?K" for k
      using n [OF that] finite_dep_set [of tasks k] by simp
    then show ?thesis by blast
  qed
  also have "\<dots> = next_layer tasks {}"
    by (auto simp: next_layer_def)
  finally have ready: "set (map fst (filter (\<lambda>p. snd p = 0) ?deg)) = next_layer tasks {}" .
  have "distinct (map fst (filter (\<lambda>p. snd p = 0) ?deg))"
    using keys(2) by (intro distinct_map_filter) (simp add: comp_def)
  then show ?thesis
    using degree n ready by (auto simp: layers_inv_def)
qed

text \<open>A correct layering: every task is in the first layer in which its dependencies allow it.\<close>

definition layering :: "task_definition list \<Rightarrow> string list list \<Rightarrow> bool" where
  "layering tasks layers \<longleftrightarrow>
     distinct (concat layers) \<and> set (concat layers) = td_key ` set tasks \<and>
     (\<forall>l \<in> set layers. sorted l) \<and>
     (\<forall>i < length layers. \<forall>k \<in> set (layers ! i). dep_set tasks k \<subseteq> set (concat (take i layers))) \<and>
     (\<forall>i < length layers. 0 < i \<longrightarrow>
        (\<forall>k \<in> set (layers ! i). dep_set tasks k \<inter> set (layers ! (i - 1)) \<noteq> {}))"

lemma topological_layers_correct:
  assumes g: "graph_of tasks g" and known: "deps_known tasks" and acyclic: "acyclic (dep_edges tasks)"
  shows "\<exists>layers. topological_layers g = Inr layers \<and> layering tasks layers"
proof -
  let ?K = "td_key ` set tasks"
  let ?deg = "map (\<lambda>k. (k, int (length (deps_of (gr_dependencies g) k)))) (gr_task_keys g)"
  obtain deg' layers visited where loop: "layers_loop (gr_downstream g)
      (sort (map fst (filter (\<lambda>p. snd p = 0) ?deg))) ?deg [] 0 = (deg', layers, visited)"
    by (cases "layers_loop (gr_downstream g)
      (sort (map fst (filter (\<lambda>p. snd p = 0) ?deg))) ?deg [] 0") auto
  note inv = layers_loop_inv [OF g layers_start [OF g] loop]
  let ?V = "set (concat layers)"
  have V: "?V \<subseteq> ?K" "\<forall>k \<in> ?V. dep_set tasks k \<subseteq> ?V" "distinct (concat layers)"
    and none: "next_layer tasks ?V = {}"
    and visited: "visited = length (concat layers)" and sorted: "\<forall>l \<in> set layers. sorted l"
    and nth: "\<forall>i < length layers. set (layers ! i) = next_layer tasks (set (concat (take i layers)))"
    using inv unfolding layers_inv_def Let_def by auto
  have closed: "?V = {k \<in> ?K. dep_set tasks k \<subseteq> ?V}"
    using V(1,2) none unfolding next_layer_def by blast
  have "?V = ?K"
    by (rule acyclic_closed_set [where D = "dep_set tasks", OF _ _ _ closed])
      (use acyclic dep_set_known [OF known] dep_edges_alt [of tasks] in simp_all)
  have "length (gr_task_keys g) = card ?K"
    using g by (metis card_set distinct_card distinct_sort graph_of_def length_map length_sort set_map)
  also have "\<dots> = length (concat layers)"
    using \<open>?V = ?K\<close> V(3) distinct_card by fastforce
  finally have "topological_layers g = Inr layers"
    using loop visited by (simp add: topological_layers_def Let_def)
  moreover have "dep_set tasks k \<inter> set (layers ! (i - 1)) \<noteq> {}"
    if i: "i < length layers" "0 < i" and k: "k \<in> set (layers ! i)" for i k
  proof
    let ?P = "set (concat (take (i - 1) layers))"
    assume none: "dep_set tasks k \<inter> set (layers ! (i - 1)) = {}"
    have take: "set (concat (take i layers)) = ?P \<union> set (layers ! (i - 1))"
      using i by (cases i) (auto simp: take_Suc_conv_app_nth)
    have k': "k \<in> ?K" "dep_set tasks k \<subseteq> set (concat (take i layers))" "k \<notin> set (concat (take i layers))"
      using nth i(1) k by (auto simp: next_layer_def)
    then have "dep_set tasks k \<subseteq> ?P" "k \<notin> ?P" using none take by auto
    then have "k \<in> next_layer tasks ?P" using k'(1) by (simp add: next_layer_def)
    then have "k \<in> set (layers ! (i - 1))" using nth i by simp
    then show False using k'(3) take by blast
  qed
  then have "layering tasks layers"
    using V(3) \<open>?V = ?K\<close> sorted nth by (auto simp: layering_def next_layer_def)
  ultimately show ?thesis by blast
qed

section \<open>What compilation guarantees\<close>

lemma foldR_append: "foldR f (xs @ ys) a = bindR (foldR f xs a) (foldR f ys)"
  by (induction xs arbitrary: a) (auto simp: bindR_def split: sum.splits)

text \<open>A task that the planner can describe: its requirement and integrations are computed.\<close>

definition describable :: "task_definition \<Rightarrow> bool" where
  "describable t \<longleftrightarrow> \<not> blank (td_key t) \<and> (\<exists>r. executor_requirement_of t = Inr r) \<and>
     (\<exists>ins. integration_requirements t = Inr ins)"

definition entry_for :: "task_definition list \<Rightarrow> nat \<Rightarrow> string \<Rightarrow> task_plan_entry \<Rightarrow> bool" where
  "entry_for tasks i key e \<longleftrightarrow> te_task e \<in> set tasks \<and> te_key e = key \<and> te_group_index e = int i \<and>
     executor_requirement_of (te_task e) = Inr (te_requirement e)"

lemma find_rev_key:
  assumes "distinct (map td_key tasks)" "t \<in> set tasks"
  shows "find (\<lambda>t'. td_key t' = td_key t) (rev tasks) = Some t"
proof -
  obtain u where u: "find (\<lambda>t'. td_key t' = td_key t) (rev tasks) = Some u"
    using assms(2) by (cases "find (\<lambda>t'. td_key t' = td_key t) (rev tasks)")
      (auto simp: find_None_iff)
  then have "u \<in> set tasks" "td_key u = td_key t"
    by (auto simp: find_Some_iff) (metis length_rev nth_mem set_rev)
  then show ?thesis using u assms by (auto simp: distinct_map dest: inj_onD)
qed

lemma compile_task_Inr:
  assumes "compile_task tasks i key cs = Inr cs'"
  shows "\<exists>e. cs_entries cs' = cs_entries cs @ [e] \<and> entry_for tasks i key e \<and>
    te_position e = int (length (cs_entries cs))"
proof -
  from assms obtain t where t: "find (\<lambda>t. td_key t = key) (rev tasks) = Some t"
    by (auto simp: compile_task_def split: option.splits)
  then have "t \<in> set tasks" "td_key t = key"
    by (auto simp: find_Some_iff) (metis length_rev nth_mem set_rev)
  with assms t show ?thesis
    by (auto simp: compile_task_def bindR_Inr_iff thenR_Inr_iff mk_task_plan_entry_def Let_def entry_for_def)
qed

lemma compile_group_Inr:
  "foldR (compile_task tasks i) grp cs = Inr cs' \<Longrightarrow>
   \<exists>es. cs_entries cs' = cs_entries cs @ es \<and> list_all2 (entry_for tasks i) grp es \<and>
     map te_position es = map int [length (cs_entries cs)..<length (cs_entries cs')]"
proof (induction grp arbitrary: cs)
  case (Cons key grp)
  from Cons.prems obtain cs1 where one: "compile_task tasks i key cs = Inr cs1"
    and rest: "foldR (compile_task tasks i) grp cs1 = Inr cs'"
    by (auto simp: bindR_Inr_iff)
  from compile_task_Inr [OF one] obtain e where e: "cs_entries cs1 = cs_entries cs @ [e]"
    "entry_for tasks i key e" "te_position e = int (length (cs_entries cs))" by blast
  from Cons.IH [OF rest] obtain es where es: "cs_entries cs' = cs_entries cs1 @ es"
    "list_all2 (entry_for tasks i) grp es"
    "map te_position es = map int [length (cs_entries cs1)..<length (cs_entries cs')]" by blast
  have "[length (cs_entries cs)..<length (cs_entries cs')] =
      length (cs_entries cs) # [length (cs_entries cs1)..<length (cs_entries cs')]"
    using e(1) es(1) by (simp add: upt_rec)
  with e es show ?case by (intro exI [of _ "e # es"]) simp
qed simp

lemma compile_groups_Inr:
  "foldR (\<lambda>(i, grp). foldR (compile_task tasks i) grp) (List.enumerate n groups) cs = Inr cs' \<Longrightarrow>
   \<exists>ess. cs_entries cs' = cs_entries cs @ concat ess \<and> length ess = length groups \<and>
     (\<forall>j < length groups. list_all2 (entry_for tasks (n + j)) (groups ! j) (ess ! j)) \<and>
     map te_position (concat ess) = map int [length (cs_entries cs)..<length (cs_entries cs')]"
proof (induction groups arbitrary: n cs)
  case (Cons grp groups)
  from Cons.prems obtain cs1 where one: "foldR (compile_task tasks n) grp cs = Inr cs1"
    and rest: "foldR (\<lambda>(i, grp). foldR (compile_task tasks i) grp) (List.enumerate (Suc n) groups) cs1 = Inr cs'"
    by (auto simp: bindR_Inr_iff)
  from compile_group_Inr [OF one] obtain es where es: "cs_entries cs1 = cs_entries cs @ es"
    "list_all2 (entry_for tasks n) grp es"
    "map te_position es = map int [length (cs_entries cs)..<length (cs_entries cs1)]" by blast
  from Cons.IH [OF rest] obtain ess where ess: "cs_entries cs' = cs_entries cs1 @ concat ess"
    "length ess = length groups"
    "\<forall>j < length groups. list_all2 (entry_for tasks (Suc n + j)) (groups ! j) (ess ! j)"
    "map te_position (concat ess) = map int [length (cs_entries cs1)..<length (cs_entries cs')]" by blast
  have "[length (cs_entries cs)..<length (cs_entries cs')] =
      [length (cs_entries cs)..<length (cs_entries cs1)] @ [length (cs_entries cs1)..<length (cs_entries cs')]"
    using es(1) ess(1) by (metis le_add1 length_append upt_add_eq_append le_iff_add)
  moreover have "\<forall>j < length (grp # groups).
      list_all2 (entry_for tasks (n + j)) ((grp # groups) ! j) ((es # ess) ! j)"
    using es(2) ess(3) by (auto simp: less_Suc_eq_0_disj)
  ultimately show ?case
    using es(1,3) ess(1,2,4) by (intro exI [of _ "es # ess"]) simp
qed simp

lemma compile_task_total:
  assumes "distinct (map td_key tasks)" "t \<in> set tasks" "describable t"
    and "\<And>ins. integration_requirements t = Inr ins \<Longrightarrow> list_all (\<lambda>i. \<not> blank i) ins"
  shows "\<exists>cs'. compile_task tasks i (td_key t) cs = Inr cs'"
proof -
  from assms(3) obtain r ins where r: "executor_requirement_of t = Inr r"
    "integration_requirements t = Inr ins" "\<not> blank (td_key t)" by (auto simp: describable_def)
  have "\<exists>d. plan_diagnostic ''PWK-PLAN-PORTABILITY-001'' S_WARNING
      ''task workload is process-local and non-portable'' [(''task_key'', td_key t)] ''portability'' = Inr d"
    by (simp add: plan_diagnostic_def mk_diagnostic_def diagnostic_post_init_def optional_text_def
        required_text_def blank_def py_isspace_def Let_def require_def)
  then show ?thesis
    using r assms(4) [OF r(2)] find_rev_key [OF assms(1,2)]
    by (auto simp: compile_task_def mk_task_plan_entry_def Let_def require_def list_all_iff)
qed

lemma kit_names_not_blank: "\<not> blank ''pyingestkit''" "\<not> blank ''pytransformkit''"
  by code_simp+

lemma integrations_not_blank:
  "integration_requirements t = Inr ins \<Longrightarrow> list_all (\<lambda>i. \<not> blank i) ins"
  unfolding integration_requirements_def Let_def
  by (cases "td_workload t")
    (auto simp: thenR_Inr_iff list_all_iff kit_names_not_blank split: option.splits if_splits)

lemma list_all2_left: "list_all2 P xs ys \<Longrightarrow> x \<in> set xs \<Longrightarrow> \<exists>y \<in> set ys. P x y"
  by (induction rule: list_all2_induct) auto

lemma list_all2_right: "list_all2 P xs ys \<Longrightarrow> y \<in> set ys \<Longrightarrow> \<exists>x \<in> set xs. P x y"
  by (induction rule: list_all2_induct) auto

lemma compile_group_total:
  assumes "distinct (map td_key tasks)" "\<forall>t \<in> set tasks. describable t"
    and "set grp \<subseteq> td_key ` set tasks"
  shows "\<exists>cs'. foldR (compile_task tasks i) grp cs = Inr cs'"
  using assms(3)
proof (induction grp arbitrary: cs)
  case (Cons key grp)
  then obtain t where "t \<in> set tasks" "td_key t = key" by auto
  with compile_task_total [OF assms(1)] assms(2) integrations_not_blank
  obtain cs1 where "compile_task tasks i key cs = Inr cs1" by metis
  with Cons show ?case by simp
qed simp

lemma compile_groups_total:
  assumes "distinct (map td_key tasks)" "\<forall>t \<in> set tasks. describable t"
    and "set (concat groups) \<subseteq> td_key ` set tasks"
  shows "\<exists>cs'. foldR (\<lambda>(i, grp). foldR (compile_task tasks i) grp) (List.enumerate n groups) cs = Inr cs'"
  using assms(3)
proof (induction groups arbitrary: n cs)
  case (Cons grp groups)
  then obtain cs1 where "foldR (compile_task tasks n) grp cs = Inr cs1"
    using compile_group_total [OF assms(1,2), of grp n cs] by auto
  moreover obtain cs2 where "foldR (\<lambda>(i, grp). foldR (compile_task tasks i) grp)
      (List.enumerate (Suc n) groups) cs1 = Inr cs2"
    using Cons by fastforce
  ultimately show ?case by simp
qed simp

text \<open>The groups carry their keys and indices into the entries.\<close>

lemma entries_of_groups:
  assumes "length ess = length groups"
    "\<forall>j < length groups. list_all2 (entry_for tasks j) (groups ! j) (ess ! j)"
  shows "map te_key (concat ess) = concat groups"
    and "\<forall>j < length groups. \<forall>e \<in> set (ess ! j). te_group_index e = int j \<and> te_key e \<in> set (groups ! j)"
proof -
  have keys: "map te_key es = grp" if "list_all2 (entry_for tasks j) grp es" for j grp es
    using that by (induction rule: list_all2_induct) (auto simp: entry_for_def)
  have "map (map te_key) ess = groups"
  proof (rule nth_equalityI)
    fix j assume "j < length (map (map te_key) ess)"
    then show "map (map te_key) ess ! j = groups ! j"
      using assms keys [of j "groups ! j" "ess ! j"] by simp
  qed (use assms in simp)
  then show "map te_key (concat ess) = concat groups"
    by (metis map_concat)
  show "\<forall>j < length groups. \<forall>e \<in> set (ess ! j). te_group_index e = int j \<and> te_key e \<in> set (groups ! j)"
  proof (intro allI impI ballI)
    fix j e assume "j < length groups" "e \<in> set (ess ! j)"
    moreover from this assms(2) have "list_all2 (entry_for tasks j) (groups ! j) (ess ! j)" by blast
    ultimately show "te_group_index e = int j \<and> te_key e \<in> set (groups ! j)"
      by (auto simp: entry_for_def dest!: list_all2_right)
  qed
qed

lemma check_group_indices_ok:
  assumes "distinct (map te_key (ep_tasks p))" "ep_tasks p = concat ess" "length ess = length (ep_groups p)"
    "\<forall>j < length (ep_groups p). list_all2 (entry_for tasks j) (ep_groups p ! j) (ess ! j)"
  shows "check_group_indices p = Inr ()"
proof -
  have "(case entry_named (ep_tasks p) key of None \<Rightarrow> Inl (KeyError key)
       | Some e \<Rightarrow> require (te_group_index e = int j)
           (ValueError (''task '' @ py_quote key @ '' has inconsistent group_index''))) = Inr ()"
    if j: "j < length (ep_groups p)" and key: "key \<in> set (ep_groups p ! j)" for j key
  proof -
    have keys: "list_all2 (entry_for tasks j) (ep_groups p ! j) (ess ! j)" using assms(4) j by blast
    then obtain e where e: "e \<in> set (ess ! j)" "te_key e = key" "te_group_index e = int j"
      using list_all2_left [OF keys key] by (auto simp: entry_for_def)
    then have in_tasks: "e \<in> set (ep_tasks p)" using assms(2,3) j by auto
    obtain e' where e': "entry_named (ep_tasks p) key = Some e'"
      using in_tasks e(2) by (cases "entry_named (ep_tasks p) key")
        (auto simp: entry_named_def find_None_iff)
    then have "e' \<in> set (ep_tasks p)" "te_key e' = key"
      by (auto simp: entry_named_def find_Some_iff) (metis length_rev nth_mem set_rev)
    then have "e' = e" using assms(1) in_tasks e(2) by (auto simp: distinct_map dest: inj_onD)
    then show ?thesis using e' e(3) by simp
  qed
  then show ?thesis
    by (auto simp: check_group_indices_def forR_Inr_iff in_set_enumerate_eq)
qed

definition ready_workflow :: "workflow_definition \<Rightarrow> bool" where
  "ready_workflow w \<longleftrightarrow> valid_workflow w \<and>
     (\<forall>t \<in> set (wf_tasks w). distinct (td_dependencies t) \<and> describable t)"

lemma plan_diagnostic_topology:
  "\<exists>d. plan_diagnostic ''PWK-PLAN-001'' S_INFO ''workflow topology validated'' details ''compile'' = Inr d"
  by (simp add: plan_diagnostic_def mk_diagnostic_def diagnostic_post_init_def optional_text_def
      required_text_def blank_def py_isspace_def Let_def require_def)

lemma mk_graph_total:
  assumes "valid_workflow w"
  shows "validate w = Inr ()" and "\<exists>g. mk_dependency_graph w = Inr g"
proof -
  show v: "validate w = Inr ()"
    using assms validate_Inr_iff [of w "()"] by (simp add: valid_workflow_def)
  show "\<exists>g. mk_dependency_graph w = Inr g" by (simp add: mk_dependency_graph_def v Let_def)
qed

lemma fingerprint_not_blank: "fingerprint c w = Inr digest \<Longrightarrow> \<not> blank digest"
  by (auto simp: fingerprint_def strict_digest_def canonical_json_digest_def bindR_Inr_iff
      thenR_Inr_iff blank_def py_isspace_def)

lemma compile_succeeds:
  assumes "ready_workflow w" "fingerprint c w = Inr digest"
  shows "\<exists>p. compile c w = Inr p \<and> ep_definition_fingerprint p = digest"
proof -
  let ?tasks = "wf_tasks w"
  from assms(1) have valid: "valid_workflow w" and
    tasks: "\<forall>t \<in> set ?tasks. distinct (td_dependencies t)" "\<forall>t \<in> set ?tasks. describable t"
    and wf: "distinct (map td_key ?tasks)" "deps_known ?tasks" "acyclic (dep_edges ?tasks)"
      "?tasks \<noteq> []" "\<not> blank (wf_name w)" "\<not> blank (wf_version w)"
    by (auto simp: ready_workflow_def valid_workflow_def)
  obtain g where g: "mk_dependency_graph w = Inr g" using mk_graph_total(2) [OF valid] by blast
  obtain layers where layers: "topological_layers g = Inr layers" "layering ?tasks layers"
    using topological_layers_correct [OF mk_dependency_graph_correct [OF wf(1) tasks(1) g] wf(2,3)]
    by blast
  obtain first where first: "plan_diagnostic ''PWK-PLAN-001'' S_INFO ''workflow topology validated''
      [(''task_count'', py_str_int (int (length ?tasks))),
       (''edge_count'', py_str_int (int (length (gr_edges g))))] ''compile'' = Inr first"
    using plan_diagnostic_topology by blast
  let ?cs = "\<lparr>cs_entries = [], cs_capabilities = [], cs_integrations = [], cs_diagnostics = [first]\<rparr>"
  obtain cs where cs: "compile_groups ?tasks layers ?cs = Inr cs"
    using compile_groups_total [OF wf(1) tasks(2), of layers 0 ?cs] layers(2)
    by (auto simp: compile_groups_def layering_def)
  from compile_groups_Inr [OF cs [unfolded compile_groups_def]] obtain ess where
    ess: "cs_entries cs = concat ess" "length ess = length layers"
      "\<forall>j < length layers. list_all2 (entry_for ?tasks j) (layers ! j) (ess ! j)"
      "map te_position (concat ess) = map int [0..<length (cs_entries cs)]"
    by auto
  note keys = entries_of_groups(1) [OF ess(2,3)]
  let ?p = "\<lparr>ep_workflow_name = wf_name w, ep_workflow_version = wf_version w,
        ep_definition_fingerprint = digest, ep_failure_policy = wf_failure_policy w,
        ep_tasks = cs_entries cs, ep_topological_order = concat layers, ep_groups = layers,
        ep_required_capabilities = cs_capabilities cs,
        ep_required_integrations = cs_integrations cs, ep_diagnostics = cs_diagnostics cs\<rparr>"
  have dist: "distinct (map te_key (cs_entries cs))"
    using keys ess(1) layers(2) by (simp add: layering_def)
  have "set (map te_key (cs_entries cs)) = td_key ` set ?tasks"
    using keys ess(1) layers(2) unfolding layering_def by simp
  then have "cs_entries cs \<noteq> []" using wf(4) by auto
  moreover have "check_group_indices ?p = Inr ()"
    by (rule check_group_indices_ok [where ess = ess and tasks = ?tasks]) (use dist ess in simp_all)
  ultimately show ?thesis
    using mk_graph_total(1) [OF valid] g layers(1) first cs assms(2) fingerprint_not_blank [OF assms(2)] wf(5,6) dist ess(1,4) keys
    by (simp add: compile_def mk_execution_plan_def require_def required_text_def)
qed

text \<open>C16: Compilation is total on workflows that are well formed: for every valid workflow whose
  tasks the planner can describe and whose fingerprint exists, \<open>compile\<close> returns a plan, and
  none of the checks of \<open>ExecutionPlan.__post_init__\<close> can fail on what the planner builds.\<close>
theorem compile_total:
  assumes "ready_workflow w" "fingerprint c w = Inr digest"
  shows "\<exists>p. compile c w = Inr p \<and> ep_definition_fingerprint p = digest"
  using assms by (rule compile_succeeds)

lemma compiled_layout:
  assumes "compile c w = Inr p" "distinct (map td_key (wf_tasks w))"
    "\<forall>t \<in> set (wf_tasks w). distinct (td_dependencies t)"
  shows "mset (map te_task (ep_tasks p)) = mset (wf_tasks w) \<and>
    map te_position (ep_tasks p) = map int [0..<length (ep_tasks p)] \<and>
    map te_key (ep_tasks p) = concat (ep_groups p) \<and>
    (\<forall>e \<in> set (ep_tasks p). \<exists>i < length (ep_groups p).
       te_group_index e = int i \<and> te_key e \<in> set (ep_groups p ! i) \<and>
       set (te_dependencies e) \<subseteq> set (concat (take i (ep_groups p))) \<and>
       (0 < i \<longrightarrow> set (te_dependencies e) \<inter> set (ep_groups p ! (i - 1)) \<noteq> {}))"
proof -
  let ?tasks = "wf_tasks w"
  from assms(1) obtain g groups first cs digest where
    steps: "validate w = Inr ()" "mk_dependency_graph w = Inr g" "topological_layers g = Inr groups"
      "compile_groups ?tasks groups \<lparr>cs_entries = [], cs_capabilities = [], cs_integrations = [],
        cs_diagnostics = [first]\<rparr> = Inr cs"
    and p: "ep_tasks p = cs_entries cs" "ep_groups p = groups"
    by (auto simp: compile_def bindR_Inr_iff thenR_Inr_iff mk_execution_plan_def)
  have known: "deps_known ?tasks" "acyclic (dep_edges ?tasks)"
    using steps(1) validate_Inr_iff [OF assms(2)] by blast+
  have lay: "layering ?tasks groups"
    using topological_layers_correct [OF mk_dependency_graph_correct [OF assms(2,3) steps(2)] known] steps(3)
    by auto
  from compile_groups_Inr [OF steps(4) [unfolded compile_groups_def]] obtain ess where
    ess: "cs_entries cs = concat ess" "length ess = length groups"
      "\<forall>j < length groups. list_all2 (entry_for ?tasks j) (groups ! j) (ess ! j)"
      "map te_position (concat ess) = map int [0..<length (cs_entries cs)]"
    by auto
  note keys = entries_of_groups(1) [OF ess(2,3)] and idx = entries_of_groups(2) [OF ess(2,3)]
  have in_tasks: "te_task e \<in> set ?tasks" if "e \<in> set (concat ess)" for e
  proof -
    from that obtain j where j: "j < length groups" "e \<in> set (ess ! j)"
      using ess(2) by (metis in_set_conv_nth set_concat UN_E)
    have "list_all2 (entry_for ?tasks j) (groups ! j) (ess ! j)" using ess(3) j(1) by blast
    from list_all2_right [OF this j(2)] show ?thesis by (auto simp: entry_for_def)
  qed
  have perm: "mset (map te_task (concat ess)) = mset ?tasks"
  proof -
    have key_inj: "inj_on td_key (set ?tasks)" "distinct ?tasks" using assms(2) by (auto simp: distinct_map)
    have k: "map td_key (map te_task (concat ess)) = concat groups"
      using keys by (simp add: comp_def)
    then have d: "distinct (map te_task (concat ess))"
      using lay unfolding layering_def by (metis distinct_map)
    have "set (map td_key (map te_task (concat ess))) = td_key ` set ?tasks"
      unfolding k using lay by (simp add: layering_def)
    then have s: "td_key ` set (map te_task (concat ess)) = td_key ` set ?tasks"
      by (simp only: set_map)
    have "set (map te_task (concat ess)) \<subseteq> set ?tasks" using in_tasks by auto
    then have "set (map te_task (concat ess)) = set ?tasks"
      using s key_inj(1) by (meson inj_on_image_eq_iff order_refl)
    then show ?thesis by (rule set_eq_iff_mset_eq_distinct [OF d key_inj(2), THEN iffD1])
  qed
  have "\<exists>i < length groups. te_group_index e = int i \<and> te_key e \<in> set (groups ! i) \<and>
       set (te_dependencies e) \<subseteq> set (concat (take i groups)) \<and>
       (0 < i \<longrightarrow> set (te_dependencies e) \<inter> set (groups ! (i - 1)) \<noteq> {})"
    if e: "e \<in> set (concat ess)" for e
  proof -
    from e obtain j where j: "j < length groups" "e \<in> set (ess ! j)"
      using ess(2) by (metis in_set_conv_nth set_concat UN_E)
    then have "te_group_index e = int j" "te_key e \<in> set (groups ! j)" using idx by blast+
    moreover have "dep_set ?tasks (te_key e) = set (te_dependencies e)"
      using dep_set_task [OF assms(2) in_tasks [OF e]] .
    ultimately show ?thesis using lay j(1) unfolding layering_def by metis
  qed
  then show ?thesis
    using perm keys ess(1,4) p by simp
qed

text \<open>C15: A compiled plan schedules every task of the workflow exactly once, at consecutive
  positions, in the group its index names, strictly after all its dependencies, and as early
  as they allow: a task outside the first group has a dependency in the group just before.\<close>
theorem compile_schedules:
  assumes "compile c w = Inr p" "distinct (map td_key (wf_tasks w))"
    "\<forall>t \<in> set (wf_tasks w). distinct (td_dependencies t)"
  shows "mset (map te_task (ep_tasks p)) = mset (wf_tasks w) \<and>
    map te_position (ep_tasks p) = map int [0..<length (ep_tasks p)] \<and>
    map te_key (ep_tasks p) = concat (ep_groups p) \<and>
    (\<forall>e \<in> set (ep_tasks p). \<exists>i < length (ep_groups p).
       te_group_index e = int i \<and> te_key e \<in> set (ep_groups p ! i) \<and>
       set (te_dependencies e) \<subseteq> set (concat (take i (ep_groups p))) \<and>
       (0 < i \<longrightarrow> set (te_dependencies e) \<inter> set (ep_groups p ! (i - 1)) \<noteq> {}))"
  using assms by (rule compiled_layout)

definition diamond :: workflow_definition where
  "diamond = sample_workflow [sample_task ''join'' [''right'', ''left''], sample_task ''left'' [''start''],
     sample_task ''right'' [''start''], sample_task ''start'' []]"

lemma diamond_tasks:
  "distinct (map td_key (wf_tasks diamond))" "\<forall>t \<in> set (wf_tasks diamond). distinct (td_dependencies t)"
  by (simp_all add: diamond_def)

lemma diamond_validates: "validate diamond = Inr ()"
  by code_simp

lemma diamond_payload:
  "case workflow_payload diamond of Inl e \<Rightarrow> False | Inr j \<Rightarrow> all_finite j"
  by code_simp

lemma diamond_fingerprint: "\<exists>digest. fingerprint c diamond = Inr digest"
  using diamond_payload
  by (auto simp: fingerprint_def strict_digest_def thenR_Inr_iff bindR_Inr_iff split: sum.splits)

lemma diamond_ready: "ready_workflow diamond"
proof -
  have "valid_workflow diamond"
  proof -
    have "deps_known (wf_tasks diamond) \<and> acyclic (dep_edges (wf_tasks diamond))"
      using diamond_validates validate_Inr_iff [OF diamond_tasks(1)] by blast
    moreover have "\<not> blank ''sample''" "\<not> blank ''1''" by code_simp+
    ultimately show ?thesis
      using diamond_tasks(1) by (simp add: valid_workflow_def) (simp add: diamond_def sample_workflow_def)
  qed
  moreover have "\<forall>t \<in> set (wf_tasks diamond). describable t"
  proof -
    have "list_all (\<lambda>t. \<not> blank (td_key t) \<and>
        isl (executor_requirement_of t) = False \<and> isl (integration_requirements t) = False)
      (wf_tasks diamond)"
      by code_simp
    moreover have "isl r = False \<longleftrightarrow> (\<exists>x. r = Inr x)" for r :: "string list result" by (cases r) auto
    moreover have "isl r = False \<longleftrightarrow> (\<exists>x. r = Inr x)" for r :: "executor_requirement result" by (cases r) auto
    ultimately show ?thesis
      unfolding list_all_iff describable_def by blast
  qed
  ultimately show ?thesis using diamond_tasks(2) by (simp add: ready_workflow_def)
qed

theorem compile_total_witness:
  "\<exists>p digest. fingerprint sample_codec diamond = Inr digest \<and>
     compile sample_codec diamond = Inr p \<and> ep_definition_fingerprint p = digest"
proof -
  obtain digest where "fingerprint sample_codec diamond = Inr digest" using diamond_fingerprint by blast
  with compile_total [OF diamond_ready this] show ?thesis by blast
qed

lemma compile_uses_layers:
  "compile c w = Inr p \<Longrightarrow> bindR (mk_dependency_graph w) topological_layers = Inr (ep_groups p)"
  by (auto simp: compile_def bindR_Inr_iff thenR_Inr_iff mk_execution_plan_def)

lemma diamond_layers:
  "bindR (mk_dependency_graph diamond) topological_layers =
     Inr [[''start''], [''left'', ''right''], [''join'']]"
  by code_simp

theorem compile_schedules_witness:
  "\<exists>p. compile sample_codec diamond = Inr p \<and>
     ep_groups p = [[''start''], [''left'', ''right''], [''join'']] \<and>
     mset (map te_task (ep_tasks p)) = mset (wf_tasks diamond)"
proof -
  obtain p where p: "compile sample_codec diamond = Inr p"
    using diamond_fingerprint compile_succeeds [OF diamond_ready] by blast
  with compile_uses_layers [OF p] diamond_layers compile_schedules [OF p diamond_tasks]
  show ?thesis by auto
qed

end
