(* ===== verification/Readiness.thy ===== *)
theory Readiness
  imports Planning Store
begin

text \<open>
  The pure decisions of the runtime: whether a task may start (\<open>runtime/_readiness.py\<close>), which
  tasks depend on a failed one, and how the next attempt of a task is numbered
  (\<open>runtime/_attempts.py\<close>).  The descendants are shown to be the transitive closure of the
  declared dependencies, and the next attempt to exist exactly when the recorded attempts are
  complete and the last one failed.
\<close>

section \<open>Readiness\<close>

record readiness =
  rd_ready :: bool
  rd_skip_reason :: "skip_reason option"

definition trigger_satisfied :: "trigger_rule \<Rightarrow> task_run_status list \<Rightarrow> bool" where
  "trigger_satisfied rule upstream = (case rule of
     ALWAYS \<Rightarrow> True
   | ALL_SUCCESS \<Rightarrow> list_all (\<lambda>s. s \<in> {T_SUCCEEDED, T_REUSED}) upstream
   | ALL_DONE \<Rightarrow> True
   | ANY_SUCCESS \<Rightarrow> list_ex (\<lambda>s. s \<in> {T_SUCCEEDED, T_REUSED}) upstream
   | ANY_FAILED \<Rightarrow> list_ex (\<lambda>s. s \<in> {T_FAILED, T_TIMED_OUT}) upstream
   | NONE_FAILED \<Rightarrow> \<not> list_ex (\<lambda>s. s \<in> {T_FAILED, T_TIMED_OUT}) upstream)"

definition key_lookup :: "(string, 'v) dict \<Rightarrow> string \<Rightarrow> 'v result" where
  \<comment> \<open>\<open>d[key]\<close>\<close>
  "key_lookup d key = (case dict_get d key of None \<Rightarrow> Inl (KeyError key) | Some v \<Rightarrow> Inr v)"

definition evaluate_readiness ::
  "task_plan_entry \<Rightarrow> (string, task_run_status) dict \<Rightarrow> readiness result" where
  "evaluate_readiness entry statuses =
     bindR (mapR (key_lookup statuses) (te_dependencies entry)) (\<lambda>upstream.
     if \<not> list_all (\<lambda>s. s \<in> TASK_RUN_TERMINAL_STATUSES) upstream then
       Inr \<lparr>rd_ready = False, rd_skip_reason = None\<rparr>
     else if trigger_satisfied (td_trigger_rule (te_task entry)) upstream then
       Inr \<lparr>rd_ready = True, rd_skip_reason = None\<rparr>
     else Inr \<lparr>rd_ready = False, rd_skip_reason = Some TRIGGER_RULE_UNSATISFIED\<rparr>)"

section \<open>Descendants\<close>

text \<open>
  The sets of the source are lists here: \<open>downstream\<close> holds the keys of a set in insertion
  order, and the result is read as a set only.
\<close>

definition add_dependent ::
  "string \<times> string \<Rightarrow> (string, string list) dict \<Rightarrow> (string, string list) dict result" where
  \<comment> \<open>\<open>downstream[dependency].add(key)\<close>\<close>
  "add_dependent edge down = (case edge of (dependency, key) \<Rightarrow>
     bindR (key_lookup down dependency) (\<lambda>keys.
       Inr (dict_set dependency (if key \<in> set keys then keys else keys @ [key]) down)))"

definition entry_edges :: "task_plan_entry list \<Rightarrow> (string \<times> string) list" where
  "entry_edges entries = concat (map (\<lambda>e. map (\<lambda>d. (d, te_key e)) (te_dependencies e)) entries)"

definition downstream_sets :: "task_plan_entry list \<Rightarrow> (string, string list) dict result" where
  "downstream_sets entries = foldR add_dependent (entry_edges entries)
     (fold (\<lambda>e. dict_set (te_key e) []) entries [])"

function collect ::
  "(string, string list) dict \<Rightarrow> string list \<Rightarrow> string list \<Rightarrow> string list result" where
  "collect down discovered pending =
     (if pending = [] then Inr discovered
      else let candidate = last pending; rest = butlast pending in
        if candidate \<in> set discovered then collect down discovered rest
        else (case dict_get down candidate of
            None \<Rightarrow> Inl (KeyError candidate)
          | Some keys \<Rightarrow> collect down (candidate # discovered) (rest @ keys)))"
  by pat_completeness auto
termination
proof (relation "measures [\<lambda>(down, discovered, pending). card (fst ` set down - set discovered),
    \<lambda>(down, discovered, pending). length pending]", goal_cases)
  case (3 down discovered pending candidate rest keys)
  have "card (fst ` set down - set (candidate # discovered)) < card (fst ` set down - set discovered)"
  proof (rule psubset_card_mono)
    have "candidate \<in> fst ` set down" using 3(5) by (auto simp: dict_has_iff)
    then show "fst ` set down - set (candidate # discovered) \<subset> fst ` set down - set discovered"
      using 3(4) by auto
  qed simp
  then show ?case by simp
qed simp_all

declare collect.simps [simp del]

definition descendants_of :: "string \<Rightarrow> task_plan_entry list \<Rightarrow> string list result" where
  "descendants_of task_key entries =
     bindR (downstream_sets entries) (\<lambda>down.
     bindR (key_lookup down task_key) (\<lambda>pending. collect down [] pending))"

section \<open>The next attempt\<close>

text \<open>One round of the loop over the recorded attempts, with the identifiers and numbers seen.\<close>

definition check_attempt ::
  "task_run \<Rightarrow> task_attempt \<Rightarrow> task_attempt_id list \<times> int list \<Rightarrow>
   (task_attempt_id list \<times> int list) result" where
  "check_attempt task_run attempt seen = (case seen of (seen_ids, seen_numbers) \<Rightarrow>
     thenR (require (ta_task_run_id attempt = tr_task_run_id task_run)
       (RuntimeInvariant ''all existing attempts must belong to the same TaskRun''))
    (thenR (require (ta_attempt_id attempt \<notin> set seen_ids)
       (RuntimeInvariant ''duplicate TaskAttemptId in attempt sequence''))
    (thenR (require (ta_attempt_number attempt \<notin> set seen_numbers)
       (RuntimeInvariant ''duplicate attempt_number in attempt sequence''))
    (Inr (ta_attempt_id attempt # seen_ids, ta_attempt_number attempt # seen_numbers)))))"

definition fresh_attempt :: "task_attempt_id \<Rightarrow> task_run_id \<Rightarrow> int \<Rightarrow> datetime \<Rightarrow> task_attempt" where
  \<comment> \<open>The fields with their dataclass defaults.\<close>
  "fresh_attempt aid tid n created_at =
     \<lparr>ta_attempt_id = aid, ta_task_run_id = tid, ta_attempt_number = n, ta_created_at = created_at,
      ta_status = A_PENDING, ta_started_at = None, ta_ended_at = None, ta_failure = None\<rparr>"

definition next_task_attempt ::
  "task_run \<Rightarrow> task_attempt list \<Rightarrow> task_attempt_id \<Rightarrow> datetime \<Rightarrow> task_attempt result" where
  "next_task_attempt task_run attempts attempt_id created_at =
     thenR (require (tr_status task_run \<in> {T_READY, T_RUNNING})
       (RuntimeInvariant (''cannot create attempt while TaskRun '' @ tid_str (tr_task_run_id task_run) @
          '' is '' @ task_status_value (tr_status task_run))))
    (bindR (foldR (check_attempt task_run) attempts ([], [])) (\<lambda>(seen_ids, seen_numbers).
     thenR (require (attempt_id \<notin> set seen_ids) (RuntimeInvariant ''new TaskAttemptId must be unique''))
    (let ordered = sort_key ta_attempt_number attempts in
     thenR (require (map ta_attempt_number ordered = map int [1..<length ordered + 1])
       (RuntimeInvariant ''existing attempt numbers must be contiguous from one''))
    (thenR (require (ordered \<noteq> [] \<longrightarrow> ta_status (last ordered) \<in> {A_FAILED, A_TIMED_OUT})
       (RuntimeInvariant (''new attempt requires previous attempt to be FAILED or TIMED_OUT; got '' @
          attempt_status_value (ta_status (last ordered)))))
    (let attempt = fresh_attempt attempt_id (tr_task_run_id task_run) (int (length ordered) + 1) created_at in
     thenR (task_attempt_post_init attempt) (Inr attempt))))))"

section \<open>Readiness, exactly\<close>

lemma key_lookup_Inr [simp]: "key_lookup d k = Inr v \<longleftrightarrow> dict_get d k = Some v"
  by (simp add: key_lookup_def split: option.splits)

lemma upstream_statuses:
  assumes "set (te_dependencies entry) \<subseteq> fst ` set statuses"
  shows "mapR (key_lookup statuses) (te_dependencies entry) =
    Inr (map (\<lambda>k. the (dict_get statuses k)) (te_dependencies entry))"
proof -
  have "dict_get statuses k = Some (the (dict_get statuses k))" if "k \<in> set (te_dependencies entry)" for k
    using assms that dict_has_iff [of k statuses] by force
  then show ?thesis by (simp add: mapR_Inr_iff list_all2_map2 list.rel_refl_strong)
qed

lemma evaluate_readiness_known:
  assumes "set (te_dependencies entry) \<subseteq> fst ` set statuses"
  defines "upstream \<equiv> map (\<lambda>k. the (dict_get statuses k)) (te_dependencies entry)"
  shows "evaluate_readiness entry statuses = Inr
    \<lparr>rd_ready = set upstream \<subseteq> TASK_RUN_TERMINAL_STATUSES \<and>
       trigger_satisfied (td_trigger_rule (te_task entry)) upstream,
     rd_skip_reason = (if set upstream \<subseteq> TASK_RUN_TERMINAL_STATUSES \<and>
         \<not> trigger_satisfied (td_trigger_rule (te_task entry)) upstream
       then Some TRIGGER_RULE_UNSATISFIED else None)\<rparr>"
  unfolding evaluate_readiness_def upstream_statuses [OF assms(1)] upstream_def
  by (auto simp: list_all_iff)

section \<open>Descendants are the transitive closure\<close>

definition successors :: "(string, string list) dict \<Rightarrow> (string \<times> string) set" where
  "successors down = {(a, b). \<exists>keys. dict_get down a = Some keys \<and> b \<in> set keys}"

lemma closed_image_rtrancl: "E `` S \<subseteq> S \<Longrightarrow> E\<^sup>* `` S = S"
proof (intro equalityI subsetI)
  fix y assume "E `` S \<subseteq> S" "y \<in> E\<^sup>* `` S"
  then obtain x where "(x, y) \<in> E\<^sup>*" "x \<in> S" by auto
  then show "y \<in> S" using \<open>E `` S \<subseteq> S\<close> by (induction rule: rtrancl_induct) auto
qed auto

lemma rtrancl_image_absorb: "E `` {x} \<subseteq> T \<Longrightarrow> T \<subseteq> E\<^sup>* `` S \<Longrightarrow> S \<subseteq> T \<Longrightarrow> E\<^sup>* `` T = E\<^sup>* `` S"
proof (intro equalityI subsetI)
  fix y assume T: "T \<subseteq> E\<^sup>* `` S" and "y \<in> E\<^sup>* `` T"
  then obtain x z where "(z, x) \<in> E\<^sup>*" "z \<in> S" "(x, y) \<in> E\<^sup>*" by blast
  then show "y \<in> E\<^sup>* `` S" by (meson ImageI rtrancl_trans)
qed auto

lemma collect_closure:
  assumes "\<And>a keys. dict_get down a = Some keys \<Longrightarrow> set keys \<subseteq> fst ` set down"
    and "set pending \<subseteq> fst ` set down"
    and "successors down `` set discovered \<subseteq> set discovered \<union> set pending"
  shows "\<exists>r. collect down discovered pending = Inr r \<and>
    set r = (successors down)\<^sup>* `` (set discovered \<union> set pending)"
  using assms
proof (induction down discovered pending rule: collect.induct)
  case (1 down discovered pending)
  let ?E = "successors down"
  show ?case
  proof (cases pending rule: rev_cases)
    case Nil
    then show ?thesis
      using closed_image_rtrancl [of ?E "set discovered"] 1(5) by (subst collect.simps) simp
  next
    case (snoc rest candidate)
    show ?thesis
    proof (cases "candidate \<in> set discovered")
      case True
      have "\<exists>r. collect down discovered rest = Inr r \<and> set r = ?E\<^sup>* `` (set discovered \<union> set rest)"
      proof -
        have "?E `` set discovered \<subseteq> set discovered \<union> set rest" using 1(5) snoc True by auto
        then show ?thesis using "1.IH"(1) [OF _ refl refl] 1(3,4) snoc True by simp
      qed
      then show ?thesis using snoc True by (subst collect.simps) (simp add: insert_absorb)
    next
      case False
      obtain keys where keys: "dict_get down candidate = Some keys"
        using 1(4) snoc dict_has_iff [of candidate down] by auto
      have E: "?E `` {candidate} = set keys" using keys by (auto simp: successors_def)
      have "\<exists>r. collect down (candidate # discovered) (rest @ keys) = Inr r \<and>
          set r = ?E\<^sup>* `` (set (candidate # discovered) \<union> set (rest @ keys))"
      proof -
        have "?E `` set (candidate # discovered) \<subseteq> set (candidate # discovered) \<union> set (rest @ keys)"
          using 1(5) snoc E by auto
        moreover have "set (rest @ keys) \<subseteq> fst ` set down" using 1(3) [OF keys] 1(4) snoc by auto
        ultimately show ?thesis
          using "1.IH"(2) [OF _ refl refl] 1(3) snoc False keys by simp
      qed
      moreover have "?E\<^sup>* `` (set (candidate # discovered) \<union> set (rest @ keys)) =
          ?E\<^sup>* `` (set discovered \<union> set pending)"
      proof (rule rtrancl_image_absorb [of _ candidate])
        show "set (candidate # discovered) \<union> set (rest @ keys) \<subseteq> ?E\<^sup>* `` (set discovered \<union> set pending)"
          using E snoc by auto
      qed (use E snoc in auto)
      ultimately show ?thesis using snoc False keys by (subst collect.simps) simp
    qed
  qed
qed

lemma add_dependents:
  assumes "fst ` set edges \<subseteq> fst ` set down"
  shows "\<exists>down'. foldR add_dependent edges down = Inr down' \<and> fst ` set down' = fst ` set down \<and>
    (\<forall>a keys. dict_get down a = Some keys \<longrightarrow>
      (\<exists>keys'. dict_get down' a = Some keys' \<and> set keys' = set keys \<union> {k. (a, k) \<in> set edges}))"
  using assms
proof (induction edges arbitrary: down)
  case (Cons edge edges)
  obtain a k where edge: "edge = (a, k)" by fastforce
  obtain keys where keys: "dict_get down a = Some keys"
    using Cons.prems edge dict_has_iff [of a down] by auto
  let ?new = "if k \<in> set keys then keys else keys @ [k]"
  have step: "add_dependent edge down = Inr (dict_set a ?new down)"
    using keys by (simp add: add_dependent_def edge bindR_def key_lookup_def)
  have same: "fst ` set (dict_set a ?new down) = fst ` set down"
    using keys dict_has_iff [of a down] by (auto simp: dict_set_keys)
  then obtain down' where ih: "foldR add_dependent edges (dict_set a ?new down) = Inr down'"
    "fst ` set down' = fst ` set down"
    "\<forall>b ks. dict_get (dict_set a ?new down) b = Some ks \<longrightarrow>
      (\<exists>ks'. dict_get down' b = Some ks' \<and> set ks' = set ks \<union> {k. (b, k) \<in> set edges})"
    using Cons.IH [of "dict_set a ?new down"] Cons.prems by auto
  have "\<exists>ks'. dict_get down' b = Some ks' \<and> set ks' = set ks \<union> {j. (b, j) \<in> set (edge # edges)}"
    if "dict_get down b = Some ks" for b ks
  proof (cases "b = a")
    case True
    then have "\<exists>ks'. dict_get down' a = Some ks' \<and> set ks' = set ?new \<union> {j. (a, j) \<in> set edges}"
      using ih(3) by (simp add: dict_get_set)
    moreover have "set ?new = insert k (set ks)" using keys that True by auto
    ultimately show ?thesis using True edge by auto
  next
    case False
    then show ?thesis using ih(3) that edge by (auto simp: dict_get_set)
  qed
  then show ?case using step ih(1,2) by auto
qed simp

lemma empty_sets: "dict_get (fold (\<lambda>e. dict_set (te_key e) []) entries d) k =
    (if k \<in> te_key ` set entries then Some [] else dict_get d k)"
  by (induction entries arbitrary: d) (auto simp: dict_get_set)

text \<open>A plan in which every dependency is the key of an entry, as every compiled plan is.\<close>

definition plan_closed :: "task_plan_entry list \<Rightarrow> bool" where
  "plan_closed entries \<longleftrightarrow> (\<forall>e \<in> set entries. set (te_dependencies e) \<subseteq> te_key ` set entries)"

lemma entry_edges_set: "set (entry_edges entries) = {(d, te_key e) |d e. e \<in> set entries \<and> d \<in> set (te_dependencies e)}"
  by (auto simp: entry_edges_def)

lemma descendants_closure:
  assumes closed: "plan_closed entries" and key: "task_key \<in> te_key ` set entries"
  shows "\<exists>keys. descendants_of task_key entries = Inr keys \<and>
    set keys = {k. (task_key, k) \<in> (set (entry_edges entries))\<^sup>+}"
proof -
  let ?d0 = "fold (\<lambda>e. dict_set (te_key e) []) entries [] :: (string, string list) dict"
  let ?E = "set (entry_edges entries)"
  have keys0: "fst ` set ?d0 = te_key ` set entries"
    by (intro set_eqI) (simp add: dict_has_iff empty_sets split: if_splits)
  moreover have "fst ` ?E \<subseteq> te_key ` set entries" using closed by (force simp: entry_edges_set plan_closed_def)
  ultimately obtain down where down: "downstream_sets entries = Inr down"
    "fst ` set down = te_key ` set entries"
    "\<forall>a keys. dict_get ?d0 a = Some keys \<longrightarrow>
      (\<exists>keys'. dict_get down a = Some keys' \<and> set keys' = set keys \<union> {k. (a, k) \<in> ?E})"
    using add_dependents [of "entry_edges entries" ?d0] by (auto simp: downstream_sets_def)
  have get: "\<exists>keys. dict_get down a = Some keys \<and> set keys = {k. (a, k) \<in> ?E}" if "a \<in> te_key ` set entries" for a
  proof -
    have "dict_get ?d0 a = Some []" using that by (simp add: empty_sets)
    with down(3) show ?thesis by fastforce
  qed
  have E: "successors down = ?E"
  proof (rule set_eqI, clarify)
    fix a b
    show "(a, b) \<in> successors down \<longleftrightarrow> (a, b) \<in> ?E"
    proof (cases "a \<in> te_key ` set entries")
      case True
      then show ?thesis using get [OF True] by (auto simp: successors_def)
    next
      case False
      then have "dict_get down a = None" using down(2) by (simp add: dict_get_None_iff)
      moreover have "(a, b) \<notin> ?E" using False closed by (auto simp: entry_edges_set plan_closed_def)
      ultimately show ?thesis by (simp add: successors_def)
    qed
  qed
  have known: "set keys \<subseteq> fst ` set down" if "dict_get down a = Some keys" for a keys
  proof -
    have "set keys = {k. (a, k) \<in> ?E}" unfolding E [symmetric] using that by (simp add: successors_def)
    then show ?thesis using down(2) by (auto simp: entry_edges_set)
  qed
  obtain pending where pending: "dict_get down task_key = Some pending" "set pending = {k. (task_key, k) \<in> ?E}"
    using get [OF key] by blast
  have "set pending \<subseteq> fst ` set down" by (rule known [OF pending(1)])
  then obtain r where "collect down [] pending = Inr r" "set r = ?E\<^sup>* `` {k. (task_key, k) \<in> ?E}"
    using collect_closure [of down pending "[]"] known E pending(2) by auto
  moreover have "?E\<^sup>* `` {k. (task_key, k) \<in> ?E} = {k. (task_key, k) \<in> ?E\<^sup>+}"
    by (auto simp: trancl_unfold_left)
  ultimately show ?thesis
    using down(1) pending(1) by (auto simp: descendants_of_def bindR_def key_lookup_def)
qed

section \<open>The next attempt exists exactly when the last one failed\<close>

lemma check_attempt_Inr:
  "check_attempt t a (ids, numbers) = Inr seen \<longleftrightarrow> ta_task_run_id a = tr_task_run_id t \<and>
     ta_attempt_id a \<notin> set ids \<and> ta_attempt_number a \<notin> set numbers \<and>
     seen = (ta_attempt_id a # ids, ta_attempt_number a # numbers)"
  by (auto simp: check_attempt_def thenR_Inr_iff)

lemma check_attempts:
  "foldR (check_attempt t) attempts (ids, numbers) = Inr seen \<longleftrightarrow>
     (\<forall>a \<in> set attempts. ta_task_run_id a = tr_task_run_id t) \<and>
     distinct (map ta_attempt_id attempts) \<and> set ids \<inter> ta_attempt_id ` set attempts = {} \<and>
     distinct (map ta_attempt_number attempts) \<and> set numbers \<inter> ta_attempt_number ` set attempts = {} \<and>
     seen = (rev (map ta_attempt_id attempts) @ ids, rev (map ta_attempt_number attempts) @ numbers)"
proof (induction attempts arbitrary: ids numbers)
  case (Cons a attempts)
  show ?case
    by (auto simp: bindR_Inr_iff check_attempt_Inr Cons)
qed auto

lemma fresh_attempt_valid:
  "task_attempt_post_init (fresh_attempt aid tid n ts) = Inr () \<longleftrightarrow> 1 \<le> n \<and> dt_aware ts"
  by (simp add: valid_task_attempt_iff fresh_attempt_def terminal_defs)

text \<open>C11: A further attempt of a task is created if and only if the task is ready or running, the
  recorded attempts all belong to it under distinct identifiers, are numbered from one without
  gaps, and the last of them failed or timed out; the new attempt is pending and carries the next
  number.  A task whose last attempt succeeded, was cancelled or has an unknown outcome never
  gets another attempt.\<close>
theorem next_attempt_exact:
  "next_task_attempt t attempts aid ts = Inr a \<longleftrightarrow>
     tr_status t \<in> {T_READY, T_RUNNING} \<and> dt_aware ts \<and>
     {x \<in> set attempts. ta_task_run_id x \<noteq> tr_task_run_id t} = {} \<and>
     distinct (map ta_attempt_id attempts) \<and> aid \<notin> ta_attempt_id ` set attempts \<and>
     sort (map ta_attempt_number attempts) = map int [1..<length attempts + 1] \<and>
     {x \<in> set attempts. ta_attempt_number x = int (length attempts)} \<subseteq>
       {x. ta_status x \<in> {A_FAILED, A_TIMED_OUT}} \<and>
     a = fresh_attempt aid (tr_task_run_id t) (int (length attempts) + 1) ts"
proof -
  let ?o = "sort_key ta_attempt_number attempts"
  have numbers: "map ta_attempt_number ?o = sort (map ta_attempt_number attempts)" by (rule map_sort_key)
  have last: "(?o \<noteq> [] \<longrightarrow> ta_status (last ?o) \<in> {A_FAILED, A_TIMED_OUT}) \<longleftrightarrow>
      {x \<in> set attempts. ta_attempt_number x = int (length attempts)} \<subseteq>
        {x. ta_status x \<in> {A_FAILED, A_TIMED_OUT}}"
    if n: "map ta_attempt_number ?o = map int [1..<length attempts + 1]"
  proof (cases "attempts = []")
    case False
    then have ne: "?o \<noteq> []" by (metis length_0_conv length_sort)
    have dist: "distinct (map ta_attempt_number ?o)" using n by (simp add: distinct_map del: upt_Suc)
    have "ta_attempt_number (last ?o) = last (map ta_attempt_number ?o)" using ne by (simp add: last_map)
    also have "\<dots> = int (length attempts)" using n False by (simp add: last_map del: upt_Suc)
    finally have number: "ta_attempt_number (last ?o) = int (length attempts)" .
    have "last ?o \<in> set attempts" using last_in_set [OF ne] by simp
    moreover have "inj_on ta_attempt_number (set attempts)" using dist by (simp add: distinct_map)
    ultimately have "{x \<in> set attempts. ta_attempt_number x = int (length attempts)} = {last ?o}"
      using number by (auto intro: inj_onD)
    then show ?thesis using ne by auto
  qed simp
  have "sort (map ta_attempt_number attempts) = map int [1..<length attempts + 1] \<Longrightarrow>
      distinct (map ta_attempt_number attempts)"
    by (metis distinct_map distinct_sort distinct_upt inj_on_of_nat)
  note numbered = this
  have result: "next_task_attempt t attempts aid ts = Inr a \<longleftrightarrow>
     tr_status t \<in> {T_READY, T_RUNNING} \<and> dt_aware ts \<and>
     (\<forall>x \<in> set attempts. ta_task_run_id x = tr_task_run_id t) \<and>
     distinct (map ta_attempt_id attempts) \<and> aid \<notin> ta_attempt_id ` set attempts \<and>
     distinct (map ta_attempt_number attempts) \<and>
     map ta_attempt_number ?o = map int [1..<length attempts + 1] \<and>
     (?o \<noteq> [] \<longrightarrow> ta_status (last ?o) \<in> {A_FAILED, A_TIMED_OUT}) \<and>
     a = fresh_attempt aid (tr_task_run_id t) (int (length attempts) + 1) ts"
    unfolding next_task_attempt_def Let_def
    by (auto simp: bindR_Inr_iff thenR_Inr_iff check_attempts fresh_attempt_valid simp del: upt_Suc)
  show ?thesis
  proof (cases "map ta_attempt_number ?o = map int [1..<length attempts + 1]")
    case True
    then show ?thesis
      unfolding result last [OF True] using numbered numbers by (simp del: upt_Suc) blast
  next
    case False
    then show ?thesis unfolding result numbers [symmetric] by (simp del: upt_Suc)
  qed
qed

text \<open>C12: When a task fails, the tasks reported as depending on it are exactly those reachable
  from it along declared dependencies, in a plan whose dependencies are all planned; the search
  always ends.\<close>
theorem descendants_exact:
  assumes "plan_closed entries" "task_key \<in> te_key ` set entries"
  shows "\<exists>keys. descendants_of task_key entries = Inr keys \<and>
    set keys = {k. (task_key, k) \<in> (set (entry_edges entries))\<^sup>+}"
  using assms by (rule descendants_closure)

section \<open>Concrete instances\<close>

definition sample_entry :: "string \<Rightarrow> string list \<Rightarrow> task_plan_entry" where
  "sample_entry key deps = \<lparr>te_task = sample_task key deps, te_position = 0, te_group_index = 0,
     te_requirement = \<lparr>er_executor_key = ''inline'', er_workload_kind = ''registered'', er_portable = True\<rparr>,
     te_integrations = []\<rparr>"

theorem descendants_exact_witness:
  "\<exists>keys. descendants_of ''a'' [sample_entry ''a'' [], sample_entry ''b'' [''a'']] = Inr keys \<and>
    set keys = {k. (''a'', k) \<in> {(''a'', ''b'')}\<^sup>+}"
proof -
  have key: "te_key (sample_entry k ds) = k" "te_dependencies (sample_entry k ds) = ds" for k ds
    by (simp_all add: sample_entry_def sample_task_def)
  then have "plan_closed [sample_entry ''a'' [], sample_entry ''b'' [''a'']]"
    by (simp add: plan_closed_def)
  from descendants_exact [OF this, of "''a''"] show ?thesis by (simp add: entry_edges_def key)
qed

end
