(* ===== verification/V1_Errors.thy ===== *)
theory V1_Errors
  imports Json
begin

text \<open>
  Names and messages of the exceptions of the first-generation engine (\<open>errors.py\<close>), and which of
  them are an \<open>ExecutorError\<close> or a \<open>TaskExecutionError\<close>.  \<open>SubprocessExecutionError\<close>,
  \<open>SubprocessSecurityError\<close> and \<open>ExecutionTimeoutError\<close> are \<open>TaskExecution\<close> values with the type,
  message and category that their constructors pass on.
\<close>

primrec v1_error_name :: "v1_error \<Rightarrow> string" where
  "v1_error_name (DefinitionError m) = ''DefinitionError''"
| "v1_error_name (InvalidWorkflowDefinition w r) = ''InvalidWorkflowDefinitionError''"
| "v1_error_name (DuplicateTaskDefinition w t) = ''DuplicateTaskDefinitionError''"
| "v1_error_name (UnknownDependency t d) = ''UnknownDependencyError''"
| "v1_error_name (SelfDependency t) = ''SelfDependencyError''"
| "v1_error_name (DuplicateDependency t d) = ''DuplicateDependencyError''"
| "v1_error_name (CycleDetected ts) = ''CycleDetectedError''"
| "v1_error_name (InvalidExecutionPlan r) = ''InvalidExecutionPlanError''"
| "v1_error_name (PlanningInvariant r) = ''PlanningInvariantError''"
| "v1_error_name (TimeoutCapability t m k s) = ''TimeoutCapabilityError''"
| "v1_error_name (DuplicateHandlerRegistration h) = ''DuplicateHandlerRegistrationError''"
| "v1_error_name (HandlerNotFound h) = ''HandlerNotFoundError''"
| "v1_error_name (InvalidHandler t r) = ''InvalidHandlerError''"
| "v1_error_name (TaskExecution t h ty m c) = ''TaskExecutionError''"
| "v1_error_name (ExternalWorkload p w ty m c x) = ''ExternalWorkloadError''"
| "v1_error_name (CapacityConfiguration r) = ''CapacityConfigurationError''"
| "v1_error_name (CapacityInvariant r) = ''CapacityInvariantError''"
| "v1_error_name (CapacityRelease r) = ''CapacityReleaseError''"
| "v1_error_name (InvalidWorkflowParameters r) = ''InvalidWorkflowParametersError''"
| "v1_error_name (ReconciliationError i r) = ''ReconciliationError''"
| "v1_error_name (ResumeError i r) = ''ResumeError''"
| "v1_error_name (SerializationError p t r) = ''SerializationError''"
| "v1_error_name (InvalidEventSequence i p a) = ''InvalidEventSequenceError''"
| "v1_error_name (UnitOfWorkState r) = ''UnitOfWorkStateError''"

definition run_suffix :: "string option \<Rightarrow> string" where
  "run_suffix external_run_id = (case external_run_id of None \<Rightarrow> []
     | Some x \<Rightarrow> '' external_run_id='' @ py_quote x)"

primrec v1_error_text :: "v1_error \<Rightarrow> string" where
  "v1_error_text (DefinitionError m) = m"
| "v1_error_text (InvalidWorkflowDefinition w r) = ''Workflow '' @ py_quote w @ '' is invalid: '' @ r @ ''.''"
| "v1_error_text (DuplicateTaskDefinition w t) =
     ''Workflow '' @ py_quote w @ '' declares duplicate task '' @ py_quote t @ ''.''"
| "v1_error_text (UnknownDependency t d) =
     ''Task '' @ py_quote t @ '' depends on unknown task '' @ py_quote d @ ''.''"
| "v1_error_text (SelfDependency t) = ''Task '' @ py_quote t @ '' cannot depend on itself.''"
| "v1_error_text (DuplicateDependency t d) =
     ''Task '' @ py_quote t @ '' declares duplicate dependency '' @ py_quote d @ ''.''"
| "v1_error_text (CycleDetected ts) =
     ''Workflow dependency graph contains a cycle involving tasks: '' @ join_with '', '' (sort ts) @ ''.''"
| "v1_error_text (InvalidExecutionPlan r) = ''Execution plan is invalid: '' @ r @ ''.''"
| "v1_error_text (PlanningInvariant r) = ''Planning invariant violated: '' @ r @ ''.''"
| "v1_error_text (TimeoutCapability t m k s) =
     ''Task '' @ py_quote t @ '' requests timeout mode '' @ py_quote m @ '', but executor '' @
     py_quote k @ '' supports '' @ py_quote s @ ''.''"
| "v1_error_text (DuplicateHandlerRegistration h) =
     ''Handler reference '' @ py_quote h @ '' is already registered.''"
| "v1_error_text (HandlerNotFound h) = ''Handler reference '' @ py_quote h @ '' is not registered.''"
| "v1_error_text (InvalidHandler t r) = ''Handler for task '' @ py_quote t @ '' is invalid: '' @ r @ ''.''"
| "v1_error_text (TaskExecution t h ty m c) =
     ''Task '' @ py_quote t @ '' handler '' @
     py_quote (case h of None \<Rightarrow> ''<direct-handler>'' | Some x \<Rightarrow> if x = [] then ''<direct-handler>'' else x) @
     '' failed with '' @ ty @ '': '' @ m"
| "v1_error_text (ExternalWorkload p w ty m c x) =
     ''External workload '' @ py_quote (p @ '':'' @ w) @ '' failed with '' @ ty @ '': '' @ m @ ''.'' @ run_suffix x"
| "v1_error_text (CapacityConfiguration r) = ''Capacity configuration is invalid: '' @ r @ ''.''"
| "v1_error_text (CapacityInvariant r) = ''Capacity invariant violated: '' @ r @ ''.''"
| "v1_error_text (CapacityRelease r) = ''Capacity release is invalid: '' @ r @ ''.''"
| "v1_error_text (InvalidWorkflowParameters r) = ''Workflow parameters are invalid: '' @ r @ ''.''"
| "v1_error_text (ReconciliationError i r) = ''Run '' @ py_quote i @ '' cannot be reconciled: '' @ r @ ''.''"
| "v1_error_text (ResumeError i r) = ''Run '' @ py_quote i @ '' cannot be resumed: '' @ r @ ''.''"
| "v1_error_text (SerializationError p t r) =
     ''Serialization failed at '' @ py_quote p @ '' for '' @ t @ '': '' @ r @ ''.''"
| "v1_error_text (InvalidEventSequence i p a) =
     ''RuntimeEvent for run '' @ py_quote i @ '' must use a sequence greater than '' @ py_str_int p @
     '', got '' @ (case a of None \<Rightarrow> ''None'' | Some n \<Rightarrow> py_str_int n) @ ''.''"
| "v1_error_text (UnitOfWorkState r) = ''UnitOfWork state is invalid: '' @ r @ ''.''"

definition is_executor_error :: "pyexc \<Rightarrow> bool" where
  \<comment> \<open>\<open>isinstance(exc, ExecutorError)\<close>\<close>
  "is_executor_error e = (case e of ExecutorNotFound k \<Rightarrow> True
     | V1Error v \<Rightarrow> (case v of TimeoutCapability t m k s \<Rightarrow> True | DuplicateHandlerRegistration h \<Rightarrow> True
         | HandlerNotFound h \<Rightarrow> True | InvalidHandler t r \<Rightarrow> True | TaskExecution t h ty m c \<Rightarrow> True | _ \<Rightarrow> False)
     | _ \<Rightarrow> False)"

definition task_execution_error ::
  "string \<Rightarrow> string option \<Rightarrow> string \<Rightarrow> string \<Rightarrow> string option \<Rightarrow> pyexc" where
  \<comment> \<open>The constructor: \<open>error_category or error_type\<close>.\<close>
  "task_execution_error task_id handler_ref error_type error_message error_category =
     V1Error (TaskExecution task_id handler_ref error_type error_message
       (case error_category of None \<Rightarrow> error_type | Some c \<Rightarrow> if c = [] then error_type else c))"

end
