(* ===== verification/Executors.thy ===== *)
theory Executors
  imports Authoring V1_Errors
begin

text \<open>
  The executor boundary (\<open>executors/contracts.py\<close>, \<open>executors/registry.py\<close>,
  \<open>executors/_common.py\<close>, \<open>executors/inline.py\<close>): descriptors, requests and results with their
  validation, the registry, and the inline executor.

  An executor is an object; \<open>ex_object\<close> is its identity, which is all the registry compares.
  What \<open>execute\<close> and \<open>cancel\<close> of a registered executor do, and what a workload callable does
  when it is called, is code outside the program and an argument of the definitions that call it.
\<close>

section \<open>Exceptions as text\<close>

text \<open>\<open>type(exc).__name__\<close> and \<open>str(exc)\<close>, as the constructors in \<open>errors.py\<close> build them.\<close>

primrec exc_name :: "pyexc \<Rightarrow> string" where
  "exc_name (TypeError m) = ''TypeError''"
| "exc_name (ValueError m) = ''ValueError''"
| "exc_name (KeyError k) = ''KeyError''"
| "exc_name (RuntimeInvariant r) = ''RuntimeInvariantError''"
| "exc_name (ExecutorNotFound k) = ''ExecutorNotFoundError''"
| "exc_name (WorkflowNotFound r) = ''WorkflowNotFoundError''"
| "exc_name (InvalidRunStateForResume r s) = ''InvalidRunStateForResumeError''"
| "exc_name (GraphTopologyMismatch r e a) = ''GraphTopologyMismatchError''"
| "exc_name (DuplicateReconciliationVerifier p) = ''DuplicateReconciliationVerifierError''"
| "exc_name (MetadataNotFound t i) = ''MetadataNotFoundError''"
| "exc_name (DuplicateMetadata t i) = ''DuplicateMetadataError''"
| "exc_name (MetadataConflict t i e a) = ''MetadataConflictError''"
| "exc_name (MetadataInvariant r) = ''MetadataInvariantError''"
| "exc_name (InvalidStateTransition t i c g) = ''InvalidStateTransitionError''"
| "exc_name (TerminalState t i c g) = ''TerminalStateError''"
| "exc_name (CircularDependency ks) = ''CircularDependencyError''"
| "exc_name (OverflowError m) = ''OverflowError''"
| "exc_name (V1Error v) = v1_error_name v"
| "exc_name (Raised n t) = n"
| "exc_name Diverged = []"

definition resume_error :: "string \<Rightarrow> string \<Rightarrow> string" where
  "resume_error run_id reason = ''Run '' @ py_quote run_id @ '' cannot be resumed: '' @ reason @ ''.''"

primrec exc_text :: "pyexc \<Rightarrow> string" where
  "exc_text (TypeError m) = m"
| "exc_text (ValueError m) = m"
| "exc_text (KeyError k) = py_quote k"
| "exc_text (RuntimeInvariant r) = ''Runtime invariant violated: '' @ r @ ''.''"
| "exc_text (ExecutorNotFound k) = ''Executor '' @ py_quote k @ '' is not available.''"
| "exc_text (WorkflowNotFound r) = resume_error r ''workflow run not found in metadata store''"
| "exc_text (InvalidRunStateForResume r s) = resume_error r (''workflow run is in status '' @ py_quote s @
     ''; only terminal failed, cancelled or timed out runs can be resumed'')"
| "exc_text (GraphTopologyMismatch r e a) = resume_error r
     (''graph topology mismatch: expected definition fingerprint '' @ py_quote e @ '', got '' @ py_quote a)"
| "exc_text (DuplicateReconciliationVerifier p) =
     ''External-run verifier for provider '' @ py_quote p @ '' is already registered.''"
| "exc_text (MetadataNotFound t i) = t @ '' '' @ py_quote i @ '' was not found.''"
| "exc_text (DuplicateMetadata t i) = t @ '' '' @ py_quote i @ '' already exists.''"
| "exc_text (MetadataConflict t i e a) = t @ '' '' @ py_quote i @ '' persistence conflict: expected '' @ e @
     '', observed '' @ a @ ''.''"
| "exc_text (MetadataInvariant r) = ''Metadata invariant violated: '' @ r @ ''.''"
| "exc_text (InvalidStateTransition t i c g) =
     t @ '' '' @ py_quote i @ '' cannot transition from '' @ c @ '' to '' @ g @ ''.''"
| "exc_text (TerminalState t i c g) =
     t @ '' '' @ py_quote i @ '' is terminal in '' @ c @ '' and cannot transition to '' @ g @ ''.''"
| "exc_text (CircularDependency ks) =
     ''Workflow dependency graph contains a cycle involving tasks: '' @ join_with '', '' ks @ ''.''"
| "exc_text (OverflowError m) = m"
| "exc_text (V1Error v) = v1_error_text v"
| "exc_text (Raised n t) = t"
| "exc_text Diverged = []"

section \<open>Descriptors, requests and results\<close>

datatype cancellation_capability = CAP_UNSUPPORTED | CAP_BEST_EFFORT | CAP_CONFIRMED

datatype cancellation_status =
  CS_REQUESTED | CS_CONFIRMED | CS_UNSUPPORTED | CS_UNCONFIRMED | CS_ALREADY_TERMINAL

record executor_descriptor =
  ed_executor_id :: string
  ed_display_name :: string
  ed_executor_version :: string
  ed_capabilities :: "string list"
  ed_execution_modes :: "string list"
  ed_portability_constraints :: "string list"
  ed_supported_workload_kinds :: "string list"
  ed_implicit_retry :: bool
  ed_supports_timeout :: bool
  ed_cancellation :: cancellation_capability

definition sorted_set :: "string list \<Rightarrow> string list" where
  \<comment> \<open>\<open>tuple(sorted(set(values)))\<close>\<close>
  "sorted_set xs = sort (remdups xs)"

definition mk_executor_descriptor :: "executor_descriptor \<Rightarrow> executor_descriptor result" where
  "mk_executor_descriptor d =
     thenR (required_text ''executor_id'' (ed_executor_id d))
    (thenR (required_text ''display_name'' (ed_display_name d))
    (thenR (required_text ''executor_version'' (ed_executor_version d))
    (thenR (forR (ed_capabilities d) (required_text ''capabilities''))
    (thenR (forR (ed_execution_modes d) (required_text ''execution_modes''))
    (thenR (forR (ed_portability_constraints d) (required_text ''portability_constraints''))
    (thenR (forR (ed_supported_workload_kinds d) (required_text ''supported_workload_kinds''))
    (Inr (d\<lparr>ed_capabilities := sorted_set (ed_capabilities d),
            ed_execution_modes := sorted_set (ed_execution_modes d),
            ed_portability_constraints := sorted_set (ed_portability_constraints d),
            ed_supported_workload_kinds := sorted_set (ed_supported_workload_kinds d)\<rparr>))))))))"

record execution_context =
  xc_workflow_run_id :: workflow_run_id
  xc_task_run_id :: task_run_id
  xc_attempt_id :: task_attempt_id
  xc_attempt_number :: int
  xc_correlation :: correlation_context
  xc_dependency_outputs :: "(string, pyval) dict"
  xc_workload_parameters :: "(string, string) dict"

definition mk_execution_context :: "execution_context \<Rightarrow> execution_context result" where
  "mk_execution_context c =
     thenR (require (1 \<le> xc_attempt_number c)
       (ValueError ''attempt_number must be greater than or equal to 1''))
    (thenR (forR (map fst (xc_dependency_outputs c)) (required_text ''dependency output key''))
    (thenR (forR (map fst (xc_workload_parameters c)) (required_text ''workload parameter key''))
    (Inr c)))"

record execution_request =
  rq_task_key :: string
  rq_workload :: workload
  rq_executor_key :: string
  rq_context :: execution_context
  rq_deadline_at :: "datetime option"

definition mk_execution_request :: "execution_request \<Rightarrow> execution_request result" where
  "mk_execution_request r =
     thenR (required_text ''task_key'' (rq_task_key r))
    (thenR (required_text ''executor_key'' (rq_executor_key r))
    (thenR (ensure_aware ''deadline_at'' (rq_deadline_at r))
    (Inr r)))"

record execution_result =
  xr_output :: pyval
  xr_failure :: "failure_evidence option"
  xr_diagnostics :: "diagnostic list"
  xr_external_runs :: "external_run_ref list"

definition xr_succeeded :: "execution_result \<Rightarrow> bool" where
  "xr_succeeded r \<longleftrightarrow> xr_failure r = None"

definition output_result :: "pyval \<Rightarrow> execution_result" where
  "output_result v = \<lparr>xr_output = v, xr_failure = None, xr_diagnostics = [], xr_external_runs = []\<rparr>"

definition failed_result :: "failure_evidence \<Rightarrow> execution_result" where
  "failed_result f = \<lparr>xr_output = PyNone, xr_failure = Some f, xr_diagnostics = [], xr_external_runs = []\<rparr>"

record cancellation_request =
  cr_workflow_run_id :: workflow_run_id
  cr_task_run_id :: task_run_id
  cr_attempt_id :: task_attempt_id
  cr_task_key :: string
  cr_requested_at :: datetime
  cr_reason :: string

definition mk_cancellation_request :: "cancellation_request \<Rightarrow> cancellation_request result" where
  "mk_cancellation_request r =
     thenR (required_text ''task_key'' (cr_task_key r))
    (thenR (ensure_aware ''requested_at'' (Some (cr_requested_at r)))
    (thenR (required_text ''reason'' (cr_reason r))
    (Inr r)))"

record cancellation_ack =
  \<comment> \<open>\<open>TaskCancellationResult\<close>\<close>
  ck_status :: cancellation_status
  ck_attempt_id :: task_attempt_id
  ck_reason :: string
  ck_diagnostics :: "diagnostic list"
  ck_external_runs :: "external_run_ref list"

definition mk_cancellation_ack :: "cancellation_ack \<Rightarrow> cancellation_ack result" where
  "mk_cancellation_ack a = thenR (required_text ''reason'' (ck_reason a)) (Inr a)"

section \<open>The registry\<close>

record executor =
  ex_object :: nat
  ex_descriptor :: executor_descriptor
  ex_cancellable :: bool

type_synonym executor_registry = "(string, executor) dict"

definition register :: "executor \<Rightarrow> executor_registry \<Rightarrow> executor_registry result" where
  "register ex registry = (let executor_id = ed_executor_id (ex_descriptor ex) in
     case dict_get registry executor_id of
       Some existing \<Rightarrow> (if ex_object existing = ex_object ex then Inr registry
         else Inl (ValueError (''executor '' @ py_quote executor_id @ '' is already registered'')))
     | None \<Rightarrow> Inr (dict_set executor_id ex registry))"

definition resolve :: "executor_registry \<Rightarrow> string \<Rightarrow> executor result" where
  "resolve registry executor_id =
     thenR (require (\<not> blank executor_id) (ValueError ''executor_id must not be empty''))
       (case dict_get registry executor_id of
          None \<Rightarrow> Inl (ExecutorNotFound executor_id) | Some ex \<Rightarrow> Inr ex)"

definition executor_ids :: "executor_registry \<Rightarrow> string list" where
  "executor_ids registry = sort (map fst registry)"

definition descriptors :: "executor_registry \<Rightarrow> executor_descriptor list" where
  "descriptors registry = map (\<lambda>k. ex_descriptor (the (dict_get registry k))) (executor_ids registry)"

section \<open>Calling a handler\<close>

text \<open>A handler is the callable a task declares, or the object bound to a registry key.\<close>

datatype handler = DeclaredCallable workload | BoundHandler nat

datatype returned = PlainValue pyval | ResultValue execution_result

datatype param_kind =
  POSITIONAL_ONLY | POSITIONAL_OR_KEYWORD | VAR_POSITIONAL | KEYWORD_ONLY | VAR_KEYWORD

record parameter =
  pm_kind :: param_kind
  pm_default :: bool

definition binds :: "parameter list \<Rightarrow> nat \<Rightarrow> bool" where
  \<comment> \<open>\<open>signature.bind(*args)\<close> accepts \<open>n\<close> positional arguments.\<close>
  "binds ps n =
     (let positional = filter (\<lambda>p. pm_kind p \<in> {POSITIONAL_ONLY, POSITIONAL_OR_KEYWORD}) ps in
      (n \<le> length positional \<or> list_ex (\<lambda>p. pm_kind p = VAR_POSITIONAL) ps) \<and>
      list_all pm_default (drop n positional) \<and>
      list_all (\<lambda>p. pm_kind p = KEYWORD_ONLY \<longrightarrow> pm_default p) ps)"

definition can_bind :: "parameter list \<Rightarrow> nat \<Rightarrow> bool" where
  "can_bind ps n \<longleftrightarrow> binds ps n \<and> list_all (\<lambda>p. pm_kind p \<notin> {VAR_POSITIONAL, VAR_KEYWORD}) ps"

definition is_type_or_value_error :: "pyexc \<Rightarrow> bool" where
  \<comment> \<open>\<open>isinstance(exc, (TypeError, ValueError))\<close>; \<open>CircularDependencyError\<close> is a \<open>ValueError\<close>.\<close>
  "is_type_or_value_error e = (case e of TypeError m \<Rightarrow> True | ValueError m \<Rightarrow> True
     | CircularDependency ks \<Rightarrow> True | _ \<Rightarrow> False)"

definition resolve_invocation_arity :: "parameter list result \<Rightarrow> nat result" where
  \<comment> \<open>The argument is what \<open>inspect.signature(handler)\<close> returns or raises.\<close>
  "resolve_invocation_arity inspected = (case inspected of
     Inl e \<Rightarrow> (if is_type_or_value_error e then Inl (ValueError ''handler signature cannot be inspected'')
              else Inl e)
   | Inr ps \<Rightarrow> (if can_bind ps 0 then Inr 0 else if can_bind ps 1 then Inr 1
       else Inl (ValueError ''handler must accept zero arguments or one TaskExecutionContext argument'')))"

definition failure_defaults :: "correlation_id \<Rightarrow> datetime \<Rightarrow> failure_evidence" where
  \<comment> \<open>The dataclass defaults; \<open>occurred_at\<close> is \<open>datetime.now(UTC)\<close>.\<close>
  "failure_defaults cid now =
     \<lparr>fe_error_code = [], fe_category = F_INTERNAL, fe_retryability = R_UNKNOWN,
      fe_uncertainty = U_KNOWN, fe_correlation_id = cid, fe_source_framework = ''pyworkflowkit'',
      fe_workflow_run_id = None, fe_task_run_id = None, fe_task_attempt_id = None,
      fe_external_run = None, fe_source_component = None, fe_provider_code = None,
      fe_message_summary = None, fe_occurred_at = now, fe_details = [], fe_contract_version = ''1''\<rparr>"

definition request_failure ::
  "execution_context \<Rightarrow> datetime \<Rightarrow> string \<Rightarrow> failure_category \<Rightarrow> retryability \<Rightarrow>
   outcome_uncertainty \<Rightarrow> string \<Rightarrow> string \<Rightarrow> failure_evidence result" where
  \<comment> \<open>\<open>FailureEvidence(...)\<close> with the identities of one attempt.\<close>
  "request_failure c now error_code category retryability uncertainty component summary =
     mk_failure_evidence ((failure_defaults (cc_correlation_id (xc_correlation c)) now)
       \<lparr>fe_error_code := error_code, fe_category := category, fe_retryability := retryability,
        fe_uncertainty := uncertainty,
        fe_workflow_run_id := Some (wid_str (xc_workflow_run_id c)),
        fe_task_run_id := Some (tid_str (xc_task_run_id c)),
        fe_task_attempt_id := Some (aid_str (xc_attempt_id c)),
        fe_source_component := Some component, fe_message_summary := Some summary\<rparr>)"

definition exc_summary :: "pyexc \<Rightarrow> string" where
  \<comment> \<open>\<open>str(exc) or type(exc).__name__\<close>\<close>
  "exc_summary e = (if exc_text e = [] then exc_name e else exc_text e)"

definition resolve_handler ::
  "execution_request \<Rightarrow> (string, nat) dict \<Rightarrow> handler option \<times> (string, string) dict" where
  "resolve_handler request bindings = (case rq_workload request of
     Registered w \<Rightarrow> (map_option BoundHandler (dict_get bindings (rw_registry_key w)), rw_parameters w)
   | LocalCallable m q \<Rightarrow> (Some (DeclaredCallable (rq_workload request)), [])
   | Descriptor d \<Rightarrow> (None, []))"

definition failure_result ::
  "('s, datetime) act \<Rightarrow> execution_request \<Rightarrow> string \<Rightarrow> failure_category \<Rightarrow> retryability \<Rightarrow>
   outcome_uncertainty \<Rightarrow> string \<Rightarrow> string \<Rightarrow> ('s, execution_result) act" where
  "failure_result utc_now request error_code category retryability uncertainty component summary =
     bindA utc_now (\<lambda>now.
     bindA (liftR (request_failure (rq_context request) now error_code category retryability
       uncertainty component summary)) (\<lambda>failure. ret (failed_result failure)))"

definition invoke_handler ::
  "('s, datetime) act \<Rightarrow> (handler \<Rightarrow> execution_context option \<Rightarrow> ('s, returned) act) \<Rightarrow>
   handler \<Rightarrow> nat \<Rightarrow> execution_context \<Rightarrow> execution_request \<Rightarrow> string \<Rightarrow> ('s, execution_result) act" where
  "invoke_handler utc_now call handler arity context request component =
     bindA (attemptA (call handler (if arity = 0 then None else Some context))) (\<lambda>outcome.
     case outcome of
       Inl e \<Rightarrow> failure_result utc_now request (exc_name e) F_INTERNAL R_NON_RETRYABLE U_KNOWN
         component (exc_summary e)
     | Inr (ResultValue r) \<Rightarrow> ret r
     | Inr (PlainValue v) \<Rightarrow> ret (output_result v))"

definition bound_context ::
  "execution_request \<Rightarrow> (string, string) dict \<Rightarrow> execution_context result" where
  "bound_context request parameters =
     mk_execution_context ((rq_context request)\<lparr>xc_workload_parameters := parameters\<rparr>)"

section \<open>The inline executor\<close>

definition INLINE_DESCRIPTOR :: executor_descriptor where
  "INLINE_DESCRIPTOR =
     \<lparr>ed_executor_id = ''inline'', ed_display_name = ''Inline Executor'', ed_executor_version = ''1'',
      ed_capabilities = [''synchronous'', ''trusted_python''],
      ed_execution_modes = [''current_process''],
      ed_portability_constraints = [''process_local_execution''],
      ed_supported_workload_kinds = [''python_callable'', ''registered''],
      ed_implicit_retry = False, ed_supports_timeout = False, ed_cancellation = CAP_UNSUPPORTED\<rparr>"

definition inline_register :: "string \<Rightarrow> nat \<Rightarrow> (string, nat) dict \<Rightarrow> (string, nat) dict result" where
  "inline_register key handler bindings =
     thenR (require (\<not> blank key) (ValueError ''registered workload key must not be empty''))
    (thenR (require (\<not> dict_has bindings key)
       (ValueError (''registered workload '' @ py_quote key @ '' already exists'')))
    (Inr (dict_set key handler bindings)))"

definition inline_failure ::
  "('s, datetime) act \<Rightarrow> execution_request \<Rightarrow> string \<Rightarrow> failure_category \<Rightarrow> string \<Rightarrow>
   ('s, execution_result) act" where
  "inline_failure utc_now request error_code category summary =
     failure_result utc_now request error_code category R_NON_RETRYABLE U_KNOWN ''inline_executor'' summary"

definition inline_execute ::
  "(string, nat) dict \<Rightarrow> ('s, datetime) act \<Rightarrow> (handler \<Rightarrow> parameter list result) \<Rightarrow>
   (handler \<Rightarrow> execution_context option \<Rightarrow> ('s, returned) act) \<Rightarrow>
   execution_request \<Rightarrow> ('s, execution_result) act" where
  "inline_execute bindings utc_now inspect call request =
     (if rq_executor_key request \<noteq> ed_executor_id INLINE_DESCRIPTOR then
        inline_failure utc_now request ''PWK-EXECUTOR-MISMATCH'' F_CAPABILITY
          (''request requires executor '' @ py_quote (rq_executor_key request) @
           '', but InlineExecutor is '' @ py_quote (ed_executor_id INLINE_DESCRIPTOR))
      else case resolve_handler request bindings of
        (None, parameters) \<Rightarrow>
          inline_failure utc_now request ''PWK-INLINE-WORKLOAD-UNRESOLVED'' F_CAPABILITY
            ''InlineExecutor cannot resolve the declared workload''
      | (Some handler, parameters) \<Rightarrow>
          bindA (liftR (bound_context request parameters)) (\<lambda>context.
          case resolve_invocation_arity (inspect handler) of
            Inl e \<Rightarrow> (if is_type_or_value_error e then
                inline_failure utc_now request ''PWK-INLINE-HANDLER-CONTRACT'' F_CONTRACT_VIOLATION (exc_text e)
              else raise e)
          | Inr arity \<Rightarrow> invoke_handler utc_now call handler arity context request ''inline_executor''))"


section \<open>The contract of the registry\<close>

text \<open>A registered executor is found again under its identifier: after a successful registration the
  identifier resolves to the registered object, every other identifier resolves as before, and the
  registry lists exactly the identifiers it had and this one, each once and in order.  Registering the
  same object twice changes nothing.\<close>
theorem register_then_resolve:
  assumes "dict_ok registry" "register ex registry = Inr registry'"
    and "\<not> blank (ed_executor_id (ex_descriptor ex))"
  shows "(\<exists>found. resolve registry' (ed_executor_id (ex_descriptor ex)) = Inr found \<and> ex_object found = ex_object ex) \<and>
    (\<forall>i. i \<noteq> ed_executor_id (ex_descriptor ex) \<longrightarrow> resolve registry' i = resolve registry i) \<and>
    set (executor_ids registry') = insert (ed_executor_id (ex_descriptor ex)) (set (executor_ids registry)) \<and>
    distinct (executor_ids registry') \<and> sorted (executor_ids registry') \<and>
    register ex registry' = Inr registry'"
proof -
  let ?i = "ed_executor_id (ex_descriptor ex)"
  have ids: "set (executor_ids r) = fst ` set r" for r by (simp add: executor_ids_def)
  have "dict_ok registry'"
    using assms(1,2) by (auto simp: register_def Let_def split: option.splits if_splits)
  then have "distinct (executor_ids registry')" "sorted (executor_ids registry')"
    by (simp_all add: executor_ids_def dict_ok_def)
  moreover consider (old) found where "dict_get registry ?i = Some found" "ex_object found = ex_object ex" "registry' = registry"
    | (new) "dict_get registry ?i = None" "registry' = dict_set ?i ex registry"
    using assms(2) by (auto simp: register_def Let_def split: option.splits if_splits)
  then have "(\<exists>found. dict_get registry' ?i = Some found \<and> ex_object found = ex_object ex) \<and>
      (\<forall>i. i \<noteq> ?i \<longrightarrow> dict_get registry' i = dict_get registry i) \<and>
      set (executor_ids registry') = insert ?i (set (executor_ids registry))"
  proof cases
    case old
    then have "?i \<in> fst ` set registry" by (metis dict_has_iff)
    with old show ?thesis by (auto simp: ids)
  next
    case new
    then show ?thesis by (simp add: ids dict_get_set dict_set_keys)
  qed
  ultimately show ?thesis
    using assms(3) by (auto simp: resolve_def register_def require_def Let_def)
qed

definition sample_registration :: executor where
  "sample_registration = \<lparr>ex_object = 7, ex_descriptor = INLINE_DESCRIPTOR, ex_cancellable = False\<rparr>"

theorem register_then_resolve_witness:
  "\<exists>registry found. register sample_registration [] = Inr registry \<and>
    resolve registry ''inline'' = Inr found \<and> ex_object found = 7"
proof -
  have facts: "register sample_registration [] = Inr [(''inline'', sample_registration)]"
    "\<not> blank (ed_executor_id (ex_descriptor sample_registration))"
    "ed_executor_id (ex_descriptor sample_registration) = ''inline''" "ex_object sample_registration = 7"
    by code_simp+
  with register_then_resolve [OF dict_ok_Nil facts(1,2)] show ?thesis by auto
qed

end
