(* ===== verification/World.thy ===== *)
theory World
  imports Readiness Executors
begin

text \<open>
  The world a runtime works in and the law its store evolves by.  \<open>services\<close> collects what
  \<open>WorkflowRuntime\<close> is given by its caller (clock, identity factory, executors, retry waiter,
  external-run verifiers, telemetry bridge); each is a computation on the world, because other threads may use the same
  store while a service call lasts.  \<open>transition_workflow\<close> and its kin are the private methods
  \<open>_transition_...\<close> that \<open>runtime/workflow.py\<close> and \<open>runtime/reconciliation.py\<close> share word for
  word: a state-machine step, then a compare-and-set in the store.

  \<open>evolves\<close> is the law: a consistent store stays consistent, the journal is only appended to,
  and only by steps the state machines allow, no entity disappears or changes identity, and a
  terminal entity never changes again.
\<close>

section \<open>Services\<close>

datatype external_run_status = X_RUNNING | X_SUCCEEDED | X_FAILED | X_CANCELLED | X_NOT_FOUND | X_UNKNOWN

record world =
  w_store :: store
  w_active :: "(task_attempt_id, execution_request) dict"
  w_calls :: nat  \<comment> \<open>how many times a service was called; a source of distinct answers\<close>

record services =
  sv_now :: "(world, datetime) act"
  sv_utc :: "(world, int) act"  \<comment> \<open>\<open>datetime.now(UTC)\<close> in microseconds\<close>
  sv_workflow_run_id :: "(world, string) act"
  sv_task_run_id :: "(world, string) act"
  sv_attempt_id :: "(world, string) act"
  sv_correlation_id :: "(world, string) act"
  sv_codec :: codec
  sv_jitter :: "pynum \<Rightarrow> pynum"
  sv_format :: "pynum \<Rightarrow> string"  \<comment> \<open>\<open>format(value, ".12g")\<close>\<close>
  sv_inject :: "correlation_context \<Rightarrow> (string \<times> string option) option"
  sv_execute :: "executor \<Rightarrow> execution_request \<Rightarrow> (world, execution_result option) act"
  sv_cancel :: "executor \<Rightarrow> cancellation_request \<Rightarrow> (world, cancellation_ack) act"
  sv_wait :: "pynum \<Rightarrow> (world, unit) act"
  sv_verify :: "nat \<Rightarrow> external_run_ref \<Rightarrow> (world, external_run_status option) act"
    \<comment> \<open>\<open>verify\<close> of a verifier object; \<open>None\<close> is an answer that is no \<open>ExternalRunStatus\<close>\<close>

definition in_store :: "(store, 'a) act \<Rightarrow> (world, 'a) act" where
  "in_store m = zoomA w_store (\<lambda>s w. w\<lparr>w_store := s\<rparr>) m"

definition now :: "services \<Rightarrow> (world, datetime) act" where
  \<comment> \<open>\<open>_now\<close>\<close>
  "now sv = bindA (sv_now sv) (\<lambda>value.
     thenA (requireA (dt_aware value) (ValueError ''clock.now() must return a timezone-aware datetime''))
       (ret value))"

definition utc_now :: "services \<Rightarrow> (world, datetime) act" where
  "utc_now sv = bindA (sv_utc sv) (\<lambda>us. ret (Datetime us True))"

definition new_workflow_run_id :: "services \<Rightarrow> (world, workflow_run_id) act" where
  "new_workflow_run_id sv = bindA (sv_workflow_run_id sv) (\<lambda>v. liftR (parse_workflow_run_id v))"

definition new_task_run_id :: "services \<Rightarrow> (world, task_run_id) act" where
  "new_task_run_id sv = bindA (sv_task_run_id sv) (\<lambda>v. liftR (parse_task_run_id v))"

definition new_task_attempt_id :: "services \<Rightarrow> (world, task_attempt_id) act" where
  "new_task_attempt_id sv = bindA (sv_attempt_id sv) (\<lambda>v. liftR (parse_task_attempt_id v))"

definition new_correlation_id :: "services \<Rightarrow> (world, correlation_id) act" where
  "new_correlation_id sv = bindA (sv_correlation_id sv) (\<lambda>v.
     liftR (thenR (identifier_post_init v) (Inr (CorrelationId v))))"

section \<open>Transitions\<close>

text \<open>The entity that a method of the source mutates is the value returned here.\<close>

definition transition_workflow ::
  "services \<Rightarrow> workflow_run \<Rightarrow> workflow_run_status \<Rightarrow> failure_evidence option \<Rightarrow> (world, workflow_run) act"
  where
  "transition_workflow sv run target failure =
     bindA (now sv) (\<lambda>ts.
     bindA (liftR (workflow_transition run target ts failure)) (\<lambda>run'.
     thenA (in_store (update_workflow_run run' (wr_status run) (Some ts))) (ret run')))"

definition transition_task ::
  "services \<Rightarrow> task_run \<Rightarrow> task_run_status \<Rightarrow> skip_reason option \<Rightarrow> failure_evidence option \<Rightarrow>
   (world, task_run) act" where
  "transition_task sv task_run target skip_reason failure =
     bindA (now sv) (\<lambda>ts.
     bindA (liftR (task_transition task_run target ts skip_reason None failure)) (\<lambda>task_run'.
     thenA (in_store (update_task_run task_run' (tr_status task_run) (Some ts))) (ret task_run')))"

definition transition_attempt ::
  "services \<Rightarrow> task_attempt \<Rightarrow> task_attempt_status \<Rightarrow> failure_evidence option \<Rightarrow> (world, task_attempt) act"
  where
  "transition_attempt sv attempt target failure =
     bindA (now sv) (\<lambda>ts.
     bindA (liftR (attempt_transition attempt target ts failure)) (\<lambda>attempt'.
     thenA (in_store (update_task_attempt attempt' (ta_status attempt) (Some ts))) (ret attempt')))"

section \<open>The law of evolution\<close>

definition legal_step :: "state_entity_type \<Rightarrow> string option \<Rightarrow> string \<Rightarrow> bool" where
  "legal_step ty f t \<longleftrightarrow> f = None \<and> t = ''PENDING'' \<or>
     (case ty of
        WORKFLOW_RUN \<Rightarrow> \<exists>a b. f = Some (workflow_status_value a) \<and> t = workflow_status_value b \<and> b \<in> workflow_transitions a
      | TASK_RUN \<Rightarrow> \<exists>a b. f = Some (task_status_value a) \<and> t = task_status_value b \<and> b \<in> task_run_transitions a
      | TASK_ATTEMPT \<Rightarrow> \<exists>a b. f = Some (attempt_status_value a) \<and> t = attempt_status_value b \<and> b \<in> task_attempt_transitions a)"

definition kept :: "('i \<Rightarrow> 'e option) \<Rightarrow> ('e \<Rightarrow> 'e \<Rightarrow> bool) \<Rightarrow> ('e \<Rightarrow> bool) \<Rightarrow> ('i \<Rightarrow> 'e option) \<Rightarrow> bool" where
  \<comment> \<open>Every entity of the first table is in the second, the same one, and unchanged if it was final.\<close>
  "kept f same final g \<longleftrightarrow> (\<forall>i e. f i = Some e \<longrightarrow> (\<exists>e'. g i = Some e' \<and> same e e' \<and> (final e \<longrightarrow> e' = e)))"

abbreviation workflow_final :: "workflow_run \<Rightarrow> bool" where
  "workflow_final w \<equiv> wr_status w \<in> WORKFLOW_TERMINAL_STATUSES"

abbreviation task_final :: "task_run \<Rightarrow> bool" where
  "task_final t \<equiv> tr_status t \<in> TASK_RUN_TERMINAL_STATUSES"

abbreviation attempt_final :: "task_attempt \<Rightarrow> bool" where
  "attempt_final a \<equiv> ta_status a \<in> TASK_ATTEMPT_TERMINAL_STATUSES"

definition evolves :: "store \<Rightarrow> store \<Rightarrow> bool" where
  "evolves s t \<longleftrightarrow> (store_ok s \<longrightarrow> store_ok t \<and>
     (\<exists>rs. st_transitions t = st_transitions s @ rs \<and>
        (\<forall>r \<in> set rs. legal_step (tx_entity_type r) (tx_from_status r) (tx_to_status r))) \<and>
     kept (dict_get (st_workflow_runs s)) same_workflow workflow_final (dict_get (st_workflow_runs t)) \<and>
     kept (dict_get (st_task_runs s)) same_task task_final (dict_get (st_task_runs t)) \<and>
     kept (dict_get (st_task_attempts s)) same_attempt attempt_final (dict_get (st_task_attempts t)) \<and>
     (\<forall>k. dict_has (st_external_refs s) k \<longrightarrow> dict_has (st_external_refs t) k) \<and>
     (\<forall>k. dict_has (st_checkpoints s) k \<longrightarrow> dict_has (st_checkpoints t) k))"

definition lawful :: "world \<Rightarrow> world \<Rightarrow> bool" where
  "lawful w v \<longleftrightarrow> evolves (w_store w) (w_store v)"

lemma same_refl [simp]: "same_workflow w w" "same_task t t" "same_attempt a a"
  by (simp_all add: same_workflow_def same_task_def same_attempt_def require_workflow_identity_def
    require_task_run_identity_def require_attempt_identity_def)

lemma same_trans:
  "same_workflow u v \<Longrightarrow> same_workflow v w \<Longrightarrow> same_workflow u w"
  "same_task r s \<Longrightarrow> same_task s t \<Longrightarrow> same_task r t"
  "same_attempt a b \<Longrightarrow> same_attempt b c \<Longrightarrow> same_attempt a c"
  by (simp_all add: same_workflow_def same_task_def same_attempt_def require_workflow_identity_def
    require_task_run_identity_def require_attempt_identity_def)

lemma kept_refl: "(\<And>e. same e e) \<Longrightarrow> kept f same final f"
  by (simp add: kept_def)

lemma kept_trans:
  assumes "\<And>x y z. same x y \<Longrightarrow> same y z \<Longrightarrow> same x z" "kept f same final g" "kept g same final h"
  shows "kept f same final h"
  unfolding kept_def
proof (intro allI impI)
  fix i e assume "f i = Some e"
  then obtain e' where e': "g i = Some e'" "same e e'" "final e \<longrightarrow> e' = e"
    using assms(2) by (auto simp: kept_def)
  then obtain e'' where "h i = Some e''" "same e' e''" "final e' \<longrightarrow> e'' = e'"
    using assms(3) by (auto simp: kept_def)
  then show "\<exists>e'. h i = Some e' \<and> same e e' \<and> (final e \<longrightarrow> e' = e)"
    using e' assms(1) by auto
qed

lemma evolves_refl: "evolves s s"
  by (auto simp: evolves_def intro: kept_refl)

lemma evolvesD:
  assumes "evolves s t" "store_ok s"
  shows "store_ok t"
    and "\<exists>rs. st_transitions t = st_transitions s @ rs \<and>
      (\<forall>r \<in> set rs. legal_step (tx_entity_type r) (tx_from_status r) (tx_to_status r))"
    and "kept (dict_get (st_workflow_runs s)) same_workflow workflow_final (dict_get (st_workflow_runs t))"
    and "kept (dict_get (st_task_runs s)) same_task task_final (dict_get (st_task_runs t))"
    and "kept (dict_get (st_task_attempts s)) same_attempt attempt_final (dict_get (st_task_attempts t))"
    and "\<forall>k. dict_has (st_external_refs s) k \<longrightarrow> dict_has (st_external_refs t) k"
    and "\<forall>k. dict_has (st_checkpoints s) k \<longrightarrow> dict_has (st_checkpoints t) k"
  using assms unfolding evolves_def by iprover+

lemma evolvesI:
  assumes "store_ok s \<Longrightarrow> store_ok t"
    and "store_ok s \<Longrightarrow> \<exists>rs. st_transitions t = st_transitions s @ rs \<and>
      (\<forall>r \<in> set rs. legal_step (tx_entity_type r) (tx_from_status r) (tx_to_status r))"
    and "store_ok s \<Longrightarrow> kept (dict_get (st_workflow_runs s)) same_workflow workflow_final (dict_get (st_workflow_runs t))"
    and "store_ok s \<Longrightarrow> kept (dict_get (st_task_runs s)) same_task task_final (dict_get (st_task_runs t))"
    and "store_ok s \<Longrightarrow> kept (dict_get (st_task_attempts s)) same_attempt attempt_final (dict_get (st_task_attempts t))"
    and "store_ok s \<Longrightarrow> \<forall>k. dict_has (st_external_refs s) k \<longrightarrow> dict_has (st_external_refs t) k"
    and "store_ok s \<Longrightarrow> \<forall>k. dict_has (st_checkpoints s) k \<longrightarrow> dict_has (st_checkpoints t) k"
  shows "evolves s t"
  unfolding evolves_def using assms by iprover

lemma evolves_trans:
  assumes st: "evolves s t" and tu: "evolves t u"
  shows "evolves s u"
proof (rule evolvesI)
  assume ok: "store_ok s"
  note a = evolvesD [OF st ok] and b = evolvesD [OF tu evolvesD(1) [OF st ok]]
  show "store_ok u" by (rule b(1))
  from a(2) b(2) obtain rs qs where "st_transitions t = st_transitions s @ rs" "st_transitions u = st_transitions t @ qs"
    "\<forall>r \<in> set rs. legal_step (tx_entity_type r) (tx_from_status r) (tx_to_status r)"
    "\<forall>r \<in> set qs. legal_step (tx_entity_type r) (tx_from_status r) (tx_to_status r)" by blast
  then show "\<exists>rs. st_transitions u = st_transitions s @ rs \<and>
      (\<forall>r \<in> set rs. legal_step (tx_entity_type r) (tx_from_status r) (tx_to_status r))"
    by (intro exI [of _ "rs @ qs"]) auto
  show "kept (dict_get (st_workflow_runs s)) same_workflow workflow_final (dict_get (st_workflow_runs u))"
    by (rule kept_trans [OF same_trans(1) a(3) b(3)])
  show "kept (dict_get (st_task_runs s)) same_task task_final (dict_get (st_task_runs u))"
    by (rule kept_trans [OF same_trans(2) a(4) b(4)])
  show "kept (dict_get (st_task_attempts s)) same_attempt attempt_final (dict_get (st_task_attempts u))"
    by (rule kept_trans [OF same_trans(3) a(5) b(5)])
  show "\<forall>k. dict_has (st_external_refs s) k \<longrightarrow> dict_has (st_external_refs u) k" using a(6) b(6) by blast
  show "\<forall>k. dict_has (st_checkpoints s) k \<longrightarrow> dict_has (st_checkpoints u) k" using a(7) b(7) by blast
qed

interpretation evolution: state_preorder evolves
  by unfold_locales (rule evolves_refl, rule evolves_trans)

interpretation law: state_preorder lawful
  unfolding lawful_def by unfold_locales (rule evolves_refl, rule evolves_trans)

section \<open>Every store operation of the runtime obeys the law\<close>

lemma evolves_unchanged_or:
  "s' = s \<or> evolves s s' \<Longrightarrow> evolves s s'"
  using evolves_refl by auto

lemma evolves_same_tables:
  assumes "store_ok s \<Longrightarrow> store_ok t" "st_transitions t = st_transitions s"
    "st_workflow_runs t = st_workflow_runs s" "st_task_runs t = st_task_runs s"
    "st_task_attempts t = st_task_attempts s"
    "\<And>k. dict_has (st_external_refs s) k \<Longrightarrow> dict_has (st_external_refs t) k"
    "\<And>k. dict_has (st_checkpoints s) k \<Longrightarrow> dict_has (st_checkpoints t) k"
  shows "evolves s t"
  by (rule evolvesI) (simp_all add: assms kept_refl)

lemma kept_set:
  assumes "\<And>c. dict_get d k = Some c \<Longrightarrow> same c v \<and> \<not> final c" "\<And>e. same e e"
  shows "kept (dict_get d) same final (dict_get (dict_set k v d))"
  using assms by (auto simp: kept_def dict_get_set)

lemma maintains_evolvesI:
  assumes "\<And>s r t. store_ok s \<Longrightarrow> m s = (r, t) \<Longrightarrow> evolves s t"
  shows "maintains evolves m"
proof (rule maintainsI)
  fix s
  show "evolves s (snd (m s))"
    using assms [OF _ surjective_pairing, of s] by (cases "store_ok s") (simp_all add: evolves_def)
qed

abbreviation legal_records :: "transition_record list \<Rightarrow> bool" where
  "legal_records rs \<equiv> \<forall>r \<in> set rs. legal_step (tx_entity_type r) (tx_from_status r) (tx_to_status r)"

lemma evolves_put_workflow:
  assumes "store_ok t" "st_transitions t = st_transitions s @ rs" "legal_records rs"
    and "\<And>c. dict_get (st_workflow_runs s) (wr_run_id w) = Some c \<Longrightarrow> same_workflow c w \<and> \<not> workflow_final c"
    and "st_workflow_runs t = dict_set (wr_run_id w) w (st_workflow_runs s)"
    "st_task_runs t = st_task_runs s" "st_task_attempts t = st_task_attempts s"
    "st_external_refs t = st_external_refs s" "st_checkpoints t = st_checkpoints s"
  shows "evolves s t"
proof (rule evolvesI)
  show "\<exists>rs. st_transitions t = st_transitions s @ rs \<and> legal_records rs" using assms(2,3) by blast
  show "kept (dict_get (st_workflow_runs s)) same_workflow workflow_final (dict_get (st_workflow_runs t))"
    unfolding assms(5) by (rule kept_set) (simp_all add: assms(4))
qed (simp_all add: assms kept_refl)

lemma evolves_put_task:
  assumes "store_ok t" "st_transitions t = st_transitions s @ rs" "legal_records rs"
    and "\<And>c. dict_get (st_task_runs s) (tr_task_run_id w) = Some c \<Longrightarrow> same_task c w \<and> \<not> task_final c"
    and "st_task_runs t = dict_set (tr_task_run_id w) w (st_task_runs s)"
    "st_workflow_runs t = st_workflow_runs s" "st_task_attempts t = st_task_attempts s"
    "st_external_refs t = st_external_refs s" "st_checkpoints t = st_checkpoints s"
  shows "evolves s t"
proof (rule evolvesI)
  show "\<exists>rs. st_transitions t = st_transitions s @ rs \<and> legal_records rs" using assms(2,3) by blast
  show "kept (dict_get (st_task_runs s)) same_task task_final (dict_get (st_task_runs t))"
    unfolding assms(5) by (rule kept_set) (simp_all add: assms(4))
qed (simp_all add: assms kept_refl)

lemma evolves_put_attempt:
  assumes "store_ok t" "st_transitions t = st_transitions s @ rs" "legal_records rs"
    and "\<And>c. dict_get (st_task_attempts s) (ta_attempt_id w) = Some c \<Longrightarrow> same_attempt c w \<and> \<not> attempt_final c"
    and "st_task_attempts t = dict_set (ta_attempt_id w) w (st_task_attempts s)"
    "st_workflow_runs t = st_workflow_runs s" "st_task_runs t = st_task_runs s"
    "st_external_refs t = st_external_refs s" "st_checkpoints t = st_checkpoints s"
  shows "evolves s t"
proof (rule evolvesI)
  show "\<exists>rs. st_transitions t = st_transitions s @ rs \<and> legal_records rs" using assms(2,3) by blast
  show "kept (dict_get (st_task_attempts s)) same_attempt attempt_final (dict_get (st_task_attempts t))"
    unfolding assms(5) by (rule kept_set) (simp_all add: assms(4))
qed (simp_all add: assms kept_refl)

lemma journal_transitions [simp]:
  "st_transitions (journal ty i f t ts s) = st_transitions s @ [\<lparr>tx_sequence = st_next_sequence s,
     tx_entity_type = ty, tx_entity_id = i, tx_from_status = f, tx_to_status = t, tx_occurred_at = ts\<rparr>]"
  by (simp add: journal_def)

lemma create_workflow_run_evolves:
  assumes nb: "\<not> blank (wid_str (wr_run_id w))"
  shows "maintains evolves (create_workflow_run w)"
proof (rule maintains_evolvesI)
  fix s r t assume ok: "store_ok s" and c: "create_workflow_run w s = (r, t)"
  have t: "store_ok t" by (rule create_workflow_run_ok [OF ok nb c])
  from create_workflow_run_cases [OF ok nb c] show "evolves s t"
  proof (elim disjE conjE)
    assume fresh: "\<not> dict_has (st_workflow_runs s) (wr_run_id w)"
      and "t = journal WORKFLOW_RUN (wid_str (wr_run_id w)) None ''PENDING'' (wr_created_at w) (put_workflow w s)"
    then show ?thesis
      by (intro evolves_put_workflow [OF t, where w = w])
        (auto simp: put_workflow_def legal_step_def dict_get_None_iff [symmetric])
  qed (simp add: evolves_refl)
qed

lemma create_task_run_evolves:
  assumes nb: "\<not> blank (tid_str (tr_task_run_id w))"
  shows "maintains evolves (create_task_run w)"
proof (rule maintains_evolvesI)
  fix s r t assume ok: "store_ok s" and c: "create_task_run w s = (r, t)"
  have t: "store_ok t" by (rule create_task_run_ok [OF ok nb c])
  from create_task_run_cases [OF ok nb c] show "evolves s t"
  proof (elim disjE conjE)
    assume "\<not> dict_has (st_task_runs s) (tr_task_run_id w)"
      and "t = journal TASK_RUN (tid_str (tr_task_run_id w)) None ''PENDING'' (tr_created_at w) (put_task w s)"
    then show ?thesis
      by (intro evolves_put_task [OF t, where w = w])
        (auto simp: put_task_def legal_step_def dict_get_None_iff [symmetric])
  qed (simp add: evolves_refl)
qed

lemma append_task_attempt_evolves:
  assumes nb: "\<not> blank (aid_str (ta_attempt_id w))"
  shows "maintains evolves (append_task_attempt w)"
proof (rule maintains_evolvesI)
  fix s r t assume ok: "store_ok s" and c: "append_task_attempt w s = (r, t)"
  have t: "store_ok t" by (rule append_task_attempt_ok [OF ok nb c])
  from append_task_attempt_cases [OF ok nb c] show "evolves s t"
  proof (elim disjE conjE)
    assume "\<not> dict_has (st_task_attempts s) (ta_attempt_id w)"
      and "t = journal TASK_ATTEMPT (aid_str (ta_attempt_id w)) None ''PENDING'' (ta_created_at w) (put_attempt w s)"
    then show ?thesis
      by (intro evolves_put_attempt [OF t, where w = w])
        (auto simp: put_attempt_def legal_step_def dict_get_None_iff [symmetric])
  qed (simp add: evolves_refl)
qed

lemma update_workflow_run_evolves:
  assumes legal: "wr_status w \<in> workflow_transitions expected" and ts: "dt_aware d"
  shows "maintains evolves (update_workflow_run w expected (Some d))"
proof (rule maintains_evolvesI)
  fix s r t assume ok: "store_ok s" and u: "update_workflow_run w expected (Some d) s = (r, t)"
  have aware: "\<forall>x. Some d = Some x \<longrightarrow> dt_aware x" using ts by simp
  have t: "store_ok t" by (rule update_workflow_run_ok [OF ok aware u])
  have live: "expected \<notin> WORKFLOW_TERMINAL_STATUSES" using legal workflow_lc.terminal_no_target by blast
  from update_workflow_run_cases [OF ok aware u] show "evolves s t"
  proof (elim disjE conjE exE)
    fix c assume c: "dict_get (st_workflow_runs s) (wr_run_id w) = Some c" "wr_status c = expected"
      "same_workflow c w" "t = log_workflow c w (Some d) (put_workflow w s)"
    moreover have "wr_status c \<noteq> wr_status w" using c(2) legal workflow_lc.no_self_loop by metis
    ultimately show ?thesis using live legal
      by (intro evolves_put_workflow [OF t, where w = w])
        (auto simp: put_workflow_def log_workflow_def legal_step_def)
  qed (simp add: evolves_refl)
qed

lemma update_task_run_evolves:
  assumes legal: "tr_status w \<in> task_run_transitions expected" and ts: "dt_aware d"
  shows "maintains evolves (update_task_run w expected (Some d))"
proof (rule maintains_evolvesI)
  fix s r t assume ok: "store_ok s" and u: "update_task_run w expected (Some d) s = (r, t)"
  have aware: "\<forall>x. Some d = Some x \<longrightarrow> dt_aware x" using ts by simp
  have t: "store_ok t" by (rule update_task_run_ok [OF ok aware u])
  have live: "expected \<notin> TASK_RUN_TERMINAL_STATUSES" using legal task_lc.terminal_no_target by blast
  from update_task_run_cases [OF ok aware u] show "evolves s t"
  proof (elim disjE conjE exE)
    fix c assume c: "dict_get (st_task_runs s) (tr_task_run_id w) = Some c" "tr_status c = expected"
      "same_task c w" "t = log_task c w (Some d) (put_task w s)"
    moreover have "tr_status c \<noteq> tr_status w" using c(2) legal task_lc.no_self_loop by metis
    ultimately show ?thesis using live legal
      by (intro evolves_put_task [OF t, where w = w])
        (auto simp: put_task_def log_task_def legal_step_def)
  qed (simp add: evolves_refl)
qed

lemma update_task_attempt_evolves:
  assumes legal: "ta_status w \<in> task_attempt_transitions expected" and ts: "dt_aware d"
  shows "maintains evolves (update_task_attempt w expected (Some d))"
proof (rule maintains_evolvesI)
  fix s r t assume ok: "store_ok s" and u: "update_task_attempt w expected (Some d) s = (r, t)"
  have aware: "\<forall>x. Some d = Some x \<longrightarrow> dt_aware x" using ts by simp
  have t: "store_ok t" by (rule update_task_attempt_ok [OF ok aware u])
  have live: "expected \<notin> TASK_ATTEMPT_TERMINAL_STATUSES" using legal attempt_lc.terminal_no_target by blast
  from update_task_attempt_cases [OF ok aware u] show "evolves s t"
  proof (elim disjE conjE exE)
    fix c assume c: "dict_get (st_task_attempts s) (ta_attempt_id w) = Some c" "ta_status c = expected"
      "same_attempt c w" "t = log_attempt c w (Some d) (put_attempt w s)"
    moreover have "ta_status c \<noteq> ta_status w" using c(2) legal attempt_lc.no_self_loop by metis
    ultimately show ?thesis using live legal
      by (intro evolves_put_attempt [OF t, where w = w])
        (auto simp: put_attempt_def log_attempt_def legal_step_def)
  qed (simp add: evolves_refl)
qed

lemma append_external_run_ref_evolves: "maintains evolves (append_external_run_ref aid ref)"
proof (rule maintains_evolvesI)
  fix s r t assume ok: "store_ok s" and m: "append_external_run_ref aid ref s = (r, t)"
  have "t = s \<or> t = s\<lparr>st_external_refs := dict_set (external_ref_key aid ref) ref (st_external_refs s)\<rparr>"
    using m by (auto simp: append_external_run_ref_def bindA_def thenA_def Let_def split: if_splits)
  with append_external_run_ref_ok [OF ok m] show "evolves s t"
    by (elim disjE) (simp_all add: evolves_refl, intro evolves_same_tables, simp_all add: dict_set_keys)
qed

lemma set_task_output_checkpoint_evolves: "maintains evolves (set_task_output_checkpoint cp)"
proof (rule maintains_evolvesI)
  fix s r t assume ok: "store_ok s" and m: "set_task_output_checkpoint cp s = (r, t)"
  have "t = s \<or> t = s\<lparr>st_checkpoints := dict_set (cp_task_run_id cp) cp (st_checkpoints s)\<rparr>"
    using m by (auto simp: set_task_output_checkpoint_def task_in_store_def bindA_def thenA_def
      split: if_splits option.splits)
  with set_task_output_checkpoint_ok [OF ok m] show "evolves s t"
    by (elim disjE) (simp_all add: evolves_refl, intro evolves_same_tables, simp_all add: dict_set_keys)
qed

lemma read_evolves: "(\<And>s. snd (m s) = s) \<Longrightarrow> maintains evolves m"
  by (simp add: maintains_def evolves_refl)

lemma in_store_lawful: "maintains evolves m \<Longrightarrow> maintains lawful (in_store m)"
  by (simp add: maintains_def lawful_def in_store_def zoomA_def split_beta)

named_theorems lawful_intros

lemmas store_lawful [lawful_intros] =
  append_external_run_ref_evolves [THEN in_store_lawful]
  set_task_output_checkpoint_evolves [THEN in_store_lawful]
  read_evolves [OF reads_pure(4), THEN in_store_lawful]
  read_evolves [OF reads_pure(5), THEN in_store_lawful]
  read_evolves [OF reads_pure(6), THEN in_store_lawful]
  read_evolves [OF reads_pure(8), THEN in_store_lawful]
  read_evolves [OF reads_pure(9), THEN in_store_lawful]
  read_evolves [OF reads_pure(10), THEN in_store_lawful]
  read_evolves [OF reads_pure(11), THEN in_store_lawful]
  read_evolves [OF reads_pure(12), THEN in_store_lawful]

section \<open>Services and transitions that obey the law\<close>

text \<open>What the runtime assumes of the code it is given: whatever happens to the store while a
  service call lasts (the work of other threads through the runtime's own commands included)
  is lawful.\<close>

definition lawful_services :: "services \<Rightarrow> bool" where
  "lawful_services sv \<longleftrightarrow> maintains lawful (sv_now sv) \<and> maintains lawful (sv_utc sv) \<and>
     maintains lawful (sv_workflow_run_id sv) \<and> maintains lawful (sv_task_run_id sv) \<and>
     maintains lawful (sv_attempt_id sv) \<and> maintains lawful (sv_correlation_id sv) \<and>
     (\<forall>ex rq. maintains lawful (sv_execute sv ex rq)) \<and> (\<forall>ex rq. maintains lawful (sv_cancel sv ex rq)) \<and>
     (\<forall>d. maintains lawful (sv_wait sv d)) \<and> (\<forall>v ref. maintains lawful (sv_verify sv v ref))"

lemma now_lawful [lawful_intros]: "lawful_services sv \<Longrightarrow> maintains lawful (now sv)"
  unfolding now_def lawful_services_def by (intro law.combinators) auto

lemma utc_now_lawful [lawful_intros]: "lawful_services sv \<Longrightarrow> maintains lawful (utc_now sv)"
  unfolding utc_now_def lawful_services_def by (intro law.combinators) auto

lemma new_ids_lawful [lawful_intros]:
  assumes "lawful_services sv"
  shows "maintains lawful (new_workflow_run_id sv)" "maintains lawful (new_task_run_id sv)"
    "maintains lawful (new_task_attempt_id sv)" "maintains lawful (new_correlation_id sv)"
  using assms unfolding new_workflow_run_id_def new_task_run_id_def new_task_attempt_id_def
    new_correlation_id_def lawful_services_def
  by (intro law.combinators; simp)+

lemma now_returns: "returns (now sv) ts \<Longrightarrow> dt_aware ts"
  by (auto simp: now_def thenA_def requireA_def elim!: returns_bindE split: if_splits)

lemma new_ids_return:
  "returns (new_workflow_run_id sv) i \<Longrightarrow> \<not> blank (wid_str i)"
  "returns (new_task_run_id sv) j \<Longrightarrow> \<not> blank (tid_str j)"
  "returns (new_task_attempt_id sv) k \<Longrightarrow> \<not> blank (aid_str k)"
  by (auto simp: new_workflow_run_id_def new_task_run_id_def new_task_attempt_id_def thenR_Inr_iff
    parse_workflow_run_id_def parse_task_run_id_def parse_task_attempt_id_def identifier_post_init_def
    elim!: returns_bindE)

lemma transition_workflow_lawful [lawful_intros]:
  "lawful_services sv \<Longrightarrow> maintains lawful (transition_workflow sv run target failure)"
  unfolding transition_workflow_def
  by (intro law.bindA_returns law.thenA law.ret law.liftR now_lawful in_store_lawful
    update_workflow_run_evolves) (auto simp: workflow_transition_Inr)

lemma transition_task_lawful [lawful_intros]:
  "lawful_services sv \<Longrightarrow> maintains lawful (transition_task sv t target skip_reason failure)"
  unfolding transition_task_def
  by (intro law.bindA_returns law.thenA law.ret law.liftR now_lawful in_store_lawful
    update_task_run_evolves) (auto simp: task_transition_Inr)

lemma transition_attempt_lawful [lawful_intros]:
  "lawful_services sv \<Longrightarrow> maintains lawful (transition_attempt sv a target failure)"
  unfolding transition_attempt_def
  by (intro law.bindA_returns law.thenA law.ret law.liftR now_lawful in_store_lawful
    update_task_attempt_evolves) (auto simp: attempt_transition_Inr)


section \<open>What a transition leaves in the store\<close>

lemma in_store_Inr_iff: "in_store m w = (r, v) \<longleftrightarrow> (\<exists>s. m (w_store w) = (r, s) \<and> v = w\<lparr>w_store := s\<rparr>)"
  by (auto simp: in_store_def zoomA_def split: prod.splits)

lemma w_store_same [simp]: "w\<lparr>w_store := w_store w\<rparr> = w"
  by simp

lemma lawful_ok: "lawful w v \<Longrightarrow> store_ok (w_store w) \<Longrightarrow> store_ok (w_store v)"
  using evolvesD(1) by (auto simp: lawful_def)

lemma now_aware: "now sv w = (Inr ts, v) \<Longrightarrow> dt_aware ts"
  by (rule now_returns) (auto simp: returns_def)

lemma transition_workflow_stored:
  assumes "lawful_services sv" "store_ok (w_store w)" "transition_workflow sv run target failure w = (Inr run', v)"
  shows "dict_get (st_workflow_runs (w_store v)) (wr_run_id run) = Some run' \<and> wr_status run' = target \<and>
    wr_run_id run' = wr_run_id run \<and> wr_failure run' = failure \<and> target \<in> workflow_transitions (wr_status run)"
proof -
  from assms(3) obtain ts w1 w2 where ts: "now sv w = (Inr ts, w1)"
    and t: "workflow_transition run target ts failure = Inr run'"
    and u: "in_store (update_workflow_run run' (wr_status run) (Some ts)) w1 = (Inr (), v)"
    unfolding transition_workflow_def by (auto elim!: bindA_okE thenA_okE)
  have ok: "store_ok (w_store w1)" by (rule lawful_ok [OF now_lawful [OF assms(1), THEN maintainsD, OF ts] assms(2)])
  from u obtain s where "update_workflow_run run' (wr_status run) (Some ts) (w_store w1) = (Inr (), s)" "w_store v = s"
    by (auto simp: in_store_Inr_iff)
  with workflow_table.effect [OF ok _ this(1), of "wr_run_id run'"] now_aware [OF ts] t
  show ?thesis by (auto simp: workflow_transition_Inr)
qed

lemma transition_task_stored:
  assumes "lawful_services sv" "store_ok (w_store w)" "transition_task sv t target skip failure w = (Inr t', v)"
  shows "dict_get (st_task_runs (w_store v)) (tr_task_run_id t) = Some t' \<and> tr_status t' = target \<and>
    tr_task_run_id t' = tr_task_run_id t \<and> tr_failure t' = failure \<and> target \<in> task_run_transitions (tr_status t)"
proof -
  from assms(3) obtain ts w1 w2 where ts: "now sv w = (Inr ts, w1)"
    and t: "task_transition t target ts skip None failure = Inr t'"
    and u: "in_store (update_task_run t' (tr_status t) (Some ts)) w1 = (Inr (), v)"
    unfolding transition_task_def by (auto elim!: bindA_okE thenA_okE)
  have ok: "store_ok (w_store w1)" by (rule lawful_ok [OF now_lawful [OF assms(1), THEN maintainsD, OF ts] assms(2)])
  from u obtain s where "update_task_run t' (tr_status t) (Some ts) (w_store w1) = (Inr (), s)" "w_store v = s"
    by (auto simp: in_store_Inr_iff)
  with task_table.effect [OF ok _ this(1), of "tr_task_run_id t'"] now_aware [OF ts] t
  show ?thesis by (auto simp: task_transition_Inr)
qed

lemma transition_attempt_stored:
  assumes "lawful_services sv" "store_ok (w_store w)" "transition_attempt sv a target failure w = (Inr a', v)"
  shows "dict_get (st_task_attempts (w_store v)) (ta_attempt_id a) = Some a' \<and> ta_status a' = target \<and>
    ta_attempt_id a' = ta_attempt_id a \<and> ta_failure a' = failure \<and> target \<in> task_attempt_transitions (ta_status a)"
proof -
  from assms(3) obtain ts w1 w2 where ts: "now sv w = (Inr ts, w1)"
    and t: "attempt_transition a target ts failure = Inr a'"
    and u: "in_store (update_task_attempt a' (ta_status a) (Some ts)) w1 = (Inr (), v)"
    unfolding transition_attempt_def by (auto elim!: bindA_okE thenA_okE)
  have ok: "store_ok (w_store w1)" by (rule lawful_ok [OF now_lawful [OF assms(1), THEN maintainsD, OF ts] assms(2)])
  from u obtain s where "update_task_attempt a' (ta_status a) (Some ts) (w_store w1) = (Inr (), s)" "w_store v = s"
    by (auto simp: in_store_Inr_iff)
  with attempt_table.effect [OF ok _ this(1), of "ta_attempt_id a'"] now_aware [OF ts] t
  show ?thesis by (auto simp: attempt_transition_Inr)
qed

end
