(* ===== verification/Runtime.thy ===== *)
theory Runtime
  imports World
begin

text \<open>
  \<open>WorkflowRuntime\<close> (\<open>runtime/workflow.py\<close>, \<open>runtime/results.py\<close>, \<open>runtime/_resume.py\<close>): running
  a plan task by task and attempt by attempt, resuming a failed run, cancelling a run or a task.

  A method is a computation on the world.  The objects a method mutates are passed along as
  values: \<open>exec_state\<close> holds the local variables of \<open>_execute_plan_tasks\<close>.  The body of its
  inner loop is cut into \<open>perform_attempt\<close> (up to the executor's answer) and \<open>settle_...\<close> (what
  becomes of the answer); a \<open>round\<close> says how the body was left.  The \<open>while True\<close> loop takes fuel:
  as many rounds as the retry policy allows attempts.  Telemetry spans and records are left out;
  the one value that telemetry contributes, a trace header, comes from \<open>sv_inject\<close>.
\<close>

section \<open>Results\<close>

record task_outcome =
  to_task_key :: string
  to_task_run_id :: task_run_id
  to_status :: task_run_status
  to_attempt_ids :: "task_attempt_id list"
  to_output :: pyval
  to_failure :: "failure_evidence option"

record workflow_result =
  wf_run_id :: workflow_run_id
  wf_status :: workflow_run_status
  wf_task_outcomes :: "task_outcome list"
  wf_diagnostics :: "diagnostic list"
  wf_correlation :: correlation_context
  wf_failure :: "failure_evidence option"

definition mk_task_outcome :: "task_outcome \<Rightarrow> task_outcome result" where
  "mk_task_outcome out = thenR (required_text ''task_key'' (to_task_key out)) (Inr out)"

definition mk_workflow_result :: "workflow_result \<Rightarrow> workflow_result result" where
  "mk_workflow_result r =
     thenR (require (wf_status r \<in> WORKFLOW_TERMINAL_STATUSES \<or> wf_status r = W_UNKNOWN_OUTCOME)
       (ValueError ''WorkflowResult requires a terminal or UNKNOWN_OUTCOME WorkflowRun status''))
    (thenR (require (distinct (map to_task_key (wf_task_outcomes r)))
       (ValueError ''task_outcomes must contain unique task keys''))
    (Inr r))"

definition result_task :: "workflow_result \<Rightarrow> string \<Rightarrow> task_outcome result" where
  "result_task r key = (case find (\<lambda>out. to_task_key out = key) (wf_task_outcomes r) of
     Some out \<Rightarrow> Inr out | None \<Rightarrow> Inl (KeyError key))"

record cancellation_result =
  cn_status :: cancellation_status
  cn_workflow_run_id :: workflow_run_id
  cn_task_run_id :: "task_run_id option"
  cn_attempt_id :: "task_attempt_id option"
  cn_reason :: string

definition mk_cancellation_result :: "cancellation_result \<Rightarrow> cancellation_result result" where
  "mk_cancellation_result r = thenR (required_text ''reason'' (cn_reason r)) (Inr r)"

text \<open>A normalised value as the Python object it is: tuples and read-only mappings.\<close>

function frozen_value :: "jval \<Rightarrow> pyval" where
  "frozen_value JNull = PyNone"
| "frozen_value (JBool b) = PyBool b"
| "frozen_value (JNum n) = PyNum n"
| "frozen_value (JStr s) = PyStr s"
| "frozen_value (JArr js) = PyTuple (map frozen_value js)"
| "frozen_value (JObj entries) = PyMap (map (\<lambda>(k, v). (KStr k, frozen_value v)) entries)"
  by pat_completeness auto
termination
  by (relation "measure size") (auto intro: size_entry size_list_member)

section \<open>The runtime object\<close>

record runtime =
  rt_executors :: executor_registry
  rt_services :: services
  rt_verifiers :: "(string, nat) dict"

definition mk_runtime ::
  "executor option \<Rightarrow> executor_registry option \<Rightarrow> services \<Rightarrow> runtime result" where
  "mk_runtime executor registry sv =
     thenR (require (executor \<noteq> None \<or> registry \<noteq> None)
       (TypeError ''executor or executor_registry must be provided''))
    (bindR (let base = (case registry of None \<Rightarrow> [] | Some r \<Rightarrow> r) in
            case executor of None \<Rightarrow> Inr base | Some ex \<Rightarrow> register ex base) (\<lambda>executors.
     thenR (require (executor_ids executors \<noteq> [])
       (ValueError ''executor_registry must contain at least one executor''))
    (Inr \<lparr>rt_executors = executors, rt_services = sv, rt_verifiers = []\<rparr>)))"

definition register_executor :: "executor \<Rightarrow> runtime \<Rightarrow> runtime result" where
  "register_executor ex rt = bindR (register ex (rt_executors rt)) (\<lambda>executors.
     Inr (rt\<lparr>rt_executors := executors\<rparr>))"

section \<open>Correlation, diagnostics, deadlines\<close>

definition bind_workflow_correlation ::
  "correlation_context \<Rightarrow> workflow_run_id \<Rightarrow> correlation_context result" where
  "bind_workflow_correlation c run_id = mk_correlation_context
     (c\<lparr>cc_workflow_run_id := Some (wid_str run_id), cc_task_run_id := None, cc_task_attempt_id := None\<rparr>)"

definition bind_task_correlation ::
  "correlation_context \<Rightarrow> task_run \<Rightarrow> task_attempt_id \<Rightarrow> correlation_context result" where
  "bind_task_correlation c task_run attempt_id = mk_correlation_context
     (c\<lparr>cc_task_run_id := Some (tid_str (tr_task_run_id task_run)),
        cc_task_attempt_id := Some (aid_str attempt_id)\<rparr>)"

definition entry_parameters :: "task_plan_entry \<Rightarrow> (string, string) dict" where
  "entry_parameters entry = (case td_workload (te_task entry) of
     Registered w \<Rightarrow> fold (\<lambda>(k, v). dict_set k v) (rw_parameters w) [] | _ \<Rightarrow> [])"

definition runtime_diagnostic ::
  "string \<Rightarrow> string \<Rightarrow> workflow_run \<Rightarrow> task_run \<Rightarrow> task_attempt_id option \<Rightarrow> diagnostic_severity \<Rightarrow>
   (string \<times> string) list \<Rightarrow> diagnostic result" where
  "runtime_diagnostic code summary run task_run attempt_id severity details = mk_diagnostic
     \<lparr>dg_code = code, dg_severity = severity, dg_summary = summary, dg_details = details,
      dg_workflow_run_id = Some (wid_str (wr_run_id run)),
      dg_task_run_id = Some (tid_str (tr_task_run_id task_run)),
      dg_task_attempt_id = map_option aid_str attempt_id,
      dg_correlation_id = Some (cc_correlation_id (wr_correlation run)),
      dg_source_component = Some ''workflow_runtime'', dg_decision_context = None,
      dg_related_policy = None, dg_source_framework = ''pyworkflowkit''\<rparr>"

definition retry_diagnostic ::
  "services \<Rightarrow> retry_evaluation \<Rightarrow> workflow_run \<Rightarrow> task_run \<Rightarrow> task_attempt_id \<Rightarrow> diagnostic result" where
  "retry_diagnostic sv e run task_run attempt_id = runtime_diagnostic ''PWK-RETRY-DECISION''
     ''RetryPolicy evaluated structured FailureEvidence'' run task_run (Some attempt_id)
     (if re_decision e \<in> {D_RECONCILE, D_DO_NOT_RETRY} then S_WARNING else S_INFO)
     ([(''decision'', decision_value (re_decision e)), (''reason'', re_reason e),
       (''attempt_number'', py_str_int (re_attempt_number e)),
       (''max_attempts'', py_str_int (re_max_attempts e)),
       (''delay_seconds'', sv_format sv (re_delay_seconds e)),
       (''failure_category'', failure_category_value (re_failure_category e)),
       (''retryability'', retryability_value (re_retryability e)),
       (''uncertainty'', uncertainty_value (re_uncertainty e))] @
      (case re_budget_remaining_seconds e of None \<Rightarrow> []
       | Some b \<Rightarrow> [(''budget_remaining_seconds'', sv_format sv b)]))"

definition execution_deadline :: "services \<Rightarrow> task_plan_entry \<Rightarrow> (world, datetime option) act" where
  "execution_deadline sv entry = (case td_execution_timeout (te_task entry) of
     None \<Rightarrow> ret None
   | Some timeout \<Rightarrow> bindA (now sv) (\<lambda>t. bindA (liftR (add_seconds t timeout)) (\<lambda>d. ret (Some d))))"

definition task_elapsed_seconds :: "services \<Rightarrow> task_run \<Rightarrow> (world, pynum) act" where
  "task_elapsed_seconds sv task_run = (case tr_started_at task_run of
     None \<Rightarrow> raise (RuntimeInvariant ''RUNNING TaskRun is missing started_at'')
   | Some started \<Rightarrow> bindA (now sv) (\<lambda>t.
       ret (PyFloat (max 0 (of_int (dt_us t - dt_us started) / of_int us_per_second)))))"

section \<open>Compilation and preflight\<close>

definition compile_input :: "services \<Rightarrow> workflow_definition + execution_plan \<Rightarrow> (world, execution_plan) act" where
  \<comment> \<open>\<open>_compile\<close>\<close>
  "compile_input sv workflow = (case workflow of
     Inl definition \<Rightarrow> liftR (compile (sv_codec sv) definition) | Inr plan \<Rightarrow> ret plan)"

definition preflight_entry :: "executor_registry \<Rightarrow> task_plan_entry \<Rightarrow> unit result" where
  "preflight_entry executors entry =
     bindR (resolve executors (er_executor_key (te_requirement entry))) (\<lambda>ex.
     let d = ex_descriptor ex; kind = er_workload_kind (te_requirement entry) in
     thenR (require (kind \<in> set (ed_supported_workload_kinds d))
       (RuntimeInvariant (''executor '' @ py_quote (ed_executor_id d) @
          '' does not support workload kind '' @ py_quote kind)))
    (thenR (require (\<not> (1 < rp_max_attempts (td_retry_policy (te_task entry)) \<and> ed_implicit_retry d))
       (RuntimeInvariant (''task '' @ py_quote (te_key entry) @ '' requests workflow retry while executor '' @
          py_quote (ed_executor_id d) @ '' declares implicit workload retry'')))
    (require (\<not> (td_execution_timeout (te_task entry) \<noteq> None \<and> \<not> ed_supports_timeout d))
       (RuntimeInvariant (''task '' @ py_quote (te_key entry) @ '' requests execution_timeout but executor '' @
          py_quote (ed_executor_id d) @ '' does not support execution deadlines'')))))"

definition preflight :: "runtime \<Rightarrow> execution_plan \<Rightarrow> unit result" where
  "preflight rt plan = forR (ep_tasks plan) (preflight_entry (rt_executors rt))"

section \<open>Results from the store\<close>

definition build_outcome ::
  "(string, pyval) dict \<Rightarrow> task_run \<Rightarrow> (world, task_outcome) act" where
  "build_outcome outputs task_run =
     bindA (in_store (list_task_attempts (tr_task_run_id task_run))) (\<lambda>attempts.
     liftR (mk_task_outcome
       \<lparr>to_task_key = tr_task_key task_run, to_task_run_id = tr_task_run_id task_run,
        to_status = tr_status task_run, to_attempt_ids = map ta_attempt_id attempts,
        to_output = (case dict_get outputs (tr_task_key task_run) of None \<Rightarrow> PyNone | Some v \<Rightarrow> v),
        to_failure = tr_failure task_run\<rparr>))"

definition build_result ::
  "workflow_run_id \<Rightarrow> (string, pyval) dict \<Rightarrow> diagnostic list \<Rightarrow> (world, workflow_result) act" where
  "build_result run_id outputs diagnostics =
     bindA (in_store (get_workflow_run run_id)) (\<lambda>run.
     bindA (in_store (list_task_runs run_id)) (\<lambda>task_runs.
     bindA (mapA (build_outcome outputs) task_runs) (\<lambda>outcomes.
     liftR (mk_workflow_result
       \<lparr>wf_run_id = wr_run_id run, wf_status = wr_status run, wf_task_outcomes = outcomes,
        wf_diagnostics = diagnostics, wf_correlation = wr_correlation run,
        wf_failure = wr_failure run\<rparr>))))"

section \<open>One attempt\<close>

definition remember_active :: "execution_request \<Rightarrow> (world, unit) act" where
  "remember_active request = modifyA (\<lambda>w. w\<lparr>w_active :=
     dict_set (xc_attempt_id (rq_context request)) request (w_active w)\<rparr>)"

definition forget_active :: "task_attempt_id \<Rightarrow> (world, unit) act" where
  "forget_active attempt_id = modifyA (\<lambda>w. w\<lparr>w_active := dict_pop attempt_id (w_active w)\<rparr>)"

definition execute_request :: "runtime \<Rightarrow> execution_request \<Rightarrow> (world, execution_result) act" where
  \<comment> \<open>\<open>_execute\<close>\<close>
  "execute_request rt request =
     bindA (liftR (resolve (rt_executors rt) (rq_executor_key request))) (\<lambda>ex.
     bindA (attemptA (sv_execute (rt_services rt) ex request)) (\<lambda>outcome.
     case outcome of
       Inl e \<Rightarrow> failure_result (utc_now (rt_services rt)) request (exc_name e) F_INTERNAL
         R_NON_RETRYABLE U_KNOWN ''workflow_runtime.executor'' (exc_summary e)
     | Inr None \<Rightarrow> raise (RuntimeInvariant ''executor returned a value that is not TaskExecutionResult'')
     | Inr (Some r) \<Rightarrow> ret r))"

definition start_attempt :: "services \<Rightarrow> task_run \<Rightarrow> (world, task_attempt) act" where
  "start_attempt sv current =
     bindA (in_store (list_task_attempts (tr_task_run_id current))) (\<lambda>attempts.
     bindA (new_task_attempt_id sv) (\<lambda>attempt_id.
     bindA (now sv) (\<lambda>created_at.
     bindA (liftR (next_task_attempt current attempts attempt_id created_at)) (\<lambda>attempt.
     thenA (in_store (append_task_attempt attempt))
    (bindA (transition_attempt sv attempt A_STARTING None) (\<lambda>starting.
     transition_attempt sv starting A_RUNNING None))))))"

definition attempt_request ::
  "services \<Rightarrow> workflow_run_id \<Rightarrow> correlation_context \<Rightarrow> (string, pyval) dict \<Rightarrow> task_plan_entry \<Rightarrow>
   task_run \<Rightarrow> task_attempt \<Rightarrow> (world, execution_request) act" where
  "attempt_request sv run_id correlation outputs entry current attempt =
     bindA (liftR (bind_task_correlation correlation current (ta_attempt_id attempt))) (\<lambda>bound.
     bindA (liftR (mk_execution_context
       \<lparr>xc_workflow_run_id = run_id, xc_task_run_id = tr_task_run_id current,
        xc_attempt_id = ta_attempt_id attempt, xc_attempt_number = ta_attempt_number attempt,
        xc_correlation = bound,
        xc_dependency_outputs = map (\<lambda>key. (key, the (dict_get outputs key)))
          (filter (\<lambda>key. dict_has outputs key) (te_dependencies entry)),
        xc_workload_parameters = entry_parameters entry\<rparr>)) (\<lambda>context.
     bindA (execution_deadline sv entry) (\<lambda>deadline.
     liftR (mk_execution_request
       \<lparr>rq_task_key = te_key entry, rq_workload = td_workload (te_task entry),
        rq_executor_key = er_executor_key (te_requirement entry), rq_context = context,
        rq_deadline_at = deadline\<rparr>))))"

definition perform_attempt ::
  "runtime \<Rightarrow> workflow_run_id \<Rightarrow> correlation_context \<Rightarrow> (string, pyval) dict \<Rightarrow> task_plan_entry \<Rightarrow>
   task_run \<Rightarrow> (world, task_attempt_id \<times> execution_result) act" where
  "perform_attempt rt run_id correlation outputs entry current =
     bindA (start_attempt (rt_services rt) current) (\<lambda>attempt.
     bindA (attempt_request (rt_services rt) run_id correlation outputs entry current attempt) (\<lambda>request.
     thenA (remember_active request)
    (bindA (finallyA (execute_request rt request) (forget_active (ta_attempt_id attempt))) (\<lambda>r.
     ret (ta_attempt_id attempt, r)))))"

section \<open>What becomes of an attempt\<close>

record exec_state =
  xs_run :: workflow_run
  xs_outputs :: "(string, pyval) dict"
  xs_diagnostics :: "diagnostic list"

definition note_diagnostic :: "diagnostic result \<Rightarrow> exec_state \<Rightarrow> (world, exec_state) act" where
  \<comment> \<open>\<open>diagnostics.append(...)\<close>\<close>
  "note_diagnostic d st = bindA (liftR d) (\<lambda>diagnostic.
     ret (st\<lparr>xs_diagnostics := xs_diagnostics st @ [diagnostic]\<rparr>))"

datatype round =
    Returned workflow_result
  | TaskDone exec_state
  | TaskFailed exec_state failure_evidence
  | TryAgain exec_state task_run

definition append_external_run_refs ::
  "task_attempt_id \<Rightarrow> external_run_ref list \<Rightarrow> (world, unit) act" where
  "append_external_run_refs attempt_id refs =
     bindA (in_store (list_external_run_refs attempt_id)) (\<lambda>existing.
     bindA (foldA (\<lambda>ref keys. if external_key ref \<in> set keys then ret keys
          else thenA (in_store (append_external_run_ref attempt_id ref)) (ret (external_key ref # keys)))
        refs (map external_key existing)) (\<lambda>_. ret ()))"

definition persist_external_run_refs :: "task_attempt_id \<Rightarrow> execution_result \<Rightarrow> (world, unit) act" where
  "persist_external_run_refs attempt_id r = append_external_run_refs attempt_id
     (xr_external_runs r @ (case xr_failure r of None \<Rightarrow> []
        | Some f \<Rightarrow> (case fe_external_run f of None \<Rightarrow> [] | Some ref \<Rightarrow> [ref])))"

definition persist_output_checkpoint ::
  "services \<Rightarrow> task_run \<Rightarrow> pyval \<Rightarrow> workflow_run \<Rightarrow> task_attempt_id \<Rightarrow> (world, diagnostic option) act" where
  "persist_output_checkpoint sv task_run output run attempt_id =
     bindA (attemptA
       (bindA (liftR (normalize_json output)) (\<lambda>normalized.
        bindA (now sv) (\<lambda>recorded_at.
        liftR (mk_checkpoint (sv_codec sv) (tr_task_run_id task_run) (frozen_value normalized) recorded_at []))))) (\<lambda>outcome.
     case outcome of
       Inl e \<Rightarrow> (if is_type_or_value_error e then
           bindA (liftR (runtime_diagnostic ''PWK-OUTPUT-NONPORTABLE''
             ''task output is process-local and was not checkpointed durably'' run task_run
             (Some attempt_id) S_WARNING [(''reason'', exc_name e)])) (\<lambda>d. ret (Some d))
         else raise e)
     | Inr checkpoint \<Rightarrow> thenA (in_store (set_task_output_checkpoint checkpoint)) (ret None))"

definition cancel_not_started_tasks :: "services \<Rightarrow> workflow_run_id \<Rightarrow> (world, unit) act" where
  "cancel_not_started_tasks sv run_id =
     bindA (in_store (list_task_runs run_id)) (\<lambda>task_runs.
     forA task_runs (\<lambda>t. if tr_status t \<in> {T_PENDING, T_READY, T_BLOCKED}
       then bindA (transition_task sv t T_CANCELLED None None) (\<lambda>_. ret ()) else ret ()))"

text \<open>The attempt was cancelled while it ran.\<close>

definition settle_cancelled :: "services \<Rightarrow> exec_state \<Rightarrow> task_run \<Rightarrow> (world, round) act" where
  "settle_cancelled sv st current =
     thenA (if tr_status current \<noteq> T_CANCELLED
            then bindA (transition_task sv current T_CANCELLED None None) (\<lambda>_. ret ()) else ret ())
    (thenA (cancel_not_started_tasks sv (wr_run_id (xs_run st)))
    (thenA (if wr_status (xs_run st) \<in> {W_RUNNING, W_CANCELLATION_REQUESTED}
            then bindA (transition_workflow sv (xs_run st) W_CANCELLED None) (\<lambda>_. ret ()) else ret ())
    (bindA (build_result (wr_run_id (xs_run st)) (xs_outputs st) (xs_diagnostics st)) (\<lambda>r.
     ret (Returned r)))))"

definition settle_success ::
  "services \<Rightarrow> exec_state \<Rightarrow> task_plan_entry \<Rightarrow> task_run \<Rightarrow> task_attempt \<Rightarrow> pyval \<Rightarrow> (world, round) act" where
  "settle_success sv st entry current attempt output =
     thenA (transition_attempt sv attempt A_SUCCEEDED None)
    (bindA (transition_task sv current T_SUCCEEDED None None) (\<lambda>current'.
     let st1 = st\<lparr>xs_outputs := dict_set (te_key entry) output (xs_outputs st)\<rparr> in
     bindA (persist_output_checkpoint sv current' output (xs_run st) (ta_attempt_id attempt)) (\<lambda>d.
     let st2 = st1\<lparr>xs_diagnostics := xs_diagnostics st1 @ (case d of None \<Rightarrow> [] | Some x \<Rightarrow> [x])\<rparr> in
     bindA (in_store (get_workflow_run (wr_run_id (xs_run st)))) (\<lambda>run.
     if wr_status run = W_CANCELLATION_REQUESTED then
       thenA (cancel_not_started_tasks sv (wr_run_id (xs_run st)))
      (thenA (transition_workflow sv run W_CANCELLED None)
      (bindA (build_result (wr_run_id (xs_run st)) (xs_outputs st2) (xs_diagnostics st2)) (\<lambda>r.
       ret (Returned r))))
     else ret (TaskDone (st2\<lparr>xs_run := run\<rparr>))))))"

definition settle_uncertain ::
  "services \<Rightarrow> exec_state \<Rightarrow> task_run \<Rightarrow> task_attempt \<Rightarrow> failure_evidence \<Rightarrow> retry_evaluation \<Rightarrow>
   (world, round) act" where
  "settle_uncertain sv st current attempt failure e =
     thenA (transition_attempt sv attempt
       (if re_decision e = D_RECONCILE then A_REQUIRES_RECONCILIATION else A_UNKNOWN_OUTCOME) (Some failure))
    (thenA (transition_task sv current T_UNKNOWN_OUTCOME None (Some failure))
    (thenA (transition_workflow sv (xs_run st) W_UNKNOWN_OUTCOME (Some failure))
    (bindA (build_result (wr_run_id (xs_run st)) (xs_outputs st) (xs_diagnostics st)) (\<lambda>r.
     ret (Returned r)))))"

definition settle_known_failure ::
  "services \<Rightarrow> exec_state \<Rightarrow> task_plan_entry \<Rightarrow> task_run \<Rightarrow> task_attempt \<Rightarrow> failure_evidence \<Rightarrow>
   retry_evaluation \<Rightarrow> (world, round) act" where
  "settle_known_failure sv st entry current attempt failure e =
     bindA (transition_attempt sv attempt
       (if fe_category failure = F_TIMEOUT then A_TIMED_OUT
        else if fe_category failure = F_CANCELLED then A_CANCELLED else A_FAILED) (Some failure)) (\<lambda>attempt'.
     if re_decision e = D_RETRY then
       bindA (note_diagnostic (runtime_diagnostic ''PWK-RETRY-SCHEDULED''
          ''new TaskAttempt scheduled by RetryPolicy'' (xs_run st) current (Some (ta_attempt_id attempt')) S_INFO
          [(''attempt_number'', py_str_int (ta_attempt_number attempt')),
           (''next_attempt_number'', py_str_int (ta_attempt_number attempt' + 1)),
           (''delay_seconds'', sv_format sv (re_delay_seconds e)),
           (''reason'', re_reason e)]) st) (\<lambda>st'.
       thenA (if num_val (re_delay_seconds e) \<noteq> 0 then sv_wait sv (re_delay_seconds e) else ret ())
         (ret (TryAgain st' current)))
     else
       bindA (transition_task sv current
         (if fe_category failure = F_TIMEOUT then T_TIMED_OUT
          else if fe_category failure = F_CANCELLED then T_CANCELLED else T_FAILED) None (Some failure)) (\<lambda>current'.
       bindA (note_diagnostic (runtime_diagnostic ''PWK-RUNTIME-TASK-FAILED'' ''task execution failed''
          (xs_run st) current' (Some (ta_attempt_id attempt')) S_ERROR
          [(''task_key'', te_key entry), (''error_code'', fe_error_code failure),
           (''retry_decision'', decision_value (re_decision e)), (''retry_reason'', re_reason e)]) st) (\<lambda>st'.
       ret (TaskFailed st' failure))))"

definition settle_failure ::
  "services \<Rightarrow> exec_state \<Rightarrow> task_plan_entry \<Rightarrow> task_run \<Rightarrow> task_attempt \<Rightarrow> failure_evidence \<Rightarrow>
   (world, round) act" where
  "settle_failure sv st entry current attempt failure =
     bindA (task_elapsed_seconds sv current) (\<lambda>elapsed.
     bindA (liftR (evaluate (sv_jitter sv) (td_retry_policy (te_task entry)) failure
       (ta_attempt_number attempt) elapsed)) (\<lambda>e.
     bindA (note_diagnostic (retry_diagnostic sv e (xs_run st) current (ta_attempt_id attempt)) st) (\<lambda>st'.
     if re_decision e \<in> {D_RECONCILE, D_ESCALATE} then settle_uncertain sv st' current attempt failure e
     else settle_known_failure sv st' entry current attempt failure e)))"

definition settle_attempt ::
  "services \<Rightarrow> exec_state \<Rightarrow> task_plan_entry \<Rightarrow> task_run_id \<Rightarrow> task_attempt_id \<Rightarrow> execution_result \<Rightarrow>
   (world, round) act" where
  "settle_attempt sv st entry task_run_id attempt_id r =
     bindA (in_store (get_task_attempt attempt_id)) (\<lambda>attempt.
     bindA (in_store (get_task_run task_run_id)) (\<lambda>current.
     bindA (in_store (get_workflow_run (wr_run_id (xs_run st)))) (\<lambda>run.
     let st1 = st\<lparr>xs_run := run, xs_diagnostics := xs_diagnostics st @ xr_diagnostics r\<rparr> in
     thenA (persist_external_run_refs attempt_id r)
    (if ta_status attempt = A_CANCELLED then settle_cancelled sv st1 current
     else case xr_failure r of
       None \<Rightarrow> settle_success sv st1 entry current attempt (xr_output r)
     | Some failure \<Rightarrow> settle_failure sv st1 entry current attempt failure))))"

section \<open>One task\<close>

fun attempt_loop ::
  "(world, round) act \<Rightarrow> nat \<Rightarrow> runtime \<Rightarrow> correlation_context \<Rightarrow> task_plan_entry \<Rightarrow> task_run \<Rightarrow>
   exec_state \<Rightarrow> (world, round) act" where
  \<comment> \<open>The \<open>while True\<close> loop; \<open>exhausted\<close> stands for what happens when the fuel does not suffice.\<close>
  "attempt_loop exhausted 0 rt correlation entry current st = exhausted"
| "attempt_loop exhausted (Suc n) rt correlation entry current st =
     bindA (perform_attempt rt (wr_run_id (xs_run st)) correlation (xs_outputs st) entry current) (\<lambda>(attempt_id, r).
     bindA (settle_attempt (rt_services rt) st entry (tr_task_run_id current) attempt_id r) (\<lambda>outcome.
     case outcome of
       TryAgain st' current' \<Rightarrow> attempt_loop exhausted n rt correlation entry current' st'
     | _ \<Rightarrow> ret outcome))"

definition attempt_fuel :: "task_plan_entry \<Rightarrow> nat" where
  "attempt_fuel entry = nat (rp_max_attempts (td_retry_policy (te_task entry)))"

definition runs_by_key :: "task_run list \<Rightarrow> (string, task_run) dict" where
  \<comment> \<open>\<open>{value.task_key: value for value in ...}\<close>\<close>
  "runs_by_key task_runs = fold (\<lambda>t. dict_set (tr_task_key t) t) task_runs []"

definition run_task ::
  "runtime \<Rightarrow> correlation_context \<Rightarrow> task_plan_entry \<Rightarrow> exec_state \<Rightarrow> (world, round) act" where
  "run_task rt correlation entry st =
     bindA (in_store (list_task_runs (wr_run_id (xs_run st)))) (\<lambda>task_runs.
     let persisted = runs_by_key task_runs in
     bindA (liftR (key_lookup persisted (te_key entry))) (\<lambda>current.
     bindA (liftR (evaluate_readiness entry (map (\<lambda>(k, t). (k, tr_status t)) persisted))) (\<lambda>decision.
     if rd_skip_reason decision \<noteq> None then
       bindA (transition_task (rt_services rt) current T_SKIPPED (rd_skip_reason decision) None) (\<lambda>skipped.
       bindA (note_diagnostic (runtime_diagnostic ''PWK-RUNTIME-TRIGGER-SKIP''
           ''task skipped because its trigger rule was not satisfied'' (xs_run st) skipped None S_INFO
           [(''task_key'', te_key entry),
            (''trigger_rule'', trigger_value (td_trigger_rule (te_task entry)))]) st) (\<lambda>st'.
       ret (TaskDone st')))
     else if \<not> rd_ready decision then
       raise (RuntimeInvariant (''task '' @ py_quote (te_key entry) @
         '' is not ready in topological execution order''))
     else
       bindA (transition_task (rt_services rt) current T_READY None None) (\<lambda>ready.
       bindA (transition_task (rt_services rt) ready T_RUNNING None None) (\<lambda>running.
       attempt_loop (raise Diverged) (attempt_fuel entry) rt correlation entry running st)))))"

section \<open>The plan\<close>

datatype plan_exit =
    ExitReturned workflow_result
  | ExitCompleted exec_state
  | ExitFailed task_plan_entry failure_evidence exec_state

fun plan_loop ::
  "runtime \<Rightarrow> correlation_context \<Rightarrow> string list \<Rightarrow> task_plan_entry list \<Rightarrow> exec_state \<Rightarrow> (world, plan_exit) act" where
  "plan_loop rt correlation reused [] st = ret (ExitCompleted st)"
| "plan_loop rt correlation reused (entry # entries) st =
     (if te_key entry \<in> set reused then plan_loop rt correlation reused entries st
      else bindA (run_task rt correlation entry st) (\<lambda>outcome.
        case outcome of
          Returned r \<Rightarrow> ret (ExitReturned r)
        | TaskDone st' \<Rightarrow> plan_loop rt correlation reused entries st'
        | TaskFailed st' failure \<Rightarrow> ret (ExitFailed entry failure st')
        | TryAgain st' current \<Rightarrow> raise Diverged))"

definition apply_fail_fast ::
  "services \<Rightarrow> workflow_run_id \<Rightarrow> execution_plan \<Rightarrow> task_plan_entry \<Rightarrow> (world, unit) act" where
  "apply_fail_fast sv run_id plan failed_entry =
     bindA (liftR (descendants_of (te_key failed_entry) (ep_tasks plan))) (\<lambda>descendants.
     forA (ep_tasks plan) (\<lambda>entry.
       if te_position entry \<le> te_position failed_entry then ret ()
       else bindA (in_store (list_task_runs run_id)) (\<lambda>task_runs.
         case find (\<lambda>t. tr_task_key t = te_key entry) task_runs of
           None \<Rightarrow> raise (Raised ''StopIteration'' [])
         | Some found \<Rightarrow>
             bindA (in_store (get_task_run (tr_task_run_id found))) (\<lambda>task_run.
             if tr_status task_run \<notin> {T_PENDING, T_READY} then ret ()
             else bindA (transition_task sv task_run T_SKIPPED
               (Some (if te_key entry \<in> set descendants then DEPENDENCY_FAILED else FAIL_FAST_ABORT)) None)
               (\<lambda>_. ret ())))))"

definition assert_terminal_task_runs :: "workflow_run_id \<Rightarrow> (world, unit) act" where
  "assert_terminal_task_runs run_id =
     bindA (in_store (list_task_runs run_id)) (\<lambda>task_runs.
     let statuses = map tr_status task_runs in
     thenA (requireA (statuses \<noteq> [] \<and> list_all (\<lambda>s. s \<in> TASK_RUN_TERMINAL_STATUSES) statuses)
       (RuntimeInvariant ''workflow exhausted execution plan with non-terminal TaskRuns''))
     (requireA (\<not> list_ex (\<lambda>s. s \<in> {T_FAILED, T_TIMED_OUT}) statuses)
       (RuntimeInvariant ''workflow success path contains failed TaskRuns'')))"

definition finish_failed ::
  "services \<Rightarrow> execution_plan \<Rightarrow> task_plan_entry \<Rightarrow> failure_evidence \<Rightarrow> exec_state \<Rightarrow> (world, unit) act" where
  "finish_failed sv plan failed_entry failure st =
     thenA (requireA (ep_failure_policy plan = FAIL_FAST)
       (RuntimeInvariant (''unsupported failure policy '' @ failure_policy_value (ep_failure_policy plan))))
    (thenA (apply_fail_fast sv (wr_run_id (xs_run st)) plan failed_entry)
    (bindA (transition_workflow sv (xs_run st)
       (if fe_category failure = F_TIMEOUT then W_TIMED_OUT
        else if fe_category failure = F_CANCELLED then W_CANCELLED else W_FAILED) (Some failure)) (\<lambda>_. ret ())))"

definition finish_completed :: "services \<Rightarrow> exec_state \<Rightarrow> (world, unit) act" where
  "finish_completed sv st =
     thenA (assert_terminal_task_runs (wr_run_id (xs_run st)))
    (bindA (transition_workflow sv (xs_run st) W_SUCCEEDED None) (\<lambda>_. ret ()))"

definition execute_plan_tasks ::
  "runtime \<Rightarrow> workflow_run \<Rightarrow> execution_plan \<Rightarrow> correlation_context \<Rightarrow> (string, pyval) dict \<Rightarrow> string list \<Rightarrow>
   diagnostic list \<Rightarrow> (world, workflow_result) act" where
  "execute_plan_tasks rt run plan correlation outputs reused diagnostics =
     bindA (plan_loop rt correlation reused (ep_tasks plan)
       \<lparr>xs_run = run, xs_outputs = outputs, xs_diagnostics = diagnostics\<rparr>) (\<lambda>outcome.
     case outcome of
       ExitReturned r \<Rightarrow> ret r
     | ExitFailed entry failure st \<Rightarrow>
         thenA (finish_failed (rt_services rt) plan entry failure st)
           (build_result (wr_run_id run) (xs_outputs st) (xs_diagnostics st))
     | ExitCompleted st \<Rightarrow>
         thenA (finish_completed (rt_services rt) st)
           (build_result (wr_run_id run) (xs_outputs st) (xs_diagnostics st)))"

section \<open>Running a workflow\<close>

definition fresh_workflow_run ::
  "workflow_run_id \<Rightarrow> execution_plan \<Rightarrow> string \<Rightarrow> correlation_context \<Rightarrow> datetime \<Rightarrow> string option \<Rightarrow>
   workflow_run result" where
  "fresh_workflow_run run_id plan digest correlation created_at resume_of =
     (let run = \<lparr>wr_run_id = run_id, wr_workflow_name = ep_workflow_name plan,
        wr_workflow_version = ep_workflow_version plan,
        wr_definition_fingerprint = ep_definition_fingerprint plan,
        wr_plan_fingerprint = digest, wr_correlation = correlation, wr_created_at = created_at,
        wr_status = W_PENDING, wr_started_at = None, wr_ended_at = None, wr_failure = None,
        wr_resume_of_run_id = resume_of\<rparr>
      in thenR (workflow_run_post_init run) (Inr run))"

definition fresh_task_run ::
  "task_run_id \<Rightarrow> workflow_run_id \<Rightarrow> string \<Rightarrow> datetime \<Rightarrow> task_run result" where
  "fresh_task_run tid run_id key created_at =
     (let t = \<lparr>tr_task_run_id = tid, tr_workflow_run_id = run_id, tr_task_key = key,
        tr_created_at = created_at, tr_status = T_PENDING, tr_started_at = None, tr_ended_at = None,
        tr_skip_reason = None, tr_block_reason = None, tr_failure = None\<rparr>
      in thenR (task_run_post_init t) (Inr t))"

definition traced_correlation :: "services \<Rightarrow> correlation_context \<Rightarrow> correlation_context result" where
  "traced_correlation sv c = (case cc_traceparent c of
     Some t \<Rightarrow> Inr c
   | None \<Rightarrow> (case sv_inject sv c of
       None \<Rightarrow> Inr c | Some (traceparent, tracestate) \<Rightarrow> with_w3c_trace c traceparent tracestate None))"

definition create_run ::
  "services \<Rightarrow> workflow_run_id \<Rightarrow> execution_plan \<Rightarrow> correlation_context \<Rightarrow> string option \<Rightarrow>
   (world, workflow_run) act" where
  "create_run sv run_id plan correlation resume_of =
     bindA (now sv) (\<lambda>created_at.
     bindA (liftR (plan_fingerprint (sv_codec sv) plan)) (\<lambda>digest.
     bindA (liftR (fresh_workflow_run run_id plan digest correlation created_at resume_of)) (\<lambda>run.
     thenA (in_store (create_workflow_run run)) (ret run))))"

definition create_planned_task ::
  "services \<Rightarrow> workflow_run \<Rightarrow> task_plan_entry \<Rightarrow> (world, task_run) act" where
  "create_planned_task sv run entry =
     bindA (new_task_run_id sv) (\<lambda>tid.
     bindA (liftR (fresh_task_run tid (wr_run_id run) (te_key entry) (wr_created_at run))) (\<lambda>t.
     thenA (in_store (create_task_run t)) (ret t)))"

definition run_workflow ::
  "runtime \<Rightarrow> workflow_definition + execution_plan \<Rightarrow> correlation_context option \<Rightarrow>
   (world, workflow_result) act" where
  \<comment> \<open>\<open>WorkflowRuntime.run\<close>\<close>
  "run_workflow rt workflow correlation =
     (let sv = rt_services rt in
     bindA (compile_input sv workflow) (\<lambda>plan.
     thenA (liftR (preflight rt plan))
    (bindA (new_workflow_run_id sv) (\<lambda>run_id.
     bindA (case correlation of Some c \<Rightarrow> ret c
        | None \<Rightarrow> bindA (new_correlation_id sv) (\<lambda>cid. liftR (mk_correlation_context (bare_correlation cid)))) (\<lambda>base.
     bindA (liftR (bind_workflow_correlation base run_id)) (\<lambda>bound0.
     bindA (liftR (traced_correlation sv bound0)) (\<lambda>bound.
     bindA (create_run sv run_id plan bound None) (\<lambda>run.
     thenA (forA (ep_tasks plan) (\<lambda>entry. bindA (create_planned_task sv run entry) (\<lambda>_. ret ())))
    (bindA (transition_workflow sv run W_RUNNING None) (\<lambda>running.
     execute_plan_tasks rt running plan bound [] [] (ep_diagnostics plan)))))))))))"

section \<open>Resuming a run\<close>

record resume_classification =
  rc_reused_keys :: "string list"
  rc_checkpoints :: "(string, checkpoint) dict"
  rc_outputs :: "(string, pyval) dict"

definition classify_task ::
  "(string, task_run) dict \<Rightarrow> string list \<Rightarrow> task_plan_entry \<Rightarrow> resume_classification \<Rightarrow>
   (store, resume_classification) act" where
  "classify_task parents force entry c =
     (if te_key entry \<in> set force \<or> \<not> td_is_deterministic (te_task entry) then ret c
      else case dict_get parents (te_key entry) of
        None \<Rightarrow> ret c
      | Some parent \<Rightarrow>
          if tr_status parent \<notin> {T_SUCCEEDED, T_REUSED} \<or>
             \<not> list_all (\<lambda>d. d \<in> set (rc_reused_keys c)) (te_dependencies entry) then ret c
          else bindA (attemptA (get_task_output_checkpoint (tr_task_run_id parent))) (\<lambda>outcome.
            case outcome of
              Inl (MetadataNotFound entity i) \<Rightarrow> ret c
            | Inl e \<Rightarrow> raise e
            | Inr cp \<Rightarrow> ret \<lparr>rc_reused_keys = te_key entry # rc_reused_keys c,
                rc_checkpoints = dict_set (te_key entry) cp (rc_checkpoints c),
                rc_outputs = dict_set (te_key entry) (frozen_value (cp_output cp)) (rc_outputs c)\<rparr>))"

definition classify_tasks_for_resume ::
  "execution_plan \<Rightarrow> (string, task_run) dict \<Rightarrow> string list \<Rightarrow> (store, resume_classification) act" where
  "classify_tasks_for_resume plan parents force = foldA (classify_task parents force) (ep_tasks plan)
     \<lparr>rc_reused_keys = [], rc_checkpoints = [], rc_outputs = []\<rparr>"

definition resumable_parent :: "workflow_run_id \<Rightarrow> (world, workflow_run) act" where
  "resumable_parent run_id =
     bindA (attemptA (in_store (get_workflow_run run_id))) (\<lambda>outcome.
     case outcome of
       Inl (MetadataNotFound entity i) \<Rightarrow> raise (WorkflowNotFound (wid_str run_id))
     | Inl e \<Rightarrow> raise e
     | Inr parent \<Rightarrow>
         thenA (requireA (wr_status parent \<in> {W_FAILED, W_CANCELLED, W_TIMED_OUT})
           (InvalidRunStateForResume (wid_str run_id) (workflow_status_value (wr_status parent))))
         (ret parent))"

definition resume_task ::
  "services \<Rightarrow> resume_classification \<Rightarrow> workflow_run_id \<Rightarrow> workflow_run \<Rightarrow> task_plan_entry \<Rightarrow>
   diagnostic list \<Rightarrow> (world, diagnostic list) act" where
  "resume_task sv c original_id run entry diagnostics =
     bindA (create_planned_task sv run entry) (\<lambda>t.
     if te_key entry \<in> set (rc_reused_keys c) then
       bindA (transition_task sv t T_REUSED None None) (\<lambda>reused.
       bindA (liftR (key_lookup (rc_checkpoints c) (te_key entry))) (\<lambda>cached.
       bindA (liftR (mk_checkpoint (sv_codec sv) (tr_task_run_id reused) (frozen_value (cp_output cached))
         (wr_created_at run) [])) (\<lambda>new.
       thenA (in_store (set_task_output_checkpoint new))
      (bindA (liftR (runtime_diagnostic ''PWK-TASK-REUSED''
          (''task '' @ py_quote (te_key entry) @ '' reused from checkpoint of run '' @ wid_str original_id)
          run reused None S_INFO
          [(''task_key'', te_key entry), (''original_run_id'', wid_str original_id),
           (''checkpoint_checksum'', cp_digest cached)])) (\<lambda>d.
       ret (diagnostics @ [d]))))))
     else ret diagnostics)"

definition resume_run ::
  "runtime \<Rightarrow> string + workflow_run_id \<Rightarrow> workflow_definition + execution_plan \<Rightarrow>
   correlation_context option \<Rightarrow> string list \<Rightarrow> (world, workflow_result) act" where
  "resume_run rt original workflow correlation force =
     (let sv = rt_services rt in
     bindA (liftR (case original of Inl text \<Rightarrow> parse_workflow_run_id text | Inr i \<Rightarrow> Inr i)) (\<lambda>original_id.
     bindA (resumable_parent original_id) (\<lambda>parent.
     bindA (compile_input sv workflow) (\<lambda>plan.
     thenA (liftR (preflight rt plan))
    (thenA (requireA (ep_definition_fingerprint plan = wr_definition_fingerprint parent)
       (GraphTopologyMismatch (wid_str original_id) (wr_definition_fingerprint parent)
          (ep_definition_fingerprint plan)))
    (bindA (in_store (list_task_runs original_id)) (\<lambda>parent_tasks.
     bindA (in_store (classify_tasks_for_resume plan (runs_by_key parent_tasks) force)) (\<lambda>c.
     bindA (new_workflow_run_id sv) (\<lambda>run_id.
     bindA (case correlation of Some b \<Rightarrow> ret b
        | None \<Rightarrow> bindA (new_correlation_id sv) (\<lambda>cid. liftR (mk_correlation_context
            ((bare_correlation cid)\<lparr>cc_causation_id := Some (wid_str original_id),
               cc_parent_execution_id := Some (wid_str original_id)\<rparr>)))) (\<lambda>base.
     bindA (liftR (bind_workflow_correlation base run_id)) (\<lambda>bound0.
     bindA (liftR (traced_correlation sv bound0)) (\<lambda>bound.
     bindA (create_run sv run_id plan bound (Some (wid_str original_id))) (\<lambda>run.
     bindA (foldA (resume_task sv c original_id run) (ep_tasks plan) (ep_diagnostics plan)) (\<lambda>diagnostics.
     bindA (transition_workflow sv run W_RUNNING None) (\<lambda>running.
     execute_plan_tasks rt running plan bound (rc_outputs c) (rc_reused_keys c) diagnostics)))))))))))))))"

section \<open>Cancellation\<close>

definition cancellation ::
  "cancellation_status \<Rightarrow> workflow_run_id \<Rightarrow> task_run_id option \<Rightarrow> task_attempt_id option \<Rightarrow> string \<Rightarrow>
   (world, cancellation_result) act" where
  "cancellation status run_id tid aid reason = liftR (mk_cancellation_result
     \<lparr>cn_status = status, cn_workflow_run_id = run_id, cn_task_run_id = tid, cn_attempt_id = aid,
      cn_reason = reason\<rparr>)"

definition cancel_active ::
  "runtime \<Rightarrow> task_run \<Rightarrow> task_attempt_id \<Rightarrow> execution_request \<Rightarrow> (world, cancellation_result) act" where
  \<comment> \<open>The end of \<open>cancel_task\<close>, for an attempt whose request is active.\<close>
  "cancel_active rt task_run attempt_id request =
     (let sv = rt_services rt; run_id = tr_workflow_run_id task_run; tid = tr_task_run_id task_run in
     bindA (liftR (resolve (rt_executors rt) (rq_executor_key request))) (\<lambda>ex.
     if ed_cancellation (ex_descriptor ex) = CAP_UNSUPPORTED \<or> \<not> ex_cancellable ex then
       bindA (in_store (get_task_attempt attempt_id)) (\<lambda>attempt.
       thenA (transition_attempt sv attempt A_RUNNING None)
         (cancellation CS_UNSUPPORTED run_id (Some tid) (Some attempt_id) ''executor_cancellation_unsupported''))
     else
       bindA (now sv) (\<lambda>requested_at.
       bindA (liftR (mk_cancellation_request
         \<lparr>cr_workflow_run_id = run_id, cr_task_run_id = tid, cr_attempt_id = attempt_id,
          cr_task_key = tr_task_key task_run, cr_requested_at = requested_at,
          cr_reason = ''requested_by_runtime''\<rparr>)) (\<lambda>command.
       bindA (sv_cancel sv ex command) (\<lambda>ack.
       bindA (in_store (get_task_attempt attempt_id)) (\<lambda>attempt.
       bindA (in_store (get_task_run tid)) (\<lambda>current.
       thenA (append_external_run_refs attempt_id (ck_external_runs ack))
      (thenA (if ck_status ack = CS_CONFIRMED then
           thenA (transition_attempt sv attempt A_CANCELLED None)
             (bindA (transition_task sv current T_CANCELLED None None) (\<lambda>_. ret ()))
         else if ck_status ack = CS_UNCONFIRMED then
           thenA (transition_attempt sv attempt A_CANCELLATION_UNCONFIRMED None)
             (bindA (transition_task sv current T_UNKNOWN_OUTCOME None None) (\<lambda>_. ret ()))
         else if ck_status ack \<in> {CS_UNSUPPORTED, CS_ALREADY_TERMINAL} then
           bindA (transition_attempt sv attempt A_RUNNING None) (\<lambda>_. ret ())
         else ret ())
       (cancellation (ck_status ack) run_id (Some tid) (Some attempt_id) (ck_reason ack))))))))))"

definition cancel_running_task :: "runtime \<Rightarrow> task_run \<Rightarrow> (world, cancellation_result) act" where
  \<comment> \<open>\<open>cancel_task\<close> once the status of the task has not settled the answer.\<close>
  "cancel_running_task rt task_run =
     (let sv = rt_services rt; run_id = tr_workflow_run_id task_run; tid = tr_task_run_id task_run in
     bindA (in_store (list_task_attempts tid)) (\<lambda>attempts.
     if attempts = [] then
       cancellation CS_UNCONFIRMED run_id (Some tid) None ''running_task_has_no_persisted_attempt''
     else let attempt = last attempts; aid = ta_attempt_id attempt in
       if ta_status attempt \<in> {A_SUCCEEDED, A_FAILED, A_TIMED_OUT, A_CANCELLED} then
         cancellation CS_ALREADY_TERMINAL run_id (Some tid) (Some aid) ''task_attempt_already_terminal''
       else
         thenA (if ta_status attempt \<noteq> A_CANCELLATION_REQUESTED
           then bindA (transition_attempt sv attempt A_CANCELLATION_REQUESTED None) (\<lambda>_. ret ()) else ret ())
        (bindA (gets w_active) (\<lambda>active.
         case dict_get active aid of
           None \<Rightarrow>
             bindA (in_store (get_task_attempt aid)) (\<lambda>current_attempt.
             thenA (transition_attempt sv current_attempt A_CANCELLATION_UNCONFIRMED None)
            (bindA (in_store (get_task_run tid)) (\<lambda>current.
             thenA (transition_task sv current T_UNKNOWN_OUTCOME None None)
               (cancellation CS_UNCONFIRMED run_id (Some tid) (Some aid) ''active_execution_handle_not_available''))))
         | Some request \<Rightarrow> cancel_active rt task_run aid request))))"

definition cancel_task :: "runtime \<Rightarrow> task_run_id \<Rightarrow> (world, cancellation_result) act" where
  "cancel_task rt tid =
     bindA (in_store (get_task_run tid)) (\<lambda>task_run.
     let sv = rt_services rt; run_id = tr_workflow_run_id task_run in
     if tr_status task_run \<in> {T_SUCCEEDED, T_FAILED, T_SKIPPED, T_CANCELLED, T_TIMED_OUT} then
       cancellation CS_ALREADY_TERMINAL run_id (Some tid) None ''task_run_already_terminal''
     else if tr_status task_run \<in> {T_PENDING, T_READY, T_BLOCKED} then
       thenA (transition_task sv task_run T_CANCELLED None None)
         (cancellation CS_CONFIRMED run_id (Some tid) None ''task_never_started_and_is_cancelled'')
     else if tr_status task_run = T_UNKNOWN_OUTCOME then
       cancellation CS_UNCONFIRMED run_id (Some tid) None ''task_outcome_already_unknown''
     else cancel_running_task rt task_run)"

definition cancel_member :: "runtime \<Rightarrow> task_run \<Rightarrow> cancellation_status list \<Rightarrow> (world, cancellation_status list) act" where
  "cancel_member rt t statuses =
     (if tr_status t \<in> {T_PENDING, T_READY, T_BLOCKED} then
        thenA (transition_task (rt_services rt) t T_CANCELLED None None) (ret (statuses @ [CS_CONFIRMED]))
      else if tr_status t = T_RUNNING then
        bindA (cancel_task rt (tr_task_run_id t)) (\<lambda>r. ret (statuses @ [cn_status r]))
      else if tr_status t = T_UNKNOWN_OUTCOME then ret (statuses @ [CS_UNCONFIRMED])
      else ret statuses)"

definition cancel_run :: "runtime \<Rightarrow> workflow_run_id \<Rightarrow> (world, cancellation_result) act" where
  \<comment> \<open>\<open>WorkflowRuntime.cancel\<close>\<close>
  "cancel_run rt run_id =
     (let sv = rt_services rt in
     bindA (in_store (get_workflow_run run_id)) (\<lambda>run.
     if wr_status run \<in> {W_SUCCEEDED, W_FAILED, W_CANCELLED, W_TIMED_OUT} then
       cancellation CS_ALREADY_TERMINAL run_id None None ''workflow_already_terminal''
     else if wr_status run = W_UNKNOWN_OUTCOME then
       cancellation CS_UNCONFIRMED run_id None None ''workflow_outcome_already_unknown''
     else
       thenA (if wr_status run \<noteq> W_CANCELLATION_REQUESTED
         then bindA (transition_workflow sv run W_CANCELLATION_REQUESTED None) (\<lambda>_. ret ()) else ret ())
      (bindA (in_store (list_task_runs run_id)) (\<lambda>task_runs.
       bindA (foldA (cancel_member rt) task_runs []) (\<lambda>statuses.
       bindA (in_store (get_workflow_run run_id)) (\<lambda>current.
       if CS_UNCONFIRMED \<in> set statuses then
         thenA (if wr_status current = W_CANCELLATION_REQUESTED
           then bindA (transition_workflow sv current W_UNKNOWN_OUTCOME None) (\<lambda>_. ret ()) else ret ())
         (cancellation CS_UNCONFIRMED run_id None None ''at_least_one_task_cancellation_unconfirmed'')
       else if CS_REQUESTED \<in> set statuses then
         cancellation CS_REQUESTED run_id None None ''cancellation_requested_but_not_confirmed''
       else if CS_UNSUPPORTED \<in> set statuses then
         cancellation CS_UNSUPPORTED run_id None None ''executor_does_not_support_active_task_cancellation''
       else
         thenA (if wr_status current = W_CANCELLATION_REQUESTED
           then bindA (transition_workflow sv current W_CANCELLED None) (\<lambda>_. ret ()) else ret ())
         (cancellation CS_CONFIRMED run_id None None ''workflow_cancellation_confirmed'')))))))"

end
