(* ===== verification/Recovery.thy ===== *)
theory Recovery
  imports Runtime
begin

text \<open>
  Recovery after a crash: \<open>RecoveryInspector\<close> (\<open>diagnostics/recovery.py\<close>), which classifies the
  evidence in the store without changing it, and \<open>ReconciliationService\<close>
  (\<open>runtime/reconciliation.py\<close>), which settles ambiguous attempts from durable local evidence and
  from what external providers report.  A verifier is an object known to the registry by its
  provider; what its \<open>verify\<close> answers is the service \<open>sv_verify\<close>.
\<close>

section \<open>Assessment\<close>

datatype recovery_disposition = RD_NO_ACTION | RD_READY | RD_REQUIRES_RECONCILIATION | RD_MANUAL_REQUIRED

record task_assessment =
  as_task_run_id :: task_run_id
  as_task_key :: string
  as_task_status :: task_run_status
  as_latest_attempt_id :: "task_attempt_id option"
  as_latest_attempt_status :: "task_attempt_status option"
  as_external_run_ref_count :: nat
  as_disposition :: recovery_disposition
  as_reasons :: "string list"

record recovery_assessment =
  ra_workflow_run_id :: workflow_run_id
  ra_workflow_status :: workflow_run_status
  ra_task_assessments :: "task_assessment list"
  ra_disposition :: recovery_disposition
  ra_reasons :: "string list"

definition ra_requires_reconciliation :: "recovery_assessment \<Rightarrow> bool" where
  "ra_requires_reconciliation a \<longleftrightarrow> ra_disposition a = RD_REQUIRES_RECONCILIATION"

definition ra_requires_manual_action :: "recovery_assessment \<Rightarrow> bool" where
  "ra_requires_manual_action a \<longleftrightarrow> ra_disposition a = RD_MANUAL_REQUIRED"

definition task_verdict ::
  "task_run \<Rightarrow> task_attempt option \<Rightarrow> nat \<Rightarrow> recovery_disposition \<Rightarrow> string \<Rightarrow> task_assessment" where
  "task_verdict t latest refs disposition reason =
     \<lparr>as_task_run_id = tr_task_run_id t, as_task_key = tr_task_key t, as_task_status = tr_status t,
      as_latest_attempt_id = map_option ta_attempt_id latest,
      as_latest_attempt_status = map_option ta_status latest,
      as_external_run_ref_count = refs, as_disposition = disposition, as_reasons = [reason]\<rparr>"

definition assess_task :: "task_run_id \<Rightarrow> (store, task_assessment) act" where
  "assess_task tid =
     bindA (get_task_run tid) (\<lambda>t.
     bindA (list_task_attempts tid) (\<lambda>attempts.
     let latest = (if attempts = [] then None else Some (last attempts)) in
     if tr_status t \<in> TASK_RUN_TERMINAL_STATUSES then
       ret (task_verdict t latest 0 RD_NO_ACTION ''task_is_terminal'')
     else case latest of
       None \<Rightarrow> ret (task_verdict t None 0 RD_READY ''task_has_not_started_an_attempt'')
     | Some attempt \<Rightarrow>
         bindA (list_external_run_refs (ta_attempt_id attempt)) (\<lambda>refs.
         if ta_status attempt \<in> TASK_ATTEMPT_TERMINAL_STATUSES then
           ret (task_verdict t latest (length refs) RD_REQUIRES_RECONCILIATION
             ''task_state_lags_terminal_attempt_evidence'')
         else if refs \<noteq> [] then
           ret (task_verdict t latest (length refs) RD_REQUIRES_RECONCILIATION
             ''non_terminal_attempt_has_external_execution_evidence'')
         else if ta_status attempt \<in> {A_PENDING, A_STARTING, A_RUNNING, A_CANCELLATION_REQUESTED,
             A_CANCELLATION_UNCONFIRMED, A_UNKNOWN_OUTCOME, A_REQUIRES_RECONCILIATION} then
           ret (task_verdict t latest 0 RD_MANUAL_REQUIRED
             ''non_terminal_attempt_has_no_external_reconciliation_evidence'')
         else
           ret (task_verdict t latest (length refs) RD_MANUAL_REQUIRED
             ''persisted_task_state_is_not_recoverable_automatically''))))"

definition assess_verdict ::
  "workflow_run_status \<Rightarrow> recovery_disposition list \<Rightarrow> recovery_disposition \<times> string" where
  "assess_verdict status dispositions =
     (if status \<in> WORKFLOW_TERMINAL_STATUSES then (RD_NO_ACTION, ''workflow_is_terminal'')
      else if RD_MANUAL_REQUIRED \<in> set dispositions then
        (RD_MANUAL_REQUIRED, ''at_least_one_task_requires_manual_recovery'')
      else if RD_REQUIRES_RECONCILIATION \<in> set dispositions then
        (RD_REQUIRES_RECONCILIATION, ''at_least_one_task_requires_reconciliation'')
      else (RD_READY, ''durable_state_has_no_ambiguous_active_attempt''))"

definition assess :: "workflow_run_id \<Rightarrow> (store, recovery_assessment) act" where
  "assess run_id =
     bindA (get_workflow_run run_id) (\<lambda>run.
     bindA (list_task_runs run_id) (\<lambda>task_runs.
     bindA (mapA (\<lambda>t. assess_task (tr_task_run_id t)) task_runs) (\<lambda>assessments.
     case assess_verdict (wr_status run) (map as_disposition assessments) of (disposition, reason) \<Rightarrow>
     ret \<lparr>ra_workflow_run_id = wr_run_id run, ra_workflow_status = wr_status run,
       ra_task_assessments = assessments, ra_disposition = disposition, ra_reasons = [reason]\<rparr>)))"

definition discover :: "(store, recovery_assessment list) act" where
  "discover = bindA list_unfinished_workflow_runs (mapA (\<lambda>run. assess (wr_run_id run)))"

section \<open>Verifiers\<close>

definition register_verifier :: "string \<Rightarrow> nat \<Rightarrow> (string, nat) dict \<Rightarrow> (string, nat) dict result" where
  \<comment> \<open>The provider a verifier declares, the verifier, the registry.\<close>
  "register_verifier provider verifier registry =
     thenR (require (\<not> blank provider) (ValueError ''verifier.provider must be a non-empty string''))
    (thenR (require (\<not> dict_has registry provider) (DuplicateReconciliationVerifier provider))
    (Inr (dict_set provider verifier registry)))"

definition verifier_providers :: "(string, nat) dict \<Rightarrow> string list" where
  "verifier_providers registry = sort (map fst registry)"

definition register_external_run_verifier :: "string \<Rightarrow> nat \<Rightarrow> runtime \<Rightarrow> runtime result" where
  "register_external_run_verifier provider verifier rt =
     bindR (register_verifier provider verifier (rt_verifiers rt)) (\<lambda>verifiers.
     Inr (rt\<lparr>rt_verifiers := verifiers\<rparr>))"

record observation =
  ob_provider :: string
  ob_kind :: string
  ob_external_run_id :: string
  ob_status :: external_run_status
  ob_reason :: "string option"

definition observation_of :: "external_run_ref \<Rightarrow> external_run_status \<Rightarrow> string option \<Rightarrow> observation" where
  "observation_of ref status reason = \<lparr>ob_provider = er_provider ref, ob_kind = er_kind ref,
     ob_external_run_id = er_external_run_id ref, ob_status = status, ob_reason = reason\<rparr>"

definition observe :: "runtime \<Rightarrow> external_run_ref \<Rightarrow> (world, observation) act" where
  "observe rt ref = (case dict_get (rt_verifiers rt) (er_provider ref) of
     None \<Rightarrow> ret (observation_of ref X_UNKNOWN (Some ''verifier_not_registered''))
   | Some verifier \<Rightarrow>
       bindA (attemptA (sv_verify (rt_services rt) verifier ref)) (\<lambda>outcome.
       case outcome of
         Inl e \<Rightarrow> ret (observation_of ref X_UNKNOWN (Some (''verification_failed:'' @ exc_name e)))
       | Inr None \<Rightarrow> ret (observation_of ref X_UNKNOWN (Some ''verifier_returned_invalid_status''))
       | Inr (Some status) \<Rightarrow> ret (observation_of ref status None)))"

section \<open>Reconciling a task\<close>

datatype reconciliation_disposition =
    RC_NO_ACTION | RC_SUCCEEDED | RC_FAILED | RC_CANCELLED | RC_TIMED_OUT | RC_STILL_RUNNING | RC_MANUAL_REQUIRED

record task_reconciliation =
  tc_task_run_id :: task_run_id
  tc_task_key :: string
  tc_attempt_id :: "task_attempt_id option"
  tc_disposition :: reconciliation_disposition
  tc_observations :: "observation list"
  tc_reasons :: "string list"

definition reconciliation ::
  "task_run \<Rightarrow> task_attempt option \<Rightarrow> reconciliation_disposition \<Rightarrow> observation list \<Rightarrow> string \<Rightarrow>
   task_reconciliation" where
  "reconciliation t attempt disposition observations reason =
     \<lparr>tc_task_run_id = tr_task_run_id t, tc_task_key = tr_task_key t,
      tc_attempt_id = map_option ta_attempt_id attempt, tc_disposition = disposition,
      tc_observations = observations, tc_reasons = [reason]\<rparr>"

definition terminal_mapping :: "task_attempt_status \<Rightarrow> (task_run_status \<times> reconciliation_disposition) option" where
  \<comment> \<open>The dictionary \<open>mapping\<close> of \<open>_repair_task_from_terminal_attempt\<close>.\<close>
  "terminal_mapping status = (case status of
     A_SUCCEEDED \<Rightarrow> Some (T_SUCCEEDED, RC_SUCCEEDED) | A_FAILED \<Rightarrow> Some (T_FAILED, RC_FAILED)
   | A_CANCELLED \<Rightarrow> Some (T_CANCELLED, RC_CANCELLED) | A_TIMED_OUT \<Rightarrow> Some (T_TIMED_OUT, RC_TIMED_OUT)
   | _ \<Rightarrow> None)"

definition repair_task ::
  "services \<Rightarrow> task_run \<Rightarrow> task_attempt \<Rightarrow> (world, reconciliation_disposition) act" where
  \<comment> \<open>\<open>_repair_task_from_terminal_attempt\<close>\<close>
  "repair_task sv t attempt = (case terminal_mapping (ta_status attempt) of
     None \<Rightarrow> raise (KeyError (attempt_status_value (ta_status attempt)))
   | Some (status, disposition) \<Rightarrow>
       bindA (transition_task sv t status None (ta_failure attempt)) (\<lambda>_. ret disposition))"

definition resolve_attempt_and_task ::
  "services \<Rightarrow> task_run \<Rightarrow> task_attempt \<Rightarrow> task_attempt_status \<Rightarrow> task_run_status \<Rightarrow>
   failure_evidence option \<Rightarrow> (world, unit) act" where
  "resolve_attempt_and_task sv t attempt attempt_status task_status failure =
     thenA (if ta_status attempt \<noteq> attempt_status
            then bindA (transition_attempt sv attempt attempt_status failure) (\<lambda>_. ret ()) else ret ())
    (bindA (in_store (get_task_run (tr_task_run_id t))) (\<lambda>t'.
     if tr_status t' \<noteq> task_status
     then bindA (transition_task sv t' task_status None failure) (\<lambda>_. ret ()) else ret ()))"

definition reconciled_failure ::
  "services \<Rightarrow> task_run \<Rightarrow> task_attempt \<Rightarrow> external_run_ref \<Rightarrow> bool \<Rightarrow> (world, failure_evidence) act" where
  "reconciled_failure sv t attempt ref cancelled =
     bindA (in_store (get_workflow_run (tr_workflow_run_id t))) (\<lambda>run.
     bindA (now sv) (\<lambda>occurred_at.
     liftR (mk_failure_evidence ((failure_defaults (cc_correlation_id (wr_correlation run)) occurred_at)
       \<lparr>fe_error_code := (if cancelled then ''PWK-RECONCILED-EXTERNAL-CANCELLED''
          else ''PWK-RECONCILED-EXTERNAL-FAILED''),
        fe_category := (if cancelled then F_CANCELLED else F_EXTERNAL_PROVIDER),
        fe_retryability := (if cancelled then R_NON_RETRYABLE else R_UNKNOWN),
        fe_uncertainty := U_KNOWN,
        fe_workflow_run_id := Some (wid_str (wr_run_id run)),
        fe_task_run_id := Some (tid_str (tr_task_run_id t)),
        fe_task_attempt_id := Some (aid_str (ta_attempt_id attempt)),
        fe_external_run := Some ref,
        fe_source_component := Some ''workflow_runtime.reconciliation'',
        fe_message_summary := Some (if cancelled
          then ''external execution cancellation confirmed during reconciliation''
          else ''external execution failure confirmed during reconciliation''),
        fe_details := [(''provider_status_source'', ''reconciliation_verifier'')]\<rparr>))))"

definition apply_provider_truth ::
  "services \<Rightarrow> task_run \<Rightarrow> task_attempt \<Rightarrow> external_run_ref \<Rightarrow> external_run_status \<Rightarrow>
   (world, reconciliation_disposition option) act" where
  \<comment> \<open>The branches of \<open>_reconcile_task\<close> on the one status that all observations agree on.\<close>
  "apply_provider_truth sv t attempt ref status = (case status of
     X_SUCCEEDED \<Rightarrow>
       thenA (resolve_attempt_and_task sv t attempt A_SUCCEEDED T_SUCCEEDED None) (ret (Some RC_SUCCEEDED))
   | X_FAILED \<Rightarrow> bindA (reconciled_failure sv t attempt ref False) (\<lambda>f.
       thenA (resolve_attempt_and_task sv t attempt A_FAILED T_FAILED (Some f)) (ret (Some RC_FAILED)))
   | X_CANCELLED \<Rightarrow> bindA (reconciled_failure sv t attempt ref True) (\<lambda>f.
       thenA (resolve_attempt_and_task sv t attempt A_CANCELLED T_CANCELLED (Some f)) (ret (Some RC_CANCELLED)))
   | _ \<Rightarrow> ret None)"

definition reconcile_by_provider ::
  "runtime \<Rightarrow> task_run \<Rightarrow> task_attempt \<Rightarrow> external_run_ref list \<Rightarrow> (world, task_reconciliation) act" where
  \<comment> \<open>\<open>_reconcile_task\<close> from the observations on.\<close>
  "reconcile_by_provider rt t attempt refs =
     bindA (mapA (observe rt) refs) (\<lambda>observations.
     let statuses = remdups (map ob_status observations) in
     if list_ex (\<lambda>s. s \<in> {X_UNKNOWN, X_NOT_FOUND}) statuses then
       ret (reconciliation t (Some attempt) RC_MANUAL_REQUIRED observations ''external_status_is_not_conclusive'')
     else if length statuses \<noteq> 1 then
       ret (reconciliation t (Some attempt) RC_MANUAL_REQUIRED observations ''conflicting_external_statuses'')
     else if hd statuses = X_RUNNING then
       ret (reconciliation t (Some attempt) RC_STILL_RUNNING observations ''external_execution_is_still_running'')
     else
       bindA (apply_provider_truth (rt_services rt) t attempt (hd refs) (hd statuses)) (\<lambda>answer.
       case answer of
         None \<Rightarrow> ret (reconciliation t (Some attempt) RC_MANUAL_REQUIRED observations ''unsupported_external_status'')
       | Some disposition \<Rightarrow> ret (reconciliation t (Some attempt) disposition observations
           ''provider_truth_applied_to_same_task_attempt'')))"

definition reconcile_task :: "runtime \<Rightarrow> task_run_id \<Rightarrow> (world, task_reconciliation) act" where
  "reconcile_task rt tid =
     bindA (in_store (get_task_run tid)) (\<lambda>t.
     bindA (in_store (list_task_attempts tid)) (\<lambda>attempts.
     if attempts = [] then ret (reconciliation t None RC_NO_ACTION [] ''task_has_not_started_an_attempt'')
     else
       (if ta_status (last attempts) \<in> TASK_ATTEMPT_TERMINAL_STATUSES then
          bindA (repair_task (rt_services rt) t (last attempts)) (\<lambda>disposition.
          ret (reconciliation t (Some (last attempts)) disposition [] ''terminal_attempt_is_durable_authority''))
        else
          bindA (in_store (list_external_run_refs (ta_attempt_id (last attempts)))) (\<lambda>refs.
          if refs = [] then ret (reconciliation t (Some (last attempts)) RC_MANUAL_REQUIRED []
            ''no_external_reconciliation_evidence'')
          else reconcile_by_provider rt t (last attempts) refs))))"

section \<open>Reconciling a run\<close>

record reconciliation_report =
  rn_workflow_run_id :: workflow_run_id
  rn_workflow_status_before :: workflow_run_status
  rn_workflow_status_after :: workflow_run_status
  rn_assessment :: recovery_assessment
  rn_task_reconciliations :: "task_reconciliation list"

definition unresolved :: "task_reconciliation \<Rightarrow> bool" where
  "unresolved r \<longleftrightarrow> tc_disposition r \<in> {RC_STILL_RUNNING, RC_MANUAL_REQUIRED}"

definition fully_resolved :: "reconciliation_report \<Rightarrow> bool" where
  "fully_resolved r \<longleftrightarrow> list_all (\<lambda>x. tc_disposition x \<notin> {RC_STILL_RUNNING, RC_MANUAL_REQUIRED}) (rn_task_reconciliations r)"

definition requires_manual_action :: "reconciliation_report \<Rightarrow> bool" where
  "requires_manual_action r \<longleftrightarrow> list_ex (\<lambda>x. tc_disposition x = RC_MANUAL_REQUIRED) (rn_task_reconciliations r)"

definition has_still_running :: "reconciliation_report \<Rightarrow> bool" where
  "has_still_running r \<longleftrightarrow> list_ex (\<lambda>x. tc_disposition x = RC_STILL_RUNNING) (rn_task_reconciliations r)"

fun first_task_failure :: "task_run list \<Rightarrow> failure_evidence option" where
  "first_task_failure [] = None"
| "first_task_failure (t # ts) = (case tr_failure t of None \<Rightarrow> first_task_failure ts | Some f \<Rightarrow> Some f)"

definition reconcile_workflow :: "services \<Rightarrow> workflow_run_id \<Rightarrow> (world, unit) act" where
  "reconcile_workflow sv run_id =
     bindA (in_store (get_workflow_run run_id)) (\<lambda>run.
     if wr_status run \<in> WORKFLOW_TERMINAL_STATUSES then ret ()
     else
       bindA (in_store (list_task_runs run_id)) (\<lambda>task_runs.
       let statuses = map tr_status task_runs in
       if T_UNKNOWN_OUTCOME \<in> set statuses then ret ()
       else if T_FAILED \<in> set statuses then
         bindA (transition_workflow sv run W_FAILED (first_task_failure task_runs)) (\<lambda>_. ret ())
       else if T_TIMED_OUT \<in> set statuses then
         bindA (transition_workflow sv run W_TIMED_OUT (first_task_failure task_runs)) (\<lambda>_. ret ())
       else if T_CANCELLED \<in> set statuses then
         bindA (transition_workflow sv run W_CANCELLED (first_task_failure task_runs)) (\<lambda>_. ret ())
       else if task_runs \<noteq> [] \<and> list_all (\<lambda>s. s \<in> TASK_RUN_TERMINAL_STATUSES) statuses then
         bindA (transition_workflow sv run W_SUCCEEDED None) (\<lambda>_. ret ())
       else if wr_status run = W_UNKNOWN_OUTCOME then
         bindA (transition_workflow sv run W_RUNNING None) (\<lambda>_. ret ())
       else ret ()))"

definition reconcile :: "runtime \<Rightarrow> workflow_run_id \<Rightarrow> (world, reconciliation_report) act" where
  "reconcile rt run_id =
     bindA (in_store (assess run_id)) (\<lambda>assessment.
     bindA (in_store (get_workflow_run run_id)) (\<lambda>before.
     if wr_status before \<in> WORKFLOW_TERMINAL_STATUSES then
       ret \<lparr>rn_workflow_run_id = run_id, rn_workflow_status_before = wr_status before,
         rn_workflow_status_after = wr_status before, rn_assessment = assessment, rn_task_reconciliations = []\<rparr>
     else
       bindA (in_store (list_task_runs run_id)) (\<lambda>task_runs.
       bindA (mapA (\<lambda>t. reconcile_task rt (tr_task_run_id t))
         (filter (\<lambda>t. tr_status t \<notin> TASK_RUN_TERMINAL_STATUSES) task_runs)) (\<lambda>reconciliations.
       thenA (if list_ex unresolved reconciliations then ret () else reconcile_workflow (rt_services rt) run_id)
      (bindA (in_store (get_workflow_run run_id)) (\<lambda>after.
       ret \<lparr>rn_workflow_run_id = run_id, rn_workflow_status_before = wr_status before,
         rn_workflow_status_after = wr_status after, rn_assessment = assessment,
         rn_task_reconciliations = reconciliations\<rparr>))))))"

end
