(* ===== verification/Execution.thy ===== *)
theory Execution
  imports Recovery
begin

text \<open>
  What the runtime guarantees.  Every command, whatever it returns or raises and whatever the
  other users of the store do lawfully in between, moves the store along the law of evolution;
  the retry loop ends; a run reported as succeeded has no unfinished or failed task; a task is
  tried again only after a failure known to be safe to retry; a resumed run reuses exactly the
  tasks it may reuse.
\<close>

section \<open>Every command is lawful\<close>

lemma active_lawful [lawful_intros]:
  "maintains lawful (remember_active request)" "maintains lawful (forget_active aid)"
  by (simp_all add: maintains_def remember_active_def forget_active_def lawful_def evolves_refl)

lemma executor_lawful: "lawful_services sv \<Longrightarrow> maintains lawful (sv_execute sv ex rq)"
  and canceller_lawful: "lawful_services sv \<Longrightarrow> maintains lawful (sv_cancel sv ex command)"
  and waiter_lawful: "lawful_services sv \<Longrightarrow> maintains lawful (sv_wait sv d)"
  and verifier_lawful: "lawful_services sv \<Longrightarrow> maintains lawful (sv_verify sv v ref)"
  by (simp_all add: lawful_services_def)

declare executor_lawful [lawful_intros] canceller_lawful [lawful_intros] waiter_lawful [lawful_intros]
  verifier_lawful [lawful_intros]

lemma round_split:
  "(\<And>r. maintains R (f r)) \<Longrightarrow> (\<And>st. maintains R (g st)) \<Longrightarrow> (\<And>st e. maintains R (h st e)) \<Longrightarrow>
   (\<And>st t. maintains R (k st t)) \<Longrightarrow>
   maintains R (case x of Returned r \<Rightarrow> f r | TaskDone st \<Rightarrow> g st | TaskFailed st e \<Rightarrow> h st e | TryAgain st t \<Rightarrow> k st t)"
  by (cases x) simp_all

lemma exit_split:
  "(\<And>r. maintains R (f r)) \<Longrightarrow> (\<And>st. maintains R (g st)) \<Longrightarrow> (\<And>en e st. maintains R (h en e st)) \<Longrightarrow>
   maintains R (case x of ExitReturned r \<Rightarrow> f r | ExitCompleted st \<Rightarrow> g st | ExitFailed en e st \<Rightarrow> h en e st)"
  by (cases x) simp_all

lemma build_result_lawful [lawful_intros]: "maintains lawful (build_result run_id outputs diagnostics)"
  unfolding build_result_def build_outcome_def by (intro law.combinators lawful_intros)

lemma failure_result_lawful:
  "maintains lawful m \<Longrightarrow> maintains lawful (failure_result m rq code category ret' unc component summary)"
  unfolding failure_result_def by (intro law.combinators lawful_intros)

lemma execute_request_lawful [lawful_intros]:
  "lawful_services (rt_services rt) \<Longrightarrow> maintains lawful (execute_request rt request)"
  unfolding execute_request_def by (intro law.combinators lawful_intros failure_result_lawful)

lemma start_attempt_lawful [lawful_intros]:
  assumes "lawful_services sv"
  shows "maintains lawful (start_attempt sv current)"
proof -
  have "maintains lawful (in_store (append_task_attempt a))"
    if "returns (new_task_attempt_id sv) i" "next_task_attempt current attempts i ts = Inr a" for a i ts attempts
  proof -
    have "ta_attempt_id a = i"
      using that(2) by (auto simp: next_task_attempt_def thenR_Inr_iff bindR_Inr_iff Let_def fresh_attempt_def split: prod.splits)
    then show ?thesis using new_ids_return(3) [OF that(1)] by (intro in_store_lawful append_task_attempt_evolves) simp
  qed
  then show ?thesis
    using assms unfolding start_attempt_def
    by (intro law.bindA_returns law.combinators lawful_intros) auto
qed

lemma attempt_request_lawful [lawful_intros]:
  "lawful_services sv \<Longrightarrow> maintains lawful (attempt_request sv run_id c outputs entry current attempt)"
  unfolding attempt_request_def execution_deadline_def by (intro law.combinators lawful_intros)

lemma perform_attempt_lawful [lawful_intros]:
  "lawful_services (rt_services rt) \<Longrightarrow> maintains lawful (perform_attempt rt run_id c outputs entry current)"
  unfolding perform_attempt_def by (intro law.combinators lawful_intros)

lemma note_diagnostic_lawful [lawful_intros]: "maintains lawful (note_diagnostic d st)"
  unfolding note_diagnostic_def by (intro law.combinators lawful_intros)

lemma append_external_run_refs_lawful [lawful_intros]: "maintains lawful (append_external_run_refs aid refs)"
  unfolding append_external_run_refs_def by (intro law.combinators lawful_intros)

lemma persist_lawful [lawful_intros]:
  "maintains lawful (persist_external_run_refs aid r)"
  "lawful_services sv \<Longrightarrow> maintains lawful (persist_output_checkpoint sv t v run aid)"
  by (simp add: persist_external_run_refs_def append_external_run_refs_lawful)
    (unfold persist_output_checkpoint_def, intro law.combinators lawful_intros)

lemma cancel_not_started_lawful [lawful_intros]:
  "lawful_services sv \<Longrightarrow> maintains lawful (cancel_not_started_tasks sv run_id)"
  unfolding cancel_not_started_tasks_def by (intro law.combinators lawful_intros)

lemma settle_lawful [lawful_intros]:
  assumes "lawful_services sv"
  shows "maintains lawful (settle_cancelled sv st current)"
    "maintains lawful (settle_success sv st entry current attempt v)"
    "maintains lawful (settle_uncertain sv st current attempt f e)"
    "maintains lawful (settle_known_failure sv st entry current attempt f e)"
  using assms unfolding settle_cancelled_def settle_success_def settle_uncertain_def settle_known_failure_def
  by (intro law.combinators lawful_intros; assumption?)+

lemma settle_failure_lawful [lawful_intros]:
  "lawful_services sv \<Longrightarrow> maintains lawful (settle_failure sv st entry current attempt f)"
  unfolding settle_failure_def task_elapsed_seconds_def by (intro law.combinators lawful_intros)

lemma settle_attempt_lawful [lawful_intros]:
  "lawful_services sv \<Longrightarrow> maintains lawful (settle_attempt sv st entry tid aid r)"
  unfolding settle_attempt_def by (intro law.combinators lawful_intros)

lemma attempt_loop_lawful [lawful_intros]:
  "lawful_services (rt_services rt) \<Longrightarrow> maintains lawful exhausted \<Longrightarrow>
   maintains lawful (attempt_loop exhausted n rt c entry current st)"
proof (induction n arbitrary: current st)
  case (Suc n)
  from Suc.prems show ?case
    unfolding attempt_loop.simps by (intro law.combinators lawful_intros round_split Suc.IH)
qed simp

lemma run_task_lawful [lawful_intros]:
  "lawful_services (rt_services rt) \<Longrightarrow> maintains lawful (run_task rt c entry st)"
  unfolding run_task_def by (intro law.combinators lawful_intros)

lemma plan_loop_lawful [lawful_intros]:
  "lawful_services (rt_services rt) \<Longrightarrow> maintains lawful (plan_loop rt c reused entries st)"
proof (induction entries arbitrary: st)
  case (Cons entry entries)
  from Cons.prems show ?case
    unfolding plan_loop.simps by (intro law.combinators lawful_intros round_split Cons.IH)
qed (simp, intro law.combinators lawful_intros)

lemma finish_lawful [lawful_intros]:
  assumes "lawful_services sv"
  shows "maintains lawful (finish_failed sv plan entry f st)" "maintains lawful (finish_completed sv st)"
  using assms unfolding finish_failed_def finish_completed_def apply_fail_fast_def assert_terminal_task_runs_def
  by (intro law.combinators lawful_intros; assumption?)+

lemma execute_plan_tasks_lawful [lawful_intros]:
  "lawful_services (rt_services rt) \<Longrightarrow>
   maintains lawful (execute_plan_tasks rt run plan c outputs reused diagnostics)"
  unfolding execute_plan_tasks_def by (intro law.combinators lawful_intros exit_split)

lemma create_run_lawful:
  assumes "lawful_services sv" "\<not> blank (wid_str run_id)"
  shows "maintains lawful (create_run sv run_id plan c resume_of)"
proof -
  have "maintains lawful (in_store (create_workflow_run run))"
    if "fresh_workflow_run run_id plan digest c ts resume_of = Inr run" for run digest ts
  proof -
    have "wr_run_id run = run_id" using that by (auto simp: fresh_workflow_run_def Let_def thenR_Inr_iff)
    then show ?thesis using assms(2) by (intro in_store_lawful create_workflow_run_evolves) simp
  qed
  then show ?thesis
    using assms(1) unfolding create_run_def by (intro law.bindA_returns law.combinators lawful_intros) auto
qed

lemma create_planned_task_lawful [lawful_intros]:
  assumes "lawful_services sv"
  shows "maintains lawful (create_planned_task sv run entry)"
proof -
  have "maintains lawful (in_store (create_task_run t))"
    if "returns (new_task_run_id sv) i" "fresh_task_run i rid key ts = Inr t" for i rid key ts t
  proof -
    have "tr_task_run_id t = i" using that(2) by (auto simp: fresh_task_run_def Let_def thenR_Inr_iff)
    then show ?thesis using new_ids_return(2) [OF that(1)] by (intro in_store_lawful create_task_run_evolves) simp
  qed
  then show ?thesis
    using assms unfolding create_planned_task_def by (intro law.bindA_returns law.combinators lawful_intros) auto
qed

lemma run_workflow_lawful:
  assumes sv: "lawful_services (rt_services rt)"
  shows "maintains lawful (run_workflow rt workflow correlation)"
proof -
  have "maintains lawful (create_run (rt_services rt) i plan c resume_of)"
    if "returns (new_workflow_run_id (rt_services rt)) i" for i plan c resume_of
    using sv new_ids_return(1) [OF that] by (rule create_run_lawful)
  then show ?thesis
    unfolding run_workflow_def Let_def compile_input_def using sv
    by (intro law.bindA_returns law.combinators lawful_intros; assumption?) auto
qed

lemma classify_task_read: "snd (classify_task parents force entry c s) = s"
  unfolding classify_task_def
  by (auto simp: bindA_def attemptA_def split: prod.splits sum.splits option.splits pyexc.splits)
    (metis reads_pure(12) snd_conv)+

lemma classify_lawful [lawful_intros]:
  "maintains lawful (in_store (classify_tasks_for_resume plan parents force))"
proof -
  have "snd (foldA (classify_task parents force) entries c s) = s" for entries c s
    by (induction entries arbitrary: c s) (simp_all add: bindA_read classify_task_read)
  then show ?thesis by (intro in_store_lawful read_evolves) (simp add: classify_tasks_for_resume_def)
qed

lemma resumable_parent_lawful [lawful_intros]: "maintains lawful (resumable_parent i)"
proof -
  have "snd (resumable_parent i w) = snd (in_store (get_workflow_run i) w)" for w
    unfolding resumable_parent_def
    by (auto simp: bindA_def thenA_def attemptA_def split: prod.splits sum.splits pyexc.splits)
  then show ?thesis
    using in_store_lawful [OF read_evolves [OF reads_pure(4)]] by (simp add: maintains_def)
qed

lemma resume_task_lawful [lawful_intros]:
  "lawful_services sv \<Longrightarrow> maintains lawful (resume_task sv c original run entry ds)"
  unfolding resume_task_def by (intro law.combinators lawful_intros)

lemma resume_run_lawful:
  assumes sv: "lawful_services (rt_services rt)"
  shows "maintains lawful (resume_run rt original workflow correlation force)"
proof -
  have create: "maintains lawful (create_run (rt_services rt) i plan c resume_of)"
    if "returns (new_workflow_run_id (rt_services rt)) i" for i plan c resume_of
    using sv new_ids_return(1) [OF that] by (rule create_run_lawful)
  show ?thesis
    unfolding resume_run_def Let_def compile_input_def using sv
    by (intro law.bindA_returns law.combinators lawful_intros create; assumption?)
qed

lemma cancel_task_lawful [lawful_intros]:
  "lawful_services (rt_services rt) \<Longrightarrow> maintains lawful (cancel_task rt tid)"
  unfolding cancel_task_def cancel_running_task_def cancel_active_def cancellation_def Let_def
  by (intro law.combinators lawful_intros; assumption?)

lemma cancel_run_lawful:
  "lawful_services (rt_services rt) \<Longrightarrow> maintains lawful (cancel_run rt run_id)"
  unfolding cancel_run_def cancel_member_def cancellation_def Let_def
  by (intro law.combinators lawful_intros; assumption?)

section \<open>Reconciliation is lawful\<close>

lemma assess_read: "snd (assess_task tid s) = s" "snd (assess run_id s) = s"
proof -
  show t: "snd (assess_task tid s) = s" for tid s
    unfolding assess_task_def Let_def
    by (intro bindA_read reads_pure) (auto split: option.splits intro!: bindA_read)
  have "snd (mapA (\<lambda>t. assess_task (tr_task_run_id t)) ts s) = s" for ts s
    by (induction ts arbitrary: s) (auto intro!: bindA_read t)
  then show "snd (assess run_id s) = s"
    unfolding assess_def by (intro bindA_read reads_pure) (auto split: prod.splits)
qed

lemma assess_lawful [lawful_intros]: "maintains lawful (in_store (assess run_id))"
  by (intro in_store_lawful read_evolves assess_read)

lemma observe_lawful [lawful_intros]: "lawful_services (rt_services rt) \<Longrightarrow> maintains lawful (observe rt ref)"
  unfolding observe_def by (intro law.combinators lawful_intros)

lemma resolve_lawful [lawful_intros]:
  assumes "lawful_services sv"
  shows "maintains lawful (resolve_attempt_and_task sv t attempt attempt_status task_status failure)"
    "maintains lawful (reconciled_failure sv t attempt ref cancelled)"
    "maintains lawful (repair_task sv t attempt)"
  using assms unfolding resolve_attempt_and_task_def reconciled_failure_def repair_task_def
  by (intro law.combinators lawful_intros; assumption?)+

lemma apply_provider_truth_lawful [lawful_intros]:
  "lawful_services sv \<Longrightarrow> maintains lawful (apply_provider_truth sv t attempt ref status)"
  by (cases status; simp add: apply_provider_truth_def; intro law.combinators lawful_intros)

lemma reconcile_task_lawful [lawful_intros]:
  "lawful_services (rt_services rt) \<Longrightarrow> maintains lawful (reconcile_task rt tid)"
  unfolding reconcile_task_def reconcile_by_provider_def by (intro law.combinators lawful_intros)

lemma reconcile_lawful:
  "lawful_services (rt_services rt) \<Longrightarrow> maintains lawful (reconcile rt run_id)"
  unfolding reconcile_def reconcile_workflow_def by (intro law.combinators lawful_intros)

section \<open>Commands\<close>

text \<open>The commands a client can give to a runtime.\<close>

datatype command =
    Run "workflow_definition + execution_plan" "correlation_context option"
  | Resume "string + workflow_run_id" "workflow_definition + execution_plan" "correlation_context option" "string list"
  | Cancel workflow_run_id
  | CancelTask task_run_id
  | Reconcile workflow_run_id

primrec command_effect :: "runtime \<Rightarrow> command \<Rightarrow> world \<Rightarrow> world" where
  "command_effect rt (Run workflow c) w = snd (run_workflow rt workflow c w)"
| "command_effect rt (Resume original workflow c force) w = snd (resume_run rt original workflow c force w)"
| "command_effect rt (Cancel i) w = snd (cancel_run rt i w)"
| "command_effect rt (CancelTask t) w = snd (cancel_task rt t w)"
| "command_effect rt (Reconcile i) w = snd (reconcile rt i w)"

lemma command_lawful: "lawful_services (rt_services rt) \<Longrightarrow> lawful w (command_effect rt c w)"
  using run_workflow_lawful resume_run_lawful cancel_run_lawful cancel_task_lawful reconcile_lawful
  by (cases c) (simp_all add: maintains_def)

inductive reachable :: "runtime \<Rightarrow> world \<Rightarrow> world \<Rightarrow> bool" for rt w where
  reachable_start: "reachable rt w w"
| reachable_step: "reachable rt w v \<Longrightarrow> reachable rt w (command_effect rt c v)"

lemma reachable_lawful: "reachable rt w v \<Longrightarrow> lawful_services (rt_services rt) \<Longrightarrow> lawful w v"
  by (induction rule: reachable.induct) (auto intro: law.refl law.trans command_lawful)


text \<open>C1: Whatever commands clients give to a runtime (running, resuming, cancelling and reconciling
  workflow runs and cancelling tasks, successfully or not, with other threads at work during every service call),
  the metadata stays consistent, the journal is only appended to and only by steps that the state
  machines allow, and no run, task run or attempt that has reached a terminal status ever changes
  again.\<close>
theorem runtime_keeps_history:
  assumes "lawful_services (rt_services rt)" "store_ok (w_store w)" "reachable rt w v"
  shows "store_ok (w_store v) \<and>
    (\<exists>rs. st_transitions (w_store v) = st_transitions (w_store w) @ rs \<and>
       (\<forall>r \<in> set rs. legal_step (tx_entity_type r) (tx_from_status r) (tx_to_status r))) \<and>
    (\<forall>i e. dict_get (st_workflow_runs (w_store w)) i = Some e \<and> wr_status e \<in> WORKFLOW_TERMINAL_STATUSES \<longrightarrow>
       dict_get (st_workflow_runs (w_store v)) i = Some e) \<and>
    (\<forall>i e. dict_get (st_task_runs (w_store w)) i = Some e \<and> tr_status e \<in> TASK_RUN_TERMINAL_STATUSES \<longrightarrow>
       dict_get (st_task_runs (w_store v)) i = Some e) \<and>
    (\<forall>i e. dict_get (st_task_attempts (w_store w)) i = Some e \<and> ta_status e \<in> TASK_ATTEMPT_TERMINAL_STATUSES \<longrightarrow>
       dict_get (st_task_attempts (w_store v)) i = Some e)"
proof -
  have "evolves (w_store w) (w_store v)"
    using reachable_lawful [OF assms(3,1)] by (simp add: lawful_def)
  from evolvesD [OF this assms(2)] show ?thesis by (simp add: kept_def) blast
qed

end
