(* ===== verification/Samples.thy ===== *)
theory Samples
  imports Execution
begin

text \<open>
  Concrete services, a concrete runtime and a concrete world on which the properties of the
  runtime are instantiated: a clock that advances with every call, numbered identifiers, and an
  executor that answers every request with an output.
\<close>

definition fresh_name :: "string \<Rightarrow> (world, string) act" where
  "fresh_name prefix w = (Inr (prefix @ digits_of (w_calls w)), w\<lparr>w_calls := w_calls w + 1\<rparr>)"

definition sample_services :: services where
  "sample_services =
     \<lparr>sv_now = (\<lambda>w. (Inr (Datetime (int (w_calls w)) True), w\<lparr>w_calls := w_calls w + 1\<rparr>)),
      sv_utc = ret 0, sv_workflow_run_id = fresh_name ''run-'', sv_task_run_id = fresh_name ''task-'',
      sv_attempt_id = fresh_name ''attempt-'', sv_correlation_id = fresh_name ''correlation-'',
      sv_codec = sample_codec, sv_jitter = (\<lambda>d. d), sv_format = (\<lambda>d. ''0''), sv_inject = (\<lambda>c. None),
      sv_execute = (\<lambda>ex rq. ret (Some (output_result (PyStr ''done'')))),
      sv_cancel = (\<lambda>ex rq. ret \<lparr>ck_status = CS_CONFIRMED, ck_attempt_id = cr_attempt_id rq,
         ck_reason = ''stopped'', ck_diagnostics = [], ck_external_runs = []\<rparr>),
      sv_wait = (\<lambda>d. ret ()), sv_verify = (\<lambda>v ref. ret (Some X_SUCCEEDED))\<rparr>"

lemma sample_services_lawful [simp]: "lawful_services sample_services"
  by (simp add: lawful_services_def sample_services_def maintains_def lawful_def fresh_name_def evolves_refl)

definition sample_executor :: executor where
  "sample_executor = \<lparr>ex_object = 0, ex_descriptor = INLINE_DESCRIPTOR, ex_cancellable = False\<rparr>"

definition sample_runtime :: runtime where
  "sample_runtime = \<lparr>rt_executors = [(''inline'', sample_executor)], rt_services = sample_services, rt_verifiers = [(''spark'', 0)]\<rparr>"

lemma sample_runtime_services [simp]: "rt_services sample_runtime = sample_services"
  by (simp add: sample_runtime_def)

definition empty_world :: world where
  "empty_world = \<lparr>w_store = empty_store, w_active = [], w_calls = 0\<rparr>"

text \<open>A run with one task that has just been set to run, and then with its first attempt running.\<close>

definition sample_prepare :: "(world, task_run) act" where
  "sample_prepare =
     thenA (in_store (create_workflow_run sample_run))
    (thenA (in_store (create_task_run sample_task_run))
    (thenA (transition_workflow sample_services sample_run W_RUNNING None)
    (bindA (transition_task sample_services sample_task_run T_READY None None) (\<lambda>ready.
     transition_task sample_services ready T_RUNNING None None))))"

definition waiting_world :: world where
  "waiting_world = snd (sample_prepare empty_world)"

definition busy_world :: world where
  "busy_world = snd (bindA sample_prepare (start_attempt sample_services) empty_world)"

lemma sample_ids: "\<not> blank (wid_str (wr_run_id sample_run))" "\<not> blank (tid_str (tr_task_run_id sample_task_run))"
  by (simp_all add: sample_run_def sample_task_run_def blank_def py_isspace_def)

lemma sample_prepare_lawful [lawful_intros]: "maintains lawful sample_prepare"
  unfolding sample_prepare_def
  by (intro law.combinators lawful_intros in_store_lawful create_workflow_run_evolves create_task_run_evolves
      sample_ids sample_services_lawful)

lemma sample_worlds_ok [simp]: "store_ok (w_store waiting_world)" "store_ok (w_store busy_world)"
proof -
  have "lawful empty_world waiting_world"
    using sample_prepare_lawful by (simp add: maintains_def waiting_world_def)
  moreover have "maintains lawful (bindA sample_prepare (start_attempt sample_services))"
    by (intro law.combinators lawful_intros sample_services_lawful)
  then have "lawful empty_world busy_world" by (simp add: maintains_def busy_world_def)
  ultimately show "store_ok (w_store waiting_world)" "store_ok (w_store busy_world)"
    using lawful_ok by (simp_all add: empty_world_def empty_store_ok)
qed

definition busy_run :: workflow_run where
  "busy_run = sample_run\<lparr>wr_status := W_RUNNING, wr_started_at := Some (Datetime 0 True)\<rparr>"

definition busy_task :: task_run where
  "busy_task = sample_task_run\<lparr>tr_status := T_RUNNING, tr_started_at := Some (Datetime 2 True)\<rparr>"

definition busy_attempt :: task_attempt where
  "busy_attempt = (fresh_attempt (TaskAttemptId ''attempt-3'') (TaskRunId ''task'') 1 (Datetime 4 True))
     \<lparr>ta_status := A_RUNNING, ta_started_at := Some (Datetime 5 True)\<rparr>"

lemma busy_entities:
  "st_workflow_runs (w_store busy_world) = [(WorkflowRunId ''run'', busy_run)]"
  "st_task_runs (w_store busy_world) = [(TaskRunId ''task'', busy_task)]"
  "st_task_attempts (w_store busy_world) = [(TaskAttemptId ''attempt-3'', busy_attempt)]"
  by code_simp+

definition retrying_entry :: task_plan_entry where
  "retrying_entry = (sample_entry ''load'' [])
     \<lparr>te_task := (sample_task ''load'' [])\<lparr>td_retry_policy := sample_policy\<rparr>\<rparr>"


theorem runtime_keeps_history_witness:
  "store_ok (w_store (command_effect sample_runtime (Cancel (WorkflowRunId ''run'')) busy_world)) \<and>
   (\<exists>rs. st_transitions (w_store (command_effect sample_runtime (Cancel (WorkflowRunId ''run'')) busy_world)) =
      st_transitions (w_store busy_world) @ rs)"
  using runtime_keeps_history [OF _ sample_worlds_ok(2) reachable_step [OF reachable_start], of sample_runtime
      "Cancel (WorkflowRunId ''run'')"] by auto

end
