(* ===== verification/Attempts.thy ===== *)
theory Attempts
  imports Samples
begin

text \<open>
  The retry loop.  Every round that asks for another one has appended an attempt whose number is
  below the limit of the retry policy, and attempts are numbered consecutively and never removed,
  so the loop ends after at most as many rounds as the policy allows attempts.  A failure whose
  outcome is uncertain is never retried.
\<close>

section \<open>The attempts of a task run only grow\<close>

definition attempt_count :: "task_run_id \<Rightarrow> world \<Rightarrow> nat" where
  "attempt_count tid w = length (attempts_of tid (w_store w))"

lemma attempts_of_count:
  assumes "dict_ok (st_task_attempts s)"
  shows "length (attempts_of tid s) =
    card {i. \<exists>a. dict_get (st_task_attempts s) i = Some a \<and> ta_task_run_id a = tid}"
proof -
  let ?d = "filter (\<lambda>p. ta_task_run_id (snd p) = tid) (st_task_attempts s)"
  have "length (attempts_of tid s) = length (map fst ?d)"
    by (simp add: attempts_of_def dict_values_def filter_map o_def)
  also have "\<dots> = card (set (map fst ?d))"
    using dict_ok_filter [OF assms] by (simp only: dict_ok_def distinct_card)
  also have "set (map fst ?d) = {i. \<exists>a. dict_get (st_task_attempts s) i = Some a \<and> ta_task_run_id a = tid}"
    using dict_get_iff [OF assms] by force
  finally show ?thesis .
qed

lemma attempts_grow:
  assumes "lawful w v" "store_ok (w_store w)"
  shows "attempt_count tid w \<le> attempt_count tid v"
proof -
  let ?I = "\<lambda>s. {i. \<exists>a. dict_get (st_task_attempts s) i = Some a \<and> ta_task_run_id a = tid}"
  note e = evolvesD [OF assms(1) [unfolded lawful_def] assms(2)]
  have "?I (w_store w) \<subseteq> ?I (w_store v)"
    using e(5) by (fastforce simp: kept_def same_attempt_def require_attempt_identity_def)
  moreover have "finite (?I (w_store v))"
    by (rule finite_subset [OF _ finite_dom_map_of [of "st_task_attempts (w_store v)"]]) auto
  ultimately have "card (?I (w_store w)) \<le> card (?I (w_store v))" by (rule card_mono [rotated])
  then show ?thesis
    using attempts_of_count store_okD(4) [OF assms(2)] store_okD(4) [OF e(1)] by (simp add: attempt_count_def)
qed


lemma stored_attempt_kept:
  assumes "lawful w v" "store_ok (w_store w)" "dict_get (st_task_attempts (w_store w)) i = Some a"
  obtains b where "dict_get (st_task_attempts (w_store v)) i = Some b"
    "ta_attempt_number b = ta_attempt_number a" "ta_task_run_id b = ta_task_run_id a"
    "attempt_final a \<longrightarrow> b = a"
  using evolvesD(5) [OF assms(1) [unfolded lawful_def] assms(2)] assms(3)
  by (simp add: kept_def same_attempt_def require_attempt_identity_def) metis

section \<open>A round of the loop\<close>

text \<open>An attempt that was started is in the store, numbered after all the attempts before it.\<close>

definition attempt_started :: "task_run_id \<Rightarrow> int \<Rightarrow> task_attempt_id \<Rightarrow> world \<Rightarrow> bool" where
  "attempt_started tid n aid w \<longleftrightarrow>
     (\<exists>a. dict_get (st_task_attempts (w_store w)) aid = Some a \<and> ta_task_run_id a = tid \<and>
        ta_attempt_number a = n) \<and> n \<le> int (attempt_count tid w)"

lemma attempt_started_kept:
  assumes "attempt_started tid n aid w" "lawful w v" "store_ok (w_store w)"
  shows "attempt_started tid n aid v"
proof -
  from assms(1) obtain a where "dict_get (st_task_attempts (w_store w)) aid = Some a"
    "ta_task_run_id a = tid" "ta_attempt_number a = n" by (auto simp: attempt_started_def)
  with assms(2,3) obtain b where "dict_get (st_task_attempts (w_store v)) aid = Some b"
    "ta_task_run_id b = tid" "ta_attempt_number b = n" by (metis stored_attempt_kept)
  moreover have "n \<le> int (attempt_count tid v)"
    using assms(1) attempts_grow [OF assms(2,3), of tid] by (simp add: attempt_started_def)
  ultimately show ?thesis by (auto simp: attempt_started_def)
qed

lemma next_task_attempt_fields:
  "next_task_attempt t attempts aid ts = Inr a \<Longrightarrow> ta_attempt_id a = aid \<and> ta_task_run_id a = tr_task_run_id t"
  by (auto simp: next_task_attempt_def bindR_Inr_iff thenR_Inr_iff fresh_attempt_def Let_def)

lemma transition_attempt_fields:
  "transition_attempt sv a target f w = (Inr b, v) \<Longrightarrow>
   ta_attempt_id b = ta_attempt_id a \<and> ta_attempt_number b = ta_attempt_number a \<and>
   ta_task_run_id b = ta_task_run_id a"
  by (auto simp: transition_attempt_def attempt_transition_Inr elim!: bindA_okE thenA_okE)

lemma start_attempt_started:
  assumes sv: "lawful_services sv" and ok: "store_ok (w_store w)"
    and run: "start_attempt sv current w = (Inr a, v)"
  shows "attempt_started (tr_task_run_id current) (ta_attempt_number a) (ta_attempt_id a) v"
    and "int (attempt_count (tr_task_run_id current) w) < ta_attempt_number a"
proof -
  let ?tid = "tr_task_run_id current"
  from run obtain attempts w1 aid w2 ts w3 a0 w4 w5 b w6 where
      "in_store (list_task_attempts ?tid) w = (Inr attempts, w1)"
    and aid: "new_task_attempt_id sv w1 = (Inr aid, w2)"
    and ts: "now sv w2 = (Inr ts, w3)"
    and a0: "next_task_attempt current attempts aid ts = Inr a0" "w4 = w3"
    and app: "in_store (append_task_attempt a0) w4 = (Inr (), w5)"
    and s: "transition_attempt sv a0 A_STARTING None w5 = (Inr b, w6)"
    and r: "transition_attempt sv b A_RUNNING None w6 = (Inr a, v)"
    unfolding start_attempt_def by (auto elim!: bindA_okE thenA_okE)
  then have w1: "w1 = w" using list_task_attempts_ok [OF ok] by (simp add: in_store_Inr_iff)
  have l12: "lawful w w2" using new_ids_lawful(3) [OF sv, THEN maintainsD, OF aid] w1 by simp
  have l23: "lawful w2 w3" using now_lawful [OF sv, THEN maintainsD, OF ts] .
  have ok4: "store_ok (w_store w4)" using lawful_ok [OF l23 lawful_ok [OF l12 ok]] a0(2) by simp
  have l4: "lawful w w4" using law.trans [OF l12 l23] a0(2) by simp
  have fields: "ta_attempt_id a0 = aid" "ta_task_run_id a0 = ?tid"
    using next_task_attempt_fields [OF a0(1)] by simp_all
  have nb: "\<not> blank (aid_str (ta_attempt_id a0))"
    using new_ids_return(3) [of sv aid] aid fields by (auto simp: returns_def)
  from app obtain s5 where s5: "append_task_attempt a0 (w_store w4) = (Inr (), s5)" "w5 = w4\<lparr>w_store := s5\<rparr>"
    by (auto simp: in_store_Inr_iff)
  have ok5: "store_ok s5" by (rule append_task_attempt_ok [OF ok4 nb s5(1)])
  from append_task_attempt_cases [OF ok4 nb s5(1)]
  have n: "ta_attempt_number a0 = int (attempt_count ?tid w4) + 1"
    and fresh: "\<not> dict_has (st_task_attempts (w_store w4)) (ta_attempt_id a0)"
    and s5': "st_task_attempts s5 = dict_set (ta_attempt_id a0) a0 (st_task_attempts (w_store w4))"
    by (auto simp: attempt_count_def fields put_attempt_def)
  have "attempts_of ?tid s5 = attempts_of ?tid (w_store w4) @ [a0]"
    using fresh fields by (simp add: attempts_of_def s5' dict_set_fresh dict_values_def)
  then have "attempt_started ?tid (ta_attempt_number a0) (ta_attempt_id a0) w5"
    using s5(2) fields n by (simp add: attempt_started_def attempt_count_def s5' dict_get_set)
  then have "attempt_started ?tid (ta_attempt_number a0) (ta_attempt_id a0) v"
    using transition_attempt_lawful [OF sv, THEN maintainsD, OF s]
      transition_attempt_lawful [OF sv, THEN maintainsD, OF r] ok5 s5(2)
    by (auto intro: attempt_started_kept law.trans)
  then show "attempt_started ?tid (ta_attempt_number a) (ta_attempt_id a) v"
    using transition_attempt_fields [OF s] transition_attempt_fields [OF r] by simp
  show "int (attempt_count ?tid w) < ta_attempt_number a"
    using attempts_grow [OF l4 ok, of ?tid] n transition_attempt_fields [OF s] transition_attempt_fields [OF r]
    by simp
qed


lemma perform_attempt_started:
  assumes sv: "lawful_services (rt_services rt)" and ok: "store_ok (w_store w)"
    and run: "perform_attempt rt run_id c outputs entry current w = (Inr (aid, r), v)"
  obtains n where "attempt_started (tr_task_run_id current) n aid v"
    "int (attempt_count (tr_task_run_id current) w) < n"
proof -
  from run obtain a w1 w2 where a: "start_attempt (rt_services rt) current w = (Inr a, w1)"
    and rest: "bindA (attempt_request (rt_services rt) run_id c outputs entry current a) (\<lambda>request.
        thenA (remember_active request)
       (bindA (finallyA (execute_request rt request) (forget_active (ta_attempt_id a))) (\<lambda>r.
        ret (ta_attempt_id a, r)))) w1 = (Inr (aid, r), v)"
    unfolding perform_attempt_def by (auto elim!: bindA_okE)
  have "maintains lawful (bindA (attempt_request (rt_services rt) run_id c outputs entry current a) (\<lambda>request.
        thenA (remember_active request)
       (bindA (finallyA (execute_request rt request) (forget_active (ta_attempt_id a))) (\<lambda>r.
        ret (ta_attempt_id a, r)))))"
    using sv by (intro law.combinators lawful_intros)
  then have l: "lawful w1 v" using rest by (rule maintainsD)
  have ok1: "store_ok (w_store w1)"
    using lawful_ok [OF start_attempt_lawful [OF sv, THEN maintainsD, OF a] ok] .
  have "aid = ta_attempt_id a" using rest by (auto elim!: bindA_okE thenA_okE)
  then show thesis
    using that attempt_started_kept [OF start_attempt_started(1) [OF sv ok a] l ok1]
      start_attempt_started(2) [OF sv ok a] by blast
qed

section \<open>When another round is asked for\<close>

lemma evaluate_retry:
  assumes "evaluate jitter p f n elapsed = Inr e" "re_decision e = D_RETRY"
  shows "\<not> is_uncertain f \<and> n < rp_max_attempts p \<and> fe_retryability f = R_RETRYABLE"
  using assms evaluate_decision [OF assms(1)] by (auto split: if_splits)

lemma settle_failure_again:
  assumes "settle_failure sv st entry current attempt f w = (Inr (TryAgain st' current'), v)"
  shows "\<not> is_uncertain f \<and> ta_attempt_number attempt < rp_max_attempts (td_retry_policy (te_task entry)) \<and>
    fe_retryability f = R_RETRYABLE \<and> current' = current"
proof -
  from assms obtain elapsed w1 e w2 st2 w3 where
      e: "evaluate (sv_jitter sv) (td_retry_policy (te_task entry)) f (ta_attempt_number attempt) elapsed = Inr e"
    and rest: "(if re_decision e \<in> {D_RECONCILE, D_ESCALATE} then settle_uncertain sv st2 current attempt f e
        else settle_known_failure sv st2 entry current attempt f e) w3 = (Inr (TryAgain st' current'), v)"
    unfolding settle_failure_def by (auto elim!: bindA_okE)
  have "re_decision e = D_RETRY \<and> current' = current"
    using rest by (auto simp: settle_uncertain_def settle_known_failure_def elim!: bindA_okE thenA_okE split: if_splits)
  then show ?thesis using evaluate_retry [OF e] by blast
qed

lemma settle_known_failure_again:
  assumes "lawful_services sv" "store_ok (w_store w)"
    and "settle_known_failure sv st entry current attempt f e w = (Inr (TryAgain st' current'), v)"
  shows "\<exists>a. dict_get (st_task_attempts (w_store v)) (ta_attempt_id attempt) = Some a \<and>
    ta_status a \<in> {A_FAILED, A_TIMED_OUT, A_CANCELLED} \<and> ta_failure a = Some f"
proof -
  let ?target = "if fe_category f = F_TIMEOUT then A_TIMED_OUT
    else if fe_category f = F_CANCELLED then A_CANCELLED else A_FAILED"
  from assms(3) obtain a w1 w2 w3 st2 where
      t: "transition_attempt sv attempt ?target (Some f) w = (Inr a, w1)"
    and diag: "note_diagnostic (runtime_diagnostic ''PWK-RETRY-SCHEDULED'' ''new TaskAttempt scheduled by RetryPolicy''
        (xs_run st) current (Some (ta_attempt_id a)) S_INFO
        [(''attempt_number'', py_str_int (ta_attempt_number a)),
         (''next_attempt_number'', py_str_int (ta_attempt_number a + 1)),
         (''delay_seconds'', sv_format sv (re_delay_seconds e)), (''reason'', re_reason e)]) st w1 = (Inr st2, w2)"
    and wait: "(if num_val (re_delay_seconds e) \<noteq> 0 then sv_wait sv (re_delay_seconds e) else ret ()) w2 = (Inr (), v)"
    unfolding settle_known_failure_def by (auto elim!: bindA_okE thenA_okE split: if_splits)
  note a = transition_attempt_stored [OF assms(1,2) t]
  have ok1: "store_ok (w_store w1)" by (rule lawful_ok [OF transition_attempt_lawful [OF assms(1), THEN maintainsD, OF t] assms(2)])
  have "lawful w1 w2" using note_diagnostic_lawful [THEN maintainsD, OF diag] .
  moreover have "lawful w2 v"
    using waiter_lawful [OF assms(1), of "re_delay_seconds e"] wait
    by (auto simp: maintains_def law.refl split: if_splits dest: maintainsD) (metis snd_conv)
  ultimately have l: "lawful w1 v" by (rule law.trans)
  from stored_attempt_kept [OF l ok1 conjunct1 [OF a]]
  obtain b where "dict_get (st_task_attempts (w_store v)) (ta_attempt_id attempt) = Some b" "attempt_final a \<longrightarrow> b = a"
    by metis
  then show ?thesis using a by (auto simp: terminal_defs split: if_splits)
qed

lemma settle_attempt_again:
  assumes sv: "lawful_services sv" and ok: "store_ok (w_store w)"
    and run: "settle_attempt sv st entry tid aid r w = (Inr (TryAgain st' current'), v)"
    and started: "attempt_started tid n aid w"
  shows "n < rp_max_attempts (td_retry_policy (te_task entry)) \<and> tr_task_run_id current' = tid"
proof -
  from run obtain attempt w1 current w2 run' w3 w4 where
      a: "in_store (get_task_attempt aid) w = (Inr attempt, w1)"
    and c: "in_store (get_task_run tid) w1 = (Inr current, w2)"
    and rest: "(if ta_status attempt = A_CANCELLED then settle_cancelled sv (st\<lparr>xs_run := run', xs_diagnostics := xs_diagnostics st @ xr_diagnostics r\<rparr>) current
       else case xr_failure r of
         None \<Rightarrow> settle_success sv (st\<lparr>xs_run := run', xs_diagnostics := xs_diagnostics st @ xr_diagnostics r\<rparr>) entry current attempt (xr_output r)
       | Some failure \<Rightarrow> settle_failure sv (st\<lparr>xs_run := run', xs_diagnostics := xs_diagnostics st @ xr_diagnostics r\<rparr>) entry current attempt failure) w4
       = (Inr (TryAgain st' current'), v)"
    unfolding settle_attempt_def Let_def by (auto elim!: bindA_okE thenA_okE)
  from a have w1: "w1 = w" and a': "dict_get (st_task_attempts (w_store w)) aid = Some attempt"
    by (auto simp: in_store_Inr_iff get_task_attempt_Inr)
  from c have c': "dict_get (st_task_runs (w_store w)) tid = Some current"
    by (auto simp: in_store_Inr_iff get_task_run_Inr w1)
  have n: "ta_attempt_number attempt = n" using started a' by (simp add: attempt_started_def)
  have tid: "tr_task_run_id current = tid" using store_okD(6) [OF ok c'] by blast
  obtain f st1 where "settle_failure sv st1 entry current attempt f w4 = (Inr (TryAgain st' current'), v)"
    using rest
    by (auto simp: settle_cancelled_def settle_success_def Let_def elim!: bindA_okE thenA_okE
        split: if_splits option.splits)
  from settle_failure_again [OF this] n tid show ?thesis by simp
qed

lemma attempt_loop_exit:
  assumes "lawful_services (rt_services rt)" "store_ok (w_store w)"
    and "rp_max_attempts (td_retry_policy (te_task entry)) \<le> int (n + attempt_count (tr_task_run_id current) w)"
    and "0 < n"
  shows "attempt_loop x n rt c entry current st w = attempt_loop y n rt c entry current st w"
  using assms(2-)
proof (induction n arbitrary: current st w)
  case (Suc n)
  let ?tid = "tr_task_run_id current"
  let ?k = "\<lambda>x. \<lambda>(attempt_id, r). bindA (settle_attempt (rt_services rt) st entry ?tid attempt_id r) (\<lambda>outcome.
      case outcome of TryAgain st' current' \<Rightarrow> attempt_loop x n rt c entry current' st' | _ \<Rightarrow> ret outcome)"
  have "?k x p w1 = ?k y p w1"
    if p: "perform_attempt rt (wr_run_id (xs_run st)) c (xs_outputs st) entry current w = (Inr p, w1)" for p w1
  proof -
    obtain aid r where pr: "p = (aid, r)" by fastforce
    obtain k where k: "attempt_started ?tid k aid w1" "int (attempt_count ?tid w) < k"
      using perform_attempt_started [OF assms(1) Suc.prems(1)] p pr by metis
    have ok1: "store_ok (w_store w1)"
      by (rule lawful_ok [OF perform_attempt_lawful [OF assms(1), THEN maintainsD, OF p] Suc.prems(1)])
    have "attempt_loop x n rt c entry current' st' w2 = attempt_loop y n rt c entry current' st' w2"
      if s: "settle_attempt (rt_services rt) st entry ?tid aid r w1 = (Inr (TryAgain st' current'), w2)"
      for st' current' w2
    proof (rule Suc.IH)
      have l: "lawful w1 w2" using settle_attempt_lawful [OF assms(1), THEN maintainsD, OF s] .
      show "store_ok (w_store w2)" by (rule lawful_ok [OF l ok1])
      have k2: "k < rp_max_attempts (td_retry_policy (te_task entry))" "tr_task_run_id current' = ?tid"
        using settle_attempt_again [OF assms(1) ok1 s k(1)] by simp_all
      have "k \<le> int (attempt_count ?tid w2)"
        using attempt_started_kept [OF k(1) l ok1] by (simp add: attempt_started_def)
      then show "rp_max_attempts (td_retry_policy (te_task entry)) \<le> int (n + attempt_count (tr_task_run_id current') w2)"
        using Suc.prems(2) k(2) k2 by simp
      show "0 < n" using Suc.prems(2) k(2) k2 by (cases n) simp_all
    qed
    then show ?thesis
      by (auto simp: pr bindA_def split: prod.splits sum.splits Runtime.round.splits)
  qed
  then show ?case by (simp add: bindA_def split: prod.splits sum.splits)
qed simp

text \<open>C2: The retry loop ends.  Run with as many rounds as the retry policy allows attempts, the loop
  of a task never reaches the point where its rounds are used up, whatever that point is made to do:
  however the executor answers and whatever other threads do lawfully meanwhile, the task is settled
  or an exception has left the loop by then.\<close>
theorem retry_loop_ends:
  assumes "lawful_services (rt_services rt)" "store_ok (w_store w)"
    and "valid_retry_policy (td_retry_policy (te_task entry))"
  shows "attempt_loop exhausted (attempt_fuel entry) rt c entry current st w =
    attempt_loop exhausted' (attempt_fuel entry) rt c entry current st w"
  using assms by (intro attempt_loop_exit) (auto simp: attempt_fuel_def valid_retry_policy_iff)

text \<open>C3: A further attempt is made only when that is safe: the outcome of the failed attempt is known,
  the failure is marked retryable, the attempt was below the limit of the policy, and the attempt is
  recorded as failed, timed out or cancelled, for good, before the loop goes round.\<close>
theorem retry_only_when_safe:
  assumes "lawful_services sv" "store_ok (w_store w)"
    and "settle_failure sv st entry current attempt f w = (Inr (TryAgain st' current'), v)"
  shows "\<not> is_uncertain f \<and> fe_retryability f = R_RETRYABLE \<and>
    ta_attempt_number attempt < rp_max_attempts (td_retry_policy (te_task entry)) \<and>
    (\<exists>a. dict_get (st_task_attempts (w_store v)) (ta_attempt_id attempt) = Some a \<and>
       ta_status a \<in> {A_FAILED, A_TIMED_OUT, A_CANCELLED} \<and> ta_failure a = Some f)"
proof -
  from assms(3) obtain elapsed w1 e st2 w2 w3 where
      w1: "task_elapsed_seconds sv current w = (Inr elapsed, w1)"
    and e: "note_diagnostic (retry_diagnostic sv e (xs_run st) current (ta_attempt_id attempt)) st w1 = (Inr st2, w2)"
    and rest: "(if re_decision e \<in> {D_RECONCILE, D_ESCALATE} then settle_uncertain sv st2 current attempt f e
        else settle_known_failure sv st2 entry current attempt f e) w2 = (Inr (TryAgain st' current'), v)"
    unfolding settle_failure_def by (auto elim!: bindA_okE)
  have "maintains lawful (task_elapsed_seconds sv current)"
    unfolding task_elapsed_seconds_def using assms(1) by (intro law.combinators lawful_intros)
  then have "lawful w w1" using w1 by (rule maintainsD)
  then have "store_ok (w_store w2)"
    using lawful_ok assms(2) note_diagnostic_lawful [THEN maintainsD, OF e] by blast
  moreover have "settle_known_failure sv st2 entry current attempt f e w2 = (Inr (TryAgain st' current'), v)"
    using rest by (auto simp: settle_uncertain_def elim!: bindA_okE thenA_okE split: if_splits)
  ultimately show ?thesis
    using settle_known_failure_again [OF assms(1)] settle_failure_again [OF assms(3)] by blast
qed


section \<open>Concrete instances\<close>

definition start_state :: exec_state where
  "start_state = \<lparr>xs_run = busy_run, xs_outputs = [], xs_diagnostics = []\<rparr>"

theorem retry_loop_ends_witness:
  "attempt_loop (raise Diverged) (attempt_fuel retrying_entry) sample_runtime sample_correlation retrying_entry
     busy_task start_state waiting_world =
   attempt_loop (ret (TaskDone start_state)) (attempt_fuel retrying_entry) sample_runtime sample_correlation
     retrying_entry busy_task start_state waiting_world"
proof -
  have "valid_retry_policy (td_retry_policy (te_task retrying_entry))"
    using sample_policy_valid by (simp add: retrying_entry_def)
  then show ?thesis by (intro retry_loop_ends) simp_all
qed

theorem retry_only_when_safe_witness:
  "\<exists>st current v. settle_failure sample_services start_state retrying_entry busy_task busy_attempt
     (sample_failure F_TRANSIENT R_RETRYABLE U_KNOWN) busy_world = (Inr (TryAgain st current), v) \<and>
   (\<exists>a. dict_get (st_task_attempts (w_store v)) (TaskAttemptId ''attempt-3'') = Some a \<and>
      ta_status a \<in> {A_FAILED, A_TIMED_OUT, A_CANCELLED})"
proof -
  let ?f = "sample_failure F_TRANSIENT R_RETRYABLE U_KNOWN"
  have "case fst (settle_failure sample_services start_state retrying_entry busy_task busy_attempt ?f busy_world) of
      Inr (TryAgain st current) \<Rightarrow> True | _ \<Rightarrow> False"
    by code_simp
  then obtain st current where "fst (settle_failure sample_services start_state retrying_entry busy_task busy_attempt
      ?f busy_world) = Inr (TryAgain st current)"
    by (auto split: sum.splits Runtime.round.splits)
  then obtain v where r: "settle_failure sample_services start_state retrying_entry busy_task busy_attempt
      ?f busy_world = (Inr (TryAgain st current), v)"
    by (metis prod.collapse)
  have "ta_attempt_id busy_attempt = TaskAttemptId ''attempt-3''" by code_simp
  with retry_only_when_safe [OF sample_services_lawful sample_worlds_ok(2) r] r show ?thesis by auto
qed

end
