(* ===== verification/Outcomes.thy ===== *)
theory Outcomes
  imports Attempts
begin

text \<open>
  How an attempt and a run come out.  An executor that raises gives a failed attempt, unless its
  message is blank; a run is recorded as succeeded only when all its tasks are finished and none
  failed; deadlines are exact to half a microsecond or refused.
\<close>

section \<open>Executor exceptions\<close>

lemma request_failure_cases:
  assumes "\<not> blank (wid_str (xc_workflow_run_id c))" "\<not> blank (tid_str (xc_task_run_id c))"
    "\<not> blank (aid_str (xc_attempt_id c))" "\<not> blank code" "\<not> blank component"
  shows "request_failure c (Datetime us True) code category retryability uncertainty component summary =
    (if blank summary then Inl (ValueError ''message_summary must be a non-empty string when provided'')
     else Inr ((failure_defaults (cc_correlation_id (xc_correlation c)) (Datetime us True))
       \<lparr>fe_error_code := code, fe_category := category, fe_retryability := retryability,
        fe_uncertainty := uncertainty, fe_workflow_run_id := Some (wid_str (xc_workflow_run_id c)),
        fe_task_run_id := Some (tid_str (xc_task_run_id c)),
        fe_task_attempt_id := Some (aid_str (xc_attempt_id c)),
        fe_source_component := Some component, fe_message_summary := Some summary\<rparr>))"
proof -
  have framework: "\<not> blank ''pyworkflowkit''" "\<not> blank ''1''" by code_simp+
  show ?thesis
    using assms framework
    by (auto simp: request_failure_def mk_failure_evidence_def failure_evidence_post_init_def failure_defaults_def
      required_text_def optional_text_def require_def)
qed

text \<open>An exception that an executor raises does not leave the runtime: the attempt fails with the
  class of the exception as its error code, as an internal failure that is not retried, under the
  identifiers of the attempt.  There is one gap: when the text of the exception is not empty but
  consists of white space, building the evidence raises \<open>ValueError\<close>, which does leave it.\<close>
theorem executor_exception_outcome:
  assumes "resolve (rt_executors rt) (rq_executor_key request) = Inr ex"
    and "sv_execute (rt_services rt) ex request w = (Inl e, w1)" "sv_utc (rt_services rt) w1 = (Inr us, v)"
    and "\<not> blank (exc_name e)"
    and "\<not> blank (wid_str (xc_workflow_run_id (rq_context request)))"
      "\<not> blank (tid_str (xc_task_run_id (rq_context request)))"
      "\<not> blank (aid_str (xc_attempt_id (rq_context request)))"
  shows "if exc_text e \<noteq> [] \<and> blank (exc_text e)
    then execute_request rt request w =
      (Inl (ValueError ''message_summary must be a non-empty string when provided''), v)
    else \<exists>f. execute_request rt request w = (Inr (failed_result f), v) \<and>
      fe_error_code f = exc_name e \<and> fe_category f = F_INTERNAL \<and> fe_retryability f = R_NON_RETRYABLE \<and>
      fe_task_attempt_id f = Some (aid_str (xc_attempt_id (rq_context request)))"
proof -
  have component: "\<not> blank ''workflow_runtime.executor''" by code_simp
  have "execute_request rt request w = (case request_failure (rq_context request) (Datetime us True) (exc_name e)
      F_INTERNAL R_NON_RETRYABLE U_KNOWN ''workflow_runtime.executor'' (exc_summary e) of
        Inl err \<Rightarrow> (Inl err, v) | Inr f \<Rightarrow> (Inr (failed_result f), v))"
    using assms(1-3)
    by (simp add: execute_request_def attemptA_def failure_result_def utc_now_def bindA_def split: sum.splits)
  then show ?thesis
    using assms(4) request_failure_cases [OF assms(5-7,4) component]
    by (auto simp: exc_summary_def)
qed

section \<open>Deadlines\<close>

lemma round_half_even_error: "\<bar>of_int (round_half_even r) - r\<bar> \<le> 1 / 2"
proof -
  have "of_int \<lfloor>r\<rfloor> \<le> r" "r < of_int \<lfloor>r\<rfloor> + 1" by linarith+
  then show ?thesis by (auto simp: round_half_even_def Let_def abs_le_iff)
qed

text \<open>\<open>t + timedelta(seconds=x)\<close> is exact to half a microsecond or overflows.\<close>

definition time_after :: "datetime \<Rightarrow> pynum \<Rightarrow> datetime \<Rightarrow> bool" where
  "time_after t x d \<longleftrightarrow> \<bar>of_int (dt_us d - dt_us t) - num_val x * 1000000\<bar> \<le> 1 / 2 \<and> dt_us d \<le> MAX_DATETIME_US \<and>
     dt_aware d = dt_aware t"

definition beyond_calendar :: "datetime \<Rightarrow> pynum \<Rightarrow> bool" where
  "beyond_calendar t x \<longleftrightarrow> of_int MAX_TIMEDELTA_US < num_val x * 1000000 + 1 \<or>
     of_int MAX_DATETIME_US < of_int (dt_us t) + num_val x * 1000000 + 1"

lemma add_seconds_bounds:
  "case add_seconds t x of
     Inr d \<Rightarrow> time_after t x d
   | Inl e \<Rightarrow> (\<exists>m. e = OverflowError m) \<and> beyond_calendar t x"
proof -
  let ?us = "round_half_even (num_val x * of_int us_per_second)"
  have us: "\<bar>of_int ?us - num_val x * 1000000\<bar> \<le> 1 / 2"
    using round_half_even_error [of "num_val x * of_int us_per_second"] by (simp add: us_per_second_def)
  then have above: "of_int ?us \<le> num_val x * 1000000 + 1 / 2" by linarith
  consider "\<not> ?us \<le> MAX_TIMEDELTA_US" | "?us \<le> MAX_TIMEDELTA_US" "\<not> dt_us t + ?us \<le> MAX_DATETIME_US"
    | "?us \<le> MAX_TIMEDELTA_US" "dt_us t + ?us \<le> MAX_DATETIME_US" by blast
  then show ?thesis
  proof cases
    case 1
    then have "(of_int MAX_TIMEDELTA_US :: rat) < of_int ?us" by (simp only: of_int_less_iff)
    then have "of_int MAX_TIMEDELTA_US < num_val x * 1000000 + 1" using above by linarith
    with 1 show ?thesis by (simp add: add_seconds_def time_after_def beyond_calendar_def Let_def require_def)
  next
    case 2
    then have "(of_int MAX_DATETIME_US :: rat) < of_int (dt_us t + ?us)" by (simp only: of_int_less_iff)
    then have "of_int MAX_DATETIME_US < of_int (dt_us t) + num_val x * 1000000 + 1" using above by simp
    with 2 show ?thesis by (simp add: add_seconds_def time_after_def beyond_calendar_def Let_def require_def)
  next
    case 3
    with us show ?thesis by (simp add: add_seconds_def time_after_def beyond_calendar_def Let_def require_def)
  qed
qed

lemma attempt_request_deadline:
  assumes "attempt_request sv run_id correlation outputs entry current attempt w = (Inr rq, v)"
  shows "execution_deadline sv entry w = (Inr (rq_deadline_at rq), v)"
  using assms unfolding attempt_request_def
  by (auto simp: mk_execution_request_def thenR_Inr_iff elim!: bindA_okE)

text \<open>C40: The deadline of an attempt.  A task without an execution timeout has none, and the clock is not
  even read.  With a timeout, the deadline that the request to the executor carries is the time the
  clock answers plus the whole timeout, up to half a microsecond, aware and within the calendar;
  if that time lies beyond the calendar (up to a microsecond) an \<open>OverflowError\<close> is raised instead,
  and an exception of the clock is passed on.  Every request of an attempt carries just this
  deadline.  (Floats are exact rationals here.)\<close>

theorem execution_deadline_exact:
  "(case td_execution_timeout (te_task entry) of
      None \<Rightarrow> execution_deadline sv entry w = (Inr None, w)
    | Some timeout \<Rightarrow> (case now sv w of
        (Inl e, v) \<Rightarrow> execution_deadline sv entry w = (Inl e, v)
      | (Inr t, v) \<Rightarrow> dt_aware t \<and>
          ((\<exists>d. execution_deadline sv entry w = (Inr (Some d), v) \<and> time_after t timeout d) \<or>
           (\<exists>m. execution_deadline sv entry w = (Inl (OverflowError m), v) \<and> beyond_calendar t timeout)))) \<and>
   (\<forall>rq v. attempt_request sv run_id correlation outputs entry current attempt w = (Inr rq, v) \<longrightarrow>
      execution_deadline sv entry w = (Inr (rq_deadline_at rq), v))"
proof (intro conjI allI impI)
  show "case td_execution_timeout (te_task entry) of
      None \<Rightarrow> execution_deadline sv entry w = (Inr None, w)
    | Some timeout \<Rightarrow> (case now sv w of
        (Inl e, v) \<Rightarrow> execution_deadline sv entry w = (Inl e, v)
      | (Inr t, v) \<Rightarrow> dt_aware t \<and>
          ((\<exists>d. execution_deadline sv entry w = (Inr (Some d), v) \<and> time_after t timeout d) \<or>
           (\<exists>m. execution_deadline sv entry w = (Inl (OverflowError m), v) \<and> beyond_calendar t timeout)))"
  proof (cases "td_execution_timeout (te_task entry)")
    case (Some timeout)
    show ?thesis
    proof (cases "now sv w")
      case (Pair r v)
      show ?thesis
      proof (cases r)
        case (Inr t)
        then show ?thesis
          using Some Pair now_aware [of sv w t v] add_seconds_bounds [of t timeout]
          by (cases "add_seconds t timeout") (auto simp: execution_deadline_def bindA_def)
      qed (simp add: Some Pair execution_deadline_def bindA_def)
    qed
  qed (simp add: execution_deadline_def)
qed (rule attempt_request_deadline)

definition oversized_entry :: task_plan_entry where
  "oversized_entry = (sample_entry ''load'' [])
     \<lparr>te_task := (sample_task ''load'' [])\<lparr>td_execution_timeout := Some (PyInt 100000000000000)\<rparr>\<rparr>"

text \<open>A timeout that no deadline can express passes validation and planning, and is only noticed
  when the attempt has been recorded as running: \<open>OverflowError\<close> leaves the runtime and the attempt,
  its task and its run stay running in the store.\<close>
theorem oversized_timeout_strands_attempt:
  "timeout_policy_post_init (td_execution_timeout (te_task oversized_entry)) = Inr () \<and>
   (case perform_attempt sample_runtime (WorkflowRunId ''run'') sample_correlation [] oversized_entry busy_task
      waiting_world of (r, v) \<Rightarrow>
      r = Inl (OverflowError ''timedelta days must have magnitude <= 999999999'') \<and>
      map (ta_status \<circ> snd) (st_task_attempts (w_store v)) = [A_RUNNING] \<and>
      map (tr_status \<circ> snd) (st_task_runs (w_store v)) = [T_RUNNING] \<and>
      map (wr_status \<circ> snd) (st_workflow_runs (w_store v)) = [W_RUNNING])"
  by code_simp

section \<open>Success\<close>

text \<open>C4: A run is recorded as succeeded only if it has tasks, all of them are in a terminal status and
  none failed or timed out: when the closing step of a run returns, every task run that the run had
  is in the store as it was then, and the run itself is recorded as succeeded.\<close>
theorem success_requires_every_task:
  assumes "lawful_services sv" "store_ok (w_store w)" "finish_completed sv st w = (Inr (), v)"
  shows "{t. \<exists>i. dict_get (st_task_runs (w_store w)) i = Some t \<and>
       tr_workflow_run_id t = wr_run_id (xs_run st)} \<noteq> {} \<and>
    (\<forall>i t. dict_get (st_task_runs (w_store w)) i = Some t \<and> tr_workflow_run_id t = wr_run_id (xs_run st) \<longrightarrow>
       dict_get (st_task_runs (w_store v)) i = Some t \<and>
       tr_status t \<in> {T_SUCCEEDED, T_SKIPPED, T_CANCELLED, T_REUSED}) \<and>
    (\<exists>run. dict_get (st_workflow_runs (w_store v)) (wr_run_id (xs_run st)) = Some run \<and>
       wr_status run = W_SUCCEEDED)"
proof -
  let ?id = "wr_run_id (xs_run st)"
  let ?tasks = "filter (\<lambda>t. tr_workflow_run_id t = ?id) (dict_values (st_task_runs (w_store w)))"
  from assms(3) obtain w1 run' where a: "assert_terminal_task_runs ?id w = (Inr (), w1)"
    and t: "transition_workflow sv (xs_run st) W_SUCCEEDED None w1 = (Inr run', v)"
    unfolding finish_completed_def by (auto elim!: bindA_okE thenA_okE)
  have listed: "in_store (list_task_runs ?id) w =
      (Inr (sort_key (\<lambda>t. (tr_task_key t, tid_str (tr_task_run_id t))) ?tasks), w)"
    using list_task_runs_ok [OF assms(2)] by (simp add: in_store_Inr_iff)
  from a have "w1 = w" and ne: "?tasks \<noteq> []"
    and final: "\<And>t. t \<in> set ?tasks \<Longrightarrow> tr_status t \<in> TASK_RUN_TERMINAL_STATUSES - {T_FAILED, T_TIMED_OUT}"
    by (auto simp: assert_terminal_task_runs_def listed bindA_def thenA_def Let_def list_all_iff list_ex_iff
        split: if_splits)
  have tasks: "t \<in> set ?tasks \<longleftrightarrow> (\<exists>i. dict_get (st_task_runs (w_store w)) i = Some t) \<and> tr_workflow_run_id t = ?id" for t
    using dict_values_set [OF store_okD(3) [OF assms(2)]] by auto
  have "lawful w v" using transition_workflow_lawful [OF assms(1), THEN maintainsD, OF t] \<open>w1 = w\<close> by simp
  note kept = evolvesD(4) [OF this [unfolded lawful_def] assms(2)]
  have "dict_get (st_task_runs (w_store v)) i = Some t \<and> tr_status t \<in> {T_SUCCEEDED, T_SKIPPED, T_CANCELLED, T_REUSED}"
    if "dict_get (st_task_runs (w_store w)) i = Some t" "tr_workflow_run_id t = ?id" for i t
    using that kept final [of t] tasks [of t] by (auto simp: kept_def terminal_defs)
  moreover have "{t. \<exists>i. dict_get (st_task_runs (w_store w)) i = Some t \<and> tr_workflow_run_id t = ?id} \<noteq> {}"
    using ne tasks by (metis (mono_tags, lifting) empty_Collect_eq last_in_set)
  moreover have "dict_get (st_workflow_runs (w_store v)) ?id = Some run' \<and> wr_status run' = W_SUCCEEDED"
    using transition_workflow_stored [OF assms(1) _ t] assms(2) \<open>w1 = w\<close> by simp
  ultimately show ?thesis by blast
qed


section \<open>Concrete instances\<close>

definition failing_services :: "string \<Rightarrow> services" where
  "failing_services message = sample_services\<lparr>sv_execute := (\<lambda>ex rq. raise (Raised ''ConnectionError'' message))\<rparr>"

definition sample_request :: execution_request where
  "sample_request = \<lparr>rq_task_key = ''load'', rq_workload = LocalCallable (Some ''app'') (Some ''load''),
     rq_executor_key = ''inline'', rq_context =
       \<lparr>xc_workflow_run_id = WorkflowRunId ''run'', xc_task_run_id = TaskRunId ''task'',
        xc_attempt_id = TaskAttemptId ''attempt-3'', xc_attempt_number = 1, xc_correlation = sample_correlation,
        xc_dependency_outputs = [], xc_workload_parameters = []\<rparr>, rq_deadline_at = None\<rparr>"

theorem executor_exception_outcome_witness:
  "execute_request (sample_runtime\<lparr>rt_services := failing_services '' ''\<rparr>) sample_request busy_world =
    (Inl (ValueError ''message_summary must be a non-empty string when provided''), busy_world) \<and>
   (\<exists>f. execute_request (sample_runtime\<lparr>rt_services := failing_services ''refused''\<rparr>) sample_request busy_world =
      (Inr (failed_result f), busy_world) \<and> fe_error_code f = ''ConnectionError'')"
proof -
  have ids: "\<not> blank (wid_str (xc_workflow_run_id (rq_context sample_request)))"
      "\<not> blank (tid_str (xc_task_run_id (rq_context sample_request)))"
      "\<not> blank (aid_str (xc_attempt_id (rq_context sample_request)))" "\<not> blank ''ConnectionError''"
      "blank '' ''" "\<not> blank ''refused''"
      "resolve (rt_executors sample_runtime) (rq_executor_key sample_request) = Inr sample_executor"
    by code_simp+
  have sv: "sv_execute (failing_services message) ex rq w = (Inl (Raised ''ConnectionError'' message), w)"
    "sv_utc (failing_services message) w = (Inr 0, w)" for message ex rq w
    by (simp_all add: failing_services_def sample_services_def)
  have "if exc_text (Raised ''ConnectionError'' message) \<noteq> [] \<and> blank (exc_text (Raised ''ConnectionError'' message))
    then execute_request (sample_runtime\<lparr>rt_services := failing_services message\<rparr>) sample_request busy_world =
      (Inl (ValueError ''message_summary must be a non-empty string when provided''), busy_world)
    else \<exists>f. execute_request (sample_runtime\<lparr>rt_services := failing_services message\<rparr>) sample_request busy_world =
      (Inr (failed_result f), busy_world) \<and> fe_error_code f = exc_name (Raised ''ConnectionError'' message) \<and>
      fe_category f = F_INTERNAL \<and> fe_retryability f = R_NON_RETRYABLE \<and>
      fe_task_attempt_id f = Some (aid_str (xc_attempt_id (rq_context sample_request)))" for message
    by (rule executor_exception_outcome) (simp_all add: sv ids)
  from this [of "'' ''"] this [of "''refused''"] ids show ?thesis by auto
qed

definition minute_entry :: task_plan_entry where
  "minute_entry = (sample_entry ''load'' [])
     \<lparr>te_task := (sample_task ''load'' [])\<lparr>td_execution_timeout := Some (PyFloat 60)\<rparr>\<rparr>"

theorem execution_deadline_exact_witness:
  "\<exists>rq v d. attempt_request sample_services (WorkflowRunId ''run'') sample_correlation [] minute_entry busy_task busy_attempt
      busy_world = (Inr rq, v) \<and> rq_deadline_at rq = Some d \<and> time_after (Datetime (int (w_calls busy_world)) True) (PyFloat 60) d"
proof -
  have run: "\<exists>rq. fst (attempt_request sample_services (WorkflowRunId ''run'') sample_correlation [] minute_entry busy_task busy_attempt
      busy_world) = Inr rq"
  proof -
    have "case fst (attempt_request sample_services (WorkflowRunId ''run'') sample_correlation [] minute_entry busy_task busy_attempt
      busy_world) of Inl e \<Rightarrow> False | Inr rq \<Rightarrow> True" by code_simp
    then show ?thesis by (auto split: sum.splits)
  qed
  then obtain rq v where rq: "attempt_request sample_services (WorkflowRunId ''run'') sample_correlation [] minute_entry busy_task
      busy_attempt busy_world = (Inr rq, v)" by (metis prod.collapse)
  have timeout: "td_execution_timeout (te_task minute_entry) = Some (PyFloat 60)" by (simp add: minute_entry_def)
  have now: "now sample_services busy_world =
      (Inr (Datetime (int (w_calls busy_world)) True), busy_world\<lparr>w_calls := w_calls busy_world + 1\<rparr>)"
    by (simp add: now_def sample_services_def bindA_def thenA_def)
  from execution_deadline_exact [where sv = sample_services and entry = minute_entry and w = busy_world and
      run_id = "WorkflowRunId ''run''" and correlation = sample_correlation and outputs = "[]" and
      current = busy_task and attempt = busy_attempt] rq timeout now
  show ?thesis by auto metis
qed

definition finished_world :: world where
  "finished_world = snd (bindA sample_prepare (\<lambda>t. transition_task sample_services t T_SUCCEEDED None None) empty_world)"

lemma finished_world_ok: "store_ok (w_store finished_world)"
proof -
  have "maintains lawful (bindA sample_prepare (\<lambda>t. transition_task sample_services t T_SUCCEEDED None None))"
    by (intro law.combinators lawful_intros sample_services_lawful)
  then have "lawful empty_world finished_world" by (simp add: maintains_def finished_world_def)
  then show ?thesis using lawful_ok by (simp add: empty_world_def empty_store_ok)
qed

theorem success_requires_every_task_witness:
  "\<exists>v run. finish_completed sample_services start_state finished_world = (Inr (), v) \<and>
    dict_get (st_workflow_runs (w_store v)) (WorkflowRunId ''run'') = Some run \<and> wr_status run = W_SUCCEEDED"
proof -
  have "fst (finish_completed sample_services start_state finished_world) = Inr ()"
    "wr_run_id (xs_run start_state) = WorkflowRunId ''run''"
    by code_simp+
  moreover then obtain v where "finish_completed sample_services start_state finished_world = (Inr (), v)"
    by (metis prod.collapse)
  ultimately show ?thesis
    using success_requires_every_task [OF sample_services_lawful finished_world_ok, of start_state v] by simp
qed

end
