(* ===== verification/Lineage.thy ===== *)
theory Lineage
  imports Recovery
begin

text \<open>
  The read side of the runtime: run manifests (\<open>lineage/manifest.py\<close>), execution lineage
  (\<open>lineage/projector.py\<close>) and runtime inspection (\<open>diagnostics/inspection.py\<close>), with the values of
  \<open>lineage/model.py\<close> and the methods of \<open>WorkflowRuntime\<close> that expose them.

  \<open>isoformat\<close> is \<open>datetime.isoformat\<close>, which needs the offset of a timestamp that the model does not keep.
  Their properties are in \<open>Reporting\<close>.
\<close>

section \<open>Evidence of one task\<close>

text \<open>
  The three readers collect the attempts of a task run, the external runs of these attempts, and
  the output checkpoint or \<open>None\<close> when there is none.
\<close>

definition attempts_and_refs :: "task_run_id \<Rightarrow> (store, task_attempt list \<times> external_run_ref list) act" where
  "attempts_and_refs tid =
     bindA (list_task_attempts tid) (\<lambda>attempts.
     bindA (mapA (\<lambda>a. list_external_run_refs (ta_attempt_id a)) attempts) (\<lambda>refs.
     ret (attempts, concat refs)))"

definition checkpoint_or_none :: "task_run_id \<Rightarrow> (store, checkpoint option) act" where
  \<comment> \<open>\<open>except MetadataNotFoundError: checkpoint = None\<close>\<close>
  "checkpoint_or_none tid =
     bindA (attemptA (get_task_output_checkpoint tid)) (\<lambda>outcome. case outcome of
       Inr cp \<Rightarrow> ret (Some cp)
     | Inl (MetadataNotFound entity i) \<Rightarrow> ret None
     | Inl e \<Rightarrow> raise e)"

section \<open>Manifests\<close>

record manifest_attempt =
  ma_attempt_id :: task_attempt_id
  ma_attempt_number :: int
  ma_status :: task_attempt_status

record manifest_task_run =
  mt_task_run_id :: task_run_id
  mt_task_key :: string
  mt_status :: task_run_status
  mt_attempts :: "manifest_attempt list"
  mt_external_runs :: "external_run_ref list"
  mt_output :: jval  \<comment> \<open>\<open>JNull\<close> is Python's \<open>None\<close>, also when there is no checkpoint\<close>
  mt_output_digest :: "string option"
  mt_output_recorded_at :: "string option"

record run_manifest =
  rm_schema_version :: string
  rm_workflow_run_id :: workflow_run_id
  rm_workflow_name :: string
  rm_workflow_version :: string
  rm_definition_fingerprint :: string
  rm_plan_fingerprint :: string
  rm_status :: workflow_run_status
  rm_created_at :: string
  rm_started_at :: "string option"
  rm_ended_at :: "string option"
  rm_tasks :: "manifest_task_run list"

definition MANIFEST_SCHEMA_VERSION :: string where
  "MANIFEST_SCHEMA_VERSION = ''2''"

definition manifest_task :: "(datetime \<Rightarrow> string) \<Rightarrow> task_run \<Rightarrow> (store, manifest_task_run) act" where
  \<comment> \<open>The body of the loop of \<open>build\<close>.\<close>
  "manifest_task isoformat t =
     bindA (attempts_and_refs (tr_task_run_id t)) (\<lambda>(attempts, external_runs).
     bindA (checkpoint_or_none (tr_task_run_id t)) (\<lambda>cp.
     ret \<lparr>mt_task_run_id = tr_task_run_id t, mt_task_key = tr_task_key t, mt_status = tr_status t,
       mt_attempts = map (\<lambda>a. \<lparr>ma_attempt_id = ta_attempt_id a, ma_attempt_number = ta_attempt_number a,
         ma_status = ta_status a\<rparr>) attempts,
       mt_external_runs = external_runs,
       mt_output = (case cp of None \<Rightarrow> JNull | Some c \<Rightarrow> cp_output c),
       mt_output_digest = map_option cp_digest cp,
       mt_output_recorded_at = map_option (\<lambda>c. isoformat (cp_recorded_at c)) cp\<rparr>))"

definition build_manifest ::
  "(datetime \<Rightarrow> string) \<Rightarrow> workflow_run_id \<Rightarrow> bool \<Rightarrow> (store, run_manifest) act" where
  "build_manifest isoformat run_id require_terminal =
     bindA (get_workflow_run run_id) (\<lambda>run.
     thenA (requireA (\<not> (require_terminal \<and> wr_status run \<notin> WORKFLOW_TERMINAL_STATUSES))
       (RuntimeInvariant (''terminal manifest requested for non-terminal WorkflowRun '' @ wid_str run_id @
          '': '' @ workflow_status_value (wr_status run))))
    (bindA (list_task_runs run_id) (\<lambda>task_runs.
     bindA (mapA (manifest_task isoformat) task_runs) (\<lambda>tasks.
     ret \<lparr>rm_schema_version = MANIFEST_SCHEMA_VERSION, rm_workflow_run_id = wr_run_id run,
       rm_workflow_name = wr_workflow_name run, rm_workflow_version = wr_workflow_version run,
       rm_definition_fingerprint = wr_definition_fingerprint run,
       rm_plan_fingerprint = wr_plan_fingerprint run, rm_status = wr_status run,
       rm_created_at = isoformat (wr_created_at run), rm_started_at = map_option isoformat (wr_started_at run),
       rm_ended_at = map_option isoformat (wr_ended_at run), rm_tasks = tasks\<rparr>))))"

section \<open>Lineage\<close>

record lineage_dependency =
  ld_upstream :: task_run_id
  ld_downstream :: task_run_id

record task_lineage =
  tl_task_key :: string
  tl_task_run_id :: task_run_id
  tl_attempt_ids :: "task_attempt_id list"
  tl_external_runs :: "external_run_ref list"
  tl_output_digest :: "string option"

record execution_lineage =
  el_workflow_run_id :: workflow_run_id
  el_workflow_name :: string
  el_workflow_version :: string
  el_definition_fingerprint :: string
  el_plan_fingerprint :: string
  el_tasks :: "task_lineage list"
  el_dependencies :: "lineage_dependency list"

definition planned :: "codec \<Rightarrow> workflow_definition + execution_plan \<Rightarrow> execution_plan result" where
  "planned c workflow = (case workflow of Inl definition \<Rightarrow> compile c definition | Inr plan \<Rightarrow> Inr plan)"

definition require_same_plan :: "codec \<Rightarrow> string \<Rightarrow> workflow_run \<Rightarrow> execution_plan \<Rightarrow> unit result" where
  \<comment> \<open>The identity check of \<open>project\<close> and \<open>inspect\<close>; the plan's fingerprint is computed last.\<close>
  "require_same_plan c reason run plan =
     thenR (require (wr_workflow_name run = ep_workflow_name plan \<and>
        wr_workflow_version run = ep_workflow_version plan \<and>
        wr_definition_fingerprint run = ep_definition_fingerprint plan) (RuntimeInvariant reason))
    (bindR (plan_fingerprint c plan) (\<lambda>digest.
       require (wr_plan_fingerprint run = digest) (RuntimeInvariant reason)))"

definition project_task :: "(string, task_run) dict \<Rightarrow> string \<Rightarrow> (store, task_lineage) act" where
  "project_task by_key key =
     bindA (liftR (key_lookup by_key key)) (\<lambda>t.
     bindA (attempts_and_refs (tr_task_run_id t)) (\<lambda>(attempts, external_runs).
     bindA (checkpoint_or_none (tr_task_run_id t)) (\<lambda>cp.
     ret \<lparr>tl_task_key = key, tl_task_run_id = tr_task_run_id t,
       tl_attempt_ids = map ta_attempt_id attempts, tl_external_runs = external_runs,
       tl_output_digest = map_option cp_digest cp\<rparr>)))"

definition project_dependencies ::
  "(string, task_run) dict \<Rightarrow> task_plan_entry list \<Rightarrow> lineage_dependency list result" where
  "project_dependencies by_key entries =
     bindR (mapR (\<lambda>e. bindR (key_lookup by_key (te_key e)) (\<lambda>downstream.
       mapR (\<lambda>key. bindR (key_lookup by_key key) (\<lambda>upstream.
         Inr \<lparr>ld_upstream = tr_task_run_id upstream, ld_downstream = tr_task_run_id downstream\<rparr>))
         (te_dependencies e))) entries) (\<lambda>xss. Inr (concat xss))"

definition project ::
  "codec \<Rightarrow> workflow_definition + execution_plan \<Rightarrow> workflow_run_id \<Rightarrow> (store, execution_lineage) act" where
  "project c workflow run_id =
     bindA (liftR (planned c workflow)) (\<lambda>plan.
     bindA (get_workflow_run run_id) (\<lambda>run.
     thenA (liftR (require_same_plan c ''execution plan does not match persisted WorkflowRun identity'' run plan))
    (bindA (list_task_runs run_id) (\<lambda>task_runs.
     let by_key = runs_by_key task_runs in
     thenA (requireA (fst ` set by_key = set (ep_topological_order plan))
       (RuntimeInvariant ''lineage projection task set does not match ExecutionPlan''))
    (bindA (mapA (project_task by_key) (ep_topological_order plan)) (\<lambda>tasks.
     bindA (liftR (project_dependencies by_key (ep_tasks plan))) (\<lambda>dependencies.
     ret \<lparr>el_workflow_run_id = wr_run_id run, el_workflow_name = wr_workflow_name run,
       el_workflow_version = wr_workflow_version run,
       el_definition_fingerprint = wr_definition_fingerprint run,
       el_plan_fingerprint = wr_plan_fingerprint run, el_tasks = tasks,
       el_dependencies = dependencies\<rparr>)))))))"

section \<open>Inspection\<close>

record task_inspection =
  ti_task_key :: string
  ti_task_run_id :: task_run_id
  ti_status :: task_run_status
  ti_attempt_count :: nat
  ti_upstream_task_keys :: "string list"
  ti_external_run_count :: nat
  ti_output_checkpointed :: bool

record runtime_inspection =
  ri_workflow_run_id :: workflow_run_id
  ri_workflow_name :: string
  ri_workflow_version :: string
  ri_status :: string
  ri_tasks :: "task_inspection list"
  ri_event_count :: nat
  ri_output_checkpoint_count :: nat
  ri_ready_task_keys :: "string list"
  ri_blocked_task_keys :: "string list"
  ri_deadlocked :: bool
  ri_deadlock_reason :: "string option"

text \<open>The local variables of \<open>inspect\<close> that its loop appends to.\<close>

record inspect_state =
  is_ready :: "string list"
  is_blocked :: "string list"
  is_inspections :: "task_inspection list"
  is_checkpoint_count :: nat

definition SCHEDULABLE_TASK_STATUSES :: "task_run_status set" where
  "SCHEDULABLE_TASK_STATUSES = {T_PENDING, T_READY}"

definition ACTIVE_TASK_STATUSES :: "task_run_status set" where
  "ACTIVE_TASK_STATUSES = {T_RUNNING, T_UNKNOWN_OUTCOME}"

fun all_succeeded :: "(string, task_run) dict \<Rightarrow> string list \<Rightarrow> bool result" where
  \<comment> \<open>\<open>all(by_key[upstream].status is SUCCEEDED for upstream in ...)\<close>, which stops at the first that is not.\<close>
  "all_succeeded by_key [] = Inr True"
| "all_succeeded by_key (key # keys) = bindR (key_lookup by_key key) (\<lambda>t.
     if tr_status t = T_SUCCEEDED then all_succeeded by_key keys else Inr False)"

definition classify_entry ::
  "(string, task_run) dict \<Rightarrow> task_plan_entry \<Rightarrow> task_run \<Rightarrow> inspect_state \<Rightarrow> inspect_state result" where
  "classify_entry by_key entry t st =
     (if tr_status t = T_BLOCKED then Inr (st\<lparr>is_blocked := is_blocked st @ [te_key entry]\<rparr>)
      else if tr_status t \<in> SCHEDULABLE_TASK_STATUSES then
        bindR (all_succeeded by_key (te_dependencies entry)) (\<lambda>dependencies_succeeded.
        Inr (if dependencies_succeeded then st\<lparr>is_ready := is_ready st @ [te_key entry]\<rparr>
             else st\<lparr>is_blocked := is_blocked st @ [te_key entry]\<rparr>))
      else Inr st)"

definition inspect_entry ::
  "(string, task_run) dict \<Rightarrow> task_plan_entry \<Rightarrow> inspect_state \<Rightarrow> (store, inspect_state) act" where
  \<comment> \<open>The body of the loop of \<open>inspect\<close>.\<close>
  "inspect_entry by_key entry st = (case dict_get by_key (te_key entry) of
     None \<Rightarrow> raise (RuntimeInvariant (''runtime inspection is missing TaskRun for '' @ py_quote (te_key entry)))
   | Some t \<Rightarrow>
       bindA (attempts_and_refs (tr_task_run_id t)) (\<lambda>(attempts, external_runs).
       bindA (checkpoint_or_none (tr_task_run_id t)) (\<lambda>cp.
       bindA (liftR (classify_entry by_key entry t st)) (\<lambda>st'.
       ret (st'\<lparr>is_checkpoint_count := is_checkpoint_count st' + (if cp = None then 0 else 1),
         is_inspections := is_inspections st' @ [\<lparr>ti_task_key = te_key entry,
           ti_task_run_id = tr_task_run_id t, ti_status = tr_status t, ti_attempt_count = length attempts,
           ti_upstream_task_keys = te_dependencies entry, ti_external_run_count = length external_runs,
           ti_output_checkpointed = (cp \<noteq> None)\<rparr>]\<rparr>)))))"

definition inspect ::
  "codec \<Rightarrow> workflow_definition + execution_plan \<Rightarrow> workflow_run_id \<Rightarrow> (store, runtime_inspection) act" where
  "inspect c workflow run_id =
     bindA (liftR (planned c workflow)) (\<lambda>plan.
     bindA (get_workflow_run run_id) (\<lambda>run.
     thenA (liftR (require_same_plan c
       ''runtime inspection plan does not match persisted WorkflowRun identity'' run plan))
    (bindA (list_task_runs run_id) (\<lambda>task_runs.
     bindA (foldA (inspect_entry (runs_by_key task_runs)) (ep_tasks plan)
       \<lparr>is_ready = [], is_blocked = [], is_inspections = [], is_checkpoint_count = 0\<rparr>) (\<lambda>st.
     let nonterminal = filter (\<lambda>t. tr_status t \<notin> TASK_RUN_TERMINAL_STATUSES) task_runs;
         has_active_work = list_ex (\<lambda>t. tr_status t \<in> ACTIVE_TASK_STATUSES) nonterminal;
         deadlocked = (nonterminal \<noteq> [] \<and> is_ready st = [] \<and> \<not> has_active_work) in
     bindA (list_runtime_events run_id) (\<lambda>events.
     ret \<lparr>ri_workflow_run_id = wr_run_id run, ri_workflow_name = wr_workflow_name run,
       ri_workflow_version = wr_workflow_version run, ri_status = workflow_status_value (wr_status run),
       ri_tasks = is_inspections st, ri_event_count = length events,
       ri_output_checkpoint_count = is_checkpoint_count st, ri_ready_task_keys = is_ready st,
       ri_blocked_task_keys = is_blocked st, ri_deadlocked = deadlocked,
       ri_deadlock_reason = (if deadlocked
         then Some ''non-terminal tasks remain but no task has all dependencies in SUCCEEDED state''
         else None)\<rparr>))))))"

section \<open>The runtime's readers\<close>

definition runtime_events :: "workflow_run_id \<Rightarrow> (world, runtime_event list) act" where
  "runtime_events run_id = in_store (list_runtime_events run_id)"

definition runtime_manifest :: "(datetime \<Rightarrow> string) \<Rightarrow> workflow_run_id \<Rightarrow> bool \<Rightarrow> (world, run_manifest) act" where
  "runtime_manifest isoformat run_id require_terminal = in_store (build_manifest isoformat run_id require_terminal)"

definition runtime_lineage ::
  "runtime \<Rightarrow> workflow_definition + execution_plan \<Rightarrow> workflow_run_id \<Rightarrow> (world, execution_lineage) act" where
  "runtime_lineage rt workflow run_id = in_store (project (sv_codec (rt_services rt)) workflow run_id)"

definition runtime_inspect ::
  "runtime \<Rightarrow> workflow_definition + execution_plan \<Rightarrow> workflow_run_id \<Rightarrow> (world, runtime_inspection) act" where
  "runtime_inspect rt workflow run_id = in_store (inspect (sv_codec (rt_services rt)) workflow run_id)"

definition recovery_assessment :: "workflow_run_id \<Rightarrow> (world, recovery_assessment) act" where
  "recovery_assessment run_id = in_store (assess run_id)"

definition recovery_candidates :: "(world, recovery_assessment list) act" where
  "recovery_candidates = in_store discover"

end
