(* ===== verification/Resuming.thy ===== *)
theory Resuming
  imports Samples
begin

text \<open>
  Which tasks a resumed run reuses.  \<open>reusable\<close> is the specification: a task may be reused when
  it is deterministic, was not asked to be recomputed, succeeded in the parent run with its output
  on record, and all its dependencies may be reused.  The code decides this in one pass over the
  plan; the pass is right because a compiled plan lists dependencies first.
\<close>

section \<open>Compiled plans list dependencies first\<close>

definition dependencies_first :: "task_plan_entry list \<Rightarrow> bool" where
  "dependencies_first entries \<longleftrightarrow>
     (\<forall>i < length entries. set (te_dependencies (entries ! i)) \<subseteq> te_key ` set (take i entries))"

lemma concat_take: "concat (take i xss) = take (length (concat (take i xss))) (concat xss)"
  by (metis append_eq_conv_conj append_take_drop_id concat_append)

lemma concat_nth_position:
  assumes "i < length xss" "x \<in> set (xss ! i)"
  obtains k where "length (concat (take i xss)) \<le> k" "k < length (concat xss)" "concat xss ! k = x"
proof -
  from assms(2) obtain m where m: "m < length (xss ! i)" "xss ! i ! m = x" by (auto simp: in_set_conv_nth)
  have "concat xss = concat (take i xss) @ xss ! i @ concat (drop (Suc i) xss)"
    by (metis append_take_drop_id assms(1) concat.simps(2) concat_append Cons_nth_drop_Suc)
  then show thesis
    using m by (intro that [of "length (concat (take i xss)) + m"]) (simp_all add: nth_append)
qed

lemma compiled_dependencies_first:
  assumes "compile c w = Inr p" "distinct (map td_key (wf_tasks w))"
    "\<forall>t \<in> set (wf_tasks w). distinct (td_dependencies t)"
  shows "dependencies_first (ep_tasks p)" "distinct (map te_key (ep_tasks p))"
proof -
  note layout = compiled_layout [OF assms]
  then have keys: "map te_key (ep_tasks p) = concat (ep_groups p)" by blast
  show d: "distinct (map te_key (ep_tasks p))"
    using assms(1) by (auto simp: compile_def bindR_Inr_iff thenR_Inr_iff mk_execution_plan_def)
  show "dependencies_first (ep_tasks p)"
    unfolding dependencies_first_def
  proof (intro allI impI)
    fix j assume j: "j < length (ep_tasks p)"
    let ?e = "ep_tasks p ! j"
    obtain i where i: "i < length (ep_groups p)" "te_key ?e \<in> set (ep_groups p ! i)"
      "set (te_dependencies ?e) \<subseteq> set (concat (take i (ep_groups p)))"
      using layout j by (metis nth_mem)
    obtain k where k: "length (concat (take i (ep_groups p))) \<le> k" "k < length (concat (ep_groups p))"
      "concat (ep_groups p) ! k = te_key ?e"
      using concat_nth_position [OF i(1,2)] .
    have "k = j"
      using d j k by (metis keys length_map nth_eq_iff_index_eq nth_map)
    then have "set (concat (take i (ep_groups p))) \<subseteq> set (take j (concat (ep_groups p)))"
      using concat_take [of i "ep_groups p"] k(1) set_take_subset_set_take by metis
    with i(3) show "set (te_dependencies ?e) \<subseteq> te_key ` set (take j (ep_tasks p))"
      by (metis keys list.set_map subset_trans take_map)
  qed
qed

section \<open>The specification\<close>

inductive reusable ::
  "task_plan_entry list \<Rightarrow> (string, task_run) dict \<Rightarrow> string list \<Rightarrow> store \<Rightarrow> string \<Rightarrow> bool"
  for entries parents force s where
  reuse: "entry \<in> set entries \<Longrightarrow> te_key entry \<notin> set force \<Longrightarrow> td_is_deterministic (te_task entry) \<Longrightarrow>
    dict_get parents (te_key entry) = Some parent \<Longrightarrow> tr_status parent \<in> {T_SUCCEEDED, T_REUSED} \<Longrightarrow>
    dict_has (st_checkpoints s) (tr_task_run_id parent) \<Longrightarrow>
    (\<And>d. d \<in> set (te_dependencies entry) \<Longrightarrow> reusable entries parents force s d) \<Longrightarrow>
    reusable entries parents force s (te_key entry)"

inductive_cases reusableE: "reusable entries parents force s key"

definition parent_checkpoint :: "(string, task_run) dict \<Rightarrow> store \<Rightarrow> string \<Rightarrow> checkpoint option" where
  "parent_checkpoint parents s key = (case dict_get parents key of None \<Rightarrow> None
     | Some parent \<Rightarrow> dict_get (st_checkpoints s) (tr_task_run_id parent))"

text \<open>The classification is right for a set of keys.\<close>

definition classified ::
  "(string \<Rightarrow> bool) \<Rightarrow> (string, task_run) dict \<Rightarrow> store \<Rightarrow> resume_classification \<Rightarrow> bool" where
  "classified P parents s c \<longleftrightarrow> set (rc_reused_keys c) = {k. P k} \<and>
     (\<forall>k. dict_get (rc_checkpoints c) k = (if P k then parent_checkpoint parents s k else None)) \<and>
     (\<forall>k. dict_get (rc_outputs c) k =
        (if P k then map_option (frozen_value \<circ> cp_output) (parent_checkpoint parents s k) else None))"

lemma classify_step:
  assumes c: "classified (\<lambda>k. k \<in> te_key ` set xs \<and> reusable entries parents force s k) parents s c"
    and e: "entry \<in> set entries" "distinct (map te_key entries)"
    and new: "te_key entry \<notin> te_key ` set xs" "set (te_dependencies entry) \<subseteq> te_key ` set xs"
  shows "\<exists>c'. classify_task parents force entry c s = (Inr c', s) \<and>
    classified (\<lambda>k. k \<in> te_key ` set (xs @ [entry]) \<and> reusable entries parents force s k) parents s c'"
proof -
  let ?R = "reusable entries parents force s"
  have deps: "list_all (\<lambda>d. d \<in> set (rc_reused_keys c)) (te_dependencies entry) \<longleftrightarrow>
      (\<forall>d \<in> set (te_dependencies entry). ?R d)"
    using c new(2) by (auto simp: classified_def list_all_iff)
  have iff: "?R (te_key entry) \<longleftrightarrow> te_key entry \<notin> set force \<and> td_is_deterministic (te_task entry) \<and>
      (\<exists>p. dict_get parents (te_key entry) = Some p \<and> tr_status p \<in> {T_SUCCEEDED, T_REUSED} \<and>
         dict_has (st_checkpoints s) (tr_task_run_id p)) \<and>
      (\<forall>d \<in> set (te_dependencies entry). ?R d)" (is "_ \<longleftrightarrow> ?C")
  proof
    assume "?R (te_key entry)"
    then show ?C
    proof (cases rule: reusable.cases)
      case (reuse entry' parent)
      have "entry' = entry" using e reuse(1,2) by (metis distinct_map inj_on_def)
      with reuse show ?C by auto
    qed
  next
    assume ?C
    then show "?R (te_key entry)" using reuse [OF e(1)] by blast
  qed
  show ?thesis
  proof (cases "?R (te_key entry)")
    case True
    then obtain p cp where p: "dict_get parents (te_key entry) = Some p" "tr_status p \<in> {T_SUCCEEDED, T_REUSED}"
      "dict_get (st_checkpoints s) (tr_task_run_id p) = Some cp"
      using iff by (auto simp: dict_has_iff)
    then have "classify_task parents force entry c s = (Inr \<lparr>rc_reused_keys = te_key entry # rc_reused_keys c,
        rc_checkpoints = dict_set (te_key entry) cp (rc_checkpoints c),
        rc_outputs = dict_set (te_key entry) (frozen_value (cp_output cp)) (rc_outputs c)\<rparr>, s)"
      using True iff deps
      by (auto simp: classify_task_def bindA_def attemptA_def get_task_output_checkpoint_def)
    moreover have "parent_checkpoint parents s (te_key entry) = Some cp"
      using p by (simp add: parent_checkpoint_def)
    ultimately show ?thesis
      using c True by (auto simp: classified_def dict_get_set)
  next
    case False
    then have "classify_task parents force entry c s = (Inr c, s)"
      using iff deps
      by (auto simp: classify_task_def bindA_def attemptA_def get_task_output_checkpoint_def dict_has_iff
          split: option.splits)
    moreover have "k \<in> te_key ` set (xs @ [entry]) \<and> ?R k \<longleftrightarrow> k \<in> te_key ` set xs \<and> ?R k" for k
      using False by auto
    ultimately show ?thesis using c by simp
  qed
qed

lemma classify_all:
  assumes "dependencies_first entries" "distinct (map te_key entries)" "n \<le> length entries"
    and "classified (\<lambda>k. k \<in> te_key ` set (take n entries) \<and> reusable entries parents force s k) parents s c"
  shows "\<exists>c'. foldA (classify_task parents force) (drop n entries) c s = (Inr c', s) \<and>
    classified (reusable entries parents force s) parents s c'"
  using assms(3,4)
proof (induction "length entries - n" arbitrary: n c)
  case 0
  then have "k \<in> te_key ` set (take n entries) \<and> reusable entries parents force s k \<longleftrightarrow>
      reusable entries parents force s k" for k
    by (auto elim: reusableE)
  with 0 show ?case by simp
next
  case (Suc m)
  then have n: "n < length entries" by simp
  let ?e = "entries ! n"
  have new: "te_key ?e \<notin> te_key ` set (take n entries)"
  proof
    assume "te_key ?e \<in> te_key ` set (take n entries)"
    then obtain i where "i < n" "te_key (entries ! i) = te_key ?e" by (auto simp: in_set_conv_nth)
    then show False
      using assms(2) n nth_eq_iff_index_eq [OF assms(2), of i n] by simp
  qed
  obtain c' where c': "classify_task parents force ?e c s = (Inr c', s)"
    "classified (\<lambda>k. k \<in> te_key ` set (take n entries @ [?e]) \<and> reusable entries parents force s k) parents s c'"
    using classify_step [OF Suc.prems(2) nth_mem [OF n] assms(2) new] assms(1) n
    by (auto simp: dependencies_first_def)
  have "foldA (classify_task parents force) (drop n entries) c s =
      foldA (classify_task parents force) (drop (Suc n) entries) c' s"
    using c'(1) n by (simp add: Cons_nth_drop_Suc [symmetric])
  moreover have "take (Suc n) entries = take n entries @ [?e]" using n by (simp add: take_Suc_conv_app_nth)
  ultimately show ?case
    using Suc.hyps(1) [of "Suc n" c'] Suc.hyps(2) Suc.prems(1) n c'(2) by simp
qed

lemma classify_refines:
  assumes "dependencies_first (ep_tasks plan)" "distinct (map te_key (ep_tasks plan))"
  shows "\<exists>c. classify_tasks_for_resume plan parents force s = (Inr c, s) \<and>
    classified (reusable (ep_tasks plan) parents force s) parents s c"
  using classify_all [OF assms, of 0 parents force s "\<lparr>rc_reused_keys = [], rc_checkpoints = [], rc_outputs = []\<rparr>"]
  by (simp add: classify_tasks_for_resume_def classified_def)

text \<open>C5: Resuming reuses exactly what it may.  For a compiled plan the one-pass classification always
  answers, leaves the store as it is, and its reused tasks are exactly those of the recursive
  specification: deterministic, not asked to be recomputed, successful in the parent run with an
  output on record, and with all dependencies reused; each comes with the output its parent recorded.\<close>
theorem resume_classification_refines:
  assumes "compile codec w = Inr plan" "distinct (map td_key (wf_tasks w))"
    "\<forall>t \<in> set (wf_tasks w). distinct (td_dependencies t)"
  shows "\<exists>c. classify_tasks_for_resume plan parents force s = (Inr c, s) \<and>
    set (rc_reused_keys c) = {k. reusable (ep_tasks plan) parents force s k} \<and>
    (\<forall>k. dict_get (rc_outputs c) k = (if reusable (ep_tasks plan) parents force s k
       then map_option (frozen_value \<circ> cp_output) (parent_checkpoint parents s k) else None))"
  using classify_refines [OF compiled_dependencies_first [OF assms], of parents force s]
  unfolding classified_def by blast


section \<open>Concrete instances\<close>

definition parent_start :: task_run where
  "parent_start = sample_task_run\<lparr>tr_task_key := ''start'', tr_status := T_SUCCEEDED\<rparr>"

definition store_with_output :: store where
  "store_with_output = empty_store\<lparr>st_checkpoints := [(TaskRunId ''task'',
     \<lparr>cp_task_run_id = TaskRunId ''task'', cp_output = JStr ''done'', cp_recorded_at = Datetime 0 True,
      cp_digest = ''d''\<rparr>)]\<rparr>"

theorem resume_classification_refines_witness:
  "\<exists>p c. compile sample_codec diamond = Inr p \<and>
    classify_tasks_for_resume p [(''start'', parent_start)] [] store_with_output = (Inr c, store_with_output) \<and>
    ''start'' \<in> set (rc_reused_keys c)"
proof -
  obtain p where p: "compile sample_codec diamond = Inr p"
    using diamond_fingerprint compile_succeeds [OF diamond_ready] by blast
  have "\<exists>t \<in> set (wf_tasks diamond). td_key t = ''start'' \<and> td_dependencies t = [] \<and> td_is_deterministic t"
    by code_simp
  moreover have "te_task ` set (ep_tasks p) = set (wf_tasks diamond)"
    using compiled_layout [OF p diamond_tasks] by (metis list.set_map set_mset_mset)
  ultimately obtain e where e: "e \<in> set (ep_tasks p)" "te_key e = ''start''" "te_dependencies e = []"
    "td_is_deterministic (te_task e)" by (metis imageE)
  have "reusable (ep_tasks p) [(''start'', parent_start)] [] store_with_output (te_key e)"
    by (rule reuse [OF e(1), where parent = parent_start])
      (simp_all add: e parent_start_def sample_task_run_def store_with_output_def)
  with resume_classification_refines [OF p diamond_tasks, of "[(''start'', parent_start)]" "[]" store_with_output] p e(2)
  show ?thesis by auto
qed

end
