(* ===== verification/Cancelling.thy ===== *)
theory Cancelling
  imports Attempts
begin

text \<open>
  What cancelling a run achieves, and where it falls short.  A run whose tasks have not started is
  always cancelled with all of them; a task between two attempts is reported as cancelled with the
  run but goes on; a task that is cancelled while its run is running leaves the run without a way
  to end.
\<close>

section \<open>Transitions that cannot fail\<close>

text \<open>A clock that answers with an aware timestamp and during whose calls nobody touches the store.\<close>

definition steady_clock :: "services \<Rightarrow> bool" where
  "steady_clock sv \<longleftrightarrow> (\<forall>w. \<exists>ts v. sv_now sv w = (Inr ts, v) \<and> dt_aware ts \<and> w_store v = w_store w \<and>
     w_active v = w_active w)"

lemma steady_now:
  assumes "steady_clock sv"
  obtains ts v where "now sv w = (Inr ts, v)" "dt_aware ts" "w_store v = w_store w" "w_active v = w_active w"
proof -
  from assms obtain ts v where "sv_now sv w = (Inr ts, v)" "dt_aware ts" "w_store v = w_store w" "w_active v = w_active w"
    unfolding steady_clock_def by blast
  then show thesis by (intro that [of ts v]) (simp_all add: now_def thenA_def)
qed

lemma update_workflow_run_succeeds:
  assumes "store_ok s" "dt_aware ts" "dict_get (st_workflow_runs s) (wr_run_id c) = Some c"
    "workflow_transition c target ts failure = Inr w"
  shows "update_workflow_run w (wr_status c) (Some ts) s = (Inr (), log_workflow c w (Some ts) (put_workflow w s))"
proof -
  have valid: "valid_workflow_run w" and same: "same_workflow c w" and i: "wr_run_id w = wr_run_id c"
    using workflow_transition_valid [OF _ assms(4)] store_okD(5) [OF assms(1,3)] assms(4)
    by (auto simp: workflow_transition_Inr same_workflow_def require_workflow_identity_def)
  have "fst (update_workflow_run w (wr_status c) (Some ts) s) = Inr ()"
    using valid same assms(2,3) i store_okD(1) [OF assms(1)] store_okD(5) [OF assms(1,3)]
      append_transition_good [of "wid_str (wr_run_id w)" "Some (workflow_status_value (wr_status c))"
        "workflow_status_value (wr_status w)" ts "put_workflow w s" WORKFLOW_RUN]
    by (auto simp: update_workflow_run_def workflow_in_store_def bindA_def thenA_def require_status_def
      same_workflow_def require_def require_transition_timestamp_def put_workflow_def good_record_def)
  then obtain s' where s': "update_workflow_run w (wr_status c) (Some ts) s = (Inr (), s')" by (metis prod.collapse)
  from update_workflow_run_cases [OF assms(1) _ s'] assms(2,3) i show ?thesis by (auto simp: s')
qed

lemma update_task_run_succeeds:
  assumes "store_ok s" "dt_aware ts" "dict_get (st_task_runs s) (tr_task_run_id c) = Some c"
    "task_transition c target ts skip block failure = Inr t"
  shows "update_task_run t (tr_status c) (Some ts) s = (Inr (), log_task c t (Some ts) (put_task t s))"
proof -
  have valid: "valid_task_run t" and same: "same_task c t" and i: "tr_task_run_id t = tr_task_run_id c"
    using task_transition_valid [OF _ assms(4)] store_okD(6) [OF assms(1,3)] assms(4)
    by (auto simp: task_transition_Inr same_task_def require_task_run_identity_def)
  have "fst (update_task_run t (tr_status c) (Some ts) s) = Inr ()"
    using valid same assms(2,3) i store_okD(1) [OF assms(1)] store_okD(6) [OF assms(1,3)]
      append_transition_good [of "tid_str (tr_task_run_id t)" "Some (task_status_value (tr_status c))"
        "task_status_value (tr_status t)" ts "put_task t s" TASK_RUN]
    by (auto simp: update_task_run_def task_in_store_def bindA_def thenA_def require_status_def
      same_task_def require_def require_transition_timestamp_def put_task_def good_record_def)
  then obtain s' where s': "update_task_run t (tr_status c) (Some ts) s = (Inr (), s')" by (metis prod.collapse)
  from update_task_run_cases [OF assms(1) _ s'] assms(2,3) i show ?thesis by (auto simp: s')
qed

lemma transition_workflow_succeeds:
  assumes "steady_clock sv" "store_ok (w_store w)"
    "dict_get (st_workflow_runs (w_store w)) (wr_run_id run) = Some run" "target \<in> workflow_transitions (wr_status run)"
  shows "\<exists>run' v. transition_workflow sv run target failure w = (Inr run', v) \<and> store_ok (w_store v) \<and>
    wr_status run' = target \<and> wr_run_id run' = wr_run_id run \<and>
    st_workflow_runs (w_store v) = dict_set (wr_run_id run) run' (st_workflow_runs (w_store w)) \<and>
    st_task_runs (w_store v) = st_task_runs (w_store w) \<and>
    st_task_attempts (w_store v) = st_task_attempts (w_store w) \<and> w_active v = w_active w"
proof -
  obtain ts v where ts: "now sv w = (Inr ts, v)" "dt_aware ts" "w_store v = w_store w" "w_active v = w_active w"
    by (rule steady_now [OF assms(1)])
  obtain run' where run': "workflow_transition run target ts failure = Inr run'" "wr_status run' = target"
    "wr_run_id run' = wr_run_id run"
    using ts(2) assms(4) by (simp add: workflow_transition_Inr)
  note u = update_workflow_run_succeeds [OF assms(2) ts(2) assms(3) run'(1)]
  have "store_ok (log_workflow run run' (Some ts) (put_workflow run' (w_store w)))"
    using update_workflow_run_ok [OF assms(2) _ u] ts(2) by simp
  then show ?thesis
    using u run' ts by (simp add: transition_workflow_def in_store_def zoomA_def thenA_def bindA_def put_workflow_def)
qed

lemma transition_task_succeeds:
  assumes "steady_clock sv" "store_ok (w_store w)"
    "dict_get (st_task_runs (w_store w)) (tr_task_run_id t) = Some t" "target \<in> task_run_transitions (tr_status t)"
    "target \<notin> {T_SKIPPED, T_BLOCKED}"
  shows "\<exists>t' v. transition_task sv t target None failure w = (Inr t', v) \<and> store_ok (w_store v) \<and>
    tr_status t' = target \<and> tr_task_run_id t' = tr_task_run_id t \<and> tr_workflow_run_id t' = tr_workflow_run_id t \<and>
    st_task_runs (w_store v) = dict_set (tr_task_run_id t) t' (st_task_runs (w_store w)) \<and>
    st_workflow_runs (w_store v) = st_workflow_runs (w_store w) \<and>
    st_task_attempts (w_store v) = st_task_attempts (w_store w) \<and> w_active v = w_active w"
proof -
  obtain ts v where ts: "now sv w = (Inr ts, v)" "dt_aware ts" "w_store v = w_store w" "w_active v = w_active w"
    by (rule steady_now [OF assms(1)])
  obtain t' where t': "task_transition t target ts None None failure = Inr t'" "tr_status t' = target"
    "tr_task_run_id t' = tr_task_run_id t" "tr_workflow_run_id t' = tr_workflow_run_id t"
    using ts(2) assms(4,5) by (simp add: task_transition_Inr)
  note u = update_task_run_succeeds [OF assms(2) ts(2) assms(3) t'(1)]
  have "store_ok (log_task t t' (Some ts) (put_task t' (w_store w)))"
    using update_task_run_ok [OF assms(2) _ u] ts(2) by simp
  then show ?thesis
    using u t' ts by (simp add: transition_task_def in_store_def zoomA_def thenA_def bindA_def put_task_def)
qed


section \<open>Cancelling a run none of whose tasks is executing\<close>

abbreviation unstarted :: "task_run \<Rightarrow> bool" where
  "unstarted t \<equiv> tr_status t \<in> {T_PENDING, T_READY, T_BLOCKED}"

definition between_attempts :: "store \<Rightarrow> task_run \<Rightarrow> bool" where
  "between_attempts s t \<longleftrightarrow> tr_status t = T_RUNNING \<and> attempts_of (tr_task_run_id t) s \<noteq> [] \<and>
     ta_status (last (attempts_of (tr_task_run_id t) s)) \<in> TASK_ATTEMPT_TERMINAL_STATUSES"

definition idle_task :: "store \<Rightarrow> task_run \<Rightarrow> bool" where
  "idle_task s t \<longleftrightarrow> unstarted t \<or> tr_status t \<in> TASK_RUN_TERMINAL_STATUSES \<or> between_attempts s t"

lemma cancellation_returns:
  "\<not> blank reason \<Longrightarrow> cancellation status run_id tid aid reason w =
    (Inr \<lparr>cn_status = status, cn_workflow_run_id = run_id, cn_task_run_id = tid, cn_attempt_id = aid,
      cn_reason = reason\<rparr>, w)"
  by (simp add: cancellation_def mk_cancellation_result_def required_text_def require_def)

lemma cancel_between_attempts:
  assumes "store_ok (w_store w)" "dict_get (st_task_runs (w_store w)) (tr_task_run_id t) = Some t"
    "between_attempts (w_store w) t"
  shows "\<exists>r. cancel_task rt (tr_task_run_id t) w = (Inr r, w) \<and> cn_status r = CS_ALREADY_TERMINAL"
proof -
  have reason: "\<not> blank ''task_attempt_already_terminal''" by code_simp
  have "in_store (get_task_run (tr_task_run_id t)) w = (Inr t, w)"
    using assms(2) store_okD(6) [OF assms(1,2)] by (auto simp: in_store_Inr_iff get_task_run_Inr)
  moreover have "in_store (list_task_attempts (tr_task_run_id t)) w = (Inr (attempts_of (tr_task_run_id t) (w_store w)), w)"
    using list_task_attempts_ok [OF assms(1)] by (simp add: in_store_Inr_iff)
  ultimately show ?thesis
    using assms(3) cancellation_returns [OF reason]
    by (simp add: cancel_task_def cancel_running_task_def between_attempts_def Let_def terminal_defs)
qed

text \<open>What cancelling does to the tasks of a run, by their identifiers.\<close>

definition cancelled_in :: "task_run list \<Rightarrow> store \<Rightarrow> store \<Rightarrow> bool" where
  "cancelled_in ts s s' \<longleftrightarrow> st_workflow_runs s' = st_workflow_runs s \<and> st_task_attempts s' = st_task_attempts s \<and>
     (\<forall>t \<in> set ts. if unstarted t
        then (\<exists>t'. dict_get (st_task_runs s') (tr_task_run_id t) = Some t' \<and> tr_status t' = T_CANCELLED)
        else dict_get (st_task_runs s') (tr_task_run_id t) = Some t) \<and>
     (\<forall>i. i \<notin> tr_task_run_id ` set ts \<longrightarrow> dict_get (st_task_runs s') i = dict_get (st_task_runs s) i)"

lemma cancel_member_idle:
  assumes "steady_clock (rt_services rt)" "store_ok (w_store w)"
    "dict_get (st_task_runs (w_store w)) (tr_task_run_id t) = Some t" "idle_task (w_store w) t"
  shows "\<exists>sts v. cancel_member rt t acc w = (Inr (acc @ sts), v) \<and> set sts \<subseteq> {CS_CONFIRMED, CS_ALREADY_TERMINAL} \<and>
    store_ok (w_store v) \<and> cancelled_in [t] (w_store w) (w_store v)"
proof -
  consider "unstarted t" | "tr_status t \<in> TASK_RUN_TERMINAL_STATUSES" | "between_attempts (w_store w) t"
    using assms(4) unfolding idle_task_def by blast
  then show ?thesis
  proof cases
    case 1
    then have "T_CANCELLED \<in> task_run_transitions (tr_status t)" by auto
    then obtain t' v where "transition_task (rt_services rt) t T_CANCELLED None None w = (Inr t', v)"
      "store_ok (w_store v)" "tr_status t' = T_CANCELLED"
      "st_task_runs (w_store v) = dict_set (tr_task_run_id t) t' (st_task_runs (w_store w))"
      "st_workflow_runs (w_store v) = st_workflow_runs (w_store w)"
      "st_task_attempts (w_store v) = st_task_attempts (w_store w)"
      using transition_task_succeeds [OF assms(1-3), of T_CANCELLED None] by auto
    then show ?thesis
      using 1 by (auto simp: cancel_member_def thenA_def bindA_def cancelled_in_def dict_get_set)
  next
    case 2
    then show ?thesis
      using assms(2,3) by (auto simp: cancel_member_def cancelled_in_def terminal_defs)
  next
    case 3
    from cancel_between_attempts [OF assms(2,3) 3] obtain r
      where r: "cancel_task rt (tr_task_run_id t) w = (Inr r, w)" "cn_status r = CS_ALREADY_TERMINAL" by blast
    moreover have "tr_status t = T_RUNNING" using 3 by (simp add: between_attempts_def)
    ultimately have "cancel_member rt t acc w = (Inr (acc @ [CS_ALREADY_TERMINAL]), w) \<and>
        cancelled_in [t] (w_store w) (w_store w)"
      using assms(3) by (simp add: cancel_member_def cancelled_in_def)
    then show ?thesis using assms(2) by (intro exI [of _ "[CS_ALREADY_TERMINAL]"] exI [of _ w]) simp
  qed
qed

lemma idle_task_cong: "st_task_attempts s' = st_task_attempts s \<Longrightarrow> idle_task s' t = idle_task s t"
  by (simp add: idle_task_def between_attempts_def attempts_of_def)

lemma cancel_members_idle:
  assumes "steady_clock (rt_services rt)" "store_ok (w_store w)" "distinct (map tr_task_run_id ts)"
    "\<forall>t \<in> set ts. dict_get (st_task_runs (w_store w)) (tr_task_run_id t) = Some t \<and> idle_task (w_store w) t"
  shows "\<exists>sts v. foldA (cancel_member rt) ts acc w = (Inr (acc @ sts), v) \<and>
    set sts \<subseteq> {CS_CONFIRMED, CS_ALREADY_TERMINAL} \<and>
    store_ok (w_store v) \<and> cancelled_in ts (w_store w) (w_store v)"
  using assms(2-)
proof (induction ts arbitrary: acc w)
  case (Cons t ts)
  from cancel_member_idle [OF assms(1) Cons.prems(1), of t acc] Cons.prems(3)
  obtain sts1 v where v: "cancel_member rt t acc w = (Inr (acc @ sts1), v)"
    "set sts1 \<subseteq> {CS_CONFIRMED, CS_ALREADY_TERMINAL}" "store_ok (w_store v)" "cancelled_in [t] (w_store w) (w_store v)"
    by auto
  have new: "tr_task_run_id t \<notin> tr_task_run_id ` set ts" using Cons.prems(2) by simp
  have "\<forall>u \<in> set ts. dict_get (st_task_runs (w_store v)) (tr_task_run_id u) = Some u \<and> idle_task (w_store v) u"
  proof
    fix u assume u: "u \<in> set ts"
    with new have "tr_task_run_id u \<noteq> tr_task_run_id t" by (metis image_eqI)
    then show "dict_get (st_task_runs (w_store v)) (tr_task_run_id u) = Some u \<and> idle_task (w_store v) u"
      using Cons.prems(3) u v(4) idle_task_cong [of "w_store v" "w_store w" u] by (simp add: cancelled_in_def)
  qed
  from Cons.IH [OF v(3) _ this, of "acc @ sts1"] Cons.prems(2)
  obtain sts2 u where u: "foldA (cancel_member rt) ts (acc @ sts1) v = (Inr (acc @ sts1 @ sts2), u)"
    "set sts2 \<subseteq> {CS_CONFIRMED, CS_ALREADY_TERMINAL}" "store_ok (w_store u)" "cancelled_in ts (w_store v) (w_store u)"
    by auto
  have "cancelled_in (t # ts) (w_store w) (w_store u)"
    using v(4) u(4) new by (auto simp: cancelled_in_def split: if_splits)
  then show ?case
    using v u by (intro exI [of _ "sts1 @ sts2"] exI [of _ u]) simp
qed (simp add: cancelled_in_def)

lemma cancel_idle_run:
  assumes steady: "steady_clock (rt_services rt)" and ok: "store_ok (w_store w)"
    and run: "dict_get (st_workflow_runs (w_store w)) run_id = Some run"
    "wr_status run \<in> {W_PENDING, W_RUNNING, W_CANCELLATION_REQUESTED}"
    and idle: "\<And>i t. dict_get (st_task_runs (w_store w)) i = Some t \<Longrightarrow> tr_workflow_run_id t = run_id \<Longrightarrow>
      idle_task (w_store w) t"
  shows "\<exists>r v run'. cancel_run rt run_id w = (Inr r, v) \<and> cn_status r = CS_CONFIRMED \<and>
    dict_get (st_workflow_runs (w_store v)) run_id = Some run' \<and> wr_status run' = W_CANCELLED \<and>
    (\<forall>i t. dict_get (st_task_runs (w_store w)) i = Some t \<and> tr_workflow_run_id t = run_id \<longrightarrow>
       (if unstarted t then \<exists>t'. dict_get (st_task_runs (w_store v)) i = Some t' \<and> tr_status t' = T_CANCELLED
        else dict_get (st_task_runs (w_store v)) i = Some t))"
proof -
  let ?sv = "rt_services rt"
  have rid: "wr_run_id run = run_id" and valid: "valid_workflow_run run" using store_okD(5) [OF ok run(1)] by blast+
  have "\<exists>run1 w1. (if wr_status run \<noteq> W_CANCELLATION_REQUESTED
      then bindA (transition_workflow ?sv run W_CANCELLATION_REQUESTED None) (\<lambda>_. ret ()) else ret ()) w = (Inr (), w1) \<and>
    store_ok (w_store w1) \<and> wr_status run1 = W_CANCELLATION_REQUESTED \<and> wr_run_id run1 = run_id \<and>
    dict_get (st_workflow_runs (w_store w1)) run_id = Some run1 \<and>
    st_task_runs (w_store w1) = st_task_runs (w_store w) \<and> st_task_attempts (w_store w1) = st_task_attempts (w_store w)"
  proof (cases "wr_status run = W_CANCELLATION_REQUESTED")
    case True
    then show ?thesis using run ok rid by auto
  next
    case False
    then have "W_CANCELLATION_REQUESTED \<in> workflow_transitions (wr_status run)" using run(2) by auto
    with transition_workflow_succeeds [OF steady ok, of run W_CANCELLATION_REQUESTED None] run(1) rid False
    show ?thesis by (auto simp: bindA_def dict_get_set)
  qed
  then obtain run1 w1 where w1: "(if wr_status run \<noteq> W_CANCELLATION_REQUESTED
      then bindA (transition_workflow ?sv run W_CANCELLATION_REQUESTED None) (\<lambda>_. ret ()) else ret ()) w = (Inr (), w1)"
    "store_ok (w_store w1)" "wr_status run1 = W_CANCELLATION_REQUESTED" "wr_run_id run1 = run_id"
    "dict_get (st_workflow_runs (w_store w1)) run_id = Some run1"
    "st_task_runs (w_store w1) = st_task_runs (w_store w)" "st_task_attempts (w_store w1) = st_task_attempts (w_store w)"
    by blast
  let ?ts = "sort_key (\<lambda>t. (tr_task_key t, tid_str (tr_task_run_id t)))
      (filter (\<lambda>t. tr_workflow_run_id t = run_id) (dict_values (st_task_runs (w_store w))))"
  have listed: "in_store (list_task_runs run_id) w1 = (Inr ?ts, w1)"
    using list_task_runs_ok [OF w1(2)] w1(6) by (simp add: in_store_Inr_iff)
  have members: "t \<in> set ?ts \<longleftrightarrow> dict_get (st_task_runs (w_store w)) (tr_task_run_id t) = Some t \<and> tr_workflow_run_id t = run_id" for t
    using dict_values_set [OF store_okD(3) [OF ok]] store_okD(6) [OF ok] by auto
  have "distinct (map tr_task_run_id (dict_values (st_task_runs (w_store w))))"
  proof -
    have "map tr_task_run_id (dict_values (st_task_runs (w_store w))) = map fst (st_task_runs (w_store w))"
      using store_okD(6) [OF ok] dict_get_iff [OF store_okD(3) [OF ok]] by (auto simp: dict_values_def)
    then show ?thesis using store_okD(3) [OF ok] by (simp add: dict_ok_def)
  qed
  then have "distinct (map tr_task_run_id (filter (\<lambda>t. tr_workflow_run_id t = run_id) (dict_values (st_task_runs (w_store w)))))"
    by (rule distinct_map_filter)
  then have "distinct (map tr_task_run_id ?ts)"
    by (simp add: distinct_map)
  moreover have "\<forall>t \<in> set ?ts. dict_get (st_task_runs (w_store w1)) (tr_task_run_id t) = Some t \<and> idle_task (w_store w1) t"
    using members idle idle_task_cong [OF w1(7)] w1(6) by metis
  ultimately obtain sts w2 where w2: "foldA (cancel_member rt) ?ts [] w1 = (Inr sts, w2)"
    "set sts \<subseteq> {CS_CONFIRMED, CS_ALREADY_TERMINAL}" "store_ok (w_store w2)" "cancelled_in ?ts (w_store w1) (w_store w2)"
    using cancel_members_idle [OF steady w1(2), of ?ts "[]"] by auto
  have run2: "dict_get (st_workflow_runs (w_store w2)) run_id = Some run1" using w2(4) w1(5) by (simp add: cancelled_in_def)
  have get2: "in_store (get_workflow_run run_id) w2 = (Inr run1, w2)"
    using run2 store_okD(5) [OF w2(3) run2] by (auto simp: in_store_Inr_iff get_workflow_run_Inr)
  obtain run' v where v: "transition_workflow ?sv run1 W_CANCELLED None w2 = (Inr run', v)" "wr_status run' = W_CANCELLED"
    "st_workflow_runs (w_store v) = dict_set run_id run' (st_workflow_runs (w_store w2))"
    "st_task_runs (w_store v) = st_task_runs (w_store w2)"
    using transition_workflow_succeeds [OF steady w2(3), of run1 W_CANCELLED None] run2 w1(3,4) by auto
  have get: "in_store (get_workflow_run run_id) w = (Inr run, w)"
    using run(1) valid by (simp add: in_store_Inr_iff get_workflow_run_Inr)
  have live: "(wr_status run \<in> {W_SUCCEEDED, W_FAILED, W_CANCELLED, W_TIMED_OUT}) = False"
      "(wr_status run = W_UNKNOWN_OUTCOME) = False"
    using run(2) by auto
  have step: "bindA (transition_workflow ?sv run1 W_CANCELLED None) (\<lambda>_. ret ()) w2 = (Inr (), v)"
    using v(1) by simp
  have none: "CS_UNCONFIRMED \<notin> set sts" "CS_REQUESTED \<notin> set sts" "CS_UNSUPPORTED \<notin> set sts" using w2(2) by auto
  have reason: "\<not> blank ''workflow_cancellation_confirmed''" by code_simp
  have "cancel_run rt run_id w = (Inr \<lparr>cn_status = CS_CONFIRMED, cn_workflow_run_id = run_id,
      cn_task_run_id = None, cn_attempt_id = None, cn_reason = ''workflow_cancellation_confirmed''\<rparr>, v)"
    unfolding cancel_run_def Let_def
    by (simp only: bindA_Inr thenA_Inr get live if_False w1(1) listed w2(1) get2 none w1(3) refl if_True step
        cancellation_returns [OF reason])
  moreover have "if unstarted t then \<exists>t'. dict_get (st_task_runs (w_store v)) i = Some t' \<and> tr_status t' = T_CANCELLED
        else dict_get (st_task_runs (w_store v)) i = Some t"
    if "dict_get (st_task_runs (w_store w)) i = Some t" "tr_workflow_run_id t = run_id" for i t
  proof -
    have "tr_task_run_id t = i" using store_okD(6) [OF ok that(1)] by blast
    with that members [of t] have "t \<in> set ?ts" by simp
    moreover have "\<forall>t \<in> set ?ts. if unstarted t
        then (\<exists>t'. dict_get (st_task_runs (w_store w2)) (tr_task_run_id t) = Some t' \<and> tr_status t' = T_CANCELLED)
        else dict_get (st_task_runs (w_store w2)) (tr_task_run_id t) = Some t"
      using w2(4) unfolding cancelled_in_def by (elim conjE)
    ultimately show ?thesis using \<open>tr_task_run_id t = i\<close> unfolding v(4) by blast
  qed
  moreover have "dict_get (st_workflow_runs (w_store v)) run_id = Some run'" using v(3) by (simp add: dict_get_set)
  ultimately show ?thesis using v(2)
    by (intro exI [of _ v] exI [of _ run'] exI conjI allI impI) (assumption | simp)+
qed

text \<open>C6: Cancelling a run that is pending, running or already asked to cancel, and none of whose tasks is
  in progress, gets there on a consistent store as long as nobody interferes: if the clock answers an aware time and no
  other thread writes to the store while it is read (\<open>steady_clock\<close>), the answer is CONFIRMED, the
  run ends up cancelled, and so does every task that had not started, while finished tasks stay as
  they are.  A write that races with the call is outside this property: it can make one of the
  compare-and-set updates raise a conflict, and the call ends there.\<close>
theorem cancel_unstarted_run:
  assumes "steady_clock (rt_services rt)" "store_ok (w_store w)"
    and "dict_get (st_workflow_runs (w_store w)) run_id = Some run"
      "wr_status run \<in> {W_PENDING, W_RUNNING, W_CANCELLATION_REQUESTED}"
    and "\<And>i t. dict_get (st_task_runs (w_store w)) i = Some t \<Longrightarrow> tr_workflow_run_id t = run_id \<Longrightarrow>
      tr_status t \<in> {T_PENDING, T_READY, T_BLOCKED} \<union> TASK_RUN_TERMINAL_STATUSES"
  shows "\<exists>r v run'. cancel_run rt run_id w = (Inr r, v) \<and> cn_status r = CS_CONFIRMED \<and>
    dict_get (st_workflow_runs (w_store v)) run_id = Some run' \<and> wr_status run' = W_CANCELLED \<and>
    (\<forall>i t. dict_get (st_task_runs (w_store w)) i = Some t \<and> tr_workflow_run_id t = run_id \<longrightarrow>
       (if tr_status t \<in> {T_PENDING, T_READY, T_BLOCKED}
        then \<exists>t'. dict_get (st_task_runs (w_store v)) i = Some t' \<and> tr_status t' = T_CANCELLED
        else dict_get (st_task_runs (w_store v)) i = Some t))"
proof (rule cancel_idle_run [OF assms(1-4)])
  fix i t assume "dict_get (st_task_runs (w_store w)) i = Some t" "tr_workflow_run_id t = run_id"
  from assms(5) [OF this] show "idle_task (w_store w) t" by (auto simp: idle_task_def)
qed

text \<open>Cancellation misses a task that is between two attempts, waiting for its retry delay: with its
  last attempt already over, the cancellation of the run is answered with CONFIRMED and the run is
  recorded as cancelled, yet the task stays running, and nothing keeps its next attempt from
  starting.\<close>
theorem cancel_misses_waiting_task:
  assumes "steady_clock (rt_services rt)" "store_ok (w_store w)"
    and "dict_get (st_workflow_runs (w_store w)) run_id = Some run" "wr_status run = W_RUNNING"
    and "\<And>i t. dict_get (st_task_runs (w_store w)) i = Some t \<Longrightarrow> tr_workflow_run_id t = run_id \<Longrightarrow>
      tr_task_run_id t = tid"
    and "dict_get (st_task_runs (w_store w)) tid = Some t" "tr_workflow_run_id t = run_id" "tr_status t = T_RUNNING"
    and "attempts_of tid (w_store w) \<noteq> []" "ta_status (last (attempts_of tid (w_store w))) = A_FAILED"
  shows "\<exists>r v run'. cancel_run rt run_id w = (Inr r, v) \<and> cn_status r = CS_CONFIRMED \<and>
    dict_get (st_workflow_runs (w_store v)) run_id = Some run' \<and> wr_status run' = W_CANCELLED \<and>
    dict_get (st_task_runs (w_store v)) tid = Some t"
proof -
  have id: "tr_task_run_id t = tid" by (rule assms(5) [OF assms(6,7)])
  have "idle_task (w_store w) u"
    if "dict_get (st_task_runs (w_store w)) i = Some u" "tr_workflow_run_id u = run_id" for i u
  proof -
    have "tr_task_run_id u = tid" "tr_task_run_id u = i"
      using assms(5) [OF that] store_okD(6) [OF assms(2) that(1)] by blast+
    with that(1) assms(6) have "u = t" by simp
    then show ?thesis using assms(8-10) id by (simp add: idle_task_def between_attempts_def terminal_defs)
  qed
  with cancel_idle_run [OF assms(1-3), of] assms(4)
  obtain r v run' where v: "cancel_run rt run_id w = (Inr r, v)" "cn_status r = CS_CONFIRMED"
    "dict_get (st_workflow_runs (w_store v)) run_id = Some run'" "wr_status run' = W_CANCELLED"
    "\<forall>i t. dict_get (st_task_runs (w_store w)) i = Some t \<and> tr_workflow_run_id t = run_id \<longrightarrow>
       (if unstarted t then \<exists>t'. dict_get (st_task_runs (w_store v)) i = Some t' \<and> tr_status t' = T_CANCELLED
        else dict_get (st_task_runs (w_store v)) i = Some t)" by blast
  have "dict_get (st_task_runs (w_store v)) tid = Some t"
    using v(5) [rule_format, of tid t] assms(6-8) by simp
  with v(1-4) show ?thesis by blast
qed

section \<open>Outcomes that cannot be recorded\<close>

text \<open>A running run or attempt cannot be recorded as cancelled, and two paths try: when the attempt
  of a task was cancelled while its run is still running, and when an executor reports a running
  attempt as failed in the category CANCELLED.  Neither path ever completes, whatever the services
  do: an exception leaves the runtime and the run is left unfinished.\<close>
theorem running_never_settles_as_cancelled:
  "(wr_status (xs_run st) = W_RUNNING \<longrightarrow> settle_cancelled sv st current w \<noteq> (Inr outcome, v)) \<and>
   (ta_status attempt = A_RUNNING \<and> fe_category failure = F_CANCELLED \<longrightarrow>
      settle_known_failure sv st entry current attempt failure e w \<noteq> (Inr outcome', v'))"
proof (intro conjI impI notI)
  assume "wr_status (xs_run st) = W_RUNNING" "settle_cancelled sv st current w = (Inr outcome, v)"
  then show False
    by (auto simp: settle_cancelled_def transition_workflow_def workflow_transition_Inr elim!: bindA_okE thenA_okE)
next
  assume "ta_status attempt = A_RUNNING \<and> fe_category failure = F_CANCELLED"
    "settle_known_failure sv st entry current attempt failure e w = (Inr outcome', v')"
  then show False
    by (auto simp: settle_known_failure_def transition_attempt_def attempt_transition_Inr elim!: bindA_okE thenA_okE)
qed

text \<open>A task whose output was reused is terminal, but cancelling it is answered as if it were
  running without an attempt: UNCONFIRMED instead of ALREADY_TERMINAL.\<close>
theorem cancel_reused_task_misreported:
  assumes "store_ok (w_store w)" "dict_get (st_task_runs (w_store w)) tid = Some t" "tr_status t = T_REUSED"
    and "attempts_of tid (w_store w) = []"
  shows "\<exists>r. cancel_task rt tid w = (Inr r, w) \<and> cn_status r = CS_UNCONFIRMED \<and>
    cn_reason r = ''running_task_has_no_persisted_attempt''"
proof -
  have reason: "\<not> blank ''running_task_has_no_persisted_attempt''" by code_simp
  have t: "tr_task_run_id t = tid" "in_store (get_task_run tid) w = (Inr t, w)"
    using assms(2) store_okD(6) [OF assms(1,2)] by (auto simp: in_store_Inr_iff get_task_run_Inr)
  moreover have "in_store (list_task_attempts tid) w = (Inr [], w)"
    using list_task_attempts_ok [OF assms(1), of tid] assms(4) by (simp add: in_store_Inr_iff)
  ultimately show ?thesis
    using assms(3) cancellation_returns [OF reason] by (simp add: cancel_task_def cancel_running_task_def Let_def)
qed


section \<open>Concrete instances\<close>

lemma sample_steady [simp]: "steady_clock sample_services"
  by (simp add: steady_clock_def sample_services_def)

definition pending_world :: world where
  "pending_world = empty_world\<lparr>w_store := store_with_task\<rparr>"

definition failed_world :: world where
  "failed_world = snd (bindA sample_prepare (\<lambda>t. bindA (start_attempt sample_services t) (\<lambda>a.
     transition_attempt sample_services a A_FAILED None)) empty_world)"

definition reused_world :: world where
  "reused_world = snd (transition_task sample_services sample_task_run T_REUSED None None pending_world)"

lemma cancel_worlds_ok:
  "store_ok (w_store pending_world)" "store_ok (w_store failed_world)" "store_ok (w_store reused_world)"
proof -
  show p: "store_ok (w_store pending_world)" by (simp add: pending_world_def store_with_task_ok)
  have "maintains lawful (bindA sample_prepare (\<lambda>t. bindA (start_attempt sample_services t) (\<lambda>a.
      transition_attempt sample_services a A_FAILED None)))"
    by (intro law.combinators lawful_intros sample_services_lawful)
  then have "lawful empty_world failed_world" by (simp add: maintains_def failed_world_def)
  then show "store_ok (w_store failed_world)" using lawful_ok by (simp add: empty_world_def empty_store_ok)
  have "lawful pending_world reused_world"
    using transition_task_lawful [OF sample_services_lawful] by (simp add: maintains_def reused_world_def)
  then show "store_ok (w_store reused_world)" using lawful_ok p by blast
qed

theorem cancel_unstarted_run_witness:
  "\<exists>r v run'. cancel_run sample_runtime (WorkflowRunId ''run'') pending_world = (Inr r, v) \<and>
    cn_status r = CS_CONFIRMED \<and> dict_get (st_workflow_runs (w_store v)) (WorkflowRunId ''run'') = Some run' \<and>
    wr_status run' = W_CANCELLED"
proof -
  have tables: "st_workflow_runs (w_store pending_world) = [(WorkflowRunId ''run'', sample_run)]"
    "st_task_runs (w_store pending_world) = [(TaskRunId ''task'', sample_task_run)]"
    "wr_status sample_run = W_PENDING" "tr_status sample_task_run = T_PENDING"
    by code_simp+
  have "\<exists>r v run'. cancel_run sample_runtime (WorkflowRunId ''run'') pending_world = (Inr r, v) \<and> cn_status r = CS_CONFIRMED \<and>
    dict_get (st_workflow_runs (w_store v)) (WorkflowRunId ''run'') = Some run' \<and> wr_status run' = W_CANCELLED \<and>
    (\<forall>i t. dict_get (st_task_runs (w_store pending_world)) i = Some t \<and> tr_workflow_run_id t = WorkflowRunId ''run'' \<longrightarrow>
       (if tr_status t \<in> {T_PENDING, T_READY, T_BLOCKED}
        then \<exists>t'. dict_get (st_task_runs (w_store v)) i = Some t' \<and> tr_status t' = T_CANCELLED
        else dict_get (st_task_runs (w_store v)) i = Some t))"
    by (rule cancel_unstarted_run [where run = sample_run])
      (simp_all add: cancel_worlds_ok tables split: if_splits)
  then show ?thesis by blast
qed

theorem cancel_misses_waiting_task_witness:
  "\<exists>r v t. cancel_run sample_runtime (WorkflowRunId ''run'') failed_world = (Inr r, v) \<and>
    cn_status r = CS_CONFIRMED \<and> dict_get (st_task_runs (w_store v)) (TaskRunId ''task'') = Some t \<and>
    tr_status t = T_RUNNING"
proof -
  have tables: "st_workflow_runs (w_store failed_world) = [(WorkflowRunId ''run'', busy_run)]"
    "st_task_runs (w_store failed_world) = [(TaskRunId ''task'', busy_task)]"
    "wr_status busy_run = W_RUNNING" "tr_status busy_task = T_RUNNING" "tr_task_run_id busy_task = TaskRunId ''task''"
    "tr_workflow_run_id busy_task = WorkflowRunId ''run''"
    "map ta_status (attempts_of (TaskRunId ''task'') (w_store failed_world)) = [A_FAILED]"
    by code_simp+
  from tables(7) obtain a where a: "attempts_of (TaskRunId ''task'') (w_store failed_world) = [a]" "ta_status a = A_FAILED"
    by auto
  have "\<exists>r v run'. cancel_run sample_runtime (WorkflowRunId ''run'') failed_world = (Inr r, v) \<and> cn_status r = CS_CONFIRMED \<and>
    dict_get (st_workflow_runs (w_store v)) (WorkflowRunId ''run'') = Some run' \<and> wr_status run' = W_CANCELLED \<and>
    dict_get (st_task_runs (w_store v)) (TaskRunId ''task'') = Some busy_task"
    by (rule cancel_misses_waiting_task [where run = busy_run])
      (simp_all add: cancel_worlds_ok tables(1-6) a split: if_splits)
  then show ?thesis using tables(4) by blast
qed

theorem running_never_settles_as_cancelled_witness:
  "\<forall>outcome v. settle_cancelled sample_services start_state busy_task busy_world \<noteq> (Inr outcome, v)"
proof (intro allI)
  fix outcome v
  have "wr_status (xs_run start_state) = W_RUNNING" by code_simp
  with running_never_settles_as_cancelled [of start_state sample_services busy_task busy_world outcome v]
  show "settle_cancelled sample_services start_state busy_task busy_world \<noteq> (Inr outcome, v)" by blast
qed

theorem cancel_reused_task_misreported_witness:
  "\<exists>r. cancel_task sample_runtime (TaskRunId ''task'') reused_world = (Inr r, reused_world) \<and>
    cn_status r = CS_UNCONFIRMED"
proof -
  have "map (\<lambda>p. (fst p, tr_status (snd p))) (st_task_runs (w_store reused_world)) = [(TaskRunId ''task'', T_REUSED)]"
    "attempts_of (TaskRunId ''task'') (w_store reused_world) = []"
    by code_simp+
  then obtain t where "st_task_runs (w_store reused_world) = [(TaskRunId ''task'', t)]" "tr_status t = T_REUSED"
    by (auto simp: map_eq_Cons_conv)
  then show ?thesis
    using cancel_reused_task_misreported [OF cancel_worlds_ok(3), of "TaskRunId ''task''" t sample_runtime]
      \<open>attempts_of (TaskRunId ''task'') (w_store reused_world) = []\<close> by auto
qed

end
