(* ===== verification/Reconciling.thy ===== *)
theory Reconciling
  imports Cancelling
begin

text \<open>
  What recovery concludes and does.  The assessment is a function of the evidence in the store; a
  task is settled from outside only on unanimous conclusive observations, and otherwise left as it
  is; a run whose tasks are all finished is closed with the status its tasks dictate, when the
  state machine has that transition, and is refused otherwise.
\<close>

section \<open>Assessment\<close>

lemma mapA_pure:
  "(\<And>x. x \<in> set xs \<Longrightarrow> f x s = (Inr (g x), s)) \<Longrightarrow> mapA f xs s = (Inr (map g xs), s)"
  by (induction xs) (simp_all add: bindA_def)

definition evidence_disposition :: "store \<Rightarrow> task_run \<Rightarrow> recovery_disposition" where
  "evidence_disposition s t =
     (let attempts = attempts_of (tr_task_run_id t) s in
      if tr_status t \<in> TASK_RUN_TERMINAL_STATUSES then RD_NO_ACTION
      else if attempts = [] then RD_READY
      else if ta_status (last attempts) \<in> TASK_ATTEMPT_TERMINAL_STATUSES then RD_REQUIRES_RECONCILIATION
      else if ta_attempt_id (last attempts) \<in> fst ` fst ` set (st_external_refs s)
      then RD_REQUIRES_RECONCILIATION
      else RD_MANUAL_REQUIRED)"

lemma refs_empty:
  assumes "list_external_run_refs aid s = (Inr refs, s)"
  shows "refs = [] \<longleftrightarrow> aid \<notin> fst ` fst ` set (st_external_refs s)"
proof -
  have "length refs = length (filter (\<lambda>p. fst (fst p) = aid) (st_external_refs s))"
    using assms by (auto simp: list_external_run_refs_def)
  then have "refs = [] \<longleftrightarrow> filter (\<lambda>p. fst (fst p) = aid) (st_external_refs s) = []"
    by (metis length_0_conv)
  then show ?thesis by (auto simp: filter_empty_conv image_image)
qed

lemma assess_task_verdict:
  assumes ok: "store_ok s" and t: "dict_get (st_task_runs s) (tr_task_run_id t) = Some t"
  shows "\<exists>a. assess_task (tr_task_run_id t) s = (Inr a, s) \<and> as_disposition a = evidence_disposition s t"
proof -
  let ?as = "attempts_of (tr_task_run_id t) s"
  have get: "get_task_run (tr_task_run_id t) s = (Inr t, s)"
    using t store_okD(6) [OF ok t] by (simp add: get_task_run_Inr)
  obtain refs where refs: "list_external_run_refs (ta_attempt_id (last ?as)) s = (Inr refs, s)"
    by (simp add: list_external_run_refs_def)
  show ?thesis
    using get list_task_attempts_ok [OF ok, of "tr_task_run_id t"] refs refs_empty [OF refs]
    by (cases "ta_status (last ?as)")
      (simp_all add: assess_task_def evidence_disposition_def task_verdict_def Let_def terminal_defs)
qed

text \<open>C9: Assessing a run always answers and changes nothing, and the answer is a function of the durable
  evidence: nothing to do for a finished run; manual action as soon as one unfinished task has a last
  attempt that is still open and no external run on record; reconciliation when one unfinished task
  has made an attempt at all; and ready exactly when no unfinished task has ever made an attempt.\<close>
theorem assessment_exact:
  assumes "store_ok s" "dict_get (st_workflow_runs s) run_id = Some run"
  shows "\<exists>a. assess run_id s = (Inr a, s) \<and> ra_disposition a =
    (if wr_status run \<in> WORKFLOW_TERMINAL_STATUSES then RD_NO_ACTION
     else if \<exists>i t. dict_get (st_task_runs s) i = Some t \<and> tr_workflow_run_id t = run_id \<and>
         tr_status t \<notin> TASK_RUN_TERMINAL_STATUSES \<and> attempts_of i s \<noteq> [] \<and>
         ta_status (last (attempts_of i s)) \<notin> TASK_ATTEMPT_TERMINAL_STATUSES \<and>
         ta_attempt_id (last (attempts_of i s)) \<notin> fst ` fst ` set (st_external_refs s)
     then RD_MANUAL_REQUIRED
     else if \<exists>i t. dict_get (st_task_runs s) i = Some t \<and> tr_workflow_run_id t = run_id \<and>
         tr_status t \<notin> TASK_RUN_TERMINAL_STATUSES \<and> attempts_of i s \<noteq> []
     then RD_REQUIRES_RECONCILIATION
     else RD_READY)"
proof -
  let ?ts = "sort_key (\<lambda>t. (tr_task_key t, tid_str (tr_task_run_id t)))
      (filter (\<lambda>t. tr_workflow_run_id t = run_id) (dict_values (st_task_runs s)))"
  have members: "t \<in> set ?ts \<longleftrightarrow> dict_get (st_task_runs s) (tr_task_run_id t) = Some t \<and> tr_workflow_run_id t = run_id" for t
    using dict_values_set [OF store_okD(3) [OF assms(1)]] store_okD(6) [OF assms(1)] by auto
  obtain f where f: "\<And>t. t \<in> set ?ts \<Longrightarrow> assess_task (tr_task_run_id t) s = (Inr (f t), s) \<and>
      as_disposition (f t) = evidence_disposition s t"
    using assess_task_verdict [OF assms(1)] members by metis
  have get: "get_workflow_run run_id s = (Inr run, s)"
    using assms(2) store_okD(5) [OF assms] by (simp add: get_workflow_run_Inr)
  have "mapA (\<lambda>t. assess_task (tr_task_run_id t)) ?ts s = (Inr (map f ?ts), s)"
    by (rule mapA_pure) (simp only: f)
  moreover have "map as_disposition (map f ?ts) = map (evidence_disposition s) ?ts" using f by simp
  ultimately have "\<exists>a. assess run_id s = (Inr a, s) \<and>
      ra_disposition a = fst (assess_verdict (wr_status run) (map (evidence_disposition s) ?ts))"
    using get list_task_runs_ok [OF assms(1), of run_id]
    by (simp only: assess_def bindA_Inr) (simp split: prod.splits)
  moreover have "RD_MANUAL_REQUIRED \<in> set (map (evidence_disposition s) ?ts) \<longleftrightarrow>
      (\<exists>i t. dict_get (st_task_runs s) i = Some t \<and> tr_workflow_run_id t = run_id \<and>
         tr_status t \<notin> TASK_RUN_TERMINAL_STATUSES \<and> attempts_of i s \<noteq> [] \<and>
         ta_status (last (attempts_of i s)) \<notin> TASK_ATTEMPT_TERMINAL_STATUSES \<and>
         ta_attempt_id (last (attempts_of i s)) \<notin> fst ` fst ` set (st_external_refs s))" (is "_ \<longleftrightarrow> ?M")
  proof
    assume "RD_MANUAL_REQUIRED \<in> set (map (evidence_disposition s) ?ts)"
    then obtain t where t: "t \<in> set ?ts" "evidence_disposition s t = RD_MANUAL_REQUIRED" by auto
    then show ?M using members [of t]
      by (intro exI [of _ "tr_task_run_id t"] exI [of _ t])
        (auto simp: evidence_disposition_def Let_def split: if_splits)
  next
    assume ?M
    then obtain i t where t: "dict_get (st_task_runs s) i = Some t" "tr_workflow_run_id t = run_id"
      "tr_status t \<notin> TASK_RUN_TERMINAL_STATUSES" "attempts_of i s \<noteq> []"
      "ta_status (last (attempts_of i s)) \<notin> TASK_ATTEMPT_TERMINAL_STATUSES"
      "ta_attempt_id (last (attempts_of i s)) \<notin> fst ` fst ` set (st_external_refs s)" by blast
    have i: "tr_task_run_id t = i" using store_okD(6) [OF assms(1) t(1)] by blast
    then have "t \<in> set ?ts" using members [of t] t(1,2) by simp
    moreover have "evidence_disposition s t = RD_MANUAL_REQUIRED"
      using t i by (auto simp: evidence_disposition_def Let_def)
    ultimately show "RD_MANUAL_REQUIRED \<in> set (map (evidence_disposition s) ?ts)" by (force simp del: set_sort)
  qed
  moreover have "RD_REQUIRES_RECONCILIATION \<in> set (map (evidence_disposition s) ?ts) \<or>
      RD_MANUAL_REQUIRED \<in> set (map (evidence_disposition s) ?ts) \<longleftrightarrow>
      (\<exists>i t. dict_get (st_task_runs s) i = Some t \<and> tr_workflow_run_id t = run_id \<and>
         tr_status t \<notin> TASK_RUN_TERMINAL_STATUSES \<and> attempts_of i s \<noteq> [])" (is "_ \<longleftrightarrow> ?R")
  proof
    assume "RD_REQUIRES_RECONCILIATION \<in> set (map (evidence_disposition s) ?ts) \<or>
      RD_MANUAL_REQUIRED \<in> set (map (evidence_disposition s) ?ts)"
    then obtain t where t: "t \<in> set ?ts" "evidence_disposition s t \<in> {RD_REQUIRES_RECONCILIATION, RD_MANUAL_REQUIRED}"
      by auto
    then show ?R using members [of t]
      by (intro exI [of _ "tr_task_run_id t"] exI [of _ t])
        (auto simp: evidence_disposition_def Let_def split: if_splits)
  next
    assume ?R
    then obtain i t where t: "dict_get (st_task_runs s) i = Some t" "tr_workflow_run_id t = run_id"
      "tr_status t \<notin> TASK_RUN_TERMINAL_STATUSES" "attempts_of i s \<noteq> []" by blast
    have i: "tr_task_run_id t = i" using store_okD(6) [OF assms(1) t(1)] by blast
    then have "t \<in> set ?ts" using members [of t] t(1,2) by simp
    moreover have "evidence_disposition s t \<in> {RD_REQUIRES_RECONCILIATION, RD_MANUAL_REQUIRED}"
      using t i by (auto simp: evidence_disposition_def Let_def)
    ultimately show "RD_REQUIRES_RECONCILIATION \<in> set (map (evidence_disposition s) ?ts) \<or>
      RD_MANUAL_REQUIRED \<in> set (map (evidence_disposition s) ?ts)" by (force simp del: set_sort)
  qed
  ultimately show ?thesis by (auto simp: assess_verdict_def)
qed


section \<open>Settling a task from outside\<close>

lemma resolve_attempt_and_task_stored:
  assumes sv: "lawful_services sv" and ok: "store_ok (w_store w)"
    and run: "resolve_attempt_and_task sv t a attempt_status task_status failure w = (Inr (), v)"
    and live: "ta_status a \<notin> TASK_ATTEMPT_TERMINAL_STATUSES" "attempt_status \<in> TASK_ATTEMPT_TERMINAL_STATUSES"
  shows "\<exists>a' t'. dict_get (st_task_attempts (w_store v)) (ta_attempt_id a) = Some a' \<and> ta_status a' = attempt_status \<and>
    dict_get (st_task_runs (w_store v)) (tr_task_run_id t) = Some t' \<and> tr_status t' = task_status"
proof -
  have "ta_status a \<noteq> attempt_status" using live by blast
  with run obtain a' w1 t1 w2 where a': "transition_attempt sv a attempt_status failure w = (Inr a', w1)"
    and t1: "in_store (get_task_run (tr_task_run_id t)) w1 = (Inr t1, w2)"
    and rest: "(if tr_status t1 \<noteq> task_status
        then bindA (transition_task sv t1 task_status None failure) (\<lambda>_. ret ()) else ret ()) w2 = (Inr (), v)"
    unfolding resolve_attempt_and_task_def by (auto elim!: bindA_okE thenA_okE)
  note stored = transition_attempt_stored [OF sv ok a']
  have ok1: "store_ok (w_store w1)"
    by (rule lawful_ok [OF transition_attempt_lawful [OF sv, THEN maintainsD, OF a'] ok])
  have w2: "w2 = w1" and t1': "dict_get (st_task_runs (w_store w1)) (tr_task_run_id t) = Some t1"
    using t1 by (auto simp: in_store_Inr_iff get_task_run_Inr)
  have id: "tr_task_run_id t1 = tr_task_run_id t" using store_okD(6) [OF ok1 t1'] by blast
  show ?thesis
  proof (cases "tr_status t1 = task_status")
    case True
    then show ?thesis using rest w2 stored t1' by auto
  next
    case False
    then obtain t2 where t2: "transition_task sv t1 task_status None failure w1 = (Inr t2, v)"
      using rest w2 by (auto elim!: bindA_okE)
    have l: "lawful w1 v" by (rule transition_task_lawful [OF sv, THEN maintainsD, OF t2])
    from stored_attempt_kept [OF l ok1 conjunct1 [OF stored]] stored live(2)
    have "dict_get (st_task_attempts (w_store v)) (ta_attempt_id a) = Some a'" by metis
    with transition_task_stored [OF sv ok1 t2] stored id show ?thesis by auto
  qed
qed

lemma apply_provider_truth_stored:
  assumes sv: "lawful_services sv" and ok: "store_ok (w_store w)"
    and run: "apply_provider_truth sv t a ref x w = (Inr (Some d), v)"
    and live: "ta_status a \<notin> TASK_ATTEMPT_TERMINAL_STATUSES"
  shows "\<exists>a' t'. dict_get (st_task_attempts (w_store v)) (ta_attempt_id a) = Some a' \<and>
    dict_get (st_task_runs (w_store v)) (tr_task_run_id t) = Some t' \<and>
    (x, d, ta_status a', tr_status t') \<in> {(X_SUCCEEDED, RC_SUCCEEDED, A_SUCCEEDED, T_SUCCEEDED),
      (X_FAILED, RC_FAILED, A_FAILED, T_FAILED), (X_CANCELLED, RC_CANCELLED, A_CANCELLED, T_CANCELLED)}"
proof -
  have failure: "store_ok (w_store w1)" if "reconciled_failure sv t a ref c w = (Inr f, w1)" for c f w1
    using lawful_ok [OF resolve_lawful(2) [OF sv, THEN maintainsD, OF that] ok] .
  have "\<exists>ast tst f w1. store_ok (w_store w1) \<and> resolve_attempt_and_task sv t a ast tst f w1 = (Inr (), v) \<and>
      (x, d, ast, tst) \<in> {(X_SUCCEEDED, RC_SUCCEEDED, A_SUCCEEDED, T_SUCCEEDED),
        (X_FAILED, RC_FAILED, A_FAILED, T_FAILED), (X_CANCELLED, RC_CANCELLED, A_CANCELLED, T_CANCELLED)}"
    using run ok failure
    by (cases x) (auto simp: apply_provider_truth_def elim!: bindA_okE thenA_okE, blast+)
  then obtain ast tst f w1 where r: "store_ok (w_store w1)" "resolve_attempt_and_task sv t a ast tst f w1 = (Inr (), v)"
    "(x, d, ast, tst) \<in> {(X_SUCCEEDED, RC_SUCCEEDED, A_SUCCEEDED, T_SUCCEEDED),
        (X_FAILED, RC_FAILED, A_FAILED, T_FAILED), (X_CANCELLED, RC_CANCELLED, A_CANCELLED, T_CANCELLED)}" by blast
  from r(3) have "ast \<in> TASK_ATTEMPT_TERMINAL_STATUSES" by (auto simp: terminal_defs)
  from resolve_attempt_and_task_stored [OF sv r(1,2) live this] r(3) show ?thesis by auto
qed

lemma reconcile_task_start:
  assumes "store_ok (w_store w)" "reconcile_task rt tid w = (Inr rec, v)" "attempts_of tid (w_store w) \<noteq> []"
    "ta_status (last (attempts_of tid (w_store w))) \<notin> TASK_ATTEMPT_TERMINAL_STATUSES"
  obtains t refs where "tr_task_run_id t = tid"
    "in_store (list_external_run_refs (ta_attempt_id (last (attempts_of tid (w_store w))))) w = (Inr refs, w)"
    "(if refs = [] then ret (reconciliation t (Some (last (attempts_of tid (w_store w)))) RC_MANUAL_REQUIRED []
        ''no_external_reconciliation_evidence'')
      else reconcile_by_provider rt t (last (attempts_of tid (w_store w))) refs) w = (Inr rec, v)"
proof -
  let ?a = "last (attempts_of tid (w_store w))"
  from assms(2) obtain t w1 w2 w3 attempts where t: "in_store (get_task_run tid) w = (Inr t, w1)"
    and l: "in_store (list_task_attempts tid) w1 = (Inr attempts, w2)"
    and rest: "(if attempts = [] then ret (reconciliation t None RC_NO_ACTION [] ''task_has_not_started_an_attempt'')
     else
       (if ta_status (last attempts) \<in> TASK_ATTEMPT_TERMINAL_STATUSES then
          bindA (repair_task (rt_services rt) t (last attempts)) (\<lambda>disposition.
          ret (reconciliation t (Some (last attempts)) disposition [] ''terminal_attempt_is_durable_authority''))
        else
          bindA (in_store (list_external_run_refs (ta_attempt_id (last attempts)))) (\<lambda>refs.
          if refs = [] then ret (reconciliation t (Some (last attempts)) RC_MANUAL_REQUIRED []
            ''no_external_reconciliation_evidence'')
          else reconcile_by_provider rt t (last attempts) refs))) w2 = (Inr rec, v)"
    unfolding reconcile_task_def by (auto elim!: bindA_okE)
  have w1: "w1 = w" and t': "dict_get (st_task_runs (w_store w)) tid = Some t"
    using t by (auto simp: in_store_Inr_iff get_task_run_Inr)
  have w2: "w2 = w" "attempts = attempts_of tid (w_store w)"
    using l list_task_attempts_ok [OF assms(1), of tid] by (auto simp: in_store_Inr_iff w1)
  obtain refs where refs: "in_store (list_external_run_refs (ta_attempt_id ?a)) w = (Inr refs, w)"
    by (simp add: in_store_Inr_iff list_external_run_refs_def)
  have "tr_task_run_id t = tid" using store_okD(6) [OF assms(1) t'] by blast
  then show thesis
    using rest w2 assms(3,4) refs by (intro that [OF _ refs]) (auto split: if_splits)
qed

text \<open>C7: An open attempt is settled from outside only on unanimous conclusive evidence: when its
  reconciliation resolves it, there were observations, all of them report the same final status, and
  the attempt and its task are recorded with exactly that status.\<close>
theorem provider_truth_is_unanimous:
  assumes "lawful_services (rt_services rt)" "store_ok (w_store w)"
    and "attempts_of tid (w_store w) \<noteq> []" "last (attempts_of tid (w_store w)) = a"
      "ta_status a \<notin> TASK_ATTEMPT_TERMINAL_STATUSES"
    and "reconcile_task rt tid w = (Inr rec, v)" "\<not> unresolved rec"
  shows "\<exists>x a' t'. tc_observations rec \<noteq> [] \<and> ob_status ` set (tc_observations rec) = {x} \<and>
    dict_get (st_task_attempts (w_store v)) (ta_attempt_id a) = Some a' \<and>
    dict_get (st_task_runs (w_store v)) tid = Some t' \<and>
    (x, tc_disposition rec, ta_status a', tr_status t') \<in> {(X_SUCCEEDED, RC_SUCCEEDED, A_SUCCEEDED, T_SUCCEEDED),
      (X_FAILED, RC_FAILED, A_FAILED, T_FAILED), (X_CANCELLED, RC_CANCELLED, A_CANCELLED, T_CANCELLED)}"
proof -
  from reconcile_task_start [OF assms(2,6,3)] assms(4,5)
  obtain t refs where id: "tr_task_run_id t = tid"
    and "(if refs = [] then ret (reconciliation t (Some a) RC_MANUAL_REQUIRED []
        ''no_external_reconciliation_evidence'')
      else reconcile_by_provider rt t a refs) w = (Inr rec, v)" by metis
  then have run: "reconcile_by_provider rt t a refs w = (Inr rec, v)"
    using assms(7) by (auto simp: unresolved_def reconciliation_def split: if_splits)
  then obtain obs w1 where obs: "mapA (observe rt) refs w = (Inr obs, w1)"
    unfolding reconcile_by_provider_def by (auto elim!: bindA_okE)
  let ?ss = "remdups (map ob_status obs)"
  have ok1: "store_ok (w_store w1)"
    using lawful_ok [OF law.mapA [OF observe_lawful [OF assms(1)], THEN maintainsD, OF obs] assms(2)] .
  have one: "length ?ss = 1" and answer: "\<exists>d. apply_provider_truth (rt_services rt) t a (hd refs) (hd ?ss) w1 = (Inr (Some d), v) \<and>
      tc_disposition rec = d \<and> tc_observations rec = obs"
    using run obs assms(7)
    by (auto simp: reconcile_by_provider_def Let_def unresolved_def reconciliation_def bindA_def
        split: if_splits sum.splits prod.splits option.splits)
  from one obtain x where x: "?ss = [x]" by (metis One_nat_def length_0_conv length_Suc_conv)
  then have "ob_status ` set obs = {x}" by (metis list.set_map set_remdups list.simps(15) list.set(1))
  moreover have "obs \<noteq> []" using x by auto
  ultimately show ?thesis
    using answer apply_provider_truth_stored [OF assms(1) ok1 _ assms(5)] id x by (metis list.sel(1))
qed

interpretation unchanged: state_preorder "\<lambda>w v. w_store v = w_store w"
  by unfold_locales auto

lemma observe_unchanged:
  assumes "\<And>verifier ref u. w_store (snd (sv_verify (rt_services rt) verifier ref u)) = w_store u"
  shows "maintains (\<lambda>w v. w_store v = w_store w) (observe rt ref)"
proof -
  have "maintains (\<lambda>w v. w_store v = w_store w) (sv_verify (rt_services rt) verifier ref)" for verifier
    by (simp add: maintains_def assms)
  then show ?thesis unfolding observe_def by (intro unchanged.combinators)
qed

lemma apply_provider_truth_answer:
  "apply_provider_truth sv t a ref x w = (Inr answer, v) \<Longrightarrow>
   answer = None \<and> v = w \<or> answer \<in> {Some RC_SUCCEEDED, Some RC_FAILED, Some RC_CANCELLED}"
  by (cases x) (auto simp: apply_provider_truth_def elim!: bindA_okE thenA_okE)

text \<open>C8: Inconclusive evidence changes nothing: when an open attempt stays unresolved (no external run on
  record, an unknown or missing one, reports that contradict each other, or one still running), the
  metadata is exactly as before, provided that asking the providers does not change it.\<close>
theorem inconclusive_evidence_changes_nothing:
  assumes "store_ok (w_store w)"
    and "\<And>verifier ref u. w_store (snd (sv_verify (rt_services rt) verifier ref u)) = w_store u"
    and "attempts_of tid (w_store w) \<noteq> []"
      "ta_status (last (attempts_of tid (w_store w))) \<notin> TASK_ATTEMPT_TERMINAL_STATUSES"
    and "reconcile_task rt tid w = (Inr rec, v)" "unresolved rec"
  shows "w_store v = w_store w"
proof -
  obtain t refs where "(if refs = [] then ret (reconciliation t (Some (last (attempts_of tid (w_store w)))) RC_MANUAL_REQUIRED []
        ''no_external_reconciliation_evidence'')
      else reconcile_by_provider rt t (last (attempts_of tid (w_store w))) refs) w = (Inr rec, v)"
    using reconcile_task_start [OF assms(1,5,3,4)] by metis
  then consider "v = w" | a where "reconcile_by_provider rt t a refs w = (Inr rec, v)"
    by (auto split: if_splits)
  then show ?thesis
  proof cases
    case 2
    then obtain obs w1 where obs: "mapA (observe rt) refs w = (Inr obs, w1)"
      unfolding reconcile_by_provider_def by (auto elim!: bindA_okE)
    have "w_store w1 = w_store w"
      using unchanged.mapA [OF observe_unchanged [OF assms(2)], THEN maintainsD, OF obs] .
    moreover have "v = w1"
      using 2 obs assms(6) apply_provider_truth_answer
      by (auto simp: reconcile_by_provider_def Let_def bindA_def unresolved_def reconciliation_def
          split: if_splits sum.splits prod.splits option.splits) fastforce+
    ultimately show ?thesis by simp
  qed simp
qed


section \<open>Closing a run\<close>

lemma transition_workflow_refused:
  assumes "steady_clock sv" "wr_status run \<notin> WORKFLOW_TERMINAL_STATUSES" "target \<notin> workflow_transitions (wr_status run)"
  shows "\<exists>v. transition_workflow sv run target failure w = (Inl (InvalidStateTransition ''WorkflowRun''
      (wid_str (wr_run_id run)) (workflow_status_value (wr_status run)) (workflow_status_value target)), v) \<and>
    w_store v = w_store w"
proof -
  obtain ts v where "now sv w = (Inr ts, v)" "dt_aware ts" "w_store v = w_store w"
    by (rule steady_now [OF assms(1)])
  then show ?thesis
    using assms(2,3) by (auto simp: transition_workflow_def workflow_transition_def ensure_transition_aware_def
        require_def reject_def bindA_def)
qed

text \<open>The status that finished tasks dictate for their run.\<close>

definition closing_status :: "task_run_status set \<Rightarrow> workflow_run_status" where
  "closing_status statuses = (if T_FAILED \<in> statuses then W_FAILED else if T_TIMED_OUT \<in> statuses then W_TIMED_OUT
     else if T_CANCELLED \<in> statuses then W_CANCELLED else W_SUCCEEDED)"

definition task_statuses :: "store \<Rightarrow> workflow_run_id \<Rightarrow> task_run_status set" where
  "task_statuses s run_id = tr_status ` set (filter (\<lambda>t. tr_workflow_run_id t = run_id) (dict_values (st_task_runs s)))"

lemma closing_step:
  assumes "store_ok (w_store w)"
    and "dict_get (st_workflow_runs (w_store w)) run_id = Some run" "wr_status run \<notin> WORKFLOW_TERMINAL_STATUSES"
    and "task_statuses (w_store w) run_id \<noteq> {}" "task_statuses (w_store w) run_id \<subseteq> TASK_RUN_TERMINAL_STATUSES"
  shows "\<exists>failure. reconcile_workflow sv run_id w =
    bindA (transition_workflow sv run (closing_status (task_statuses (w_store w) run_id)) failure) (\<lambda>_. ret ()) w"
proof -
  let ?S = "task_statuses (w_store w) run_id" and ?target = "closing_status (task_statuses (w_store w) run_id)"
  let ?ts = "sort_key (\<lambda>t. (tr_task_key t, tid_str (tr_task_run_id t)))
      (filter (\<lambda>t. tr_workflow_run_id t = run_id) (dict_values (st_task_runs (w_store w))))"
  have get: "in_store (get_workflow_run run_id) w = (Inr run, w)"
    using assms(2) store_okD(5) [OF assms(1,2)] by (simp add: in_store_Inr_iff get_workflow_run_Inr)
  have listed: "in_store (list_task_runs run_id) w = (Inr ?ts, w)"
    using list_task_runs_ok [OF assms(1)] by (simp add: in_store_Inr_iff)
  have S: "set (map tr_status ?ts) = ?S" by (simp add: task_statuses_def)
  then have ne: "?ts \<noteq> []" and unknown: "T_UNKNOWN_OUTCOME \<notin> ?S"
    using assms(4,5) by (auto simp: terminal_defs simp del: set_map set_sort set_filter)
  have all: "list_all (\<lambda>s. s \<in> TASK_RUN_TERMINAL_STATUSES) (map tr_status ?ts)"
    using assms(5) S unfolding list_all_iff by (metis subsetD)
  show ?thesis
    using unknown ne all assms(3)
    by (simp only: reconcile_workflow_def bindA_Inr get listed Let_def S if_False if_True closing_status_def)
      (auto split: if_splits)
qed

text \<open>C10: When all tasks of an open run of a consistent store are finished, reconciliation closes the run with the status they
  dictate (failed before timed out before cancelled before succeeded).  Whatever other threads do
  while the clock is read (the services being lawful), the step returns normally only if the state
  machine leads from the status it read to the status dictated, and then the run is stored with that
  status.  If the clock answers an aware time and nobody writes to the store while it is read
  (\<open>steady_clock\<close>; a racing write can make the step raise a conflict), the step does return when the
  state machine leads there; and when it does not (a run still running with a cancelled task, one
  that was asked to cancel with a failed or only successful tasks, one still pending), an exception
  is raised and the store stays as it was.\<close>
theorem closing_a_run:
  assumes "store_ok (w_store w)"
    and "dict_get (st_workflow_runs (w_store w)) run_id = Some run" "wr_status run \<notin> WORKFLOW_TERMINAL_STATUSES"
    and "task_statuses (w_store w) run_id \<noteq> {}" "task_statuses (w_store w) run_id \<subseteq> TASK_RUN_TERMINAL_STATUSES"
  defines "target \<equiv> closing_status (task_statuses (w_store w) run_id)"
  shows "(\<forall>v. lawful_services sv \<and> reconcile_workflow sv run_id w = (Inr (), v) \<longrightarrow>
      target \<in> workflow_transitions (wr_status run) \<and>
      (\<exists>run'. dict_get (st_workflow_runs (w_store v)) run_id = Some run' \<and> wr_status run' = target)) \<and>
    (steady_clock sv \<longrightarrow> (if target \<in> workflow_transitions (wr_status run)
      then \<exists>v run'. reconcile_workflow sv run_id w = (Inr (), v) \<and>
        dict_get (st_workflow_runs (w_store v)) run_id = Some run' \<and> wr_status run' = target
      else \<exists>v. reconcile_workflow sv run_id w = (Inl (InvalidStateTransition ''WorkflowRun'' (wid_str run_id)
          (workflow_status_value (wr_status run)) (workflow_status_value target)), v) \<and> w_store v = w_store w))"
proof -
  obtain failure where step:
    "reconcile_workflow sv run_id w = bindA (transition_workflow sv run target failure) (\<lambda>_. ret ()) w"
    using closing_step [OF assms(1-5)] unfolding target_def by blast
  have rid: "wr_run_id run = run_id" using store_okD(5) [OF assms(1,2)] by blast
  show ?thesis
  proof (intro conjI allI impI)
    fix v assume "lawful_services sv \<and> reconcile_workflow sv run_id w = (Inr (), v)"
    then obtain run' where "lawful_services sv" "transition_workflow sv run target failure w = (Inr run', v)"
      unfolding step by (auto elim!: bindA_okE)
    from transition_workflow_stored [OF this(1) assms(1) this(2)]
    show "target \<in> workflow_transitions (wr_status run)"
      "\<exists>run'. dict_get (st_workflow_runs (w_store v)) run_id = Some run' \<and> wr_status run' = target"
      using rid by auto
  next
    assume steady: "steady_clock sv"
    show "if target \<in> workflow_transitions (wr_status run)
      then \<exists>v run'. reconcile_workflow sv run_id w = (Inr (), v) \<and>
        dict_get (st_workflow_runs (w_store v)) run_id = Some run' \<and> wr_status run' = target
      else \<exists>v. reconcile_workflow sv run_id w = (Inl (InvalidStateTransition ''WorkflowRun'' (wid_str run_id)
          (workflow_status_value (wr_status run)) (workflow_status_value target)), v) \<and> w_store v = w_store w"
      unfolding step
      using transition_workflow_succeeds [OF steady assms(1), of run target failure] assms(2) rid
        transition_workflow_refused [OF steady assms(3), of target failure w]
      by (auto simp: bindA_def dict_get_set)
  qed
qed


section \<open>Concrete instances\<close>

theorem assessment_exact_witness:
  "\<exists>a. assess (WorkflowRunId ''run'') store_with_task = (Inr a, store_with_task) \<and> ra_disposition a = RD_READY"
proof -
  have facts: "dict_get (st_workflow_runs store_with_task) (WorkflowRunId ''run'') = Some sample_run"
    "wr_status sample_run \<notin> WORKFLOW_TERMINAL_STATUSES" "st_task_attempts store_with_task = []"
    by code_simp+
  then have "attempts_of i store_with_task = []" for i by (simp add: attempts_of_def dict_values_def)
  with assessment_exact [OF store_with_task_ok facts(1)] facts(2) show ?thesis by simp
qed

definition spark_run :: external_run_ref where
  "spark_run = \<lparr>er_provider = ''spark'', er_external_run_id = ''app-1'', er_kind = ''job'', er_status_hint = None,
     er_status_locator = None, er_correlation_id = None, er_causation_id = None, er_metadata = [],
     er_namespace = ''pyworkflowkit'', er_contract_version = ''1''\<rparr>"

definition outsourced_world :: world where
  "outsourced_world = snd (in_store (append_external_run_ref (TaskAttemptId ''attempt-3'') spark_run) busy_world)"

lemma outsourced_world_ok: "store_ok (w_store outsourced_world)"
proof -
  have "lawful busy_world outsourced_world"
    using append_external_run_ref_evolves [THEN in_store_lawful]
    by (simp add: maintains_def outsourced_world_def)
  then show ?thesis using lawful_ok by auto
qed

theorem provider_truth_is_unanimous_witness:
  "\<exists>rec v a'. reconcile_task sample_runtime (TaskRunId ''task'') outsourced_world = (Inr rec, v) \<and>
    tc_observations rec \<noteq> [] \<and>
    dict_get (st_task_attempts (w_store v)) (TaskAttemptId ''attempt-3'') = Some a' \<and> ta_status a' = A_SUCCEEDED"
proof -
  have facts: "attempts_of (TaskRunId ''task'') (w_store outsourced_world) = [busy_attempt]"
    "ta_status busy_attempt \<notin> TASK_ATTEMPT_TERMINAL_STATUSES" "ta_attempt_id busy_attempt = TaskAttemptId ''attempt-3''"
    "case fst (reconcile_task sample_runtime (TaskRunId ''task'') outsourced_world) of
       Inl e \<Rightarrow> False | Inr rec \<Rightarrow> tc_disposition rec = RC_SUCCEEDED"
    by code_simp+
  then obtain rec where "fst (reconcile_task sample_runtime (TaskRunId ''task'') outsourced_world) = Inr rec"
    and d: "tc_disposition rec = RC_SUCCEEDED" by (auto split: sum.splits)
  then obtain v where r: "reconcile_task sample_runtime (TaskRunId ''task'') outsourced_world = (Inr rec, v)"
    by (metis prod.collapse)
  have "\<not> unresolved rec" using d by (simp add: unresolved_def)
  note run = r this
  have "\<exists>x a' t'. tc_observations rec \<noteq> [] \<and> ob_status ` set (tc_observations rec) = {x} \<and>
    dict_get (st_task_attempts (w_store v)) (ta_attempt_id busy_attempt) = Some a' \<and>
    dict_get (st_task_runs (w_store v)) (TaskRunId ''task'') = Some t' \<and>
    (x, tc_disposition rec, ta_status a', tr_status t') \<in> {(X_SUCCEEDED, RC_SUCCEEDED, A_SUCCEEDED, T_SUCCEEDED),
      (X_FAILED, RC_FAILED, A_FAILED, T_FAILED), (X_CANCELLED, RC_CANCELLED, A_CANCELLED, T_CANCELLED)}"
    by (rule provider_truth_is_unanimous [OF _ outsourced_world_ok _ _ facts(2) run(1,2)]) (simp_all add: facts(1))
  then show ?thesis using run d facts(3) by auto
qed

theorem inconclusive_evidence_changes_nothing_witness:
  "\<exists>rec v. reconcile_task sample_runtime (TaskRunId ''task'') busy_world = (Inr rec, v) \<and>
    tc_disposition rec = RC_MANUAL_REQUIRED \<and> w_store v = w_store busy_world"
proof -
  have facts: "attempts_of (TaskRunId ''task'') (w_store busy_world) = [busy_attempt]"
    "ta_status busy_attempt \<notin> TASK_ATTEMPT_TERMINAL_STATUSES"
    "case fst (reconcile_task sample_runtime (TaskRunId ''task'') busy_world) of
       Inl e \<Rightarrow> False | Inr rec \<Rightarrow> tc_disposition rec = RC_MANUAL_REQUIRED"
    by code_simp+
  then obtain rec where "fst (reconcile_task sample_runtime (TaskRunId ''task'') busy_world) = Inr rec"
    and d: "tc_disposition rec = RC_MANUAL_REQUIRED" by (auto split: sum.splits)
  then obtain v where r: "reconcile_task sample_runtime (TaskRunId ''task'') busy_world = (Inr rec, v)"
    by (metis prod.collapse)
  have "unresolved rec" using d by (simp add: unresolved_def)
  note run = r this d
  have "w_store v = w_store busy_world"
    by (rule inconclusive_evidence_changes_nothing [OF sample_worlds_ok(2) _ _ _ run(1,2)])
      (simp_all add: facts(1,2) sample_services_def)
  with run show ?thesis by blast
qed

definition stuck_world :: world where
  "stuck_world = snd (bindA sample_prepare (\<lambda>t. transition_task sample_services t T_CANCELLED None None) empty_world)"

lemma stuck_world_ok: "store_ok (w_store stuck_world)"
proof -
  have "maintains lawful (bindA sample_prepare (\<lambda>t. transition_task sample_services t T_CANCELLED None None))"
    by (intro law.combinators lawful_intros sample_services_lawful)
  then have "lawful empty_world stuck_world" by (simp add: maintains_def stuck_world_def)
  then show ?thesis using lawful_ok by (simp add: empty_world_def empty_store_ok)
qed

theorem closing_a_run_witness:
  "\<exists>v. reconcile_workflow sample_services (WorkflowRunId ''run'') stuck_world =
    (Inl (InvalidStateTransition ''WorkflowRun'' ''run'' ''RUNNING'' ''CANCELLED''), v) \<and>
    w_store v = w_store stuck_world"
proof -
  have facts: "dict_get (st_workflow_runs (w_store stuck_world)) (WorkflowRunId ''run'') = Some busy_run"
    "wr_status busy_run = W_RUNNING"
    "map tr_status (filter (\<lambda>t. tr_workflow_run_id t = WorkflowRunId ''run'') (dict_values (st_task_runs (w_store stuck_world)))) = [T_CANCELLED]"
    by code_simp+
  have S: "task_statuses (w_store stuck_world) (WorkflowRunId ''run'') = {T_CANCELLED}"
    unfolding task_statuses_def set_map [symmetric] facts(3) by simp
  then have "closing_status (task_statuses (w_store stuck_world) (WorkflowRunId ''run'')) = W_CANCELLED"
    by (simp add: closing_status_def)
  with closing_a_run [OF stuck_world_ok facts(1), of sample_services] facts(2) S
  show ?thesis by (simp add: terminal_defs)
qed

end
