(* ===== verification/Reporting.thy ===== *)
theory Reporting
  imports Lineage Resuming Reconciling
begin

text \<open>
  What the read side of the runtime reports: the readers never change the store; the lineage of a
  compiled plan is its dependency relation on the recorded task runs, causes before effects; and
  the readiness that inspection reports is the readiness that the runtime acts on, except where a
  dependency was reused.
\<close>

section \<open>What the readers collect\<close>

definition refs_of :: "task_run_id \<Rightarrow> store \<Rightarrow> external_run_ref list" where
  "refs_of tid s = concat (map (\<lambda>a. sort_key external_key
     (map snd (filter (\<lambda>p. fst (fst p) = ta_attempt_id a) (st_external_refs s)))) (attempts_of tid s))"

lemma attempts_and_refs_eq:
  assumes "store_ok s"
  shows "attempts_and_refs tid s = (Inr (attempts_of tid s, refs_of tid s), s)"
proof -
  have "mapA (\<lambda>a. list_external_run_refs (ta_attempt_id a)) (attempts_of tid s) s =
      (Inr (map (\<lambda>a. sort_key external_key (map snd (filter (\<lambda>p. fst (fst p) = ta_attempt_id a)
         (st_external_refs s)))) (attempts_of tid s)), s)"
    by (rule mapA_pure) (simp add: list_external_run_refs_def)
  then show ?thesis
    using list_task_attempts_ok [OF assms, of tid] by (simp add: attempts_and_refs_def refs_of_def)
qed

lemma checkpoint_or_none_eq: "checkpoint_or_none tid s = (Inr (dict_get (st_checkpoints s) tid), s)"
  by (simp add: checkpoint_or_none_def get_task_output_checkpoint_def bindA_def attemptA_def split: option.splits)

definition runs_of :: "workflow_run_id \<Rightarrow> store \<Rightarrow> task_run list" where
  "runs_of run_id s = sort_key (\<lambda>t. (tr_task_key t, tid_str (tr_task_run_id t)))
     (filter (\<lambda>t. tr_workflow_run_id t = run_id) (dict_values (st_task_runs s)))"

lemma runs_by_key_get:
  "dict_get (runs_by_key ts) k = (case find (\<lambda>t. tr_task_key t = k) (rev ts) of None \<Rightarrow> None | Some t \<Rightarrow> Some t)"
  by (induction ts rule: rev_induct) (auto simp: runs_by_key_def dict_get_set)

lemma runs_by_key_Some:
  "dict_get (runs_by_key ts) k = Some t \<Longrightarrow> t \<in> set ts \<and> tr_task_key t = k"
  by (auto simp: runs_by_key_get find_Some_iff split: option.splits) (metis length_rev nth_mem set_rev)

lemma runs_by_key_keys: "fst ` set (runs_by_key ts) = tr_task_key ` set ts"
  by (induction ts rule: rev_induct) (auto simp: runs_by_key_def dict_set_keys)

lemma runs_by_key_has:
  assumes "k \<in> tr_task_key ` set ts"
  obtains t where "dict_get (runs_by_key ts) k = Some t" "t \<in> set ts" "tr_task_key t = k"
  using assms runs_by_key_Some runs_by_key_keys [of ts] dict_get_None_iff [of "runs_by_key ts" k] by fastforce

section \<open>Lineage lists causes before effects\<close>

definition lineage_of_task :: "(string, task_run) dict \<Rightarrow> store \<Rightarrow> string \<Rightarrow> task_lineage" where
  "lineage_of_task by_key s key = (let tid = tr_task_run_id (the (dict_get by_key key)) in
     \<lparr>tl_task_key = key, tl_task_run_id = tid, tl_attempt_ids = map ta_attempt_id (attempts_of tid s),
      tl_external_runs = refs_of tid s,
      tl_output_digest = map_option cp_digest (dict_get (st_checkpoints s) tid)\<rparr>)"

lemma lineage_task_key [simp]: "tl_task_key (lineage_of_task by_key s key) = key"
  by (simp add: lineage_of_task_def Let_def)

lemma project_task_eq:
  assumes "store_ok s" "dict_get by_key key = Some t"
  shows "project_task by_key key s = (Inr (lineage_of_task by_key s key), s)"
  using assms(2) attempts_and_refs_eq [OF assms(1)]
  by (simp add: project_task_def lineage_of_task_def key_lookup_def checkpoint_or_none_eq Let_def)

lemma mapR_total: "(\<And>x. x \<in> set xs \<Longrightarrow> f x = Inr (g x)) \<Longrightarrow> mapR f xs = Inr (map g xs)"
  by (induction xs) simp_all

lemma project_dependencies_eq:
  assumes "\<forall>e \<in> set entries. \<forall>k \<in> insert (te_key e) (set (te_dependencies e)). dict_get by_key k \<noteq> None"
  shows "project_dependencies by_key entries = Inr (concat (map (\<lambda>e. map (\<lambda>k.
      \<lparr>ld_upstream = tl_task_run_id (lineage_of_task by_key s k),
       ld_downstream = tl_task_run_id (lineage_of_task by_key s (te_key e))\<rparr>) (te_dependencies e)) entries))"
proof -
  have look: "key_lookup by_key k = Inr (the (dict_get by_key k))" if "dict_get by_key k \<noteq> None" for k
    using that by (auto simp: key_lookup_def)
  have "mapR (\<lambda>e. bindR (key_lookup by_key (te_key e)) (\<lambda>downstream.
       mapR (\<lambda>key. bindR (key_lookup by_key key) (\<lambda>upstream.
         Inr \<lparr>ld_upstream = tr_task_run_id upstream, ld_downstream = tr_task_run_id downstream\<rparr>))
         (te_dependencies e))) entries = Inr (map (\<lambda>e. map (\<lambda>k.
      \<lparr>ld_upstream = tl_task_run_id (lineage_of_task by_key s k),
       ld_downstream = tl_task_run_id (lineage_of_task by_key s (te_key e))\<rparr>) (te_dependencies e)) entries)"
    using assms by (intro mapR_total) (simp add: look lineage_of_task_def Let_def mapR_total)
  then show ?thesis by (simp add: project_dependencies_def)
qed

lemma dependencies_known:
  assumes "dependencies_first entries" "e \<in> set entries"
  shows "set (te_dependencies e) \<subseteq> set (map te_key entries)"
proof -
  obtain i where i: "i < length entries" "e = entries ! i" using assms(2) by (auto simp: in_set_conv_nth)
  then have "set (te_dependencies e) \<subseteq> te_key ` set (take i entries)"
    using assms(1) by (simp add: dependencies_first_def)
  then show ?thesis using set_take_subset [of i entries] by auto
qed

lemma project_succeeds:
  assumes ok: "store_ok s" and run: "dict_get (st_workflow_runs s) run_id = Some run"
    and same: "require_same_plan c ''execution plan does not match persisted WorkflowRun identity'' run p = Inr ()"
    and keys: "tr_task_key ` set (runs_of run_id s) = set (map te_key (ep_tasks p))"
    and order: "ep_topological_order p = map te_key (ep_tasks p)" "dependencies_first (ep_tasks p)"
  shows "\<exists>l. project c (Inr p) run_id s = (Inr l, s) \<and>
    el_tasks l = map (lineage_of_task (runs_by_key (runs_of run_id s)) s) (map te_key (ep_tasks p)) \<and>
    el_dependencies l = concat (map (\<lambda>e. map (\<lambda>k.
      \<lparr>ld_upstream = tl_task_run_id (lineage_of_task (runs_by_key (runs_of run_id s)) s k),
       ld_downstream = tl_task_run_id (lineage_of_task (runs_by_key (runs_of run_id s)) s (te_key e))\<rparr>)
      (te_dependencies e)) (ep_tasks p))"
proof -
  let ?d = "runs_by_key (runs_of run_id s)"
  have has: "\<exists>t. dict_get ?d k = Some t" if "k \<in> set (map te_key (ep_tasks p))" for k
    using that keys by (metis runs_by_key_has)
  note deps = dependencies_known [OF order(2)]
  have get: "get_workflow_run run_id s = (Inr run, s)"
    using run store_okD(5) [OF ok run] by (simp add: get_workflow_run_Inr)
  have tasks: "list_task_runs run_id s = (Inr (runs_of run_id s), s)"
    using list_task_runs_ok [OF ok] by (simp add: runs_of_def)
  have "mapA (project_task ?d) (map te_key (ep_tasks p)) s =
      (Inr (map (lineage_of_task ?d s) (map te_key (ep_tasks p))), s)"
    using has project_task_eq [OF ok] by (intro mapA_pure) blast
  moreover have "project_dependencies ?d (ep_tasks p) = Inr (concat (map (\<lambda>e. map (\<lambda>k.
      \<lparr>ld_upstream = tl_task_run_id (lineage_of_task ?d s k),
       ld_downstream = tl_task_run_id (lineage_of_task ?d s (te_key e))\<rparr>) (te_dependencies e)) (ep_tasks p)))"
  proof (rule project_dependencies_eq, intro ballI)
    fix e k assume "e \<in> set (ep_tasks p)" "k \<in> insert (te_key e) (set (te_dependencies e))"
    then have "k \<in> set (map te_key (ep_tasks p))" using deps [of e] by auto
    then show "dict_get ?d k \<noteq> None" using has [of k] by auto
  qed
  moreover have "fst ` set ?d = set (ep_topological_order p)"
    by (simp only: runs_by_key_keys keys order(1))
  ultimately show ?thesis
    unfolding project_def planned_def Let_def sum.case
    by (simp only: order(1) act_lift act_require bindA_Inr thenA_Inr get tasks same if_True act_ret prod.inject
      sum.inject simp_thms execution_lineage.select_convs ex_simps)
qed


text \<open>An unsuccessful projection is the refusal of a plan or of a task set that is not the run's.\<close>

lemma require_same_plan_iff:
  "require_same_plan c reason run p = Inr u \<longleftrightarrow>
     wr_workflow_name run = ep_workflow_name p \<and> wr_workflow_version run = ep_workflow_version p \<and>
     wr_definition_fingerprint run = ep_definition_fingerprint p \<and>
     plan_fingerprint c p = Inr (wr_plan_fingerprint run)"
  by (auto simp: require_same_plan_def thenR_Inr_iff bindR_Inr_iff)

lemma project_refuses:
  assumes ok: "store_ok s" and run: "dict_get (st_workflow_runs s) run_id = Some run"
    and digest: "plan_fingerprint c p = Inr digest"
    and bad: "require_same_plan c ''execution plan does not match persisted WorkflowRun identity'' run p \<noteq> Inr () \<or>
      tr_task_key ` set (runs_of run_id s) \<noteq> set (ep_topological_order p)"
  shows "\<exists>reason. project c (Inr p) run_id s = (Inl (RuntimeInvariant reason), s)"
proof -
  have get: "get_workflow_run run_id s = (Inr run, s)"
    using run store_okD(5) [OF ok run] by (simp add: get_workflow_run_Inr)
  have tasks: "list_task_runs run_id s = (Inr (runs_of run_id s), s)"
    using list_task_runs_ok [OF ok] by (simp add: runs_of_def)
  let ?r = "require_same_plan c ''execution plan does not match persisted WorkflowRun identity'' run p"
  have "?r = Inr () \<or> ?r = Inl (RuntimeInvariant ''execution plan does not match persisted WorkflowRun identity'')"
    using digest by (simp add: require_same_plan_def require_def)
  then show ?thesis
  proof
    assume "?r = Inr ()"
    then show ?thesis using bad
      by (simp add: project_def planned_def get tasks Let_def runs_by_key_keys)
  qed (simp add: project_def planned_def get)
qed

lemma lineage_edges:
  assumes d: "dependencies_first entries" "distinct (map te_key entries)"
  shows "x \<in> set (concat (map (\<lambda>e. map (\<lambda>k. g k (te_key e)) (te_dependencies e)) entries)) \<longleftrightarrow>
    (\<exists>i j. i < j \<and> j < length entries \<and> te_key (entries ! i) \<in> set (te_dependencies (entries ! j)) \<and>
       x = g (te_key (entries ! i)) (te_key (entries ! j)))" (is "?L \<longleftrightarrow> ?R")
proof
  assume ?L
  then obtain j k where j: "j < length entries" "k \<in> set (te_dependencies (entries ! j))"
    "x = g k (te_key (entries ! j))" by (auto simp: in_set_conv_nth) (metis in_set_conv_nth)
  then have "k \<in> te_key ` set (take j entries)" using d(1) by (auto simp: dependencies_first_def)
  then obtain i where "i < j" "te_key (entries ! i) = k" using j(1) by (auto simp: in_set_conv_nth)
  with j show ?R by auto
qed auto

lemma runs_of_members:
  assumes "store_ok s"
  shows "set (runs_of run_id s) = {t. \<exists>i. dict_get (st_task_runs s) i = Some t \<and> tr_workflow_run_id t = run_id}"
  using dict_values_set [OF store_okD(3) [OF assms]] by (auto simp: runs_of_def)

lemma lineage_task_recorded:
  assumes "store_ok s" "k \<in> tr_task_key ` set (runs_of run_id s)"
  shows "\<exists>t. dict_get (st_task_runs s) (tl_task_run_id (lineage_of_task (runs_by_key (runs_of run_id s)) s k)) = Some t \<and>
    tr_workflow_run_id t = run_id \<and> tr_task_key t = tl_task_key (lineage_of_task (runs_by_key (runs_of run_id s)) s k)"
proof -
  obtain t where t: "dict_get (runs_by_key (runs_of run_id s)) k = Some t" "t \<in> set (runs_of run_id s)" "tr_task_key t = k"
    using runs_by_key_has [OF assms(2)] .
  then obtain i where "dict_get (st_task_runs s) i = Some t" "tr_workflow_run_id t = run_id"
    using runs_of_members [OF assms(1)] by blast
  then show ?thesis using t store_okD(6) [OF assms(1)] by (auto simp: lineage_of_task_def Let_def)
qed

lemma compiled_order: "compile c w = Inr p \<Longrightarrow> ep_topological_order p = map te_key (ep_tasks p)"
  by (auto simp: compile_def bindR_Inr_iff thenR_Inr_iff mk_execution_plan_def)

lemma compiled_keys:
  assumes "compile c w = Inr p" "distinct (map td_key (wf_tasks w))"
    "\<forall>t \<in> set (wf_tasks w). distinct (td_dependencies t)"
  shows "set (map te_key (ep_tasks p)) = td_key ` set (wf_tasks w)"
proof -
  have "te_task ` set (ep_tasks p) = set (wf_tasks w)"
    using compiled_layout [OF assms] by (metis list.set_map set_mset_mset)
  then show ?thesis by (metis image_image list.set_map)
qed

text \<open>A compiled plan has a fingerprint, since its workflow has one.\<close>

lemma diagnostic_payload_finite: "all_finite (diagnostic_payload d)"
  by (auto simp: diagnostic_payload_def opt_text_def split: option.splits)

lemma plan_fingerprint_total:
  assumes "\<forall>e \<in> set (ep_tasks p). \<exists>j. task_payload (te_task e) = Inr j \<and> all_finite j"
  shows "\<exists>j. plan_fingerprint c p = Inr (canonical_json_digest c j)"
proof -
  have "\<exists>tasks. mapR entry_payload es = Inr tasks \<and> (\<forall>j \<in> set tasks. all_finite j)"
    if "\<forall>e \<in> set es. \<exists>j. task_payload (te_task e) = Inr j \<and> all_finite j" for es
    using that
  proof (induction es)
    case (Cons e es)
    then obtain j tasks where "task_payload (te_task e) = Inr j" "all_finite j"
      "mapR entry_payload es = Inr tasks" "\<forall>j \<in> set tasks. all_finite j" by auto
    moreover from this obtain j' where "entry_payload e = Inr j'" "all_finite j'"
      by (simp add: entry_payload_def requirement_payload_def)
    ultimately show ?case by simp
  qed simp
  then obtain tasks where "mapR entry_payload (ep_tasks p) = Inr tasks" "\<forall>j \<in> set tasks. all_finite j"
    using assms by blast
  then show ?thesis
    by (auto simp: plan_fingerprint_def strict_digest_def require_def diagnostic_payload_finite)
qed

lemma compiled_fingerprint:
  assumes "compile c w = Inr p" "distinct (map td_key (wf_tasks w))"
    "\<forall>t \<in> set (wf_tasks w). distinct (td_dependencies t)"
  obtains j where "plan_fingerprint c p = Inr (canonical_json_digest c j)"
proof -
  obtain digest where "fingerprint c w = Inr digest"
    using assms(1) by (auto simp: compile_def bindR_Inr_iff thenR_Inr_iff)
  then obtain payloads where ps: "mapR task_payload (sort_key td_key (wf_tasks w)) = Inr payloads"
      "\<forall>j \<in> set payloads. all_finite j"
    by (auto simp: fingerprint_def workflow_payload_def strict_digest_def bindR_Inr_iff thenR_Inr_iff)
  have "\<exists>j. task_payload t = Inr j \<and> all_finite j" if t: "t \<in> set (wf_tasks w)" for t
  proof -
    have "list_all2 (\<lambda>t j. task_payload t = Inr j) (sort_key td_key (wf_tasks w)) payloads"
      using ps(1) by (simp add: mapR_Inr_iff)
    moreover obtain i where "i < length (sort_key td_key (wf_tasks w))" "sort_key td_key (wf_tasks w) ! i = t"
      using t by (metis in_set_conv_nth set_sort)
    ultimately have "payloads ! i \<in> set payloads" "task_payload t = Inr (payloads ! i)"
      by (auto simp: list_all2_conv_all_nth)
    then show ?thesis using ps(2) by blast
  qed
  moreover have "te_task ` set (ep_tasks p) = set (wf_tasks w)"
    using compiled_layout [OF assms] by (metis list.set_map set_mset_mset)
  ultimately have "\<forall>e \<in> set (ep_tasks p). \<exists>j. task_payload (te_task e) = Inr j \<and> all_finite j" by blast
  then show thesis using plan_fingerprint_total [of p c] that by blast
qed

text \<open>C36: The execution lineage of a run is exactly the plan's dependency relation carried over to the recorded
  task runs.  Projecting a compiled plan on a recorded run never changes the store; when plan and
  run have the same identity and the same task keys it answers, otherwise it refuses.  The answer
  lists every task once in the order of the plan with the attempts and the output digest on record,
  and its edges are those of the plan, each from a task that is listed earlier to one that is
  listed later.\<close>
theorem lineage_exact:
  assumes "store_ok s" "dict_get (st_workflow_runs s) run_id = Some run"
    and "compile c w = Inr p" "distinct (map td_key (wf_tasks w))"
    and "\<forall>t \<in> set (wf_tasks w). distinct (td_dependencies t)"
  shows "if wr_workflow_name run = ep_workflow_name p \<and> wr_workflow_version run = ep_workflow_version p \<and>
      wr_definition_fingerprint run = ep_definition_fingerprint p \<and>
      plan_fingerprint c p = Inr (wr_plan_fingerprint run) \<and>
      tr_task_key ` {t. \<exists>i. dict_get (st_task_runs s) i = Some t \<and> tr_workflow_run_id t = run_id} =
        td_key ` set (wf_tasks w)
    then \<exists>l. project c (Inr p) run_id s = (Inr l, s) \<and>
      map tl_task_key (el_tasks l) = map te_key (ep_tasks p) \<and>
      (\<forall>x \<in> set (el_tasks l).
         (\<exists>t. dict_get (st_task_runs s) (tl_task_run_id x) = Some t \<and> tr_workflow_run_id t = run_id \<and>
            tr_task_key t = tl_task_key x) \<and>
         tl_attempt_ids x = map ta_attempt_id (attempts_of (tl_task_run_id x) s) \<and>
         tl_output_digest x = map_option cp_digest (dict_get (st_checkpoints s) (tl_task_run_id x))) \<and>
      (\<forall>d. d \<in> set (el_dependencies l) \<longleftrightarrow> (\<exists>i j. i < j \<and> j < length (el_tasks l) \<and>
         tl_task_key (el_tasks l ! i) \<in> set (te_dependencies (ep_tasks p ! j)) \<and>
         d = \<lparr>ld_upstream = tl_task_run_id (el_tasks l ! i), ld_downstream = tl_task_run_id (el_tasks l ! j)\<rparr>))
    else \<exists>reason. project c (Inr p) run_id s = (Inl (RuntimeInvariant reason), s)"
    (is "if ?same then ?answer else ?refusal")
proof -
  let ?d = "runs_by_key (runs_of run_id s)"
  let ?g = "\<lambda>k k'. \<lparr>ld_upstream = tl_task_run_id (lineage_of_task ?d s k),
       ld_downstream = tl_task_run_id (lineage_of_task ?d s k')\<rparr>"
  obtain digest where digest: "plan_fingerprint c p = Inr digest" using compiled_fingerprint [OF assms(3-5)] by blast
  note ordered = compiled_dependencies_first [OF assms(3-5)]
  have order: "ep_topological_order p = map te_key (ep_tasks p)" by (rule compiled_order [OF assms(3)])
  have plan_keys: "set (map te_key (ep_tasks p)) = td_key ` set (wf_tasks w)" by (rule compiled_keys [OF assms(3-5)])
  have keys: "tr_task_key ` set (runs_of run_id s) =
      tr_task_key ` {t. \<exists>i. dict_get (st_task_runs s) i = Some t \<and> tr_workflow_run_id t = run_id}"
    by (simp only: runs_of_members [OF assms(1)])
  show ?thesis
  proof (cases ?same)
    case True
    then have "require_same_plan c ''execution plan does not match persisted WorkflowRun identity'' run p = Inr ()"
      by (simp add: require_same_plan_iff)
    moreover have same_keys: "tr_task_key ` set (runs_of run_id s) = set (map te_key (ep_tasks p))"
      using True keys plan_keys by simp
    ultimately obtain l where l: "project c (Inr p) run_id s = (Inr l, s)"
      "el_tasks l = map (lineage_of_task ?d s) (map te_key (ep_tasks p))"
      "el_dependencies l = concat (map (\<lambda>e. map (\<lambda>k. ?g k (te_key e)) (te_dependencies e)) (ep_tasks p))"
      using project_succeeds [OF assms(1,2) _ _ order ordered(1)] by blast
    have "\<exists>t. dict_get (st_task_runs s) (tl_task_run_id x) = Some t \<and> tr_workflow_run_id t = run_id \<and>
        tr_task_key t = tl_task_key x" if x: "x \<in> set (el_tasks l)" for x
      using x l(2) same_keys by (auto intro: lineage_task_recorded [OF assms(1)])
    moreover have "d \<in> set (el_dependencies l) \<longleftrightarrow> (\<exists>i j. i < j \<and> j < length (el_tasks l) \<and>
         tl_task_key (el_tasks l ! i) \<in> set (te_dependencies (ep_tasks p ! j)) \<and>
         d = \<lparr>ld_upstream = tl_task_run_id (el_tasks l ! i), ld_downstream = tl_task_run_id (el_tasks l ! j)\<rparr>)" for d
    proof -
      have edges: "d \<in> set (el_dependencies l) \<longleftrightarrow> (\<exists>i j. i < j \<and> j < length (ep_tasks p) \<and>
          te_key (ep_tasks p ! i) \<in> set (te_dependencies (ep_tasks p ! j)) \<and>
          d = ?g (te_key (ep_tasks p ! i)) (te_key (ep_tasks p ! j)))"
        unfolding l(3) by (rule lineage_edges [OF ordered, where g = ?g])
      have nth: "el_tasks l ! i = lineage_of_task ?d s (te_key (ep_tasks p ! i))" if "i < length (ep_tasks p)" for i
        using that l(2) by simp
      have size: "length (el_tasks l) = length (ep_tasks p)" using l(2) by simp
      show ?thesis by (simp add: edges size nth cong: conj_cong)
    qed
    ultimately have ?answer using l(1,2)
      by (intro exI [of _ l]) (auto simp: lineage_of_task_def Let_def)
    then show ?thesis unfolding if_P [OF True] .
  next
    case False
    then have "require_same_plan c ''execution plan does not match persisted WorkflowRun identity'' run p \<noteq> Inr () \<or>
        tr_task_key ` set (runs_of run_id s) \<noteq> set (ep_topological_order p)"
      using order plan_keys keys by (auto simp: require_same_plan_iff)
    then have ?refusal by (rule project_refuses [OF assms(1,2) digest])
    then show ?thesis unfolding if_not_P [OF False] .
  qed
qed

section \<open>What inspection reports\<close>

definition startable :: "(string, task_run) dict \<Rightarrow> task_plan_entry \<Rightarrow> bool" where
  \<comment> \<open>The task waits and all its dependencies are recorded as succeeded.\<close>
  "startable by_key e \<longleftrightarrow> (\<exists>t. dict_get by_key (te_key e) = Some t \<and> tr_status t \<in> SCHEDULABLE_TASK_STATUSES) \<and>
     (\<forall>d \<in> set (te_dependencies e). \<exists>u. dict_get by_key d = Some u \<and> tr_status u = T_SUCCEEDED)"

definition waiting :: "(string, task_run) dict \<Rightarrow> task_plan_entry \<Rightarrow> bool" where
  "waiting by_key e \<longleftrightarrow> (\<exists>t. dict_get by_key (te_key e) = Some t \<and>
     (tr_status t = T_BLOCKED \<or> tr_status t \<in> SCHEDULABLE_TASK_STATUSES \<and> \<not> startable by_key e))"

lemma all_succeeded_eq:
  assumes "\<forall>d \<in> set ds. dict_get by_key d \<noteq> None"
  shows "all_succeeded by_key ds = Inr (\<forall>d \<in> set ds. \<exists>u. dict_get by_key d = Some u \<and> tr_status u = T_SUCCEEDED)"
  using assms by (induction ds) (auto simp: key_lookup_def)

lemma inspect_loop:
  assumes ok: "store_ok s"
    and keys: "\<forall>e \<in> set entries. \<forall>k \<in> insert (te_key e) (set (te_dependencies e)). dict_get by_key k \<noteq> None"
  shows "\<exists>st'. foldA (inspect_entry by_key) entries st s = (Inr st', s) \<and>
    is_ready st' = is_ready st @ map te_key (filter (startable by_key) entries) \<and>
    is_blocked st' = is_blocked st @ map te_key (filter (waiting by_key) entries)"
  using keys
proof (induction entries arbitrary: st)
  case (Cons e entries)
  then obtain t where t: "dict_get by_key (te_key e) = Some t" by auto
  let ?st = "if startable by_key e then st\<lparr>is_ready := is_ready st @ [te_key e]\<rparr>
    else if waiting by_key e then st\<lparr>is_blocked := is_blocked st @ [te_key e]\<rparr> else st"
  have "classify_entry by_key e t st = Inr ?st"
    using t all_succeeded_eq [of "te_dependencies e" by_key] Cons.prems
    by (auto simp: classify_entry_def startable_def waiting_def SCHEDULABLE_TASK_STATUSES_def)
  then obtain st1 where st1: "inspect_entry by_key e st s = (Inr st1, s)"
    "is_ready st1 = is_ready ?st" "is_blocked st1 = is_blocked ?st"
    using t attempts_and_refs_eq [OF ok, of "tr_task_run_id t"] checkpoint_or_none_eq [of "tr_task_run_id t" s]
    by (simp add: inspect_entry_def del: if_split)
  have exclusive: "\<not> (startable by_key e \<and> waiting by_key e)"
    by (auto simp: startable_def waiting_def SCHEDULABLE_TASK_STATUSES_def)
  have "\<exists>st'. foldA (inspect_entry by_key) entries st1 s = (Inr st', s) \<and>
    is_ready st' = is_ready st1 @ map te_key (filter (startable by_key) entries) \<and>
    is_blocked st' = is_blocked st1 @ map te_key (filter (waiting by_key) entries)"
    by (rule Cons.IH) (use Cons.prems in simp)
  then show ?case using st1 exclusive by auto
qed simp

lemma dict_get_map_value: "dict_get (map (\<lambda>(k, v). (k, f v)) d) k = map_option f (dict_get d k)"
  by (induction d) auto

lemma readiness_all_success:
  assumes "\<forall>k \<in> set (te_dependencies e). dict_get by_key k \<noteq> None"
  shows "td_trigger_rule (te_task e) = ALL_SUCCESS \<Longrightarrow>
    evaluate_readiness e (map (\<lambda>(k, t). (k, tr_status t)) by_key) = Inr \<lparr>rd_ready = True, rd_skip_reason = None\<rparr> \<longleftrightarrow>
    (\<forall>d \<in> set (te_dependencies e). \<exists>u. dict_get by_key d = Some u \<and> tr_status u \<in> {T_SUCCEEDED, T_REUSED})"
proof -
  assume rule: "td_trigger_rule (te_task e) = ALL_SUCCESS"
  let ?f = "\<lambda>k. tr_status (the (dict_get by_key k))"
  have "mapR (key_lookup (map (\<lambda>(k, t). (k, tr_status t)) by_key)) (te_dependencies e) = Inr (map ?f (te_dependencies e))"
    using assms by (intro mapR_total) (auto simp: key_lookup_def dict_get_map_value split: option.splits)
  moreover have "list_all (\<lambda>s. s \<in> {T_SUCCEEDED, T_REUSED}) (map ?f (te_dependencies e)) \<longleftrightarrow>
      (\<forall>d \<in> set (te_dependencies e). \<exists>u. dict_get by_key d = Some u \<and> tr_status u \<in> {T_SUCCEEDED, T_REUSED})"
    using assms by (fastforce simp: list_all_iff)
  moreover have "list_all (\<lambda>s. s \<in> {T_SUCCEEDED, T_REUSED}) ss \<Longrightarrow> list_all (\<lambda>s. s \<in> TASK_RUN_TERMINAL_STATUSES) ss" for ss
    by (auto simp: list_all_iff terminal_defs)
  ultimately show ?thesis using rule by (auto simp: evaluate_readiness_def trigger_satisfied_def)
qed

lemma inspect_answers:
  assumes ok: "store_ok s" and run: "dict_get (st_workflow_runs s) run_id = Some run"
    and plan: "compile c w = Inr p" "distinct (map td_key (wf_tasks w))"
      "\<forall>t \<in> set (wf_tasks w). distinct (td_dependencies t)"
    and same: "require_same_plan c ''runtime inspection plan does not match persisted WorkflowRun identity'' run p = Inr ()"
    and keys: "td_key ` set (wf_tasks w) \<subseteq> tr_task_key ` set (runs_of run_id s)"
  shows "\<exists>r. inspect c (Inr p) run_id s = (Inr r, s) \<and>
    ri_ready_task_keys r = map te_key (filter (startable (runs_by_key (runs_of run_id s))) (ep_tasks p)) \<and>
    ri_blocked_task_keys r = map te_key (filter (waiting (runs_by_key (runs_of run_id s))) (ep_tasks p)) \<and>
    (ri_deadlocked r \<longleftrightarrow> (\<exists>t \<in> set (runs_of run_id s). tr_status t \<notin> TASK_RUN_TERMINAL_STATUSES) \<and>
       ri_ready_task_keys r = [] \<and>
       (\<forall>t \<in> set (runs_of run_id s). tr_status t \<notin> TASK_RUN_TERMINAL_STATUSES \<longrightarrow> tr_status t \<notin> ACTIVE_TASK_STATUSES))"
proof -
  let ?d = "runs_by_key (runs_of run_id s)"
  have known: "dict_get ?d k \<noteq> None" if "k \<in> set (map te_key (ep_tasks p))" for k
    using that keys compiled_keys [OF plan] by (metis option.distinct(1) runs_by_key_has subsetD)
  have "\<forall>e \<in> set (ep_tasks p). \<forall>k \<in> insert (te_key e) (set (te_dependencies e)). dict_get ?d k \<noteq> None"
  proof (intro ballI)
    fix e k assume e: "e \<in> set (ep_tasks p)" "k \<in> insert (te_key e) (set (te_dependencies e))"
    then have "k \<in> set (map te_key (ep_tasks p))"
      using dependencies_known [OF compiled_dependencies_first(1) [OF plan]] by auto
    then show "dict_get ?d k \<noteq> None" by (rule known)
  qed
  from inspect_loop [OF ok this] obtain st where st:
    "foldA (inspect_entry ?d) (ep_tasks p) \<lparr>is_ready = [], is_blocked = [], is_inspections = [], is_checkpoint_count = 0\<rparr> s =
      (Inr st, s)" "is_ready st = map te_key (filter (startable ?d) (ep_tasks p))"
    "is_blocked st = map te_key (filter (waiting ?d) (ep_tasks p))" by fastforce
  obtain events where events: "list_runtime_events run_id s = (Inr events, s)"
    using events_listed [OF ok, of run_id] run by (auto simp: dict_has_iff)
  have get: "get_workflow_run run_id s = (Inr run, s)"
    using run store_okD(5) [OF ok run] by (simp add: get_workflow_run_Inr)
  have tasks: "list_task_runs run_id s = (Inr (runs_of run_id s), s)"
    using list_task_runs_ok [OF ok] by (simp add: runs_of_def)
  show ?thesis
    using st(2,3)
    by (simp add: inspect_def planned_def get tasks same st(1) events Let_def filter_empty_conv list_ex_iff)
      blast
qed

text \<open>C37: Inspection and the runtime agree on the ordinary tasks.  Inspecting a recorded run against its own
  compiled plan always answers and never changes the store; a waiting task under the default trigger
  rule is reported as ready exactly when its dependencies make the runtime start it, provided that
  none of its dependencies was reused; and a deadlock is reported exactly when unfinished tasks
  remain, none of them is active and none is reported as ready.\<close>
theorem inspection_exact:
  assumes "store_ok s" "dict_get (st_workflow_runs s) run_id = Some run"
    and "compile c w = Inr p" "distinct (map td_key (wf_tasks w))"
    and "\<forall>t \<in> set (wf_tasks w). distinct (td_dependencies t)"
    and "wr_workflow_name run = ep_workflow_name p" "wr_workflow_version run = ep_workflow_version p"
    and "wr_definition_fingerprint run = ep_definition_fingerprint p"
    and "plan_fingerprint c p = Inr (wr_plan_fingerprint run)"
    and "list_task_runs run_id s = (Inr task_runs, s')"
    and "td_key ` set (wf_tasks w) \<subseteq> tr_task_key ` set task_runs"
  shows "\<exists>r. inspect c (Inr p) run_id s = (Inr r, s) \<and>
    (\<forall>e \<in> set (ep_tasks p). \<forall>t.
       dict_get (runs_by_key task_runs) (te_key e) = Some t \<and> tr_status t \<in> {T_PENDING, T_READY} \<and>
       td_trigger_rule (te_task e) = ALL_SUCCESS \<and>
       (\<forall>d \<in> set (te_dependencies e). \<forall>u. dict_get (runs_by_key task_runs) d = Some u \<longrightarrow> tr_status u \<noteq> T_REUSED) \<longrightarrow>
       (te_key e \<in> set (ri_ready_task_keys r) \<longleftrightarrow>
        evaluate_readiness e (map (\<lambda>(k, t). (k, tr_status t)) (runs_by_key task_runs)) =
          Inr \<lparr>rd_ready = True, rd_skip_reason = None\<rparr>)) \<and>
    (ri_deadlocked r \<longleftrightarrow> (\<exists>t \<in> set task_runs. tr_status t \<notin> TASK_RUN_TERMINAL_STATUSES) \<and>
       ri_ready_task_keys r = [] \<and>
       (\<forall>t \<in> set task_runs. tr_status t \<notin> TASK_RUN_TERMINAL_STATUSES \<longrightarrow> tr_status t \<notin> {T_RUNNING, T_UNKNOWN_OUTCOME}))"
proof -
  have ts: "task_runs = runs_of run_id s"
    using assms(10) list_task_runs_ok [OF assms(1), of run_id] by (auto simp: runs_of_def)
  have same: "require_same_plan c ''runtime inspection plan does not match persisted WorkflowRun identity'' run p = Inr ()"
    using assms(6-9) by (simp add: require_same_plan_iff)
  note d = compiled_dependencies_first [OF assms(3-5)]
  have known: "\<forall>k \<in> set (te_dependencies e). dict_get (runs_by_key task_runs) k \<noteq> None" if "e \<in> set (ep_tasks p)" for e
    using dependencies_known [OF d(1) that] assms(11) compiled_keys [OF assms(3-5)]
    by (metis option.distinct(1) runs_by_key_has subsetD)
  from inspect_answers [OF assms(1-5) same assms(11) [unfolded ts]] obtain r where r:
    "inspect c (Inr p) run_id s = (Inr r, s)"
    "ri_ready_task_keys r = map te_key (filter (startable (runs_by_key task_runs)) (ep_tasks p))"
    "ri_deadlocked r \<longleftrightarrow> (\<exists>t \<in> set task_runs. tr_status t \<notin> TASK_RUN_TERMINAL_STATUSES) \<and>
       ri_ready_task_keys r = [] \<and>
       (\<forall>t \<in> set task_runs. tr_status t \<notin> TASK_RUN_TERMINAL_STATUSES \<longrightarrow> tr_status t \<notin> ACTIVE_TASK_STATUSES)"
    unfolding ts by blast
  show ?thesis
  proof (intro exI [of _ r] conjI ballI allI impI)
    fix e t assume e: "e \<in> set (ep_tasks p)"
      and t: "dict_get (runs_by_key task_runs) (te_key e) = Some t \<and> tr_status t \<in> {T_PENDING, T_READY} \<and>
       td_trigger_rule (te_task e) = ALL_SUCCESS \<and>
       (\<forall>d \<in> set (te_dependencies e). \<forall>u. dict_get (runs_by_key task_runs) d = Some u \<longrightarrow> tr_status u \<noteq> T_REUSED)"
    have "te_key e \<in> set (ri_ready_task_keys r) \<longleftrightarrow> startable (runs_by_key task_runs) e"
      using r(2) e d(2) by (auto simp: distinct_map dest: inj_onD)
    also have "\<dots> \<longleftrightarrow> (\<forall>d \<in> set (te_dependencies e). \<exists>u. dict_get (runs_by_key task_runs) d = Some u \<and> tr_status u = T_SUCCEEDED)"
      using t by (auto simp: startable_def SCHEDULABLE_TASK_STATUSES_def)
    also have "\<dots> \<longleftrightarrow> evaluate_readiness e (map (\<lambda>(k, t). (k, tr_status t)) (runs_by_key task_runs)) =
        Inr \<lparr>rd_ready = True, rd_skip_reason = None\<rparr>"
      using readiness_all_success [OF known [OF e]] t by auto
    finally show "te_key e \<in> set (ri_ready_task_keys r) \<longleftrightarrow> evaluate_readiness e (map (\<lambda>(k, t). (k, tr_status t)) (runs_by_key task_runs)) =
        Inr \<lparr>rd_ready = True, rd_skip_reason = None\<rparr>" .
  qed (use r in \<open>auto simp: ACTIVE_TASK_STATUSES_def\<close>)
qed

text \<open>Inspection does not know reused tasks.  In a resumed run, a waiting task whose dependencies were all
  reused is one that the runtime starts at once, yet inspection reports it as blocked; and when
  every unfinished task waits for something that did not itself succeed, it reports the run as
  deadlocked.\<close>
theorem reused_upstream_reported_as_deadlock:
  assumes "store_ok s" "dict_get (st_workflow_runs s) run_id = Some run"
    and "compile c w = Inr p" "distinct (map td_key (wf_tasks w))"
    and "\<forall>t \<in> set (wf_tasks w). distinct (td_dependencies t)"
    and "wr_workflow_name run = ep_workflow_name p" "wr_workflow_version run = ep_workflow_version p"
    and "wr_definition_fingerprint run = ep_definition_fingerprint p"
    and "plan_fingerprint c p = Inr (wr_plan_fingerprint run)"
    and "list_task_runs run_id s = (Inr task_runs, s')"
    and "td_key ` set (wf_tasks w) \<subseteq> tr_task_key ` set task_runs"
    and "e \<in> set (ep_tasks p)" "td_trigger_rule (te_task e) = ALL_SUCCESS"
    and "dict_get (runs_by_key task_runs) (te_key e) = Some t" "tr_status t = T_PENDING"
    and "\<forall>d \<in> set (te_dependencies e). \<exists>u. dict_get (runs_by_key task_runs) d = Some u \<and> tr_status u = T_REUSED"
    and "\<forall>e' \<in> set (ep_tasks p). \<forall>t'. dict_get (runs_by_key task_runs) (te_key e') = Some t' \<and>
      tr_status t' \<in> {T_PENDING, T_READY} \<longrightarrow>
      (\<exists>d \<in> set (te_dependencies e'). \<forall>u. dict_get (runs_by_key task_runs) d = Some u \<longrightarrow> tr_status u \<noteq> T_SUCCEEDED)"
    and "\<forall>u \<in> set task_runs. tr_status u \<notin> {T_RUNNING, T_UNKNOWN_OUTCOME}"
  shows "evaluate_readiness e (map (\<lambda>(k, t). (k, tr_status t)) (runs_by_key task_runs)) =
      Inr \<lparr>rd_ready = True, rd_skip_reason = None\<rparr> \<and>
    (\<exists>r. inspect c (Inr p) run_id s = (Inr r, s) \<and> te_key e \<in> set (ri_blocked_task_keys r) \<and> ri_deadlocked r)"
proof -
  let ?d = "runs_by_key task_runs"
  have ts: "task_runs = runs_of run_id s"
    using assms(10) list_task_runs_ok [OF assms(1), of run_id] by (auto simp: runs_of_def)
  have same: "require_same_plan c ''runtime inspection plan does not match persisted WorkflowRun identity'' run p = Inr ()"
    using assms(6-9) by (simp add: require_same_plan_iff)
  from inspect_answers [OF assms(1-5) same assms(11) [unfolded ts]] obtain r where r:
    "inspect c (Inr p) run_id s = (Inr r, s)"
    "ri_ready_task_keys r = map te_key (filter (startable ?d) (ep_tasks p))"
    "ri_blocked_task_keys r = map te_key (filter (waiting ?d) (ep_tasks p))"
    "ri_deadlocked r \<longleftrightarrow> (\<exists>t \<in> set task_runs. tr_status t \<notin> TASK_RUN_TERMINAL_STATUSES) \<and>
       ri_ready_task_keys r = [] \<and>
       (\<forall>t \<in> set task_runs. tr_status t \<notin> TASK_RUN_TERMINAL_STATUSES \<longrightarrow> tr_status t \<notin> ACTIVE_TASK_STATUSES)"
    unfolding ts by blast
  have stuck: "\<not> startable ?d e'" if e': "e' \<in> set (ep_tasks p)" for e'
  proof
    assume st: "startable ?d e'"
    then obtain t' where "dict_get ?d (te_key e') = Some t'" "tr_status t' \<in> {T_PENDING, T_READY}"
      by (auto simp: startable_def SCHEDULABLE_TASK_STATUSES_def)
    then obtain d where "d \<in> set (te_dependencies e')" "\<forall>u. dict_get ?d d = Some u \<longrightarrow> tr_status u \<noteq> T_SUCCEEDED"
      using assms(17) e' by blast
    with st show False by (auto simp: startable_def)
  qed
  have "ri_ready_task_keys r = []" using r(2) stuck by (simp add: filter_empty_conv)
  moreover have "t \<in> set task_runs" "tr_status t \<notin> TASK_RUN_TERMINAL_STATUSES"
    using runs_by_key_Some [OF assms(14)] assms(15) by (simp_all add: terminal_defs)
  ultimately have "ri_deadlocked r" using r(4) assms(18) by (auto simp: ACTIVE_TASK_STATUSES_def)
  moreover have "waiting ?d e"
    using assms(14,15) stuck [OF assms(12)] by (simp add: waiting_def SCHEDULABLE_TASK_STATUSES_def)
  then have "te_key e \<in> set (ri_blocked_task_keys r)" using r(3) assms(12) by auto
  moreover have "evaluate_readiness e (map (\<lambda>(k, t). (k, tr_status t)) ?d) = Inr \<lparr>rd_ready = True, rd_skip_reason = None\<rparr>"
  proof (rule readiness_all_success [THEN iffD2])
    show "\<forall>k \<in> set (te_dependencies e). dict_get ?d k \<noteq> None" using assms(16) by auto
  qed (use assms(13,16) in auto)
  ultimately show ?thesis using r(1) by blast
qed

section \<open>Concrete instances\<close>

text \<open>A resumed run of the diamond; its first task was reused.  The digest of this codec is constant.\<close>

definition plain_codec :: codec where
  "plain_codec = \<lparr>sha256 = (\<lambda>s. ''0''), float_repr = (\<lambda>r. ''0.5'')\<rparr>"

definition resumed_run :: workflow_run where
  "resumed_run = sample_run\<lparr>wr_workflow_name := ''sample'', wr_definition_fingerprint := ''sha256:0'',
     wr_plan_fingerprint := ''sha256:0''\<rparr>"

definition diamond_task :: "string \<Rightarrow> task_run" where
  "diamond_task key = sample_task_run\<lparr>tr_task_run_id := TaskRunId (''task-'' @ key), tr_task_key := key\<rparr>"

definition resumed_prepare :: "(world, task_run) act" where
  "resumed_prepare =
     thenA (in_store (create_workflow_run resumed_run))
    (thenA (in_store (create_task_run (diamond_task ''start'')))
    (thenA (in_store (create_task_run (diamond_task ''left'')))
    (thenA (in_store (create_task_run (diamond_task ''right'')))
    (thenA (in_store (create_task_run (diamond_task ''join'')))
    (transition_task sample_services (diamond_task ''start'') T_REUSED None None)))))"

definition resumed_store :: store where
  "resumed_store = w_store (snd (resumed_prepare empty_world))"

definition resumed_tasks :: "task_run list" where
  "resumed_tasks = runs_of (WorkflowRunId ''run'') resumed_store"

lemma plain_digest [simp]: "canonical_json_digest plain_codec j = ''sha256:0''"
  by (simp add: canonical_json_digest_def plain_codec_def)

lemma resumed_ids: "\<not> blank (wid_str (wr_run_id resumed_run))" "\<not> blank (tid_str (tr_task_run_id (diamond_task key)))"
  by (simp_all add: resumed_run_def sample_run_def diamond_task_def blank_def py_isspace_def)

lemma resumed_store_ok: "store_ok resumed_store"
proof -
  have "maintains lawful resumed_prepare"
    unfolding resumed_prepare_def
    by (intro law.combinators lawful_intros in_store_lawful create_workflow_run_evolves create_task_run_evolves
      resumed_ids sample_services_lawful)
  then have "lawful empty_world (snd (resumed_prepare empty_world))" by (simp add: maintains_def)
  then show ?thesis using lawful_ok by (simp add: resumed_store_def empty_world_def empty_store_ok)
qed

lemma resumed_records:
  "dict_get (st_workflow_runs resumed_store) (WorkflowRunId ''run'') = Some resumed_run"
  "map (\<lambda>t. (tr_task_key t, tr_status t)) resumed_tasks =
     [(''join'', T_PENDING), (''left'', T_PENDING), (''right'', T_PENDING), (''start'', T_REUSED)]"
  "map (\<lambda>k. map_option tr_status (dict_get (runs_by_key resumed_tasks) k)) [''start'', ''left'', ''right'', ''join''] =
     [Some T_REUSED, Some T_PENDING, Some T_PENDING, Some T_PENDING]"
  by code_simp+

lemma resumed_listed: "list_task_runs (WorkflowRunId ''run'') resumed_store = (Inr resumed_tasks, resumed_store)"
  using list_task_runs_ok [OF resumed_store_ok] by (simp add: resumed_tasks_def runs_of_def)

lemma compiled_names:
  "compile c w = Inr p \<Longrightarrow> ep_workflow_name p = wf_name w \<and> ep_workflow_version p = wf_version w \<and>
     fingerprint c w = Inr (ep_definition_fingerprint p)"
  by (auto simp: compile_def bindR_Inr_iff thenR_Inr_iff mk_execution_plan_def)

lemma resumed_plan:
  obtains p where "compile plain_codec diamond = Inr p" "ep_workflow_name p = ''sample''"
    "ep_workflow_version p = ''1''" "ep_definition_fingerprint p = ''sha256:0''"
    "plan_fingerprint plain_codec p = Inr ''sha256:0''" "te_task ` set (ep_tasks p) = set (wf_tasks diamond)"
proof -
  obtain p where p: "compile plain_codec diamond = Inr p"
    using diamond_fingerprint compile_succeeds [OF diamond_ready] by blast
  have "fingerprint plain_codec diamond = Inr d \<Longrightarrow> d = ''sha256:0''" for d
    by (auto simp: fingerprint_def strict_digest_def bindR_Inr_iff thenR_Inr_iff)
  then have "ep_definition_fingerprint p = ''sha256:0''" using compiled_names [OF p] by blast
  moreover have "plan_fingerprint plain_codec p = Inr ''sha256:0''"
    using compiled_fingerprint [OF p diamond_tasks] by (metis plain_digest)
  moreover have "te_task ` set (ep_tasks p) = set (wf_tasks diamond)"
    using compiled_layout [OF p diamond_tasks] by (metis list.set_map set_mset_mset)
  moreover have "wf_name diamond = ''sample''" "wf_version diamond = ''1''" by (simp_all add: diamond_def sample_workflow_def)
  ultimately show thesis using compiled_names [OF p] p by (intro that [of p]) auto
qed

theorem lineage_exact_witness:
  "\<exists>p l. compile plain_codec diamond = Inr p \<and>
    project plain_codec (Inr p) (WorkflowRunId ''run'') resumed_store = (Inr l, resumed_store) \<and>
    map tl_task_key (el_tasks l) = map te_key (ep_tasks p)"
proof -
  obtain p where p: "compile plain_codec diamond = Inr p" "ep_workflow_name p = ''sample''"
    "ep_workflow_version p = ''1''" "ep_definition_fingerprint p = ''sha256:0''"
    "plan_fingerprint plain_codec p = Inr ''sha256:0''" using resumed_plan .
  have "tr_task_key ` set resumed_tasks = td_key ` set (wf_tasks diamond)"
  proof -
    have "map tr_task_key resumed_tasks = [''join'', ''left'', ''right'', ''start'']"
      using arg_cong [OF resumed_records(2), of "map fst"] by (simp add: o_def)
    then have "tr_task_key ` set resumed_tasks = set [''join'', ''left'', ''right'', ''start'']" by (metis list.set_map)
    then show ?thesis by (auto simp: diamond_def sample_workflow_def)
  qed
  then have "tr_task_key ` {t. \<exists>i. dict_get (st_task_runs resumed_store) i = Some t \<and>
      tr_workflow_run_id t = WorkflowRunId ''run''} = td_key ` set (wf_tasks diamond)"
    using runs_of_members [OF resumed_store_ok] by (simp add: resumed_tasks_def)
  then show ?thesis
    using lineage_exact [OF resumed_store_ok resumed_records(1) p(1) diamond_tasks] p
    by (auto simp: resumed_run_def sample_run_def)
qed

lemma resumed_keys: "td_key ` set (wf_tasks diamond) \<subseteq> tr_task_key ` set resumed_tasks"
proof -
  have "map tr_task_key resumed_tasks = [''join'', ''left'', ''right'', ''start'']"
    using arg_cong [OF resumed_records(2), of "map fst"] by (simp add: o_def)
  then have "tr_task_key ` set resumed_tasks = set [''join'', ''left'', ''right'', ''start'']" by (metis list.set_map)
  then show ?thesis by (auto simp: diamond_def sample_workflow_def)
qed

lemma resumed_identity:
  "wr_workflow_name resumed_run = ''sample''" "wr_workflow_version resumed_run = ''1''"
  "wr_definition_fingerprint resumed_run = ''sha256:0''" "wr_plan_fingerprint resumed_run = ''sha256:0''"
  by (simp_all add: resumed_run_def sample_run_def)

theorem inspection_exact_witness:
  "\<exists>p r. compile plain_codec diamond = Inr p \<and>
    inspect plain_codec (Inr p) (WorkflowRunId ''run'') resumed_store = (Inr r, resumed_store)"
proof -
  obtain p where p: "compile plain_codec diamond = Inr p" "ep_workflow_name p = ''sample''"
    "ep_workflow_version p = ''1''" "ep_definition_fingerprint p = ''sha256:0''"
    "plan_fingerprint plain_codec p = Inr ''sha256:0''" using resumed_plan .
  show ?thesis
    using inspection_exact [OF resumed_store_ok resumed_records(1) p(1) diamond_tasks _ _ _ _ resumed_listed resumed_keys]
      p resumed_identity by auto
qed

lemma resumed_statuses:
  "\<exists>u. dict_get (runs_by_key resumed_tasks) ''start'' = Some u \<and> tr_status u = T_REUSED"
  "\<exists>u. dict_get (runs_by_key resumed_tasks) ''left'' = Some u \<and> tr_status u = T_PENDING"
  "\<exists>u. dict_get (runs_by_key resumed_tasks) ''right'' = Some u \<and> tr_status u = T_PENDING"
  using resumed_records(3) by (auto simp: map_option_case split: option.splits)

theorem reused_upstream_reported_as_deadlock_witness:
  "\<exists>p r. compile plain_codec diamond = Inr p \<and>
    inspect plain_codec (Inr p) (WorkflowRunId ''run'') resumed_store = (Inr r, resumed_store) \<and>
    ''left'' \<in> set (ri_blocked_task_keys r) \<and> ri_deadlocked r"
proof -
  obtain p where p: "compile plain_codec diamond = Inr p" "ep_workflow_name p = ''sample''"
    "ep_workflow_version p = ''1''" "ep_definition_fingerprint p = ''sha256:0''"
    "plan_fingerprint plain_codec p = Inr ''sha256:0''" "te_task ` set (ep_tasks p) = set (wf_tasks diamond)"
    using resumed_plan .
  have tasks: "set (wf_tasks diamond) = {sample_task ''join'' [''right'', ''left''], sample_task ''left'' [''start''],
     sample_task ''right'' [''start''], sample_task ''start'' []}"
    by (simp add: diamond_def sample_workflow_def)
  have "sample_task ''left'' [''start''] \<in> te_task ` set (ep_tasks p)" unfolding p(6) tasks by simp
  then obtain e where e: "e \<in> set (ep_tasks p)" "te_task e = sample_task ''left'' [''start'']" by auto
  obtain t where t: "dict_get (runs_by_key resumed_tasks) ''left'' = Some t" "tr_status t = T_PENDING"
    using resumed_statuses(2) by blast
  have waits: "\<forall>e' \<in> set (ep_tasks p). \<forall>t'. dict_get (runs_by_key resumed_tasks) (te_key e') = Some t' \<and>
      tr_status t' \<in> {T_PENDING, T_READY} \<longrightarrow>
      (\<exists>d \<in> set (te_dependencies e'). \<forall>u. dict_get (runs_by_key resumed_tasks) d = Some u \<longrightarrow> tr_status u \<noteq> T_SUCCEEDED)"
  proof (intro ballI allI impI)
    fix e' t' assume "e' \<in> set (ep_tasks p)"
      and t': "dict_get (runs_by_key resumed_tasks) (te_key e') = Some t' \<and> tr_status t' \<in> {T_PENDING, T_READY}"
    then have "te_task e' \<in> set (wf_tasks diamond)" using p(6) by blast
    then show "\<exists>d \<in> set (te_dependencies e'). \<forall>u. dict_get (runs_by_key resumed_tasks) d = Some u \<longrightarrow> tr_status u \<noteq> T_SUCCEEDED"
      using t' resumed_statuses unfolding tasks by auto
  qed
  have quiet: "\<forall>u \<in> set resumed_tasks. tr_status u \<notin> {T_RUNNING, T_UNKNOWN_OUTCOME}"
  proof -
    have "map tr_status resumed_tasks = [T_PENDING, T_PENDING, T_PENDING, T_REUSED]"
      using arg_cong [OF resumed_records(2), of "map snd"] by (simp add: o_def)
    then have "tr_status ` set resumed_tasks = set [T_PENDING, T_PENDING, T_PENDING, T_REUSED]" by (metis list.set_map)
    then have "tr_status u \<in> {T_PENDING, T_REUSED}" if "u \<in> set resumed_tasks" for u using that by auto
    then show ?thesis by fastforce
  qed
  have "evaluate_readiness e (map (\<lambda>(k, t). (k, tr_status t)) (runs_by_key resumed_tasks)) =
      Inr \<lparr>rd_ready = True, rd_skip_reason = None\<rparr> \<and>
    (\<exists>r. inspect plain_codec (Inr p) (WorkflowRunId ''run'') resumed_store = (Inr r, resumed_store) \<and>
       te_key e \<in> set (ri_blocked_task_keys r) \<and> ri_deadlocked r)"
    by (rule reused_upstream_reported_as_deadlock [OF resumed_store_ok resumed_records(1) p(1) diamond_tasks _ _ _ _
          resumed_listed resumed_keys e(1) _ _ t(2) _ waits quiet])
      (use p resumed_identity e(2) t(1) resumed_statuses(1) in \<open>auto simp: sample_task_def\<close>)
  then show ?thesis using p(1) e(2) by auto
qed

end
