(* ===== verification/Builders.thy ===== *)
theory Builders
  imports Authoring
begin

text \<open>
  The mutable authoring layer: \<open>WorkflowDefinitionBuilder\<close> with its depth-first cycle check
  (\<open>authoring/builders.py\<close>), the decorator sugar (\<open>authoring/decorators.py\<close>), and the flow
  operators that declare dependencies between task objects (\<open>authoring/validation.py\<close>).

  The recursion of \<open>dfs\<close> takes fuel, one more than the number of tasks; the theorem on the cycle
  check shows that it never runs out.  The \<open>return cycle\<close> that every level of the recursion hands on
  is the exception that the caller raises from it.
\<close>

section \<open>The depth-first cycle check\<close>

record dfs_state =
  df_visited :: "string list"  \<comment> \<open>a set in the source\<close>
  df_stack :: "string list"

definition enter_node :: "string \<Rightarrow> dfs_state \<Rightarrow> dfs_state" where
  "enter_node node s = s\<lparr>df_visited := node # df_visited s, df_stack := df_stack s @ [node]\<rparr>"

definition leave_node :: "dfs_state \<Rightarrow> dfs_state" where
  "leave_node s = s\<lparr>df_stack := butlast (df_stack s)\<rparr>"

definition visit_neighbor :: "(string \<Rightarrow> (dfs_state, unit) act) \<Rightarrow> string \<Rightarrow> (dfs_state, unit) act" where
  "visit_neighbor explore neighbor = bindA (gets (\<lambda>s. s)) (\<lambda>s.
     if neighbor \<notin> set (df_visited s) then explore neighbor
     else if neighbor \<in> set (df_stack s) then
       raise (CircularDependency (dropWhile (\<lambda>x. x \<noteq> neighbor) (df_stack s) @ [neighbor]))
     else ret ())"

primrec dfs :: "nat \<Rightarrow> depmap \<Rightarrow> string \<Rightarrow> (dfs_state, unit) act" where
  "dfs 0 deps node = raise Diverged"
| "dfs (Suc fuel) deps node =
     thenA (modifyA (enter_node node))
    (thenA (forA (deps_of deps node) (visit_neighbor (dfs fuel deps)))
    (modifyA leave_node))"

definition known_deps :: "task_definition list \<Rightarrow> depmap" where
  "known_deps tasks = fold (\<lambda>t. dict_set (td_key t)
     (filter (\<lambda>d. d \<in> td_key ` set tasks) (td_dependencies t))) tasks []"

definition check_builder_cycles :: "task_definition list \<Rightarrow> unit result" where
  "check_builder_cycles tasks = fst (forA tasks (\<lambda>t. bindA (gets df_visited) (\<lambda>visited.
       if td_key t \<notin> set visited then dfs (Suc (length tasks)) (known_deps tasks) (td_key t) else ret ()))
     \<lparr>df_visited = [], df_stack = []\<rparr>)"

section \<open>The builder\<close>

record builder =
  bl_name :: string
  bl_version :: string
  bl_failure_policy :: failure_policy
  bl_metadata :: "(string \<times> pyval) list"
  bl_tasks :: "task_definition list"
  bl_task_keys :: "string list"

definition mk_builder :: "string \<Rightarrow> string \<Rightarrow> failure_policy \<Rightarrow> (string \<times> pyval) list \<Rightarrow> builder" where
  "mk_builder name version failure_policy metadata =
     \<lparr>bl_name = name, bl_version = version, bl_failure_policy = failure_policy, bl_metadata = metadata,
      bl_tasks = [], bl_task_keys = []\<rparr>"

definition builder_add :: "task_definition \<Rightarrow> (builder, task_definition) act" where
  "builder_add t =
     bindA (gets bl_task_keys) (\<lambda>keys.
     thenA (requireA (td_key t \<notin> set keys)
       (ValueError (''workflow builder already contains task key '' @ py_quote (td_key t))))
    (thenA (modifyA (\<lambda>b. b\<lparr>bl_tasks := bl_tasks b @ [t], bl_task_keys := td_key t # bl_task_keys b\<rparr>))
    (bindA (gets bl_tasks) (\<lambda>tasks.
     thenA (liftR (check_builder_cycles tasks)) (ret t)))))"

text \<open>\<open>t\<close> holds the arguments of the call as a task, \<open>depends_on\<close> already reduced to keys.\<close>

definition builder_task :: "task_definition \<Rightarrow> (string \<times> pyval) list \<Rightarrow> (builder, task_definition) act" where
  "builder_task t metadata =
     bindA (gets bl_task_keys) (\<lambda>keys.
     thenA (requireA (td_key t \<notin> set keys)
       (ValueError (''workflow builder already contains task key '' @ py_quote (td_key t))))
    (bindA (liftR (mk_task_definition t metadata)) (\<lambda>task.
     thenA (modifyA (\<lambda>b. b\<lparr>bl_tasks := bl_tasks b @ [task], bl_task_keys := td_key task # bl_task_keys b\<rparr>))
    (bindA (gets bl_tasks) (\<lambda>tasks.
     thenA (liftR (check_builder_cycles tasks)) (ret task))))))"

definition builder_build :: "(builder, workflow_definition) act" where
  "builder_build = bindA (gets (\<lambda>b. b)) (\<lambda>b. liftR (mk_workflow_definition
     \<lparr>wf_name = bl_name b, wf_tasks = bl_tasks b, wf_version = bl_version b,
      wf_failure_policy = bl_failure_policy b, wf_metadata = []\<rparr> (bl_metadata b)))"

section \<open>Decorators\<close>

text \<open>\<open>@task\<close> on a callable with these attributes: the key defaults to \<open>__name__\<close>.\<close>

definition decorate_task ::
  "string option \<Rightarrow> string \<Rightarrow> workload \<Rightarrow> task_definition \<Rightarrow> (string \<times> pyval) list \<Rightarrow> task_definition result" where
  "decorate_task key function_name handler t metadata =
     mk_task_definition (t\<lparr>td_key := (case key of None \<Rightarrow> function_name
         | Some k \<Rightarrow> if k = [] then function_name else k), td_workload := handler\<rparr>) metadata"

text \<open>\<open>WorkflowTemplate\<close>: the declaration is a function outside the program that returns tasks or raises.\<close>

record template =
  tp_declaration :: "task_definition list result"
  tp_name :: string
  tp_version :: string
  tp_failure_policy :: failure_policy
  tp_metadata :: "(string \<times> pyval) list option"

definition build_template :: "template \<Rightarrow> workflow_definition result" where
  "build_template tp = bindR (tp_declaration tp) (\<lambda>tasks. mk_workflow_definition
     \<lparr>wf_name = tp_name tp, wf_tasks = tasks, wf_version = tp_version tp,
      wf_failure_policy = tp_failure_policy tp, wf_metadata = []\<rparr>
     (case tp_metadata tp of None \<Rightarrow> [] | Some m \<Rightarrow> m))"

section \<open>Dependencies between task objects\<close>

text \<open>
  Task objects live at addresses (\<open>id(task)\<close>).  \<open>au_upstream\<close> and \<open>au_registered\<close> are the global
  \<open>_UPSTREAM_MAP\<close> and \<open>_TASK_MAP\<close>; the members of an upstream set are kept in insertion order.
\<close>

type_synonym address = nat

record authoring =
  au_objects :: "(address, task_definition) dict"
  au_upstream :: "(address, address list) dict"
  au_registered :: "address list"

definition register_authoring_task :: "address \<Rightarrow> authoring \<Rightarrow> authoring" where
  "register_authoring_task a s = (if a \<in> set (au_registered s) then s
     else s\<lparr>au_registered := au_registered s @ [a], au_upstream := dict_set a [] (au_upstream s)\<rparr>)"

definition cleanup_task :: "address \<Rightarrow> authoring \<Rightarrow> authoring" where
  \<comment> \<open>The finalizer \<open>_cleanup_task\<close>.\<close>
  "cleanup_task a s = s\<lparr>au_objects := dict_pop a (au_objects s),
     au_registered := removeAll a (au_registered s),
     au_upstream := map (\<lambda>(k, us). (k, removeAll a us)) (dict_pop a (au_upstream s))\<rparr>"

definition upstreams :: "authoring \<Rightarrow> address \<Rightarrow> address list" where
  "upstreams s a = (case dict_get (au_upstream s) a of None \<Rightarrow> [] | Some us \<Rightarrow> us)"

definition extend_paths :: "address list \<Rightarrow> address list \<Rightarrow> address list list \<times> address list \<Rightarrow> address list list \<times> address list" where
  \<comment> \<open>The inner loop of \<open>_find_path\<close> over the upstreams of the last node of \<open>path\<close>.\<close>
  "extend_paths path us state = fold (\<lambda>u (queue, visited).
     if u \<in> set visited then (queue, visited) else (queue @ [path @ [u]], visited @ [u])) us state"

lemma extend_paths_measure:
  assumes "extend_paths path us (queue, visited) = (queue', visited')" "set us \<subseteq> U" "finite U"
  shows "card (U - set visited') + length queue' \<le> card (U - set visited) + length queue"
  using assms(1,2) unfolding extend_paths_def
proof (induction us arbitrary: queue visited)
  case (Cons u us)
  show ?case
  proof (cases "u \<in> set visited")
    case False
    then have "card (U - set (visited @ [u])) + 1 = card (U - set visited)"
      using Cons.prems(2) assms(3)
      by (metis (no_types, lifting) Diff_insert DiffI Suc_eq_plus1 card_Suc_Diff1 finite_Diff insert_subset
          list.simps(15) set_append Un_insert_right sup_bot_right empty_set)
    then show ?thesis
      using Cons.IH [of "queue @ [path @ [u]]" "visited @ [u]"] Cons.prems False by simp
  qed (use Cons in simp)
qed simp

definition all_upstreams :: "authoring \<Rightarrow> address set" where
  "all_upstreams s = (\<Union>(k, us) \<in> set (au_upstream s). set us)"

lemma upstreams_subset: "set (upstreams s a) \<subseteq> all_upstreams s"
proof (cases "dict_get (au_upstream s) a")
  case (Some us)
  then show ?thesis using map_of_SomeD [OF Some] by (force simp: upstreams_def all_upstreams_def)
qed (simp add: upstreams_def)

lemma finite_all_upstreams [simp]: "finite (all_upstreams s)"
  by (auto simp: all_upstreams_def)

function find_path :: "authoring \<Rightarrow> address \<Rightarrow> address list list \<Rightarrow> address list \<Rightarrow> address list option" where
  "find_path s target [] visited = None"
| "find_path s target (path # queue) visited =
     (if last path = target then Some path
      else case extend_paths path (upstreams s (last path)) (queue, visited) of
        (queue', visited') \<Rightarrow> find_path s target queue' visited')"
  by pat_completeness auto
termination
proof (relation "measure (\<lambda>(s, target, queue, visited). card (all_upstreams s - set visited) + length queue)")
  fix s :: authoring and target :: address and path queue visited queue' visited'
  assume "(queue', visited') = extend_paths path (upstreams s (last path)) (queue, visited)"
  then have "extend_paths path (upstreams s (last path)) (queue, visited) = (queue', visited')" by simp
  from extend_paths_measure [OF this upstreams_subset finite_all_upstreams]
  show "((s, target, queue', visited'), s, target, path # queue, visited)
      \<in> measure (\<lambda>(s, target, queue, visited). card (all_upstreams s - set visited) + length queue)"
    by simp
qed simp

definition object_key :: "authoring \<Rightarrow> address \<Rightarrow> string" where
  \<comment> \<open>The key of the task at an address; \<open>str(tid)\<close> for an address that is not registered.\<close>
  "object_key s a = (case dict_get (au_objects s) a of None \<Rightarrow> digits_of a | Some t \<Rightarrow> td_key t)"

definition add_dependency_key :: "string \<Rightarrow> task_definition \<Rightarrow> task_definition" where
  "add_dependency_key key t = (if key \<in> set (td_dependencies t) then t
     else t\<lparr>td_dependencies := sort (remdups (td_dependencies t @ [key]))\<rparr>)"

definition add_authoring_dependency :: "address \<Rightarrow> address \<Rightarrow> (authoring, unit) act" where
  "add_authoring_dependency upstream downstream =
     bindA (gets (\<lambda>s. (object_key s upstream, object_key s downstream))) (\<lambda>(up_key, down_key).
     thenA (requireA (\<not> (up_key = down_key \<or> upstream = downstream)) (CircularDependency [up_key, down_key]))
    (thenA (modifyA (register_authoring_task upstream))
    (thenA (modifyA (register_authoring_task downstream))
    (bindA (gets (\<lambda>s. find_path s downstream [[upstream]] [upstream])) (\<lambda>found.
     case found of
       Some path \<Rightarrow> bindA (gets (\<lambda>s. map (object_key s) (rev path))) (\<lambda>keys.
         raise (CircularDependency (keys @ [down_key])))
     | None \<Rightarrow> modifyA (\<lambda>s. s\<lparr>
         au_upstream := dict_set downstream
           (if upstream \<in> set (upstreams s downstream) then upstreams s downstream
            else upstreams s downstream @ [upstream]) (au_upstream s),
         au_objects := (case dict_get (au_objects s) downstream of None \<Rightarrow> au_objects s
           | Some t \<Rightarrow> dict_set downstream (add_dependency_key up_key t) (au_objects s))\<rparr>))))))"

text \<open>The operators \<open>a >> [b, ...]\<close>, \<open>[a, ...] >> b\<close> and \<open>[a, ...] >> [b, ...]\<close> (and \<open><<\<close> with the operands
  swapped): every pair, in order.  The operand they return for chaining is left out.\<close>

definition fan_out :: "address \<Rightarrow> address list \<Rightarrow> (authoring, unit) act" where
  "fan_out u downs = forA downs (\<lambda>d. add_authoring_dependency u d)"

definition fan_in :: "address list \<Rightarrow> address \<Rightarrow> (authoring, unit) act" where
  "fan_in ups d = forA ups (\<lambda>u. add_authoring_dependency u d)"

definition flow :: "address list \<Rightarrow> address list \<Rightarrow> (authoring, unit) act" where
  "flow ups downs = forA ups (\<lambda>u. forA downs (\<lambda>d. add_authoring_dependency u d))"

section \<open>The cycle check is exact\<close>

definition edge_in :: "depmap \<Rightarrow> string \<Rightarrow> string \<Rightarrow> bool" where
  "edge_in deps k d \<longleftrightarrow> d \<in> set (deps_of deps k)"

definition closed_walk :: "depmap \<Rightarrow> string list \<Rightarrow> bool" where
  "closed_walk deps c \<longleftrightarrow> 2 \<le> length c \<and> hd c = last c \<and> successively (edge_in deps) c"

definition dfs_inv :: "depmap \<Rightarrow> string set \<Rightarrow> dfs_state \<Rightarrow> string list \<Rightarrow> bool" where
  "dfs_inv deps K s fin \<longleftrightarrow> distinct (df_stack s) \<and> distinct fin \<and>
     set (df_stack s) \<inter> set fin = {} \<and> set (df_visited s) = set (df_stack s) \<union> set fin \<and>
     set (df_visited s) \<subseteq> K \<and> successively (edge_in deps) (df_stack s) \<and>
     (\<forall>i < length fin. set (deps_of deps (fin ! i)) \<subseteq> set (take i fin))"

lemma dfs_inv_enter:
  assumes "dfs_inv deps K s fin" "node \<in> K" "node \<notin> set (df_visited s)"
    "df_stack s = [] \<or> edge_in deps (last (df_stack s)) node"
  shows "dfs_inv deps K (enter_node node s) fin"
  using assms by (auto simp: dfs_inv_def enter_node_def successively_append_iff)

lemma dfs_inv_leave:
  assumes "dfs_inv deps K s fin" "df_stack s = stack @ [node]" "set (deps_of deps node) \<subseteq> set fin"
  shows "dfs_inv deps K (leave_node s) (fin @ [node])"
  using assms by (auto simp: dfs_inv_def leave_node_def successively_append_iff nth_append less_Suc_eq)

lemma back_edge_walk:
  assumes "successively (edge_in deps) (stack @ [node])" "neighbor \<in> set (stack @ [node])" "edge_in deps node neighbor"
  shows "closed_walk deps (dropWhile (\<lambda>x. x \<noteq> neighbor) (stack @ [node]) @ [neighbor])"
proof -
  let ?t = "dropWhile (\<lambda>x. x \<noteq> neighbor) (stack @ [node])"
  have ne: "?t \<noteq> []" using assms(2) by (simp only: dropWhile_eq_Nil_conv) auto
  have "last ?t = node"
    using ne by (metis last_appendR last_snoc takeWhile_dropWhile_id)
  moreover have "hd ?t = neighbor" using hd_dropWhile [OF ne] by simp
  moreover have "successively (edge_in deps) ?t"
    using assms(1) by (metis successively_append_iff takeWhile_dropWhile_id)
  ultimately show ?thesis
    using ne assms(3) by (simp add: closed_walk_def successively_append_iff Suc_le_eq)
qed

definition dfs_ok :: "depmap \<Rightarrow> string set \<Rightarrow> dfs_state \<Rightarrow> string list \<Rightarrow> string set \<Rightarrow> unit result \<times> dfs_state \<Rightarrow> bool" where
  "dfs_ok deps K s fin goal outcome \<longleftrightarrow> (case outcome of
     (Inl e, s') \<Rightarrow> \<exists>c. e = CircularDependency c \<and> closed_walk deps c
   | (Inr _, s') \<Rightarrow> \<exists>more. dfs_inv deps K s' (fin @ more) \<and> df_stack s' = df_stack s \<and> goal \<subseteq> set (fin @ more))"

lemma dfs_ok_extend:
  assumes "dfs_ok deps K s1 (fin @ prior) goal outcome" "df_stack s1 = df_stack s" "goal' \<subseteq> set (fin @ prior)"
  shows "dfs_ok deps K s fin (goal' \<union> goal) outcome"
proof (cases outcome)
  case (Pair r s2)
  show ?thesis
  proof (cases r)
    case (Inr u)
    then obtain extra where "dfs_inv deps K s2 (fin @ prior @ extra)" "df_stack s2 = df_stack s" "goal \<subseteq> set (fin @ prior @ extra)"
      using assms(1,2) Pair by (auto simp: dfs_ok_def)
    then show ?thesis using assms(3) Pair Inr by (auto simp: dfs_ok_def intro!: exI [of _ "prior @ extra"])
  qed (use assms(1) Pair in \<open>simp add: dfs_ok_def\<close>)
qed

lemma visit_neighbors:
  assumes explore: "\<And>s fin nb. dfs_inv deps K s fin \<Longrightarrow> df_stack s = stack @ [node] \<Longrightarrow> nb \<in> set (deps_of deps node) \<Longrightarrow>
      nb \<notin> set (df_visited s) \<Longrightarrow> dfs_ok deps K s fin {nb} (explore nb s)"
    and "set nbs \<subseteq> set (deps_of deps node)" "dfs_inv deps K s fin" "df_stack s = stack @ [node]"
  shows "dfs_ok deps K s fin (set nbs) (forA nbs (visit_neighbor explore) s)"
  using assms(2-)
proof (induction nbs arbitrary: s fin)
  case (Cons nb nbs)
  have first: "dfs_ok deps K s fin {nb} (visit_neighbor explore nb s)"
  proof (cases "nb \<in> set (df_visited s)")
    case False
    then show ?thesis using explore [OF Cons.prems(2,3), of nb] Cons.prems(1) by (simp add: visit_neighbor_def bindA_def)
  next
    case True
    then show ?thesis
    proof (cases "nb \<in> set (df_stack s)")
      case stacked: True
      then have "closed_walk deps (dropWhile (\<lambda>x. x \<noteq> nb) (df_stack s) @ [nb])"
        using Cons.prems back_edge_walk [of deps stack node nb] by (auto simp: dfs_inv_def edge_in_def)
      then show ?thesis using True stacked by (simp add: visit_neighbor_def bindA_def dfs_ok_def)
    next
      case False
      then have "nb \<in> set fin" using True Cons.prems(2) by (auto simp: dfs_inv_def)
      with True False Cons.prems(2) show ?thesis
        by (auto simp: visit_neighbor_def bindA_def dfs_ok_def intro!: exI [of _ "[]"])
    qed
  qed
  show ?case
  proof (cases "visit_neighbor explore nb s")
    case (Pair r s1)
    then show ?thesis
    proof (cases r)
      case (Inl e)
      with first Pair show ?thesis by (simp add: dfs_ok_def thenA_def bindA_def)
    next
      case (Inr u)
      then obtain more where m: "dfs_inv deps K s1 (fin @ more)" "df_stack s1 = df_stack s" "nb \<in> set (fin @ more)"
        using first Pair by (auto simp: dfs_ok_def)
      have "dfs_ok deps K s1 (fin @ more) (set nbs) (forA nbs (visit_neighbor explore) s1)"
        by (rule Cons.IH) (use Cons.prems m in auto)
      moreover have "forA (nb # nbs) (visit_neighbor explore) s = forA nbs (visit_neighbor explore) s1"
        using Pair Inr by simp
      ultimately show ?thesis
        using dfs_ok_extend [of deps K s1 fin more "set nbs" _ s "{nb}"] m(2,3) by simp
    qed
  qed
qed (auto simp: dfs_ok_def intro!: exI [of _ "[]"])

lemma dfs_correct:
  assumes inv: "dfs_inv deps K s fin" "node \<in> K" "node \<notin> set (df_visited s)"
      "df_stack s = [] \<or> edge_in deps (last (df_stack s)) node"
    and K: "finite K" "\<And>k. k \<in> K \<Longrightarrow> set (deps_of deps k) \<subseteq> K"
    and fuel: "card K < fuel + length (df_stack s)"
  shows "dfs_ok deps K s fin {node} (dfs fuel deps node s)"
  using inv fuel
proof (induction fuel arbitrary: s fin node)
  case 0
  have "length (df_stack s) \<le> card K"
    using 0(1) K(1) by (metis card_mono distinct_card dfs_inv_def le_sup_iff)
  with 0 show ?case by simp
next
  case (Suc fuel)
  let ?s = "enter_node node s"
  have entered: "dfs_inv deps K ?s fin" "df_stack ?s = df_stack s @ [node]"
    using dfs_inv_enter [OF Suc.prems(1-4)] by (simp_all add: enter_node_def)
  have "dfs_ok deps K ?s fin (set (deps_of deps node)) (forA (deps_of deps node) (visit_neighbor (dfs fuel deps)) ?s)"
  proof (rule visit_neighbors [OF _ order_refl entered])
    fix s1 fin1 nb
    assume "dfs_inv deps K s1 fin1" "df_stack s1 = df_stack s @ [node]" "nb \<in> set (deps_of deps node)"
      "nb \<notin> set (df_visited s1)"
    then show "dfs_ok deps K s1 fin1 {nb} (dfs fuel deps nb s1)"
      using Suc.prems(2,5) K(2) by (intro Suc.IH) (auto simp: edge_in_def)
  qed
  then show ?case
  proof (cases "forA (deps_of deps node) (visit_neighbor (dfs fuel deps)) ?s")
    case (Pair r s2)
    note loop = \<open>dfs_ok deps K ?s fin _ _\<close>
    have step: "dfs (Suc fuel) deps node s = (case r of Inl e \<Rightarrow> (Inl e, s2) | Inr _ \<Rightarrow> (Inr (), leave_node s2))"
      using Pair by (simp add: thenA_def bindA_def split: sum.splits)
    show ?thesis
    proof (cases r)
      case (Inl e)
      with loop Pair step show ?thesis by (simp add: dfs_ok_def)
    next
      case (Inr u)
      then obtain more where m: "dfs_inv deps K s2 (fin @ more)" "df_stack s2 = df_stack s @ [node]"
          "set (deps_of deps node) \<subseteq> set (fin @ more)"
        using loop Pair entered(2) by (auto simp: dfs_ok_def)
      from dfs_inv_leave [OF m] have "dfs_inv deps K (leave_node s2) (fin @ (more @ [node]))" by simp
      moreover have "df_stack (leave_node s2) = df_stack s" using m(2) by (simp add: leave_node_def)
      ultimately show ?thesis using step Inr by (auto simp: dfs_ok_def)
    qed
  qed
qed

lemma known_deps_eq:
  assumes "distinct (map td_key tasks)"
  shows "known_deps tasks = map (\<lambda>t. (td_key t, filter (\<lambda>d. d \<in> td_key ` set tasks) (td_dependencies t))) tasks"
proof -
  have "fold (\<lambda>t. dict_set (td_key t) (f t)) ts d = d @ map (\<lambda>t. (td_key t, f t)) ts"
    if "distinct (map td_key ts)" "td_key ` set ts \<inter> fst ` set d = {}" for f :: "task_definition \<Rightarrow> string list" and ts d
    using that
  proof (induction ts arbitrary: d)
    case (Cons t ts)
    then have "dict_set (td_key t) (f t) d = d @ [(td_key t, f t)]" by (intro dict_set_fresh) auto
    then show ?case using Cons.IH [of "d @ [(td_key t, f t)]"] Cons.prems by auto
  qed simp
  from this [OF assms, of "[]"] show ?thesis by (simp add: known_deps_def)
qed

lemma known_edge:
  assumes "distinct (map td_key tasks)"
  shows "edge_in (known_deps tasks) k d \<longleftrightarrow> (d, k) \<in> dep_edges tasks \<and> d \<in> td_key ` set tasks"
proof -
  have ok: "dict_ok (known_deps tasks)" using assms by (simp add: known_deps_eq [OF assms] dict_ok_def o_def)
  have "edge_in (known_deps tasks) k d \<longleftrightarrow> (\<exists>ds. (k, ds) \<in> set (known_deps tasks) \<and> d \<in> set ds)"
  proof (cases "dict_get (known_deps tasks) k")
    case None
    then show ?thesis using dict_get_iff [OF ok, of k] by (auto simp: edge_in_def deps_of_def)
  next
    case (Some ds)
    have "edge_in (known_deps tasks) k d \<longleftrightarrow> d \<in> set ds" by (simp add: edge_in_def deps_of_def Some)
    then show ?thesis using dict_get_iff [OF ok, of k] Some by (metis option.inject)
  qed
  also have "\<dots> \<longleftrightarrow> (d, k) \<in> dep_edges tasks \<and> d \<in> td_key ` set tasks"
    unfolding known_deps_eq [OF assms] by (auto simp: dep_edges_def)
  finally show ?thesis .
qed

lemma closed_walk_cycle:
  assumes "closed_walk deps c" "\<And>k d. edge_in deps k d \<Longrightarrow> (d, k) \<in> R"
  shows "\<not> acyclic R"
proof -
  have "(y, x) \<in> R\<^sup>+" if "successively (edge_in deps) (x # ys)" "ys \<noteq> []" "y = last ys" for x y ys
    using that
  proof (induction ys arbitrary: x)
    case (Cons z ys)
    then have zx: "(z, x) \<in> R" using assms(2) by simp
    show ?case
    proof (cases "ys = []")
      case False
      then have "(y, z) \<in> R\<^sup>+" using Cons by simp
      then show ?thesis using zx by (rule trancl_into_trancl)
    qed (use zx Cons.prems in auto)
  qed simp
  moreover obtain x ys where "c = x # ys" "ys \<noteq> []" "last ys = x" "successively (edge_in deps) (x # ys)"
    using assms(1) by (cases c) (auto simp: closed_walk_def split: if_splits)
  ultimately have "(x, x) \<in> R\<^sup>+" by blast
  then show ?thesis by (auto simp: acyclic_def)
qed

lemma check_loop:
  fixes tasks :: "task_definition list"
  assumes d: "distinct (map td_key tasks)" and "set ts \<subseteq> set tasks"
    and "dfs_inv (known_deps tasks) (td_key ` set tasks) s fin" "df_stack s = []"
  shows "dfs_ok (known_deps tasks) (td_key ` set tasks) s fin (td_key ` set ts)
    (forA ts (\<lambda>t. bindA (gets df_visited) (\<lambda>visited.
       if td_key t \<notin> set visited then dfs (Suc (length tasks)) (known_deps tasks) (td_key t) else ret ())) s)"
  using assms(2-)
proof (induction ts arbitrary: s fin)
  case (Cons t ts)
  let ?deps = "known_deps tasks" and ?K = "td_key ` set tasks"
  let ?body = "\<lambda>t. bindA (gets df_visited) (\<lambda>visited.
       if td_key t \<notin> set visited then dfs (Suc (length tasks)) ?deps (td_key t) else ret ())"
  have first: "dfs_ok ?deps ?K s fin {td_key t} (?body t s)"
  proof (cases "td_key t \<in> set (df_visited s)")
    case True
    then have "td_key t \<in> set fin" using Cons.prems(2,3) by (simp add: dfs_inv_def)
    with True Cons.prems(2) show ?thesis by (auto simp: bindA_def dfs_ok_def intro!: exI [of _ "[]"])
  next
    case False
    have "card ?K \<le> length tasks" by (metis card_length length_map list.set_map)
    moreover have "set (deps_of ?deps k) \<subseteq> ?K" for k
      using known_edge [OF d, of k] by (auto simp: edge_in_def)
    ultimately have "dfs_ok ?deps ?K s fin {td_key t} (dfs (Suc (length tasks)) ?deps (td_key t) s)"
      using False Cons.prems by (intro dfs_correct) auto
    then show ?thesis using False by (simp add: bindA_def del: dfs.simps)
  qed
  show ?case
  proof (cases "?body t s")
    case (Pair r s1)
    then show ?thesis
    proof (cases r)
      case (Inl e)
      with first Pair show ?thesis by (simp add: dfs_ok_def thenA_Inl del: dfs.simps)
    next
      case (Inr u)
      then obtain more where m: "dfs_inv ?deps ?K s1 (fin @ more)" "df_stack s1 = []" "td_key t \<in> set (fin @ more)"
        using first Pair Cons.prems(3) by (auto simp: dfs_ok_def)
      have tail: "dfs_ok ?deps ?K s1 (fin @ more) (td_key ` set ts) (forA ts ?body s1)"
        by (rule Cons.IH) (use Cons.prems m in auto)
      have eq: "forA (t # ts) ?body s = forA ts ?body s1"
        using Pair Inr by (simp del: dfs.simps)
      have goal: "td_key ` set (t # ts) = {td_key t} \<union> td_key ` set ts" by simp
      show ?thesis unfolding eq goal
        by (rule dfs_ok_extend [OF tail]) (use m(2,3) Cons.prems(3) in auto)
    qed
  qed
qed (auto simp: dfs_ok_def intro!: exI [of _ "[]"])

lemma check_decides:
  assumes "distinct (map td_key tasks)"
  shows "(check_builder_cycles tasks = Inr () \<longleftrightarrow> acyclic {(d, k) \<in> dep_edges tasks. d \<in> td_key ` set tasks}) \<and>
    (\<forall>e. check_builder_cycles tasks = Inl e \<longrightarrow> (\<exists>c. e = CircularDependency c \<and> 2 \<le> length c \<and> hd c = last c \<and>
      (\<forall>i. Suc i < length c \<longrightarrow> (c ! Suc i, c ! i) \<in> dep_edges tasks)))"
proof -
  let ?deps = "known_deps tasks" and ?K = "td_key ` set tasks" and ?s = "\<lparr>df_visited = [], df_stack = []\<rparr>"
  let ?R = "{(d, k) \<in> dep_edges tasks. d \<in> td_key ` set tasks}"
  have edge: "edge_in ?deps k d \<longleftrightarrow> (d, k) \<in> ?R" for k d using known_edge [OF assms] by auto
  have "dfs_inv ?deps ?K ?s []" by (simp add: dfs_inv_def)
  from check_loop [OF assms order_refl this] have ok: "dfs_ok ?deps ?K ?s [] ?K (forA tasks (\<lambda>t. bindA (gets df_visited) (\<lambda>visited.
       if td_key t \<notin> set visited then dfs (Suc (length tasks)) ?deps (td_key t) else ret ())) ?s)" by simp
  have walk: "\<exists>c. e = CircularDependency c \<and> closed_walk ?deps c" if "check_builder_cycles tasks = Inl e" for e
    using ok that by (auto simp: dfs_ok_def check_builder_cycles_def split: prod.splits sum.splits simp del: dfs.simps)
  have sound: "acyclic ?R" if accepted: "check_builder_cycles tasks = Inr ()"
  proof -
    obtain fin s' where f: "dfs_inv ?deps ?K s' fin" "?K \<subseteq> set fin"
      using ok accepted by (auto simp: dfs_ok_def check_builder_cycles_def split: prod.splits sum.splits simp del: dfs.simps)
    have "acyclic {(d, k). k \<in> set fin \<and> d \<in> set (deps_of ?deps k)}"
      using f(1) by (intro topological_acyclic) (auto simp: dfs_inv_def)
    moreover have "?R \<subseteq> {(d, k). k \<in> set fin \<and> d \<in> set (deps_of ?deps k)}"
      using f(2) edge by (auto simp: edge_in_def dep_edges_def)
    ultimately show ?thesis by (rule acyclic_subset)
  qed
  have "\<not> acyclic ?R" if "check_builder_cycles tasks = Inl e" for e
    using walk [OF that] closed_walk_cycle [of ?deps _ ?R] edge by blast
  then have "check_builder_cycles tasks = Inr () \<longleftrightarrow> acyclic ?R"
    using sound by (cases "check_builder_cycles tasks") auto
  moreover have "\<exists>c. e = CircularDependency c \<and> 2 \<le> length c \<and> hd c = last c \<and>
      (\<forall>i. Suc i < length c \<longrightarrow> (c ! Suc i, c ! i) \<in> dep_edges tasks)" if e: "check_builder_cycles tasks = Inl e" for e
  proof -
    obtain c where c: "e = CircularDependency c" "closed_walk ?deps c" using walk [OF e] by blast
    then show ?thesis using edge by (auto simp: closed_walk_def successively_conv_nth)
  qed
  ultimately show ?thesis by blast
qed

text \<open>C33: The builder's depth-first check is exact.  On tasks with distinct keys it accepts exactly when the
  dependencies among the tasks declared so far are acyclic (dependencies on tasks that are still to
  be declared do not count), and its recursion always ends; when it refuses, the reported path is a
  closed walk of at least one dependency, each key depending on the next.\<close>
theorem builder_cycle_check_exact:
  assumes "distinct (map td_key tasks)"
  shows "(check_builder_cycles tasks = Inr () \<longleftrightarrow> acyclic {(d, k) \<in> dep_edges tasks. d \<in> td_key ` set tasks}) \<and>
    (\<forall>e. check_builder_cycles tasks = Inl e \<longrightarrow> (\<exists>c. e = CircularDependency c \<and> 2 \<le> length c \<and> hd c = last c \<and>
      (\<forall>i. Suc i < length c \<longrightarrow> (c ! Suc i, c ! i) \<in> dep_edges tasks)))"
  using assms by (rule check_decides)

theorem builder_cycle_check_exact_witness:
  "check_builder_cycles [sample_task ''a'' [''b''], sample_task ''b'' [''later'']] = Inr () \<and>
   check_builder_cycles [sample_task ''a'' [''b''], sample_task ''b'' [''a'']] = Inl (CircularDependency [''a'', ''b'', ''a'']) \<and>
   \<not> acyclic {(d, k) \<in> dep_edges [sample_task ''a'' [''b''], sample_task ''b'' [''a'']]. d \<in> {''a'', ''b''}}"
proof -
  have "check_builder_cycles [sample_task ''a'' [''b''], sample_task ''b'' [''later'']] = Inr ()"
    "check_builder_cycles [sample_task ''a'' [''b''], sample_task ''b'' [''a'']] = Inl (CircularDependency [''a'', ''b'', ''a''])"
    by code_simp+
  then show ?thesis
    using builder_cycle_check_exact [of "[sample_task ''a'' [''b''], sample_task ''b'' [''a'']]"] by simp
qed

section \<open>A refused task stays in the builder\<close>

definition builder_ok :: "builder \<Rightarrow> bool" where
  "builder_ok b \<longleftrightarrow> distinct (map td_key (bl_tasks b)) \<and> set (bl_task_keys b) = td_key ` set (bl_tasks b)"

lemma builder_add_eq:
  assumes "td_key t \<notin> set (bl_task_keys b)"
  shows "builder_add t b = (case check_builder_cycles (bl_tasks b @ [t]) of Inl e \<Rightarrow> Inl e | Inr _ \<Rightarrow> Inr t,
    b\<lparr>bl_tasks := bl_tasks b @ [t], bl_task_keys := td_key t # bl_task_keys b\<rparr>)"
  using assms by (simp add: builder_add_def bindA_def thenA_def split: sum.splits)

lemma builder_add_ok: "builder_ok b \<Longrightarrow> builder_ok (snd (builder_add t b))"
  by (cases "td_key t \<in> set (bl_task_keys b)")
    (auto simp: builder_add_eq builder_ok_def, auto simp: builder_add_def bindA_def thenA_def)

lemma check_cycles_Inr:
  "distinct (map td_key tasks) \<Longrightarrow> check_builder_cycles tasks = Inr () \<longleftrightarrow>
     acyclic {(d, k) \<in> dep_edges tasks. d \<in> td_key ` set tasks}"
  using check_decides by blast

lemma constructed_workflow:
  assumes "mk_workflow_definition w metadata = Inr w'"
  shows "valid_workflow w' \<and> wf_tasks w' = wf_tasks w"
proof -
  obtain frozen where "w' = w\<lparr>wf_metadata := frozen\<rparr>" "validate w' = Inr ()" "\<not> blank (wf_name w)"
    "\<not> blank (wf_version w)" "wf_tasks w \<noteq> []" "distinct (map td_key (wf_tasks w))"
    using assms by (auto simp: mk_workflow_definition_def thenR_Inr_iff bindR_Inr_iff case_duplicate_Inr)
  then show ?thesis using validate_Inr_iff [of w'] by (simp add: valid_workflow_def)
qed

text \<open>A task that closes a cycle poisons the builder.  \<open>add\<close> appends the task before it checks for
  cycles, so when the check raises the task stays: every later \<open>add\<close> of any task raises as well, and
  \<open>build\<close> raises too, although the author never got the task accepted.\<close>
theorem builder_keeps_rejected_task:
  assumes "builder_ok b" "td_key t \<notin> set (bl_task_keys b)" "builder_add t b = (Inl e, b')"
  shows "t \<in> set (bl_tasks b') \<and> (\<forall>u. td_key u \<notin> set (bl_task_keys b') \<longrightarrow> (\<exists>e'. fst (builder_add u b') = Inl e')) \<and>
    (\<exists>e'. fst (builder_build b') = Inl e')"
proof -
  let ?R = "\<lambda>tasks. {(d, k) \<in> dep_edges tasks. d \<in> td_key ` set tasks}"
  from assms have b': "bl_tasks b' = bl_tasks b @ [t]" "bl_task_keys b' = td_key t # bl_task_keys b"
    and refused: "check_builder_cycles (bl_tasks b @ [t]) \<noteq> Inr ()"
    by (auto simp: builder_add_eq split: sum.splits)
  have ok: "builder_ok b'" using builder_add_ok [OF assms(1), of t] assms(3) by simp
  then have cyclic: "\<not> acyclic (?R (bl_tasks b'))"
    using refused check_cycles_Inr [of "bl_tasks b'"] b'(1) by (simp add: builder_ok_def)
  have "\<exists>e'. fst (builder_add u b') = Inl e'" if u: "td_key u \<notin> set (bl_task_keys b')" for u
  proof -
    have "distinct (map td_key (bl_tasks b' @ [u]))" using ok u by (auto simp: builder_ok_def)
    moreover have "?R (bl_tasks b') \<subseteq> ?R (bl_tasks b' @ [u])" by (auto simp: dep_edges_def)
    then have "\<not> acyclic (?R (bl_tasks b' @ [u]))" using cyclic acyclic_subset by blast
    ultimately have "check_builder_cycles (bl_tasks b' @ [u]) \<noteq> Inr ()" using check_cycles_Inr by blast
    then show ?thesis using u by (auto simp: builder_add_eq split: sum.splits)
  qed
  moreover have "\<exists>e'. fst (builder_build b') = Inl e'"
  proof (cases "fst (builder_build b')")
    case (Inr w)
    then have "valid_workflow w" "wf_tasks w = bl_tasks b'"
      by (auto simp: builder_build_def bindA_def dest!: constructed_workflow)
    then have "acyclic (dep_edges (bl_tasks b'))" by (simp add: valid_workflow_def)
    then have "acyclic (?R (bl_tasks b'))" by (rule acyclic_subset) auto
    then show ?thesis using cyclic by blast
  qed auto
  ultimately show ?thesis using b'(1) by simp
qed

definition half_builder :: builder where
  "half_builder = (mk_builder ''flow'' ''1'' FAIL_FAST [])
     \<lparr>bl_tasks := [sample_task ''a'' [''b'']], bl_task_keys := [''a'']\<rparr>"

theorem builder_keeps_rejected_task_witness:
  "\<exists>b'. builder_add (sample_task ''b'' [''a'']) half_builder = (Inl (CircularDependency [''a'', ''b'', ''a'']), b') \<and>
    (\<exists>e'. fst (builder_add (sample_task ''c'' []) b') = Inl e')"
proof -
  have "fst (builder_add (sample_task ''b'' [''a'']) half_builder) = Inl (CircularDependency [''a'', ''b'', ''a''])"
    "''c'' \<notin> set (bl_task_keys (snd (builder_add (sample_task ''b'' [''a'']) half_builder)))"
    "''b'' \<notin> set (bl_task_keys half_builder)"
    by code_simp+
  moreover have "builder_ok half_builder" by (simp add: builder_ok_def half_builder_def mk_builder_def)
  ultimately show ?thesis
    using builder_keeps_rejected_task [of half_builder "sample_task ''b'' [''a'']"]
    by (metis prod.collapse sample_simps(1))
qed

section \<open>The flow operators keep the graph they draw acyclic\<close>

text \<open>
  The graph is that of the operators: \<open>_UPSTREAM_MAP\<close> holds the dependencies drawn with \<open>>>\<close> and \<open><<\<close>.  The
  dependencies that a task was given in its constructor are not in it.
\<close>

definition flow_edges :: "authoring \<Rightarrow> (address \<times> address) set" where
  "flow_edges s = {(u, d). u \<in> set (upstreams s d)}"

definition authoring_ok :: "authoring \<Rightarrow> bool" where
  "authoring_ok s \<longleftrightarrow> dict_ok (au_upstream s) \<and> fst ` set (au_upstream s) = set (au_registered s) \<and> acyclic (flow_edges s)"

lemma extend_paths_spec:
  assumes "extend_paths path us (queue, visited) = (queue', visited')"
  shows "set visited' = set visited \<union> set us"
    and "\<exists>new. queue' = queue @ new \<and> (\<forall>p \<in> set new. \<exists>u \<in> set us. p = path @ [u]) \<and>
      set us - set visited \<subseteq> last ` set new"
  using assms unfolding extend_paths_def
proof (induction us arbitrary: queue visited)
  case (Cons u us)
  {
    case 1
    then show ?case using Cons.IH(1) by (auto split: if_splits)
  next
    case 2
    show ?case
    proof (cases "u \<in> set visited")
      case True
      then show ?thesis using 2 Cons.IH(2) [of queue visited] by auto
    next
      case False
      then obtain new where "queue' = (queue @ [path @ [u]]) @ new" "\<forall>p \<in> set new. \<exists>u \<in> set us. p = path @ [u]"
          "set us - set (visited @ [u]) \<subseteq> last ` set new"
        using 2 Cons.IH(2) [of "queue @ [path @ [u]]" "visited @ [u]"] by auto
      then show ?thesis by (intro exI [of _ "(path @ [u]) # new"]) auto
    qed
  }
qed auto

definition upward_path :: "authoring \<Rightarrow> address \<Rightarrow> address list \<Rightarrow> bool" where
  "upward_path s a path \<longleftrightarrow> path \<noteq> [] \<and> hd path = a \<and> successively (\<lambda>x y. y \<in> set (upstreams s x)) path"

lemma find_path_sound:
  assumes "find_path s target queue visited = Some path" "\<forall>p \<in> set queue. upward_path s a p"
  shows "upward_path s a path \<and> last path = target"
  using assms
proof (induction s target queue visited rule: find_path.induct)
  case (2 s target p queue visited)
  show ?case
  proof (cases "last p = target")
    case False
    obtain queue' visited' where e: "extend_paths p (upstreams s (last p)) (queue, visited) = (queue', visited')" by fastforce
    obtain new where "queue' = queue @ new" "\<forall>x \<in> set new. \<exists>u \<in> set (upstreams s (last p)). x = p @ [u]"
      using extend_paths_spec(2) [OF e] by blast
    then have "\<forall>x \<in> set queue'. upward_path s a x"
      using 2(3) by (fastforce simp: upward_path_def successively_append_iff)
    moreover have "find_path s target queue' visited' = Some path" using 2(2) False e by simp
    ultimately show ?thesis using 2(1) [OF False e [symmetric]] by blast
  qed (use 2 in auto)
qed simp

lemma find_path_complete:
  assumes "find_path s target queue visited = None"
    and "\<forall>v \<in> set visited. v \<in> last ` set queue \<or> v \<noteq> target \<and> set (upstreams s v) \<subseteq> set visited"
  shows "\<exists>V. set visited \<subseteq> V \<and> target \<notin> V \<and> (\<forall>v \<in> V. set (upstreams s v) \<subseteq> V)"
  using assms
proof (induction s target queue visited rule: find_path.induct)
  case (2 s target p queue visited)
  then have ne: "last p \<noteq> target" by auto
  obtain queue' visited' where e: "extend_paths p (upstreams s (last p)) (queue, visited) = (queue', visited')" by fastforce
  note v' = extend_paths_spec(1) [OF e]
  obtain new where new: "queue' = queue @ new" "set (upstreams s (last p)) - set visited \<subseteq> last ` set new"
    using extend_paths_spec(2) [OF e] by blast
  have "v \<in> last ` set queue' \<or> v \<noteq> target \<and> set (upstreams s v) \<subseteq> set visited'" if v: "v \<in> set visited'" for v
  proof (cases "v \<in> set visited")
    case True
    then consider "v = last p" | "v \<in> last ` set queue" | "v \<noteq> target" "set (upstreams s v) \<subseteq> set visited"
      using 2(3) by auto
    then show ?thesis
    proof cases
      case 1
      then show ?thesis using ne v' by auto
    next
      case 2
      then show ?thesis using new(1) by auto
    next
      case 3
      then show ?thesis using v' by auto
    qed
  next
    case False
    then show ?thesis using v v' new by auto
  qed
  then have "\<forall>v \<in> set visited'. v \<in> last ` set queue' \<or> v \<noteq> target \<and> set (upstreams s v) \<subseteq> set visited'" by blast
  moreover have "find_path s target queue' visited' = None" using 2(2) ne e by simp
  ultimately obtain V where "set visited' \<subseteq> V" "target \<notin> V" "\<forall>v \<in> V. set (upstreams s v) \<subseteq> V"
    using 2(1) [OF ne e [symmetric]] by blast
  then show ?case using v' by auto
qed (auto intro: exI [of _ "set _"])

lemma upward_path_reaches:
  "upward_path s a path \<Longrightarrow> (last path, a) \<in> (flow_edges s)\<^sup>*"
proof (induction path arbitrary: a)
  case (Cons x path)
  show ?case
  proof (cases "path = []")
    case False
    then have "upward_path s (hd path) path" "hd path \<in> set (upstreams s x)" "a = x"
      using Cons.prems by (cases path; simp add: upward_path_def)+
    then have "(last path, hd path) \<in> (flow_edges s)\<^sup>*" "(hd path, a) \<in> flow_edges s"
      using Cons.IH by (auto simp: flow_edges_def)
    then show ?thesis using False by simp
  qed (use Cons.prems in \<open>simp add: upward_path_def\<close>)
qed (simp add: upward_path_def)

lemma find_path_iff:
  "find_path s target [[a]] [a] = None \<longleftrightarrow> (target, a) \<notin> (flow_edges s)\<^sup>*"
proof (cases "find_path s target [[a]] [a]")
  case None
  obtain V where V: "a \<in> V" "target \<notin> V" "\<forall>v \<in> V. set (upstreams s v) \<subseteq> V"
    using find_path_complete [OF None] by auto
  have "(target, a) \<in> (flow_edges s)\<^sup>* \<Longrightarrow> target \<in> V"
  proof (induction rule: converse_rtrancl_induct)
    case (step y z)
    then show ?case using V(3) by (auto simp: flow_edges_def)
  qed (use V(1) in simp)
  with None V(2) show ?thesis by blast
next
  case (Some path)
  have "upward_path s a path \<and> last path = target"
    by (rule find_path_sound [OF Some]) (simp add: upward_path_def)
  with Some show ?thesis using upward_path_reaches by auto
qed

lemma register_keeps:
  assumes "authoring_ok s"
  shows "authoring_ok (register_authoring_task a s)" "flow_edges (register_authoring_task a s) = flow_edges s"
    "a \<in> set (au_registered (register_authoring_task a s))"
    "au_objects (register_authoring_task a s) = au_objects s"
proof -
  show edges: "flow_edges (register_authoring_task a s) = flow_edges s"
  proof (cases "a \<in> set (au_registered s)")
    case False
    then have "dict_get (au_upstream s) a = None" using assms by (simp add: authoring_ok_def dict_get_None_iff)
    then show ?thesis using False
      by (auto simp: flow_edges_def upstreams_def register_authoring_task_def dict_get_set split: if_splits option.splits)
  qed (simp add: register_authoring_task_def)
  show "authoring_ok (register_authoring_task a s)"
    using assms edges by (auto simp: authoring_ok_def register_authoring_task_def dict_set_keys)
qed (auto simp: register_authoring_task_def)

definition may_follow :: "authoring \<Rightarrow> address \<Rightarrow> address \<Rightarrow> bool" where
  "may_follow s u d \<longleftrightarrow> u \<noteq> d \<and> object_key s u \<noteq> object_key s d \<and> (d, u) \<notin> (flow_edges s)\<^sup>*"

lemma add_dependency_cases:
  assumes "authoring_ok s"
  obtains (refused) e s' where "\<not> may_follow s u d" "add_authoring_dependency u d s = (Inl e, s')"
      "authoring_ok s'" "flow_edges s' = flow_edges s" "\<exists>path. e = CircularDependency path" "au_objects s' = au_objects s"
  | (added) s' where "may_follow s u d" "add_authoring_dependency u d s = (Inr (), s')"
      "authoring_ok s'" "flow_edges s' = insert (u, d) (flow_edges s)"
      "\<forall>a. dict_get (au_objects s') a = (if a = d then map_option (add_dependency_key (object_key s u)) (dict_get (au_objects s) d)
        else dict_get (au_objects s) a)"
proof (cases "object_key s u = object_key s d \<or> u = d")
  case True
  then have "add_authoring_dependency u d s = (Inl (CircularDependency [object_key s u, object_key s d]), s)"
    by (auto simp: add_authoring_dependency_def bindA_def thenA_def)
  then show ?thesis using refused True assms by (auto simp: may_follow_def)
next
  case False
  let ?s1 = "register_authoring_task d (register_authoring_task u s)"
  note keep = register_keeps [OF register_keeps(1) [OF assms]] register_keeps [OF assms]
  have ok1: "authoring_ok ?s1" and e1: "flow_edges ?s1 = flow_edges s" using keep by simp_all
  have "a \<in> set (au_registered (register_authoring_task b x)) \<longleftrightarrow> a = b \<or> a \<in> set (au_registered x)" for a b x
    by (auto simp: register_authoring_task_def)
  then have reg: "u \<in> set (au_registered ?s1)" "d \<in> set (au_registered ?s1)" by simp_all
  have run: "add_authoring_dependency u d s = (case find_path ?s1 d [[u]] [u] of
      Some path \<Rightarrow> (Inl (CircularDependency (map (object_key ?s1) (rev path) @ [object_key s d])), ?s1)
    | None \<Rightarrow> (Inr (), ?s1\<lparr>au_upstream := dict_set d
           (if u \<in> set (upstreams ?s1 d) then upstreams ?s1 d else upstreams ?s1 d @ [u]) (au_upstream ?s1),
         au_objects := (case dict_get (au_objects ?s1) d of None \<Rightarrow> au_objects ?s1
           | Some t \<Rightarrow> dict_set d (add_dependency_key (object_key s u) t) (au_objects ?s1))\<rparr>))"
    using False by (simp add: add_authoring_dependency_def bindA_def thenA_def split: option.splits)
  show ?thesis
  proof (cases "find_path ?s1 d [[u]] [u]")
    case (Some path)
    then have "\<not> may_follow s u d" using find_path_iff [of ?s1 d u] e1 by (simp add: may_follow_def)
    then show ?thesis using refused run Some ok1 e1 by (simp add: keep(4,8))
  next
    case None
    then have free: "(d, u) \<notin> (flow_edges s)\<^sup>*" using find_path_iff [of ?s1 d u] e1 by simp
    let ?us = "if u \<in> set (upstreams ?s1 d) then upstreams ?s1 d else upstreams ?s1 d @ [u]"
    let ?os = "case dict_get (au_objects ?s1) d of None \<Rightarrow> au_objects ?s1
      | Some t \<Rightarrow> dict_set d (add_dependency_key (object_key s u) t) (au_objects ?s1)"
    let ?t = "?s1\<lparr>au_upstream := dict_set d ?us (au_upstream ?s1), au_objects := ?os\<rparr>"
    have "add_authoring_dependency u d s = (Inr (), ?t)" using run None by simp
    then obtain s' where s': "add_authoring_dependency u d s = (Inr (), s')" "au_upstream s' = dict_set d ?us (au_upstream ?s1)"
        "au_registered s' = au_registered ?s1" "au_objects s' = ?os"
      by (rule that [of ?t]) simp_all
    have same: "au_objects ?s1 = au_objects s" by (simp add: keep(4,8))
    have objects: "\<forall>a. dict_get (au_objects s') a = (if a = d then map_option (add_dependency_key (object_key s u)) (dict_get (au_objects s) d)
        else dict_get (au_objects s) a)"
      unfolding s'(4) same by (auto simp: dict_get_set split: option.splits)
    have "flow_edges s' = insert (u, d) (flow_edges ?s1)"
      using s'(2) by (auto simp: flow_edges_def upstreams_def dict_get_set split: if_splits)
    then have edges: "flow_edges s' = insert (u, d) (flow_edges s)" using e1 by simp
    have "authoring_ok s'"
      using ok1 s'(1-3) edges free reg assms
      by (auto simp: authoring_ok_def dict_set_keys acyclic_insert)
    then show ?thesis using added s'(1) edges objects False free by (auto simp: may_follow_def)
  qed
qed

text \<open>C34: In a consistent state (the drawn graph acyclic, its nodes the registered tasks)
  \<open>upstream >> downstream\<close> succeeds exactly when the two tasks and their keys differ and
  the downstream task does not already lead to the upstream one over dependencies drawn with the
  operators.  Success adds this one edge to the drawn graph and the key of the upstream task to the
  dependencies of the downstream one, and changes no other task; a refusal is a
  \<open>CircularDependencyError\<close> and leaves the drawn graph and all tasks as they were.  Either way the
  drawn graph stays acyclic.  Dependencies given to a constructor are not looked at, other than the
  docstring of \<open>add_authoring_dependency\<close> says: a cycle through one of them is accepted here, and
  refused only when the workflow is defined.\<close>

theorem add_dependency_exact:
  assumes "authoring_ok s" "add_authoring_dependency u d s = (r, s')"
  shows "authoring_ok s' \<and> (r = Inr () \<longleftrightarrow> may_follow s u d) \<and>
    (if may_follow s u d then flow_edges s' = insert (u, d) (flow_edges s) \<and>
       (\<forall>a. dict_get (au_objects s') a = (if a = d
          then map_option (add_dependency_key (object_key s u)) (dict_get (au_objects s) d) else dict_get (au_objects s) a))
     else flow_edges s' = flow_edges s \<and> au_objects s' = au_objects s \<and> (\<exists>path. r = Inl (CircularDependency path)))"
  by (rule add_dependency_cases [OF assms(1), of u d]) (use assms(2) in auto)

text \<open>A task \<open>a\<close> whose constructor names \<open>b\<close> as its dependency: \<open>a >> b\<close> is accepted, although each
  task then depends on the other, and the workflow of the two is refused.\<close>

definition declared :: authoring where
  "declared = \<lparr>au_objects = [(1, sample_task ''a'' [''b'']), (2, sample_task ''b'' [])],
     au_upstream = [(1, []), (2, [])], au_registered = [1, 2]\<rparr>"

theorem constructor_cycle_accepted:
  "fst (add_authoring_dependency 1 2 declared) = Inr () \<and>
   map td_dependencies (dict_values (au_objects (snd (add_authoring_dependency 1 2 declared)))) = [[''b''], [''a'']] \<and>
   (case mk_workflow_definition \<lparr>wf_name = ''flow'', wf_tasks = dict_values (au_objects (snd (add_authoring_dependency 1 2 declared))),
      wf_version = ''1'', wf_failure_policy = FAIL_FAST, wf_metadata = []\<rparr> [] of Inl e \<Rightarrow> True | Inr w \<Rightarrow> False)"
  by code_simp

definition chained :: authoring where
  \<comment> \<open>Three registered tasks \<open>a\<close>, \<open>b\<close>, \<open>c\<close> after \<open>a >> b\<close> and \<open>b >> c\<close>.\<close>
  "chained = snd (thenA (add_authoring_dependency 1 2) (add_authoring_dependency 2 3)
     \<lparr>au_objects = [(1, sample_task ''a'' []), (2, sample_task ''b'' []), (3, sample_task ''c'' [])],
      au_upstream = [(1, []), (2, []), (3, [])], au_registered = [1, 2, 3]\<rparr>)"

lemma chained_tables: "au_upstream chained = [(1, []), (2, [1]), (3, [2])]" "au_registered chained = [1, 2, 3]"
  by code_simp+

lemma chained_ok: "authoring_ok chained"
proof -
  have "flow_edges chained = {(1, 2), (2, 3)}"
    unfolding flow_edges_def upstreams_def chained_tables by (auto split: if_splits)
  moreover have "acyclic {(1 :: address, 2), (2, 3)}"
    by (rule acyclicI_order [of _ "\<lambda>x. - int x"]) auto
  ultimately show ?thesis by (auto simp: authoring_ok_def chained_tables dict_ok_def)
qed

theorem add_dependency_exact_witness:
  "fst (add_authoring_dependency 3 1 chained) = Inl (CircularDependency [''a'', ''b'', ''c'', ''a'']) \<and>
   \<not> may_follow chained 3 1 \<and> flow_edges (snd (add_authoring_dependency 3 1 chained)) = flow_edges chained"
proof -
  have run: "fst (add_authoring_dependency 3 1 chained) = Inl (CircularDependency [''a'', ''b'', ''c'', ''a''])"
    by code_simp
  show ?thesis
    using add_dependency_exact [OF chained_ok prod.collapse [symmetric], of 3 1] run
    by (simp del: One_nat_def split: if_splits)
qed

text \<open>A chain of operators is a computation that maintains the acyclic graph while it grows.\<close>

definition drawn_within :: "(address \<times> address) set \<Rightarrow> authoring \<Rightarrow> authoring \<Rightarrow> bool" where
  "drawn_within E s t \<longleftrightarrow> (authoring_ok s \<longrightarrow>
     authoring_ok t \<and> flow_edges s \<subseteq> flow_edges t \<and> flow_edges t \<subseteq> flow_edges s \<union> E)"

interpretation drawn: state_preorder "drawn_within E" for E
  by unfold_locales (auto simp: drawn_within_def)

lemma flow_edge_drawn:
  assumes "(u, d) \<in> E"
  shows "maintains (drawn_within E) (add_authoring_dependency u d)"
  unfolding maintains_def
proof
  fix s
  show "drawn_within E s (snd (add_authoring_dependency u d s))"
  proof (cases "authoring_ok s")
    case True
    show ?thesis by (rule add_dependency_cases [OF True, of u d]) (use assms in \<open>auto simp: drawn_within_def\<close>)
  qed (simp add: drawn_within_def)
qed

lemma flow_drawn: "maintains (drawn_within (set us \<times> set ds)) (flow us ds)"
proof -
  have row: "maintains (drawn_within E) (forA ds' (\<lambda>d. add_authoring_dependency u d))"
    if "{u} \<times> set ds' \<subseteq> E" for E u ds'
    using that by (induction ds') (auto simp: drawn.ret intro!: drawn.thenA flow_edge_drawn)
  have "maintains (drawn_within E) (flow us' ds)" if "set us' \<times> set ds \<subseteq> E" for E us'
    using that unfolding flow_def
    by (induction us') (auto simp: drawn.ret intro!: drawn.thenA row)
  then show ?thesis by blast
qed

lemma fan_flow: "fan_out u ds = flow [u] ds" "fan_in us d = flow us [d]"
proof -
  have unit: "thenA m (ret ()) = m" for m :: "(authoring, unit) act"
    by (auto simp: fun_eq_iff thenA_def bindA_def split: prod.splits sum.splits)
  show "fan_out u ds = flow [u] ds" "fan_in us d = flow us [d]"
    by (simp_all add: fan_out_def fan_in_def flow_def unit)
qed

lemma flow_row_result:
  assumes "authoring_ok s" "forA ds (\<lambda>d. add_authoring_dependency u d) s = (r, s')"
  shows "authoring_ok s' \<and> (r = Inr () \<longrightarrow> flow_edges s' = flow_edges s \<union> {u} \<times> set ds) \<and>
    (\<forall>e. r = Inl e \<longrightarrow> (\<exists>path. e = CircularDependency path))"
  using assms
proof (induction ds arbitrary: s)
  case (Cons d ds)
  show ?case
  proof (cases rule: add_dependency_cases [OF Cons.prems(1), of u d])
    case (1 e t)
    then show ?thesis using Cons.prems(2) by (auto simp: thenA_def bindA_def)
  next
    case (2 t)
    then have "forA ds (\<lambda>d. add_authoring_dependency u d) t = (r, s')"
      using Cons.prems(2) by (simp add: thenA_def bindA_def)
    from Cons.IH [OF 2(3) this] 2(4) show ?thesis by auto
  qed
qed auto

lemma flow_result:
  assumes "authoring_ok s" "flow us ds s = (r, s')"
  shows "(r = Inr () \<longrightarrow> flow_edges s' = flow_edges s \<union> set us \<times> set ds) \<and>
    (\<forall>e. r = Inl e \<longrightarrow> (\<exists>path. e = CircularDependency path))"
  using assms unfolding flow_def
proof (induction us arbitrary: s)
  case (Cons u us)
  obtain q t where row: "forA ds (\<lambda>d. add_authoring_dependency u d) s = (q, t)" by fastforce
  note first = flow_row_result [OF Cons.prems(1) row]
  show ?case
  proof (cases q)
    case (Inl e)
    then show ?thesis using row first Cons.prems(2) by (auto simp: thenA_def bindA_def)
  next
    case (Inr x)
    then have "forA us (\<lambda>u. forA ds (\<lambda>d. add_authoring_dependency u d)) t = (r, s')"
      using row Cons.prems(2) by (simp add: thenA_def bindA_def)
    from Cons.IH [OF _ this] first Inr show ?thesis by auto
  qed
qed auto



end
