(* ===== verification/V1_Domain.thy ===== *)
theory V1_Domain
  imports V1_Errors
begin

text \<open>
  The domain of the first-generation engine (\<open>domain/\<close>): statuses, workflow and task definitions
  with their validation, and the runtime entities with theirs.  Identifiers are \<open>NewType\<close>s over
  \<open>str\<close> and are plain texts here.  Names that the second generation also has carry a \<open>v1_\<close>, and
  the fields a \<open>1\<close>, so that both generations can stand side by side.
\<close>

section \<open>Statuses\<close>

datatype v1_run_status = W1_PENDING | W1_RUNNING | W1_SUCCEEDED | W1_FAILED | W1_CANCELLED

datatype v1_task_status =
  T1_PENDING | T1_READY | T1_RUNNING | T1_SUCCEEDED | T1_FAILED | T1_SKIPPED | T1_CANCELLED

datatype v1_attempt_status = A1_RUNNING | A1_SUCCEEDED | A1_FAILED | A1_CANCELLED

datatype v1_skip_reason =
  SK1_CONDITION_FALSE | SK1_DEPENDENCY_FAILED | SK1_FAIL_FAST_ABORT | SK1_BRANCH_NOT_SELECTED

datatype v1_timeout_mode = TM1_NONE | TM1_SOFT | TM1_HARD

datatype v1_backoff = B1_NONE | B1_FIXED | B1_LINEAR | B1_EXPONENTIAL

datatype v1_event_type =
    WORKFLOW_STARTED | WORKFLOW_SUCCEEDED | WORKFLOW_FAILED | WORKFLOW_CANCELLED
  | TASK_READY | TASK_STARTED | TASK_RETRYING | TASK_SUCCEEDED | TASK_FAILED | TASK_SKIPPED

primrec run1_value :: "v1_run_status \<Rightarrow> string" where
  "run1_value W1_PENDING = ''PENDING''"
| "run1_value W1_RUNNING = ''RUNNING''"
| "run1_value W1_SUCCEEDED = ''SUCCEEDED''"
| "run1_value W1_FAILED = ''FAILED''"
| "run1_value W1_CANCELLED = ''CANCELLED''"

primrec task1_value :: "v1_task_status \<Rightarrow> string" where
  "task1_value T1_PENDING = ''PENDING''"
| "task1_value T1_READY = ''READY''"
| "task1_value T1_RUNNING = ''RUNNING''"
| "task1_value T1_SUCCEEDED = ''SUCCEEDED''"
| "task1_value T1_FAILED = ''FAILED''"
| "task1_value T1_SKIPPED = ''SKIPPED''"
| "task1_value T1_CANCELLED = ''CANCELLED''"

primrec attempt1_value :: "v1_attempt_status \<Rightarrow> string" where
  "attempt1_value A1_RUNNING = ''RUNNING''"
| "attempt1_value A1_SUCCEEDED = ''SUCCEEDED''"
| "attempt1_value A1_FAILED = ''FAILED''"
| "attempt1_value A1_CANCELLED = ''CANCELLED''"

primrec skip1_value :: "v1_skip_reason \<Rightarrow> string" where
  "skip1_value SK1_CONDITION_FALSE = ''CONDITION_FALSE''"
| "skip1_value SK1_DEPENDENCY_FAILED = ''DEPENDENCY_FAILED''"
| "skip1_value SK1_FAIL_FAST_ABORT = ''FAIL_FAST_ABORT''"
| "skip1_value SK1_BRANCH_NOT_SELECTED = ''BRANCH_NOT_SELECTED''"

primrec timeout1_value :: "v1_timeout_mode \<Rightarrow> string" where
  "timeout1_value TM1_NONE = ''NONE''"
| "timeout1_value TM1_SOFT = ''SOFT''"
| "timeout1_value TM1_HARD = ''HARD''"

definition RUN1_TERMINAL :: "v1_run_status set" where
  "RUN1_TERMINAL = {W1_SUCCEEDED, W1_FAILED, W1_CANCELLED}"

definition TASK1_TERMINAL :: "v1_task_status set" where
  "TASK1_TERMINAL = {T1_SUCCEEDED, T1_FAILED, T1_SKIPPED, T1_CANCELLED}"

definition ATTEMPT1_TERMINAL :: "v1_attempt_status set" where
  "ATTEMPT1_TERMINAL = {A1_SUCCEEDED, A1_FAILED, A1_CANCELLED}"

section \<open>Values\<close>

definition nonempty_id :: "string \<Rightarrow> string \<Rightarrow> unit result" where
  \<comment> \<open>\<open>validate_non_empty_identifier\<close> and the \<open>_require_non_empty_text\<close> of \<open>values.py\<close>.\<close>
  "nonempty_id field_name v = require (\<not> blank v) (ValueError (field_name @ '' must not be empty.''))"

definition optional_id :: "string \<Rightarrow> string option \<Rightarrow> unit result" where
  "optional_id field_name v = (case v of None \<Rightarrow> Inr () | Some s \<Rightarrow> nonempty_id field_name s)"

definition non_negative_number :: "string \<Rightarrow> pynum \<Rightarrow> unit result" where
  "non_negative_number field_name n =
     thenR (require (py_isfinite n) (ValueError (field_name @ '' must be finite.'')))
    (require (0 \<le> num_val n) (ValueError (field_name @ '' must be greater than or equal to 0.'')))"

record v1_retry_policy =
  rp1_max_attempts :: int
  rp1_backoff :: v1_backoff
  rp1_delay :: pynum
  rp1_max_delay :: "pynum option"
  rp1_categories :: "string list"  \<comment> \<open>a frozenset\<close>

definition mk_retry1 :: "v1_retry_policy \<Rightarrow> v1_retry_policy result" where
  "mk_retry1 p =
     thenR (require (1 \<le> rp1_max_attempts p) (ValueError ''max_attempts must be greater than or equal to 1.''))
    (thenR (non_negative_number ''delay_seconds'' (rp1_delay p))
    (thenR (case rp1_max_delay p of None \<Rightarrow> Inr () | Some n \<Rightarrow> non_negative_number ''max_delay_seconds'' n)
    (thenR (forR (rp1_categories p) (nonempty_id ''retryable_error_category'')) (Inr p))))"

record v1_artifact =
  ar1_id :: string
  ar1_name :: string
  ar1_uri :: string
  ar1_media_type :: "string option"
  ar1_checksum :: "string option"
  ar1_size :: "int option"
  ar1_metadata :: "(string \<times> pyval) list"

definition mk_artifact1 :: "v1_artifact \<Rightarrow> v1_artifact result" where
  "mk_artifact1 a =
     thenR (nonempty_id ''artifact_id'' (ar1_id a))
    (thenR (nonempty_id ''name'' (ar1_name a))
    (thenR (nonempty_id ''uri'' (ar1_uri a))
    (thenR (optional_id ''media_type'' (ar1_media_type a))
    (thenR (optional_id ''checksum'' (ar1_checksum a))
    (thenR (require (\<forall>n \<in> set_option (ar1_size a). 0 \<le> n)
       (ValueError ''size_bytes must be greater than or equal to 0.'')) (Inr a))))))"

record v1_external_ref =
  xr1_id :: string
  xr1_provider :: string
  xr1_external_run_id :: string
  xr1_uri :: "string option"
  xr1_metadata :: "(string \<times> pyval) list"

definition mk_external1 :: "v1_external_ref \<Rightarrow> v1_external_ref result" where
  "mk_external1 x =
     thenR (nonempty_id ''external_ref_id'' (xr1_id x))
    (thenR (nonempty_id ''provider'' (xr1_provider x))
    (thenR (nonempty_id ''external_run_id'' (xr1_external_run_id x))
    (thenR (optional_id ''uri'' (xr1_uri x)) (Inr x))))"

record v1_parameter =
  wp1_name :: string
  wp1_required :: bool
  wp1_default :: pyval
  wp1_sensitive :: bool

definition mk_parameter1 :: "v1_parameter \<Rightarrow> v1_parameter result" where
  "mk_parameter1 p = thenR (nonempty_id ''name'' (wp1_name p)) (Inr p)"

record v1_task_result =
  res1_output :: pyval
  res1_metadata :: "(string \<times> pyval) list"
  res1_artifacts :: "v1_artifact list"
  res1_external_refs :: "v1_external_ref list"

section \<open>Definitions\<close>

record v1_task =
  td1_id :: string
  td1_handler_ref :: "string option"
  td1_depends_on :: "string list"
  td1_retry :: v1_retry_policy
  td1_executor_key :: string
  td1_timeout :: "pynum option"
  td1_timeout_mode :: v1_timeout_mode
  td1_tags :: "string list"  \<comment> \<open>a frozenset\<close>
  td1_description :: "string option"

record v1_workflow =
  wd1_id :: string
  wd1_version :: string
  wd1_tasks :: "v1_task list"
  wd1_parameters :: "v1_parameter list"
  wd1_description :: "string option"

definition defined_text :: "string \<Rightarrow> string \<Rightarrow> unit result" where
  \<comment> \<open>The \<open>_require_non_empty_text\<close> of \<open>definitions.py\<close>.\<close>
  "defined_text field_name v =
     require (\<not> blank v) (V1Error (DefinitionError (field_name @ '' must not be empty.'')))"

definition validate_timeout1 :: "pynum option \<Rightarrow> unit result" where
  "validate_timeout1 v = (case v of None \<Rightarrow> Inr () | Some n \<Rightarrow>
     thenR (require (py_isfinite n) (V1Error (DefinitionError ''timeout_seconds must be finite.'')))
    (require (0 < num_val n) (V1Error (DefinitionError ''timeout_seconds must be greater than 0.''))))"

definition mk_task1 :: "v1_task \<Rightarrow> v1_task result" where
  "mk_task1 t =
     thenR (nonempty_id ''task_id'' (td1_id t))
    (thenR (case td1_handler_ref t of None \<Rightarrow> Inr () | Some h \<Rightarrow> defined_text ''handler_ref'' h)
    (thenR (defined_text ''executor_key'' (td1_executor_key t))
    (thenR (validate_timeout1 (td1_timeout t))
    (thenR (require (\<not> (td1_timeout t = None \<and> td1_timeout_mode t \<noteq> TM1_NONE))
       (V1Error (DefinitionError ''timeout_mode requires timeout_seconds.'')))
    (thenR (require (distinct (td1_depends_on t))
       (V1Error (DefinitionError (''Task '' @ py_quote (td1_id t) @ '' declares duplicate dependencies.''))))
    (thenR (require (td1_id t \<notin> set (td1_depends_on t))
       (V1Error (DefinitionError (''Task '' @ py_quote (td1_id t) @ '' cannot depend on itself.''))))
    (thenR (forR (td1_depends_on t) (nonempty_id ''dependency_id''))
    (thenR (forR (td1_tags t) (defined_text ''tag''))
    (Inr (if td1_timeout t \<noteq> None \<and> td1_timeout_mode t = TM1_NONE
          then t\<lparr>td1_timeout_mode := TM1_SOFT\<rparr> else t))))))))))"

definition check_new1 :: "('a \<Rightarrow> string) \<Rightarrow> (string \<Rightarrow> pyexc) \<Rightarrow> 'a \<Rightarrow> string list \<Rightarrow> string list result" where
  \<comment> \<open>One round of the two loops that look for a key seen before.\<close>
  "check_new1 key duplicate x seen =
     thenR (require (key x \<notin> set seen) (duplicate (key x))) (Inr (key x # seen))"

definition mk_workflow1 :: "v1_workflow \<Rightarrow> v1_workflow result" where
  "mk_workflow1 w =
     thenR (nonempty_id ''workflow_id'' (wd1_id w))
    (thenR (defined_text ''version'' (wd1_version w))
    (thenR (require (wd1_tasks w \<noteq> [])
       (V1Error (InvalidWorkflowDefinition (wd1_id w) ''workflow must contain at least one task'')))
    (thenR (foldR (check_new1 td1_id (\<lambda>k. V1Error (DuplicateTaskDefinition (wd1_id w) k))) (wd1_tasks w) [])
    (thenR (foldR (check_new1 wp1_name (\<lambda>k. V1Error (InvalidWorkflowDefinition (wd1_id w)
        (''workflow declares duplicate parameter '' @ py_quote k)))) (wd1_parameters w) [])
    (Inr w)))))"

section \<open>Runtime entities\<close>

record v1_run =
  r1_id :: string
  r1_workflow_id :: string
  r1_version :: string
  r1_status :: v1_run_status
  r1_parameters :: "(string \<times> pyval) list"
  r1_created_at :: "datetime option"
  r1_started_at :: "datetime option"
  r1_finished_at :: "datetime option"

record v1_task_run =
  t1_id :: string
  t1_run_id :: string
  t1_task_id :: string
  t1_status :: v1_task_status
  t1_skip_reason :: "v1_skip_reason option"
  t1_created_at :: "datetime option"
  t1_started_at :: "datetime option"
  t1_finished_at :: "datetime option"

record v1_attempt =
  a1_id :: string
  a1_task_run_id :: string
  a1_number :: int
  a1_status :: v1_attempt_status
  a1_started_at :: "datetime option"
  a1_finished_at :: "datetime option"
  a1_error_type :: "string option"
  a1_error_message :: "string option"
  a1_error_category :: "string option"
  a1_retry_eligible_at :: "datetime option"
  a1_error_metadata :: "(string \<times> pyval) list"

record v1_event =
  e1_id :: string
  e1_type :: v1_event_type
  e1_run_id :: string
  e1_occurred_at :: datetime
  e1_sequence :: "int option"
  e1_task_run_id :: "string option"
  e1_task_id :: "string option"
  e1_attempt_number :: "int option"
  e1_payload :: "(string \<times> pyval) list"

definition aware1 :: "string \<Rightarrow> datetime option \<Rightarrow> unit result" where
  "aware1 field_name v =
     require (\<forall>d \<in> set_option v. dt_aware d) (ValueError (field_name @ '' must be timezone-aware.''))"

definition positive1 :: "string \<Rightarrow> int \<Rightarrow> unit result" where
  "positive1 field_name n =
     require (1 \<le> n) (ValueError (field_name @ '' must be greater than or equal to 1.''))"

definition run1_post_init :: "v1_run \<Rightarrow> unit result" where
  "run1_post_init r =
     thenR (nonempty_id ''run_id'' (r1_id r))
    (thenR (nonempty_id ''workflow_id'' (r1_workflow_id r))
    (thenR (nonempty_id ''workflow_version'' (r1_version r))
    (thenR (aware1 ''created_at'' (r1_created_at r))
    (thenR (aware1 ''started_at'' (r1_started_at r))
    (thenR (aware1 ''finished_at'' (r1_finished_at r))
    (if r1_status r = W1_PENDING then
       require (r1_started_at r = None \<and> r1_finished_at r = None)
         (ValueError ''PENDING WorkflowRun cannot have started_at or finished_at.'')
     else if r1_status r = W1_RUNNING then
       require (r1_finished_at r = None) (ValueError ''RUNNING WorkflowRun cannot have finished_at.'')
     else require (r1_finished_at r \<noteq> None) (ValueError ''Terminal WorkflowRun must have finished_at.''))))))) "

definition task1_post_init :: "v1_task_run \<Rightarrow> unit result" where
  "task1_post_init t =
     thenR (nonempty_id ''task_run_id'' (t1_id t))
    (thenR (nonempty_id ''run_id'' (t1_run_id t))
    (thenR (nonempty_id ''task_id'' (t1_task_id t))
    (thenR (aware1 ''created_at'' (t1_created_at t))
    (thenR (aware1 ''started_at'' (t1_started_at t))
    (thenR (aware1 ''finished_at'' (t1_finished_at t))
    (thenR (if t1_status t = T1_SKIPPED then
         require (t1_skip_reason t \<noteq> None) (ValueError ''SKIPPED TaskRun must have skip_reason.'')
       else require (t1_skip_reason t = None)
         (ValueError ''skip_reason is only valid for a SKIPPED TaskRun.''))
    (if t1_status t \<in> {T1_PENDING, T1_READY} then
       require (t1_finished_at t = None)
         (ValueError (task1_value (t1_status t) @ '' TaskRun cannot have finished_at.''))
     else if t1_status t = T1_RUNNING then
       require (t1_finished_at t = None) (ValueError ''RUNNING TaskRun cannot have finished_at.'')
     else require (t1_finished_at t \<noteq> None) (ValueError ''Terminal TaskRun must have finished_at.''))))))))"

definition attempt1_post_init :: "v1_attempt \<Rightarrow> unit result" where
  "attempt1_post_init a =
     thenR (nonempty_id ''attempt_id'' (a1_id a))
    (thenR (nonempty_id ''task_run_id'' (a1_task_run_id a))
    (thenR (positive1 ''attempt_number'' (a1_number a))
    (thenR (aware1 ''started_at'' (a1_started_at a))
    (thenR (aware1 ''finished_at'' (a1_finished_at a))
    (thenR (aware1 ''retry_eligible_at'' (a1_retry_eligible_at a))
    (thenR (if a1_status a = A1_RUNNING then
         require (a1_finished_at a = None) (ValueError ''RUNNING TaskAttempt cannot have finished_at.'')
       else require (a1_finished_at a \<noteq> None) (ValueError ''Terminal TaskAttempt must have finished_at.''))
    (case a1_retry_eligible_at a of
       None \<Rightarrow> Inr ()
     | Some eligible \<Rightarrow>
         thenR (require (a1_status a = A1_FAILED)
           (ValueError ''retry_eligible_at is only valid for FAILED TaskAttempt.''))
         (require (\<exists>finished \<in> set_option (a1_finished_at a). \<not> eligible < finished)
           (ValueError ''retry_eligible_at cannot be earlier than finished_at.'')))))))))"

definition event1_post_init :: "v1_event \<Rightarrow> unit result" where
  "event1_post_init e =
     thenR (nonempty_id ''event_id'' (e1_id e))
    (thenR (nonempty_id ''run_id'' (e1_run_id e))
    (thenR (optional_id ''task_run_id'' (e1_task_run_id e))
    (thenR (optional_id ''task_id'' (e1_task_id e))
    (thenR (aware1 ''occurred_at'' (Some (e1_occurred_at e)))
    (thenR (case e1_sequence e of None \<Rightarrow> Inr () | Some n \<Rightarrow> positive1 ''event_sequence'' n)
    (case e1_attempt_number e of None \<Rightarrow> Inr () | Some n \<Rightarrow> positive1 ''attempt_number'' n))))))"

definition mk_run1 :: "v1_run \<Rightarrow> v1_run result" where
  "mk_run1 r = thenR (run1_post_init r) (Inr r)"

definition mk_task_run1 :: "v1_task_run \<Rightarrow> v1_task_run result" where
  "mk_task_run1 t = thenR (task1_post_init t) (Inr t)"

definition mk_attempt1 :: "v1_attempt \<Rightarrow> v1_attempt result" where
  "mk_attempt1 a = thenR (attempt1_post_init a) (Inr a)"

definition mk_event1 :: "v1_event \<Rightarrow> v1_event result" where
  "mk_event1 e = thenR (event1_post_init e) (Inr e)"

section \<open>What the constructors accept\<close>

definition valid_run1 :: "v1_run \<Rightarrow> bool" where
  "valid_run1 r \<longleftrightarrow> \<not> blank (r1_id r) \<and> \<not> blank (r1_workflow_id r) \<and> \<not> blank (r1_version r) \<and>
     (\<forall>d \<in> set_option (r1_created_at r) \<union> set_option (r1_started_at r) \<union> set_option (r1_finished_at r). dt_aware d) \<and>
     (r1_status r = W1_PENDING \<longrightarrow> r1_started_at r = None) \<and>
     (r1_finished_at r = None \<longleftrightarrow> r1_status r \<notin> RUN1_TERMINAL)"

definition valid_task1 :: "v1_task_run \<Rightarrow> bool" where
  "valid_task1 t \<longleftrightarrow> \<not> blank (t1_id t) \<and> \<not> blank (t1_run_id t) \<and> \<not> blank (t1_task_id t) \<and>
     (\<forall>d \<in> set_option (t1_created_at t) \<union> set_option (t1_started_at t) \<union> set_option (t1_finished_at t). dt_aware d) \<and>
     (t1_skip_reason t = None \<longleftrightarrow> t1_status t \<noteq> T1_SKIPPED) \<and>
     (t1_finished_at t = None \<longleftrightarrow> t1_status t \<notin> TASK1_TERMINAL)"

definition valid_attempt1 :: "v1_attempt \<Rightarrow> bool" where
  "valid_attempt1 a \<longleftrightarrow> \<not> blank (a1_id a) \<and> \<not> blank (a1_task_run_id a) \<and> 1 \<le> a1_number a \<and>
     (\<forall>d \<in> set_option (a1_started_at a) \<union> set_option (a1_finished_at a) \<union> set_option (a1_retry_eligible_at a). dt_aware d) \<and>
     (a1_finished_at a = None \<longleftrightarrow> a1_status a \<notin> ATTEMPT1_TERMINAL) \<and>
     (\<forall>e \<in> set_option (a1_retry_eligible_at a). a1_status a = A1_FAILED \<and>
        (\<exists>f \<in> set_option (a1_finished_at a). f \<le> e))"

lemma mk_run1_Inr: "mk_run1 r = Inr r' \<longleftrightarrow> valid_run1 r \<and> r' = r"
  by (cases "r1_status r")
    (auto simp: mk_run1_def run1_post_init_def nonempty_id_def aware1_def valid_run1_def RUN1_TERMINAL_def thenR_Inr_iff)

lemma mk_task_run1_Inr: "mk_task_run1 t = Inr t' \<longleftrightarrow> valid_task1 t \<and> t' = t"
  by (cases "t1_status t")
    (auto simp: mk_task_run1_def task1_post_init_def nonempty_id_def aware1_def valid_task1_def TASK1_TERMINAL_def thenR_Inr_iff)

lemma mk_attempt1_Inr: "mk_attempt1 a = Inr a' \<longleftrightarrow> valid_attempt1 a \<and> a' = a"
  by (cases "a1_status a"; cases "a1_retry_eligible_at a"; cases "a1_finished_at a")
    (auto simp: mk_attempt1_def attempt1_post_init_def nonempty_id_def aware1_def positive1_def valid_attempt1_def
       ATTEMPT1_TERMINAL_def thenR_Inr_iff not_less)

definition valid_event1 :: "v1_event \<Rightarrow> bool" where
  "valid_event1 e \<longleftrightarrow> \<not> blank (e1_id e) \<and> \<not> blank (e1_run_id e) \<and>
     (\<forall>s \<in> set_option (e1_task_run_id e) \<union> set_option (e1_task_id e). \<not> blank s) \<and>
     dt_aware (e1_occurred_at e) \<and> (\<forall>n \<in> set_option (e1_sequence e) \<union> set_option (e1_attempt_number e). 1 \<le> n)"

lemma mk_event1_Inr: "mk_event1 e = Inr e' \<longleftrightarrow> valid_event1 e \<and> e' = e"
  by (cases "e1_sequence e"; cases "e1_attempt_number e"; cases "e1_task_run_id e"; cases "e1_task_id e")
    (auto simp: mk_event1_def event1_post_init_def nonempty_id_def optional_id_def aware1_def positive1_def
       valid_event1_def thenR_Inr_iff)

lemma check_new1_ok: "(\<exists>seen'. foldR (check_new1 key dup) xs seen = Inr seen') \<longleftrightarrow>
    distinct (map key xs) \<and> key ` set xs \<inter> set seen = {}"
  by (induction xs arbitrary: seen) (auto simp: check_new1_def bindR_Inr_iff thenR_Inr_iff)

lemma mk_workflow1_Inr:
  "mk_workflow1 w = Inr w' \<longleftrightarrow> w' = w \<and> \<not> blank (wd1_id w) \<and> \<not> blank (wd1_version w) \<and> wd1_tasks w \<noteq> [] \<and>
     distinct (map td1_id (wd1_tasks w)) \<and> distinct (map wp1_name (wd1_parameters w))"
  using check_new1_ok [of td1_id _ "wd1_tasks w" "[]"] check_new1_ok [of wp1_name _ "wd1_parameters w" "[]"]
  by (auto simp: mk_workflow1_def nonempty_id_def defined_text_def thenR_Inr_iff)

end
