(* ===== verification/V1_Machine.thy ===== *)
theory V1_Machine
  imports V1_Domain
begin

text \<open>
  The authority for state transitions (\<open>application/state_machine.py\<close>) and the retry decisions
  (\<open>application/retry.py\<close>) of the first-generation engine.  Every operation checks everything before
  it writes, so a refused one leaves its entity as it was: the operations return the new entity
  or the exception.
\<close>

section \<open>Transitions\<close>

definition aware_at :: "string \<Rightarrow> datetime \<Rightarrow> unit result" where
  "aware_at field_name t = require (dt_aware t) (ValueError (field_name @ '' must be timezone-aware.''))"

definition ensure_run1 :: "v1_run \<Rightarrow> v1_run_status \<Rightarrow> v1_run_status set \<Rightarrow> unit result" where
  "ensure_run1 r target allowed_from = require (r1_status r \<in> allowed_from)
     (reject ''WorkflowRun'' (r1_id r) (run1_value (r1_status r)) (run1_value target)
        (r1_status r \<in> RUN1_TERMINAL))"

definition ensure_task1 :: "v1_task_run \<Rightarrow> v1_task_status \<Rightarrow> v1_task_status set \<Rightarrow> unit result" where
  "ensure_task1 t target allowed_from = require (t1_status t \<in> allowed_from)
     (reject ''TaskRun'' (t1_id t) (task1_value (t1_status t)) (task1_value target)
        (t1_status t \<in> TASK1_TERMINAL))"

definition ensure_attempt1 :: "v1_attempt \<Rightarrow> v1_attempt_status \<Rightarrow> unit result" where
  "ensure_attempt1 a target = require (a1_status a = A1_RUNNING)
     (reject ''TaskAttempt'' (a1_id a) (attempt1_value (a1_status a)) (attempt1_value target)
        (a1_status a \<in> ATTEMPT1_TERMINAL))"

definition start_run1 :: "datetime \<Rightarrow> v1_run \<Rightarrow> v1_run result" where
  "start_run1 now r =
     thenR (aware_at ''at'' now)
    (thenR (ensure_run1 r W1_RUNNING {W1_PENDING})
    (Inr (r\<lparr>r1_status := W1_RUNNING, r1_started_at := Some now, r1_finished_at := None\<rparr>)))"

definition finish_run1 :: "v1_run_status \<Rightarrow> datetime \<Rightarrow> v1_run \<Rightarrow> v1_run result" where
  "finish_run1 target now r =
     thenR (aware_at ''at'' now)
    (thenR (ensure_run1 r target {W1_RUNNING})
    (Inr (r\<lparr>r1_status := target, r1_finished_at := Some now\<rparr>)))"

definition succeed_run1 :: "datetime \<Rightarrow> v1_run \<Rightarrow> v1_run result" where
  "succeed_run1 = finish_run1 W1_SUCCEEDED"

definition fail_run1 :: "datetime \<Rightarrow> v1_run \<Rightarrow> v1_run result" where
  "fail_run1 = finish_run1 W1_FAILED"

definition cancel_run1 :: "datetime \<Rightarrow> v1_run \<Rightarrow> v1_run result" where
  "cancel_run1 = finish_run1 W1_CANCELLED"

definition mark_ready1 :: "v1_task_run \<Rightarrow> v1_task_run result" where
  "mark_ready1 t = thenR (ensure_task1 t T1_READY {T1_PENDING}) (Inr (t\<lparr>t1_status := T1_READY\<rparr>))"

definition start_task1 :: "datetime \<Rightarrow> v1_task_run \<Rightarrow> v1_task_run result" where
  "start_task1 now t =
     thenR (aware_at ''at'' now)
    (thenR (ensure_task1 t T1_RUNNING {T1_READY})
    (Inr (t\<lparr>t1_status := T1_RUNNING, t1_started_at := Some now, t1_finished_at := None, t1_skip_reason := None\<rparr>)))"

definition finish_task1 :: "v1_task_status \<Rightarrow> datetime \<Rightarrow> v1_task_run \<Rightarrow> v1_task_run result" where
  "finish_task1 target now t =
     thenR (aware_at ''at'' now)
    (thenR (ensure_task1 t target {T1_RUNNING})
    (Inr (t\<lparr>t1_status := target, t1_finished_at := Some now, t1_skip_reason := None\<rparr>)))"

definition succeed_task1 :: "datetime \<Rightarrow> v1_task_run \<Rightarrow> v1_task_run result" where
  "succeed_task1 = finish_task1 T1_SUCCEEDED"

definition fail_task1 :: "datetime \<Rightarrow> v1_task_run \<Rightarrow> v1_task_run result" where
  "fail_task1 = finish_task1 T1_FAILED"

definition skip_task1 :: "v1_skip_reason \<Rightarrow> datetime \<Rightarrow> v1_task_run \<Rightarrow> v1_task_run result" where
  "skip_task1 reason now t =
     thenR (aware_at ''at'' now)
    (thenR (ensure_task1 t T1_SKIPPED {T1_PENDING, T1_READY})
    (Inr (t\<lparr>t1_status := T1_SKIPPED, t1_skip_reason := Some reason, t1_finished_at := Some now\<rparr>)))"

definition cancel_task1 :: "datetime \<Rightarrow> v1_task_run \<Rightarrow> v1_task_run result" where
  "cancel_task1 now t =
     thenR (aware_at ''at'' now)
    (thenR (ensure_task1 t T1_CANCELLED {T1_PENDING, T1_READY, T1_RUNNING})
    (Inr (t\<lparr>t1_status := T1_CANCELLED, t1_finished_at := Some now, t1_skip_reason := None\<rparr>)))"

definition succeed_attempt1 :: "datetime \<Rightarrow> v1_attempt \<Rightarrow> v1_attempt result" where
  "succeed_attempt1 now a =
     thenR (aware_at ''at'' now)
    (thenR (ensure_attempt1 a A1_SUCCEEDED)
    (Inr (a\<lparr>a1_status := A1_SUCCEEDED, a1_finished_at := Some now, a1_error_type := None,
       a1_error_message := None, a1_error_category := None, a1_retry_eligible_at := None,
       a1_error_metadata := []\<rparr>)))"

definition fail_attempt1 :: "datetime \<Rightarrow> string \<Rightarrow> string \<Rightarrow> string option \<Rightarrow> v1_attempt \<Rightarrow> v1_attempt result" where
  \<comment> \<open>\<open>error_metadata\<close> is left out: no caller passes it, so it becomes empty.\<close>
  "fail_attempt1 now error_type error_message error_category a =
     thenR (aware_at ''at'' now)
    (thenR (require (\<not> blank error_type) (ValueError ''error_type must not be empty.''))
    (thenR (require (\<not> blank error_message) (ValueError ''error_message must not be empty.''))
    (thenR (require (\<forall>c \<in> set_option error_category. \<not> blank c)
       (ValueError ''error_category must not be empty when provided.''))
    (thenR (ensure_attempt1 a A1_FAILED)
    (Inr (a\<lparr>a1_status := A1_FAILED, a1_finished_at := Some now, a1_error_type := Some error_type,
       a1_error_message := Some error_message, a1_error_category := error_category,
       a1_retry_eligible_at := None, a1_error_metadata := []\<rparr>))))))"

definition schedule_retry1 :: "datetime \<Rightarrow> v1_attempt \<Rightarrow> v1_attempt result" where
  "schedule_retry1 eligible a =
     thenR (aware_at ''eligible_at'' eligible)
    (thenR (require (a1_status a = A1_FAILED)
       (InvalidStateTransition ''TaskAttempt'' (a1_id a) (attempt1_value (a1_status a)) ''RETRY_WAIT''))
    (case a1_finished_at a of
       None \<Rightarrow> Inl (ValueError ''FAILED TaskAttempt must have finished_at before retry scheduling.'')
     | Some finished \<Rightarrow>
         thenR (require (\<not> eligible < finished) (ValueError ''eligible_at cannot be earlier than attempt.finished_at.''))
        (Inr (a\<lparr>a1_retry_eligible_at := Some eligible\<rparr>))))"

definition cancel_attempt1 :: "datetime \<Rightarrow> v1_attempt \<Rightarrow> v1_attempt result" where
  "cancel_attempt1 now a =
     thenR (aware_at ''at'' now)
    (thenR (ensure_attempt1 a A1_CANCELLED)
    (Inr (a\<lparr>a1_status := A1_CANCELLED, a1_finished_at := Some now, a1_retry_eligible_at := None\<rparr>)))"

section \<open>Retry decisions\<close>

record v1_retry_decision =
  rd1_should_retry :: bool
  rd1_delay :: pynum
  rd1_next :: "int option"

definition mk_decision1 :: "v1_retry_decision \<Rightarrow> v1_retry_decision result" where
  "mk_decision1 d =
     (if rd1_should_retry d then
        thenR (require (\<exists>n \<in> set_option (rd1_next d). 2 \<le> n)
          (ValueError ''retry decision requires next_attempt_number greater than or equal to 2''))
       (thenR (require (\<not> num_val (rd1_delay d) < 0) (ValueError ''retry delay_seconds must be non-negative''))
       (Inr d))
      else
        thenR (require (rd1_next d = None) (ValueError ''non-retry decision cannot define next_attempt_number''))
       (thenR (require (num_val (rd1_delay d) = 0) (ValueError ''non-retry decision must have zero delay_seconds''))
       (Inr d)))"

definition no_retry :: "v1_retry_decision result" where
  "no_retry = mk_decision1 \<lparr>rd1_should_retry = False, rd1_delay = PyFloat 0, rd1_next = None\<rparr>"

definition times_int :: "pynum \<Rightarrow> int \<Rightarrow> pynum result" where
  \<comment> \<open>\<open>x * n\<close> for a finite number \<open>x\<close> and an integer \<open>n\<close>.\<close>
  "times_int x n = (case x of
     PyInt i \<Rightarrow> Inr (PyInt (i * n))
   | PyFloat r \<Rightarrow> bindR (to_float (PyInt n)) (\<lambda>k. Inr (float_of_rat (r * num_val k)))
   | _ \<Rightarrow> Inr x)"

definition backoff_delay1 :: "v1_retry_policy \<Rightarrow> int \<Rightarrow> pynum result" where
  "backoff_delay1 p n =
     bindR (case rp1_backoff p of
         B1_NONE \<Rightarrow> Inr (PyFloat 0)
       | B1_FIXED \<Rightarrow> Inr (rp1_delay p)
       | B1_LINEAR \<Rightarrow> times_int (rp1_delay p) n
       | B1_EXPONENTIAL \<Rightarrow> times_int (rp1_delay p) (2 ^ nat (n - 1))) (\<lambda>delay.
     to_float (case rp1_max_delay p of None \<Rightarrow> delay
       | Some m \<Rightarrow> (if num_gt delay (num_val m) then m else delay)))"

definition decide1 :: "v1_retry_policy \<Rightarrow> int \<Rightarrow> pyexc \<Rightarrow> v1_retry_decision result" where
  "decide1 p n error =
     (if rp1_max_attempts p \<le> n then no_retry
      else case error of
        V1Error (TaskExecution task_id handler_ref error_type error_message error_category) \<Rightarrow>
          (if rp1_categories p \<noteq> [] \<and> error_category \<notin> set (rp1_categories p) then no_retry
           else bindR (backoff_delay1 p n) (\<lambda>delay.
             mk_decision1 \<lparr>rd1_should_retry = True, rd1_delay = delay, rd1_next = Some (n + 1)\<rparr>))
      | _ \<Rightarrow> no_retry)"

definition retry_eligible1 :: "datetime \<Rightarrow> v1_retry_decision \<Rightarrow> datetime result" where
  "retry_eligible1 failed_at d =
     thenR (require (dt_aware failed_at) (ValueError ''failed_at must be timezone-aware''))
    (thenR (require (rd1_should_retry d) (ValueError ''retry eligibility requires a retry decision''))
    (if py_isfinite (rd1_delay d) then add_seconds failed_at (rd1_delay d)
     else Inl (OverflowError ''cannot convert float infinity to integer'')))"

definition latest_attempt1 :: "v1_attempt list \<Rightarrow> v1_attempt option" where
  \<comment> \<open>\<open>max(attempts, key=attempt_number)\<close>: the first of the largest.\<close>
  "latest_attempt1 attempts = find (\<lambda>a. \<forall>b \<in> set attempts. a1_number b \<le> a1_number a) attempts"

definition pending_retry1 :: "v1_attempt list \<Rightarrow> v1_attempt option" where
  "pending_retry1 attempts = (case latest_attempt1 attempts of None \<Rightarrow> None
     | Some a \<Rightarrow> if a1_status a = A1_FAILED \<and> a1_retry_eligible_at a \<noteq> None then Some a else None)"

section \<open>The lifecycles\<close>

fun run1_targets :: "v1_run_status \<Rightarrow> v1_run_status set" where
  "run1_targets W1_PENDING = {W1_RUNNING}"
| "run1_targets W1_RUNNING = {W1_SUCCEEDED, W1_FAILED, W1_CANCELLED}"
| "run1_targets s = {}"

fun task1_targets :: "v1_task_status \<Rightarrow> v1_task_status set" where
  "task1_targets T1_PENDING = {T1_READY, T1_SKIPPED, T1_CANCELLED}"
| "task1_targets T1_READY = {T1_RUNNING, T1_SKIPPED, T1_CANCELLED}"
| "task1_targets T1_RUNNING = {T1_SUCCEEDED, T1_FAILED, T1_CANCELLED}"
| "task1_targets s = {}"

fun attempt1_targets :: "v1_attempt_status \<Rightarrow> v1_attempt_status set" where
  "attempt1_targets A1_RUNNING = {A1_SUCCEEDED, A1_FAILED, A1_CANCELLED}"
| "attempt1_targets s = {}"

lemmas v1_terminal_defs = RUN1_TERMINAL_def TASK1_TERMINAL_def ATTEMPT1_TERMINAL_def

interpretation run1_lc: lifecycle run1_targets RUN1_TERMINAL W1_PENDING
proof unfold_locales
  show "s \<in> RUN1_TERMINAL \<longleftrightarrow> run1_targets s = {}" for s by (cases s) (simp_all add: v1_terminal_defs)
  show "W1_PENDING \<notin> run1_targets s" "s \<notin> run1_targets s" for s by (cases s; simp)+
  have run: "(\<lambda>a b. b \<in> run1_targets a)\<^sup>*\<^sup>* W1_RUNNING W1_SUCCEEDED" by (rule r_into_rtranclp) simp
  show "\<exists>t \<in> RUN1_TERMINAL. (\<lambda>a b. b \<in> run1_targets a)\<^sup>*\<^sup>* s t" for s
    by (cases s) (force simp: v1_terminal_defs intro: run reach_step [OF _ run])+
qed (simp add: v1_terminal_defs)

interpretation task1_lc: lifecycle task1_targets TASK1_TERMINAL T1_PENDING
proof unfold_locales
  show "s \<in> TASK1_TERMINAL \<longleftrightarrow> task1_targets s = {}" for s by (cases s) (simp_all add: v1_terminal_defs)
  show "T1_PENDING \<notin> task1_targets s" "s \<notin> task1_targets s" for s by (cases s; simp)+
  show "\<exists>t \<in> TASK1_TERMINAL. (\<lambda>a b. b \<in> task1_targets a)\<^sup>*\<^sup>* s t" for s
    by (cases s) (force simp: v1_terminal_defs intro: r_into_rtranclp)+
qed (simp add: v1_terminal_defs)

interpretation attempt1_lc: lifecycle attempt1_targets ATTEMPT1_TERMINAL A1_RUNNING
proof unfold_locales
  show "s \<in> ATTEMPT1_TERMINAL \<longleftrightarrow> attempt1_targets s = {}" for s by (cases s) (simp_all add: v1_terminal_defs)
  show "A1_RUNNING \<notin> attempt1_targets s" "s \<notin> attempt1_targets s" for s by (cases s; simp)+
  show "\<exists>t \<in> ATTEMPT1_TERMINAL. (\<lambda>a b. b \<in> attempt1_targets a)\<^sup>*\<^sup>* s t" for s
    by (cases s) (force simp: v1_terminal_defs intro: r_into_rtranclp)+
qed (simp add: v1_terminal_defs)

text \<open>One operation of the state machine.\<close>

inductive run1_step :: "v1_run \<Rightarrow> v1_run \<Rightarrow> bool" where
  "start_run1 now r = Inr r' \<Longrightarrow> run1_step r r'"
| "succeed_run1 now r = Inr r' \<Longrightarrow> run1_step r r'"
| "fail_run1 now r = Inr r' \<Longrightarrow> run1_step r r'"
| "cancel_run1 now r = Inr r' \<Longrightarrow> run1_step r r'"

inductive task1_step :: "v1_task_run \<Rightarrow> v1_task_run \<Rightarrow> bool" where
  "mark_ready1 t = Inr t' \<Longrightarrow> task1_step t t'"
| "start_task1 now t = Inr t' \<Longrightarrow> task1_step t t'"
| "succeed_task1 now t = Inr t' \<Longrightarrow> task1_step t t'"
| "fail_task1 now t = Inr t' \<Longrightarrow> task1_step t t'"
| "skip_task1 reason now t = Inr t' \<Longrightarrow> task1_step t t'"
| "cancel_task1 now t = Inr t' \<Longrightarrow> task1_step t t'"

inductive attempt1_step :: "v1_attempt \<Rightarrow> v1_attempt \<Rightarrow> bool" where
  "succeed_attempt1 now a = Inr a' \<Longrightarrow> attempt1_step a a'"
| "fail_attempt1 now ty m c a = Inr a' \<Longrightarrow> attempt1_step a a'"
| "cancel_attempt1 now a = Inr a' \<Longrightarrow> attempt1_step a a'"
| "schedule_retry1 eligible a = Inr a' \<Longrightarrow> attempt1_step a a'"

lemmas run1_op_defs = start_run1_def succeed_run1_def fail_run1_def cancel_run1_def finish_run1_def
  ensure_run1_def aware_at_def

lemmas task1_op_defs = mark_ready1_def start_task1_def succeed_task1_def fail_task1_def skip_task1_def
  cancel_task1_def finish_task1_def ensure_task1_def aware_at_def

lemmas attempt1_op_defs = succeed_attempt1_def fail_attempt1_def cancel_attempt1_def schedule_retry1_def
  ensure_attempt1_def aware_at_def

inductive_cases run1_stepE: "run1_step r r'"
inductive_cases task1_stepE: "task1_step t t'"
inductive_cases attempt1_stepE: "attempt1_step a a'"

text \<open>What each operation accepts, and what it then writes.\<close>

lemma start_run1_Inr:
  "start_run1 now r = Inr r' \<longleftrightarrow> dt_aware now \<and> r1_status r = W1_PENDING \<and>
     r' = r\<lparr>r1_status := W1_RUNNING, r1_started_at := Some now, r1_finished_at := None\<rparr>"
  by (auto simp: run1_op_defs thenR_Inr_iff)

lemma finish_run1_Inr:
  "finish_run1 target now r = Inr r' \<longleftrightarrow> dt_aware now \<and> r1_status r = W1_RUNNING \<and>
     r' = r\<lparr>r1_status := target, r1_finished_at := Some now\<rparr>"
  by (auto simp: run1_op_defs thenR_Inr_iff)

lemma mark_ready1_Inr:
  "mark_ready1 t = Inr t' \<longleftrightarrow> t1_status t = T1_PENDING \<and> t' = t\<lparr>t1_status := T1_READY\<rparr>"
  by (auto simp: task1_op_defs thenR_Inr_iff)

lemma start_task1_Inr:
  "start_task1 now t = Inr t' \<longleftrightarrow> dt_aware now \<and> t1_status t = T1_READY \<and>
     t' = t\<lparr>t1_status := T1_RUNNING, t1_started_at := Some now, t1_finished_at := None, t1_skip_reason := None\<rparr>"
  by (auto simp: task1_op_defs thenR_Inr_iff)

lemma finish_task1_Inr:
  "finish_task1 target now t = Inr t' \<longleftrightarrow> dt_aware now \<and> t1_status t = T1_RUNNING \<and>
     t' = t\<lparr>t1_status := target, t1_finished_at := Some now, t1_skip_reason := None\<rparr>"
  by (auto simp: task1_op_defs thenR_Inr_iff)

lemma skip_task1_Inr:
  "skip_task1 reason now t = Inr t' \<longleftrightarrow> dt_aware now \<and> t1_status t \<in> {T1_PENDING, T1_READY} \<and>
     t' = t\<lparr>t1_status := T1_SKIPPED, t1_skip_reason := Some reason, t1_finished_at := Some now\<rparr>"
  by (auto simp: skip_task1_def ensure_task1_def aware_at_def thenR_Inr_iff)

lemma cancel_task1_Inr:
  "cancel_task1 now t = Inr t' \<longleftrightarrow> dt_aware now \<and> t1_status t \<in> {T1_PENDING, T1_READY, T1_RUNNING} \<and>
     t' = t\<lparr>t1_status := T1_CANCELLED, t1_finished_at := Some now, t1_skip_reason := None\<rparr>"
  by (auto simp: cancel_task1_def ensure_task1_def aware_at_def thenR_Inr_iff)

lemma succeed_attempt1_Inr:
  "succeed_attempt1 now a = Inr a' \<longleftrightarrow> dt_aware now \<and> a1_status a = A1_RUNNING \<and>
     a' = a\<lparr>a1_status := A1_SUCCEEDED, a1_finished_at := Some now, a1_error_type := None,
       a1_error_message := None, a1_error_category := None, a1_retry_eligible_at := None,
       a1_error_metadata := []\<rparr>"
  by (auto simp: attempt1_op_defs thenR_Inr_iff)

lemma fail_attempt1_Inr:
  "fail_attempt1 now ty m c a = Inr a' \<longleftrightarrow> dt_aware now \<and> \<not> blank ty \<and> \<not> blank m \<and>
     (\<forall>x \<in> set_option c. \<not> blank x) \<and> a1_status a = A1_RUNNING \<and>
     a' = a\<lparr>a1_status := A1_FAILED, a1_finished_at := Some now, a1_error_type := Some ty,
       a1_error_message := Some m, a1_error_category := c,
       a1_retry_eligible_at := None, a1_error_metadata := []\<rparr>"
  by (auto simp: fail_attempt1_def ensure_attempt1_def aware_at_def thenR_Inr_iff)

lemma schedule_retry1_Inr:
  "schedule_retry1 eligible a = Inr a' \<longleftrightarrow> dt_aware eligible \<and> a1_status a = A1_FAILED \<and>
     (\<exists>f. a1_finished_at a = Some f \<and> \<not> eligible < f) \<and> a' = a\<lparr>a1_retry_eligible_at := Some eligible\<rparr>"
  by (auto simp: schedule_retry1_def aware_at_def thenR_Inr_iff split: option.splits)

lemma cancel_attempt1_Inr:
  "cancel_attempt1 now a = Inr a' \<longleftrightarrow> dt_aware now \<and> a1_status a = A1_RUNNING \<and>
     a' = a\<lparr>a1_status := A1_CANCELLED, a1_finished_at := Some now, a1_retry_eligible_at := None\<rparr>"
  by (auto simp: attempt1_op_defs thenR_Inr_iff)

lemmas run1_Inr = start_run1_Inr finish_run1_Inr succeed_run1_def fail_run1_def cancel_run1_def
lemmas task1_Inr = mark_ready1_Inr start_task1_Inr finish_task1_Inr skip_task1_Inr cancel_task1_Inr
  succeed_task1_def fail_task1_def
lemmas attempt1_Inr = succeed_attempt1_Inr fail_attempt1_Inr schedule_retry1_Inr cancel_attempt1_Inr

text \<open>The runner's own references never change.\<close>

lemma run1_step_frame:
  assumes "run1_step r r'"
  shows "r1_id r' = r1_id r \<and> r1_workflow_id r' = r1_workflow_id r \<and> r1_version r' = r1_version r \<and>
    r1_created_at r' = r1_created_at r"
  using assms by (elim run1_stepE) (simp_all add: run1_Inr)

lemma task1_step_frame:
  assumes "task1_step t t'"
  shows "t1_id t' = t1_id t \<and> t1_run_id t' = t1_run_id t \<and> t1_task_id t' = t1_task_id t"
  using assms by (elim task1_stepE) (simp_all add: task1_Inr)

lemma attempt1_step_frame:
  assumes "attempt1_step a a'"
  shows "a1_id a' = a1_id a \<and> a1_task_run_id a' = a1_task_run_id a \<and> a1_number a' = a1_number a"
  using assms by (elim attempt1_stepE) (simp_all add: attempt1_Inr)

text \<open>Every operation follows an edge of its lifecycle; only a retry is scheduled on a finished attempt.\<close>

lemma run1_step_target: "run1_step r r' \<Longrightarrow> r1_status r' \<in> run1_targets (r1_status r)"
  by (elim run1_stepE) (simp_all add: run1_Inr)

lemma task1_step_target: "task1_step t t' \<Longrightarrow> t1_status t' \<in> task1_targets (t1_status t)"
  by (elim task1_stepE) (auto simp: task1_Inr)

lemma attempt1_step_target:
  "attempt1_step a a' \<Longrightarrow> a1_status a' = a1_status a \<and> a1_status a = A1_FAILED \<or>
     a1_status a' \<in> attempt1_targets (a1_status a)"
  by (elim attempt1_stepE) (auto simp: attempt1_Inr)

lemma run1_step_valid: "run1_step r r' \<Longrightarrow> valid_run1 r \<Longrightarrow> valid_run1 r'"
  by (elim run1_stepE) (auto simp: run1_Inr valid_run1_def RUN1_TERMINAL_def)

lemma task1_step_valid: "task1_step t t' \<Longrightarrow> valid_task1 t \<Longrightarrow> valid_task1 t'"
  by (elim task1_stepE) (auto simp: task1_Inr valid_task1_def TASK1_TERMINAL_def)

lemma attempt1_step_valid: "attempt1_step a a' \<Longrightarrow> valid_attempt1 a \<Longrightarrow> valid_attempt1 a'"
  by (elim attempt1_stepE) (auto simp: attempt1_Inr valid_attempt1_def ATTEMPT1_TERMINAL_def not_less)

section \<open>What any number of operations leaves\<close>

lemma run1_steps:
  assumes "run1_step\<^sup>*\<^sup>* r r'" and "valid_run1 r"
  shows "valid_run1 r' \<and> (r1_id r', r1_workflow_id r', r1_version r', r1_created_at r') =
      (r1_id r, r1_workflow_id r, r1_version r, r1_created_at r) \<and> (r1_status r \<in> RUN1_TERMINAL \<longrightarrow> r' = r)"
  using assms
proof (induction rule: rtranclp_induct)
  case (step y z)
  have "r1_status y \<notin> RUN1_TERMINAL"
    using run1_step_target [OF step.hyps(2)] run1_lc.terminal_no_target by blast
  then show ?case
    using step run1_step_frame [OF step.hyps(2)] run1_step_valid [OF step.hyps(2)] by auto
qed simp

lemma task1_steps:
  assumes "task1_step\<^sup>*\<^sup>* t t'" and "valid_task1 t"
  shows "valid_task1 t' \<and> (t1_id t', t1_run_id t', t1_task_id t') = (t1_id t, t1_run_id t, t1_task_id t) \<and>
    (t1_status t \<in> TASK1_TERMINAL \<longrightarrow> t' = t)"
  using assms
proof (induction rule: rtranclp_induct)
  case (step y z)
  have "t1_status y \<notin> TASK1_TERMINAL"
    using task1_step_target [OF step.hyps(2)] task1_lc.terminal_no_target by blast
  then show ?case
    using step task1_step_frame [OF step.hyps(2)] task1_step_valid [OF step.hyps(2)] by auto
qed simp

lemma attempt1_step_terminal:
  assumes "attempt1_step a a'" and "a1_status a \<in> ATTEMPT1_TERMINAL"
  shows "a' = a\<lparr>a1_retry_eligible_at := a1_retry_eligible_at a'\<rparr>"
  using assms by (elim attempt1_stepE) (auto simp: attempt1_Inr ATTEMPT1_TERMINAL_def)

lemma attempt1_status_retry: "a1_status (a\<lparr>a1_retry_eligible_at := x\<rparr>) = a1_status a"
  by simp

lemma attempt1_retry_twice: "a\<lparr>a1_retry_eligible_at := x\<rparr>\<lparr>a1_retry_eligible_at := y\<rparr> = a\<lparr>a1_retry_eligible_at := y\<rparr>"
  by simp

lemma attempt1_steps:
  assumes "attempt1_step\<^sup>*\<^sup>* a a'" and "valid_attempt1 a"
  shows "valid_attempt1 a' \<and> (a1_id a', a1_task_run_id a', a1_number a') = (a1_id a, a1_task_run_id a, a1_number a) \<and>
    (a1_status a \<in> ATTEMPT1_TERMINAL \<longrightarrow> a' = a\<lparr>a1_retry_eligible_at := a1_retry_eligible_at a'\<rparr>)"
  using assms
proof (induction rule: rtranclp_induct)
  case (step y z)
  have "z = a\<lparr>a1_retry_eligible_at := a1_retry_eligible_at z\<rparr>" if a: "a1_status a \<in> ATTEMPT1_TERMINAL"
  proof -
    have y: "y = a\<lparr>a1_retry_eligible_at := a1_retry_eligible_at y\<rparr>" using step.IH step.prems a by blast
    then have "a1_status y = a1_status a" by (metis attempt1_status_retry)
    then have "z = y\<lparr>a1_retry_eligible_at := a1_retry_eligible_at z\<rparr>"
      using attempt1_step_terminal [OF step.hyps(2)] a by simp
    then show ?thesis using y by (metis attempt1_retry_twice)
  qed
  then show ?case
    using step attempt1_step_frame [OF step.hyps(2)] attempt1_step_valid [OF step.hyps(2)] by simp
qed simp

definition sample_instant1 :: "int \<Rightarrow> datetime" where
  "sample_instant1 n = Datetime n True"

definition sample_attempt1 :: v1_attempt where
  "sample_attempt1 = \<lparr>a1_id = ''a'', a1_task_run_id = ''t'', a1_number = 1, a1_status = A1_RUNNING,
     a1_started_at = Some (sample_instant1 1), a1_finished_at = None, a1_error_type = None,
     a1_error_message = None, a1_error_category = None, a1_retry_eligible_at = None, a1_error_metadata = []\<rparr>"

definition sample_run1 :: v1_run where
  "sample_run1 = \<lparr>r1_id = ''r'', r1_workflow_id = ''w'', r1_version = ''1'', r1_status = W1_PENDING,
     r1_parameters = [], r1_created_at = None, r1_started_at = None, r1_finished_at = None\<rparr>"

definition sample_task_run1 :: v1_task_run where
  "sample_task_run1 = \<lparr>t1_id = ''t'', t1_run_id = ''r'', t1_task_id = ''x'', t1_status = T1_PENDING,
     t1_skip_reason = None, t1_created_at = None, t1_started_at = None, t1_finished_at = None\<rparr>"

text \<open>C24: However many operations of the first-generation state machine are applied, in whatever order and
  at whatever instants, a valid run, task run or attempt stays valid and keeps its identity (its
  identifier, what it belongs to, the version of a run and when it was created, the number of an
  attempt), and once terminal it never changes again; of a finished attempt only the retry time can
  still be set.\<close>

theorem v1_machine_sound:
  assumes "run1_step\<^sup>*\<^sup>* r r'" "task1_step\<^sup>*\<^sup>* t t'" "attempt1_step\<^sup>*\<^sup>* a a'"
    and "valid_run1 r" "valid_task1 t" "valid_attempt1 a"
  shows "valid_run1 r' \<and> (r1_id r', r1_workflow_id r', r1_version r', r1_created_at r') =
        (r1_id r, r1_workflow_id r, r1_version r, r1_created_at r) \<and> (r1_status r \<in> RUN1_TERMINAL \<longrightarrow> r' = r) \<and>
      valid_task1 t' \<and> (t1_id t', t1_run_id t', t1_task_id t') = (t1_id t, t1_run_id t, t1_task_id t) \<and>
      (t1_status t \<in> TASK1_TERMINAL \<longrightarrow> t' = t) \<and>
      valid_attempt1 a' \<and> (a1_id a', a1_task_run_id a', a1_number a') = (a1_id a, a1_task_run_id a, a1_number a) \<and>
      (a1_status a \<in> ATTEMPT1_TERMINAL \<longrightarrow> a' = a\<lparr>a1_retry_eligible_at := a1_retry_eligible_at a'\<rparr>)"
  using run1_steps [OF assms(1,4)] task1_steps [OF assms(2,5)] attempt1_steps [OF assms(3,6)] by blast

definition failed_sample1 :: v1_attempt where
  "failed_sample1 = sample_attempt1\<lparr>a1_status := A1_FAILED, a1_finished_at := Some (sample_instant1 5),
     a1_error_type := Some ''E'', a1_error_message := Some ''m''\<rparr>"

lemma sample_steps1:
  "run1_step sample_run1 (sample_run1\<lparr>r1_status := W1_RUNNING, r1_started_at := Some (sample_instant1 1)\<rparr>)"
  "task1_step sample_task_run1 (sample_task_run1\<lparr>t1_status := T1_READY\<rparr>)"
  "attempt1_step\<^sup>*\<^sup>* sample_attempt1 (failed_sample1\<lparr>a1_retry_eligible_at := Some (sample_instant1 9)\<rparr>)"
proof -
  show "run1_step sample_run1 (sample_run1\<lparr>r1_status := W1_RUNNING, r1_started_at := Some (sample_instant1 1)\<rparr>)"
    by (rule run1_step.intros(1) [of "sample_instant1 1"])
      (simp add: start_run1_Inr sample_run1_def sample_instant1_def)
  show "task1_step sample_task_run1 (sample_task_run1\<lparr>t1_status := T1_READY\<rparr>)"
    by (rule task1_step.intros(1)) (simp add: mark_ready1_Inr sample_task_run1_def)
  have "attempt1_step sample_attempt1 failed_sample1"
    by (rule attempt1_step.intros(2) [of "sample_instant1 5" "''E''" "''m''" None])
      (simp add: fail_attempt1_Inr failed_sample1_def sample_attempt1_def sample_instant1_def blank_def py_isspace_def)
  moreover have "attempt1_step failed_sample1 (failed_sample1\<lparr>a1_retry_eligible_at := Some (sample_instant1 9)\<rparr>)"
    by (rule attempt1_step.intros(4) [of "sample_instant1 9"])
      (simp add: schedule_retry1_Inr failed_sample1_def sample_attempt1_def sample_instant1_def less_datetime_def)
  ultimately show "attempt1_step\<^sup>*\<^sup>* sample_attempt1 (failed_sample1\<lparr>a1_retry_eligible_at := Some (sample_instant1 9)\<rparr>)"
    by (rule converse_rtranclp_into_rtranclp [OF _ r_into_rtranclp])
qed

lemma sample_valid1: "valid_run1 sample_run1" "valid_task1 sample_task_run1" "valid_attempt1 sample_attempt1"
  by (simp_all add: valid_run1_def valid_task1_def valid_attempt1_def sample_run1_def sample_task_run1_def
      sample_attempt1_def sample_instant1_def RUN1_TERMINAL_def TASK1_TERMINAL_def ATTEMPT1_TERMINAL_def blank_def py_isspace_def)

theorem v1_machine_sound_witness:
  "valid_run1 (sample_run1\<lparr>r1_status := W1_RUNNING, r1_started_at := Some (sample_instant1 1)\<rparr>) \<and>
   valid_task1 (sample_task_run1\<lparr>t1_status := T1_READY\<rparr>) \<and>
   valid_attempt1 (failed_sample1\<lparr>a1_retry_eligible_at := Some (sample_instant1 9)\<rparr>)"
  using v1_machine_sound [OF r_into_rtranclp [where r = run1_step, OF sample_steps1(1)]
    r_into_rtranclp [where r = task1_step, OF sample_steps1(2)] sample_steps1(3) sample_valid1] by blast

end
