(* ===== verification/V1_Store.thy ===== *)
theory V1_Store
  imports V1_Machine
begin

text \<open>
  The transactional metadata store of the first-generation engine
  (\<open>adapters/metadata/memory.py\<close>), the portable values its output checkpoints hold
  (\<open>contracts/serialization.py\<close>) and the factory of runtime events (\<open>application/events.py\<close>).

  The record \<open>v1_store\<close> is \<open>_MemoryState\<close>, one dictionary per field; a write method of
  \<open>MemoryUnitOfWork\<close> is a function on the staged state, or the exception it raises.  \<open>v1_unit\<close> is a
  unit of work beside its store: the staged copy is present exactly while the unit is active.
  Cloning an entity calls its constructor again and so repeats its validation.
\<close>

section \<open>Portable values\<close>

text \<open>The path at which a value was met is part of the error; the class of a key that is no text
  is not modelled and left out of the message.\<close>

function portable1 :: "string \<Rightarrow> pyval \<Rightarrow> jval result" where
  "portable1 path PyNone = Inr JNull"
| "portable1 path (PyBool b) = Inr (JBool b)"
| "portable1 path (PyNum n) =
     (if py_isfinite n then Inr (JNum n)
      else Inl (V1Error (SerializationError path ''float''
        ''non-finite floating-point values are not portable JSON'')))"
| "portable1 path (PyStr s) = Inr (JStr s)"
| "portable1 path (PyEnum v) = portable1 path v"
| "portable1 path (PyMap items) =
     bindR (mapR (\<lambda>(key, v). case key of
              KOther s \<Rightarrow> Inl (V1Error (SerializationError path ''mapping-key:''
                ''portable JSON object keys must be strings''))
            | KStr s \<Rightarrow> bindR (portable1 (path @ ''.'' @ s) v) (\<lambda>j. Inr (s, j)))
          (sort_key (\<lambda>(key, v). key_text key) items))
       (\<lambda>entries. Inr (JObj entries))"
| "portable1 path (PyList vs) = bindR (mapR (\<lambda>(i, v). portable1 (path @ ''['' @ py_str_int (int i) @ '']'') v)
     (List.enumerate 0 vs)) (\<lambda>js. Inr (JArr js))"
| "portable1 path (PyTuple vs) = bindR (mapR (\<lambda>(i, v). portable1 (path @ ''['' @ py_str_int (int i) @ '']'') v)
     (List.enumerate 0 vs)) (\<lambda>js. Inr (JArr js))"
| "portable1 path (PyOther name) = Inl (V1Error (SerializationError path name
     ''value is not representable as portable JSON''))"
  by pat_completeness auto
termination
  by (relation "measure (\<lambda>(path, v). size v)")
    (auto intro: size_entry size_list_member [OF nth_mem] simp: in_set_enumerate_eq)

section \<open>The state\<close>

record v1_store =
  s1_runs :: "(string, v1_run) dict"
  s1_tasks :: "(string, v1_task_run) dict"
  s1_attempts :: "(string, v1_attempt) dict"
  s1_events :: "(string, v1_event) dict"
  s1_outputs :: "(string, jval) dict"
  s1_artifacts :: "(string, string \<times> v1_artifact) dict"
  s1_externals :: "(string, string \<times> v1_external_ref) dict"

definition empty_store1 :: v1_store where
  "empty_store1 = \<lparr>s1_runs = [], s1_tasks = [], s1_attempts = [], s1_events = [], s1_outputs = [],
     s1_artifacts = [], s1_externals = []\<rparr>"

definition clone_store1 :: "v1_store \<Rightarrow> v1_store result" where
  \<comment> \<open>\<open>_clone_state\<close>: only the three mutable entities are rebuilt.\<close>
  "clone_store1 s =
     thenR (forR (dict_values (s1_runs s)) run1_post_init)
    (thenR (forR (dict_values (s1_tasks s)) task1_post_init)
    (thenR (forR (dict_values (s1_attempts s)) attempt1_post_init) (Inr s)))"

section \<open>Writes\<close>

definition known1_id :: "string \<Rightarrow> string \<Rightarrow> (string, 'v) dict \<Rightarrow> unit result" where
  "known1_id entity i d = require (dict_has d i) (MetadataNotFound entity i)"

definition unused1_id :: "string \<Rightarrow> string \<Rightarrow> (string, 'v) dict \<Rightarrow> unit result" where
  "unused1_id entity i d = require (\<not> dict_has d i) (DuplicateMetadata entity i)"

definition add_run1 :: "v1_run \<Rightarrow> v1_store \<Rightarrow> v1_store result" where
  "add_run1 r s =
     thenR (unused1_id ''WorkflowRun'' (r1_id r) (s1_runs s))
    (bindR (mk_run1 r) (\<lambda>r. Inr (s\<lparr>s1_runs := dict_set (r1_id r) r (s1_runs s)\<rparr>)))"

definition save_run1 :: "v1_run \<Rightarrow> v1_store \<Rightarrow> v1_store result" where
  "save_run1 r s =
     thenR (known1_id ''WorkflowRun'' (r1_id r) (s1_runs s))
    (bindR (mk_run1 r) (\<lambda>r. Inr (s\<lparr>s1_runs := dict_set (r1_id r) r (s1_runs s)\<rparr>)))"

definition add_task1 :: "v1_task_run \<Rightarrow> v1_store \<Rightarrow> v1_store result" where
  "add_task1 t s =
     thenR (unused1_id ''TaskRun'' (t1_id t) (s1_tasks s))
    (thenR (known1_id ''WorkflowRun'' (t1_run_id t) (s1_runs s))
    (bindR (mk_task_run1 t) (\<lambda>t. Inr (s\<lparr>s1_tasks := dict_set (t1_id t) t (s1_tasks s)\<rparr>))))"

definition save_task1 :: "v1_task_run \<Rightarrow> v1_store \<Rightarrow> v1_store result" where
  "save_task1 t s =
     thenR (known1_id ''TaskRun'' (t1_id t) (s1_tasks s))
    (bindR (mk_task_run1 t) (\<lambda>t. Inr (s\<lparr>s1_tasks := dict_set (t1_id t) t (s1_tasks s)\<rparr>)))"

definition add_attempt1 :: "v1_attempt \<Rightarrow> v1_store \<Rightarrow> v1_store result" where
  "add_attempt1 a s =
     thenR (unused1_id ''TaskAttempt'' (a1_id a) (s1_attempts s))
    (thenR (known1_id ''TaskRun'' (a1_task_run_id a) (s1_tasks s))
    (thenR (forR (dict_values (s1_attempts s)) (\<lambda>existing.
       require (\<not> (a1_task_run_id existing = a1_task_run_id a \<and> a1_number existing = a1_number a))
         (DuplicateMetadata ''TaskAttemptNumber'' (a1_task_run_id a @ '':'' @ py_str_int (a1_number a)))))
    (bindR (mk_attempt1 a) (\<lambda>a. Inr (s\<lparr>s1_attempts := dict_set (a1_id a) a (s1_attempts s)\<rparr>)))))"

definition save_attempt1 :: "v1_attempt \<Rightarrow> v1_store \<Rightarrow> v1_store result" where
  "save_attempt1 a s =
     thenR (known1_id ''TaskAttempt'' (a1_id a) (s1_attempts s))
    (bindR (mk_attempt1 a) (\<lambda>a. Inr (s\<lparr>s1_attempts := dict_set (a1_id a) a (s1_attempts s)\<rparr>)))"

definition sequences1 :: "v1_store \<Rightarrow> string \<Rightarrow> int list" where
  "sequences1 s run = concat (map (\<lambda>e. if e1_run_id e = run then (case e1_sequence e of None \<Rightarrow> [] | Some n \<Rightarrow> [n])
     else []) (dict_values (s1_events s)))"

definition previous_sequence :: "v1_store \<Rightarrow> string \<Rightarrow> int" where
  \<comment> \<open>\<open>max(existing_sequences, default=0)\<close>\<close>
  "previous_sequence s run = (case sequences1 s run of [] \<Rightarrow> 0 | n # ns \<Rightarrow> fold max ns n)"

definition add_event1 :: "v1_event \<Rightarrow> v1_store \<Rightarrow> v1_store result" where
  "add_event1 e s =
     thenR (unused1_id ''RuntimeEvent'' (e1_id e) (s1_events s))
    (thenR (known1_id ''WorkflowRun'' (e1_run_id e) (s1_runs s))
    (thenR (require (\<exists>n \<in> set_option (e1_sequence e). previous_sequence s (e1_run_id e) < n)
       (V1Error (InvalidEventSequence (e1_run_id e) (previous_sequence s (e1_run_id e)) (e1_sequence e))))
    (Inr (s\<lparr>s1_events := dict_set (e1_id e) e (s1_events s)\<rparr>))))"

definition add_output1 :: "string \<Rightarrow> pyval \<Rightarrow> v1_store \<Rightarrow> v1_store result" where
  "add_output1 task_run_id output s =
     thenR (known1_id ''TaskRun'' task_run_id (s1_tasks s))
    (thenR (unused1_id ''TaskOutputCheckpoint'' task_run_id (s1_outputs s))
    (bindR (portable1 (''task_output_checkpoint.'' @ task_run_id) output) (\<lambda>j.
     Inr (s\<lparr>s1_outputs := dict_set task_run_id j (s1_outputs s)\<rparr>))))"

definition add_artifact1 :: "string \<Rightarrow> v1_artifact \<Rightarrow> v1_store \<Rightarrow> v1_store result" where
  "add_artifact1 task_run_id artifact s =
     thenR (known1_id ''TaskRun'' task_run_id (s1_tasks s))
    (thenR (unused1_id ''Artifact'' (ar1_id artifact) (s1_artifacts s))
    (Inr (s\<lparr>s1_artifacts := dict_set (ar1_id artifact) (task_run_id, artifact) (s1_artifacts s)\<rparr>)))"

definition add_external1 :: "string \<Rightarrow> v1_external_ref \<Rightarrow> v1_store \<Rightarrow> v1_store result" where
  "add_external1 task_run_id ref s =
     thenR (known1_id ''TaskRun'' task_run_id (s1_tasks s))
    (thenR (unused1_id ''ExternalRunRef'' (xr1_id ref) (s1_externals s))
    (Inr (s\<lparr>s1_externals := dict_set (xr1_id ref) (task_run_id, ref) (s1_externals s)\<rparr>)))"

section \<open>Units of work\<close>

record v1_unit =
  un_store :: v1_store
  un_staged :: "v1_store option"

definition unit_error :: "string \<Rightarrow> pyexc" where
  "unit_error reason = V1Error (UnitOfWorkState reason)"

definition enter1 :: "(v1_unit, unit) act" where
  "enter1 = bindA (gets id) (\<lambda>u.
     thenA (requireA (un_staged u = None) (unit_error ''unit of work is already active''))
    (bindA (liftR (clone_store1 (un_store u))) (\<lambda>copy. modifyA (\<lambda>u. u\<lparr>un_staged := Some copy\<rparr>))))"

definition require_state1 :: "(v1_unit, v1_store) act" where
  "require_state1 = bindA (gets un_staged) (\<lambda>staged. case staged of
     None \<Rightarrow> raise (unit_error ''unit of work must be entered before use'')
   | Some s \<Rightarrow> ret s)"

definition stage1 :: "(v1_store \<Rightarrow> v1_store result) \<Rightarrow> (v1_unit, unit) act" where
  \<comment> \<open>One write method: it reads the staged state and changes it only when nothing is raised.\<close>
  "stage1 write = bindA require_state1 (\<lambda>s. bindA (liftR (write s)) (\<lambda>t. modifyA (\<lambda>u. u\<lparr>un_staged := Some t\<rparr>)))"

definition commit1 :: "(v1_unit, unit) act" where
  "commit1 = bindA require_state1 (\<lambda>s. modifyA (\<lambda>u. u\<lparr>un_store := s, un_staged := None\<rparr>))"

definition rollback1 :: "(v1_unit, unit) act" where
  "rollback1 = bindA (gets un_staged) (\<lambda>staged.
     thenA (requireA (staged \<noteq> None) (unit_error ''unit of work is not active''))
       (modifyA (\<lambda>u. u\<lparr>un_staged := None\<rparr>)))"

definition exit1 :: "(v1_unit, unit) act" where
  "exit1 = bindA (gets un_staged) (\<lambda>staged. if staged \<noteq> None then rollback1 else ret ())"

definition with_unit1 :: "(v1_unit, unit) act \<Rightarrow> (v1_store, unit) act" where
  \<comment> \<open>\<open>with store.unit_of_work() as uow: body\<close>\<close>
  "with_unit1 body = (\<lambda>s. case thenA enter1 (finallyA body exit1) \<lparr>un_store = s, un_staged = None\<rparr> of
     (r, u) \<Rightarrow> (r, un_store u))"

definition stage_all1 :: "(v1_store \<Rightarrow> v1_store result) list \<Rightarrow> (v1_unit, unit) act" where
  \<comment> \<open>Loops of writes inside a unit of work.\<close>
  "stage_all1 writes = forA writes stage1"

section \<open>Reads\<close>

definition get_run1 :: "v1_store \<Rightarrow> string \<Rightarrow> v1_run result" where
  "get_run1 s i = (case dict_get (s1_runs s) i of None \<Rightarrow> Inl (MetadataNotFound ''WorkflowRun'' i)
     | Some r \<Rightarrow> mk_run1 r)"

definition get_task1 :: "v1_store \<Rightarrow> string \<Rightarrow> v1_task_run result" where
  "get_task1 s i = (case dict_get (s1_tasks s) i of None \<Rightarrow> Inl (MetadataNotFound ''TaskRun'' i)
     | Some t \<Rightarrow> mk_task_run1 t)"

definition list_runs1 :: "v1_store \<Rightarrow> v1_run list result" where
  "list_runs1 s = bindR (mapR mk_run1 (dict_values (s1_runs s))) (\<lambda>rs. Inr (sort_key r1_id rs))"

definition list_tasks1 :: "v1_store \<Rightarrow> string \<Rightarrow> v1_task_run list result" where
  "list_tasks1 s run = bindR (mapR mk_task_run1 (filter (\<lambda>t. t1_run_id t = run) (dict_values (s1_tasks s))))
     (\<lambda>ts. Inr (sort_key t1_task_id ts))"

definition list_attempts1 :: "v1_store \<Rightarrow> string \<Rightarrow> v1_attempt list result" where
  "list_attempts1 s task_run_id =
     bindR (mapR mk_attempt1 (filter (\<lambda>a. a1_task_run_id a = task_run_id) (dict_values (s1_attempts s))))
     (\<lambda>ats. Inr (sort_key a1_number ats))"

definition event_sort_key :: "v1_event \<Rightarrow> int \<times> string" where
  "event_sort_key e = (case e1_sequence e of None \<Rightarrow> 2 ^ 63 - 1 | Some n \<Rightarrow> n, e1_id e)"

definition list_events1 :: "v1_store \<Rightarrow> string \<Rightarrow> v1_event list" where
  "list_events1 s run = sort_key event_sort_key (filter (\<lambda>e. e1_run_id e = run) (dict_values (s1_events s)))"

definition get_output1 :: "v1_store \<Rightarrow> string \<Rightarrow> pyval result" where
  "get_output1 s i = (case dict_get (s1_outputs s) i of None \<Rightarrow> Inl (MetadataNotFound ''TaskOutputCheckpoint'' i)
     | Some j \<Rightarrow> Inr (plain_json j))"

definition list_artifacts1 :: "v1_store \<Rightarrow> string \<Rightarrow> v1_artifact list" where
  "list_artifacts1 s task_run_id =
     sort_key ar1_id (map snd (filter (\<lambda>(owner, a). owner = task_run_id) (dict_values (s1_artifacts s))))"

definition list_externals1 :: "v1_store \<Rightarrow> string \<Rightarrow> v1_external_ref list" where
  "list_externals1 s task_run_id =
     sort_key xr1_id (map snd (filter (\<lambda>(owner, x). owner = task_run_id) (dict_values (s1_externals s))))"

section \<open>Events\<close>

definition WORKFLOW_EVENT_TYPES1 :: "v1_event_type set" where
  "WORKFLOW_EVENT_TYPES1 = {WORKFLOW_STARTED, WORKFLOW_SUCCEEDED, WORKFLOW_FAILED, WORKFLOW_CANCELLED}"

definition event_context :: "v1_event \<Rightarrow> unit result" where
  \<comment> \<open>Every type that is not a workflow event is a task event.\<close>
  "event_context e =
     (if e1_type e \<in> WORKFLOW_EVENT_TYPES1 then
        require (e1_task_run_id e = None \<and> e1_task_id e = None \<and> e1_attempt_number e = None)
          (ValueError ''workflow events cannot carry task context'')
      else require (e1_task_run_id e \<noteq> None \<and> e1_task_id e \<noteq> None)
          (ValueError ''task events require task_run_id and task_id''))"

record event_factory1 =
  ef1_run_id :: string
  ef1_next :: int

definition mk_event_factory1 :: "string \<Rightarrow> int \<Rightarrow> event_factory1 result" where
  "mk_event_factory1 run_id starting =
     thenR (require (1 \<le> starting) (ValueError ''starting_sequence must be greater than or equal to 1''))
    (Inr \<lparr>ef1_run_id = run_id, ef1_next = starting\<rparr>)"

definition create_event1 ::
  "(string \<Rightarrow> int \<Rightarrow> ('e, string) act) \<Rightarrow> v1_event_type \<Rightarrow> datetime \<Rightarrow> (string \<times> string) option \<Rightarrow>
   int option \<Rightarrow> (string \<times> pyval) list \<Rightarrow> event_factory1 \<Rightarrow> ('e, v1_event \<times> event_factory1) act" where
  \<comment> \<open>\<open>create\<close>; every caller gives the task run and the task together or not at all.  The first
     argument is \<open>new_runtime_event_id\<close>.\<close>
  "create_event1 new_id ty occurred_at task attempt_number payload ef =
     (let draft = \<lparr>e1_id = [], e1_type = ty, e1_run_id = ef1_run_id ef, e1_occurred_at = occurred_at,
        e1_sequence = Some (ef1_next ef), e1_task_run_id = map_option fst task, e1_task_id = map_option snd task,
        e1_attempt_number = attempt_number, e1_payload = payload\<rparr> in
      thenA (liftR (event_context draft))
     (bindA (new_id (ef1_run_id ef) (ef1_next ef)) (\<lambda>i.
      bindA (liftR (mk_event1 (draft\<lparr>e1_id := i\<rparr>))) (\<lambda>e.
      ret (e, ef\<lparr>ef1_next := ef1_next ef + 1\<rparr>)))))"

section \<open>Units of work are atomic\<close>

definition write1 :: "(v1_store \<Rightarrow> v1_store result) list \<Rightarrow> (v1_store, unit) act" where
  \<comment> \<open>A unit of work that stages some writes and commits.\<close>
  "write1 writes = with_unit1 (thenA (stage_all1 writes) commit1)"

lemma stage1_active:
  "stage1 w \<lparr>un_store = s, un_staged = Some x\<rparr> = (case w x of
     Inl e \<Rightarrow> (Inl e, \<lparr>un_store = s, un_staged = Some x\<rparr>)
   | Inr y \<Rightarrow> (Inr (), \<lparr>un_store = s, un_staged = Some y\<rparr>))"
  by (simp add: stage1_def require_state1_def bindA_def split: sum.splits)

lemma stage_all1_active:
  "\<exists>y. stage_all1 ws \<lparr>un_store = s, un_staged = Some x\<rparr> = (case foldR (\<lambda>w. w) ws x of
     Inl e \<Rightarrow> (Inl e, \<lparr>un_store = s, un_staged = Some y\<rparr>)
   | Inr z \<Rightarrow> (Inr (), \<lparr>un_store = s, un_staged = Some z\<rparr>))"
proof (induction ws arbitrary: x)
  case (Cons w ws)
  then show ?case
    by (cases "w x") (auto simp: stage_all1_def stage1_active thenA_def bindA_def)
qed (simp add: stage_all1_def)

lemma enter1_fresh:
  "enter1 \<lparr>un_store = s, un_staged = None\<rparr> = (case clone_store1 s of
     Inl e \<Rightarrow> (Inl e, \<lparr>un_store = s, un_staged = None\<rparr>)
   | Inr c \<Rightarrow> (Inr (), \<lparr>un_store = s, un_staged = Some c\<rparr>))"
  by (simp add: enter1_def bindA_def thenA_def split: sum.splits)

lemma exit1_active [simp]:
  "exit1 \<lparr>un_store = s, un_staged = x\<rparr> = (Inr (), \<lparr>un_store = s, un_staged = None\<rparr>)"
  by (cases x) (simp_all add: exit1_def rollback1_def bindA_def thenA_def)

lemma commit1_active [simp]:
  "commit1 \<lparr>un_store = s, un_staged = Some x\<rparr> = (Inr (), \<lparr>un_store = x, un_staged = None\<rparr>)"
  by (simp add: commit1_def require_state1_def bindA_def)

lemma clone_store1_Inr: "clone_store1 s = Inr c \<Longrightarrow> c = s"
  by (simp add: clone_store1_def thenR_Inr_iff)

lemma write1_eq:
  "write1 ws s = (case thenR (clone_store1 s) (foldR (\<lambda>w. w) ws s) of Inl e \<Rightarrow> (Inl e, s) | Inr t \<Rightarrow> (Inr (), t))"
proof (cases "clone_store1 s")
  case (Inr c)
  then have "c = s" by (rule clone_store1_Inr)
  then show ?thesis using Inr stage_all1_active [of ws s s]
    by (cases "foldR (\<lambda>w. w) ws s")
      (auto simp: write1_def with_unit1_def enter1_fresh thenA_def bindA_def finallyA_def)
qed (simp add: write1_def with_unit1_def enter1_fresh thenA_def bindA_def)

lemma uncommitted: "snd (with_unit1 (stage_all1 ws) s) = s"
proof (cases "clone_store1 s")
  case (Inr c)
  then show ?thesis using stage_all1_active [of ws s c]
    by (cases "foldR (\<lambda>w. w) ws c")
      (auto simp: with_unit1_def enter1_fresh thenA_def bindA_def finallyA_def)
qed (simp add: with_unit1_def enter1_fresh thenA_def bindA_def)

text \<open>C25: A unit of work is a transaction.  Entered, filled with any writes and committed, it has the
  effect of those writes in their order when all of them succeed; when one is refused its exception
  leaves the unit and the store is exactly as before, whatever was staged; and writes that are never
  committed are discarded.\<close>

theorem v1_unit_atomic:
  "with_unit1 (thenA (stage_all1 ws) commit1) s =
     (case thenR (clone_store1 s) (foldR (\<lambda>w. w) ws s) of Inl e \<Rightarrow> (Inl e, s) | Inr t \<Rightarrow> (Inr (), t)) \<and>
   snd (with_unit1 (stage_all1 ws) s) = s"
  using write1_eq [of ws s] uncommitted by (simp add: write1_def)

section \<open>Tables of entities\<close>

text \<open>
  What the three tables of mutable entities promise their users, whichever entity they hold:
  \<open>add\<close> makes a new entry, \<open>save\<close> replaces one, both only with an entity that its constructor
  accepts, and afterwards exactly that entity is found under its identifier.
\<close>

definition keyed :: "('e \<Rightarrow> string) \<Rightarrow> ('e \<Rightarrow> bool) \<Rightarrow> (string, 'e) dict \<Rightarrow> bool" where
  "keyed key valid d \<longleftrightarrow> dict_ok d \<and> (\<forall>(k, e) \<in> set d. key e = k \<and> valid e)"

lemma keyed_Nil [simp]: "keyed key valid []"
  by (simp add: keyed_def)

lemma keyed_set: "keyed key valid d \<Longrightarrow> valid e \<Longrightarrow> keyed key valid (dict_set (key e) e d)"
  by (auto simp: keyed_def dict_set_set)

lemma keyed_get: "keyed key valid d \<Longrightarrow> dict_get d k = Some e \<Longrightarrow> key e = k \<and> valid e"
  by (auto simp: keyed_def dict_get_iff)

locale keyed_table =
  fixes table :: "v1_store \<Rightarrow> (string, 'e) dict"
    and key :: "'e \<Rightarrow> string"
    and valid :: "'e \<Rightarrow> bool"
    and add :: "'e \<Rightarrow> v1_store \<Rightarrow> v1_store result"
    and save :: "'e \<Rightarrow> v1_store \<Rightarrow> v1_store result"
  assumes add_effect: "add e s = Inr t \<Longrightarrow>
      \<not> dict_has (table s) (key e) \<and> valid e \<and> table t = dict_set (key e) e (table s)"
    and save_effect: "save e s = Inr t \<Longrightarrow>
      dict_has (table s) (key e) \<and> valid e \<and> table t = dict_set (key e) e (table s)"
    and save_total: "dict_has (table s) (key e) \<Longrightarrow> valid e \<Longrightarrow> \<exists>t. save e s = Inr t"
begin

lemma lookup_add: "add e s = Inr t \<Longrightarrow> dict_get (table t) k = (if k = key e then Some e else dict_get (table s) k)"
  by (simp add: dict_get_set add_effect)

lemma lookup_save: "save e s = Inr t \<Longrightarrow> dict_get (table t) k = (if k = key e then Some e else dict_get (table s) k)"
  by (simp add: dict_get_set save_effect)

lemma keeps_keyed:
  "add e s = Inr t \<or> save e s = Inr t \<Longrightarrow> keyed key valid (table s) \<Longrightarrow> keyed key valid (table t)"
  using add_effect [of e s t] save_effect [of e s t] keyed_set by fastforce

text \<open>An entity that was added can be saved again, and the last one saved is the one that is read.\<close>

lemma add_then_save:
  assumes "add e s = Inr t" "key e' = key e" "valid e'"
  shows "\<exists>u. save e' t = Inr u \<and> dict_get (table u) (key e) = Some e' \<and>
    (\<forall>k. k \<noteq> key e \<longrightarrow> dict_get (table u) k = dict_get (table s) k)"
proof -
  have "dict_has (table t) (key e')" using assms(1,2) by (simp add: add_effect dict_set_keys)
  then obtain u where "save e' t = Inr u" using save_total assms(3) by blast
  then show ?thesis using assms lookup_add lookup_save by simp
qed

end

lemmas write_defs1 = add_run1_def save_run1_def add_task1_def save_task1_def add_attempt1_def save_attempt1_def
  known1_id_def unused1_id_def

interpretation run1_table: keyed_table s1_runs r1_id valid_run1 add_run1 save_run1
  by unfold_locales (auto simp: write_defs1 thenR_Inr_iff bindR_Inr_iff mk_run1_Inr)

interpretation task1_table: keyed_table s1_tasks t1_id valid_task1 add_task1 save_task1
  by unfold_locales (auto simp: write_defs1 thenR_Inr_iff bindR_Inr_iff mk_task_run1_Inr)

interpretation attempt1_table: keyed_table s1_attempts a1_id valid_attempt1 add_attempt1 save_attempt1
  by unfold_locales (auto simp: write_defs1 thenR_Inr_iff bindR_Inr_iff mk_attempt1_Inr)

section \<open>The invariant of the store\<close>

definition follows :: "v1_event \<Rightarrow> v1_event \<Rightarrow> bool" where
  "follows a b \<longleftrightarrow> e1_run_id a = e1_run_id b \<longrightarrow>
     (\<exists>m n. e1_sequence a = Some m \<and> e1_sequence b = Some n \<and> m < n)"

definition numbered :: "v1_event \<Rightarrow> bool" where
  "numbered e \<longleftrightarrow> (\<exists>n. e1_sequence e = Some n \<and> 1 \<le> n)"

definition owned :: "(string, 'v) dict \<Rightarrow> ('x \<Rightarrow> string) \<Rightarrow> (string, 'x) dict \<Rightarrow> bool" where
  \<comment> \<open>What every entry of the second table refers to is in the first.\<close>
  "owned owners ref d \<longleftrightarrow> (\<forall>(k, x) \<in> set d. dict_has owners (ref x))"

definition store1_ok :: "v1_store \<Rightarrow> bool" where
  "store1_ok s \<longleftrightarrow>
     keyed r1_id valid_run1 (s1_runs s) \<and> keyed t1_id valid_task1 (s1_tasks s) \<and>
     keyed a1_id valid_attempt1 (s1_attempts s) \<and> keyed e1_id numbered (s1_events s) \<and>
     dict_ok (s1_outputs s) \<and> keyed (ar1_id \<circ> snd) (\<lambda>_. True) (s1_artifacts s) \<and>
     keyed (xr1_id \<circ> snd) (\<lambda>_. True) (s1_externals s) \<and>
     owned (s1_runs s) e1_run_id (s1_events s) \<and> owned (s1_tasks s) fst (s1_artifacts s) \<and>
     owned (s1_tasks s) fst (s1_externals s) \<and> (\<forall>k. dict_has (s1_outputs s) k \<longrightarrow> dict_has (s1_tasks s) k) \<and>
     sorted_wrt follows (dict_values (s1_events s))"

inductive v1_write :: "v1_store \<Rightarrow> v1_store \<Rightarrow> bool" where
  "add_run1 r s = Inr t \<Longrightarrow> v1_write s t"
| "save_run1 r s = Inr t \<Longrightarrow> v1_write s t"
| "add_task1 x s = Inr t \<Longrightarrow> v1_write s t"
| "save_task1 x s = Inr t \<Longrightarrow> v1_write s t"
| "add_attempt1 a s = Inr t \<Longrightarrow> v1_write s t"
| "save_attempt1 a s = Inr t \<Longrightarrow> v1_write s t"
| "add_event1 e s = Inr t \<Longrightarrow> v1_write s t"
| "add_output1 i v s = Inr t \<Longrightarrow> v1_write s t"
| "add_artifact1 i ar s = Inr t \<Longrightarrow> v1_write s t"
| "add_external1 i x s = Inr t \<Longrightarrow> v1_write s t"

lemma owned_Nil [simp]: "owned d f []"
  by (simp add: owned_def)

lemma owned_grow: "owned d f e \<Longrightarrow> owned (dict_set k v d) f e"
  by (auto simp: owned_def dict_set_keys)

lemma owned_set: "owned d f e \<Longrightarrow> dict_ok e \<Longrightarrow> dict_has d (f x) \<Longrightarrow> owned d f (dict_set k x e)"
  by (auto simp: owned_def dict_set_set)

lemma keyed_ok: "keyed f v d \<Longrightarrow> dict_ok d"
  by (simp add: keyed_def)

lemma fold_max: "m \<in> set (n # ns) \<Longrightarrow> m \<le> fold max ns (n :: int)"
  by (simp add: Max.set_eq_fold [symmetric])

lemma previous_sequence_max:
  assumes "e \<in> set (dict_values (s1_events s))" "e1_run_id e = run" "e1_sequence e = Some n"
  shows "n \<le> previous_sequence s run"
proof -
  have "n \<in> set (sequences1 s run)"
    using assms by (force simp: sequences1_def)
  then show ?thesis by (auto simp: previous_sequence_def fold_max split: list.splits)
qed

lemma previous_sequence_nonneg:
  assumes "\<forall>e \<in> set (dict_values (s1_events s)). numbered e"
  shows "0 \<le> previous_sequence s run"
proof (cases "sequences1 s run")
  case (Cons n ns)
  then have "n \<in> set (sequences1 s run)" by simp
  then have "1 \<le> n" using assms by (auto simp: sequences1_def numbered_def split: if_splits option.splits)
  moreover have "n \<le> fold max ns n" by (rule fold_max) simp
  ultimately show ?thesis using Cons by (simp add: previous_sequence_def)
qed (simp add: previous_sequence_def)

lemma add_event1_effect:
  assumes "add_event1 e s = Inr t" "keyed e1_id numbered (s1_events s)"
  shows "\<not> dict_has (s1_events s) (e1_id e) \<and> dict_has (s1_runs s) (e1_run_id e) \<and> numbered e \<and>
    t = s\<lparr>s1_events := s1_events s @ [(e1_id e, e)]\<rparr> \<and>
    (\<forall>b \<in> set (dict_values (s1_events s)). follows b e)"
proof -
  have num: "\<forall>b \<in> set (dict_values (s1_events s)). numbered b"
    using assms(2) by (auto simp: keyed_def dict_values_def)
  have run: "\<not> dict_has (s1_events s) (e1_id e)" "dict_has (s1_runs s) (e1_run_id e)"
    "t = s\<lparr>s1_events := dict_set (e1_id e) e (s1_events s)\<rparr>"
    using assms(1) by (auto simp: add_event1_def unused1_id_def known1_id_def thenR_Inr_iff)
  obtain n where n: "e1_sequence e = Some n" "previous_sequence s (e1_run_id e) < n"
    using assms(1) by (auto simp: add_event1_def thenR_Inr_iff)
  have "follows b e" if b: "b \<in> set (dict_values (s1_events s))" for b
  proof -
    obtain m where m: "e1_sequence b = Some m" using num b by (auto simp: numbered_def)
    show ?thesis unfolding follows_def
      using previous_sequence_max [OF b _ m] n m by fastforce
  qed
  moreover have "numbered e"
    using n previous_sequence_nonneg [OF num, of "e1_run_id e"] by (simp add: numbered_def)
  ultimately show ?thesis using run by (simp add: dict_set_fresh)
qed

lemmas store1_ok_simps = store1_ok_def owned_grow owned_set keyed_ok

lemma v1_write_tables:
  "add_run1 r s = Inr t \<or> save_run1 r s = Inr t \<Longrightarrow> valid_run1 r \<and> t = s\<lparr>s1_runs := dict_set (r1_id r) r (s1_runs s)\<rparr>"
  "add_task1 x s = Inr t \<or> save_task1 x s = Inr t \<Longrightarrow> valid_task1 x \<and> t = s\<lparr>s1_tasks := dict_set (t1_id x) x (s1_tasks s)\<rparr>"
  "add_attempt1 a s = Inr t \<or> save_attempt1 a s = Inr t \<Longrightarrow>
     valid_attempt1 a \<and> t = s\<lparr>s1_attempts := dict_set (a1_id a) a (s1_attempts s)\<rparr>"
  by (auto simp: write_defs1 thenR_Inr_iff bindR_Inr_iff mk_run1_Inr mk_task_run1_Inr mk_attempt1_Inr)

lemma outputs_grow: "\<forall>k. dict_has o1 k \<longrightarrow> dict_has d k \<Longrightarrow> \<forall>k. dict_has o1 k \<longrightarrow> dict_has (dict_set i v d) k"
  by (simp add: dict_set_keys)

lemma v1_write_ok:
  assumes "v1_write s t" "store1_ok s"
  shows "store1_ok t"
  using assms
proof (induction rule: v1_write.induct)
  case (1 r s t)
  then show ?case using v1_write_tables(1) [of r s t] by (auto simp: store1_ok_def keyed_set intro: owned_grow)
next
  case (2 r s t)
  then show ?case using v1_write_tables(1) [of r s t] by (auto simp: store1_ok_def keyed_set intro: owned_grow)
next
  case (3 x s t)
  then show ?case using v1_write_tables(2) [of x s t]
    by (auto simp: store1_ok_def keyed_set dict_set_keys intro: owned_grow)
next
  case (4 x s t)
  then show ?case using v1_write_tables(2) [of x s t]
    by (auto simp: store1_ok_def keyed_set dict_set_keys intro: owned_grow)
next
  case (5 a s t)
  then show ?case using v1_write_tables(3) [of a s t] by (auto simp: store1_ok_def keyed_set)
next
  case (6 a s t)
  then show ?case using v1_write_tables(3) [of a s t] by (auto simp: store1_ok_def keyed_set)
next
  case (7 e s t)
  then have key: "keyed e1_id numbered (s1_events s)" by (simp add: store1_ok_def)
  note e = add_event1_effect [OF 7(1) key]
  have "keyed e1_id numbered (s1_events s @ [(e1_id e, e)])"
    using keyed_set [OF key, of e] e by (simp add: dict_set_fresh)
  then show ?case using 7(2) e
    by (auto simp: store1_ok_def owned_def dict_values_def sorted_wrt_append)
next
  case (8 i v s t)
  then obtain j where "dict_has (s1_tasks s) i" "t = s\<lparr>s1_outputs := dict_set i j (s1_outputs s)\<rparr>"
    by (auto simp: add_output1_def known1_id_def thenR_Inr_iff bindR_Inr_iff)
  then show ?case using 8(2) by (simp add: store1_ok_def dict_set_keys)
next
  case (9 i ar s t)
  then have "dict_has (s1_tasks s) i" "t = s\<lparr>s1_artifacts := dict_set (ar1_id ar) (i, ar) (s1_artifacts s)\<rparr>"
    by (simp_all add: add_artifact1_def known1_id_def thenR_Inr_iff)
  moreover have "owned (s1_tasks s) fst (dict_set (ar1_id ar) (i, ar) (s1_artifacts s))"
    by (rule owned_set) (use 9(2) calculation in \<open>simp_all add: store1_ok_def keyed_def\<close>)
  ultimately show ?case using 9(2) keyed_set [of "ar1_id \<circ> snd" "\<lambda>_. True" "s1_artifacts s" "(i, ar)"]
    by (simp add: store1_ok_def)
next
  case (10 i x s t)
  then have "dict_has (s1_tasks s) i" "t = s\<lparr>s1_externals := dict_set (xr1_id x) (i, x) (s1_externals s)\<rparr>"
    by (simp_all add: add_external1_def known1_id_def thenR_Inr_iff)
  moreover have "owned (s1_tasks s) fst (dict_set (xr1_id x) (i, x) (s1_externals s))"
    by (rule owned_set) (use 10(2) calculation in \<open>simp_all add: store1_ok_def keyed_def\<close>)
  ultimately show ?case using 10(2) keyed_set [of "xr1_id \<circ> snd" "\<lambda>_. True" "s1_externals s" "(i, x)"]
    by (simp add: store1_ok_def)
qed

lemma empty_store1_ok: "store1_ok empty_store1"
  by (simp add: store1_ok_def empty_store1_def dict_values_def)

lemma v1_writes_ok: "v1_write\<^sup>*\<^sup>* s t \<Longrightarrow> store1_ok s \<Longrightarrow> store1_ok t"
  by (induction rule: rtranclp_induct) (auto intro: v1_write_ok)

lemma follows_sorted:
  assumes "sorted_wrt follows es" "\<forall>e \<in> set es. e1_run_id e = run"
  shows "sorted (map event_sort_key es)"
  using assms
proof (induction es)
  case (Cons e es)
  have "event_sort_key e \<le> event_sort_key b" if "b \<in> set es" for b
    using Cons.prems that by (auto simp: follows_def event_sort_key_def less_eq_prod_def)
  then show ?case using Cons by auto
qed simp

lemma list_events1_order:
  assumes "store1_ok s"
  shows "list_events1 s run = filter (\<lambda>e. e1_run_id e = run) (dict_values (s1_events s))"
proof -
  have "sorted_wrt follows (filter (\<lambda>e. e1_run_id e = run) (dict_values (s1_events s)))"
    using assms by (simp add: store1_ok_def sorted_wrt_filter)
  then have "sorted (map event_sort_key (filter (\<lambda>e. e1_run_id e = run) (dict_values (s1_events s))))"
    by (rule follows_sorted [where run = run]) simp
  then show ?thesis unfolding list_events1_def by (rule sort_key_id_if_sorted)
qed

lemma numbered_events:
  assumes "sorted_wrt follows es" "\<forall>e \<in> set es. e1_run_id e = run \<and> numbered e"
  shows "sorted_wrt (\<lambda>a b. \<exists>m n. e1_sequence a = Some m \<and> e1_sequence b = Some n \<and> 1 \<le> m \<and> m < n) es"
  using assms by (induction es) (auto simp: follows_def numbered_def)

text \<open>C26: In every store that the writes of units of work can produce, each run, task run and attempt is
  filed under its own identifier and satisfies its constructor's conditions, events, checkpoints,
  artifacts and external references belong to a stored run or task run, and \<open>list_events\<close> returns the
  events of a run in the order in which they were recorded, with strictly increasing sequence numbers
  from 1 on.\<close>

theorem v1_store_sound:
  assumes "v1_write\<^sup>*\<^sup>* empty_store1 s"
  shows "store1_ok s \<and> list_events1 s run = filter (\<lambda>e. e1_run_id e = run) (dict_values (s1_events s)) \<and>
    sorted_wrt (\<lambda>a b. \<exists>m n. e1_sequence a = Some m \<and> e1_sequence b = Some n \<and> 1 \<le> m \<and> m < n) (list_events1 s run)"
proof -
  have ok: "store1_ok s" by (rule v1_writes_ok [OF assms empty_store1_ok])
  have "sorted_wrt follows (list_events1 s run)"
    using ok by (simp add: list_events1_order store1_ok_def sorted_wrt_filter)
  moreover have "\<forall>e \<in> set (list_events1 s run). e1_run_id e = run \<and> numbered e"
    using ok by (auto simp: list_events1_order store1_ok_def keyed_def dict_values_def)
  ultimately have "sorted_wrt (\<lambda>a b. \<exists>m n. e1_sequence a = Some m \<and> e1_sequence b = Some n \<and> 1 \<le> m \<and> m < n)
      (list_events1 s run)"
    by (rule numbered_events)
  then show ?thesis using ok by (simp add: list_events1_order)
qed

section \<open>The two normalisers of portable values agree\<close>

lemma mapR_agree:
  "(\<And>x y. x \<in> set xs \<Longrightarrow> f x = Inr y \<longleftrightarrow> g x = Inr y) \<Longrightarrow> mapR f xs = Inr ys \<longleftrightarrow> mapR g xs = Inr ys"
  by (induction xs arbitrary: ys) (auto simp: bindR_Inr_iff)

lemma mapR_enumerate:
  "(\<And>i v y. (i, v) \<in> set (List.enumerate n vs) \<Longrightarrow> f (i, v) = Inr y \<longleftrightarrow> g v = Inr y) \<Longrightarrow>
   mapR f (List.enumerate n vs) = Inr ys \<longleftrightarrow> mapR g vs = Inr ys"
proof (induction vs arbitrary: n ys)
  case (Cons v vs)
  have "mapR f (List.enumerate (Suc n) vs) = Inr zs \<longleftrightarrow> mapR g vs = Inr zs" for zs
    by (rule Cons.IH) (use Cons.prems in simp)
  moreover have "f (n, v) = Inr y \<longleftrightarrow> g v = Inr y" for y
    using Cons.prems by simp
  ultimately show ?case by (simp add: bindR_Inr_iff)
qed simp

lemma portable1_Inr_iff: "portable1 path v = Inr j \<longleftrightarrow> normalize_json v = Inr j"
proof (induction path v arbitrary: j rule: portable1.induct)
  case (6 path items)
  have "mapR (\<lambda>(key, v). case key of KOther s \<Rightarrow> Inl (V1Error (SerializationError path ''mapping-key:''
                ''portable JSON object keys must be strings''))
            | KStr s \<Rightarrow> bindR (portable1 (path @ ''.'' @ s) v) (\<lambda>j. Inr (s, j)))
          (sort_key (\<lambda>(key, v). key_text key) items) = Inr entries \<longleftrightarrow>
      mapR (\<lambda>(key, v). case key of
              KOther s \<Rightarrow> Inl (TypeError ''value mapping keys must be strings'')
            | KStr s \<Rightarrow> bindR (normalize_json v) (\<lambda>j. Inr (s, j)))
          (sort_key (\<lambda>(key, v). key_text key) items) = Inr entries" for entries
    by (rule mapR_agree) (use 6 in \<open>auto simp: bindR_Inr_iff split: pykey.splits\<close>)
  then show ?case by (simp add: bindR_Inr_iff)
next
  case (7 path vs)
  have "mapR (\<lambda>(i, v). portable1 (path @ ''['' @ py_str_int (int i) @ '']'') v) (List.enumerate 0 vs) = Inr js \<longleftrightarrow>
      mapR normalize_json vs = Inr js" for js
    by (rule mapR_enumerate) (use 7 in auto)
  then show ?case by (simp add: bindR_Inr_iff)
next
  case (8 path vs)
  have "mapR (\<lambda>(i, v). portable1 (path @ ''['' @ py_str_int (int i) @ '']'') v) (List.enumerate 0 vs) = Inr js \<longleftrightarrow>
      mapR normalize_json vs = Inr js" for js
    by (rule mapR_enumerate) (use 8 in auto)
  then show ?case by (simp add: bindR_Inr_iff)
qed simp_all

text \<open>The portable-value normaliser of the first generation, which carries the path of the value it is
  looking at, accepts exactly the values that the one of the second generation accepts, whatever the
  path, and gives them the same normal form.\<close>

theorem v1_portable_agrees: "portable1 path v = Inr j \<longleftrightarrow> normalize_json v = Inr j"
  by (rule portable1_Inr_iff)

section \<open>A concrete store\<close>

definition sample_event1 :: "int \<Rightarrow> v1_event" where
  "sample_event1 n = \<lparr>e1_id = py_str_int n, e1_type = WORKFLOW_STARTED, e1_run_id = ''r'',
     e1_occurred_at = sample_instant1 n, e1_sequence = Some n, e1_task_run_id = None, e1_task_id = None,
     e1_attempt_number = None, e1_payload = []\<rparr>"

definition sample_store1 :: v1_store where
  "sample_store1 = empty_store1\<lparr>s1_runs := [(''r'', sample_run1)],
     s1_events := [(py_str_int 2, sample_event1 2), (py_str_int 10, sample_event1 10)]\<rparr>"

lemma sample_store1_written: "v1_write\<^sup>*\<^sup>* empty_store1 sample_store1"
proof -
  define a where "a = empty_store1\<lparr>s1_runs := [(''r'', sample_run1)]\<rparr>"
  define b where "b = a\<lparr>s1_events := [(py_str_int 2, sample_event1 2)]\<rparr>"
  have "v1_write empty_store1 a" unfolding a_def
    by (rule v1_write.intros(1) [of sample_run1])
      (use sample_valid1 in \<open>simp add: add_run1_def unused1_id_def require_def empty_store1_def mk_run1_Inr bindR_Inr_iff sample_run1_def dict_set_def\<close>)
  moreover have "v1_write a b" unfolding a_def b_def
    by (rule v1_write.intros(7) [of "sample_event1 2"]) (simp add: add_event1_def unused1_id_def
        known1_id_def require_def empty_store1_def sample_event1_def previous_sequence_def sequences1_def
        dict_values_def dict_set_def)
  moreover have "v1_write b sample_store1" unfolding a_def b_def sample_store1_def
    by (rule v1_write.intros(7) [of "sample_event1 10"]) (simp add: add_event1_def unused1_id_def
        known1_id_def require_def empty_store1_def sample_event1_def previous_sequence_def sequences1_def
        dict_values_def dict_set_def py_str_int_def digits_of.simps)
  ultimately show ?thesis by (meson rtranclp.rtrancl_into_rtrancl rtranclp.rtrancl_refl)
qed

theorem v1_store_sound_witness:
  "store1_ok sample_store1 \<and> list_events1 sample_store1 ''r'' = [sample_event1 2, sample_event1 10]"
  using v1_store_sound [OF sample_store1_written, of "''r''"]
  by (simp add: sample_store1_def dict_values_def sample_event1_def)

end
