(* ===== verification/V1_Graph.thy ===== *)
theory V1_Graph
  imports Readiness V1_Domain
begin

text \<open>
  Planning in the first-generation engine: the dependency graph (\<open>domain/graph.py\<close>), its
  validation and the execution plan (\<open>application/planning.py\<close>), readiness at run time, and the
  propagation of a failure (\<open>application/failure.py\<close>).

  The heap of \<open>_validate_acyclic\<close> is a sorted list: \<open>heappop\<close> takes its head, \<open>heappush\<close> is
  \<open>insort\<close>.  The generic facts on degrees and layers are those of \<open>Planning\<close>, and \<open>as_task\<close>
  reads a first-generation task as one of the second, with the same key and dependencies.
\<close>

section \<open>The dependency graph\<close>

record v1_graph =
  g1_nodes :: "string list"
  g1_edges :: "(string \<times> string) list"
  g1_upstream :: depmap
  g1_downstream :: depmap

definition append_at :: "string \<Rightarrow> string \<Rightarrow> depmap \<Rightarrow> depmap" where
  \<comment> \<open>\<open>if key in index: index[key].append(value)\<close>\<close>
  "append_at key v dm = (if dict_has dm key then dict_set key (deps_of dm key @ [v]) dm else dm)"

definition sort_values :: "depmap \<Rightarrow> depmap" where
  "sort_values dm = map (\<lambda>(k, vs). (k, sort vs)) dm"

definition mk_graph1 :: "string list \<Rightarrow> (string \<times> string) list \<Rightarrow> v1_graph result" where
  "mk_graph1 nodes edges =
     (let canonical_nodes = sort nodes; canonical_edges = sort edges;
          empty_index = map (\<lambda>k. (k, [])) canonical_nodes in
      thenR (require (distinct canonical_nodes)
        (ValueError ''DependencyGraph cannot contain duplicate task nodes.''))
     (Inr \<lparr>g1_nodes = canonical_nodes, g1_edges = canonical_edges,
           g1_upstream = sort_values (fold (\<lambda>(u, d). append_at d u) canonical_edges empty_index),
           g1_downstream = sort_values (fold (\<lambda>(u, d). append_at u d) canonical_edges empty_index)\<rparr>))"

definition known_node :: "v1_graph \<Rightarrow> string \<Rightarrow> unit result" where
  "known_node g k = require (k \<in> set (g1_nodes g)) (KeyError (''Unknown graph task '' @ py_quote k @ ''.''))"

definition upstream_of :: "v1_graph \<Rightarrow> string \<Rightarrow> string list result" where
  "upstream_of g k = thenR (known_node g k) (Inr (deps_of (g1_upstream g) k))"

definition downstream_of :: "v1_graph \<Rightarrow> string \<Rightarrow> string list result" where
  "downstream_of g k = thenR (known_node g k) (Inr (deps_of (g1_downstream g) k))"

definition in_degree1 :: "v1_graph \<Rightarrow> string \<Rightarrow> int" where
  \<comment> \<open>Only ever read at known nodes.\<close>
  "in_degree1 g k = int (length (deps_of (g1_upstream g) k))"

definition roots1 :: "v1_graph \<Rightarrow> string list" where
  "roots1 g = filter (\<lambda>k. in_degree1 g k = 0) (g1_nodes g)"

definition leaves1 :: "v1_graph \<Rightarrow> string list" where
  "leaves1 g = filter (\<lambda>k. deps_of (g1_downstream g) k = []) (g1_nodes g)"

definition build_graph1 :: "v1_workflow \<Rightarrow> v1_graph result" where
  "build_graph1 w =
     bindR (mapR (\<lambda>t. thenR (nonempty_id ''task_id'' (td1_id t)) (Inr (td1_id t))) (wd1_tasks w)) (\<lambda>nodes.
     bindR (mapR (\<lambda>t. mapR (\<lambda>d.
         thenR (nonempty_id ''upstream_task_id'' d)
        (thenR (nonempty_id ''downstream_task_id'' (td1_id t)) (Inr (d, td1_id t))))
         (td1_depends_on t)) (wd1_tasks w)) (\<lambda>edges.
     mk_graph1 nodes (concat edges)))"

section \<open>Validation\<close>

definition check_known1 :: "v1_graph \<Rightarrow> string list \<Rightarrow> unit result" where
  "check_known1 g known = forR (g1_edges g) (\<lambda>(u, d).
     thenR (require (u \<in> set known) (V1Error (UnknownDependency d u)))
     (require (d \<in> set known) (V1Error (UnknownDependency d u))))"

definition check_self1 :: "v1_graph \<Rightarrow> unit result" where
  "check_self1 g = forR (g1_edges g) (\<lambda>(u, d). require (u \<noteq> d) (V1Error (SelfDependency u)))"

definition check_duplicates1 :: "v1_graph \<Rightarrow> unit result" where
  "check_duplicates1 g = forR (g1_edges g) (\<lambda>(u, d).
     require (count_list (g1_edges g) (u, d) \<le> 1) (V1Error (DuplicateDependency d u)))"

definition release1 :: "string \<Rightarrow> degrees \<times> string list \<Rightarrow> degrees \<times> string list" where
  "release1 d s = (case s of (deg, ready) \<Rightarrow>
     let n = degree deg d - 1 in (dict_set d n deg, if n = 0 then insort d ready else ready))"

lemma release1_measure:
  "fold release1 ds (deg, ready) = (deg', ready') \<Longrightarrow>
   length ready' + positive deg' \<le> length ready + positive deg"
proof (induction ds arbitrary: deg ready)
  case (Cons d ds)
  obtain deg1 r1 where one: "release1 d (deg, ready) = (deg1, r1)" by fastforce
  then have "length r1 + positive deg1 \<le> length ready + positive deg"
    using positive_update [of d "degree deg d - 1" deg] by (auto simp: release1_def Let_def split: if_splits)
  moreover have "length ready' + positive deg' \<le> length r1 + positive deg1"
    by (rule Cons.IH) (use Cons.prems one in simp)
  ultimately show ?case by simp
qed simp

text \<open>\<open>in_degree[downstream] -= 1\<close> raises \<open>KeyError\<close> at a task that is not a node.\<close>

definition unknown_in :: "degrees \<Rightarrow> string list \<Rightarrow> string option" where
  "unknown_in deg ds = find (\<lambda>d. \<not> dict_has deg d) ds"

function acyclic_loop1 :: "depmap \<Rightarrow> string list \<Rightarrow> degrees \<Rightarrow> string list \<Rightarrow> (degrees \<times> string list) result" where
  "acyclic_loop1 down ready deg processed =
     (case ready of
        [] \<Rightarrow> Inr (deg, processed)
      | k # rest \<Rightarrow> (case unknown_in deg (deps_of down k) of
          Some d \<Rightarrow> Inl (KeyError d)
        | None \<Rightarrow> (case fold release1 (deps_of down k) (deg, rest) of
            (deg', ready') \<Rightarrow> acyclic_loop1 down ready' deg' (processed @ [k]))))"
  by pat_completeness auto
termination
  by (relation "measure (\<lambda>(down, ready, deg, processed). length ready + positive deg)")
    (auto dest!: release1_measure [OF sym])

declare acyclic_loop1.simps [simp del]

definition start_degrees1 :: "v1_graph \<Rightarrow> degrees" where
  "start_degrees1 g = map (\<lambda>k. (k, in_degree1 g k)) (g1_nodes g)"

definition check_acyclic1 :: "v1_graph \<Rightarrow> unit result" where
  "check_acyclic1 g =
     bindR (acyclic_loop1 (g1_downstream g) (sort (roots1 g)) (start_degrees1 g) []) (\<lambda>(deg, processed).
     require (length processed = length (g1_nodes g))
       (V1Error (CycleDetected (sort (filter (\<lambda>k. 0 < degree deg k) (g1_nodes g))))))"

definition validate_graph1 :: "v1_workflow \<Rightarrow> v1_graph \<Rightarrow> unit result" where
  "validate_graph1 w g =
     thenR (check_known1 g (map td1_id (wd1_tasks w)))
    (thenR (check_self1 g)
    (thenR (check_duplicates1 g) (check_acyclic1 g)))"

section \<open>Plans\<close>

record v1_planned =
  pt1_id :: string
  pt1_position :: nat
  pt1_group :: nat

record v1_plan =
  pl1_workflow_id :: string
  pl1_version :: string
  pl1_tasks :: "v1_planned list"
  pl1_groups :: "(nat \<times> string list) list"  \<comment> \<open>\<open>ExecutionGroup(index, task_ids)\<close>\<close>

definition invalid_plan :: "string \<Rightarrow> pyexc" where
  "invalid_plan reason = V1Error (InvalidExecutionPlan reason)"

definition mk_group1 :: "nat \<Rightarrow> string list \<Rightarrow> (nat \<times> string list) result" where
  "mk_group1 i ids =
     thenR (require (ids \<noteq> []) (invalid_plan ''execution group must not be empty''))
    (thenR (require (distinct ids)
       (invalid_plan (''execution group '' @ py_str_int (int i) @ '' contains duplicate tasks'')))
    (thenR (forR ids (nonempty_id ''task_id'')) (Inr (i, ids))))"

definition group_index_of :: "(nat \<times> string list) list \<Rightarrow> string \<Rightarrow> nat option" where
  \<comment> \<open>\<open>group_by_task_id\<close>: the last group that holds the task.\<close>
  "group_index_of groups k = map_option fst (find (\<lambda>(i, ids). k \<in> set ids) (rev groups))"

definition mk_plan1 :: "v1_plan \<Rightarrow> v1_plan result" where
  "mk_plan1 p =
     thenR (nonempty_id ''workflow_id'' (pl1_workflow_id p))
    (thenR (nonempty_id ''workflow_version'' (pl1_version p))
    (thenR (require (pl1_tasks p \<noteq> []) (invalid_plan ''execution plan must contain tasks''))
    (thenR (require (pl1_groups p \<noteq> []) (invalid_plan ''execution plan must contain groups''))
    (thenR (require (map pt1_position (pl1_tasks p) = [0..<length (pl1_tasks p)])
       (invalid_plan ''planned task positions must be contiguous from zero''))
    (thenR (require (map fst (pl1_groups p) = [0..<length (pl1_groups p)])
       (invalid_plan ''execution group indices must be contiguous from zero''))
    (thenR (require (distinct (map pt1_id (pl1_tasks p)))
       (invalid_plan ''each task must appear exactly once in the execution plan''))
    (thenR (require (concat (map snd (pl1_groups p)) = map pt1_id (pl1_tasks p))
       (invalid_plan ''execution groups must match planned task ordering exactly''))
    (thenR (forR (pl1_tasks p) (\<lambda>t. require (group_index_of (pl1_groups p) (pt1_id t) = Some (pt1_group t))
       (invalid_plan (''planned task '' @ py_quote (pt1_id t) @ '' has inconsistent group index '' @
          py_str_int (int (pt1_group t))))))
    (Inr p)))))))))"

abbreviation pl1_task_ids :: "v1_plan \<Rightarrow> string list" where
  "pl1_task_ids p \<equiv> map pt1_id (pl1_tasks p)"

definition group_for1 :: "v1_plan \<Rightarrow> string \<Rightarrow> (nat \<times> string list) result" where
  "group_for1 p k = (case find (\<lambda>(i, ids). k \<in> set ids) (pl1_groups p) of
     Some grp \<Rightarrow> Inr grp
   | None \<Rightarrow> Inl (KeyError (''Task '' @ py_quote k @ '' is not present in the execution plan.'')))"

definition plan_group :: "string list \<Rightarrow> nat \<Rightarrow> nat \<Rightarrow> v1_planned list" where
  \<comment> \<open>The planned tasks of one group, from position \<open>position\<close> on.\<close>
  "plan_group ids position group_index =
     map (\<lambda>(i, k). \<lparr>pt1_id = k, pt1_position = position + i, pt1_group = group_index\<rparr>) (List.enumerate 0 ids)"

function plan_loop1 :: "depmap \<Rightarrow> string list \<Rightarrow> degrees \<Rightarrow> (nat \<times> string list) list \<Rightarrow> v1_planned list \<Rightarrow>
    (degrees \<times> (nat \<times> string list) list \<times> v1_planned list) result" where
  "plan_loop1 down ready deg groups planned =
     (if ready = [] then Inr (deg, groups, planned)
      else let ids = sort ready in
        case mk_group1 (length groups) ids of
          Inl e \<Rightarrow> Inl e
        | Inr grp \<Rightarrow> (case unknown_in deg (concat (map (deps_of down) ids)) of
            Some d \<Rightarrow> Inl (KeyError d)
          | None \<Rightarrow> (case relax_layer down ids deg of
              (deg', next_ready) \<Rightarrow> plan_loop1 down (sort next_ready) deg' (groups @ [grp])
                (planned @ plan_group ids (length planned) (length groups)))))"
  by pat_completeness auto
termination
  by (relation "measure (\<lambda>(down, ready, deg, groups, planned). length ready + positive deg)")
    (auto simp: relax_layer_concat length_greater_0_conv [symmetric] simp del: length_greater_0_conv
      dest!: decrement_fold_measure [OF sym])

declare plan_loop1.simps [simp del]

definition build_plan1 :: "v1_workflow \<Rightarrow> v1_graph \<Rightarrow> v1_plan result" where
  "build_plan1 w g =
     thenR (require (g1_nodes g = sort (map td1_id (wd1_tasks w)))
       (V1Error (PlanningInvariant ''workflow definition and dependency graph contain different tasks'')))
    (bindR (plan_loop1 (g1_downstream g) (roots1 g) (start_degrees1 g) [] []) (\<lambda>(deg, groups, planned).
     thenR (require (length planned = length (g1_nodes g))
       (V1Error (PlanningInvariant (''graph could not be fully planned; remaining tasks: '' @
          join_with '', '' (sort (filter (\<lambda>k. 0 < degree deg k) (g1_nodes g)))))))
    (mk_plan1 \<lparr>pl1_workflow_id = wd1_id w, pl1_version = wd1_version w, pl1_tasks = planned, pl1_groups = groups\<rparr>)))"

section \<open>Readiness\<close>

type_synonym task_runs1 = "(string, v1_task_run) dict"  \<comment> \<open>by task id\<close>

definition mapping_identity :: "string \<Rightarrow> v1_task_run \<Rightarrow> unit result" where
  "mapping_identity k t = require (t1_task_id t = k)
     (V1Error (PlanningInvariant (''TaskRun mapping key '' @ py_quote k @ '' does not match TaskRun task_id '' @
        py_quote (t1_task_id t))))"

fun upstream_ready :: "task_runs1 \<Rightarrow> string list \<Rightarrow> bool result" where
  \<comment> \<open>The loop of \<open>is_ready\<close>, which stops at the first upstream task that has not succeeded.\<close>
  "upstream_ready runs [] = Inr True"
| "upstream_ready runs (k # ks) = (case dict_get runs k of
     None \<Rightarrow> Inl (V1Error (PlanningInvariant (''missing TaskRun for upstream task '' @ py_quote k)))
   | Some t \<Rightarrow> thenR (mapping_identity k t)
       (if t1_status t = T1_SUCCEEDED then upstream_ready runs ks else Inr False))"

definition is_ready1 :: "v1_graph \<Rightarrow> task_runs1 \<Rightarrow> v1_task_run \<Rightarrow> bool result" where
  "is_ready1 g runs t =
     thenR (require (t1_task_id t \<in> set (g1_nodes g))
       (V1Error (PlanningInvariant (''TaskRun references task '' @ py_quote (t1_task_id t) @ '' absent from graph''))))
    (if t1_status t \<noteq> T1_PENDING then Inr False
     else bindR (upstream_of g (t1_task_id t)) (upstream_ready runs))"

definition find_ready1 :: "v1_graph \<Rightarrow> task_runs1 \<Rightarrow> v1_task_run list result" where
  "find_ready1 g runs = foldR (\<lambda>k ready. case dict_get runs k of
       None \<Rightarrow> Inl (V1Error (PlanningInvariant (''missing TaskRun for graph task '' @ py_quote k)))
     | Some t \<Rightarrow> thenR (mapping_identity k t)
        (bindR (is_ready1 g runs t) (\<lambda>b. Inr (if b then ready @ [t] else ready)))) (g1_nodes g) []"

section \<open>Failure propagation\<close>

definition descendants1 :: "v1_graph \<Rightarrow> string \<Rightarrow> string list result" where
  \<comment> \<open>The loop is that of \<open>_readiness.py\<close>, modelled by \<open>collect\<close>.\<close>
  "descendants1 g k = bindR (downstream_of g k) (\<lambda>pending. collect (g1_downstream g) [] pending)"

definition fail_fast_entry ::
  "string \<Rightarrow> string list \<Rightarrow> task_runs1 \<Rightarrow> string \<Rightarrow> (string \<times> v1_skip_reason) list \<Rightarrow>
   (string \<times> v1_skip_reason) list result" where
  "fail_fast_entry failed descendants runs k decisions =
     (if k = failed then Inr decisions
      else bindR (key_lookup runs k) (\<lambda>t. Inr
        (if t1_status t \<in> {T1_PENDING, T1_READY} then decisions @ [(k,
           if k \<in> set descendants then SK1_DEPENDENCY_FAILED else SK1_FAIL_FAST_ABORT)]
         else decisions)))"

definition plan_fail_fast1 ::
  "string \<Rightarrow> v1_graph \<Rightarrow> task_runs1 \<Rightarrow> string list \<Rightarrow> (string \<times> v1_skip_reason) list result" where
  "plan_fail_fast1 failed g runs plan_ids =
     bindR (descendants1 g failed) (\<lambda>descendants. foldR (fail_fast_entry failed descendants runs) plan_ids [])"

end
