(* ===== verification/V1_Local.thy ===== *)
theory V1_Local
  imports V1_Store V1_Graph Executors
begin

text \<open>
  The executor boundary of the first-generation engine: capabilities and the context a handler is
  given (\<open>ports/executor.py\<close>), the registry of handlers (\<open>application/execution.py\<close>) and the
  in-process invocation behind \<open>LocalExecutor\<close> (\<open>adapters/executors/_python.py\<close>,
  \<open>adapters/executors/local.py\<close>).  A handler is an object, of which only the identity is known: what
  \<open>inspect.signature\<close> says of it and what calling it does are arguments.
\<close>

section \<open>Capabilities\<close>

datatype v1_timeout_capability = TC1_NONE | TC1_SOFT | TC1_HARD

datatype v1_cancellation_capability = CC1_NONE | CC1_COOPERATIVE | CC1_HARD

primrec timeout_capability_value :: "v1_timeout_capability \<Rightarrow> string" where
  "timeout_capability_value TC1_NONE = ''none''"
| "timeout_capability_value TC1_SOFT = ''soft''"
| "timeout_capability_value TC1_HARD = ''hard''"

record v1_capabilities =
  cp1_parallel :: bool
  cp1_timeout :: v1_timeout_capability
  cp1_cancellation :: v1_cancellation_capability
  cp1_max_concurrency :: int
  cp1_async :: bool

definition mk_capabilities1 :: "v1_capabilities \<Rightarrow> v1_capabilities result" where
  "mk_capabilities1 c =
     thenR (require (1 \<le> cp1_max_concurrency c) (ValueError ''max_concurrency must be greater than or equal to 1''))
    (thenR (require (cp1_parallel c \<or> cp1_max_concurrency c = 1)
       (ValueError ''non-parallel executors must declare max_concurrency=1'')) (Inr c))"

definition LOCAL_CAPABILITIES :: v1_capabilities where
  "LOCAL_CAPABILITIES = \<lparr>cp1_parallel = False, cp1_timeout = TC1_NONE, cp1_cancellation = CC1_NONE,
     cp1_max_concurrency = 1, cp1_async = False\<rparr>"

section \<open>Contexts\<close>

record run_context1 =
  rc1_run_id :: string
  rc1_task_run_id :: string
  rc1_attempt_id :: string
  rc1_task_id :: string
  rc1_number :: int
  rc1_parameters :: "(string, pyval) dict"
  rc1_outputs :: "(string, pyval) dict"

definition mk_context1 :: "run_context1 \<Rightarrow> run_context1 result" where
  "mk_context1 c =
     thenR (nonempty_id ''workflow_run_id'' (rc1_run_id c))
    (thenR (nonempty_id ''task_run_id'' (rc1_task_run_id c))
    (thenR (nonempty_id ''attempt_id'' (rc1_attempt_id c))
    (thenR (nonempty_id ''task_id'' (rc1_task_id c))
    (thenR (require (1 \<le> rc1_number c) (ValueError ''attempt_number must be greater than or equal to 1.''))
    (Inr c)))))"

section \<open>Handlers\<close>

type_synonym handlers1 = "(string, nat) dict"  \<comment> \<open>reference to handler object\<close>

definition register_handler1 :: "string \<Rightarrow> nat \<Rightarrow> handlers1 \<Rightarrow> handlers1 result" where
  "register_handler1 handler_ref h hs =
     thenR (nonempty_id ''handler_ref'' handler_ref)
    (thenR (require (\<not> dict_has hs handler_ref) (V1Error (DuplicateHandlerRegistration handler_ref)))
    (Inr (dict_set handler_ref h hs)))"

definition resolve_handler1 :: "handlers1 \<Rightarrow> string \<Rightarrow> nat result" where
  "resolve_handler1 hs handler_ref =
     thenR (nonempty_id ''handler_ref'' handler_ref)
    (case dict_get hs handler_ref of None \<Rightarrow> Inl (V1Error (HandlerNotFound handler_ref)) | Some h \<Rightarrow> Inr h)"

definition handler_refs1 :: "handlers1 \<Rightarrow> string list" where
  "handler_refs1 hs = sort (map fst hs)"

section \<open>Invocation\<close>

datatype returned1 = Returned1 pyval | ReturnedResult1 v1_task_result

definition output_result1 :: "pyval \<Rightarrow> v1_task_result" where
  "output_result1 v = \<lparr>res1_output = v, res1_metadata = [], res1_artifacts = [], res1_external_refs = []\<rparr>"

definition normalize_result1 :: "returned1 \<Rightarrow> v1_task_result" where
  \<comment> \<open>\<open>TaskResult()\<close> has the output \<open>None\<close> too.\<close>
  "normalize_result1 r = (case r of ReturnedResult1 t \<Rightarrow> t | Returned1 v \<Rightarrow> output_result1 v)"

definition invalid_handler1 :: "v1_task \<Rightarrow> string \<Rightarrow> pyexc" where
  "invalid_handler1 t reason = V1Error (InvalidHandler (td1_id t) reason)"

definition resolve_arity1 :: "v1_task \<Rightarrow> parameter list result \<Rightarrow> nat result" where
  \<comment> \<open>\<open>_can_bind\<close> is word for word that of \<open>executors/_common.py\<close>, modelled by \<open>can_bind\<close>.\<close>
  "resolve_arity1 t inspected = (case inspected of
     Inl e \<Rightarrow> (if is_type_or_value_error e
        then Inl (invalid_handler1 t ''handler signature cannot be inspected'') else Inl e)
   | Inr ps \<Rightarrow> (if can_bind ps 0 then Inr 0 else if can_bind ps 1 then Inr 1
       else Inl (invalid_handler1 t ''handler must accept either zero arguments or one RunContext argument'')))"

definition handler_failure1 :: "v1_task \<Rightarrow> pyexc \<Rightarrow> pyexc" where
  "handler_failure1 t e = (case e of
     V1Error (ExternalWorkload provider workload error_type error_message category external) \<Rightarrow>
       task_execution_error (td1_id t) (td1_handler_ref t) error_type error_message (Some category)
   | _ \<Rightarrow> task_execution_error (td1_id t) (td1_handler_ref t) (exc_name e) (exc_text e) (Some (exc_name e)))"

definition invoke_handler1 ::
  "(nat \<Rightarrow> parameter list result) \<Rightarrow> (nat \<Rightarrow> run_context1 option \<Rightarrow> ('e, returned1) act) \<Rightarrow> string \<Rightarrow>
   v1_task \<Rightarrow> nat \<Rightarrow> run_context1 \<Rightarrow> ('e, v1_task_result) act" where
  \<comment> \<open>\<open>invoke_python_handler\<close>.\<close>
  "invoke_handler1 inspect call executor_key t h c =
     thenA (requireA (td1_executor_key t = executor_key) (invalid_handler1 t
       (''task requests executor '' @ py_quote (td1_executor_key t) @ '', but executor key is '' @ py_quote executor_key)))
    (bindA (liftR (resolve_arity1 t (inspect h))) (\<lambda>arity.
     bindA (attemptA (call h (if arity = 0 then None else Some c))) (\<lambda>outcome. case outcome of
       Inl e \<Rightarrow> raise (handler_failure1 t e)
     | Inr r \<Rightarrow> ret (normalize_result1 r))))"

definition local_execute1 ::
  "(nat \<Rightarrow> parameter list result) \<Rightarrow> (nat \<Rightarrow> run_context1 option \<Rightarrow> ('e, returned1) act) \<Rightarrow>
   v1_task \<Rightarrow> nat \<Rightarrow> run_context1 \<Rightarrow> ('e, v1_task_result) act" where
  "local_execute1 inspect call = invoke_handler1 inspect call ''local''"

text \<open>Whatever a handler does, the local executor either returns or raises an \<open>ExecutorError\<close> (unless the
  inspection of the signature itself raises something else).\<close>

lemma local_execute1_errors:
  assumes "local_execute1 inspect call t h c env = (Inl e, env')"
    and "\<And>x. inspect h = Inl x \<Longrightarrow> is_type_or_value_error x"
  shows "is_executor_error e"
  using assms
  by (auto simp: local_execute1_def invoke_handler1_def bindA_def thenA_def attemptA_def resolve_arity1_def
      invalid_handler1_def is_executor_error_def handler_failure1_def task_execution_error_def
      split: sum.splits prod.splits if_splits pyexc.splits v1_error.splits)

end
