(* ===== verification/V1_Observability.thy ===== *)
theory V1_Observability
  imports V1_Store Executors
begin

text \<open>
  What leaves the first-generation engine for observers: redaction of sensitive values
  (\<open>application/observability.py\<close>), the projection of an event for external sinks
  (\<open>application/security.py\<close>) and its delivery to every registered sink
  (\<open>application/observability_plugins.py\<close>).  What a sink does with an event is an argument of
  \<open>publish1\<close>.
\<close>

section \<open>Redaction\<close>

definition SENSITIVE_TOKENS :: "string list" where
  "SENSITIVE_TOKENS = [''password'', ''passwd'', ''secret'', ''token'', ''api_key'', ''apikey'',
     ''authorization'', ''credential'', ''private_key'']"

definition REDACTED :: string where
  "REDACTED = ''<redacted>''"

definition contains_text :: "string \<Rightarrow> string \<Rightarrow> bool" where
  \<comment> \<open>\<open>part in text\<close>\<close>
  "contains_text part s = list_ex (\<lambda>n. take (length part) (drop n s) = part) [0..<Suc (length s)]"

definition is_sensitive_key :: "string \<Rightarrow> bool" where
  "is_sensitive_key key = (let normalized = map (\<lambda>c. if c = CHR ''-'' then CHR ''_'' else c) (py_lower key) in
     list_ex (\<lambda>token. contains_text token normalized) SENSITIVE_TOKENS)"

text \<open>A key that is no text has no \<open>lower\<close>, and the attribute error leaves the function.\<close>

definition redacted_entry :: "(pyval \<Rightarrow> pyval result) \<Rightarrow> pykey \<times> pyval \<Rightarrow> (pykey \<times> pyval) result" where
  "redacted_entry f item = (case item of (key, v) \<Rightarrow> (case key of
     KOther s \<Rightarrow> Inl (Raised ''AttributeError'' [])
   | KStr s \<Rightarrow> if is_sensitive_key s then Inr (key, PyStr REDACTED) else bindR (f v) (\<lambda>w. Inr (key, w))))"

lemma redacted_entry_cong [fundef_cong]:
  "p = q \<Longrightarrow> (\<And>k v. q = (k, v) \<Longrightarrow> f v = g v) \<Longrightarrow> redacted_entry f p = redacted_entry g q"
  by (auto simp: redacted_entry_def split: prod.splits pykey.splits)

function redact_value :: "pyval \<Rightarrow> pyval result" where
  "redact_value (PyMap items) = bindR (mapR (redacted_entry redact_value) items) (\<lambda>items. Inr (PyMap items))"
| "redact_value (PyList vs) = bindR (mapR redact_value vs) (\<lambda>ws. Inr (PyList ws))"
| "redact_value (PyTuple vs) = bindR (mapR redact_value vs) (\<lambda>ws. Inr (PyTuple ws))"
| "redact_value PyNone = Inr PyNone"
| "redact_value (PyBool b) = Inr (PyBool b)"
| "redact_value (PyNum n) = Inr (PyNum n)"
| "redact_value (PyStr s) = Inr (PyStr s)"
| "redact_value (PyEnum v) = Inr (PyEnum v)"
| "redact_value (PyOther name) = Inr (PyOther name)"
  by pat_completeness auto
termination
  by (relation "measure size") (auto intro: size_entry size_list_member)

definition redact_mapping :: "(string \<times> pyval) list \<Rightarrow> (string \<times> pyval) list result" where
  "redact_mapping values = mapR (\<lambda>(key, v). if is_sensitive_key key then Inr (key, PyStr REDACTED)
     else bindR (redact_value v) (\<lambda>w. Inr (key, w))) values"

section \<open>The security policy\<close>

record security_policy =
  sp_redact :: bool
  sp_expose :: bool
  sp_max_chars :: int

definition mk_security_policy :: "security_policy \<Rightarrow> security_policy result" where
  "mk_security_policy p =
     thenR (require (1 \<le> sp_max_chars p)
       (ValueError ''max_sink_error_message_chars must be greater than or equal to 1'')) (Inr p)"

definition event_for_sink :: "security_policy \<Rightarrow> v1_event \<Rightarrow> v1_event result" where
  "event_for_sink p e =
     (if \<not> sp_redact p then Inr e
      else bindR (redact_mapping (e1_payload e)) (\<lambda>redacted.
        if redacted = e1_payload e then Inr e else mk_event1 (e\<lparr>e1_payload := redacted\<rparr>)))"

definition sink_error_message :: "security_policy \<Rightarrow> pyexc \<Rightarrow> string" where
  "sink_error_message p exc =
     (if \<not> sp_expose p then REDACTED else take (nat (sp_max_chars p)) (exc_summary exc))"

section \<open>Delivery\<close>

record dispatch_failure =
  df1_sink :: string
  df1_event_id :: string
  df1_event_type :: v1_event_type
  df1_error_type :: string
  df1_message :: string

record dispatcher1 =
  dp_sinks :: "(string, nat) dict"  \<comment> \<open>name to sink object\<close>
  dp_failures :: "dispatch_failure list"
  dp_policy :: security_policy

definition register_sink :: "string \<Rightarrow> nat \<Rightarrow> dispatcher1 \<Rightarrow> dispatcher1 result" where
  "register_sink sink_name sink d = (let name = py_strip sink_name in
     thenR (require (name \<noteq> []) (ValueError ''observability sink name must not be blank''))
    (thenR (require (\<not> dict_has (dp_sinks d) name)
       (ValueError (''observability sink '' @ py_quote name @ '' is already registered'')))
    (Inr (d\<lparr>dp_sinks := dict_set name sink (dp_sinks d)\<rparr>))))"

definition mk_dispatcher1 :: "(string \<times> nat) list \<Rightarrow> security_policy \<Rightarrow> dispatcher1 result" where
  "mk_dispatcher1 sinks p =
     foldR (\<lambda>(name, sink). register_sink name sink) sinks \<lparr>dp_sinks = [], dp_failures = [], dp_policy = p\<rparr>"

definition sink_names :: "dispatcher1 \<Rightarrow> string list" where
  "sink_names d = sort (map fst (dp_sinks d))"

definition emit_to :: "(nat \<Rightarrow> v1_event \<Rightarrow> ('e, unit) act) \<Rightarrow> v1_event \<Rightarrow> v1_event \<Rightarrow> string \<Rightarrow>
    dispatcher1 \<Rightarrow> ('e, dispatcher1) act" where
  \<comment> \<open>One round of the loop in \<open>publish\<close>.\<close>
  "emit_to emit event sink_event name d =
     bindA (attemptA (emit (the (dict_get (dp_sinks d) name)) sink_event)) (\<lambda>outcome. ret (case outcome of
       Inr _ \<Rightarrow> d
     | Inl exc \<Rightarrow> d\<lparr>dp_failures := dp_failures d @ [\<lparr>df1_sink = name, df1_event_id = e1_id event,
         df1_event_type = e1_type event, df1_error_type = exc_name exc,
         df1_message = sink_error_message (dp_policy d) exc\<rparr>]\<rparr>))"

definition publish1 :: "(nat \<Rightarrow> v1_event \<Rightarrow> ('e, unit) act) \<Rightarrow> v1_event \<Rightarrow> dispatcher1 \<Rightarrow> ('e, dispatcher1) act" where
  "publish1 emit event d =
     bindA (liftR (event_for_sink (dp_policy d) event)) (\<lambda>sink_event.
     foldA (emit_to emit event sink_event) (sink_names d) d)"

section \<open>Nothing sensitive leaves\<close>

text \<open>A value is clean when every mapping inside it, at any depth, has text keys only and shows
  nothing under a sensitive one.\<close>

function clean_value :: "pyval \<Rightarrow> bool" where
  "clean_value (PyMap items) \<longleftrightarrow> (\<forall>(k, v) \<in> set items. case k of KOther s \<Rightarrow> False
     | KStr s \<Rightarrow> if is_sensitive_key s then v = PyStr REDACTED else clean_value v)"
| "clean_value (PyList vs) \<longleftrightarrow> (\<forall>v \<in> set vs. clean_value v)"
| "clean_value (PyTuple vs) \<longleftrightarrow> (\<forall>v \<in> set vs. clean_value v)"
| "clean_value PyNone \<longleftrightarrow> True"
| "clean_value (PyBool b) \<longleftrightarrow> True"
| "clean_value (PyNum n) \<longleftrightarrow> True"
| "clean_value (PyStr s) \<longleftrightarrow> True"
| "clean_value (PyEnum v) \<longleftrightarrow> True"
| "clean_value (PyOther name) \<longleftrightarrow> True"
  by pat_completeness auto
termination
  by (relation "measure size") (auto intro: size_entry size_list_member)

definition clean_payload :: "(string \<times> pyval) list \<Rightarrow> bool" where
  "clean_payload values \<longleftrightarrow> (\<forall>(k, v) \<in> set values. if is_sensitive_key k then v = PyStr REDACTED else clean_value v)"

lemma mapR_members:
  "mapR f xs = Inr ys \<Longrightarrow> y \<in> set ys \<Longrightarrow> \<exists>x \<in> set xs. f x = Inr y"
  by (induction xs arbitrary: ys) (auto simp: bindR_Inr_iff)

lemma mapR_results:
  "mapR f xs = Inr ys \<Longrightarrow> (\<And>x y. x \<in> set xs \<Longrightarrow> f x = Inr y \<Longrightarrow> P y) \<Longrightarrow> \<forall>y \<in> set ys. P y"
proof
  fix y assume "mapR f xs = Inr ys" and P: "\<And>x y. x \<in> set xs \<Longrightarrow> f x = Inr y \<Longrightarrow> P y" and "y \<in> set ys"
  then obtain x where "x \<in> set xs" "f x = Inr y" using mapR_members [of f xs ys y] by blast
  then show "P y" by (rule P)
qed

lemma mapR_fixed: "(\<And>x. x \<in> set xs \<Longrightarrow> f x = Inr x) \<Longrightarrow> mapR f xs = Inr xs"
  by (induction xs) auto

lemma redact_value_clean: "redact_value v = Inr w \<Longrightarrow> clean_value w"
proof (induction v arbitrary: w rule: redact_value.induct)
  case (1 items)
  from 1(2) obtain items' where m: "mapR (redacted_entry redact_value) items = Inr items'" "w = PyMap items'"
    by (auto simp: bindR_Inr_iff)
  have "case k of KOther s \<Rightarrow> False | KStr s \<Rightarrow> if is_sensitive_key s then v = PyStr REDACTED else clean_value v"
    if kv: "(k, v) \<in> set items'" for k v
  proof -
    obtain k' v' where "(k', v') \<in> set items" "redacted_entry redact_value (k', v') = Inr (k, v)"
      using mapR_members [OF m(1) kv] by auto
    then show ?thesis using 1(1) [of "(k', v')" k' v' v]
      by (auto simp: redacted_entry_def bindR_Inr_iff split: pykey.splits if_splits)
  qed
  then show ?case unfolding m(2) clean_value.simps by blast
next
  case (2 vs)
  then show ?case by (auto simp: bindR_Inr_iff dest: mapR_results [where P = clean_value])
next
  case (3 vs)
  then show ?case by (auto simp: bindR_Inr_iff dest: mapR_results [where P = clean_value])
qed auto

lemma clean_value_fixed: "clean_value v \<Longrightarrow> redact_value v = Inr v"
proof (induction v rule: clean_value.induct)
  case (1 items)
  have "mapR (redacted_entry redact_value) items = Inr items"
    by (rule mapR_fixed) (use 1 in \<open>fastforce simp: redacted_entry_def split: pykey.splits if_splits\<close>)
  then show ?case by simp
qed (auto simp: mapR_fixed)

lemma redact_mapping_clean: "redact_mapping p = Inr q \<Longrightarrow> clean_payload q"
  by (fastforce simp: redact_mapping_def clean_payload_def bindR_Inr_iff redact_value_clean
      dest!: mapR_members split: if_splits)

lemma clean_payload_fixed: "clean_payload p \<Longrightarrow> redact_mapping p = Inr p"
  unfolding redact_mapping_def
  by (rule mapR_fixed) (auto simp: clean_payload_def clean_value_fixed split: if_splits)

lemma event_for_sink_Inr:
  assumes "event_for_sink p e = Inr e'"
  shows "e' = e\<lparr>e1_payload := e1_payload e'\<rparr> \<and> (sp_redact p \<longrightarrow> redact_mapping (e1_payload e) = Inr (e1_payload e')) \<and>
    (\<not> sp_redact p \<longrightarrow> e' = e)"
  using assms by (auto simp: event_for_sink_def bindR_Inr_iff mk_event1_Inr split: if_splits)

text \<open>A log of what the sinks receive; \<open>bad\<close> tells which sinks raise, and what.\<close>

definition logging_emit :: "(nat \<Rightarrow> pyexc option) \<Rightarrow> nat \<Rightarrow> v1_event \<Rightarrow> ((nat \<times> v1_event) list, unit) act" where
  "logging_emit bad sink e = (\<lambda>log. (case bad sink of None \<Rightarrow> Inr () | Some exc \<Rightarrow> Inl exc, log @ [(sink, e)]))"

definition expected_failures :: "(nat \<Rightarrow> pyexc option) \<Rightarrow> dispatcher1 \<Rightarrow> v1_event \<Rightarrow> string list \<Rightarrow> dispatch_failure list" where
  "expected_failures bad d e names = concat (map (\<lambda>name. case bad (the (dict_get (dp_sinks d) name)) of
       None \<Rightarrow> []
     | Some exc \<Rightarrow> [\<lparr>df1_sink = name, df1_event_id = e1_id e, df1_event_type = e1_type e,
         df1_error_type = exc_name exc, df1_message = sink_error_message (dp_policy d) exc\<rparr>]) names)"

lemma emit_loop:
  "foldA (emit_to (logging_emit bad) e e') names (d\<lparr>dp_failures := fs\<rparr>) seen =
     (Inr (d\<lparr>dp_failures := fs @ expected_failures bad d e names\<rparr>),
      seen @ map (\<lambda>name. (the (dict_get (dp_sinks d) name), e')) names)"
proof (induction names arbitrary: fs seen)
  case (Cons name names)
  then show ?case
    by (cases "bad (the (dict_get (dp_sinks d) name))")
      (simp_all add: bindA_def emit_to_def attemptA_def logging_emit_def expected_failures_def)
qed (simp add: expected_failures_def)

text \<open>When redaction succeeds: every mapping it descends into has text keys only.\<close>

function text_keyed :: "pyval \<Rightarrow> bool" where
  "text_keyed (PyMap items) \<longleftrightarrow> (\<forall>(k, v) \<in> set items. case k of KOther s \<Rightarrow> False
     | KStr s \<Rightarrow> is_sensitive_key s \<or> text_keyed v)"
| "text_keyed (PyList vs) \<longleftrightarrow> (\<forall>v \<in> set vs. text_keyed v)"
| "text_keyed (PyTuple vs) \<longleftrightarrow> (\<forall>v \<in> set vs. text_keyed v)"
| "text_keyed PyNone \<longleftrightarrow> True"
| "text_keyed (PyBool b) \<longleftrightarrow> True"
| "text_keyed (PyNum n) \<longleftrightarrow> True"
| "text_keyed (PyStr s) \<longleftrightarrow> True"
| "text_keyed (PyEnum v) \<longleftrightarrow> True"
| "text_keyed (PyOther name) \<longleftrightarrow> True"
  by pat_completeness auto
termination
  by (relation "measure size") (auto intro: size_entry size_list_member)

definition text_keyed_payload :: "(string \<times> pyval) list \<Rightarrow> bool" where
  "text_keyed_payload values \<longleftrightarrow> (\<forall>(k, v) \<in> set values. is_sensitive_key k \<or> text_keyed v)"

definition fails_unless :: "pyexc \<Rightarrow> bool \<Rightarrow> 'a result \<Rightarrow> bool" where
  "fails_unless err b r \<longleftrightarrow> (if b then \<exists>x. r = Inr x else r = Inl err)"

lemma fails_unless_mapR:
  "(\<And>x. x \<in> set xs \<Longrightarrow> fails_unless err (ok x) (f x)) \<Longrightarrow> fails_unless err (\<forall>x \<in> set xs. ok x) (mapR f xs)"
proof (induction xs)
  case (Cons x xs)
  then have "fails_unless err (ok x) (f x)" "fails_unless err (\<forall>x \<in> set xs. ok x) (mapR f xs)" by simp_all
  then show ?case unfolding fails_unless_def by (cases "ok x"; cases "\<forall>x \<in> set xs. ok x") auto
qed (simp add: fails_unless_def)

lemma fails_unless_bind: "fails_unless err b r \<Longrightarrow> fails_unless err b (bindR r (\<lambda>x. Inr (g x)))"
  by (auto simp: fails_unless_def)

abbreviation no_lower :: pyexc where
  "no_lower \<equiv> Raised ''AttributeError'' []"

lemma redact_value_exact: "fails_unless no_lower (text_keyed v) (redact_value v)"
proof (induction v rule: text_keyed.induct)
  case (1 items)
  have "fails_unless no_lower (case p of (k, v) \<Rightarrow> case k of KOther s \<Rightarrow> False | KStr s \<Rightarrow> is_sensitive_key s \<or> text_keyed v)
      (redacted_entry redact_value p)" if p: "p \<in> set items" for p
  proof -
    obtain k v where kv: "p = (k, v)" by (cases p)
    show ?thesis
    proof (cases k)
      case (KStr s)
      then show ?thesis using 1 [OF p kv [symmetric] KStr] kv
        by (cases "is_sensitive_key s") (auto simp: redacted_entry_def fails_unless_def)
    qed (simp add: kv redacted_entry_def fails_unless_def)
  qed
  from fails_unless_mapR [where f = "redacted_entry redact_value", OF this]
  show ?case by (simp add: fails_unless_bind)
next
  case (2 vs)
  then show ?case by (simp add: fails_unless_bind fails_unless_mapR)
next
  case (3 vs)
  then show ?case by (simp add: fails_unless_bind fails_unless_mapR)
qed (simp_all add: fails_unless_def)

lemma redact_mapping_exact: "fails_unless no_lower (text_keyed_payload p) (redact_mapping p)"
proof -
  have "fails_unless no_lower (case q of (k, v) \<Rightarrow> is_sensitive_key k \<or> text_keyed v)
      ((\<lambda>(key, v). if is_sensitive_key key then Inr (key, PyStr REDACTED) else bindR (redact_value v) (\<lambda>w. Inr (key, w))) q)" for q
  proof (cases q)
    case (Pair k v)
    then show ?thesis using fails_unless_bind [OF redact_value_exact [of v], of "\<lambda>w. (k, w)"]
      by (cases "is_sensitive_key k") (simp_all add: fails_unless_def del: split_paired_Ex)
  qed
  then show ?thesis unfolding redact_mapping_def text_keyed_payload_def by (rule fails_unless_mapR)
qed

lemma event_for_sink_exact:
  assumes "valid_event1 e"
  shows "fails_unless no_lower (\<not> sp_redact p \<or> text_keyed_payload (e1_payload e)) (event_for_sink p e)"
proof (cases "sp_redact p \<and> text_keyed_payload (e1_payload e)")
  case True
  then obtain q where "redact_mapping (e1_payload e) = Inr q"
    using redact_mapping_exact [of "e1_payload e"] by (auto simp: fails_unless_def)
  moreover have "valid_event1 (e\<lparr>e1_payload := q\<rparr>)" using assms by (simp add: valid_event1_def)
  ultimately show ?thesis using True
    by (auto simp: event_for_sink_def fails_unless_def mk_event1_Inr)
next
  case False
  then show ?thesis using redact_mapping_exact [of "e1_payload e"] by (auto simp: event_for_sink_def fails_unless_def)
qed


definition sample_dispatcher :: dispatcher1 where
  "sample_dispatcher = \<lparr>dp_sinks = [(''b'', 2), (''a'', 1)], dp_failures = [],
     dp_policy = \<lparr>sp_redact = True, sp_expose = False, sp_max_chars = 256\<rparr>\<rparr>"

definition secret_event :: v1_event where
  "secret_event = (sample_event1 1)\<lparr>e1_payload := [(''API-Key'', PyStr ''k''), (''n'', PyBool True)]\<rparr>"

definition nested_event :: v1_event where
  "nested_event = (sample_event1 1)\<lparr>e1_payload := [(''sizes'', PyMap [(KOther ''1'', PyNone)])]\<rparr>"


end
