(* ===== verification/V1_Runner.thy ===== *)
theory V1_Runner
  imports V1_Local V1_Observability
begin

text \<open>
  The sequential runner of the first-generation engine (\<open>application/runner.py\<close>): \<open>run\<close> with
  everything it calls.  \<open>ports1\<close> collects what the caller hands to \<open>Runner\<close> (clock, identity
  factory, sleeper, executor, sinks), each a computation on an environment \<open>'e\<close>; \<open>engine1\<close> is the
  metadata store, the observability dispatcher and that environment.  The ports have no access to
  the store: handlers that write to the metadata store behind the runner's back are not modelled.

  Entities that the source mutates in place are threaded as values: \<open>run\<close>, the task run at hand,
  its attempt, the dictionary \<open>task_runs_by_task_id\<close> and the event factory.  When an exception
  leaves \<open>run\<close> these objects are gone and only the store remains, and so it is here.  Logging is left out.
\<close>

section \<open>Ports\<close>

record 'e ports1 =
  po_now :: "('e, datetime) act"
  po_run_id :: "('e, string) act"
  po_task_run_id :: "string \<Rightarrow> string \<Rightarrow> ('e, string) act"
  po_attempt_id :: "string \<Rightarrow> int \<Rightarrow> ('e, string) act"
  po_event_id :: "string \<Rightarrow> int \<Rightarrow> ('e, string) act"
  po_sleep :: "pynum \<Rightarrow> ('e, unit) act"
  po_executor_key :: string
  po_timeout :: v1_timeout_capability
  po_execute :: "v1_task \<Rightarrow> nat \<Rightarrow> run_context1 \<Rightarrow> ('e, v1_task_result) act"
  po_emit :: "nat \<Rightarrow> v1_event \<Rightarrow> ('e, unit) act"
  po_isoformat :: "datetime \<Rightarrow> string"

record 'e engine1 =
  en_store :: v1_store
  en_dispatcher :: dispatcher1
  en_env :: 'e

definition in_env :: "('e, 'a) act \<Rightarrow> ('e engine1, 'a) act" where
  "in_env m = zoomA en_env (\<lambda>e k. k\<lparr>en_env := e\<rparr>) m"

definition in_store1 :: "(v1_store, 'a) act \<Rightarrow> ('e engine1, 'a) act" where
  "in_store1 m = zoomA en_store (\<lambda>s k. k\<lparr>en_store := s\<rparr>) m"

definition now1 :: "'e ports1 \<Rightarrow> ('e engine1, datetime) act" where
  "now1 P = in_env (po_now P)"

definition publish_event1 :: "'e ports1 \<Rightarrow> v1_event \<Rightarrow> ('e engine1, unit) act" where
  "publish_event1 P e = bindA (gets en_dispatcher) (\<lambda>d.
     bindA (in_env (publish1 (po_emit P) e d)) (\<lambda>d'. modifyA (\<lambda>k. k\<lparr>en_dispatcher := d'\<rparr>)))"

definition new_event1 ::
  "'e ports1 \<Rightarrow> v1_event_type \<Rightarrow> datetime \<Rightarrow> (string \<times> string) option \<Rightarrow> int option \<Rightarrow>
   (string \<times> pyval) list \<Rightarrow> event_factory1 \<Rightarrow> ('e engine1, v1_event \<times> event_factory1) act" where
  "new_event1 P ty occurred_at task number payload ef =
     in_env (create_event1 (po_event_id P) ty occurred_at task number payload ef)"

section \<open>Before the run\<close>

definition resolve_parameters1 :: "v1_workflow \<Rightarrow> (string, pyval) dict \<Rightarrow> (string, pyval) dict result" where
  "resolve_parameters1 w supplied =
     (let unknown = sort (filter (\<lambda>k. k \<notin> wp1_name ` set (wd1_parameters w)) (remdups (map fst supplied))) in
      thenR (require (unknown = []) (V1Error (InvalidWorkflowParameters
        (''unknown workflow parameters: '' @ join_with '', '' unknown))))
     (foldR (\<lambda>p resolved. case dict_get supplied (wp1_name p) of
          Some v \<Rightarrow> Inr (dict_set (wp1_name p) v resolved)
        | None \<Rightarrow> if wp1_required p then Inl (V1Error (InvalidWorkflowParameters
              (''required workflow parameter '' @ py_quote (wp1_name p) @ '' is missing'')))
            else Inr (dict_set (wp1_name p) (wp1_default p) resolved)) (wd1_parameters w) []))"

definition preflight_handler1 :: "'e ports1 \<Rightarrow> handlers1 \<Rightarrow> string \<Rightarrow> v1_task \<Rightarrow> handlers1 \<Rightarrow> handlers1 result" where
  \<comment> \<open>One round of \<open>_preflight_handlers\<close> and of \<open>_preflight_resume_handlers\<close>, which differ in the verb.\<close>
  "preflight_handler1 P registry verb t hs =
     thenR (require (td1_executor_key t = po_executor_key P) (ExecutorNotFound (td1_executor_key t)))
    (case td1_handler_ref t of
       None \<Rightarrow> Inl (V1Error (InvalidHandler (td1_id t) (''handler_ref is required for Runner '' @ verb)))
     | Some h \<Rightarrow> bindR (resolve_handler1 registry h) (\<lambda>x. Inr (dict_set (td1_id t) x hs)))"

definition preflight_handlers1 :: "'e ports1 \<Rightarrow> handlers1 \<Rightarrow> v1_workflow \<Rightarrow> handlers1 result" where
  "preflight_handlers1 P registry w = foldR (preflight_handler1 P registry ''execution'') (wd1_tasks w) []"

definition check_timeout1 :: "'e ports1 \<Rightarrow> v1_task \<Rightarrow> unit result" where
  "check_timeout1 P t =
     (case td1_timeout_mode t of
        TM1_NONE \<Rightarrow> Inr ()
      | m \<Rightarrow> require (m = TM1_SOFT \<and> po_timeout P \<in> {TC1_SOFT, TC1_HARD} \<or> m = TM1_HARD \<and> po_timeout P = TC1_HARD)
          (V1Error (TimeoutCapability (td1_id t) (timeout1_value m) (po_executor_key P)
            (timeout_capability_value (po_timeout P)))))"

definition check_timeouts1 :: "'e ports1 \<Rightarrow> v1_workflow \<Rightarrow> unit result" where
  "check_timeouts1 P w = forR (wd1_tasks w) (check_timeout1 P)"

definition create_task_run1 ::
  "'e ports1 \<Rightarrow> v1_run \<Rightarrow> datetime \<Rightarrow> string \<Rightarrow> task_runs1 \<Rightarrow> ('e engine1, task_runs1) act" where
  "create_task_run1 P run created_at k tasks =
     bindA (in_env (po_task_run_id P (r1_id run) k)) (\<lambda>i.
     bindA (liftR (mk_task_run1 \<lparr>t1_id = i, t1_run_id = r1_id run, t1_task_id = k, t1_status = T1_PENDING,
       t1_skip_reason = None, t1_created_at = Some created_at, t1_started_at = None, t1_finished_at = None\<rparr>)) (\<lambda>t.
     ret (dict_set k t tasks)))"

definition create_task_runs1 :: "'e ports1 \<Rightarrow> v1_run \<Rightarrow> string list \<Rightarrow> ('e engine1, task_runs1) act" where
  "create_task_runs1 P run plan_ids =
     bindA (now1 P) (\<lambda>created_at. foldA (create_task_run1 P run created_at) plan_ids [])"

definition new_attempt1 :: "'e ports1 \<Rightarrow> v1_task_run \<Rightarrow> int \<Rightarrow> datetime \<Rightarrow> ('e engine1, v1_attempt) act" where
  "new_attempt1 P t number started_at =
     bindA (in_env (po_attempt_id P (t1_id t) number)) (\<lambda>i.
     liftR (mk_attempt1 \<lparr>a1_id = i, a1_task_run_id = t1_id t, a1_number = number, a1_status = A1_RUNNING,
       a1_started_at = Some started_at, a1_finished_at = None, a1_error_type = None, a1_error_message = None,
       a1_error_category = None, a1_retry_eligible_at = None, a1_error_metadata = []\<rparr>))"

section \<open>Persisting\<close>

text \<open>One unit of work, and after its commit the events go to the observers.\<close>

definition persist1 :: "'e ports1 \<Rightarrow> (v1_store \<Rightarrow> v1_store result) list \<Rightarrow> v1_event list \<Rightarrow> ('e engine1, unit) act" where
  "persist1 P writes events =
     thenA (in_store1 (write1 (writes @ map add_event1 events))) (forA events (publish_event1 P))"

definition persist_initial1 :: "v1_run \<Rightarrow> task_runs1 \<Rightarrow> ('e engine1, unit) act" where
  "persist_initial1 run tasks = in_store1 (write1 (add_run1 run # map add_task1 (dict_values tasks)))"

definition load_task_runs1 :: "v1_run \<Rightarrow> ('e engine1, task_runs1) act" where
  "load_task_runs1 run = bindA (gets en_store) (\<lambda>s.
     bindA (liftR (list_tasks1 s (r1_id run))) (\<lambda>ts. ret (fold (\<lambda>t d. dict_set (t1_task_id t) t d) ts [])))"

definition persist_run1 :: "'e ports1 \<Rightarrow> v1_run \<Rightarrow> v1_event \<Rightarrow> ('e engine1, unit) act" where
  \<comment> \<open>\<open>_persist_workflow_transition\<close>\<close>
  "persist_run1 P run e = persist1 P [save_run1 run] [e]"

definition persist_task1 :: "'e ports1 \<Rightarrow> v1_task_run \<Rightarrow> v1_event \<Rightarrow> ('e engine1, unit) act" where
  "persist_task1 P t e = persist1 P [save_task1 t] [e]"

definition persist_start1 :: "'e ports1 \<Rightarrow> v1_task_run \<Rightarrow> v1_attempt \<Rightarrow> v1_event \<Rightarrow> ('e engine1, unit) act" where
  "persist_start1 P t a e = persist1 P [save_task1 t, add_attempt1 a] [e]"

definition persist_retry_failure1 :: "'e ports1 \<Rightarrow> v1_attempt \<Rightarrow> v1_event \<Rightarrow> ('e engine1, unit) act" where
  "persist_retry_failure1 P a e = persist1 P [save_attempt1 a] [e]"

definition persist_retry_attempt1 :: "v1_attempt \<Rightarrow> ('e engine1, unit) act" where
  "persist_retry_attempt1 a = in_store1 (write1 [add_attempt1 a])"

definition checkpoint_writes1 :: "string \<Rightarrow> pyval \<Rightarrow> (v1_store \<Rightarrow> v1_store result) list" where
  \<comment> \<open>An output that is no portable JSON leaves no checkpoint.\<close>
  "checkpoint_writes1 i output = (case portable1 (''task_result.'' @ i @ ''.output'') output of
     Inl _ \<Rightarrow> [] | Inr j \<Rightarrow> [add_output1 i (plain_json j)])"

definition persist_success1 ::
  "'e ports1 \<Rightarrow> v1_task_run \<Rightarrow> v1_attempt \<Rightarrow> v1_task_result \<Rightarrow> v1_event \<Rightarrow> ('e engine1, v1_task_run) act" where
  \<comment> \<open>\<open>_persist_execution_success\<close>, with the task run it leaves behind.\<close>
  "persist_success1 P t a result e =
     bindA (liftR (succeed_attempt1 (e1_occurred_at e) a)) (\<lambda>a.
     bindA (liftR (succeed_task1 (e1_occurred_at e) t)) (\<lambda>t.
     thenA (in_store1 (write1 ([save_attempt1 a, save_task1 t, add_event1 e] @
         checkpoint_writes1 (t1_id t) (res1_output result) @
         map (add_artifact1 (t1_id t)) (res1_artifacts result) @
         map (add_external1 (t1_id t)) (res1_external_refs result))))
    (thenA (publish_event1 P e) (ret t))))"

definition skip_decided1 ::
  "datetime \<Rightarrow> string \<times> v1_skip_reason \<Rightarrow> task_runs1 \<Rightarrow> task_runs1 result" where
  "skip_decided1 finished_at decision tasks = (case decision of (k, reason) \<Rightarrow>
     bindR (key_lookup tasks k) (\<lambda>t. bindR (skip_task1 reason finished_at t) (\<lambda>t. Inr (dict_set k t tasks))))"

definition skipped_event1 ::
  "'e ports1 \<Rightarrow> datetime \<Rightarrow> (string \<times> pyval) list \<Rightarrow> string \<Rightarrow> task_runs1 \<Rightarrow> string \<times> v1_skip_reason \<Rightarrow>
   v1_event list \<times> event_factory1 \<Rightarrow> ('e engine1, v1_event list \<times> event_factory1) act" where
  "skipped_event1 P finished_at prefix failed tasks decision acc =
     (case decision of (k, reason) \<Rightarrow> case acc of (events, ef) \<Rightarrow>
      bindA (liftR (key_lookup tasks k)) (\<lambda>t.
      bindA (new_event1 P v1_event_type.TASK_SKIPPED finished_at (Some (t1_id t, k)) None
        (prefix @ [(''reason'', PyStr (skip1_value reason)), (''failed_task_id'', PyStr failed)]) ef) (\<lambda>(e, ef).
      ret (events @ [e], ef))))"

definition persist_terminal1 ::
  "'e ports1 \<Rightarrow> v1_run \<Rightarrow> v1_task_run \<Rightarrow> v1_attempt \<Rightarrow> v1_graph \<Rightarrow> string list \<Rightarrow> task_runs1 \<Rightarrow>
   event_factory1 \<Rightarrow> string \<Rightarrow> string \<Rightarrow> ('e engine1, unit) act" where
  \<comment> \<open>\<open>_persist_terminal_failure\<close>\<close>
  "persist_terminal1 P run t a g plan_ids tasks ef error_type error_category =
     (case a1_finished_at a of
        None \<Rightarrow> raise (RuntimeInvariant ''terminal failure requires a finished TaskAttempt'')
      | Some finished_at \<Rightarrow>
          bindA (liftR (fail_task1 finished_at t)) (\<lambda>t.
          bindA (liftR (plan_fail_fast1 (t1_task_id t) g tasks plan_ids)) (\<lambda>decisions.
          bindA (liftR (foldR (skip_decided1 finished_at) decisions tasks)) (\<lambda>tasks.
          bindA (liftR (fail_run1 finished_at run)) (\<lambda>run.
          bindA (new_event1 P v1_event_type.TASK_FAILED finished_at (Some (t1_id t, t1_task_id t)) (Some (a1_number a))
            [(''error_type'', PyStr error_type), (''error_category'', PyStr error_category)] ef) (\<lambda>(failed, ef).
          bindA (foldA (skipped_event1 P finished_at [] (t1_task_id t) tasks) decisions ([failed], ef)) (\<lambda>(events, ef).
          bindA (new_event1 P v1_event_type.WORKFLOW_FAILED finished_at None None
            [(''failed_task_id'', PyStr (t1_task_id t))] ef) (\<lambda>(closing, ef).
          bindA (liftR (mapR (\<lambda>(k, reason). key_lookup tasks k) decisions)) (\<lambda>skipped.
          persist1 P ([save_attempt1 a, save_task1 t] @ map save_task1 skipped @ [save_run1 run])
            (events @ [closing]))))))))))"

section \<open>One task\<close>

definition normalize_executor_error1 :: "pyexc \<Rightarrow> string \<times> string \<times> string" where
  "normalize_executor_error1 e = (case e of
     V1Error (TaskExecution task_id handler_ref error_type error_message error_category) \<Rightarrow>
       (error_type, if error_message = [] then error_type else error_message, error_category)
   | _ \<Rightarrow> (exc_name e, exc_summary e, exc_name e))"

text \<open>The parts of a run that do not change while one task is executed.\<close>

record task_frame1 =
  fr_run :: v1_run
  fr_task :: v1_task
  fr_handler :: nat
  fr_parameters :: "(string, pyval) dict"
  fr_outputs :: "(string, pyval) dict"
  fr_graph :: v1_graph
  fr_plan_ids :: "string list"
  fr_tasks :: task_runs1

definition retry_payload1 :: "'e ports1 \<Rightarrow> string \<Rightarrow> string \<Rightarrow> v1_retry_decision \<Rightarrow> datetime \<Rightarrow> int \<Rightarrow> (string \<times> pyval) list"
  where
  "retry_payload1 P error_type error_category d eligible_at n =
     [(''error_type'', PyStr error_type), (''error_category'', PyStr error_category),
      (''delay_seconds'', PyNum (rd1_delay d)), (''retry_eligible_at'', PyStr (po_isoformat P eligible_at)),
      (''next_attempt_number'', PyNum (PyInt n))]"

definition settle_failed_attempt1 ::
  "'e ports1 \<Rightarrow> task_frame1 \<Rightarrow> v1_task_run \<Rightarrow> v1_attempt \<Rightarrow> event_factory1 \<Rightarrow> pyexc \<Rightarrow>
   ('e engine1, v1_attempt \<times> event_factory1) act" where
  \<comment> \<open>The handler of \<open>except ExecutorError\<close>: it returns the next attempt, or raises.\<close>
  "settle_failed_attempt1 P f t a ef exc =
     bindA (now1 P) (\<lambda>failed_at. case normalize_executor_error1 exc of (error_type, error_message, error_category) \<Rightarrow>
     bindA (liftR (fail_attempt1 failed_at error_type error_message (Some error_category) a)) (\<lambda>a.
     bindA (liftR (decide1 (td1_retry (fr_task f)) (a1_number a) exc)) (\<lambda>d.
     if rd1_should_retry d then (case rd1_next d of
         None \<Rightarrow> raise (RuntimeInvariant ''retry decision is missing next_attempt_number'')
       | Some n \<Rightarrow>
           bindA (liftR (retry_eligible1 failed_at d)) (\<lambda>eligible_at.
           bindA (liftR (schedule_retry1 eligible_at a)) (\<lambda>a.
           bindA (new_event1 P v1_event_type.TASK_RETRYING failed_at (Some (t1_id t, t1_task_id t)) (Some (a1_number a))
             (retry_payload1 P error_type error_category d eligible_at n) ef) (\<lambda>(e, ef).
           thenA (persist_retry_failure1 P a e)
          (thenA (if num_gt (rd1_delay d) 0 then in_env (po_sleep P (rd1_delay d)) else ret ())
          (bindA (now1 P) (\<lambda>started_at.
           bindA (new_attempt1 P t n started_at) (\<lambda>a.
           thenA (persist_retry_attempt1 a) (ret (a, ef))))))))))
     else
       thenA (persist_terminal1 P (fr_run f) t a (fr_graph f) (fr_plan_ids f) (fr_tasks f) ef error_type error_category)
         (raise exc))))"

fun execute_with_retry1 ::
  "nat \<Rightarrow> 'e ports1 \<Rightarrow> task_frame1 \<Rightarrow> v1_task_run \<Rightarrow> v1_attempt \<Rightarrow> event_factory1 \<Rightarrow>
   ('e engine1, v1_task_result \<times> v1_task_run \<times> event_factory1) act" where
  "execute_with_retry1 0 P f t a ef = raise Diverged"
| "execute_with_retry1 (Suc fuel) P f t a ef =
     bindA (liftR (mk_context1 \<lparr>rc1_run_id = r1_id (fr_run f), rc1_task_run_id = t1_id t, rc1_attempt_id = a1_id a,
       rc1_task_id = t1_task_id t, rc1_number = a1_number a, rc1_parameters = fr_parameters f,
       rc1_outputs = fr_outputs f\<rparr>)) (\<lambda>c.
     bindA (attemptA (in_env (po_execute P (fr_task f) (fr_handler f) c))) (\<lambda>outcome. case outcome of
       Inl exc \<Rightarrow>
         (if is_executor_error exc
          then bindA (settle_failed_attempt1 P f t a ef exc) (\<lambda>(a, ef). execute_with_retry1 fuel P f t a ef)
          else raise exc)
     | Inr result \<Rightarrow>
         bindA (now1 P) (\<lambda>at_time.
         bindA (new_event1 P v1_event_type.TASK_SUCCEEDED at_time (Some (t1_id t, t1_task_id t)) (Some (a1_number a)) [] ef) (\<lambda>(e, ef).
         bindA (persist_success1 P t a result e) (\<lambda>t. ret (result, t, ef))))))"

text \<open>One round of the loop runs one attempt, and a retry is only granted below \<open>max_attempts\<close>.\<close>

definition attempt_fuel1 :: "v1_task \<Rightarrow> int \<Rightarrow> nat" where
  "attempt_fuel1 td number = Suc (nat (rp1_max_attempts (td1_retry td) - number))"

section \<open>The run\<close>

record progress1 =
  pg_tasks :: task_runs1
  pg_factory :: event_factory1
  pg_outputs :: "(string, pyval) dict"

record prepared1 =
  pr_graph :: v1_graph
  pr_plan_ids :: "string list"
  pr_parameters :: "(string, pyval) dict"
  pr_handlers :: handlers1
  pr_definitions :: "(string, v1_task) dict"

definition prepare1 :: "'e ports1 \<Rightarrow> handlers1 \<Rightarrow> v1_workflow \<Rightarrow> (string, pyval) dict \<Rightarrow> prepared1 result" where
  \<comment> \<open>The checks of \<open>run\<close> that come before anything is created.\<close>
  "prepare1 P registry w supplied =
     bindR (build_graph1 w) (\<lambda>g.
     thenR (validate_graph1 w g)
    (bindR (build_plan1 w g) (\<lambda>plan.
     bindR (resolve_parameters1 w supplied) (\<lambda>params.
     bindR (preflight_handlers1 P registry w) (\<lambda>hs.
     thenR (check_timeouts1 P w)
    (Inr \<lparr>pr_graph = g, pr_plan_ids = pl1_task_ids plan, pr_parameters = params, pr_handlers = hs,
       pr_definitions = map (\<lambda>t. (td1_id t, t)) (wd1_tasks w)\<rparr>))))))"

definition dependency_outputs1 :: "prepared1 \<Rightarrow> string \<Rightarrow> (string, pyval) dict \<Rightarrow> (string, pyval) dict result" where
  "dependency_outputs1 pr k outputs =
     bindR (upstream_of (pr_graph pr) k) (\<lambda>ups. mapR (\<lambda>u. bindR (key_lookup outputs u) (\<lambda>v. Inr (u, v))) ups)"

definition run_planned1 ::
  "'e ports1 \<Rightarrow> prepared1 \<Rightarrow> v1_run \<Rightarrow> string \<Rightarrow> progress1 \<Rightarrow> ('e engine1, progress1) act" where
  \<comment> \<open>One round of the loop over \<open>plan.task_ids\<close>.\<close>
  "run_planned1 P pr run k p =
     bindA (liftR (key_lookup (pg_tasks p) k)) (\<lambda>t.
     bindA (load_task_runs1 run) (\<lambda>persisted.
     bindA (liftR (key_lookup persisted k)) (\<lambda>stored.
     bindA (liftR (is_ready1 (pr_graph pr) persisted stored)) (\<lambda>ready.
     thenA (requireA ready (RuntimeInvariant (''planned task '' @ py_quote k @ '' is not runtime-ready'')))
    (bindA (now1 P) (\<lambda>ready_at.
     bindA (liftR (mark_ready1 t)) (\<lambda>t.
     bindA (new_event1 P v1_event_type.TASK_READY ready_at (Some (t1_id t, k)) None [] (pg_factory p)) (\<lambda>(e, ef).
     thenA (persist_task1 P t e)
    (bindA (now1 P) (\<lambda>started_at.
     bindA (liftR (start_task1 started_at t)) (\<lambda>t.
     bindA (new_attempt1 P t 1 started_at) (\<lambda>a.
     bindA (new_event1 P v1_event_type.TASK_STARTED started_at (Some (t1_id t, k)) (Some 1) [] ef) (\<lambda>(e, ef).
     thenA (persist_start1 P t a e)
    (bindA (liftR (key_lookup (pr_definitions pr) k)) (\<lambda>td.
     bindA (liftR (key_lookup (pr_handlers pr) k)) (\<lambda>h.
     bindA (liftR (dependency_outputs1 pr k (pg_outputs p))) (\<lambda>deps.
     bindA (execute_with_retry1 (attempt_fuel1 td 1) P \<lparr>fr_run = run, fr_task = td, fr_handler = h,
         fr_parameters = pr_parameters pr, fr_outputs = deps, fr_graph = pr_graph pr,
         fr_plan_ids = pr_plan_ids pr, fr_tasks = dict_set k t (pg_tasks p)\<rparr> t a ef) (\<lambda>(result, t, ef).
     ret \<lparr>pg_tasks = dict_set k t (pg_tasks p), pg_factory = ef,
       pg_outputs = dict_set k (res1_output result) (pg_outputs p)\<rparr>))))))))))))))))))"

definition start_workflow1 ::
  "'e ports1 \<Rightarrow> v1_run \<Rightarrow> event_factory1 \<Rightarrow> ('e engine1, v1_run \<times> event_factory1) act" where
  "start_workflow1 P run ef =
     bindA (now1 P) (\<lambda>started_at.
     bindA (liftR (start_run1 started_at run)) (\<lambda>run.
     bindA (new_event1 P v1_event_type.WORKFLOW_STARTED started_at None None [] ef) (\<lambda>(e, ef).
     thenA (persist_run1 P run e) (ret (run, ef)))))"

definition finish_workflow1 ::
  "'e ports1 \<Rightarrow> v1_run \<Rightarrow> (string \<times> pyval) list \<Rightarrow> event_factory1 \<Rightarrow> ('e engine1, v1_run) act" where
  \<comment> \<open>The end of \<open>run\<close> and of \<open>resume\<close>.\<close>
  "finish_workflow1 P run payload ef =
     bindA (now1 P) (\<lambda>finished_at.
     bindA (liftR (succeed_run1 finished_at run)) (\<lambda>run.
     bindA (new_event1 P v1_event_type.WORKFLOW_SUCCEEDED finished_at None None payload ef) (\<lambda>(e, ef).
     thenA (persist_run1 P run e)
    (bindA (gets en_store) (\<lambda>s. liftR (get_run1 s (r1_id run)))))))"

definition create_run1 :: "'e ports1 \<Rightarrow> v1_workflow \<Rightarrow> (string, pyval) dict \<Rightarrow> ('e engine1, v1_run) act" where
  "create_run1 P w params =
     bindA (in_env (po_run_id P)) (\<lambda>i.
     bindA (now1 P) (\<lambda>created_at.
     liftR (mk_run1 \<lparr>r1_id = i, r1_workflow_id = wd1_id w, r1_version = wd1_version w, r1_status = W1_PENDING,
       r1_parameters = params, r1_created_at = Some created_at, r1_started_at = None, r1_finished_at = None\<rparr>)))"

definition run1 ::
  "'e ports1 \<Rightarrow> handlers1 \<Rightarrow> v1_workflow \<Rightarrow> (string, pyval) dict \<Rightarrow> ('e engine1, v1_run) act" where
  "run1 P registry w supplied =
     bindA (liftR (prepare1 P registry w supplied)) (\<lambda>pr.
     bindA (create_run1 P w (pr_parameters pr)) (\<lambda>run.
     bindA (liftR (mk_event_factory1 (r1_id run) 1)) (\<lambda>ef.
     bindA (create_task_runs1 P run (pr_plan_ids pr)) (\<lambda>tasks.
     thenA (persist_initial1 run tasks)
    (bindA (start_workflow1 P run ef) (\<lambda>(run, ef).
     bindA (foldA (run_planned1 P pr run) (pr_plan_ids pr)
       \<lparr>pg_tasks = tasks, pg_factory = ef, pg_outputs = []\<rparr>) (\<lambda>p.
     thenA (requireA (\<forall>t \<in> set (dict_values (pg_tasks p)). t1_status t = T1_SUCCEEDED)
       (RuntimeInvariant ''workflow exhausted its plan before all tasks succeeded''))
       (finish_workflow1 P run [] (pg_factory p)))))))))"

end
