(* ===== verification/V1_Recovery.thy ===== *)
theory V1_Recovery
  imports V1_Runner World
begin

text \<open>
  Recovery in the first-generation engine: the assessment of persisted evidence
  (\<open>application/recovery.py\<close>) and the reconciliation of ambiguous work with external providers
  (\<open>application/reconciliation.py\<close>).  Both only read the store.  A verifier is an object known by its
  provider; what its \<open>verify\<close> answers is an argument, \<open>None\<close> for a value that is no
  \<open>ExternalRunStatus\<close>.  Durations are counted in microseconds.
\<close>

section \<open>Assessment\<close>

datatype v1_liveness = LV_TERMINAL | LV_ACTIVE | LV_STALE_CANDIDATE | LV_UNKNOWN

primrec liveness1_value :: "v1_liveness \<Rightarrow> string" where
  "liveness1_value LV_TERMINAL = ''terminal''"
| "liveness1_value LV_ACTIVE = ''active''"
| "liveness1_value LV_STALE_CANDIDATE = ''stale_candidate''"
| "liveness1_value LV_UNKNOWN = ''unknown''"

datatype v1_eligibility = EL_NOT_ELIGIBLE | EL_ELIGIBLE | EL_REQUIRES_RECONCILIATION

record idempotency1 =
  id1_task_id :: string
  id1_task_run_id :: string
  id1_key :: string
  id1_attempt_count :: nat

record assessment1 =
  ae1_run_id :: string
  ae1_workflow_id :: string
  ae1_version :: string
  ae1_status :: v1_run_status
  ae1_observed_at :: datetime
  ae1_last_evidence_at :: "datetime option"
  ae1_stale_after_seconds :: rat
  ae1_liveness :: v1_liveness
  ae1_eligibility :: v1_eligibility
  ae1_running_tasks :: "string list"
  ae1_running_attempts :: "string list"
  ae1_retry_waiting :: "string list"
  ae1_next_retry_at :: "datetime option"
  ae1_external_count :: nat
  ae1_unresolved_external_count :: nat
  ae1_idempotency :: "idempotency1 list"
  ae1_reasons :: "string list"

definition later_of :: "datetime list \<Rightarrow> datetime option" where
  "later_of ts = (case ts of [] \<Rightarrow> None | t # rest \<Rightarrow> Some (fold max rest t))"

definition latest_evidence1 :: "v1_run \<Rightarrow> v1_task_run list \<Rightarrow> v1_attempt list \<Rightarrow> v1_event list \<Rightarrow> datetime option" where
  "latest_evidence1 run tasks attempts events = later_of (List.map_filter id
     ([r1_created_at run, r1_started_at run, r1_finished_at run] @
      map t1_created_at tasks @ map t1_started_at tasks @ map t1_finished_at tasks @
      map a1_started_at attempts @ map a1_finished_at attempts @ map (Some \<circ> e1_occurred_at) events))"

definition classify_liveness1 ::
  "int \<Rightarrow> v1_run \<Rightarrow> datetime \<Rightarrow> datetime option \<Rightarrow> datetime option \<Rightarrow> v1_liveness \<times> string" where
  "classify_liveness1 stale_after run observed_at latest next_retry =
     (if r1_status run \<in> RUN1_TERMINAL then (LV_TERMINAL, ''workflow_is_terminal'')
      else if \<exists>n \<in> set_option next_retry. observed_at < n then (LV_ACTIVE, ''retry_wait_not_yet_eligible'')
      else case latest of
        None \<Rightarrow> (LV_UNKNOWN, ''missing_timestamp_evidence'')
      | Some l \<Rightarrow>
          (let effective = (case next_retry of Some n \<Rightarrow> (if l < n then n else l) | None \<Rightarrow> l);
               age = dt_us observed_at - dt_us effective in
           if age < 0 then (LV_UNKNOWN, ''latest_evidence_is_in_the_future'')
           else if stale_after \<le> age then (LV_STALE_CANDIDATE, ''evidence_older_than_stale_threshold'')
           else (LV_ACTIVE, ''recent_runtime_evidence'')))"

definition classify_eligibility1 ::
  "v1_liveness \<Rightarrow> string list \<Rightarrow> string list \<Rightarrow> nat \<Rightarrow> v1_eligibility \<times> string list" where
  "classify_eligibility1 liveness running_tasks running_attempts unresolved =
     (if liveness \<noteq> LV_STALE_CANDIDATE then (EL_NOT_ELIGIBLE, [''run_is_not_a_stale_candidate''])
      else let reasons = (if running_tasks \<noteq> [] then [''running_task_requires_reconciliation''] else []) @
            (if running_attempts \<noteq> [] then [''running_attempt_requires_reconciliation''] else []) @
            (if unresolved \<noteq> 0 then [''external_work_requires_reconciliation''] else []) in
        if reasons \<noteq> [] then (EL_REQUIRES_RECONCILIATION, reasons)
        else (EL_ELIGIBLE, [''no_ambiguous_running_or_external_work'']))"

definition waiting_retry1 :: "v1_task_run \<times> v1_attempt list \<Rightarrow> v1_attempt option" where
  \<comment> \<open>The attempt of a running task whose retry is scheduled.\<close>
  "waiting_retry1 p = (case p of (t, attempts) \<Rightarrow> if t1_status t = T1_RUNNING then pending_retry1 attempts else None)"

definition assess_evidence1 ::
  "int \<Rightarrow> datetime \<Rightarrow> v1_run \<Rightarrow> (v1_task_run \<times> v1_attempt list) list \<Rightarrow> v1_event list \<Rightarrow> (string \<Rightarrow> nat) \<Rightarrow> assessment1"
  where
  \<comment> \<open>\<open>assess\<close> from the values read from the store on; the last argument counts the external
     references of a task run.\<close>
  "assess_evidence1 stale_after observed_at run tasks events external_count =
     (let waiting = filter (\<lambda>p. waiting_retry1 p \<noteq> None) tasks;
          eligible_times = List.map_filter a1_retry_eligible_at (map (the \<circ> waiting_retry1) waiting);
          next_retry = (case eligible_times of [] \<Rightarrow> None | t # ts \<Rightarrow> Some (fold min ts t));
          running_tasks = sort (map (t1_id \<circ> fst) (filter (\<lambda>p. t1_status (fst p) = T1_RUNNING \<and> waiting_retry1 p = None) tasks));
          running_attempts = sort (map a1_id (filter (\<lambda>a. a1_status a = A1_RUNNING) (concat (map snd tasks))));
          unresolved = sum_list (map (external_count \<circ> t1_id \<circ> fst) (filter (\<lambda>p. t1_status (fst p) \<notin> TASK1_TERMINAL) tasks));
          latest = latest_evidence1 run (map fst tasks) (concat (map snd tasks)) events in
      case classify_liveness1 stale_after run observed_at latest next_retry of (liveness, reason) \<Rightarrow>
      case classify_eligibility1 liveness running_tasks running_attempts unresolved of (eligibility, reasons) \<Rightarrow>
      \<lparr>ae1_run_id = r1_id run, ae1_workflow_id = r1_workflow_id run, ae1_version = r1_version run,
       ae1_status = r1_status run, ae1_observed_at = observed_at, ae1_last_evidence_at = latest,
       ae1_stale_after_seconds = of_int stale_after / of_int us_per_second, ae1_liveness = liveness,
       ae1_eligibility = eligibility, ae1_running_tasks = running_tasks, ae1_running_attempts = running_attempts,
       ae1_retry_waiting = sort (map (t1_id \<circ> fst) waiting), ae1_next_retry_at = next_retry,
       ae1_external_count = sum_list (map (external_count \<circ> t1_id \<circ> fst) tasks),
       ae1_unresolved_external_count = unresolved,
       ae1_idempotency = map (\<lambda>(t, ats). \<lparr>id1_task_id = t1_task_id t, id1_task_run_id = t1_id t, id1_key = t1_id t,
         id1_attempt_count = length ats\<rparr>) (sort_key (t1_task_id \<circ> fst) tasks),
       ae1_reasons = reason # reasons\<rparr>)"

definition mk_inspector1 :: "int \<Rightarrow> unit result" where
  "mk_inspector1 stale_after = require (0 < stale_after) (ValueError ''stale_after must be greater than zero'')"

definition attempts_of_tasks1 :: "v1_store \<Rightarrow> v1_task_run list \<Rightarrow> (v1_task_run \<times> v1_attempt list) list result" where
  "attempts_of_tasks1 s tasks = mapR (\<lambda>t. bindR (list_attempts1 s (t1_id t)) (\<lambda>ats. Inr (t, ats))) tasks"

definition assess1 :: "'e ports1 \<Rightarrow> int \<Rightarrow> string \<Rightarrow> ('e engine1, assessment1) act" where
  "assess1 P stale_after run_id =
     bindA (now1 P) (\<lambda>observed_at.
     thenA (requireA (dt_aware observed_at) (ValueError ''Clock.now() must return a timezone-aware datetime''))
    (bindA (gets en_store) (\<lambda>s.
     bindA (liftR (get_run1 s run_id)) (\<lambda>run.
     bindA (liftR (list_tasks1 s run_id)) (\<lambda>ts.
     bindA (liftR (attempts_of_tasks1 s ts)) (\<lambda>tasks.
     ret (assess_evidence1 stale_after observed_at run tasks (list_events1 s run_id)
       (\<lambda>i. length (list_externals1 s i)))))))))"

definition find_stale1 :: "'e ports1 \<Rightarrow> int \<Rightarrow> ('e engine1, assessment1 list) act" where
  "find_stale1 P stale_after =
     bindA (gets en_store) (\<lambda>s.
     bindA (liftR (list_runs1 s)) (\<lambda>runs.
     bindA (mapA (\<lambda>r. assess1 P stale_after (r1_id r)) (filter (\<lambda>r. r1_status r \<notin> RUN1_TERMINAL) runs)) (\<lambda>as.
     ret (sort_key ae1_run_id (filter (\<lambda>a. ae1_liveness a = LV_STALE_CANDIDATE) as)))))"

section \<open>Reconciliation\<close>

datatype v1_disposition =
  DI1_CONFIRMED_SUCCEEDED | DI1_CONFIRMED_FAILED | DI1_CONFIRMED_CANCELLED | DI1_STILL_RUNNING | DI1_MANUAL_REQUIRED

primrec disposition1_value :: "v1_disposition \<Rightarrow> string" where
  "disposition1_value DI1_CONFIRMED_SUCCEEDED = ''confirmed_succeeded''"
| "disposition1_value DI1_CONFIRMED_FAILED = ''confirmed_failed''"
| "disposition1_value DI1_CONFIRMED_CANCELLED = ''confirmed_cancelled''"
| "disposition1_value DI1_STILL_RUNNING = ''still_running''"
| "disposition1_value DI1_MANUAL_REQUIRED = ''manual_required''"

record observation1 =
  ob1_ref_id :: string
  ob1_provider :: string
  ob1_external_run_id :: string
  ob1_status :: external_run_status
  ob1_reason :: "string option"

record task_report1 =
  tk1_task_run_id :: string
  tk1_task_id :: string
  tk1_disposition :: v1_disposition
  tk1_running_attempts :: "string list"
  tk1_observations :: "observation1 list"
  tk1_reasons :: "string list"

record report1 =
  rep1_run_id :: string
  rep1_tasks :: "task_report1 list"

definition fully_resolved1 :: "report1 \<Rightarrow> bool" where
  "fully_resolved1 r \<longleftrightarrow> list_all (\<lambda>x. tk1_disposition x \<in>
     {DI1_CONFIRMED_SUCCEEDED, DI1_CONFIRMED_FAILED, DI1_CONFIRMED_CANCELLED}) (rep1_tasks r)"

definition has_still_running1 :: "report1 \<Rightarrow> bool" where
  "has_still_running1 r \<longleftrightarrow> list_ex (\<lambda>x. tk1_disposition x = DI1_STILL_RUNNING) (rep1_tasks r)"

definition requires_manual1 :: "report1 \<Rightarrow> bool" where
  "requires_manual1 r \<longleftrightarrow> list_ex (\<lambda>x. tk1_disposition x = DI1_MANUAL_REQUIRED) (rep1_tasks r)"

definition register_verifier1 :: "string \<Rightarrow> nat \<Rightarrow> (string, nat) dict \<Rightarrow> (string, nat) dict result" where
  \<comment> \<open>The provider a verifier declares, the verifier, the registry.\<close>
  "register_verifier1 provider verifier verifiers =
     thenR (require (\<not> blank provider) (ValueError ''verifier.provider must be a non-empty string''))
    (thenR (require (\<not> dict_has verifiers provider) (DuplicateReconciliationVerifier provider))
    (Inr (dict_set provider verifier verifiers)))"

definition providers1 :: "(string, nat) dict \<Rightarrow> string list" where
  "providers1 verifiers = sort (map fst verifiers)"

type_synonym 'e verify1 = "nat \<Rightarrow> v1_external_ref \<Rightarrow> ('e, external_run_status option) act"

definition observation_of1 :: "v1_external_ref \<Rightarrow> external_run_status \<Rightarrow> string option \<Rightarrow> observation1" where
  "observation_of1 x status reason = \<lparr>ob1_ref_id = xr1_id x, ob1_provider = xr1_provider x,
     ob1_external_run_id = xr1_external_run_id x, ob1_status = status, ob1_reason = reason\<rparr>"

definition verify_ref1 :: "'e verify1 \<Rightarrow> (string, nat) dict \<Rightarrow> v1_external_ref \<Rightarrow> ('e engine1, observation1) act" where
  "verify_ref1 verify verifiers x = (case dict_get verifiers (xr1_provider x) of
     None \<Rightarrow> ret (observation_of1 x X_UNKNOWN (Some ''verifier_not_registered''))
   | Some v \<Rightarrow> bindA (attemptA (in_env (verify v x))) (\<lambda>outcome. case outcome of
         Inl e \<Rightarrow> ret (observation_of1 x X_UNKNOWN (Some (''verification_failed:'' @ exc_name e)))
       | Inr None \<Rightarrow> ret (observation_of1 x X_UNKNOWN (Some ''verifier_returned_invalid_status''))
       | Inr (Some status) \<Rightarrow> ret (observation_of1 x status None)))"

primrec external_status_value :: "external_run_status \<Rightarrow> string" where
  "external_status_value X_RUNNING = ''running''"
| "external_status_value X_SUCCEEDED = ''succeeded''"
| "external_status_value X_FAILED = ''failed''"
| "external_status_value X_CANCELLED = ''cancelled''"
| "external_status_value X_NOT_FOUND = ''not_found''"
| "external_status_value X_UNKNOWN = ''unknown''"

primrec disposition_of1 :: "external_run_status \<Rightarrow> v1_disposition option" where
  "disposition_of1 X_SUCCEEDED = Some DI1_CONFIRMED_SUCCEEDED"
| "disposition_of1 X_FAILED = Some DI1_CONFIRMED_FAILED"
| "disposition_of1 X_CANCELLED = Some DI1_CONFIRMED_CANCELLED"
| "disposition_of1 X_RUNNING = Some DI1_STILL_RUNNING"
| "disposition_of1 X_NOT_FOUND = None"
| "disposition_of1 X_UNKNOWN = None"

definition verdict1 :: "observation1 list \<Rightarrow> v1_disposition \<times> string" where
  \<comment> \<open>\<open>_reconcile_task\<close> from the observations on.\<close>
  "verdict1 observations =
     (let statuses = remdups (map ob1_status observations) in
      if list_ex (\<lambda>s. s \<in> {X_UNKNOWN, X_NOT_FOUND}) statuses then (DI1_MANUAL_REQUIRED, ''external_status_is_not_conclusive'')
      else if length statuses \<noteq> 1 then (DI1_MANUAL_REQUIRED, ''conflicting_external_statuses'')
      else case disposition_of1 (hd statuses) of
        None \<Rightarrow> (DI1_MANUAL_REQUIRED, ''external_status_is_not_conclusive'')
      | Some d \<Rightarrow> (d, ''external_status_'' @ external_status_value (hd statuses)))"

definition reconcile_task1 ::
  "'e verify1 \<Rightarrow> (string, nat) dict \<Rightarrow> v1_task_run \<Rightarrow> string list \<Rightarrow> v1_external_ref list \<Rightarrow> ('e engine1, task_report1) act"
  where
  "reconcile_task1 verify verifiers t running refs =
     (if refs = [] then ret \<lparr>tk1_task_run_id = t1_id t, tk1_task_id = t1_task_id t, tk1_disposition = DI1_MANUAL_REQUIRED,
        tk1_running_attempts = running, tk1_observations = [],
        tk1_reasons = [''local_running_work_has_no_external_reconciliation_evidence'']\<rparr>
      else bindA (mapA (verify_ref1 verify verifiers) refs) (\<lambda>observations.
        case verdict1 observations of (disposition, reason) \<Rightarrow>
        ret \<lparr>tk1_task_run_id = t1_id t, tk1_task_id = t1_task_id t, tk1_disposition = disposition,
          tk1_running_attempts = running, tk1_observations = observations, tk1_reasons = [reason]\<rparr>))"

definition reconcile_entry1 ::
  "'e verify1 \<Rightarrow> (string, nat) dict \<Rightarrow> v1_task_run \<Rightarrow> task_report1 list \<Rightarrow> ('e engine1, task_report1 list) act" where
  \<comment> \<open>One round of the loop of \<open>reconcile\<close>.\<close>
  "reconcile_entry1 verify verifiers t reports =
     (if t1_status t \<in> TASK1_TERMINAL then ret reports
      else bindA (gets en_store) (\<lambda>s. bindA (liftR (list_attempts1 s (t1_id t))) (\<lambda>attempts.
        let running = map a1_id (filter (\<lambda>a. a1_status a = A1_RUNNING) attempts); refs = list_externals1 s (t1_id t) in
        if t1_status t = T1_RUNNING \<and> running = [] \<and> pending_retry1 attempts \<noteq> None \<and> refs = [] then ret reports
        else if t1_status t \<noteq> T1_RUNNING \<and> refs = [] then ret reports
        else bindA (reconcile_task1 verify verifiers t running refs) (\<lambda>r. ret (reports @ [r])))))"

definition reconcile1 :: "'e ports1 \<Rightarrow> 'e verify1 \<Rightarrow> (string, nat) dict \<Rightarrow> int \<Rightarrow> string \<Rightarrow> ('e engine1, report1) act" where
  "reconcile1 P verify verifiers stale_after run_id =
     bindA (assess1 P stale_after run_id) (\<lambda>a.
     thenA (requireA (ae1_liveness a = LV_STALE_CANDIDATE) (V1Error (ReconciliationError run_id
       (''run liveness is '' @ liveness1_value (ae1_liveness a) @ '', not stale_candidate''))))
    (bindA (gets en_store) (\<lambda>s.
     bindA (liftR (list_tasks1 s run_id)) (\<lambda>ts.
     bindA (foldA (reconcile_entry1 verify verifiers) (sort_key t1_task_id ts) []) (\<lambda>reports.
     ret \<lparr>rep1_run_id = run_id, rep1_tasks = reports\<rparr>)))))"

end
