(* ===== verification/V1_Resume.thy ===== *)
theory V1_Resume
  imports V1_Recovery
begin

text \<open>
  \<open>Runner.resume\<close> (\<open>application/runner.py\<close>): a stale run is continued after a reconciliation report
  has been applied to it.  Task runs that the source mutates in place while it applies the report
  are threaded through the dictionary that holds them; the store sees them in one unit of work.
\<close>

section \<open>Applying the report\<close>

definition resume_error1 :: "string \<Rightarrow> string \<Rightarrow> pyexc" where
  "resume_error1 run_id reason = V1Error (ResumeError run_id reason)"

definition recovery_payload :: "string \<Rightarrow> (string \<times> pyval) list" where
  "recovery_payload s = [(''recovery'', PyStr s)]"

record applied1 =
  ap_tasks :: task_runs1
  ap_attempts :: "v1_attempt list"     \<comment> \<open>\<open>changed_attempts\<close>\<close>
  ap_changed :: "v1_task_run list"     \<comment> \<open>\<open>changed_task_runs\<close>\<close>
  ap_events :: "v1_event list"
  ap_factory :: event_factory1
  ap_failed :: "v1_task_run option"    \<comment> \<open>\<open>first_failed_task_run\<close>\<close>

definition ambiguous_attempt1 :: "string \<Rightarrow> task_report1 \<Rightarrow> task_runs1 \<Rightarrow> v1_store \<Rightarrow> (v1_task_run \<times> v1_attempt) result" where
  \<comment> \<open>The checks on one item, and what it speaks of.\<close>
  "ambiguous_attempt1 run_id item tasks s =
     thenR (require (tk1_disposition item \<in> {DI1_CONFIRMED_SUCCEEDED, DI1_CONFIRMED_FAILED, DI1_CONFIRMED_CANCELLED})
       (resume_error1 run_id (''reconciliation disposition '' @ disposition1_value (tk1_disposition item) @ '' is not resumable'')))
    (case find (\<lambda>t. t1_id t = tk1_task_run_id item) (dict_values tasks) of
       None \<Rightarrow> Inl (resume_error1 run_id (''reconciliation references unknown TaskRun '' @ py_quote (tk1_task_run_id item)))
     | Some t \<Rightarrow>
         thenR (require (t1_status t = T1_RUNNING) (resume_error1 run_id (''reconciliation TaskRun '' @
           py_quote (tk1_task_run_id item) @ '' is '' @ task1_value (t1_status t) @ '', expected RUNNING'')))
        (bindR (list_attempts1 s (t1_id t)) (\<lambda>attempts.
         case filter (\<lambda>a. a1_status a = A1_RUNNING) attempts of
           [a] \<Rightarrow> thenR (require (tk1_running_attempts item = [a1_id a])
               (resume_error1 run_id (''reconciliation attempt identity mismatch for '' @ py_quote (tk1_task_run_id item))))
             (Inr (t, a))
         | _ \<Rightarrow> Inl (resume_error1 run_id (''TaskRun '' @ py_quote (tk1_task_run_id item) @
             '' must have exactly one RUNNING attempt for reconciliation'')))))"

definition reconciled_payload :: "v1_disposition \<Rightarrow> (string \<times> pyval) list" where
  "reconciled_payload d = recovery_payload ''reconciliation'' @ [(''disposition'', PyStr (disposition1_value d))]"

definition apply_item1 :: "'e ports1 \<Rightarrow> string \<Rightarrow> task_report1 \<Rightarrow> applied1 \<Rightarrow> ('e engine1, applied1) act" where
  \<comment> \<open>One round of the loop over \<open>task_reconciliations\<close>.\<close>
  "apply_item1 P run_id item st =
     bindA (gets en_store) (\<lambda>s.
     bindA (liftR (ambiguous_attempt1 run_id item (ap_tasks st) s)) (\<lambda>(t, a).
     bindA (now1 P) (\<lambda>at_time.
     let changed = (\<lambda>t a st. st\<lparr>ap_tasks := dict_set (t1_task_id t) t (ap_tasks st),
           ap_attempts := ap_attempts st @ [a], ap_changed := ap_changed st @ [t]\<rparr>) in
     case tk1_disposition item of
       DI1_CONFIRMED_SUCCEEDED \<Rightarrow>
         bindA (liftR (succeed_attempt1 at_time a)) (\<lambda>a.
         bindA (liftR (succeed_task1 at_time t)) (\<lambda>t.
         bindA (new_event1 P v1_event_type.TASK_SUCCEEDED at_time (Some (t1_id t, t1_task_id t)) (Some (a1_number a))
           (reconciled_payload DI1_CONFIRMED_SUCCEEDED) (ap_factory st)) (\<lambda>(e, ef).
         ret (changed t a (st\<lparr>ap_events := ap_events st @ [e], ap_factory := ef\<rparr>)))))
     | DI1_CONFIRMED_FAILED \<Rightarrow>
         bindA (liftR (fail_attempt1 at_time ''ExternalReconciliationFailure''
           ''external workload was confirmed failed during recovery'' (Some ''reconciliation'') a)) (\<lambda>a.
         bindA (liftR (fail_task1 at_time t)) (\<lambda>t.
         bindA (new_event1 P v1_event_type.TASK_FAILED at_time (Some (t1_id t, t1_task_id t)) (Some (a1_number a))
           (reconciled_payload DI1_CONFIRMED_FAILED @ [(''error_type'', PyStr ''ExternalReconciliationFailure''),
             (''error_category'', PyStr ''reconciliation'')]) (ap_factory st)) (\<lambda>(e, ef).
         ret (changed t a (st\<lparr>ap_events := ap_events st @ [e], ap_factory := ef,
           ap_failed := (case ap_failed st of None \<Rightarrow> Some t | Some f \<Rightarrow> Some f)\<rparr>)))))
     | _ \<Rightarrow>
         bindA (liftR (cancel_attempt1 at_time a)) (\<lambda>a.
         bindA (liftR (cancel_task1 at_time t)) (\<lambda>t. ret (changed t a st))))))"

definition persist_applied1 :: "'e ports1 \<Rightarrow> v1_run option \<Rightarrow> applied1 \<Rightarrow> ('e engine1, unit) act" where
  \<comment> \<open>\<open>_persist_reconciliation_changes\<close>\<close>
  "persist_applied1 P run st =
     persist1 P (map save_attempt1 (ap_attempts st) @
       map save_task1 (dict_values (fold (\<lambda>t d. dict_set (t1_id t) t d) (ap_changed st) [])) @
       (case run of None \<Rightarrow> [] | Some r \<Rightarrow> [save_run1 r])) (ap_events st)"

definition apply_skip1 ::
  "'e ports1 \<Rightarrow> datetime \<Rightarrow> string \<Rightarrow> string \<times> v1_skip_reason \<Rightarrow> applied1 \<Rightarrow> ('e engine1, applied1) act" where
  "apply_skip1 P finished_at failed decision st = (case decision of (k, reason) \<Rightarrow>
     bindA (liftR (key_lookup (ap_tasks st) k)) (\<lambda>t.
     bindA (liftR (skip_task1 reason finished_at t)) (\<lambda>t.
     bindA (new_event1 P v1_event_type.TASK_SKIPPED finished_at (Some (t1_id t, t1_task_id t)) None
       (recovery_payload ''reconciliation'' @ [(''reason'', PyStr (skip1_value reason)), (''failed_task_id'', PyStr failed)])
       (ap_factory st)) (\<lambda>(e, ef).
     ret (st\<lparr>ap_tasks := dict_set k t (ap_tasks st), ap_changed := ap_changed st @ [t],
       ap_events := ap_events st @ [e], ap_factory := ef\<rparr>)))))"

definition apply_failure1 ::
  "'e ports1 \<Rightarrow> v1_run \<Rightarrow> v1_graph \<Rightarrow> string list \<Rightarrow> v1_task_run \<Rightarrow> applied1 \<Rightarrow> ('e engine1, unit) act" where
  "apply_failure1 P run g plan_ids failed st = (case t1_finished_at failed of
     None \<Rightarrow> raise (resume_error1 (r1_id run) ''reconciled failure is missing finished_at'')
   | Some finished_at \<Rightarrow>
       bindA (liftR (plan_fail_fast1 (t1_task_id failed) g (ap_tasks st) plan_ids)) (\<lambda>decisions.
       bindA (foldA (apply_skip1 P finished_at (t1_task_id failed)) decisions st) (\<lambda>st.
       bindA (liftR (fail_run1 finished_at run)) (\<lambda>run.
       bindA (new_event1 P v1_event_type.WORKFLOW_FAILED finished_at None None
         (recovery_payload ''reconciliation'' @ [(''failed_task_id'', PyStr (t1_task_id failed))]) (ap_factory st)) (\<lambda>(e, ef).
       persist_applied1 P (Some run) (st\<lparr>ap_events := ap_events st @ [e], ap_factory := ef\<rparr>))))))"

definition apply_cancel1 :: "datetime \<Rightarrow> string \<times> v1_task_run \<Rightarrow> applied1 \<Rightarrow> applied1 result" where
  "apply_cancel1 finished_at entry st = (case entry of (k, t) \<Rightarrow>
     if t1_status t \<in> {T1_PENDING, T1_READY}
     then bindR (cancel_task1 finished_at t) (\<lambda>t. Inr (st\<lparr>ap_changed := ap_changed st @ [t]\<rparr>)) else Inr st)"

definition apply_cancellation1 :: "'e ports1 \<Rightarrow> v1_run \<Rightarrow> applied1 \<Rightarrow> ('e engine1, unit) act" where
  "apply_cancellation1 P run st =
     bindA (now1 P) (\<lambda>finished_at.
     bindA (liftR (foldR (apply_cancel1 finished_at) (ap_tasks st) st)) (\<lambda>st.
     bindA (liftR (cancel_run1 finished_at run)) (\<lambda>run.
     bindA (new_event1 P v1_event_type.WORKFLOW_CANCELLED finished_at None None (recovery_payload ''reconciliation'')
       (ap_factory st)) (\<lambda>(e, ef).
     persist_applied1 P (Some run) (st\<lparr>ap_events := ap_events st @ [e], ap_factory := ef\<rparr>)))))"

definition apply_report1 ::
  "'e ports1 \<Rightarrow> v1_run \<Rightarrow> report1 \<Rightarrow> v1_graph \<Rightarrow> string list \<Rightarrow> task_runs1 \<Rightarrow> event_factory1 \<Rightarrow>
   ('e engine1, bool \<times> event_factory1) act" where
  \<comment> \<open>\<open>_apply_resume_reconciliation\<close>, with the event factory it leaves behind.\<close>
  "apply_report1 P run report g plan_ids tasks ef =
     (if rep1_tasks report = [] then ret (False, ef)
      else let has = (\<lambda>d. list_ex (\<lambda>x. tk1_disposition x = d) (rep1_tasks report)) in
        thenA (requireA (\<not> (has DI1_CONFIRMED_FAILED \<and> has DI1_CONFIRMED_CANCELLED))
          (resume_error1 (r1_id run) ''reconciliation contains conflicting FAILED and CANCELLED outcomes''))
       (bindA (foldA (apply_item1 P (r1_id run)) (rep1_tasks report) \<lparr>ap_tasks = tasks, ap_attempts = [], ap_changed = [],
          ap_events = [], ap_factory = ef, ap_failed = None\<rparr>) (\<lambda>st.
        case ap_failed st of
          Some failed \<Rightarrow> thenA (apply_failure1 P run g plan_ids failed st) (ret (True, ap_factory st))
        | None \<Rightarrow>
            (if has DI1_CONFIRMED_CANCELLED then thenA (apply_cancellation1 P run st) (ret (True, ap_factory st))
             else thenA (persist_applied1 P None st) (ret (False, ap_factory st))))))"

section \<open>Continuing\<close>

fun ready_dependencies1 :: "string \<Rightarrow> string \<Rightarrow> task_runs1 \<Rightarrow> string list \<Rightarrow> unit result" where
  \<comment> \<open>\<open>_validate_ready_task_dependencies_for_resume\<close>\<close>
  "ready_dependencies1 run_id k tasks [] = Inr ()"
| "ready_dependencies1 run_id k tasks (u # us) =
     (let refuse = (\<lambda>status. Inl (resume_error1 run_id (''READY task '' @ py_quote k @ '' has dependency '' @ py_quote u @
            '' in status '' @ status))) in
      case dict_get tasks u of
        None \<Rightarrow> refuse ''missing''
      | Some t \<Rightarrow> (if t1_status t \<noteq> T1_SUCCEEDED then refuse (task1_value (t1_status t))
          else ready_dependencies1 run_id k tasks us))"

definition resumed_output1 ::
  "v1_store \<Rightarrow> string \<Rightarrow> string \<Rightarrow> task_runs1 \<Rightarrow> (string, pyval) dict \<Rightarrow> string \<Rightarrow> (string \<times> pyval) result" where
  "resumed_output1 s run_id k tasks outputs u = (case dict_get outputs u of
     Some v \<Rightarrow> Inr (u, v)
   | None \<Rightarrow>
       bindR (key_lookup tasks u) (\<lambda>t.
       thenR (require (t1_status t = T1_SUCCEEDED) (resume_error1 run_id (''dependency '' @ py_quote u @ '' for task '' @
         py_quote k @ '' is '' @ task1_value (t1_status t) @ '', expected SUCCEEDED'')))
      (case get_output1 s (t1_id t) of
         Inl e \<Rightarrow> Inl (resume_error1 run_id (''dependency '' @ py_quote u @ '' has no durable output checkpoint''))
       | Inr v \<Rightarrow> Inr (u, v))))"

definition resumed_outputs1 ::
  "v1_store \<Rightarrow> string \<Rightarrow> string \<Rightarrow> v1_graph \<Rightarrow> task_runs1 \<Rightarrow> (string, pyval) dict \<Rightarrow> (string, pyval) dict result" where
  \<comment> \<open>\<open>_dependency_outputs_for_resume\<close>; \<open>get_task_output_checkpoint\<close> only raises \<open>MetadataNotFoundError\<close>.\<close>
  "resumed_outputs1 s run_id k g tasks outputs =
     bindR (upstream_of g k) (mapR (resumed_output1 s run_id k tasks outputs))"

definition next_number1 :: "v1_attempt list \<Rightarrow> int" where
  "next_number1 attempts = (case map a1_number attempts of [] \<Rightarrow> 0 | n # ns \<Rightarrow> fold max ns n) + 1"

definition resumable1 ::
  "'e ports1 \<Rightarrow> string \<Rightarrow> string \<Rightarrow> v1_graph \<Rightarrow> task_runs1 \<Rightarrow> v1_task_run \<Rightarrow> v1_attempt option \<Rightarrow> ('e engine1, unit) act" where
  \<comment> \<open>The checks on the status of a task before it is continued.\<close>
  "resumable1 P run_id k g persisted t scheduled =
     thenA (requireA (t1_status t \<in> {T1_PENDING, T1_READY} \<or> t1_status t = T1_RUNNING \<and> scheduled \<noteq> None)
       (resume_error1 run_id (''task '' @ py_quote k @ '' remains in non-resumable status '' @ task1_value (t1_status t))))
    (case (t1_status t, scheduled) of
       (T1_RUNNING, Some a) \<Rightarrow> (case a1_retry_eligible_at a of
           None \<Rightarrow> raise (resume_error1 run_id (''task '' @ py_quote k @ '' retry wait is missing retry_eligible_at''))
         | Some eligible_at \<Rightarrow> bindA (now1 P) (\<lambda>at_time. requireA (\<not> at_time < eligible_at)
             (resume_error1 run_id (''task '' @ py_quote k @ '' retry is not eligible until '' @ po_isoformat P eligible_at))))
     | (T1_PENDING, _) \<Rightarrow>
         bindA (liftR (is_ready1 g persisted t)) (\<lambda>ready. requireA ready
           (resume_error1 run_id (''task '' @ py_quote k @ '' is not runtime-ready during resume'')))
     | _ \<Rightarrow> bindA (liftR (upstream_of g (t1_task_id t))) (\<lambda>ups.
         liftR (ready_dependencies1 run_id (t1_task_id t) persisted ups)))"

definition resume_planned1 ::
  "'e ports1 \<Rightarrow> prepared1 \<Rightarrow> v1_run \<Rightarrow> string \<Rightarrow> event_factory1 \<times> (string, pyval) dict \<Rightarrow>
   ('e engine1, event_factory1 \<times> (string, pyval) dict) act" where
  \<comment> \<open>One round of the loop over \<open>plan.task_ids\<close>.\<close>
  "resume_planned1 P pr run k p = (case p of (ef, outputs) \<Rightarrow>
     bindA (load_task_runs1 run) (\<lambda>persisted.
     bindA (liftR (key_lookup persisted k)) (\<lambda>t.
     if t1_status t = T1_SUCCEEDED then ret (ef, outputs)
     else
       bindA (gets en_store) (\<lambda>s.
       bindA (liftR (list_attempts1 s (t1_id t))) (\<lambda>attempts.
       thenA (resumable1 P (r1_id run) k (pr_graph pr) persisted t (pending_retry1 attempts))
      (bindA (gets en_store) (\<lambda>s.
       bindA (liftR (resumed_outputs1 s (r1_id run) k (pr_graph pr) persisted outputs)) (\<lambda>deps.
       bindA (if t1_status t = T1_PENDING then
           bindA (now1 P) (\<lambda>ready_at.
           bindA (liftR (mark_ready1 t)) (\<lambda>t.
           bindA (new_event1 P v1_event_type.TASK_READY ready_at (Some (t1_id t, k)) None (recovery_payload ''resume'') ef) (\<lambda>(e, ef).
           thenA (persist_task1 P t e) (ret (t, ef)))))
         else ret (t, ef)) (\<lambda>(t, ef).
       bindA (now1 P) (\<lambda>started_at.
       bindA (if t1_status t = T1_RUNNING then ret t else liftR (start_task1 started_at t)) (\<lambda>t.
       bindA (new_attempt1 P t (next_number1 attempts) started_at) (\<lambda>a.
       bindA (new_event1 P v1_event_type.TASK_STARTED started_at (Some (t1_id t, k)) (Some (next_number1 attempts))
         (recovery_payload ''resume'') ef) (\<lambda>(e, ef).
       thenA (persist_start1 P t a e)
      (bindA (liftR (key_lookup (pr_definitions pr) k)) (\<lambda>td.
       bindA (liftR (key_lookup (pr_handlers pr) k)) (\<lambda>h.
       bindA (load_task_runs1 run) (\<lambda>tasks.
       bindA (execute_with_retry1 (attempt_fuel1 td (next_number1 attempts)) P \<lparr>fr_run = run, fr_task = td, fr_handler = h,
         fr_parameters = pr_parameters pr, fr_outputs = deps, fr_graph = pr_graph pr,
         fr_plan_ids = pr_plan_ids pr, fr_tasks = tasks\<rparr> t a ef) (\<lambda>(result, t, ef).
       ret (ef, dict_set k (res1_output result) outputs)))))))))))))))))))"

definition resume_tasks1 :: "v1_store \<Rightarrow> task_runs1 \<Rightarrow> string list \<Rightarrow> string list result" where
  \<comment> \<open>\<open>execution_task_ids\<close>\<close>
  "resume_tasks1 s tasks plan_ids =
     bindR (mapR (\<lambda>(k, t). if t1_status t = T1_RUNNING
         then bindR (list_attempts1 s (t1_id t)) (\<lambda>ats. Inr (k, pending_retry1 ats \<noteq> None)) else Inr (k, False)) tasks) (\<lambda>waiting.
     bindR (mapR (\<lambda>k. bindR (key_lookup tasks k) (\<lambda>t.
         Inr (k, t1_status t \<in> {T1_PENDING, T1_READY} \<or> (k, True) \<in> set waiting))) plan_ids) (\<lambda>chosen.
     Inr (map fst (filter snd chosen))))"

definition resume_preflight1 :: "'e ports1 \<Rightarrow> handlers1 \<Rightarrow> v1_workflow \<Rightarrow> string list \<Rightarrow> handlers1 result" where
  \<comment> \<open>\<open>_preflight_resume_handlers\<close> and \<open>_validate_resume_timeout_capabilities\<close>\<close>
  "resume_preflight1 P registry w ids =
     (let selected = filter (\<lambda>t. td1_id t \<in> set ids) (wd1_tasks w) in
      bindR (foldR (preflight_handler1 P registry ''resume'') selected []) (\<lambda>hs.
      thenR (forR selected (check_timeout1 P)) (Inr hs)))"

definition resume_checks1 :: "v1_workflow \<Rightarrow> v1_run \<Rightarrow> string \<Rightarrow> report1 \<Rightarrow> unit result" where
  "resume_checks1 w run run_id report =
     thenR (require (r1_workflow_id run = wd1_id w \<and> r1_version run = wd1_version w)
       (resume_error1 run_id ''workflow identity/version does not match persisted run''))
    (thenR (require (r1_status run = W1_RUNNING) (resume_error1 run_id
       (''persisted workflow status is '' @ run1_value (r1_status run) @ '', expected RUNNING'')))
    (thenR (require (rep1_run_id report = run_id)
       (resume_error1 run_id ''reconciliation report belongs to another workflow run''))
    (thenR (require (\<not> requires_manual1 report) (resume_error1 run_id ''reconciliation requires manual action''))
    (require (\<not> has_still_running1 report) (resume_error1 run_id ''external work is still running'')))))"

definition next_sequence1 :: "v1_event list \<Rightarrow> int" where
  "next_sequence1 events = (case map (\<lambda>e. case e1_sequence e of None \<Rightarrow> 0 | Some n \<Rightarrow> n) events of
     [] \<Rightarrow> 0 | n # ns \<Rightarrow> fold max ns n) + 1"

definition resume1 ::
  "'e ports1 \<Rightarrow> handlers1 \<Rightarrow> v1_workflow \<Rightarrow> string \<Rightarrow> report1 \<Rightarrow> ('e engine1, v1_run) act" where
  "resume1 P registry w run_id report =
     bindA (liftR (build_graph1 w)) (\<lambda>g.
     thenA (liftR (validate_graph1 w g))
    (bindA (liftR (build_plan1 w g)) (\<lambda>plan.
     bindA (gets en_store) (\<lambda>s.
     bindA (liftR (get_run1 s run_id)) (\<lambda>run.
     thenA (liftR (resume_checks1 w run run_id report))
    (bindA (liftR (resolve_parameters1 w (r1_parameters run))) (\<lambda>params.
     bindA (load_task_runs1 run) (\<lambda>tasks.
     thenA (requireA (fst ` set tasks = set (pl1_task_ids plan))
       (resume_error1 run_id ''persisted TaskRun set does not match workflow definition''))
    (bindA (liftR (mk_event_factory1 run_id (next_sequence1 (list_events1 s run_id)))) (\<lambda>ef.
     bindA (apply_report1 P run report g (pl1_task_ids plan) tasks ef) (\<lambda>(settled, ef).
     if settled then bindA (gets en_store) (\<lambda>s. liftR (get_run1 s run_id))
     else
       bindA (load_task_runs1 run) (\<lambda>tasks.
       bindA (gets en_store) (\<lambda>s.
       bindA (liftR (resume_tasks1 s tasks (pl1_task_ids plan))) (\<lambda>ids.
       bindA (liftR (resume_preflight1 P registry w ids)) (\<lambda>hs.
       bindA (foldA (resume_planned1 P \<lparr>pr_graph = g, pr_plan_ids = pl1_task_ids plan, pr_parameters = params,
           pr_handlers = hs, pr_definitions = map (\<lambda>t. (td1_id t, t)) (wd1_tasks w)\<rparr> run)
         (pl1_task_ids plan) (ef, [])) (\<lambda>(ef, outputs).
       bindA (load_task_runs1 run) (\<lambda>final.
       thenA (requireA (\<forall>t \<in> set (dict_values final). t1_status t = T1_SUCCEEDED)
         (resume_error1 run_id ''resume exhausted execution plan before all tasks succeeded''))
         (finish_workflow1 P run (recovery_payload ''resume'') ef))))))))))))))))))"

end
