(* ===== verification/V1_View.thy ===== *)
theory V1_View
  imports V1_Graph V1_Store
begin

text \<open>
  The part of a store that belongs to one run, seen through what the runner holds in memory: the
  run, the dictionary of its task runs by task id, and the next event sequence number.  Every write
  of the runner that meets the stated conditions succeeds, and the view after it is the expected one.
\<close>

definition ids_of :: "v1_store \<Rightarrow> string set" where
  \<comment> \<open>Every identifier that occurs in the store, as a key or as a reference.\<close>
  "ids_of s = fst ` set (s1_runs s) \<union> fst ` set (s1_tasks s) \<union> fst ` set (s1_attempts s) \<union>
     fst ` set (s1_events s) \<union> fst ` set (s1_artifacts s) \<union> fst ` set (s1_externals s) \<union>
     (t1_run_id \<circ> snd) ` set (s1_tasks s) \<union> (a1_task_run_id \<circ> snd) ` set (s1_attempts s)"

definition attempts_below :: "v1_store \<Rightarrow> string \<Rightarrow> int \<Rightarrow> bool" where
  \<comment> \<open>No attempt of the task run has a number above the bound.\<close>
  "attempts_below s i n \<longleftrightarrow> (\<forall>j a. dict_get (s1_attempts s) j = Some a \<longrightarrow> a1_task_run_id a = i \<longrightarrow> a1_number a \<le> n)"

definition run_view :: "v1_store \<Rightarrow> v1_run \<Rightarrow> task_runs1 \<Rightarrow> int \<Rightarrow> bool" where
  "run_view s run tasks n \<longleftrightarrow> store1_ok s \<and> dict_get (s1_runs s) (r1_id run) = Some run \<and> dict_ok tasks \<and>
     (\<forall>k t. (k, t) \<in> set tasks \<longleftrightarrow>
        t1_task_id t = k \<and> t1_run_id t = r1_id run \<and> dict_get (s1_tasks s) (t1_id t) = Some t) \<and>
     (\<forall>(k, t) \<in> set tasks.
        (t1_status t \<in> {T1_PENDING, T1_READY} \<longrightarrow> attempts_below s (t1_id t) 0) \<and>
        (t1_status t \<noteq> T1_SUCCEEDED \<longrightarrow> \<not> dict_has (s1_outputs s) (t1_id t))) \<and>
     1 \<le> n \<and> sequences1 s (r1_id run) = [1..n - 1]"

lemma dict_set_subset: "set (dict_set k v d) \<subseteq> insert (k, v) (set d)"
  unfolding dict_set_def by (induction d) auto

lemma ids_of_simps [simp]:
  "ids_of (s\<lparr>s1_runs := dict_set i r (s1_runs s)\<rparr>) = insert i (ids_of s)"
  "ids_of (s\<lparr>s1_events := dict_set i e (s1_events s)\<rparr>) = insert i (ids_of s)"
  "ids_of (s\<lparr>s1_artifacts := dict_set i x (s1_artifacts s)\<rparr>) = insert i (ids_of s)"
  "ids_of (s\<lparr>s1_externals := dict_set i y (s1_externals s)\<rparr>) = insert i (ids_of s)"
  "ids_of (s\<lparr>s1_outputs := d\<rparr>) = ids_of s"
  by (auto simp: ids_of_def dict_set_keys)

lemma ids_of_task: "ids_of (s\<lparr>s1_tasks := dict_set i t (s1_tasks s)\<rparr>) \<subseteq> insert i (insert (t1_run_id t) (ids_of s))"
  using dict_set_subset [of i t "s1_tasks s"] by (auto simp: ids_of_def dict_set_keys)

lemma ids_of_attempt:
  "ids_of (s\<lparr>s1_attempts := dict_set i a (s1_attempts s)\<rparr>) \<subseteq> insert i (insert (a1_task_run_id a) (ids_of s))"
  using dict_set_subset [of i a "s1_attempts s"] by (auto simp: ids_of_def dict_set_keys)

lemma stored_key: "dict_get d i = Some x \<Longrightarrow> i \<in> fst ` set d"
  by (metis dict_has_iff)

lemma stored_ids:
  "dict_get (s1_runs s) i = Some r \<Longrightarrow> i \<in> ids_of s" "dict_get (s1_tasks s) i = Some t \<Longrightarrow> i \<in> ids_of s"
  "dict_get (s1_attempts s) i = Some a \<Longrightarrow> i \<in> ids_of s"
  by (simp_all add: ids_of_def stored_key)

lemma stored_references:
  "dict_get (s1_tasks s) i = Some t \<Longrightarrow> t1_run_id t \<in> ids_of s"
  "dict_get (s1_attempts s) i = Some a \<Longrightarrow> a1_task_run_id a \<in> ids_of s"
proof -
  assume "dict_get (s1_tasks s) i = Some t"
  then have "(i, t) \<in> set (s1_tasks s)" by (rule map_of_SomeD)
  then have "t1_run_id t \<in> (t1_run_id \<circ> snd) ` set (s1_tasks s)" by (rule rev_image_eqI) simp
  then show "t1_run_id t \<in> ids_of s" by (simp only: ids_of_def Un_iff simp_thms)
next
  assume "dict_get (s1_attempts s) i = Some a"
  then have "(i, a) \<in> set (s1_attempts s)" by (rule map_of_SomeD)
  then have "a1_task_run_id a \<in> (a1_task_run_id \<circ> snd) ` set (s1_attempts s)" by (rule rev_image_eqI) simp
  then show "a1_task_run_id a \<in> ids_of s" by (simp only: ids_of_def Un_iff simp_thms)
qed

lemma store1_okD:
  assumes "store1_ok s"
  shows "dict_get (s1_runs s) i = Some r \<Longrightarrow> r1_id r = i \<and> valid_run1 r"
    and "dict_get (s1_tasks s) i = Some t \<Longrightarrow> t1_id t = i \<and> valid_task1 t"
    and "dict_get (s1_attempts s) i = Some a \<Longrightarrow> a1_id a = i \<and> valid_attempt1 a"
  using assms keyed_get [of r1_id valid_run1 "s1_runs s" i r] keyed_get [of t1_id valid_task1 "s1_tasks s" i t]
    keyed_get [of a1_id valid_attempt1 "s1_attempts s" i a] by (simp_all add: store1_ok_def)

lemma keyed_member:
  assumes "keyed key valid d"
  shows "a \<in> set (dict_values d) \<longleftrightarrow> dict_get d (key a) = Some a"
proof
  assume "a \<in> set (dict_values d)"
  then obtain k where "(k, a) \<in> set d" by (auto simp: dict_values_def)
  moreover from this have "key a = k" using assms by (auto simp: keyed_def)
  ultimately show "dict_get d (key a) = Some a" using keyed_ok [OF assms] by (simp add: dict_get_iff)
next
  assume "dict_get d (key a) = Some a"
  then show "a \<in> set (dict_values d)" by (force simp: dict_values_def dest: map_of_SomeD)
qed

lemma stored_member: "store1_ok s \<Longrightarrow> a \<in> set (dict_values (s1_attempts s)) \<longleftrightarrow> dict_get (s1_attempts s) (a1_id a) = Some a"
  by (rule keyed_member [where valid = valid_attempt1]) (simp add: store1_ok_def)

lemma clone_store1_ok: "store1_ok s \<Longrightarrow> clone_store1 s = Inr s"
proof -
  assume ok: "store1_ok s"
  have "forR (dict_values (s1_runs s)) run1_post_init = Inr ()"
    unfolding forR_Inr_iff
  proof
    fix r assume "r \<in> set (dict_values (s1_runs s))"
    then have "valid_run1 r" using ok by (auto simp: store1_ok_def keyed_def dict_values_def)
    then have "mk_run1 r = Inr r" by (simp add: mk_run1_Inr)
    then show "run1_post_init r = Inr ()" by (auto simp: mk_run1_def thenR_Inr_iff)
  qed
  moreover have "forR (dict_values (s1_tasks s)) task1_post_init = Inr ()"
    unfolding forR_Inr_iff
  proof
    fix t assume "t \<in> set (dict_values (s1_tasks s))"
    then have "valid_task1 t" using ok by (auto simp: store1_ok_def keyed_def dict_values_def)
    then have "mk_task_run1 t = Inr t" by (simp add: mk_task_run1_Inr)
    then show "task1_post_init t = Inr ()" by (auto simp: mk_task_run1_def thenR_Inr_iff)
  qed
  moreover have "forR (dict_values (s1_attempts s)) attempt1_post_init = Inr ()"
    unfolding forR_Inr_iff
  proof
    fix a assume "a \<in> set (dict_values (s1_attempts s))"
    then have "valid_attempt1 a" using ok by (auto simp: store1_ok_def keyed_def dict_values_def)
    then have "mk_attempt1 a = Inr a" by (simp add: mk_attempt1_Inr)
    then show "attempt1_post_init a = Inr ()" by (auto simp: mk_attempt1_def thenR_Inr_iff)
  qed
  ultimately show ?thesis by (simp add: clone_store1_def)
qed

lemma viewD:
  assumes "run_view s run tasks n"
  shows "store1_ok s" "dict_get (s1_runs s) (r1_id run) = Some run" "dict_ok tasks" "1 \<le> n"
    "sequences1 s (r1_id run) = [1..n - 1]" "valid_run1 run"
    "(k, t) \<in> set tasks \<Longrightarrow> t1_task_id t = k \<and> t1_run_id t = r1_id run \<and> dict_get (s1_tasks s) (t1_id t) = Some t \<and> valid_task1 t"
    "(k, t) \<in> set tasks \<Longrightarrow> t1_status t \<in> {T1_PENDING, T1_READY} \<Longrightarrow> attempts_below s (t1_id t) 0"
    "(k, t) \<in> set tasks \<Longrightarrow> t1_status t \<noteq> T1_SUCCEEDED \<Longrightarrow> \<not> dict_has (s1_outputs s) (t1_id t)"
proof -
  show ok: "store1_ok s" and r: "dict_get (s1_runs s) (r1_id run) = Some run" and "dict_ok tasks" "1 \<le> n"
    "sequences1 s (r1_id run) = [1..n - 1]"
    using assms by (simp_all add: run_view_def)
  show "valid_run1 run" using store1_okD(1) [OF ok r] by simp
  have entry: "\<forall>k t. (k, t) \<in> set tasks \<longleftrightarrow>
      t1_task_id t = k \<and> t1_run_id t = r1_id run \<and> dict_get (s1_tasks s) (t1_id t) = Some t"
    using assms by (simp add: run_view_def)
  show "(k, t) \<in> set tasks \<Longrightarrow> t1_task_id t = k \<and> t1_run_id t = r1_id run \<and>
      dict_get (s1_tasks s) (t1_id t) = Some t \<and> valid_task1 t"
    using entry store1_okD(2) [OF ok, of "t1_id t" t] by blast
  have rest: "\<forall>(k, t) \<in> set tasks. (t1_status t \<in> {T1_PENDING, T1_READY} \<longrightarrow> attempts_below s (t1_id t) 0) \<and>
        (t1_status t \<noteq> T1_SUCCEEDED \<longrightarrow> \<not> dict_has (s1_outputs s) (t1_id t))"
    using assms unfolding run_view_def by blast
  show "(k, t) \<in> set tasks \<Longrightarrow> t1_status t \<in> {T1_PENDING, T1_READY} \<Longrightarrow> attempts_below s (t1_id t) 0"
    "(k, t) \<in> set tasks \<Longrightarrow> t1_status t \<noteq> T1_SUCCEEDED \<Longrightarrow> \<not> dict_has (s1_outputs s) (t1_id t)"
    using rest by blast+
qed

lemma run_viewI:
  assumes "store1_ok s" "dict_get (s1_runs s) (r1_id run) = Some run" "dict_ok tasks"
    and "\<And>k t. (k, t) \<in> set tasks \<longleftrightarrow>
      t1_task_id t = k \<and> t1_run_id t = r1_id run \<and> dict_get (s1_tasks s) (t1_id t) = Some t"
    and "\<And>k t. (k, t) \<in> set tasks \<Longrightarrow> (t1_status t \<in> {T1_PENDING, T1_READY} \<longrightarrow> attempts_below s (t1_id t) 0) \<and>
      (t1_status t \<noteq> T1_SUCCEEDED \<longrightarrow> \<not> dict_has (s1_outputs s) (t1_id t))"
    and "1 \<le> n" "sequences1 s (r1_id run) = [1..n - 1]"
  shows "run_view s run tasks n"
  unfolding run_view_def using assms by blast

lemma view_entry:
  "run_view s run tasks n \<Longrightarrow> dict_get tasks k = Some t \<longleftrightarrow> (k, t) \<in> set tasks"
  by (simp add: run_view_def dict_get_iff)

text \<open>Distinct tasks have distinct task runs.\<close>

lemma view_inj:
  assumes "run_view s run tasks n" "(k, t) \<in> set tasks" "(j, u) \<in> set tasks" "t1_id t = t1_id u"
  shows "k = j \<and> t = u"
proof -
  have "Some t = Some u" using viewD(7) [OF assms(1,2)] viewD(7) [OF assms(1,3)] assms(4) by metis
  then show ?thesis using viewD(7) [OF assms(1,2)] viewD(7) [OF assms(1,3)] by simp
qed

section \<open>Writes\<close>

lemma view_save_run:
  assumes v: "run_view s run tasks n" and "valid_run1 run'" "r1_id run' = r1_id run"
  shows "save_run1 run' s = Inr (s\<lparr>s1_runs := dict_set (r1_id run') run' (s1_runs s)\<rparr>)"
    and "run_view (s\<lparr>s1_runs := dict_set (r1_id run') run' (s1_runs s)\<rparr>) run' tasks n"
proof -
  have "dict_has (s1_runs s) (r1_id run')" using viewD(2) [OF v] assms(3) by (auto simp: dict_has_iff)
  then show eq: "save_run1 run' s = Inr (s\<lparr>s1_runs := dict_set (r1_id run') run' (s1_runs s)\<rparr>)"
    using assms(2) mk_run1_Inr [of run' run'] by (simp add: save_run1_def known1_id_def require_def)
  have "store1_ok (s\<lparr>s1_runs := dict_set (r1_id run') run' (s1_runs s)\<rparr>)"
    by (rule v1_write_ok [OF v1_write.intros(2) [OF eq] viewD(1) [OF v]])
  then show "run_view (s\<lparr>s1_runs := dict_set (r1_id run') run' (s1_runs s)\<rparr>) run' tasks n"
    using v assms(3) by (simp add: run_view_def attempts_below_def sequences1_def dict_get_set)
qed

lemma view_save_task:
  assumes v: "run_view s run tasks n" and k: "(k, t) \<in> set tasks" and "valid_task1 t'"
    and same: "t1_id t' = t1_id t" "t1_run_id t' = t1_run_id t" "t1_task_id t' = t1_task_id t"
    and "t1_status t' \<in> {T1_PENDING, T1_READY} \<Longrightarrow> t1_status t \<in> {T1_PENDING, T1_READY}"
    and "t1_status t' \<noteq> T1_SUCCEEDED \<Longrightarrow> t1_status t \<noteq> T1_SUCCEEDED"
  shows "save_task1 t' s = Inr (s\<lparr>s1_tasks := dict_set (t1_id t') t' (s1_tasks s)\<rparr>)"
    and "run_view (s\<lparr>s1_tasks := dict_set (t1_id t') t' (s1_tasks s)\<rparr>) run (dict_set k t' tasks) n"
    and "ids_of (s\<lparr>s1_tasks := dict_set (t1_id t') t' (s1_tasks s)\<rparr>) \<subseteq> ids_of s"
proof -
  let ?s = "s\<lparr>s1_tasks := dict_set (t1_id t') t' (s1_tasks s)\<rparr>"
  note t = viewD(7) [OF v k]
  show "ids_of ?s \<subseteq> ids_of s"
    using ids_of_task [where s = s and i = "t1_id t'" and t = t'] stored_ids(1) [OF viewD(2) [OF v]] stored_ids(2) [where s = s and i = "t1_id t" and t = t] t same by auto
  have "dict_has (s1_tasks s) (t1_id t')" using t same(1) by (auto simp: dict_has_iff)
  then show eq: "save_task1 t' s = Inr ?s"
    using assms(3) mk_task_run1_Inr [of t' t'] by (simp add: save_task1_def known1_id_def require_def)
  have ok: "store1_ok ?s" by (rule v1_write_ok [OF v1_write.intros(4) [OF eq] viewD(1) [OF v]])
  have members: "(j, u) \<in> set (dict_set k t' tasks) \<longleftrightarrow> (j, u) = (k, t') \<or> j \<noteq> k \<and> (j, u) \<in> set tasks" for j u
    using viewD(3) [OF v] by (auto simp: dict_set_set)
  have entry: "(j, u) \<in> set (dict_set k t' tasks) \<longleftrightarrow> t1_task_id u = j \<and> t1_run_id u = r1_id run \<and>
      dict_get (s1_tasks ?s) (t1_id u) = Some u" for j u
  proof (cases "t1_id u = t1_id t")
    case True
    then have "(j, u) \<notin> set tasks \<or> j = k" using view_inj [OF v k] by metis
    then show ?thesis using True t same by (auto simp: members dict_get_set)
  next
    case False
    moreover have "(j, u) \<in> set tasks \<longrightarrow> j \<noteq> k"
      using False k viewD(3) [OF v] by (metis dict_get_iff option.inject)
    ultimately show ?thesis using v same(1) by (auto simp: members dict_get_set run_view_def)
  qed
  have "(t1_status u \<in> {T1_PENDING, T1_READY} \<longrightarrow> attempts_below ?s (t1_id u) 0) \<and>
      (t1_status u \<noteq> T1_SUCCEEDED \<longrightarrow> \<not> dict_has (s1_outputs ?s) (t1_id u))"
    if "(j, u) \<in> set (dict_set k t' tasks)" for j u
  proof (cases "(j, u) = (k, t')")
    case True
    then show ?thesis using viewD(8,9) [OF v k] same(1) assms(7,8) by (auto simp: attempts_below_def)
  next
    case False
    then have "(j, u) \<in> set tasks" using that members by blast
    then show ?thesis using viewD(8,9) [OF v, of j u] by (auto simp: attempts_below_def)
  qed
  then show "run_view ?s run (dict_set k t' tasks) n"
    using viewD(2-5) [OF v] by (intro run_viewI ok entry) (simp_all add: sequences1_def)
qed

lemma view_add_attempt:
  assumes v: "run_view s run tasks n" and k: "(k, t) \<in> set tasks" and "valid_attempt1 a"
    and own: "a1_task_run_id a = t1_id t" and fresh: "a1_id a \<notin> ids_of s"
    and below: "attempts_below s (t1_id t) (a1_number a - 1)" and started: "t1_status t \<notin> {T1_PENDING, T1_READY}"
  shows "add_attempt1 a s = Inr (s\<lparr>s1_attempts := dict_set (a1_id a) a (s1_attempts s)\<rparr>)"
    and "run_view (s\<lparr>s1_attempts := dict_set (a1_id a) a (s1_attempts s)\<rparr>) run tasks n"
    and "attempts_below (s\<lparr>s1_attempts := dict_set (a1_id a) a (s1_attempts s)\<rparr>) (t1_id t) (a1_number a)"
    and "ids_of (s\<lparr>s1_attempts := dict_set (a1_id a) a (s1_attempts s)\<rparr>) \<subseteq> insert (a1_id a) (ids_of s)"
proof -
  let ?s = "s\<lparr>s1_attempts := dict_set (a1_id a) a (s1_attempts s)\<rparr>"
  note t = viewD(7) [OF v k] and ok = viewD(1) [OF v]
  show "ids_of ?s \<subseteq> insert (a1_id a) (ids_of s)"
    using ids_of_attempt [where s = s and i = "a1_id a" and a = a] stored_ids(2) [where s = s and i = "t1_id t" and t = t] t own by auto
  have "\<not> dict_has (s1_attempts s) (a1_id a)" using fresh by (simp add: ids_of_def)
  moreover have "dict_has (s1_tasks s) (a1_task_run_id a)" using t own by (auto simp: dict_has_iff)
  moreover have "\<not> (a1_task_run_id b = a1_task_run_id a \<and> a1_number b = a1_number a)"
    if "b \<in> set (dict_values (s1_attempts s))" for b
  proof -
    have "dict_get (s1_attempts s) (a1_id b) = Some b" using that stored_member [OF ok] by simp
    then have "a1_task_run_id b = t1_id t \<longrightarrow> a1_number b \<le> a1_number a - 1"
      using below unfolding attempts_below_def by blast
    then show ?thesis using own by auto
  qed
  ultimately show eq: "add_attempt1 a s = Inr ?s"
    using assms(3) mk_attempt1_Inr [of a a]
    by (simp add: add_attempt1_def known1_id_def unused1_id_def require_def forR_Inr_iff thenR_Inr_iff)
  show "attempts_below ?s (t1_id t) (a1_number a)"
  proof (unfold attempts_below_def, intro allI impI)
    fix j b assume "dict_get (s1_attempts ?s) j = Some b" "a1_task_run_id b = t1_id t"
    then show "a1_number b \<le> a1_number a"
      using below [unfolded attempts_below_def, rule_format, of j b] by (auto simp: dict_get_set split: if_splits)
  qed
  have "attempts_below ?s (t1_id u) 0" if u: "(j, u) \<in> set tasks" "t1_status u \<in> {T1_PENDING, T1_READY}" for j u
  proof -
    have "t1_id u \<noteq> t1_id t" using view_inj [OF v u(1) k] u(2) started by auto
    then show ?thesis using viewD(8) [OF v u] own unfolding attempts_below_def by (simp add: dict_get_set)
  qed
  moreover have "store1_ok ?s" by (rule v1_write_ok [OF v1_write.intros(5) [OF eq] ok])
  ultimately show "run_view ?s run tasks n"
    using v unfolding run_view_def by (auto simp: sequences1_def)
qed

lemma attempts_below_save:
  assumes "dict_get (s1_attempts s) (a1_id a) = Some b" "a1_task_run_id a = a1_task_run_id b" "a1_number a = a1_number b"
    "attempts_below s i m"
  shows "attempts_below (s\<lparr>s1_attempts := dict_set (a1_id a) a (s1_attempts s)\<rparr>) i m"
  using assms unfolding attempts_below_def by (auto simp: dict_get_set)

lemma view_save_attempt:
  assumes v: "run_view s run tasks n" and b: "dict_get (s1_attempts s) (a1_id a) = Some b"
    and same: "a1_task_run_id a = a1_task_run_id b" "a1_number a = a1_number b" and "valid_attempt1 a"
  shows "save_attempt1 a s = Inr (s\<lparr>s1_attempts := dict_set (a1_id a) a (s1_attempts s)\<rparr>)"
    and "run_view (s\<lparr>s1_attempts := dict_set (a1_id a) a (s1_attempts s)\<rparr>) run tasks n"
    and "ids_of (s\<lparr>s1_attempts := dict_set (a1_id a) a (s1_attempts s)\<rparr>) \<subseteq> ids_of s"
proof -
  let ?s = "s\<lparr>s1_attempts := dict_set (a1_id a) a (s1_attempts s)\<rparr>"
  have "a1_task_run_id b \<in> ids_of s" using b by (rule stored_references)
  then show "ids_of ?s \<subseteq> ids_of s"
    using ids_of_attempt [where s = s and i = "a1_id a" and a = a] stored_ids(3) [OF b] same(1) by auto
  have "dict_has (s1_attempts s) (a1_id a)" using b by (auto simp: dict_has_iff)
  then show eq: "save_attempt1 a s = Inr ?s"
    using assms(5) mk_attempt1_Inr [of a a] by (simp add: save_attempt1_def known1_id_def require_def)
  have "store1_ok ?s" by (rule v1_write_ok [OF v1_write.intros(6) [OF eq] viewD(1) [OF v]])
  then show "run_view ?s run tasks n"
    using v attempts_below_save [OF b same] unfolding run_view_def by (auto simp: sequences1_def)
qed

lemma fold_max_upto: "previous_sequence s run = n - 1" if "sequences1 s run = [1..n - 1]" "1 \<le> n"
proof (cases "n = 1")
  case False
  then have "[1..n - 1] = 1 # [2..n - 1]" using that(2) by (simp add: upto_rec1)
  then have "previous_sequence s run = fold max [2..n - 1] 1" using that by (simp add: previous_sequence_def)
  also have "\<dots> = Max (set (1 # [2..n - 1]))" by (simp add: Max.set_eq_fold [symmetric])
  also have "set (1 # [2..n - 1]) = {1..n - 1}" using False that(2) by auto
  also have "Max {1..n - 1} = n - 1" by (rule Max_eqI) (use False that(2) in auto)
  finally show ?thesis .
qed (use that in \<open>simp add: previous_sequence_def\<close>)

lemma view_add_event:
  assumes v: "run_view s run tasks n" and "e1_run_id e = r1_id run" "e1_sequence e = Some n" "e1_id e \<notin> ids_of s"
  shows "add_event1 e s = Inr (s\<lparr>s1_events := dict_set (e1_id e) e (s1_events s)\<rparr>)"
    and "run_view (s\<lparr>s1_events := dict_set (e1_id e) e (s1_events s)\<rparr>) run tasks (n + 1)"
proof -
  let ?s = "s\<lparr>s1_events := dict_set (e1_id e) e (s1_events s)\<rparr>"
  have "dict_has (s1_runs s) (r1_id run)" using viewD(2) [OF v] by (auto simp: dict_has_iff)
  moreover have new: "\<not> dict_has (s1_events s) (e1_id e)" using assms(4) by (simp add: ids_of_def)
  ultimately show eq: "add_event1 e s = Inr ?s"
    using assms(2,3) fold_max_upto [OF viewD(5) [OF v] viewD(4) [OF v]]
    by (simp add: add_event1_def unused1_id_def known1_id_def require_def)
  have "store1_ok ?s" by (rule v1_write_ok [OF v1_write.intros(7) [OF eq] viewD(1) [OF v]])
  moreover have "sequences1 ?s (r1_id run) = [1..n + 1 - 1]"
    using new assms(2,3) viewD(4,5) [OF v] by (simp add: sequences1_def dict_set_fresh dict_values_def upto_rec2)
  ultimately show "run_view ?s run tasks (n + 1)"
    using v unfolding run_view_def attempts_below_def by auto
qed


lemma view_add_output:
  assumes v: "run_view s run tasks n" and k: "(k, t) \<in> set tasks" and "t1_status t = T1_SUCCEEDED"
    and free: "\<not> dict_has (s1_outputs s) (t1_id t)" and "normal_json j"
  shows "\<exists>u. add_output1 (t1_id t) (plain_json j) s = Inr u \<and> run_view u run tasks n \<and> ids_of u = ids_of s"
proof -
  let ?s = "s\<lparr>s1_outputs := dict_set (t1_id t) j (s1_outputs s)\<rparr>"
  have "dict_has (s1_tasks s) (t1_id t)" using viewD(7) [OF v k] by (auto simp: dict_has_iff)
  moreover have "portable1 (''task_output_checkpoint.'' @ t1_id t) (plain_json j) = Inr j"
    using roundtrip [OF assms(5)] by (simp add: portable1_Inr_iff)
  ultimately have eq: "add_output1 (t1_id t) (plain_json j) s = Inr ?s"
    using free by (simp add: add_output1_def known1_id_def unused1_id_def require_def)
  have "store1_ok ?s" by (rule v1_write_ok [OF v1_write.intros(8) [OF eq] viewD(1) [OF v]])
  moreover have "\<not> dict_has (s1_outputs ?s) (t1_id u)" if u: "(j', u) \<in> set tasks" "t1_status u \<noteq> T1_SUCCEEDED" for j' u
  proof -
    have "t1_id u \<noteq> t1_id t" using view_inj [OF v u(1) k] u(2) assms(3) by auto
    then show ?thesis using viewD(9) [OF v u] by (simp add: dict_set_keys)
  qed
  moreover have "attempts_below ?s i m = attempts_below s i m" for i m by (simp add: attempts_below_def)
  moreover have "(k, t) \<in> set tasks \<longleftrightarrow>
      t1_task_id t = k \<and> t1_run_id t = r1_id run \<and> dict_get (s1_tasks s) (t1_id t) = Some t" for k t
    using v unfolding run_view_def by blast
  ultimately have "run_view ?s run tasks n"
    using viewD(2-5,8) [OF v] by (intro run_viewI) (simp_all add: sequences1_def)
  then show ?thesis using eq by simp
qed

lemma view_add_artifact:
  assumes v: "run_view s run tasks n" and k: "(k, t) \<in> set tasks" and fresh: "ar1_id ar \<notin> ids_of s"
  shows "\<exists>u. add_artifact1 (t1_id t) ar s = Inr u \<and> run_view u run tasks n \<and> ids_of u = insert (ar1_id ar) (ids_of s) \<and>
    s1_outputs u = s1_outputs s"
proof -
  let ?s = "s\<lparr>s1_artifacts := dict_set (ar1_id ar) (t1_id t, ar) (s1_artifacts s)\<rparr>"
  have "dict_has (s1_tasks s) (t1_id t)" using viewD(7) [OF v k] by (auto simp: dict_has_iff)
  moreover have "\<not> dict_has (s1_artifacts s) (ar1_id ar)" using fresh by (simp add: ids_of_def)
  ultimately have eq: "add_artifact1 (t1_id t) ar s = Inr ?s"
    by (simp add: add_artifact1_def known1_id_def unused1_id_def require_def)
  have "store1_ok ?s" by (rule v1_write_ok [OF v1_write.intros(9) [OF eq] viewD(1) [OF v]])
  then have "run_view ?s run tasks n" using v by (simp add: run_view_def sequences1_def attempts_below_def)
  then show ?thesis using eq by simp
qed

lemma view_add_external:
  assumes v: "run_view s run tasks n" and k: "(k, t) \<in> set tasks" and fresh: "xr1_id x \<notin> ids_of s"
  shows "\<exists>u. add_external1 (t1_id t) x s = Inr u \<and> run_view u run tasks n \<and> ids_of u = insert (xr1_id x) (ids_of s) \<and>
    s1_outputs u = s1_outputs s"
proof -
  let ?s = "s\<lparr>s1_externals := dict_set (xr1_id x) (t1_id t, x) (s1_externals s)\<rparr>"
  have "dict_has (s1_tasks s) (t1_id t)" using viewD(7) [OF v k] by (auto simp: dict_has_iff)
  moreover have "\<not> dict_has (s1_externals s) (xr1_id x)" using fresh by (simp add: ids_of_def)
  ultimately have eq: "add_external1 (t1_id t) x s = Inr ?s"
    by (simp add: add_external1_def known1_id_def unused1_id_def require_def)
  have "store1_ok ?s" by (rule v1_write_ok [OF v1_write.intros(10) [OF eq] viewD(1) [OF v]])
  then have "run_view ?s run tasks n" using v by (simp add: run_view_def sequences1_def attempts_below_def)
  then show ?thesis using eq by simp
qed

text \<open>Several writes in a row.\<close>

lemma foldR_writes_append:
  "foldR (\<lambda>w. w) (ws @ vs) s = bindR (foldR (\<lambda>w. w) ws s) (foldR (\<lambda>w. w) vs)"
proof (induction ws arbitrary: s)
  case (Cons w ws)
  then show ?case by (cases "w s") auto
qed simp

lemma view_add_artifacts:
  assumes "run_view s run tasks n" "(k, t) \<in> set tasks" "distinct (map ar1_id ars)" "ar1_id ` set ars \<inter> ids_of s = {}"
  shows "\<exists>u. foldR (\<lambda>w. w) (map (add_artifact1 (t1_id t)) ars) s = Inr u \<and> run_view u run tasks n \<and>
    ids_of u = ar1_id ` set ars \<union> ids_of s"
  using assms
proof (induction ars arbitrary: s)
  case (Cons ar ars)
  obtain u where u: "add_artifact1 (t1_id t) ar s = Inr u" "run_view u run tasks n" "ids_of u = insert (ar1_id ar) (ids_of s)"
    using view_add_artifact [OF Cons.prems(1,2), of ar] Cons.prems(4) by auto
  have "\<exists>v. foldR (\<lambda>w. w) (map (add_artifact1 (t1_id t)) ars) u = Inr v \<and> run_view v run tasks n \<and>
      ids_of v = ar1_id ` set ars \<union> ids_of u"
    by (rule Cons.IH [OF u(2)]) (use Cons.prems u(3) in auto)
  then show ?case using u by auto
qed simp

lemma view_add_externals:
  assumes "run_view s run tasks n" "(k, t) \<in> set tasks" "distinct (map xr1_id xs)" "xr1_id ` set xs \<inter> ids_of s = {}"
  shows "\<exists>u. foldR (\<lambda>w. w) (map (add_external1 (t1_id t)) xs) s = Inr u \<and> run_view u run tasks n \<and>
    ids_of u = xr1_id ` set xs \<union> ids_of s"
  using assms
proof (induction xs arbitrary: s)
  case (Cons x xs)
  obtain u where u: "add_external1 (t1_id t) x s = Inr u" "run_view u run tasks n" "ids_of u = insert (xr1_id x) (ids_of s)"
    using view_add_external [OF Cons.prems(1,2), of x] Cons.prems(4) by auto
  have "\<exists>v. foldR (\<lambda>w. w) (map (add_external1 (t1_id t)) xs) u = Inr v \<and> run_view v run tasks n \<and>
      ids_of v = xr1_id ` set xs \<union> ids_of u"
    by (rule Cons.IH [OF u(2)]) (use Cons.prems u(3) in auto)
  then show ?case using u by auto
qed simp

section \<open>A new run\<close>

definition fresh_task :: "v1_store \<Rightarrow> v1_run \<Rightarrow> string \<Rightarrow> v1_task_run \<Rightarrow> bool" where
  "fresh_task s run k t \<longleftrightarrow> t1_id t \<notin> ids_of s \<and> t1_run_id t = r1_id run \<and> t1_task_id t = k \<and>
     t1_status t = T1_PENDING \<and> valid_task1 t"

lemma view_add_run:
  assumes ok: "store1_ok s" and "valid_run1 run" and fresh: "r1_id run \<notin> ids_of s"
  shows "\<exists>u. add_run1 run s = Inr u \<and> run_view u run [] 1 \<and> ids_of u = insert (r1_id run) (ids_of s)"
proof -
  let ?s = "s\<lparr>s1_runs := dict_set (r1_id run) run (s1_runs s)\<rparr>"
  have "\<not> dict_has (s1_runs s) (r1_id run)" using fresh by (simp add: ids_of_def)
  then have eq: "add_run1 run s = Inr ?s"
    using assms(2) mk_run1_Inr [of run run] by (simp add: add_run1_def unused1_id_def require_def)
  have no_task: "t1_run_id t \<noteq> r1_id run" if "dict_get (s1_tasks s) i = Some t" for i t
    using stored_references(1) [OF that] fresh by auto
  have "e1_run_id e \<noteq> r1_id run" if e: "e \<in> set (dict_values (s1_events s))" for e
  proof -
    obtain i where "(i, e) \<in> set (s1_events s)" using e by (auto simp: dict_values_def)
    moreover have "owned (s1_runs s) e1_run_id (s1_events s)" using ok by (simp add: store1_ok_def)
    ultimately have "dict_has (s1_runs s) (e1_run_id e)" unfolding owned_def by blast
    then have "e1_run_id e \<in> ids_of s" by (simp add: ids_of_def)
    then show ?thesis using fresh by auto
  qed
  then have "sequences1 s (r1_id run) = []" by (simp add: sequences1_def)
  moreover have "store1_ok ?s" by (rule v1_write_ok [OF v1_write.intros(1) [OF eq] ok])
  ultimately have "run_view ?s run [] 1"
    using no_task by (intro run_viewI) (auto simp: dict_get_set sequences1_def)
  then show ?thesis using eq by simp
qed

lemma view_add_task:
  assumes v: "run_view s run tasks n" and t: "fresh_task s run k t" and "\<not> dict_has tasks k"
  shows "\<exists>u. add_task1 t s = Inr u \<and> run_view u run (dict_set k t tasks) n \<and> ids_of u \<subseteq> insert (t1_id t) (ids_of s)"
proof -
  let ?s = "s\<lparr>s1_tasks := dict_set (t1_id t) t (s1_tasks s)\<rparr>"
  note ok = viewD(1) [OF v]
  have t': "t1_id t \<notin> ids_of s" "t1_run_id t = r1_id run" "t1_task_id t = k" "t1_status t = T1_PENDING" "valid_task1 t"
    using t by (simp_all add: fresh_task_def)
  have free: "\<not> dict_has (s1_tasks s) (t1_id t)" using t'(1) by (simp add: ids_of_def)
  moreover have "dict_has (s1_runs s) (t1_run_id t)" using viewD(2) [OF v] t'(2) by (auto simp: dict_has_iff)
  ultimately have eq: "add_task1 t s = Inr ?s"
    using t'(5) mk_task_run1_Inr [of t t] by (simp add: add_task1_def known1_id_def unused1_id_def require_def)
  have members: "(j, u) \<in> set (dict_set k t tasks) \<longleftrightarrow> (j, u) = (k, t) \<or> (j, u) \<in> set tasks" for j u
    using viewD(3) [OF v] assms(3) by (force simp: dict_set_set)
  have old: "t1_id u \<noteq> t1_id t" if "(j, u) \<in> set tasks" for j u
    using viewD(7) [OF v that] free by (auto simp: dict_has_iff)
  have entry: "(j, u) \<in> set (dict_set k t tasks) \<longleftrightarrow> t1_task_id u = j \<and> t1_run_id u = r1_id run \<and>
      dict_get (s1_tasks ?s) (t1_id u) = Some u" for j u
  proof (cases "t1_id u = t1_id t")
    case True
    then show ?thesis using t'(2,3) old [of j u] unfolding members by (auto simp: dict_get_set)
  next
    case False
    then show ?thesis using v unfolding members run_view_def by (auto simp: dict_get_set)
  qed
  have below: "attempts_below s (t1_id t) 0"
    unfolding attempts_below_def
  proof (intro allI impI)
    fix j a assume "dict_get (s1_attempts s) j = Some a" "a1_task_run_id a = t1_id t"
    then show "a1_number a \<le> 0" using stored_references(2) [of s j a] t'(1) by simp
  qed
  have outputs: "\<not> dict_has (s1_outputs s) (t1_id t)" using ok free by (auto simp: store1_ok_def)
  have "(t1_status u \<in> {T1_PENDING, T1_READY} \<longrightarrow> attempts_below ?s (t1_id u) 0) \<and>
      (t1_status u \<noteq> T1_SUCCEEDED \<longrightarrow> \<not> dict_has (s1_outputs ?s) (t1_id u))"
    if "(j, u) \<in> set (dict_set k t tasks)" for j u
    using that below outputs viewD(8,9) [OF v, of j u] unfolding members by (auto simp: attempts_below_def)
  moreover have "store1_ok ?s" by (rule v1_write_ok [OF v1_write.intros(3) [OF eq] ok])
  ultimately have "run_view ?s run (dict_set k t tasks) n"
    using viewD(2-5) [OF v] by (intro run_viewI entry) (simp_all add: sequences1_def)
  moreover have "r1_id run \<in> ids_of s" by (rule stored_ids(1) [OF viewD(2) [OF v]])
  ultimately show ?thesis using eq ids_of_task [where s = s and i = "t1_id t" and t = t] t'(2) by auto
qed

lemma view_add_tasks:
  assumes "run_view s run tasks n" "\<forall>(k, t) \<in> set new. fresh_task s run k t" "distinct (map fst new)"
    "distinct (map t1_id (map snd new))" "fst ` set new \<inter> fst ` set tasks = {}"
  shows "\<exists>u. foldR (\<lambda>w. w) (map add_task1 (map snd new)) s = Inr u \<and> run_view u run (tasks @ new) n \<and>
    ids_of u \<subseteq> t1_id ` snd ` set new \<union> ids_of s"
  using assms
proof (induction new arbitrary: s tasks)
  case (Cons p new)
  obtain k t where p: "p = (k, t)" by (cases p)
  have kt: "\<not> dict_has tasks k" "fresh_task s run k t" using Cons.prems(2,5) p by auto
  obtain u where u: "add_task1 t s = Inr u" "run_view u run (dict_set k t tasks) n" "ids_of u \<subseteq> insert (t1_id t) (ids_of s)"
    using view_add_task [OF Cons.prems(1) kt(2,1)] by blast
  have eq: "dict_set k t tasks = tasks @ [(k, t)]" using kt(1) by (rule dict_set_fresh)
  have "\<forall>(j, x) \<in> set new. fresh_task u run j x"
  proof (clarify)
    fix j x assume x: "(j, x) \<in> set new"
    then have "t1_id x \<noteq> t1_id t" using Cons.prems(4) p by force
    moreover have "fresh_task s run j x" using Cons.prems(2) x by auto
    ultimately show "fresh_task u run j x" using u(3) by (auto simp: fresh_task_def)
  qed
  then have "\<exists>v. foldR (\<lambda>w. w) (map add_task1 (map snd new)) u = Inr v \<and> run_view v run (dict_set k t tasks @ new) n \<and>
      ids_of v \<subseteq> t1_id ` snd ` set new \<union> ids_of u"
    by (rule Cons.IH [OF u(2)]) (use Cons.prems p in \<open>auto simp: dict_set_keys\<close>)
  then obtain v where v: "foldR (\<lambda>w. w) (map add_task1 (map snd new)) u = Inr v"
    "run_view v run (dict_set k t tasks @ new) n" "ids_of v \<subseteq> t1_id ` snd ` set new \<union> ids_of u" by blast
  have "ids_of v \<subseteq> t1_id ` snd ` set (p # new) \<union> ids_of s" using v(3) u(3) p by auto
  moreover have "foldR (\<lambda>w. w) (map add_task1 (map snd (p # new))) s = Inr v" using v(1) u(1) p by simp
  moreover have "run_view v run (tasks @ p # new) n" using v(2) eq p by simp
  ultimately show ?case by blast
qed simp

end
