(* ===== verification/Contracts.thy ===== *)
theory Contracts
  imports Prelude
begin

text \<open>
  Contracts of computations: from a state that satisfies \<open>P\<close>, \<open>m\<close> either returns a value and a state
  related by \<open>Q\<close>, or raises an exception and leaves a state related by \<open>E\<close>.  One rule per combinator;
  a proof about a method follows the method.
\<close>

definition contract ::
  "('s \<Rightarrow> bool) \<Rightarrow> ('s, 'a) act \<Rightarrow> ('a \<Rightarrow> 's \<Rightarrow> bool) \<Rightarrow> (pyexc \<Rightarrow> 's \<Rightarrow> bool) \<Rightarrow> bool" where
  "contract P m Q E \<longleftrightarrow> (\<forall>s. P s \<longrightarrow> (case m s of (Inl e, t) \<Rightarrow> E e t | (Inr x, t) \<Rightarrow> Q x t))"

text \<open>No exception at all.\<close>

abbreviation never :: "pyexc \<Rightarrow> 's \<Rightarrow> bool" where
  "never \<equiv> \<lambda>e s. False"

lemma contractI:
  assumes "\<And>s x t. P s \<Longrightarrow> m s = (Inr x, t) \<Longrightarrow> Q x t" "\<And>s e t. P s \<Longrightarrow> m s = (Inl e, t) \<Longrightarrow> E e t"
  shows "contract P m Q E"
  using assms by (auto simp: contract_def split: prod.splits sum.splits)

lemma contractD:
  assumes "contract P m Q E" "P s"
  shows "m s = (Inr x, t) \<Longrightarrow> Q x t" "m s = (Inl e, t) \<Longrightarrow> E e t"
  using assms by (auto simp: contract_def split: prod.splits sum.splits)

lemma contract_weaken:
  assumes "contract P m Q E" "\<And>s. P' s \<Longrightarrow> P s" "\<And>x s. Q x s \<Longrightarrow> Q' x s" "\<And>e s. E e s \<Longrightarrow> E' e s"
  shows "contract P' m Q' E'"
  by (rule contractI) (use assms contractD [OF assms(1)] in blast)+

lemma contract_pre: "contract P m Q E \<Longrightarrow> (\<And>s. P' s \<Longrightarrow> P s) \<Longrightarrow> contract P' m Q E"
  by (rule contract_weaken)

lemma contract_post: "contract P m Q E \<Longrightarrow> (\<And>x s. Q x s \<Longrightarrow> Q' x s) \<Longrightarrow> contract P m Q' E"
  by (rule contract_weaken)

lemma contract_never: "contract P m Q never \<Longrightarrow> contract P m Q E"
  by (erule contract_weaken) simp_all

lemma contract_pure: "(b \<Longrightarrow> contract P m Q E) \<Longrightarrow> contract (\<lambda>s. P s \<and> b) m Q E"
  by (simp add: contract_def)

lemma contract_ex:
  assumes "\<And>y. contract (P y) m Q E"
  shows "contract (\<lambda>s. \<exists>y. P y s) m Q E"
  by (rule contractI) (use contractD [OF assms] in blast)+

lemma contract_ret: "contract (Q x) (ret x) Q E"
  by (simp add: contract_def)

lemma contract_raise: "contract (E e) (raise e) Q E"
  by (simp add: contract_def)

lemma contract_gets: "contract (\<lambda>s. Q (f s) s) (gets f) Q E"
  by (simp add: contract_def)

lemma contract_modify: "contract (\<lambda>s. Q () (g s)) (modifyA g) Q E"
  by (simp add: contract_def)

lemma contract_lift: "r = Inr x \<Longrightarrow> contract (Q x) (liftR r) Q E"
  by (simp add: contract_def)

lemma contract_require: "b \<Longrightarrow> contract (Q ()) (requireA b e) Q E"
  by (simp add: contract_def)

lemma contract_bind:
  assumes "contract P m Q E" "\<And>x. contract (Q x) (f x) R E"
  shows "contract P (bindA m f) R E"
  using assms by (fastforce simp: contract_def bindA_def split: prod.splits sum.splits)

lemma contract_then:
  assumes "contract P m (\<lambda>_. Q) E" "contract Q k R E"
  shows "contract P (thenA m k) R E"
  unfolding thenA_def by (rule contract_bind [OF assms(1)]) (rule assms(2))

text \<open>Steps that leave the precondition alone and only establish a fact.\<close>

lemma contract_bind_lift:
  "r = Inr x \<Longrightarrow> contract P (f x) R E \<Longrightarrow> contract P (bindA (liftR r) f) R E"
  by (simp add: contract_def bindA_def)

lemma contract_then_require:
  "b \<Longrightarrow> contract P k R E \<Longrightarrow> contract P (thenA (requireA b e) k) R E"
  by (simp add: contract_def thenA_def bindA_def)

lemma contract_attempt:
  assumes "contract P m Q E"
  shows "contract P (attemptA m) (\<lambda>r s. case r of Inl e \<Rightarrow> E e s | Inr x \<Rightarrow> Q x s) never"
  using assms by (auto simp: contract_def attemptA_def split: prod.splits sum.splits)

lemma contract_forA:
  assumes "\<And>x. x \<in> set xs \<Longrightarrow> contract P (f x) (\<lambda>_. P) E"
  shows "contract P (forA xs f) (\<lambda>_. P) E"
  using assms by (induction xs) (auto intro: contract_then contract_ret)

lemma contract_foldA:
  assumes "\<And>pre x post a. xs = pre @ x # post \<Longrightarrow> contract (J pre a) (f x a) (J (pre @ [x])) E"
  shows "contract (J [] a) (foldA f xs a) (J xs) E"
proof -
  have "contract (J pre a) (foldA f post a) (J xs) E" if "xs = pre @ post" for pre post a
    using that
  proof (induction post arbitrary: pre a)
    case (Cons x post)
    have "contract (J pre a) (bindA (f x a) (foldA f post)) (J xs) E"
      by (rule contract_bind [OF assms]) (use Cons in \<open>auto intro: Cons.IH\<close>)
    then show ?case by simp
  next
    case Nil
    then show ?case by (simp only: foldA.simps append_Nil2 contract_ret)
  qed
  from this [of "[]" xs a] show ?thesis by simp
qed

end
