(* ===== verification/V1_History.thy ===== *)
theory V1_History
  imports V1_Resume V1_View Contracts
begin

text \<open>
  What the first-generation runner never does: whatever its ports do, and whether \<open>run\<close> or \<open>resume\<close>
  returns or raises, a run, task run or attempt that was finished in the store stays as it is, and no
  event, output, artifact or external reference is lost or changed.  A small calculus of
  computations that keep the history carries the proof: an entity the runner holds in memory may be
  saved as long as the store it started from has no finished entity of that identifier.
\<close>

section \<open>Histories\<close>

definition same_entries :: "('v \<Rightarrow> bool) \<Rightarrow> (string, 'v) dict \<Rightarrow> (string, 'v) dict \<Rightarrow> bool" where
  "same_entries P d e \<longleftrightarrow> (\<forall>i v. dict_get d i = Some v \<longrightarrow> P v \<longrightarrow> dict_get e i = Some v)"

definition run_closed :: "v1_run \<Rightarrow> bool" where "run_closed r \<longleftrightarrow> r1_status r \<in> RUN1_TERMINAL"

definition task_closed :: "v1_task_run \<Rightarrow> bool" where "task_closed t \<longleftrightarrow> t1_status t \<in> TASK1_TERMINAL"

definition attempt_closed :: "v1_attempt \<Rightarrow> bool" where "attempt_closed a \<longleftrightarrow> a1_status a \<in> ATTEMPT1_TERMINAL"

definition keeps_history1 :: "v1_store \<Rightarrow> v1_store \<Rightarrow> bool" where
  "keeps_history1 s t \<longleftrightarrow> same_entries run_closed (s1_runs s) (s1_runs t) \<and>
     same_entries task_closed (s1_tasks s) (s1_tasks t) \<and>
     same_entries attempt_closed (s1_attempts s) (s1_attempts t) \<and>
     same_entries (\<lambda>_. True) (s1_events s) (s1_events t) \<and> same_entries (\<lambda>_. True) (s1_outputs s) (s1_outputs t) \<and>
     same_entries (\<lambda>_. True) (s1_artifacts s) (s1_artifacts t) \<and>
     same_entries (\<lambda>_. True) (s1_externals s) (s1_externals t)"

lemma same_entries_refl [simp]: "same_entries P d d"
  by (simp add: same_entries_def)

lemma same_entries_set:
  assumes "same_entries P d e" "\<And>v. dict_get d i = Some v \<Longrightarrow> \<not> P v"
  shows "same_entries P d (dict_set i x e)"
  using assms by (auto simp: same_entries_def dict_get_set)

lemma same_entries_add: "same_entries (\<lambda>_. True) d e \<Longrightarrow> \<not> dict_has e i \<Longrightarrow> same_entries (\<lambda>_. True) d (dict_set i x e)"
  by (auto simp: same_entries_def dict_get_set dict_has_iff)

text \<open>Identifiers that may be written.\<close>

definition may_write :: "('v \<Rightarrow> bool) \<Rightarrow> (string, 'v) dict \<Rightarrow> string \<Rightarrow> bool" where
  "may_write P d i \<longleftrightarrow> (\<forall>v. dict_get d i = Some v \<longrightarrow> \<not> P v)"

lemma same_entries_write: "same_entries P d e \<Longrightarrow> may_write P d i \<Longrightarrow> same_entries P d (dict_set i x e)"
  by (auto simp: may_write_def intro: same_entries_set)

lemma may_write_unused: "same_entries P d e \<Longrightarrow> \<not> dict_has e i \<Longrightarrow> may_write P d i"
  by (auto simp: may_write_def same_entries_def dict_has_iff)

lemma may_write_open: "same_entries P d e \<Longrightarrow> dict_get e i = Some v \<Longrightarrow> \<not> P v \<Longrightarrow> may_write P d i"
  by (auto simp: may_write_def same_entries_def)

definition kept1 :: "v1_store \<Rightarrow> v1_store \<Rightarrow> bool" where
  "kept1 s0 s \<longleftrightarrow> store1_ok s \<and> keeps_history1 s0 s"

abbreviation open_run :: "v1_store \<Rightarrow> string \<Rightarrow> bool" where "open_run s0 \<equiv> may_write run_closed (s1_runs s0)"

abbreviation open_task :: "v1_store \<Rightarrow> string \<Rightarrow> bool" where "open_task s0 \<equiv> may_write task_closed (s1_tasks s0)"

abbreviation open_attempt :: "v1_store \<Rightarrow> string \<Rightarrow> bool" where
  "open_attempt s0 \<equiv> may_write attempt_closed (s1_attempts s0)"

section \<open>Writes\<close>

text \<open>The write keeps the history and, when it succeeds, \<open>b\<close> holds.\<close>

definition reveals :: "v1_store \<Rightarrow> (v1_store \<Rightarrow> v1_store result) \<Rightarrow> bool \<Rightarrow> bool" where
  "reveals s0 w b \<longleftrightarrow> (\<forall>s u. kept1 s0 s \<longrightarrow> w s = Inr u \<longrightarrow> kept1 s0 u \<and> b)"

lemma reveals_adds:
  "reveals s0 (add_run1 r) (open_run s0 (r1_id r))"
  "reveals s0 (add_task1 t) (open_task s0 (t1_id t))"
  "reveals s0 (add_attempt1 a) (open_attempt s0 (a1_id a))"
proof -
  show "reveals s0 (add_run1 r) (open_run s0 (r1_id r))"
    unfolding reveals_def
  proof (intro allI impI)
    fix s u assume s: "kept1 s0 s" and w: "add_run1 r s = Inr u"
    then have "\<not> dict_has (s1_runs s) (r1_id r)" by (auto simp: add_run1_def unused1_id_def thenR_Inr_iff)
    then have "open_run s0 (r1_id r)" using s may_write_unused by (auto simp: kept1_def keeps_history1_def)
    then show "kept1 s0 u \<and> open_run s0 (r1_id r)"
      using s v1_write_ok [OF v1_write.intros(1) [OF w]] v1_write_tables(1) [of r s u] w
      by (auto simp: kept1_def keeps_history1_def intro: same_entries_write)
  qed
  show "reveals s0 (add_task1 t) (open_task s0 (t1_id t))"
    unfolding reveals_def
  proof (intro allI impI)
    fix s u assume s: "kept1 s0 s" and w: "add_task1 t s = Inr u"
    then have "\<not> dict_has (s1_tasks s) (t1_id t)" by (auto simp: add_task1_def unused1_id_def thenR_Inr_iff)
    then have "open_task s0 (t1_id t)" using s may_write_unused by (auto simp: kept1_def keeps_history1_def)
    then show "kept1 s0 u \<and> open_task s0 (t1_id t)"
      using s v1_write_ok [OF v1_write.intros(3) [OF w]] v1_write_tables(2) [of t s u] w
      by (auto simp: kept1_def keeps_history1_def intro: same_entries_write)
  qed
  show "reveals s0 (add_attempt1 a) (open_attempt s0 (a1_id a))"
    unfolding reveals_def
  proof (intro allI impI)
    fix s u assume s: "kept1 s0 s" and w: "add_attempt1 a s = Inr u"
    then have "\<not> dict_has (s1_attempts s) (a1_id a)" by (auto simp: add_attempt1_def unused1_id_def thenR_Inr_iff)
    then have "open_attempt s0 (a1_id a)" using s may_write_unused by (auto simp: kept1_def keeps_history1_def)
    then show "kept1 s0 u \<and> open_attempt s0 (a1_id a)"
      using s v1_write_ok [OF v1_write.intros(5) [OF w]] v1_write_tables(3) [of a s u] w
      by (auto simp: kept1_def keeps_history1_def intro: same_entries_write)
  qed
qed

lemma reveals_saves:
  "open_run s0 (r1_id r) \<Longrightarrow> reveals s0 (save_run1 r) True"
  "open_task s0 (t1_id t) \<Longrightarrow> reveals s0 (save_task1 t) True"
  "open_attempt s0 (a1_id a) \<Longrightarrow> reveals s0 (save_attempt1 a) True"
proof -
  show "reveals s0 (save_run1 r) True" if "open_run s0 (r1_id r)"
    unfolding reveals_def
  proof (intro allI impI)
    fix s u assume s: "kept1 s0 s" and w: "save_run1 r s = Inr u"
    then show "kept1 s0 u \<and> True"
      using that v1_write_ok [OF v1_write.intros(2) [OF w]] v1_write_tables(1) [of r s u]
      by (auto simp: kept1_def keeps_history1_def intro: same_entries_write)
  qed
  show "reveals s0 (save_task1 t) True" if "open_task s0 (t1_id t)"
    unfolding reveals_def
  proof (intro allI impI)
    fix s u assume s: "kept1 s0 s" and w: "save_task1 t s = Inr u"
    then show "kept1 s0 u \<and> True"
      using that v1_write_ok [OF v1_write.intros(4) [OF w]] v1_write_tables(2) [of t s u]
      by (auto simp: kept1_def keeps_history1_def intro: same_entries_write)
  qed
  show "reveals s0 (save_attempt1 a) True" if "open_attempt s0 (a1_id a)"
    unfolding reveals_def
  proof (intro allI impI)
    fix s u assume s: "kept1 s0 s" and w: "save_attempt1 a s = Inr u"
    then show "kept1 s0 u \<and> True"
      using that v1_write_ok [OF v1_write.intros(6) [OF w]] v1_write_tables(3) [of a s u]
      by (auto simp: kept1_def keeps_history1_def intro: same_entries_write)
  qed
qed

lemma reveals_evidence:
  "reveals s0 (add_event1 e) True" "reveals s0 (add_output1 i v) True"
  "reveals s0 (add_artifact1 i ar) True" "reveals s0 (add_external1 i x) True"
proof -
  show "reveals s0 (add_event1 e) True"
    unfolding reveals_def
  proof (intro allI impI)
    fix s u assume s: "kept1 s0 s" and w: "add_event1 e s = Inr u"
    then have "\<not> dict_has (s1_events s) (e1_id e)" "u = s\<lparr>s1_events := dict_set (e1_id e) e (s1_events s)\<rparr>"
      by (auto simp: add_event1_def unused1_id_def thenR_Inr_iff)
    then show "kept1 s0 u \<and> True"
      using s v1_write_ok [OF v1_write.intros(7) [OF w]] by (auto simp: kept1_def keeps_history1_def intro: same_entries_add)
  qed
  show "reveals s0 (add_output1 i v) True"
    unfolding reveals_def
  proof (intro allI impI)
    fix s u assume s: "kept1 s0 s" and w: "add_output1 i v s = Inr u"
    then obtain j where "\<not> dict_has (s1_outputs s) i" "u = s\<lparr>s1_outputs := dict_set i j (s1_outputs s)\<rparr>"
      by (auto simp: add_output1_def unused1_id_def thenR_Inr_iff bindR_Inr_iff)
    then show "kept1 s0 u \<and> True"
      using s v1_write_ok [OF v1_write.intros(8) [OF w]] by (auto simp: kept1_def keeps_history1_def intro: same_entries_add)
  qed
  show "reveals s0 (add_artifact1 i ar) True"
    unfolding reveals_def
  proof (intro allI impI)
    fix s u assume s: "kept1 s0 s" and w: "add_artifact1 i ar s = Inr u"
    then have "\<not> dict_has (s1_artifacts s) (ar1_id ar)" "u = s\<lparr>s1_artifacts := dict_set (ar1_id ar) (i, ar) (s1_artifacts s)\<rparr>"
      by (auto simp: add_artifact1_def unused1_id_def thenR_Inr_iff)
    then show "kept1 s0 u \<and> True"
      using s v1_write_ok [OF v1_write.intros(9) [OF w]] by (auto simp: kept1_def keeps_history1_def intro: same_entries_add)
  qed
  show "reveals s0 (add_external1 i x) True"
    unfolding reveals_def
  proof (intro allI impI)
    fix s u assume s: "kept1 s0 s" and w: "add_external1 i x s = Inr u"
    then have "\<not> dict_has (s1_externals s) (xr1_id x)" "u = s\<lparr>s1_externals := dict_set (xr1_id x) (i, x) (s1_externals s)\<rparr>"
      by (auto simp: add_external1_def unused1_id_def thenR_Inr_iff)
    then show "kept1 s0 u \<and> True"
      using s v1_write_ok [OF v1_write.intros(10) [OF w]] by (auto simp: kept1_def keeps_history1_def intro: same_entries_add)
  qed
qed

lemma writes_kept:
  "list_all2 (reveals s0) ws bs \<Longrightarrow> kept1 s0 s \<Longrightarrow> foldR (\<lambda>w. w) ws s = Inr u \<Longrightarrow> kept1 s0 u \<and> (\<forall>b \<in> set bs. b)"
proof (induction arbitrary: s rule: list_all2_induct)
  case (Cons w ws b bs)
  then obtain v where v: "w s = Inr v" "foldR (\<lambda>w. w) ws v = Inr u" by (cases "w s") auto
  then have "kept1 s0 v \<and> b" using Cons.hyps(1) Cons.prems(1) by (auto simp: reveals_def)
  then show ?case using Cons.IH [OF _ v(2)] by auto
qed simp

section \<open>Computations that keep the history\<close>

definition safe1 :: "v1_store \<Rightarrow> ('e engine1, 'a) act \<Rightarrow> ('a \<Rightarrow> bool) \<Rightarrow> bool" where
  "safe1 s0 m Q \<longleftrightarrow> contract (\<lambda>k. kept1 s0 (en_store k)) m (\<lambda>x k. kept1 s0 (en_store k) \<and> Q x) (\<lambda>e k. kept1 s0 (en_store k))"

lemma safe1I:
  assumes "\<And>k x k'. kept1 s0 (en_store k) \<Longrightarrow> m k = (Inr x, k') \<Longrightarrow> kept1 s0 (en_store k') \<and> Q x"
    and "\<And>k e k'. kept1 s0 (en_store k) \<Longrightarrow> m k = (Inl e, k') \<Longrightarrow> kept1 s0 (en_store k')"
  shows "safe1 s0 m Q"
  unfolding safe1_def by (rule contractI) (use assms in blast)+

lemma safe1_weaken: "safe1 s0 m Q \<Longrightarrow> (\<And>x. Q x \<Longrightarrow> R x) \<Longrightarrow> safe1 s0 m R"
  unfolding safe1_def by (erule contract_post) auto

lemma safe1_true: "safe1 s0 m Q \<Longrightarrow> safe1 s0 m (\<lambda>_. True)"
  by (erule safe1_weaken) simp

lemma safe1_bind:
  assumes "safe1 s0 m Q" "\<And>x. Q x \<Longrightarrow> safe1 s0 (f x) R"
  shows "safe1 s0 (bindA m f) R"
  unfolding safe1_def
proof (rule contract_bind [OF assms(1) [unfolded safe1_def]])
  show "contract (\<lambda>k. kept1 s0 (en_store k) \<and> Q x) (f x) (\<lambda>x k. kept1 s0 (en_store k) \<and> R x) (\<lambda>e k. kept1 s0 (en_store k))" for x
    by (rule contract_pure) (rule assms(2) [unfolded safe1_def])
qed

lemma safe1_bind_pair:
  assumes "safe1 s0 m (\<lambda>(x, y). Q x y)" "\<And>x y. Q x y \<Longrightarrow> safe1 s0 (f x y) R"
  shows "safe1 s0 (bindA m (\<lambda>(x, y). f x y)) R"
  by (rule safe1_bind [OF assms(1)]) (use assms(2) in auto)

lemma safe1_then: "safe1 s0 m (\<lambda>_. b) \<Longrightarrow> (b \<Longrightarrow> safe1 s0 n R) \<Longrightarrow> safe1 s0 (thenA m n) R"
  unfolding thenA_def by (rule safe1_bind)

lemma safe1_ret: "Q x \<Longrightarrow> safe1 s0 (ret x) Q"
  by (rule safe1I) simp_all

lemma safe1_raise: "safe1 s0 (raise e) Q"
  by (rule safe1I) simp_all

lemma safe1_lift: "(\<And>x. r = Inr x \<Longrightarrow> Q x) \<Longrightarrow> safe1 s0 (liftR r) Q"
  by (rule safe1I) (auto simp: liftR_def split: sum.splits)

lemma safe1_require: "safe1 s0 (requireA b e) (\<lambda>_. b)"
  by (rule safe1I) (auto simp: requireA_def split: if_splits)

lemma safe1_gets: "(\<And>k. kept1 s0 (en_store k) \<Longrightarrow> Q (f k)) \<Longrightarrow> safe1 s0 (gets f) Q"
  by (rule safe1I) auto

lemma safe1_env: "safe1 s0 (in_env m) (\<lambda>_. True)"
  by (rule safe1I) (auto simp: in_env_def zoomA_def split: prod.splits)

lemma safe1_attempt: "safe1 s0 m Q \<Longrightarrow> safe1 s0 (attemptA m) (\<lambda>r. \<forall>x. r = Inr x \<longrightarrow> Q x)"
proof (rule safe1I)
  assume m: "safe1 s0 m Q"
  show "kept1 s0 (en_store k') \<and> (\<forall>x. r = Inr x \<longrightarrow> Q x)" if k: "kept1 s0 (en_store k)" and "attemptA m k = (Inr r, k')" for k r k'
  proof -
    have "m k = (r, k')" using that(2) by (simp add: attemptA_def split: prod.splits)
    then show ?thesis using contractD [OF m [unfolded safe1_def] k] by (cases r) auto
  qed
qed (simp add: attemptA_def split: prod.splits)

lemma safe1_forA: "(\<And>x. x \<in> set xs \<Longrightarrow> safe1 s0 (f x) (\<lambda>_. True)) \<Longrightarrow> safe1 s0 (forA xs f) (\<lambda>_. True)"
  by (induction xs) (auto intro: safe1_then safe1_ret)

lemma safe1_foldA:
  assumes "\<And>x a. x \<in> set xs \<Longrightarrow> J a \<Longrightarrow> safe1 s0 (f x a) J"
  shows "J a \<Longrightarrow> safe1 s0 (foldA f xs a) J"
  using assms by (induction xs arbitrary: a) (auto intro: safe1_bind safe1_ret)

lemma safe1_write:
  assumes "list_all2 (reveals s0) ws bs"
  shows "safe1 s0 (in_store1 (write1 ws)) (\<lambda>_. \<forall>b \<in> set bs. b)"
proof (rule safe1I)
  fix k and x :: unit and k' assume a: "kept1 s0 (en_store k)" "in_store1 (write1 ws) k = (Inr x, k')"
  then obtain u where "write1 ws (en_store k) = (Inr (), u)" "k' = k\<lparr>en_store := u\<rparr>"
    by (auto simp: in_store1_def zoomA_def split: prod.splits)
  then show "kept1 s0 (en_store k') \<and> (\<forall>b \<in> set bs. b)"
    using writes_kept [OF assms a(1)] by (auto simp: write1_eq thenR_Inr_iff split: sum.splits)
next
  fix k e k' assume a: "kept1 s0 (en_store k)" "in_store1 (write1 ws) k = (Inl e, k')"
  then obtain u where "write1 ws (en_store k) = (Inl e, u)" "k' = k\<lparr>en_store := u\<rparr>"
    by (auto simp: in_store1_def zoomA_def split: prod.splits)
  then show "kept1 s0 (en_store k')" using a(1) by (auto simp: write1_eq split: sum.splits)
qed

lemma safe1_now: "safe1 s0 (now1 P) (\<lambda>_. True)"
  unfolding now1_def by (rule safe1_env)

lemma safe1_event: "safe1 s0 (new_event1 P ty t task n payload ef) (\<lambda>_. True)"
  unfolding new_event1_def by (rule safe1_env)

lemma safe1_publish: "safe1 s0 (publish_event1 P e) (\<lambda>_. True)"
  unfolding publish_event1_def
  by (rule safe1I) (auto simp: in_env_def zoomA_def bindA_def modifyA_def split: prod.splits sum.splits)

lemma safe1_persist:
  assumes "list_all2 (reveals s0) ws bs"
  shows "safe1 s0 (persist1 P ws es) (\<lambda>_. \<forall>b \<in> set bs. b)"
proof -
  have "list_all2 (reveals s0) (ws @ map add_event1 es) (bs @ map (\<lambda>_. True) es)"
    by (rule list_all2_appendI [OF assms]) (simp add: list_all2_map1 list_all2_map2 list_all2_same reveals_evidence)
  from safe1_write [OF this] have "safe1 s0 (in_store1 (write1 (ws @ map add_event1 es))) (\<lambda>_. \<forall>b \<in> set bs. b)"
    by (rule safe1_weaken) (unfold set_append ball_Un, erule conjunct1)
  moreover have "safe1 s0 (forA es (publish_event1 P)) (\<lambda>_. True)" by (rule safe1_forA) (rule safe1_publish)
  ultimately show ?thesis
    unfolding persist1_def by (intro safe1_then [where b = "\<forall>b \<in> set bs. b"]) (auto elim: safe1_weaken)
qed

end
