(* ===== verification/V1_Kept.thy ===== *)
theory V1_Kept
  imports V1_History
begin

text \<open>
  The methods of the first-generation runner, one by one, keep the history; and so do \<open>run\<close> and
  \<open>resume\<close> as a whole.
\<close>

section \<open>Steps\<close>

lemma safe1_bind_lift: "(\<And>x. r = Inr x \<Longrightarrow> safe1 s0 (f x) R) \<Longrightarrow> safe1 s0 (bindA (liftR r) f) R"
  by (rule safe1_bind [OF safe1_lift]) auto

lemma safe1_bind_now: "(\<And>t. safe1 s0 (f t) R) \<Longrightarrow> safe1 s0 (bindA (now1 P) f) R"
  by (rule safe1_bind [OF safe1_now])

lemma safe1_bind_env: "(\<And>x. safe1 s0 (f x) R) \<Longrightarrow> safe1 s0 (bindA (in_env m) f) R"
  by (rule safe1_bind [OF safe1_env])

lemma safe1_bind_event:
  "(\<And>e ef. safe1 s0 (f e ef) R) \<Longrightarrow> safe1 s0 (bindA (new_event1 P ty t task n payload ef) (\<lambda>(e, ef). f e ef)) R"
  by (rule safe1_bind [OF safe1_event]) auto

lemma safe1_then_require: "(b \<Longrightarrow> safe1 s0 m R) \<Longrightarrow> safe1 s0 (thenA (requireA b e) m) R"
  by (rule safe1_then [OF safe1_require])

lemma safe1_then_lift: "(r = Inr () \<Longrightarrow> safe1 s0 m R) \<Longrightarrow> safe1 s0 (thenA (liftR r) m) R"
  unfolding thenA_def by (rule safe1_bind_lift) simp

lemma safe1_bind_store: "(\<And>s. kept1 s0 s \<Longrightarrow> safe1 s0 (f s) R) \<Longrightarrow> safe1 s0 (bindA (gets en_store) f) R"
  by (rule safe1_bind [OF safe1_gets])

lemma safe1_then_true: "safe1 s0 m Q \<Longrightarrow> safe1 s0 n R \<Longrightarrow> safe1 s0 (thenA m n) R"
  by (rule safe1_then [where b = True]) (auto intro: safe1_true)

lemma safe1_lift_true: "safe1 s0 (liftR r) (\<lambda>_. True)"
  by (rule safe1_lift) simp

lemmas safe1_steps = safe1_bind_lift safe1_bind_now safe1_bind_env safe1_bind_event safe1_then_require
  safe1_then_lift safe1_bind_store

text \<open>What the state machine leaves alone.\<close>

lemma same_ids1:
  "start_run1 n r = Inr r' \<Longrightarrow> r1_id r' = r1_id r" "succeed_run1 n r = Inr r' \<Longrightarrow> r1_id r' = r1_id r"
  "fail_run1 n r = Inr r' \<Longrightarrow> r1_id r' = r1_id r" "cancel_run1 n r = Inr r' \<Longrightarrow> r1_id r' = r1_id r"
  "mark_ready1 t = Inr t' \<Longrightarrow> t1_id t' = t1_id t" "start_task1 n t = Inr t' \<Longrightarrow> t1_id t' = t1_id t"
  "succeed_task1 n t = Inr t' \<Longrightarrow> t1_id t' = t1_id t" "fail_task1 n t = Inr t' \<Longrightarrow> t1_id t' = t1_id t"
  "skip_task1 y n t = Inr t' \<Longrightarrow> t1_id t' = t1_id t" "cancel_task1 n t = Inr t' \<Longrightarrow> t1_id t' = t1_id t"
  "succeed_attempt1 n a = Inr a' \<Longrightarrow> a1_id a' = a1_id a" "fail_attempt1 n x m c a = Inr a' \<Longrightarrow> a1_id a' = a1_id a"
  "cancel_attempt1 n a = Inr a' \<Longrightarrow> a1_id a' = a1_id a" "schedule_retry1 n a = Inr a' \<Longrightarrow> a1_id a' = a1_id a"
  by (auto simp: run1_Inr task1_Inr attempt1_Inr)

text \<open>A task run in hand is finished, or its identifier may still be written.\<close>

definition live1 :: "v1_store \<Rightarrow> v1_task_run \<Rightarrow> bool" where
  "live1 s0 t \<longleftrightarrow> task_closed t \<or> open_task s0 (t1_id t)"

definition live_all1 :: "v1_store \<Rightarrow> task_runs1 \<Rightarrow> bool" where
  "live_all1 s0 tasks \<longleftrightarrow> (\<forall>(k, t) \<in> set tasks. live1 s0 t)"

lemma live_open: "live1 s0 t \<Longrightarrow> t1_status t \<notin> TASK1_TERMINAL \<Longrightarrow> open_task s0 (t1_id t)"
  by (simp add: live1_def task_closed_def)

lemma live_all_get: "live_all1 s0 tasks \<Longrightarrow> key_lookup tasks k = Inr t \<Longrightarrow> live1 s0 t"
  by (auto simp: live_all1_def key_lookup_def split: option.splits dest!: map_of_SomeD)

lemma live_all_set: "live_all1 s0 tasks \<Longrightarrow> live1 s0 t \<Longrightarrow> live_all1 s0 (dict_set k t tasks)"
  using dict_set_subset [of k t tasks] by (auto simp: live_all1_def)

lemma live_all_set_open: "live_all1 s0 tasks \<Longrightarrow> open_task s0 (t1_id t) \<Longrightarrow> live_all1 s0 (dict_set k t tasks)"
  by (rule live_all_set) (simp_all add: live1_def)

lemma skip_live: "skip_task1 y n t = Inr t' \<Longrightarrow> live1 s0 t \<Longrightarrow> open_task s0 (t1_id t')"
  by (auto simp: task1_Inr live1_def task_closed_def TASK1_TERMINAL_def)

lemma mapR_same: "mapR f xs = Inr ys \<Longrightarrow> (\<And>x y. f x = Inr y \<Longrightarrow> y = x) \<Longrightarrow> ys = xs"
  unfolding mapR_Inr_iff by (induction xs ys rule: list_all2_induct) auto

lemma listed_task:
  assumes "list_tasks1 s i = Inr ts" "t \<in> set ts"
  shows "t \<in> set (dict_values (s1_tasks s)) \<and> t1_run_id t = i"
proof -
  obtain xs where xs: "mapR mk_task_run1 (filter (\<lambda>t. t1_run_id t = i) (dict_values (s1_tasks s))) = Inr xs"
    "ts = sort_key t1_task_id xs" using assms(1) by (auto simp: list_tasks1_def bindR_Inr_iff)
  then have "xs = filter (\<lambda>t. t1_run_id t = i) (dict_values (s1_tasks s))"
    by (intro mapR_same [OF xs(1)]) (simp add: mk_task_run1_Inr)
  then show ?thesis using assms(2) xs(2) by simp
qed

lemma listed_attempt:
  assumes "list_attempts1 s i = Inr ats" "a \<in> set ats"
  shows "a \<in> set (dict_values (s1_attempts s)) \<and> a1_task_run_id a = i"
proof -
  obtain xs where xs: "mapR mk_attempt1 (filter (\<lambda>a. a1_task_run_id a = i) (dict_values (s1_attempts s))) = Inr xs"
    "ats = sort_key a1_number xs" using assms(1) by (auto simp: list_attempts1_def bindR_Inr_iff)
  then have "xs = filter (\<lambda>a. a1_task_run_id a = i) (dict_values (s1_attempts s))"
    by (intro mapR_same [OF xs(1)]) (simp add: mk_attempt1_Inr)
  then show ?thesis using assms(2) xs(2) by simp
qed

lemma listed_live: "kept1 s0 s \<Longrightarrow> list_tasks1 s i = Inr ts \<Longrightarrow> t \<in> set ts \<Longrightarrow> live1 s0 t"
  using listed_task [of s i ts t] keyed_member [of t1_id valid_task1 "s1_tasks s" t]
    may_write_open [of task_closed "s1_tasks s0" "s1_tasks s" "t1_id t" t]
  by (auto simp: live1_def kept1_def keeps_history1_def store1_ok_def)

lemma listed_open_attempt:
  "kept1 s0 s \<Longrightarrow> list_attempts1 s i = Inr ats \<Longrightarrow> a \<in> set ats \<Longrightarrow> a1_status a \<notin> ATTEMPT1_TERMINAL \<Longrightarrow>
   open_attempt s0 (a1_id a)"
  using listed_attempt [of s i ats a] keyed_member [of a1_id valid_attempt1 "s1_attempts s" a]
    may_write_open [of attempt_closed "s1_attempts s0" "s1_attempts s" "a1_id a" a]
  by (auto simp: attempt_closed_def kept1_def keeps_history1_def store1_ok_def)

lemma got_open_run:
  "kept1 s0 s \<Longrightarrow> get_run1 s i = Inr r \<Longrightarrow> r1_status r \<notin> RUN1_TERMINAL \<Longrightarrow> open_run s0 (r1_id r)"
  using store1_okD(1) [of s i r] may_write_open [of run_closed "s1_runs s0" "s1_runs s" i r]
  by (auto simp: get_run1_def mk_run1_Inr run_closed_def kept1_def keeps_history1_def split: option.splits)

lemma safe1_load: "safe1 s0 (load_task_runs1 run) (live_all1 s0)"
  unfolding load_task_runs1_def
proof (intro safe1_bind_store safe1_bind_lift safe1_ret)
  fix s ts assume s: "kept1 s0 s" and ts: "list_tasks1 s (r1_id run) = Inr ts"
  have "live1 s0 t" if "t \<in> set ts" for t
    by (rule listed_live [OF s ts that])
  then have "live_all1 s0 (fold (\<lambda>t d. dict_set (t1_task_id t) t d) ts d)" if "live_all1 s0 d" for d
    using that by (induction ts arbitrary: d) (auto intro: live_all_set)
  from this [of "[]"] show "live_all1 s0 (fold (\<lambda>t d. dict_set (t1_task_id t) t d) ts [])" by (simp add: live_all1_def)
qed

lemma safe1_bind_load: "(\<And>d. live_all1 s0 d \<Longrightarrow> safe1 s0 (f d) R) \<Longrightarrow> safe1 s0 (bindA (load_task_runs1 run) f) R"
  by (rule safe1_bind [OF safe1_load])

text \<open>Writes that reveal nothing new.\<close>

lemma all_reveal: "\<forall>w \<in> set ws. reveals s0 w True \<Longrightarrow> list_all2 (reveals s0) ws (map (\<lambda>_. True) ws)"
  by (simp add: list_all2_map2 list_all2_same)

lemma safe1_persist_true: "\<forall>w \<in> set ws. reveals s0 w True \<Longrightarrow> safe1 s0 (persist1 P ws es) (\<lambda>_. True)"
  by (rule safe1_true [OF safe1_persist [OF all_reveal]])

lemma safe1_write_true: "\<forall>w \<in> set ws. reveals s0 w True \<Longrightarrow> safe1 s0 (in_store1 (write1 ws)) (\<lambda>_. True)"
  by (rule safe1_true [OF safe1_write [OF all_reveal]])

section \<open>Attempts\<close>

lemma safe1_persist_run: "open_run s0 (r1_id run) \<Longrightarrow> safe1 s0 (persist_run1 P run e) (\<lambda>_. True)"
  unfolding persist_run1_def by (rule safe1_persist_true) (simp add: reveals_saves)

lemma safe1_persist_task: "open_task s0 (t1_id t) \<Longrightarrow> safe1 s0 (persist_task1 P t e) (\<lambda>_. True)"
  unfolding persist_task1_def by (rule safe1_persist_true) (simp add: reveals_saves)

lemma safe1_persist_start:
  assumes "open_task s0 (t1_id t)"
  shows "safe1 s0 (persist_start1 P t a e) (\<lambda>_. open_attempt s0 (a1_id a))"
proof -
  have "list_all2 (reveals s0) [save_task1 t, add_attempt1 a] [True, open_attempt s0 (a1_id a)]"
    using assms by (simp add: reveals_saves reveals_adds)
  from safe1_persist [OF this] show ?thesis unfolding persist_start1_def by (rule safe1_weaken) simp
qed

lemma safe1_persist_failure: "open_attempt s0 (a1_id a) \<Longrightarrow> safe1 s0 (persist_retry_failure1 P a e) (\<lambda>_. True)"
  unfolding persist_retry_failure1_def by (rule safe1_persist_true) (simp add: reveals_saves)

lemma safe1_persist_attempt: "safe1 s0 (persist_retry_attempt1 a) (\<lambda>_. open_attempt s0 (a1_id a))"
proof -
  have "list_all2 (reveals s0) [add_attempt1 a] [open_attempt s0 (a1_id a)]" by (simp add: reveals_adds)
  from safe1_write [OF this] show ?thesis unfolding persist_retry_attempt1_def by (rule safe1_weaken) simp
qed

lemma safe1_persist_success:
  assumes t: "open_task s0 (t1_id t)" and a: "open_attempt s0 (a1_id a)"
  shows "safe1 s0 (persist_success1 P t a result e) (\<lambda>t'. t1_id t' = t1_id t)"
  unfolding persist_success1_def
proof (intro safe1_bind_lift)
  fix b u assume b: "succeed_attempt1 (e1_occurred_at e) a = Inr b" and u: "succeed_task1 (e1_occurred_at e) t = Inr u"
  have ids: "a1_id b = a1_id a" "t1_id u = t1_id t" using same_ids1(11) [OF b] same_ids1(7) [OF u] by simp_all
  have "\<forall>w \<in> set ([save_attempt1 b, save_task1 u, add_event1 e] @ checkpoint_writes1 (t1_id u) (res1_output result) @
      map (add_artifact1 (t1_id u)) (res1_artifacts result) @ map (add_external1 (t1_id u)) (res1_external_refs result)).
      reveals s0 w True"
    using t a ids by (auto simp: reveals_saves reveals_evidence checkpoint_writes1_def split: sum.splits)
  then show "safe1 s0 (thenA (in_store1 (write1 ([save_attempt1 b, save_task1 u, add_event1 e] @
      checkpoint_writes1 (t1_id u) (res1_output result) @ map (add_artifact1 (t1_id u)) (res1_artifacts result) @
      map (add_external1 (t1_id u)) (res1_external_refs result)))) (thenA (publish_event1 P e) (ret u)))
      (\<lambda>t'. t1_id t' = t1_id t)"
    using ids(2) by (intro safe1_then_true [OF safe1_write_true] safe1_then_true [OF safe1_publish] safe1_ret)
qed

lemma safe1_new_attempt: "safe1 s0 (new_attempt1 P t n d) (\<lambda>_. True)"
  unfolding new_attempt1_def by (intro safe1_bind_env safe1_lift_true)

lemma safe1_bind_attempt: "(\<And>a. safe1 s0 (f a) R) \<Longrightarrow> safe1 s0 (bindA (new_attempt1 P t n d) f) R"
  by (rule safe1_bind [OF safe1_new_attempt])

text \<open>The skips of fail-fast.\<close>

lemma skip_decided_open:
  assumes "foldR (skip_decided1 finished_at) ds tasks = Inr tasks'" "live_all1 s0 tasks"
    "\<forall>k \<in> K. \<forall>t. dict_get tasks k = Some t \<longrightarrow> open_task s0 (t1_id t)"
  shows "\<forall>k \<in> K \<union> fst ` set ds. \<forall>t. dict_get tasks' k = Some t \<longrightarrow> open_task s0 (t1_id t)"
  using assms
proof (induction ds arbitrary: tasks K)
  case (Cons d ds)
  obtain k reason where d: "d = (k, reason)" by (cases d)
  obtain mid where mid: "skip_decided1 finished_at (k, reason) tasks = Inr mid"
    "foldR (skip_decided1 finished_at) ds mid = Inr tasks'" using Cons.prems(1) d by (auto simp: bindR_Inr_iff)
  then obtain t u where u: "key_lookup tasks k = Inr t" "skip_task1 reason finished_at t = Inr u" "mid = dict_set k u tasks"
    by (simp add: skip_decided1_def bindR_Inr_iff) blast
  then have rest: "foldR (skip_decided1 finished_at) ds (dict_set k u tasks) = Inr tasks'" using mid(2) by simp
  have o: "open_task s0 (t1_id u)" by (rule skip_live [OF u(2) live_all_get [OF Cons.prems(2) u(1)]])
  have "\<forall>j \<in> insert k K. \<forall>t. dict_get (dict_set k u tasks) j = Some t \<longrightarrow> open_task s0 (t1_id t)"
    using Cons.prems(3) o by (auto simp: dict_get_set)
  from Cons.IH [OF rest live_all_set_open [OF Cons.prems(2) o] this] show ?case using d by auto
qed simp

lemma looked_up_open:
  assumes "mapR (\<lambda>(k, reason). key_lookup tasks k) ds = Inr ts"
    and "\<forall>k \<in> fst ` set ds. \<forall>t. dict_get tasks k = Some t \<longrightarrow> open_task s0 (t1_id t)"
  shows "\<forall>t \<in> set ts. open_task s0 (t1_id t)"
  using assms unfolding mapR_Inr_iff
  by (induction ds ts rule: list_all2_induct) (auto simp: key_lookup_def split: option.splits)

lemma safe1_bind_fold_event:
  assumes "\<And>x ef. safe1 s0 (f x ef) R"
  shows "safe1 s0 (bindA (foldA (skipped_event1 P d pre k tasks) ds acc) (\<lambda>(x, ef). f x ef)) R"
proof (rule safe1_bind [where Q = "\<lambda>_. True"])
  have "safe1 s0 (skipped_event1 P d pre k tasks x acc) (\<lambda>_. True)" for x acc
    unfolding skipped_event1_def by (cases x; cases acc) (simp, intro safe1_steps safe1_ret TrueI)
  then show "safe1 s0 (foldA (skipped_event1 P d pre k tasks) ds acc) (\<lambda>_. True)" by (intro safe1_foldA) simp_all
qed (use assms in auto)

lemma safe1_persist_terminal:
  assumes "open_run s0 (r1_id run)" "open_task s0 (t1_id t)" "open_attempt s0 (a1_id a)" "live_all1 s0 tasks"
  shows "safe1 s0 (persist_terminal1 P run t a g plan_ids tasks ef ty cat) (\<lambda>_. True)"
proof (cases "a1_finished_at a")
  case None
  then show ?thesis by (simp add: persist_terminal1_def safe1_raise)
next
  case (Some d)
  show ?thesis
    unfolding persist_terminal1_def Some option.case
  proof (intro safe1_bind_lift safe1_bind_event safe1_bind_fold_event safe1_persist_true)
    fix t' ds tasks' run' skipped events closing
    assume s: "fail_task1 d t = Inr t'" "foldR (skip_decided1 d) ds tasks = Inr tasks'" "fail_run1 d run = Inr run'"
      "mapR (\<lambda>(k, reason). key_lookup tasks' k) ds = Inr skipped"
    have "\<forall>k \<in> {} \<union> fst ` set ds. \<forall>t. dict_get tasks' k = Some t \<longrightarrow> open_task s0 (t1_id t)"
      by (rule skip_decided_open [OF s(2) assms(4)]) simp
    then have "\<forall>t \<in> set skipped. open_task s0 (t1_id t)" by (intro looked_up_open [OF s(4)]) simp
    moreover have "open_task s0 (t1_id t')" "open_run s0 (r1_id run')"
      using assms(1,2) same_ids1(8) [OF s(1)] same_ids1(3) [OF s(3)] by simp_all
    ultimately show "\<forall>w \<in> set ([save_attempt1 a, save_task1 t'] @ map save_task1 skipped @ [save_run1 run']).
        reveals s0 w True"
      using assms(3) by (auto simp: reveals_saves)
  qed
qed

definition frame_open1 :: "v1_store \<Rightarrow> task_frame1 \<Rightarrow> bool" where
  "frame_open1 s0 f \<longleftrightarrow> open_run s0 (r1_id (fr_run f)) \<and> live_all1 s0 (fr_tasks f)"

lemma safe1_settle_failed:
  assumes "frame_open1 s0 f" and t: "open_task s0 (t1_id t)" and a: "open_attempt s0 (a1_id a)"
  shows "safe1 s0 (settle_failed_attempt1 P f t a ef exc) (\<lambda>(a', ef'). open_attempt s0 (a1_id a'))"
  unfolding settle_failed_attempt1_def
proof (rule safe1_bind_now, cases "normalize_executor_error1 exc", simp only: prod.case, intro safe1_bind_lift)
  fix failed_at ty m cat b d
  assume b: "fail_attempt1 failed_at ty m (Some cat) a = Inr b"
  have ob: "open_attempt s0 (a1_id b)" using a same_ids1(12) [OF b] by simp
  show "safe1 s0
     (if rd1_should_retry d then (case rd1_next d of
         None \<Rightarrow> raise (RuntimeInvariant ''retry decision is missing next_attempt_number'')
       | Some n \<Rightarrow>
           bindA (liftR (retry_eligible1 failed_at d)) (\<lambda>eligible_at.
           bindA (liftR (schedule_retry1 eligible_at b)) (\<lambda>a.
           bindA (new_event1 P v1_event_type.TASK_RETRYING failed_at (Some (t1_id t, t1_task_id t)) (Some (a1_number a))
             (retry_payload1 P ty cat d eligible_at n) ef) (\<lambda>(e, ef).
           thenA (persist_retry_failure1 P a e)
          (thenA (if num_gt (rd1_delay d) 0 then in_env (po_sleep P (rd1_delay d)) else ret ())
          (bindA (now1 P) (\<lambda>started_at.
           bindA (new_attempt1 P t n started_at) (\<lambda>a.
           thenA (persist_retry_attempt1 a) (ret (a, ef))))))))))
     else
       thenA (persist_terminal1 P (fr_run f) t b (fr_graph f) (fr_plan_ids f) (fr_tasks f) ef ty cat)
         (raise exc)) (\<lambda>(a', ef'). open_attempt s0 (a1_id a'))"
  proof (cases "rd1_should_retry d")
    case False
    then show ?thesis using assms(1) t ob
      by (simp add: frame_open1_def safe1_then_true [OF safe1_persist_terminal safe1_raise])
  next
    case True
    show ?thesis
    proof (cases "rd1_next d")
      case None
      then show ?thesis using True by (simp add: safe1_raise)
    next
      case (Some n)
      have sleep: "safe1 s0 (if num_gt (rd1_delay d) 0 then in_env (po_sleep P (rd1_delay d)) else ret ()) (\<lambda>_. True)"
        by (simp add: safe1_env safe1_ret)
      show ?thesis
        unfolding if_P [OF True] Some option.case
      proof (intro safe1_bind_lift safe1_bind_event safe1_then_true [OF safe1_persist_failure]
          safe1_then_true [OF sleep] safe1_bind_now safe1_bind_attempt safe1_then [OF safe1_persist_attempt] safe1_ret)
        fix u c assume "schedule_retry1 u b = Inr c"
        then show "open_attempt s0 (a1_id c)" using ob same_ids1(14) by metis
      qed simp
    qed
  qed
qed

lemma safe1_execute:
  assumes "frame_open1 s0 f" "open_task s0 (t1_id t)" "open_attempt s0 (a1_id a)"
  shows "safe1 s0 (execute_with_retry1 fuel P f t a ef) (\<lambda>(result, t', ef'). open_task s0 (t1_id t'))"
  using assms(3)
proof (induction fuel arbitrary: a ef)
  case (Suc fuel)
  show ?case
    unfolding execute_with_retry1.simps
  proof (rule safe1_bind_lift, rule safe1_bind [OF safe1_attempt [OF safe1_env]])
    fix c and outcome :: "v1_task_result result"
    show "safe1 s0 (case outcome of
       Inl exc \<Rightarrow>
         (if is_executor_error exc
          then bindA (settle_failed_attempt1 P f t a ef exc) (\<lambda>(a, ef). execute_with_retry1 fuel P f t a ef)
          else raise exc)
     | Inr result \<Rightarrow>
         bindA (now1 P) (\<lambda>at_time.
         bindA (new_event1 P v1_event_type.TASK_SUCCEEDED at_time (Some (t1_id t, t1_task_id t)) (Some (a1_number a)) [] ef) (\<lambda>(e, ef).
         bindA (persist_success1 P t a result e) (\<lambda>t. ret (result, t, ef)))))
       (\<lambda>(result, t', ef'). open_task s0 (t1_id t'))"
    proof (cases outcome)
      case (Inl exc)
      show ?thesis
      proof (cases "is_executor_error exc")
        case True
        have "safe1 s0 (bindA (settle_failed_attempt1 P f t a ef exc) (\<lambda>(a, ef). execute_with_retry1 fuel P f t a ef))
            (\<lambda>(result, t', ef'). open_task s0 (t1_id t'))"
          by (rule safe1_bind_pair [OF safe1_settle_failed [OF assms(1,2) Suc.prems]]) (rule Suc.IH)
        then show ?thesis using Inl True by simp
      qed (simp add: Inl safe1_raise)
    next
      case (Inr result)
      show ?thesis
        unfolding Inr sum.case
        by (intro safe1_bind_now safe1_bind_event safe1_bind [OF safe1_persist_success [OF assms(2) Suc.prems]] safe1_ret)
          (simp add: assms(2))
    qed
  qed
qed (simp add: safe1_raise)

section \<open>Running\<close>

lemma safe1_start_workflow:
  assumes "open_run s0 (r1_id run)"
  shows "safe1 s0 (start_workflow1 P run ef) (\<lambda>(run', ef'). open_run s0 (r1_id run'))"
  unfolding start_workflow1_def
proof (intro safe1_bind_now safe1_bind_lift safe1_bind_event safe1_then_true [OF safe1_persist_run] safe1_ret)
  fix d run' assume "start_run1 d run = Inr run'"
  then have "r1_id run' = r1_id run" by (rule same_ids1)
  then show "open_run s0 (r1_id run')" "case (run', ef) of (run', ef') \<Rightarrow> open_run s0 (r1_id run')" for ef
    using assms by simp_all
qed

lemma safe1_finish_workflow:
  assumes "open_run s0 (r1_id run)"
  shows "safe1 s0 (finish_workflow1 P run payload ef) (\<lambda>_. True)"
  unfolding finish_workflow1_def
proof (intro safe1_bind_now safe1_bind_lift safe1_bind_event safe1_then_true [OF safe1_persist_run] safe1_bind_store safe1_lift_true)
  fix d run' assume "succeed_run1 d run = Inr run'"
  then show "open_run s0 (r1_id run')" using assms same_ids1(2) by metis
qed

lemma live_ready: "mark_ready1 t = Inr t' \<Longrightarrow> live1 s0 t \<Longrightarrow> open_task s0 (t1_id t')"
  by (auto simp: task1_Inr live1_def task_closed_def TASK1_TERMINAL_def)

lemma live_start: "start_task1 n t = Inr t' \<Longrightarrow> live1 s0 t \<Longrightarrow> open_task s0 (t1_id t')"
  by (auto simp: task1_Inr live1_def task_closed_def TASK1_TERMINAL_def)

lemma live_of_open: "open_task s0 (t1_id t) \<Longrightarrow> live1 s0 t"
  by (simp add: live1_def)

lemma safe1_run_planned:
  assumes run: "open_run s0 (r1_id run)" and p: "live_all1 s0 (pg_tasks p)"
  shows "safe1 s0 (run_planned1 P pr run k p) (\<lambda>p'. live_all1 s0 (pg_tasks p'))"
  unfolding run_planned1_def
proof (intro safe1_bind_lift safe1_bind_load safe1_then_require safe1_bind_now safe1_bind_event
    safe1_then_true [OF safe1_persist_task] safe1_bind_attempt safe1_then [OF safe1_persist_start])
  fix t t' u and a :: v1_attempt and td h deps ef and d :: datetime
  assume t: "key_lookup (pg_tasks p) k = Inr t" and t': "mark_ready1 t = Inr t'" and u: "start_task1 d t' = Inr u"
    and a: "open_attempt s0 (a1_id a)"
  have o: "open_task s0 (t1_id t')" by (rule live_ready [OF t' live_all_get [OF p t]])
  then have ou: "open_task s0 (t1_id u)" by (rule live_start [OF u live_of_open])
  have frame: "frame_open1 s0 \<lparr>fr_run = run, fr_task = td, fr_handler = h, fr_parameters = pr_parameters pr,
      fr_outputs = deps, fr_graph = pr_graph pr, fr_plan_ids = pr_plan_ids pr, fr_tasks = dict_set k u (pg_tasks p)\<rparr>"
    using run live_all_set_open [OF p ou] by (simp add: frame_open1_def)
  show "safe1 s0 (bindA (execute_with_retry1 (attempt_fuel1 td 1) P \<lparr>fr_run = run, fr_task = td, fr_handler = h,
         fr_parameters = pr_parameters pr, fr_outputs = deps, fr_graph = pr_graph pr,
         fr_plan_ids = pr_plan_ids pr, fr_tasks = dict_set k u (pg_tasks p)\<rparr> u a ef) (\<lambda>(result, t, ef).
     ret \<lparr>pg_tasks = dict_set k t (pg_tasks p), pg_factory = ef,
       pg_outputs = dict_set k (res1_output result) (pg_outputs p)\<rparr>)) (\<lambda>p'. live_all1 s0 (pg_tasks p'))"
    by (rule safe1_bind [OF safe1_execute [OF frame ou a]]) (auto intro!: safe1_ret live_all_set_open [OF p])
next
  fix t t' and u :: v1_task_run and d :: datetime
  assume t: "key_lookup (pg_tasks p) k = Inr t" and t': "mark_ready1 t = Inr t'"
  show o: "open_task s0 (t1_id t')" by (rule live_ready [OF t' live_all_get [OF p t]])
  assume u: "start_task1 d t' = Inr u"
  show "open_task s0 (t1_id u)" by (rule live_start [OF u live_of_open [OF o]])
qed

lemma safe1_persist_initial:
  "safe1 s0 (persist_initial1 run tasks) (\<lambda>_. open_run s0 (r1_id run) \<and> live_all1 s0 tasks)"
proof -
  have "list_all2 (reveals s0) (add_run1 run # map add_task1 (dict_values tasks))
      (open_run s0 (r1_id run) # map (\<lambda>t. open_task s0 (t1_id t)) (dict_values tasks))"
    by (simp add: reveals_adds list_all2_map1 list_all2_map2 list_all2_same)
  from safe1_write [OF this] show ?thesis
    unfolding persist_initial1_def by (rule safe1_weaken) (auto simp: live_all1_def live1_def dict_values_def)
qed

lemma safe1_create_tasks: "safe1 s0 (create_task_runs1 P run ks) (\<lambda>_. True)"
proof -
  have "safe1 s0 (foldA (create_task_run1 P run d) ks acc) (\<lambda>_. True)" for d acc
    by (rule safe1_foldA) (simp_all add: create_task_run1_def safe1_bind_env safe1_bind_lift safe1_ret)
  then show ?thesis unfolding create_task_runs1_def by (intro safe1_bind_now)
qed

lemma safe1_run: "safe1 s0 (run1 P registry w supplied) (\<lambda>_. True)"
  unfolding run1_def
proof (rule safe1_bind_lift, rule safe1_bind [where Q = "\<lambda>_. True"])
  show "safe1 s0 (create_run1 P w params) (\<lambda>_. True)" for params
    unfolding create_run1_def by (intro safe1_bind_env safe1_bind_now safe1_lift_true)
next
  fix pr run
  show "safe1 s0 (bindA (liftR (mk_event_factory1 (r1_id run) 1)) (\<lambda>ef.
     bindA (create_task_runs1 P run (pr_plan_ids pr)) (\<lambda>tasks.
     thenA (persist_initial1 run tasks)
    (bindA (start_workflow1 P run ef) (\<lambda>(run, ef).
     bindA (foldA (run_planned1 P pr run) (pr_plan_ids pr)
       \<lparr>pg_tasks = tasks, pg_factory = ef, pg_outputs = []\<rparr>) (\<lambda>p.
     thenA (requireA (\<forall>t \<in> set (dict_values (pg_tasks p)). t1_status t = T1_SUCCEEDED)
       (RuntimeInvariant ''workflow exhausted its plan before all tasks succeeded''))
       (finish_workflow1 P run [] (pg_factory p)))))))) (\<lambda>_. True)"
  proof (intro safe1_bind_lift safe1_bind [OF safe1_create_tasks] safe1_then [OF safe1_persist_initial]
      safe1_bind_pair [OF safe1_start_workflow])
    fix tasks and run' :: v1_run and ef
    assume "open_run s0 (r1_id run) \<and> live_all1 s0 tasks" and o: "open_run s0 (r1_id run')"
    then have tasks: "live_all1 s0 (pg_tasks \<lparr>pg_tasks = tasks, pg_factory = ef, pg_outputs = []\<rparr>)" by simp
    show "safe1 s0 (bindA (foldA (run_planned1 P pr run') (pr_plan_ids pr)
       \<lparr>pg_tasks = tasks, pg_factory = ef, pg_outputs = []\<rparr>) (\<lambda>p.
     thenA (requireA (\<forall>t \<in> set (dict_values (pg_tasks p)). t1_status t = T1_SUCCEEDED)
       (RuntimeInvariant ''workflow exhausted its plan before all tasks succeeded''))
       (finish_workflow1 P run' [] (pg_factory p)))) (\<lambda>_. True)"
      by (rule safe1_bind [OF safe1_foldA [where J = "\<lambda>p. live_all1 s0 (pg_tasks p)", OF safe1_run_planned tasks]])
        (simp_all add: o safe1_then_require safe1_finish_workflow)
  qed simp
qed

section \<open>Resuming\<close>

definition applied_open1 :: "v1_store \<Rightarrow> applied1 \<Rightarrow> bool" where
  "applied_open1 s0 st \<longleftrightarrow> live_all1 s0 (ap_tasks st) \<and> (\<forall>a \<in> set (ap_attempts st). open_attempt s0 (a1_id a)) \<and>
     (\<forall>t \<in> set (ap_changed st). open_task s0 (t1_id t))"

lemma applied_open_add:
  "applied_open1 s0 st \<Longrightarrow> open_task s0 (t1_id t) \<Longrightarrow> open_attempt s0 (a1_id a) \<Longrightarrow>
   applied_open1 s0 (st\<lparr>ap_tasks := dict_set k t (ap_tasks st), ap_attempts := ap_attempts st @ [a],
     ap_changed := ap_changed st @ [t]\<rparr>)"
  by (auto simp: applied_open1_def intro: live_all_set_open)

lemma applied_open_same [simp]:
  "applied_open1 s0 (st\<lparr>ap_events := es, ap_factory := ef\<rparr>) = applied_open1 s0 st"
  "applied_open1 s0 (st\<lparr>ap_events := es, ap_factory := ef, ap_failed := x\<rparr>) = applied_open1 s0 st"
  by (simp_all add: applied_open1_def)

lemma ambiguous_open:
  assumes "ambiguous_attempt1 run_id item tasks s = Inr (t, a)" "kept1 s0 s" "live_all1 s0 tasks"
  shows "open_task s0 (t1_id t) \<and> open_attempt s0 (a1_id a)"
proof -
  obtain t' ats where found: "find (\<lambda>t. t1_id t = tk1_task_run_id item) (dict_values tasks) = Some t'"
    "t1_status t' = T1_RUNNING" "list_attempts1 s (t1_id t') = Inr ats"
    "(case filter (\<lambda>a. a1_status a = A1_RUNNING) ats of
           [a] \<Rightarrow> thenR (require (tk1_running_attempts item = [a1_id a])
               (resume_error1 run_id (''reconciliation attempt identity mismatch for '' @ py_quote (tk1_task_run_id item))))
             (Inr (t', a))
         | _ \<Rightarrow> Inl (resume_error1 run_id (''TaskRun '' @ py_quote (tk1_task_run_id item) @
             '' must have exactly one RUNNING attempt for reconciliation''))) = Inr (t, a)"
    using assms(1) by (simp add: ambiguous_attempt1_def thenR_Inr_iff bindR_Inr_iff split: option.splits) blast
  have same: "t' = t \<and> filter (\<lambda>a. a1_status a = A1_RUNNING) ats = [a]"
    using found(4) by (auto simp: thenR_Inr_iff split: list.splits)
  then have ats: "list_attempts1 s (t1_id t) = Inr ats" and a: "filter (\<lambda>a. a1_status a = A1_RUNNING) ats = [a]"
    and t: "t \<in> set (dict_values tasks)" "t1_status t = T1_RUNNING"
    using found(1-3) by (auto simp: find_Some_iff)
  have mem: "a \<in> set ats \<and> a1_status a = A1_RUNNING"
    using arg_cong [OF a, where f = set] by auto
  then have "open_attempt s0 (a1_id a)"
    by (intro listed_open_attempt [OF assms(2) ats]) (simp_all add: ATTEMPT1_TERMINAL_def)
  moreover have "live1 s0 t" using t(1) assms(3) by (auto simp: live_all1_def dict_values_def)
  then have "open_task s0 (t1_id t)" using t(2) by (auto simp: live1_def task_closed_def TASK1_TERMINAL_def)
  ultimately show ?thesis by simp
qed

lemma applied_step:
  assumes "applied_open1 s0 st" "kept1 s0 s" "ambiguous_attempt1 run_id item (ap_tasks st) s = Inr (t, a)"
    and "t1_id t' = t1_id t" "a1_id a' = a1_id a"
    and "ap_tasks st' = dict_set k t' (ap_tasks st)" "ap_attempts st' = ap_attempts st @ [a']"
    "ap_changed st' = ap_changed st @ [t']"
  shows "applied_open1 s0 st'"
  using assms(1,4-) ambiguous_open [OF assms(3,2)] by (auto simp: applied_open1_def intro: live_all_set_open)

lemma safe1_bind_lift_pair:
  "(\<And>x y. r = Inr (x, y) \<Longrightarrow> safe1 s0 (f x y) R) \<Longrightarrow> safe1 s0 (bindA (liftR r) (\<lambda>(x, y). f x y)) R"
  by (rule safe1_bind_lift) auto

lemma safe1_apply_item:
  assumes st: "applied_open1 s0 st"
  shows "safe1 s0 (apply_item1 P run_id item st) (applied_open1 s0)"
proof -
  have cancelled: "safe1 s0 (bindA (gets en_store) (\<lambda>s.
      bindA (liftR (ambiguous_attempt1 run_id item (ap_tasks st) s)) (\<lambda>(t, a).
      bindA (now1 P) (\<lambda>d. bindA (liftR (cancel_attempt1 d a)) (\<lambda>a. bindA (liftR (cancel_task1 d t)) (\<lambda>t.
      ret (st\<lparr>ap_tasks := dict_set (t1_task_id t) t (ap_tasks st), ap_attempts := ap_attempts st @ [a],
        ap_changed := ap_changed st @ [t]\<rparr>))))))) (applied_open1 s0)"
    by (intro safe1_bind_store safe1_bind_lift_pair safe1_steps safe1_ret)
      (rule applied_step [OF st], assumption+, erule same_ids1, erule same_ids1, simp_all)
  show ?thesis
  proof (cases "tk1_disposition item")
  case DI1_CONFIRMED_SUCCEEDED
  show ?thesis
    unfolding apply_item1_def Let_def DI1_CONFIRMED_SUCCEEDED v1_disposition.case
    by (intro safe1_bind_store safe1_bind_lift_pair safe1_steps safe1_ret)
      (rule applied_step [OF st], assumption+, erule same_ids1, erule same_ids1, simp_all)
next
  case DI1_CONFIRMED_FAILED
  show ?thesis
    unfolding apply_item1_def Let_def DI1_CONFIRMED_FAILED v1_disposition.case
    by (intro safe1_bind_store safe1_bind_lift_pair safe1_steps safe1_ret)
      (rule applied_step [OF st], assumption+, erule same_ids1, erule same_ids1, simp_all)
qed (simp_all only: apply_item1_def Let_def v1_disposition.case cancelled)
qed

lemma safe1_persist_applied:
  assumes "applied_open1 s0 st" "\<And>r. run = Some r \<Longrightarrow> open_run s0 (r1_id r)"
  shows "safe1 s0 (persist_applied1 P run st) (\<lambda>_. True)"
proof -
  have "\<forall>t \<in> set (dict_values (fold (\<lambda>t d. dict_set (t1_id t) t d) ts d)). open_task s0 (t1_id t)"
    if "\<forall>t \<in> set ts. open_task s0 (t1_id t)" "\<forall>t \<in> set (dict_values d). open_task s0 (t1_id t)" for ts d
    using that
  proof (induction ts arbitrary: d)
    case (Cons t ts)
    have "\<forall>u \<in> set (dict_values (dict_set (t1_id t) t d)). open_task s0 (t1_id u)"
      using Cons.prems dict_set_subset [of "t1_id t" t d] by (fastforce simp: dict_values_def)
    then show ?case using Cons.IH Cons.prems(1) by simp
  qed simp
  from this [of "ap_changed st" "[]"] have "\<forall>t \<in> set (dict_values (fold (\<lambda>t d. dict_set (t1_id t) t d) (ap_changed st) [])).
      open_task s0 (t1_id t)" using assms(1) by (simp add: applied_open1_def dict_values_def)
  then show ?thesis
    unfolding persist_applied1_def using assms
    by (intro safe1_persist_true) (auto simp: applied_open1_def reveals_saves split: option.splits)
qed

lemma safe1_apply_skip:
  assumes st: "applied_open1 s0 st"
  shows "safe1 s0 (apply_skip1 P d failed decision st) (applied_open1 s0)"
proof (cases decision)
  case (Pair k reason)
  show ?thesis
    unfolding apply_skip1_def Pair prod.case
  proof (intro safe1_bind_lift safe1_bind_event safe1_ret)
    fix t u e ef assume "key_lookup (ap_tasks st) k = Inr t" and u: "skip_task1 reason d t = Inr u"
    then have "open_task s0 (t1_id u)"
      using skip_live [OF u] live_all_get [of s0 "ap_tasks st" k t] st by (simp add: applied_open1_def)
    then show "applied_open1 s0 (st\<lparr>ap_tasks := dict_set k u (ap_tasks st), ap_changed := ap_changed st @ [u],
       ap_events := ap_events st @ [e], ap_factory := ef\<rparr>)"
      using st by (auto simp: applied_open1_def intro: live_all_set_open)
  qed
qed

lemma safe1_apply_failure:
  assumes st: "applied_open1 s0 st" and run: "open_run s0 (r1_id run)"
  shows "safe1 s0 (apply_failure1 P run g plan_ids failed st) (\<lambda>_. True)"
proof (cases "t1_finished_at failed")
  case None
  then show ?thesis by (simp add: apply_failure1_def safe1_raise)
next
  case (Some d)
  have skips: "safe1 s0 (foldA (apply_skip1 P d (t1_task_id failed)) ds st) (applied_open1 s0)" for ds
    by (rule safe1_foldA [where J = "applied_open1 s0", OF safe1_apply_skip st])
  show ?thesis
    unfolding apply_failure1_def Some option.case
    by (intro safe1_bind_lift safe1_bind [OF skips] safe1_bind_event safe1_persist_applied)
      (use run in \<open>auto simp: same_ids1\<close>)
qed

lemma cancel_live:
  "cancel_task1 n t = Inr t' \<Longrightarrow> t1_status t = T1_PENDING \<or> t1_status t = T1_READY \<Longrightarrow> live1 s0 t \<Longrightarrow> open_task s0 (t1_id t')"
  by (auto simp: task1_Inr live1_def task_closed_def TASK1_TERMINAL_def)

lemma safe1_apply_cancellation:
  assumes st: "applied_open1 s0 st" and run: "open_run s0 (r1_id run)"
  shows "safe1 s0 (apply_cancellation1 P run st) (\<lambda>_. True)"
  unfolding apply_cancellation1_def
proof (intro safe1_bind_now safe1_bind_lift safe1_bind_event safe1_persist_applied)
  fix d st' run' e ef
  assume cancelled: "foldR (apply_cancel1 d) (ap_tasks st) st = Inr st'" and r: "cancel_run1 d run = Inr run'"
  have "applied_open1 s0 st'" if "foldR (apply_cancel1 d) xs st = Inr st'" "applied_open1 s0 st" "\<forall>(k, t) \<in> set xs. live1 s0 t" for xs st
    using that
  proof (induction xs arbitrary: st)
    case (Cons x xs)
    obtain mid where mid: "apply_cancel1 d x st = Inr mid" "foldR (apply_cancel1 d) xs mid = Inr st'"
      using Cons.prems(1) by (auto simp: bindR_Inr_iff)
    obtain k t where x: "x = (k, t)" by (cases x)
    then have t: "live1 s0 t" using Cons.prems(3) by simp
    have "applied_open1 s0 mid"
    proof (cases "t1_status t = T1_PENDING \<or> t1_status t = T1_READY")
      case True
      then obtain u where u: "cancel_task1 d t = Inr u" "mid = st\<lparr>ap_changed := ap_changed st @ [u]\<rparr>"
        using mid(1) x by (auto simp: apply_cancel1_def bindR_Inr_iff)
      then show ?thesis using cancel_live [OF u(1) True t] Cons.prems(2) by (auto simp: applied_open1_def)
    next
      case False
      then have "mid = st" using mid(1) x by (simp add: apply_cancel1_def)
      then show ?thesis using Cons.prems(2) by simp
    qed
    then show ?case using Cons.IH [OF mid(2)] Cons.prems(3) by simp
  qed simp
  from this [OF cancelled st] have "applied_open1 s0 st'"
    using st unfolding applied_open1_def live_all1_def by blast
  then show "applied_open1 s0 (st'\<lparr>ap_events := ap_events st' @ [e], ap_factory := ef\<rparr>)" by simp
  fix x assume "Some run' = Some x"
  then show "open_run s0 (r1_id x)" using run same_ids1(4) [OF r] by simp
qed

lemma safe1_apply_report:
  assumes run: "open_run s0 (r1_id run)" and tasks: "live_all1 s0 tasks"
  shows "safe1 s0 (apply_report1 P run report g plan_ids tasks ef) (\<lambda>_. True)"
proof (cases "rep1_tasks report = []")
  case True
  then show ?thesis by (simp add: apply_report1_def safe1_ret)
next
  case False
  let ?start = "\<lparr>ap_tasks = tasks, ap_attempts = [], ap_changed = [], ap_events = [], ap_factory = ef, ap_failed = None\<rparr>"
  have start: "applied_open1 s0 ?start" using tasks by (simp add: applied_open1_def)
  have items: "safe1 s0 (foldA (apply_item1 P (r1_id run)) (rep1_tasks report) ?start) (applied_open1 s0)"
    by (rule safe1_foldA [where J = "applied_open1 s0", OF safe1_apply_item start])
  show ?thesis
    unfolding apply_report1_def if_not_P [OF False] Let_def
  proof (intro safe1_then_require safe1_bind [OF items])
    fix st assume st: "applied_open1 s0 st"
    have "safe1 s0 (thenA (apply_failure1 P run g plan_ids failed st) (ret (True, ap_factory st))) (\<lambda>_. True)" for failed
      by (intro safe1_then_true [OF safe1_apply_failure [OF st run]] safe1_ret TrueI)
    moreover have "safe1 s0 (thenA (apply_cancellation1 P run st) (ret (True, ap_factory st))) (\<lambda>_. True)"
      by (intro safe1_then_true [OF safe1_apply_cancellation [OF st run]] safe1_ret TrueI)
    moreover have "safe1 s0 (thenA (persist_applied1 P None st) (ret (False, ap_factory st))) (\<lambda>_. True)"
      by (intro safe1_then_true [OF safe1_persist_applied [OF st]] safe1_ret TrueI) simp
    ultimately show "safe1 s0 (case ap_failed st of
          Some failed \<Rightarrow> thenA (apply_failure1 P run g plan_ids failed st) (ret (True, ap_factory st))
        | None \<Rightarrow>
            (if list_ex (\<lambda>x. tk1_disposition x = DI1_CONFIRMED_CANCELLED) (rep1_tasks report)
             then thenA (apply_cancellation1 P run st) (ret (True, ap_factory st))
             else thenA (persist_applied1 P None st) (ret (False, ap_factory st)))) (\<lambda>_. True)"
      by (simp split: option.split)
  qed
qed

lemma safe1_resumable: "safe1 s0 (resumable1 P run_id k g persisted t scheduled) (\<lambda>_. True)"
proof -
  have any: "safe1 s0 (requireA b e) (\<lambda>_. True)" for b e by (rule safe1_true [OF safe1_require])
  have waiting: "safe1 s0 (bindA (now1 P) (\<lambda>at_time. requireA (\<not> at_time < d) e)) (\<lambda>_. True)" for d e
    by (intro safe1_bind_now any)
  have ready: "safe1 s0 (bindA (liftR (is_ready1 g persisted t)) (\<lambda>ready. requireA ready e)) (\<lambda>_. True)" for e
    by (intro safe1_bind_lift any)
  have deps: "safe1 s0 (bindA (liftR r) (\<lambda>ups. liftR (f ups))) (\<lambda>_. True)" for r f
    by (intro safe1_bind_lift safe1_lift_true)
  show ?thesis
    unfolding resumable1_def
    by (intro safe1_then_require) (auto simp only: waiting ready deps safe1_raise
      split: prod.split v1_task_status.split option.split)
qed

lemma safe1_resume_planned:
  assumes run: "open_run s0 (r1_id run)"
  shows "safe1 s0 (resume_planned1 P pr run k p) (\<lambda>_. True)"
proof -
  obtain ef0 outputs where p: "p = (ef0, outputs)" by (cases p)
  have make_ready: "safe1 s0 (if t1_status t = T1_PENDING then
           bindA (now1 P) (\<lambda>ready_at.
           bindA (liftR (mark_ready1 t)) (\<lambda>t.
           bindA (new_event1 P v1_event_type.TASK_READY ready_at (Some (t1_id t, k)) None (recovery_payload ''resume'') ef0) (\<lambda>(e, ef).
           thenA (persist_task1 P t e) (ret (t, ef)))))
         else ret (t, ef0)) (\<lambda>(t, ef). live1 s0 t)" if t: "live1 s0 t" for t
  proof -
    have "safe1 s0 (bindA (now1 P) (\<lambda>ready_at. bindA (liftR (mark_ready1 t)) (\<lambda>t.
           bindA (new_event1 P v1_event_type.TASK_READY ready_at (Some (t1_id t, k)) None (recovery_payload ''resume'') ef0) (\<lambda>(e, ef).
           thenA (persist_task1 P t e) (ret (t, ef)))))) (\<lambda>(t, ef). live1 s0 t)"
      by (intro safe1_bind_now safe1_bind_lift safe1_bind_event safe1_then_true [OF safe1_persist_task] safe1_ret)
        (use t in \<open>auto intro: live_ready live_of_open\<close>)
    then show ?thesis using t by (simp add: safe1_ret)
  qed
  have start: "safe1 s0 (if t1_status t = T1_RUNNING then ret t else liftR (start_task1 d t)) (\<lambda>t. open_task s0 (t1_id t))"
    if t: "live1 s0 t" for t d
    using live_start [OF _ t] live_open [OF t]
    by (auto simp: TASK1_TERMINAL_def intro!: safe1_ret safe1_lift)
  show ?thesis
    unfolding resume_planned1_def p prod.case
  proof (intro safe1_bind_load safe1_bind_lift)
    fix persisted t
    assume persisted: "live_all1 s0 persisted" and "key_lookup persisted k = Inr t"
    then have t: "live1 s0 t" by (rule live_all_get)
    show "safe1 s0 (if t1_status t = T1_SUCCEEDED then ret (ef0, outputs)
     else
       bindA (gets en_store) (\<lambda>s.
       bindA (liftR (list_attempts1 s (t1_id t))) (\<lambda>attempts.
       thenA (resumable1 P (r1_id run) k (pr_graph pr) persisted t (pending_retry1 attempts))
      (bindA (gets en_store) (\<lambda>s.
       bindA (liftR (resumed_outputs1 s (r1_id run) k (pr_graph pr) persisted outputs)) (\<lambda>deps.
       bindA (if t1_status t = T1_PENDING then
           bindA (now1 P) (\<lambda>ready_at.
           bindA (liftR (mark_ready1 t)) (\<lambda>t.
           bindA (new_event1 P v1_event_type.TASK_READY ready_at (Some (t1_id t, k)) None (recovery_payload ''resume'') ef0) (\<lambda>(e, ef).
           thenA (persist_task1 P t e) (ret (t, ef)))))
         else ret (t, ef0)) (\<lambda>(t, ef).
       bindA (now1 P) (\<lambda>started_at.
       bindA (if t1_status t = T1_RUNNING then ret t else liftR (start_task1 started_at t)) (\<lambda>t.
       bindA (new_attempt1 P t (next_number1 attempts) started_at) (\<lambda>a.
       bindA (new_event1 P v1_event_type.TASK_STARTED started_at (Some (t1_id t, k)) (Some (next_number1 attempts))
         (recovery_payload ''resume'') ef) (\<lambda>(e, ef).
       thenA (persist_start1 P t a e)
      (bindA (liftR (key_lookup (pr_definitions pr) k)) (\<lambda>td.
       bindA (liftR (key_lookup (pr_handlers pr) k)) (\<lambda>h.
       bindA (load_task_runs1 run) (\<lambda>tasks.
       bindA (execute_with_retry1 (attempt_fuel1 td (next_number1 attempts)) P \<lparr>fr_run = run, fr_task = td, fr_handler = h,
         fr_parameters = pr_parameters pr, fr_outputs = deps, fr_graph = pr_graph pr,
         fr_plan_ids = pr_plan_ids pr, fr_tasks = tasks\<rparr> t a ef) (\<lambda>(result, t, ef).
       ret (ef, dict_set k (res1_output result) outputs))))))))))))))))) (\<lambda>_. True)"
    proof (cases "t1_status t = T1_SUCCEEDED")
      case False
      show ?thesis
        unfolding if_not_P [OF False]
      proof (intro safe1_bind_store safe1_bind_lift safe1_then_true [OF safe1_resumable] safe1_bind_pair [OF make_ready [OF t]]
          safe1_bind_now safe1_bind [OF start] safe1_bind_attempt safe1_bind_event safe1_then [OF safe1_persist_start] safe1_bind_load)
        fix u :: v1_task_run and a :: v1_attempt and td h deps tasks ef and attempts :: "v1_attempt list"
        assume u: "open_task s0 (t1_id u)" and a: "open_attempt s0 (a1_id a)" and tasks: "live_all1 s0 tasks"
        have frame: "frame_open1 s0 \<lparr>fr_run = run, fr_task = td, fr_handler = h, fr_parameters = pr_parameters pr,
            fr_outputs = deps, fr_graph = pr_graph pr, fr_plan_ids = pr_plan_ids pr, fr_tasks = tasks\<rparr>"
          using run tasks by (simp add: frame_open1_def)
        show "safe1 s0 (bindA (execute_with_retry1 (attempt_fuel1 td (next_number1 attempts)) P \<lparr>fr_run = run, fr_task = td,
            fr_handler = h, fr_parameters = pr_parameters pr, fr_outputs = deps, fr_graph = pr_graph pr,
            fr_plan_ids = pr_plan_ids pr, fr_tasks = tasks\<rparr> u a ef) (\<lambda>(result, t, ef).
            ret (ef, dict_set k (res1_output result) outputs))) (\<lambda>_. True)"
          by (rule safe1_bind [OF safe1_execute [OF frame u a]]) (auto intro: safe1_ret)
      qed
    qed (simp add: safe1_ret)
  qed
qed

lemma checked_run:
  "resume_checks1 w run run_id report = Inr () \<Longrightarrow> r1_status run \<notin> RUN1_TERMINAL"
  by (auto simp: resume_checks1_def thenR_Inr_iff RUN1_TERMINAL_def)

lemma safe1_resume: "safe1 s0 (resume1 P registry w run_id report) (\<lambda>_. True)"
  unfolding resume1_def
proof (intro safe1_bind_lift safe1_then_lift safe1_bind_store)
  fix g plan s run params
  assume "kept1 s0 s" "get_run1 s run_id = Inr run" "resume_checks1 w run run_id report = Inr ()"
  then have run: "open_run s0 (r1_id run)" by (intro got_open_run checked_run)
  show "safe1 s0 (bindA (load_task_runs1 run) (\<lambda>tasks.
     thenA (requireA (fst ` set tasks = set (pl1_task_ids plan))
       (resume_error1 run_id ''persisted TaskRun set does not match workflow definition''))
    (bindA (liftR (mk_event_factory1 run_id (next_sequence1 (list_events1 s run_id)))) (\<lambda>ef.
     bindA (apply_report1 P run report g (pl1_task_ids plan) tasks ef) (\<lambda>(settled, ef).
     if settled then bindA (gets en_store) (\<lambda>s. liftR (get_run1 s run_id))
     else
       bindA (load_task_runs1 run) (\<lambda>tasks.
       bindA (gets en_store) (\<lambda>s.
       bindA (liftR (resume_tasks1 s tasks (pl1_task_ids plan))) (\<lambda>ids.
       bindA (liftR (resume_preflight1 P registry w ids)) (\<lambda>hs.
       bindA (foldA (resume_planned1 P \<lparr>pr_graph = g, pr_plan_ids = pl1_task_ids plan, pr_parameters = params,
           pr_handlers = hs, pr_definitions = map (\<lambda>t. (td1_id t, t)) (wd1_tasks w)\<rparr> run)
         (pl1_task_ids plan) (ef, [])) (\<lambda>(ef, outputs).
       bindA (load_task_runs1 run) (\<lambda>final.
       thenA (requireA (\<forall>t \<in> set (dict_values final). t1_status t = T1_SUCCEEDED)
         (resume_error1 run_id ''resume exhausted execution plan before all tasks succeeded''))
         (finish_workflow1 P run (recovery_payload ''resume'') ef)))))))))))) (\<lambda>_. True)"
  proof (intro safe1_bind_load safe1_then_require safe1_bind_lift, rule safe1_bind [OF safe1_apply_report [OF run]])
    fix d ef and x :: "bool \<times> event_factory1"
    obtain settled ef where x: "x = (settled, ef)" by (cases x)
    have settling: "safe1 s0 (bindA (gets en_store) (\<lambda>s. liftR (get_run1 s run_id))) (\<lambda>_. True)"
      by (intro safe1_bind_store safe1_lift_true)
    have planned: "safe1 s0 (foldA (resume_planned1 P pr run) ks acc) (\<lambda>_. True)" for pr ks acc
      by (rule safe1_foldA) (simp_all add: safe1_resume_planned [OF run])
    have continuing: "safe1 s0 (bindA (load_task_runs1 run) (\<lambda>tasks.
       bindA (gets en_store) (\<lambda>s.
       bindA (liftR (resume_tasks1 s tasks (pl1_task_ids plan))) (\<lambda>ids.
       bindA (liftR (resume_preflight1 P registry w ids)) (\<lambda>hs.
       bindA (foldA (resume_planned1 P \<lparr>pr_graph = g, pr_plan_ids = pl1_task_ids plan, pr_parameters = params,
           pr_handlers = hs, pr_definitions = map (\<lambda>t. (td1_id t, t)) (wd1_tasks w)\<rparr> run)
         (pl1_task_ids plan) (ef, [])) (\<lambda>(ef, outputs).
       bindA (load_task_runs1 run) (\<lambda>final.
       thenA (requireA (\<forall>t \<in> set (dict_values final). t1_status t = T1_SUCCEEDED)
         (resume_error1 run_id ''resume exhausted execution plan before all tasks succeeded''))
         (finish_workflow1 P run (recovery_payload ''resume'') ef)))))))) (\<lambda>_. True)"
    proof (intro safe1_bind_load safe1_bind_store safe1_bind_lift, rule safe1_bind [OF planned])
      fix y :: "event_factory1 \<times> (string, pyval) dict"
      obtain ef' outputs where y: "y = (ef', outputs)" by (cases y)
      show "safe1 s0 (case y of (ef, outputs) \<Rightarrow> bindA (load_task_runs1 run) (\<lambda>final.
         thenA (requireA (\<forall>t \<in> set (dict_values final). t1_status t = T1_SUCCEEDED)
           (resume_error1 run_id ''resume exhausted execution plan before all tasks succeeded''))
           (finish_workflow1 P run (recovery_payload ''resume'') ef))) (\<lambda>_. True)"
        unfolding y prod.case by (intro safe1_bind_load safe1_then_require safe1_finish_workflow run)
    qed
    show "safe1 s0 (case x of (settled, ef) \<Rightarrow>
     if settled then bindA (gets en_store) (\<lambda>s. liftR (get_run1 s run_id))
     else
       bindA (load_task_runs1 run) (\<lambda>tasks.
       bindA (gets en_store) (\<lambda>s.
       bindA (liftR (resume_tasks1 s tasks (pl1_task_ids plan))) (\<lambda>ids.
       bindA (liftR (resume_preflight1 P registry w ids)) (\<lambda>hs.
       bindA (foldA (resume_planned1 P \<lparr>pr_graph = g, pr_plan_ids = pl1_task_ids plan, pr_parameters = params,
           pr_handlers = hs, pr_definitions = map (\<lambda>t. (td1_id t, t)) (wd1_tasks w)\<rparr> run)
         (pl1_task_ids plan) (ef, [])) (\<lambda>(ef, outputs).
       bindA (load_task_runs1 run) (\<lambda>final.
       thenA (requireA (\<forall>t \<in> set (dict_values final). t1_status t = T1_SUCCEEDED)
         (resume_error1 run_id ''resume exhausted execution plan before all tasks succeeded''))
         (finish_workflow1 P run (recovery_payload ''resume'') ef)))))))) (\<lambda>_. True)"
      unfolding x prod.case using settling continuing by (cases settled) (simp_all only: if_True if_False)
  qed
qed

end
