(* ===== verification/V1_Planning.thy ===== *)
theory V1_Planning
  imports V1_Graph
begin

text \<open>
  What the first-generation graph, its validation and its plan are.  A list of second-generation
  tasks of the same shape carries the notions of \<open>Planning\<close> (edges, layers, degrees) over, so
  that the two generations are compared on the same graph.
\<close>

section \<open>The index of edges\<close>

definition shape :: "v1_workflow \<Rightarrow> task_definition list \<Rightarrow> bool" where
  "shape w tasks \<longleftrightarrow> map (\<lambda>t. (td_key t, td_dependencies t)) tasks =
     map (\<lambda>t. (td1_id t, td1_depends_on t)) (wd1_tasks w)"

text \<open>What the constructors of \<open>domain/definitions.py\<close> guarantee.\<close>

definition valid_workflow1 :: "v1_workflow \<Rightarrow> bool" where
  "valid_workflow1 w \<longleftrightarrow> \<not> blank (wd1_id w) \<and> \<not> blank (wd1_version w) \<and> wd1_tasks w \<noteq> [] \<and>
     distinct (map td1_id (wd1_tasks w)) \<and>
     (\<forall>t \<in> set (wd1_tasks w). \<not> blank (td1_id t) \<and> distinct (td1_depends_on t) \<and>
        td1_id t \<notin> set (td1_depends_on t) \<and> (\<forall>d \<in> set (td1_depends_on t). \<not> blank d))"

lemma mk_task1_Inr:
  assumes "mk_task1 t = Inr t'"
  shows "td1_id t' = td1_id t \<and> td1_depends_on t' = td1_depends_on t \<and> \<not> blank (td1_id t) \<and>
    distinct (td1_depends_on t) \<and> td1_id t \<notin> set (td1_depends_on t) \<and> (\<forall>d \<in> set (td1_depends_on t). \<not> blank d)"
  using assms by (auto simp: mk_task1_def thenR_Inr_iff nonempty_id_def forR_Inr_iff)

lemma constructed_valid:
  assumes "mapR mk_task1 ts = Inr (wd1_tasks w)" "mk_workflow1 w = Inr w'"
  shows "valid_workflow1 w \<and> w' = w"
proof -
  have "list_all2 (\<lambda>t t'. mk_task1 t = Inr t') ts (wd1_tasks w)" using assms(1) by (simp add: mapR_Inr_iff)
  then have "\<exists>t. mk_task1 t = Inr t'" if "t' \<in> set (wd1_tasks w)" for t'
    using that by (meson list_all2_right)
  then show ?thesis
    using assms(2) mk_task1_Inr unfolding mk_workflow1_Inr valid_workflow1_def by metis
qed

lemma shape_simps:
  assumes "shape w tasks"
  shows "map td_key tasks = map td1_id (wd1_tasks w)"
    and "dep_edges tasks = {(d, td1_id t) | d t. t \<in> set (wd1_tasks w) \<and> d \<in> set (td1_depends_on t)}"
    and "deps_known tasks \<longleftrightarrow> (\<forall>t \<in> set (wd1_tasks w). set (td1_depends_on t) \<subseteq> td1_id ` set (wd1_tasks w))"
proof -
  have pairs: "(\<lambda>t. (td_key t, td_dependencies t)) ` set tasks = (\<lambda>t. (td1_id t, td1_depends_on t)) ` set (wd1_tasks w)"
    using assms unfolding shape_def by (metis set_map)
  show keys: "map td_key tasks = map td1_id (wd1_tasks w)"
    using arg_cong [OF assms [unfolded shape_def], of "map fst"] by (simp add: comp_def)
  have "dep_edges tasks = (\<Union>(k, ds) \<in> (\<lambda>t. (td_key t, td_dependencies t)) ` set tasks. (\<lambda>d. (d, k)) ` set ds)"
    by (auto simp: dep_edges_def)
  then show "dep_edges tasks = {(d, td1_id t) | d t. t \<in> set (wd1_tasks w) \<and> d \<in> set (td1_depends_on t)}"
    unfolding pairs by auto
  have ids: "td_key ` set tasks = td1_id ` set (wd1_tasks w)" using keys by (metis set_map)
  have "deps_known tasks \<longleftrightarrow> (\<forall>(k, ds) \<in> (\<lambda>t. (td_key t, td_dependencies t)) ` set tasks. set ds \<subseteq> td_key ` set tasks)"
    by (simp add: deps_known_def)
  then show "deps_known tasks \<longleftrightarrow> (\<forall>t \<in> set (wd1_tasks w). set (td1_depends_on t) \<subseteq> td1_id ` set (wd1_tasks w))"
    unfolding pairs ids by simp
qed

lemma append_at_fold:
  "deps_of (fold (\<lambda>e. append_at (f e) (h e)) es dm) k =
     (if dict_has dm k then deps_of dm k @ map h (filter (\<lambda>e. f e = k) es) else [])"
  "fst ` set (fold (\<lambda>e. append_at (f e) (h e)) es dm) = fst ` set dm"
proof (induction es arbitrary: dm)
  case Nil
  {
    case 1
    show ?case by (auto simp: deps_of_def dict_get_None_iff split: option.splits dest: map_of_SomeD)
      (metis dict_get_None_iff option.distinct(1))
  }
qed (auto simp: append_at_def dict_set_keys deps_of_set)

lemma sort_mset_eq: "mset xs = mset ys \<Longrightarrow> sort xs = sort (ys :: 'a :: linorder list)"
  by (metis mset_sort properties_for_sort sorted_sort)

definition edges_of1 :: "v1_task list \<Rightarrow> (string \<times> string) list" where
  "edges_of1 ts = concat (map (\<lambda>t. map (\<lambda>d. (d, td1_id t)) (td1_depends_on t)) ts)"

lemma edges_into:
  assumes "distinct (map td1_id ts)" "t \<in> set ts"
  shows "map fst (filter (\<lambda>e. snd e = td1_id t) (edges_of1 ts)) = td1_depends_on t"
  using assms
proof (induction ts)
  case (Cons s ts)
  have none: "filter (\<lambda>e. snd e = k) (edges_of1 ts) = []" if "k \<notin> td1_id ` set ts" for k
    using that by (auto simp: edges_of1_def filter_empty_conv)
  show ?case
  proof (cases "t = s")
    case True
    then show ?thesis using Cons.prems(1) none by (simp add: edges_of1_def comp_def)
  next
    case False
    then have "td1_id t \<noteq> td1_id s" "t \<in> set ts" using Cons.prems by (auto simp: rev_image_eqI)
    then show ?thesis using Cons by (simp add: edges_of1_def comp_def)
  qed
qed simp

lemma distinct_edges1:
  assumes "distinct (map td1_id ts)" "\<forall>t \<in> set ts. distinct (td1_depends_on t)"
  shows "distinct (edges_of1 ts)"
  using assms by (induction ts) (auto simp: edges_of1_def distinct_map inj_on_def)

definition as_graph :: "v1_graph \<Rightarrow> dependency_graph" where
  "as_graph g = \<lparr>gr_task_keys = g1_nodes g, gr_dependencies = g1_upstream g,
     gr_downstream = g1_downstream g, gr_edges = g1_edges g\<rparr>"

lemma build_graph1_Inr:
  assumes "valid_workflow1 w"
  defines "ids \<equiv> map td1_id (wd1_tasks w)" and "es \<equiv> sort (edges_of1 (wd1_tasks w))"
  shows "\<exists>g. build_graph1 w = Inr g \<and> g1_nodes g = sort ids \<and> g1_edges g = es \<and>
    (\<forall>k \<in> set ids. deps_of (g1_upstream g) k = sort (map fst (filter (\<lambda>e. snd e = k) es)) \<and>
       deps_of (g1_downstream g) k = sort (map snd (filter (\<lambda>e. fst e = k) es))) \<and>
    (\<forall>k. k \<notin> set ids \<longrightarrow> deps_of (g1_downstream g) k = [])"
proof -
  have nodes: "mapR (\<lambda>t. thenR (nonempty_id ''task_id'' (td1_id t)) (Inr (td1_id t))) (wd1_tasks w) = Inr ids"
    using assms(1) by (auto simp: mapR_Inr_iff ids_def list_all2_map2 thenR_Inr_iff nonempty_id_def
        valid_workflow1_def intro!: list.rel_refl_strong)
  have edges: "mapR (\<lambda>t. mapR (\<lambda>d. thenR (nonempty_id ''upstream_task_id'' d)
        (thenR (nonempty_id ''downstream_task_id'' (td1_id t)) (Inr (d, td1_id t))))
         (td1_depends_on t)) (wd1_tasks w) =
      Inr (map (\<lambda>t. map (\<lambda>d. (d, td1_id t)) (td1_depends_on t)) (wd1_tasks w))"
    using assms(1) by (auto simp: mapR_Inr_iff list_all2_map2 thenR_Inr_iff nonempty_id_def
        valid_workflow1_def intro!: list.rel_refl_strong)
  have has: "k \<in> fst ` (\<lambda>x. (x, [] :: string list)) ` set ids \<longleftrightarrow> k \<in> set ids" for k by force
  have es: "sort (concat (map (\<lambda>t. map (\<lambda>d. (d, td1_id t)) (td1_depends_on t)) (wd1_tasks w))) = es"
    by (simp add: es_def edges_of1_def)
  have dist: "distinct ids" using assms(1) by (simp add: valid_workflow1_def ids_def)
  have swap: "(\<lambda>(u, d). append_at d u) = (\<lambda>e. append_at (snd e) (fst e))"
    "(\<lambda>(u, d). append_at u d) = (\<lambda>e. append_at (fst e) (snd e))"
    by auto
  show ?thesis
    unfolding build_graph1_def nodes edges mk_graph1_def Let_def bindR_simps es swap distinct_sort
    by (simp add: sort_values_def deps_of_map_sort append_at_fold has deps_of_const_empty require_def dist)
qed

lemma graph_of_build1:
  assumes "valid_workflow1 w" "shape w tasks" "deps_known tasks" "build_graph1 w = Inr g"
  shows "graph_of tasks (as_graph g)"
proof -
  let ?es = "sort (edges_of1 (wd1_tasks w))"
  have gn: "g1_nodes g = sort (map td1_id (wd1_tasks w))"
    and gu: "\<And>k. k \<in> set (map td1_id (wd1_tasks w)) \<Longrightarrow>
        deps_of (g1_upstream g) k = sort (map fst (filter (\<lambda>e. snd e = k) ?es))"
    and gd: "\<And>k. k \<in> set (map td1_id (wd1_tasks w)) \<Longrightarrow>
        deps_of (g1_downstream g) k = sort (map snd (filter (\<lambda>e. fst e = k) ?es))"
    and g0: "\<And>k. k \<notin> set (map td1_id (wd1_tasks w)) \<Longrightarrow> deps_of (g1_downstream g) k = []"
    using build_graph1_Inr [OF assms(1)] assms(4) by auto
  note keys = shape_simps(1) [OF assms(2)]
  have dist: "distinct (map td1_id (wd1_tasks w))" "\<forall>t \<in> set (wd1_tasks w). distinct (td1_depends_on t)"
    using assms(1) by (simp_all add: valid_workflow1_def)
  have up: "deps_of (g1_upstream g) (td1_id t) = sort (td1_depends_on t)" if t: "t \<in> set (wd1_tasks w)" for t
  proof -
    have "mset (map fst (filter (\<lambda>e. snd e = td1_id t) ?es)) = mset (td1_depends_on t)"
      using edges_into [OF dist(1) t] by (metis mset_filter mset_map mset_sort)
    from sort_mset_eq [OF this] show ?thesis using gu [of "td1_id t"] t by simp
  qed
  have e: "(d, k) \<in> set ?es \<longleftrightarrow> (d, k) \<in> dep_edges tasks" for d k
    unfolding shape_simps(2) [OF assms(2)] by (auto simp: edges_of1_def)
  have "distinct ?es" using distinct_edges1 [OF dist] by simp
  then have "distinct (map snd (filter (\<lambda>e. fst e = d) ?es))" for d
    by (auto simp: distinct_map inj_on_def prod_eq_iff)
  moreover have "set (map snd (filter (\<lambda>e. fst e = d) ?es)) = {k. (d, k) \<in> dep_edges tasks}" for d
    unfolding e [symmetric] by force
  moreover have "{k. (d, k) \<in> dep_edges tasks} = {}" if "d \<notin> set (map td1_id (wd1_tasks w))" for d
    using dep_set_known [OF assms(3)] that arg_cong [OF keys, of set] by (auto simp: dep_set_def)
  note calculation = calculation this
  have down: "distinct (deps_of (g1_downstream g) d) \<and>
      set (deps_of (g1_downstream g) d) = {k. (d, k) \<in> dep_edges tasks}" for d
  proof (cases "d \<in> set (map td1_id (wd1_tasks w))")
    case True
    then show ?thesis using calculation(1,2) [of d] unfolding gd [OF True] distinct_sort set_sort by blast
  next
    case False
    then show ?thesis using calculation(3) [of d] unfolding g0 [OF False] by simp
  qed
  have "(\<lambda>t. (td_key t, td_dependencies t)) ` set tasks = (\<lambda>t. (td1_id t, td1_depends_on t)) ` set (wd1_tasks w)"
    using assms(2) unfolding shape_def by (metis set_map)
  then have "\<exists>s \<in> set (wd1_tasks w). td_key t = td1_id s \<and> td_dependencies t = td1_depends_on s" if "t \<in> set tasks" for t
    using that by (metis (mono_tags, lifting) image_iff prod.inject)
  then have "deps_of (g1_upstream g) (td_key t) = sort (td_dependencies t) \<and> distinct (td_dependencies t)" if "t \<in> set tasks" for t
    using that up dist(2) by metis
  moreover have "g1_nodes g = sort (map td_key tasks)" using gn keys by simp
  moreover have "distinct (map td_key tasks)" using keys dist(1) by simp
  ultimately show ?thesis using down by (simp add: graph_of_def as_graph_def)
qed

section \<open>The acyclicity check is exact\<close>

lemma release1_fold:
  "fold decrement ds (deg, nr) = (deg', nr') \<Longrightarrow> mset ready = mset nr \<Longrightarrow>
   \<exists>ready'. fold release1 ds (deg, ready) = (deg', ready') \<and> mset ready' = mset nr'"
proof (induction ds arbitrary: deg nr ready)
  case (Cons d ds)
  obtain deg1 nr1 where one: "decrement d (deg, nr) = (deg1, nr1)" by fastforce
  then obtain r1 where "release1 d (deg, ready) = (deg1, r1)" "mset r1 = mset nr1"
    using Cons.prems(2) by (auto simp: decrement_def release1_def Let_def)
  then show ?case using Cons.IH [of deg1 nr1 r1] Cons.prems(1) one by simp
qed simp

lemma decrement_keys: "fold decrement ds (deg, nr) = (deg', nr') \<Longrightarrow> set ds \<subseteq> fst ` set deg \<Longrightarrow> fst ` set deg' = fst ` set deg"
  by (induction ds arbitrary: deg nr) (auto simp: decrement_def Let_def dict_set_keys insert_absorb)

lemma unknown_in_None: "unknown_in deg ds = None \<longleftrightarrow> set ds \<subseteq> fst ` set deg"
  by (auto simp: unknown_in_def find_None_iff)

definition kahn1 :: "task_definition list \<Rightarrow> string list \<Rightarrow> degrees \<Rightarrow> string list \<Rightarrow> bool" where
  "kahn1 tasks ready deg processed \<longleftrightarrow>
     (let K = td_key ` set tasks; P = set processed in
      fst ` set deg = K \<and> (\<forall>k \<in> K. degree deg k = int (card (dep_set tasks k - P))) \<and>
      P \<subseteq> K \<and> distinct processed \<and> (\<forall>i < length processed. dep_set tasks (processed ! i) \<subseteq> set (take i processed)) \<and>
      distinct ready \<and> set ready = next_layer tasks P)"

lemma kahn1_closed:
  "kahn1 tasks ready deg processed \<Longrightarrow> k \<in> set processed \<Longrightarrow> dep_set tasks k \<subseteq> set processed"
  unfolding kahn1_def Let_def by (metis in_set_conv_nth order_trans set_take_subset)

lemma kahn1_step:
  assumes g: "graph_of tasks (as_graph g)"
    and inv: "kahn1 tasks (k # rest) deg processed"
  shows "unknown_in deg (deps_of (g1_downstream g) k) = None \<and>
    (\<exists>deg' ready'. fold release1 (deps_of (g1_downstream g) k) (deg, rest) = (deg', ready') \<and>
      kahn1 tasks ready' deg' (processed @ [k]))"
proof -
  let ?K = "td_key ` set tasks" and ?P = "set processed" and ?ds = "deps_of (g1_downstream g) k"
  from inv have keys: "fst ` set deg = ?K"
    and deg: "\<And>j. j \<in> ?K \<Longrightarrow> degree deg j = int (card (dep_set tasks j - ?P))"
    and P: "?P \<subseteq> ?K" "distinct processed" "\<And>i. i < length processed \<Longrightarrow> dep_set tasks (processed ! i) \<subseteq> set (take i processed)"
    and ready: "distinct (k # rest)" "set (k # rest) = next_layer tasks ?P"
    unfolding kahn1_def Let_def by blast+
  note closed = kahn1_closed [OF inv]
  have k: "k \<in> ?K" "dep_set tasks k \<subseteq> ?P" "k \<notin> ?P" using ready(2) by (auto simp: next_layer_def)
  have ds: "distinct ?ds" "set ?ds = {j. k \<in> dep_set tasks j}" "set ?ds \<subseteq> ?K"
    using g by (auto simp: graph_of_def as_graph_def dep_set_def dep_edges_def)
  have out: "degree deg j = 0" if "j \<notin> ?K" for j
    using that keys dict_get_None_iff [of deg j] by (simp add: degree_def)
  obtain deg' nr' where dec: "fold decrement ?ds (deg, rest) = (deg', nr')" by fastforce
  then obtain ready' where rel: "fold release1 ?ds (deg, rest) = (deg', ready')" "mset ready' = mset nr'"
    using release1_fold by blast
  have nonpos: "\<forall>j \<in> set rest. degree deg j \<le> 0"
  proof
    fix j assume "j \<in> set rest"
    then have "j \<in> next_layer tasks ?P" using ready(2) by auto
    then have j: "j \<in> ?K" and none: "dep_set tasks j - ?P = {}" by (auto simp: next_layer_def)
    show "degree deg j \<le> 0" using deg [OF j] unfolding none by simp
  qed
  note fold = decrement_fold [OF dec, unfolded count_list_distinct [OF ds(1)] ds(2)]
  have split: "card (dep_set tasks j - ?P) = card (dep_set tasks j - set (processed @ [k])) + (if k \<in> dep_set tasks j then 1 else 0)" for j
  proof (cases "k \<in> dep_set tasks j")
    case True
    let ?rest = "dep_set tasks j - set (processed @ [k])"
    have e: "dep_set tasks j - ?P = insert k ?rest" using True k(3) by auto
    have "finite ?rest" "k \<notin> ?rest" using finite_dep_set [of tasks j] by simp_all
    then have "card (insert k ?rest) = Suc (card ?rest)" by (rule card_insert_disjoint)
    then show ?thesis unfolding e using True by (simp only: if_True Suc_eq_plus1)
  next
    case False
    then have "dep_set tasks j - set (processed @ [k]) = dep_set tasks j - ?P" by auto
    then show ?thesis using False by simp
  qed
  have deg': "degree deg' j = int (card (dep_set tasks j - set (processed @ [k])))" if "j \<in> ?K" for j
    using fold deg [OF that] split [of j] by (auto split: if_splits)
  have "set ready' = set rest \<union> {j. 1 \<le> degree deg j \<and> degree deg j \<le> int (if j \<in> {j. k \<in> dep_set tasks j} then 1 else 0)}"
    using fold rel(2) by (metis set_mset_mset)
  also have "\<dots> = next_layer tasks (set (processed @ [k]))"
  proof (rule set_eqI)
    fix j
    show "j \<in> set rest \<union> {j. 1 \<le> degree deg j \<and> degree deg j \<le> int (if j \<in> {j. k \<in> dep_set tasks j} then 1 else 0)} \<longleftrightarrow>
        j \<in> next_layer tasks (set (processed @ [k]))"
    proof (cases "j \<in> ?K")
      case True
      have "1 \<le> degree deg j \<and> degree deg j \<le> int (if j \<in> {j. k \<in> dep_set tasks j} then 1 else 0) \<longleftrightarrow>
          k \<in> dep_set tasks j \<and> dep_set tasks j \<subseteq> set (processed @ [k])"
      proof -
        define m where "m = card (dep_set tasks j - set (processed @ [k]))"
        have zero: "m = 0 \<longleftrightarrow> dep_set tasks j \<subseteq> set (processed @ [k])"
          using finite_dep_set [of tasks j] unfolding m_def card_eq_0_iff by blast
        have "degree deg j = int m + (if k \<in> dep_set tasks j then 1 else 0)"
          unfolding deg [OF True] split [of j] m_def by simp
        then show ?thesis unfolding zero [symmetric] by simp
      qed
      moreover have "j \<in> set rest \<longleftrightarrow> dep_set tasks j \<subseteq> ?P \<and> j \<notin> ?P \<and> j \<noteq> k"
      proof -
        have "j \<in> set rest \<longleftrightarrow> j \<in> set (k # rest) \<and> j \<noteq> k" using ready(1) by auto
        then show ?thesis unfolding ready(2) using True by (simp add: next_layer_def)
      qed
      moreover have "k \<in> dep_set tasks j \<Longrightarrow> j \<notin> ?P" "k \<in> dep_set tasks j \<Longrightarrow> j \<noteq> k" using closed k by blast+
      moreover have "set (processed @ [k]) = insert k ?P" by simp
      moreover have "j \<in> next_layer tasks (insert k ?P) \<longleftrightarrow> dep_set tasks j \<subseteq> insert k ?P \<and> j \<noteq> k \<and> j \<notin> ?P"
        using True by (simp add: next_layer_def)
      ultimately show ?thesis by (auto simp only: mem_Collect_eq Un_iff)
    next
      case False
      then show ?thesis using out [OF False] ready(2) by (auto simp: next_layer_def)
    qed
  qed
  finally have "set ready' = next_layer tasks (set (processed @ [k]))" .
  moreover have "distinct ready'"
    using fold nonpos ready(1) rel(2) by (metis distinct.simps(2) mset_eq_imp_distinct_iff)
  moreover have "fst ` set deg' = ?K" using decrement_keys [OF dec] ds(3) keys by simp
  moreover have "\<forall>i < length (processed @ [k]). dep_set tasks ((processed @ [k]) ! i) \<subseteq> set (take i (processed @ [k]))"
    using P(3) k(2) by (auto simp: nth_append less_Suc_eq)
  ultimately have "kahn1 tasks ready' deg' (processed @ [k])"
    using deg' P(1,2) k unfolding kahn1_def Let_def by simp
  then show ?thesis using rel(1) ds(3) keys by (simp add: unknown_in_None)
qed

lemma acyclic_loop1_inv:
  assumes "graph_of tasks (as_graph g)" "kahn1 tasks ready deg processed"
  shows "\<exists>deg' processed'. acyclic_loop1 (g1_downstream g) ready deg processed = Inr (deg', processed') \<and>
    kahn1 tasks [] deg' processed'"
  using assms(2)
proof (induction "g1_downstream g" ready deg processed rule: acyclic_loop1.induct)
  case (1 ready deg processed)
  show ?case
  proof (cases ready)
    case Nil
    then show ?thesis using 1(2) by (simp add: acyclic_loop1.simps)
  next
    case (Cons k rest)
    obtain deg' ready' where step: "unknown_in deg (deps_of (g1_downstream g) k) = None"
        "fold release1 (deps_of (g1_downstream g) k) (deg, rest) = (deg', ready')"
        "kahn1 tasks ready' deg' (processed @ [k])"
      using kahn1_step [OF assms(1)] 1(2) Cons by blast
    show ?thesis
      using 1(1) [OF Cons step(1) step(2) [symmetric] step(3)] Cons step
      by (subst acyclic_loop1.simps) simp
  qed
qed

lemma kahn1_start:
  assumes "graph_of tasks (as_graph g)"
  shows "kahn1 tasks (sort (roots1 g)) (start_degrees1 g) []"
proof -
  let ?K = "td_key ` set tasks"
  have keys: "set (g1_nodes g) = ?K" "distinct (g1_nodes g)" "distinct (map td_key tasks)"
    and deps: "\<And>t. t \<in> set tasks \<Longrightarrow> deps_of (g1_upstream g) (td_key t) = sort (td_dependencies t) \<and> distinct (td_dependencies t)"
    using assms by (auto simp: graph_of_def as_graph_def)
  have n: "in_degree1 g k = int (card (dep_set tasks k))" if "k \<in> ?K" for k
    using that deps keys(3) by (auto simp: in_degree1_def dep_set_task distinct_card)
  have "degree (start_degrees1 g) k = in_degree1 g k" if "k \<in> ?K" for k
    using that keys(1) by (auto simp: degree_def start_degrees1_def map_of_map_restrict)
  moreover have "set (roots1 g) = next_layer tasks {}"
  proof -
    have "k \<in> ?K \<Longrightarrow> in_degree1 g k = 0 \<longleftrightarrow> dep_set tasks k = {}" for k
      using n [of k] finite_dep_set [of tasks k] by simp
    then show ?thesis using keys(1) by (auto simp: roots1_def next_layer_def)
  qed
  moreover have "fst ` set (start_degrees1 g) = ?K" using keys(1) by (force simp: start_degrees1_def)
  ultimately show ?thesis using n keys(2) by (auto simp: kahn1_def roots1_def)
qed

lemma check_acyclic1_iff:
  assumes "graph_of tasks (as_graph g)" "deps_known tasks"
  shows "check_acyclic1 g = Inr () \<longleftrightarrow> acyclic (dep_edges tasks)"
proof -
  let ?K = "td_key ` set tasks"
  obtain deg' P where loop: "acyclic_loop1 (g1_downstream g) (sort (roots1 g)) (start_degrees1 g) [] = Inr (deg', P)"
    and inv: "kahn1 tasks [] deg' P"
    using acyclic_loop1_inv [OF assms(1) kahn1_start [OF assms(1)]] by blast
  have P: "set P \<subseteq> ?K" "distinct P" "\<forall>i < length P. dep_set tasks (P ! i) \<subseteq> set (take i P)" "next_layer tasks (set P) = {}"
    using inv unfolding kahn1_def Let_def by auto
  have nodes: "length (g1_nodes g) = card ?K"
    using assms(1) by (metis as_graph_def card_set distinct_card distinct_sort graph_of_def length_map length_sort
        set_map dependency_graph.select_convs(1))
  have "length P = card ?K \<longleftrightarrow> set P = ?K"
    using P(1,2) distinct_card [OF P(2)] card_subset_eq [of ?K "set P"] by auto
  moreover have "set P = ?K" if "acyclic (dep_edges tasks)"
  proof -
    have "set P = {k \<in> ?K. dep_set tasks k \<subseteq> set P}"
      using P(1,4) kahn1_closed [OF inv] unfolding next_layer_def by blast
    then show ?thesis
      by (rule acyclic_closed_set [where D = "dep_set tasks", rotated 3])
        (use that dep_set_known [OF assms(2)] dep_edges_alt [of tasks] in simp_all)
  qed
  moreover have "acyclic (dep_edges tasks)" if "set P = ?K"
    using topological_acyclic [OF P(2,3)] that dep_edges_alt [of tasks] by simp
  ultimately show ?thesis using loop nodes by (auto simp: check_acyclic1_def)
qed

lemma check_known1_iff:
  assumes "valid_workflow1 w" "shape w tasks" "build_graph1 w = Inr g"
  shows "check_known1 g (map td1_id (wd1_tasks w)) = Inr () \<longleftrightarrow> deps_known tasks"
proof -
  have "g1_edges g = sort (edges_of1 (wd1_tasks w))" using build_graph1_Inr [OF assms(1)] assms(3) by auto
  then show ?thesis
    unfolding shape_simps(3) [OF assms(2)]
    by (auto simp: check_known1_def forR_Inr_iff thenR_Inr_iff edges_of1_def)
qed

lemma no_self_no_duplicate1:
  assumes "valid_workflow1 w" "build_graph1 w = Inr g"
  shows "check_self1 g = Inr ()" "check_duplicates1 g = Inr ()"
proof -
  have e: "g1_edges g = sort (edges_of1 (wd1_tasks w))" using build_graph1_Inr [OF assms(1)] assms(2) by auto
  show "check_self1 g = Inr ()"
    using assms(1) e by (auto simp: check_self1_def forR_Inr_iff edges_of1_def valid_workflow1_def)
  have "distinct (g1_edges g)" using distinct_edges1 [of "wd1_tasks w"] assms(1) e by (simp add: valid_workflow1_def)
  then show "check_duplicates1 g = Inr ()"
    by (auto simp: check_duplicates1_def forR_Inr_iff count_list_distinct)
qed

lemma validates1_iff:
  assumes "valid_workflow1 w" "shape w tasks" "build_graph1 w = Inr g"
  shows "validate_graph1 w g = Inr () \<longleftrightarrow> deps_known tasks \<and> acyclic (dep_edges tasks)"
  using check_known1_iff [OF assms] no_self_no_duplicate1 [OF assms(1,3)]
    check_acyclic1_iff [OF graph_of_build1 [OF assms(1,2) _ assms(3)]]
  by (auto simp: validate_graph1_def thenR_Inr_iff)

definition shaped :: "v1_workflow \<Rightarrow> task_definition list" where
  "shaped w = map (\<lambda>t. sample_task (td1_id t) (td1_depends_on t)) (wd1_tasks w)"

lemma shape_shaped [simp]: "shape w (shaped w)"
  by (simp add: shape_def shaped_def)

section \<open>The plan is the one of the second generation\<close>

definition planned_of :: "string list list \<Rightarrow> v1_planned list" where
  "planned_of layers = concat (map (\<lambda>(i, ids). plan_group ids (length (concat (take i layers))) i) (List.enumerate 0 layers))"

lemma enumerate_snoc: "List.enumerate 0 (xs @ [x]) = List.enumerate 0 xs @ [(length xs, x)]"
  by (simp add: enumerate_append_eq)

lemma planned_of_snoc: "planned_of (layers @ [ids]) = planned_of layers @ plan_group ids (length (concat layers)) (length layers)"
proof -
  have "map (\<lambda>(i, ids'). plan_group ids' (length (concat (take i (layers @ [ids])))) i) (List.enumerate 0 layers) =
      map (\<lambda>(i, ids'). plan_group ids' (length (concat (take i layers))) i) (List.enumerate 0 layers)"
    by (auto simp: in_set_enumerate_eq)
  then have "planned_of (layers @ [ids]) = planned_of layers @
      concat (map (\<lambda>(i, ids'). plan_group ids' (length (concat (take i (layers @ [ids])))) i) [(length layers, ids)])"
    by (simp only: planned_of_def enumerate_snoc map_append concat_append)
  then show ?thesis by simp
qed

lemma plan_group_simps [simp]:
  "length (plan_group ids p i) = length ids" "map pt1_id (plan_group ids p i) = ids"
  "map pt1_position (plan_group ids p i) = [p..<p + length ids]"
  by (auto simp: plan_group_def comp_def case_prod_beta enumerate_eq_zip map_snd_zip intro!: nth_equalityI)

lemma planned_of_facts:
  "map pt1_id (planned_of layers) = concat layers"
  "map pt1_position (planned_of layers) = [0..<length (concat layers)]"
  "length (planned_of layers) = length (concat layers)"
proof (induction layers rule: rev_induct)
  case (snoc ids layers)
  {
    case 1
    show ?case using snoc by (simp add: planned_of_snoc)
  next
    case 2
    show ?case using snoc by (simp add: planned_of_snoc upt_add_eq_append [symmetric] del: upt_add_eq_append)
  next
    case 3
    show ?case using snoc by (simp add: planned_of_snoc)
  }
qed (simp_all add: planned_of_def)

lemma planned_of_group: "t \<in> set (planned_of layers) \<Longrightarrow> pt1_group t < length layers \<and> pt1_id t \<in> set (layers ! pt1_group t)"
  by (auto simp: planned_of_def plan_group_def in_set_enumerate_eq)

lemma find_unique:
  assumes "x \<in> set xs" "P x" "\<And>y. y \<in> set xs \<Longrightarrow> P y \<Longrightarrow> y = x"
  shows "find P xs = Some x"
proof (cases "find P xs")
  case None
  then show ?thesis using assms(1,2) by (simp add: find_None_iff)
next
  case (Some y)
  then have "y \<in> set xs" "P y" by (auto simp: find_Some_iff)
  then show ?thesis using assms(3) Some by simp
qed

lemma concat_nth_unique:
  "distinct (concat xss) \<Longrightarrow> i < length xss \<Longrightarrow> j < length xss \<Longrightarrow> k \<in> set (xss ! i) \<Longrightarrow> k \<in> set (xss ! j) \<Longrightarrow> i = j"
proof (induction xss arbitrary: i j)
  case (Cons xs xss)
  then have "set xs \<inter> set (xss ! m) = {}" if "m < length xss" for m using that nth_mem [OF that] by fastforce
  with Cons show ?case by (cases i; cases j) (auto simp: disjoint_iff)
qed simp

lemma group_index_of_layers:
  assumes "distinct (concat layers)" "i < length layers" "k \<in> set (layers ! i)"
  shows "group_index_of (List.enumerate 0 layers) k = Some i"
proof -
  have "j = i" if "j < length layers" "k \<in> set (layers ! j)" for j
    using concat_nth_unique [OF assms(1) that(1) assms(2) that(2) assms(3)] .
  then have "find (\<lambda>(j, ids). k \<in> set ids) (rev (List.enumerate 0 layers)) = Some (i, layers ! i)"
  proof (intro find_unique)
    show "(i, layers ! i) \<in> set (rev (List.enumerate 0 layers))" using assms(2) by (simp add: in_set_enumerate_eq)
    show "case (i, layers ! i) of (j, ids) \<Rightarrow> k \<in> set ids" using assms(3) by simp
  next
    fix y assume "y \<in> set (rev (List.enumerate 0 layers))" "case y of (j, ids) \<Rightarrow> k \<in> set ids"
    then have "fst y < length layers" "snd y = layers ! fst y" "k \<in> set (snd y)"
      by (simp_all add: in_set_enumerate_eq case_prod_beta)
    then show "y = (i, layers ! i)" using \<open>\<And>j. _ \<Longrightarrow> _ \<Longrightarrow> j = i\<close> [of "fst y"] by (cases y) simp
  qed
  then show ?thesis by (simp add: group_index_of_def)
qed

lemma relax_keys:
  assumes "relax_layer down layer deg = (deg', nr)" "set (concat (map (deps_of down) layer)) \<subseteq> fst ` set deg"
  shows "fst ` set deg' = fst ` set deg"
  using decrement_keys [OF assms(1) [unfolded relax_layer_concat] assms(2)] .

lemma plan_loop1_layers:
  assumes g: "graph_of tasks (as_graph g)" and ids: "\<forall>k \<in> td_key ` set tasks. \<not> blank k"
    and "layers_inv tasks ready deg layers visited" "fst ` set deg = td_key ` set tasks"
    and "layers_loop (g1_downstream g) ready deg layers visited = (deg', layers', visited')"
  shows "plan_loop1 (g1_downstream g) ready deg (List.enumerate 0 layers) (planned_of layers) =
    Inr (deg', List.enumerate 0 layers', planned_of layers')"
  using assms(3-)
proof (induction "g1_downstream g" ready deg layers visited rule: layers_loop.induct)
  case (1 ready deg layers visited)
  show ?case
  proof (cases "ready = []")
    case True
    with 1 show ?thesis by (simp add: layers_loop.simps plan_loop1.simps)
  next
    case False
    obtain deg1 nr where relax: "relax_layer (g1_downstream g) (sort ready) deg = (deg1, nr)" by fastforce
    have ready: "distinct ready" "set ready \<subseteq> td_key ` set tasks"
      using 1(2) by (auto simp: layers_inv_def Let_def next_layer_def)
    have down: "set (concat (map (deps_of (g1_downstream g)) (sort ready))) \<subseteq> fst ` set deg"
      using g 1(3) by (auto simp: graph_of_def as_graph_def dep_edges_def)
    have "sort ready \<noteq> []" using False by (metis set_empty set_sort)
    then have "mk_group1 (length layers) (sort ready) = Inr (length layers, sort ready)"
      using False ready ids by (auto simp: mk_group1_def thenR_def bindR_def nonempty_id_def require_def forR_Inr_iff
          split: sum.splits dest!: forR_Inl)
    then have "plan_loop1 (g1_downstream g) ready deg (List.enumerate 0 layers) (planned_of layers) =
        plan_loop1 (g1_downstream g) (sort nr) deg1 (List.enumerate 0 (layers @ [sort ready])) (planned_of (layers @ [sort ready]))"
      using False down [folded unknown_in_None] relax by (subst plan_loop1.simps)
        (simp add: enumerate_snoc planned_of_snoc planned_of_facts(3) Let_def)
    moreover have "layers_loop (g1_downstream g) (sort nr) deg1 (layers @ [sort ready])
        (visited + length (sort ready)) = (deg', layers', visited')"
      using 1(4) False relax by (subst (asm) layers_loop.simps) simp
    moreover have "layers_inv tasks (sort nr) deg1 (layers @ [sort ready]) (visited + length (sort ready))"
      using layers_step [OF g 1(2)] relax by (simp add: as_graph_def)
    moreover have "fst ` set deg1 = td_key ` set tasks" using relax_keys [OF relax down] 1(3) by simp
    ultimately show ?thesis using 1(1) [OF False refl relax [symmetric] refl] by simp
  qed
qed

lemma layers_loop_cong:
  "deps_of d1 = deps_of d2 \<Longrightarrow> layers_loop d1 ready deg layers visited = layers_loop d2 ready deg layers visited"
proof (induction d1 ready deg layers visited rule: layers_loop.induct)
  case (1 d1 ready deg layers visited)
  have relax: "relax_layer d1 (sort ready) deg = relax_layer d2 (sort ready) deg"
    using 1(2) by (simp add: relax_layer_def)
  show ?case
  proof (cases "ready = []")
    case False
    obtain deg1 nr where r: "relax_layer d1 (sort ready) deg = (deg1, nr)" by fastforce
    have "layers_loop d ready deg layers visited =
        layers_loop d (sort nr) deg1 (layers @ [sort ready]) (visited + length (sort ready))"
      if "relax_layer d (sort ready) deg = (deg1, nr)" for d
      using False that by (subst layers_loop.simps) simp
    then show ?thesis using 1(1) [OF False refl r [symmetric] refl 1(2)] r relax by simp
  qed (simp add: layers_loop.simps)
qed

lemma build_plan1_layers:
  assumes w: "valid_workflow1 w" "shape w tasks" "build_graph1 w = Inr g"
    and g: "graph_of tasks (as_graph g)" and layers: "topological_layers (as_graph g) = Inr layers"
  shows "build_plan1 w g = Inr \<lparr>pl1_workflow_id = wd1_id w, pl1_version = wd1_version w,
    pl1_tasks = planned_of layers, pl1_groups = List.enumerate 0 layers\<rparr>"
proof -
  let ?ready = "sort (map fst (filter (\<lambda>p. snd p = 0) (start_degrees1 g)))"
  have nodes: "g1_nodes g = sort (map td1_id (wd1_tasks w))" using build_graph1_Inr [OF w(1)] w(3) by auto
  have roots: "?ready = roots1 g"
  proof -
    have "sorted (filter (\<lambda>k. in_degree1 g k = 0) (g1_nodes g))" using nodes by (simp add: sorted_filter [where f = id, simplified])
    then show ?thesis by (simp add: start_degrees1_def filter_zero_degree roots1_def sorted_sort_id)
  qed
  have deg: "start_degrees1 g = map (\<lambda>k. (k, int (length (deps_of (gr_dependencies (as_graph g)) k)))) (gr_task_keys (as_graph g))"
    by (simp add: start_degrees1_def in_degree1_def as_graph_def)
  obtain deg' visited where loop: "layers_loop (g1_downstream g) (roots1 g) (start_degrees1 g) [] 0 = (deg', layers, visited)"
    and visited: "visited = length (g1_nodes g)"
    using layers unfolding topological_layers_def Let_def deg [symmetric] roots
    by (auto simp: as_graph_def split: prod.splits if_splits)
  have start: "layers_inv tasks (roots1 g) (start_degrees1 g) [] 0"
    using layers_start [OF g] unfolding deg [symmetric] roots .
  have keys: "td_key ` set tasks = set (map td1_id (wd1_tasks w))" using shape_simps(1) [OF w(2)] by (metis set_map)
  have ids: "\<forall>k \<in> td_key ` set tasks. \<not> blank k" using w(1) unfolding keys by (auto simp: valid_workflow1_def)
  have "fst ` set (start_degrees1 g) = td_key ` set tasks"
    unfolding keys by (force simp: start_degrees1_def nodes)
  from plan_loop1_layers [OF g ids start this loop]
  have run: "plan_loop1 (g1_downstream g) (roots1 g) (start_degrees1 g) [] [] =
      Inr (deg', List.enumerate 0 layers, planned_of layers)" by (simp add: planned_of_def)
  have inv: "layers_inv tasks [] deg' layers visited"
    using layers_loop_inv [OF g start] loop by (simp add: as_graph_def)
  then have dist: "distinct (concat layers)" and len: "length (concat layers) = length (g1_nodes g)"
    using visited by (auto simp: layers_inv_def Let_def)
  have "g1_nodes g \<noteq> []" using w(1) nodes by (metis length_0_conv length_map length_sort valid_workflow1_def)
  then have "concat layers \<noteq> []" using len by (metis length_0_conv)
  then have "planned_of layers \<noteq> []" "layers \<noteq> []" using planned_of_facts(1) [of layers] by auto
  moreover have "List.enumerate 0 layers \<noteq> []" using \<open>layers \<noteq> []\<close> by (cases layers) simp_all
  moreover have "concat (map snd (List.enumerate 0 layers)) = concat layers" by simp
  moreover have "group_index_of (List.enumerate 0 layers) (pt1_id t) = Some (pt1_group t)" if "t \<in> set (planned_of layers)" for t
    using group_index_of_layers [OF dist] planned_of_group [OF that] by blast
  ultimately have "mk_plan1 \<lparr>pl1_workflow_id = wd1_id w, pl1_version = wd1_version w,
      pl1_tasks = planned_of layers, pl1_groups = List.enumerate 0 layers\<rparr> =
      Inr \<lparr>pl1_workflow_id = wd1_id w, pl1_version = wd1_version w,
      pl1_tasks = planned_of layers, pl1_groups = List.enumerate 0 layers\<rparr>"
    using w(1) dist by (simp add: mk_plan1_def thenR_Inr_iff nonempty_id_def valid_workflow1_def planned_of_facts forR_Inr_iff)
  then show ?thesis
    by (simp add: build_plan1_def nodes run require_def planned_of_facts(3) len)
qed

text \<open>Which check refuses.\<close>

lemma unknown_refused:
  assumes "valid_workflow1 w" "build_graph1 w = Inr g"
    and "\<not> (\<forall>t \<in> set (wd1_tasks w). set (td1_depends_on t) \<subseteq> td1_id ` set (wd1_tasks w))"
  shows "\<exists>t d. t \<in> set (wd1_tasks w) \<and> d \<in> set (td1_depends_on t) \<and> d \<notin> td1_id ` set (wd1_tasks w) \<and>
    validate_graph1 w g = Inl (V1Error (UnknownDependency (td1_id t) d))"
proof -
  let ?known = "map td1_id (wd1_tasks w)"
  have edges: "set (g1_edges g) = set (edges_of1 (wd1_tasks w))" using build_graph1_Inr [OF assms(1)] assms(2) by auto
  obtain e where e: "check_known1 g ?known = Inl e"
    using check_known1_iff [OF assms(1) shape_shaped assms(2)] assms(3) shape_simps(3) [OF shape_shaped [of w]]
    by (cases "check_known1 g ?known") auto
  then obtain u t where "t \<in> set (wd1_tasks w)" "u \<in> set (td1_depends_on t)"
    and x: "thenR (require (u \<in> set ?known) (V1Error (UnknownDependency (td1_id t) u)))
      (require (td1_id t \<in> set ?known) (V1Error (UnknownDependency (td1_id t) u))) = Inl e"
    unfolding check_known1_def edges by (auto dest!: forR_Inl simp: edges edges_of1_def)
  moreover from this have "u \<notin> set ?known \<and> e = V1Error (UnknownDependency (td1_id t) u)"
    by (auto simp: require_def split: if_splits)
  ultimately show ?thesis using e by (auto simp: validate_graph1_def)
qed

lemma cycle_refused:
  assumes "valid_workflow1 w" "build_graph1 w = Inr g" "deps_known (shaped w)" "\<not> acyclic (dep_edges (shaped w))"
  shows "\<exists>keys. validate_graph1 w g = Inl (V1Error (CycleDetected keys))"
proof -
  note g = graph_of_build1 [OF assms(1) shape_shaped assms(3,2)]
  obtain deg P where "acyclic_loop1 (g1_downstream g) (sort (roots1 g)) (start_degrees1 g) [] = Inr (deg, P)"
    using acyclic_loop1_inv [OF g kahn1_start [OF g]] by blast
  moreover have "check_acyclic1 g \<noteq> Inr ()" using check_acyclic1_iff [OF g assms(3)] assms(4) by simp
  ultimately have "\<exists>keys. check_acyclic1 g = Inl (V1Error (CycleDetected keys))"
    by (auto simp: check_acyclic1_def require_def)
  then show ?thesis
    using check_known1_iff [OF assms(1) shape_shaped assms(2)] assms(3) no_self_no_duplicate1 [OF assms(1,2)]
    by (auto simp: validate_graph1_def)
qed

text \<open>C21: For a workflow that its constructors accept, \<open>DAGValidator.validate\<close> passes exactly when every
  declared dependency is a task of the workflow and the dependency relation is acyclic.  A refusal
  tells which of the two failed: \<open>UnknownDependencyError\<close> names a task and a dependency of it that is
  no task of the workflow; if all dependencies are known, a cycle is reported.  The checks for
  self-dependencies and duplicate edges pass on every such workflow.\<close>

theorem v1_validation_exact:
  assumes "valid_workflow1 w" "build_graph1 w = Inr g"
  shows "let known = (\<forall>t \<in> set (wd1_tasks w). set (td1_depends_on t) \<subseteq> td1_id ` set (wd1_tasks w));
        ordered = acyclic {(d, td1_id t) | d t. t \<in> set (wd1_tasks w) \<and> d \<in> set (td1_depends_on t)} in
    (validate_graph1 w g = Inr () \<longleftrightarrow> known \<and> ordered) \<and>
    (\<not> known \<longrightarrow> (\<exists>t d. t \<in> set (wd1_tasks w) \<and> d \<in> set (td1_depends_on t) \<and> d \<notin> td1_id ` set (wd1_tasks w) \<and>
       validate_graph1 w g = Inl (V1Error (UnknownDependency (td1_id t) d)))) \<and>
    (known \<and> \<not> ordered \<longrightarrow> (\<exists>keys. validate_graph1 w g = Inl (V1Error (CycleDetected keys)))) \<and>
    check_self1 g = Inr () \<and> check_duplicates1 g = Inr ()"
  unfolding Let_def
  using validates1_iff [OF assms(1) shape_shaped assms(2)] shape_simps(2,3) [OF shape_shaped [of w]]
    unknown_refused [OF assms] cycle_refused [OF assms] no_self_no_duplicate1 [OF assms] by simp

text \<open>The task list of a second-generation workflow with the same keys and dependencies.\<close>

lemma same_shape_graphs:
  assumes "valid_workflow1 w" "shape w (wf_tasks w2)" "build_graph1 w = Inr g" "mk_dependency_graph w2 = Inr g2"
    "deps_known (wf_tasks w2)"
  shows "topological_layers (as_graph g) = topological_layers g2"
proof -
  let ?tasks = "wf_tasks w2"
  have dist: "distinct (map td_key ?tasks)" using assms(1) shape_simps(1) [OF assms(2)] by (simp add: valid_workflow1_def)
  have "(\<lambda>t. (td_key t, td_dependencies t)) ` set ?tasks = (\<lambda>t. (td1_id t, td1_depends_on t)) ` set (wd1_tasks w)"
    using assms(2) unfolding shape_def by (metis set_map)
  then have deps: "\<forall>t \<in> set ?tasks. distinct (td_dependencies t)"
    using assms(1) unfolding valid_workflow1_def by (metis (mono_tags, lifting) image_iff prod.inject)
  note one = graph_of_build1 [OF assms(1,2,5,3)] and two = mk_dependency_graph_correct [OF dist deps assms(4)]
  have sorted1: "sorted (deps_of (g1_downstream g) k)" for k
    using build_graph1_Inr [OF assms(1)] assms(3) by (cases "k \<in> set (map td1_id (wd1_tasks w))") auto
  have sorted2: "sorted (deps_of (gr_downstream g2) k)" for k
    using assms(4) by (auto simp: mk_dependency_graph_def thenR_Inr_iff Let_def deps_of_map_sort)
  have "deps_of (g1_downstream g) k = deps_of (gr_downstream g2) k" for k
    using one two sorted1 sorted2 by (intro sorted_distinct_set_unique) (simp_all add: graph_of_def as_graph_def)
  then have down: "deps_of (gr_downstream (as_graph g)) = deps_of (gr_downstream g2)" by (auto simp: as_graph_def)
  have keys: "gr_task_keys (as_graph g) = gr_task_keys g2" using one two by (simp add: graph_of_def)
  have "length (deps_of (gr_dependencies (as_graph g)) k) = length (deps_of (gr_dependencies g2) k)"
    if "k \<in> set (gr_task_keys g2)" for k
    using that one two unfolding graph_of_def by auto
  then have degrees: "map (\<lambda>k. (k, int (length (deps_of (gr_dependencies (as_graph g)) k)))) (gr_task_keys g2) =
      map (\<lambda>k. (k, int (length (deps_of (gr_dependencies g2) k)))) (gr_task_keys g2)" by simp
  show ?thesis
    unfolding topological_layers_def Let_def keys degrees layers_loop_cong [OF down] ..
qed

text \<open>C22: The two generations plan alike: whenever the second-generation planner compiles a workflow with
  the same keys and dependencies, the first-generation validator accepts it and its planner returns a
  plan, with the same groups and the same order of tasks; none of its invariant checks can fail.\<close>

theorem v1_plan_equals_v2_plan:
  assumes "valid_workflow1 w" "shape w (wf_tasks w2)" "build_graph1 w = Inr g" "compile c w2 = Inr p"
  shows "validate_graph1 w g = Inr () \<and> (\<exists>p1. build_plan1 w g = Inr p1 \<and>
    pl1_groups p1 = List.enumerate 0 (ep_groups p) \<and> pl1_task_ids p1 = ep_topological_order p)"
proof -
  have dist: "distinct (map td_key (wf_tasks w2))"
    using assms(1) shape_simps(1) [OF assms(2)] by (simp add: valid_workflow1_def)
  obtain g2 where g2: "mk_dependency_graph w2 = Inr g2" "topological_layers g2 = Inr (ep_groups p)" "validate w2 = Inr ()"
    using compile_uses_layers [OF assms(4)] assms(4) by (auto simp: bindR_Inr_iff compile_def thenR_Inr_iff)
  have known: "deps_known (wf_tasks w2)" "acyclic (dep_edges (wf_tasks w2))"
    using g2(3) validate_Inr_iff [OF dist] by blast+
  have "topological_layers (as_graph g) = Inr (ep_groups p)"
    using same_shape_graphs [OF assms(1,2,3) g2(1) known(1)] g2(2) by simp
  from build_plan1_layers [OF assms(1,2,3) graph_of_build1 [OF assms(1,2) known(1) assms(3)] this]
  have "build_plan1 w g = Inr \<lparr>pl1_workflow_id = wd1_id w, pl1_version = wd1_version w,
    pl1_tasks = planned_of (ep_groups p), pl1_groups = List.enumerate 0 (ep_groups p)\<rparr>" .
  moreover have "concat (ep_groups p) = ep_topological_order p"
    using assms(4) by (auto simp: compile_def bindR_Inr_iff thenR_Inr_iff mk_execution_plan_def)
  ultimately show ?thesis
    using validates1_iff [OF assms(1,2,3)] known by (simp add: planned_of_facts)
qed

section \<open>Propagation of a failure is exact\<close>

definition edges1 :: "v1_workflow \<Rightarrow> (string \<times> string) set" where
  "edges1 w = {(d, td1_id t) | d t. t \<in> set (wd1_tasks w) \<and> d \<in> set (td1_depends_on t)}"

definition known1 :: "v1_workflow \<Rightarrow> bool" where
  "known1 w \<longleftrightarrow> (\<forall>t \<in> set (wd1_tasks w). set (td1_depends_on t) \<subseteq> td1_id ` set (wd1_tasks w))"

lemma graph_facts1:
  assumes "valid_workflow1 w" "known1 w" "build_graph1 w = Inr g"
  shows "set (g1_nodes g) = td1_id ` set (wd1_tasks w)"
    and "set (deps_of (g1_downstream g) k) = {j. (k, j) \<in> edges1 w}"
    and "t \<in> set (wd1_tasks w) \<Longrightarrow> deps_of (g1_upstream g) (td1_id t) = sort (td1_depends_on t)"
    and "fst ` set (g1_downstream g) = set (g1_nodes g)"
proof -
  have known: "deps_known (shaped w)" using assms(2) shape_simps(3) [OF shape_shaped] by (simp add: known1_def)
  note g = graph_of_build1 [OF assms(1) shape_shaped known assms(3)]
  show nodes: "set (g1_nodes g) = td1_id ` set (wd1_tasks w)" using build_graph1_Inr [OF assms(1)] assms(3) by auto
  show "set (deps_of (g1_downstream g) k) = {j. (k, j) \<in> edges1 w}"
    using g shape_simps(2) [OF shape_shaped [of w]] by (simp add: graph_of_def as_graph_def edges1_def)
  show "deps_of (g1_upstream g) (td1_id t) = sort (td1_depends_on t)" if "t \<in> set (wd1_tasks w)"
    using g that by (auto simp: graph_of_def as_graph_def shaped_def)
  have swap: "(\<lambda>(u, d). append_at u d) = (\<lambda>e. append_at (fst e) (snd e))" by auto
  show "fst ` set (g1_downstream g) = set (g1_nodes g)"
    using assms(3) unfolding build_graph1_def bindR_Inr_iff mk_graph1_def Let_def thenR_Inr_iff swap
    by (clarsimp simp: sort_values_def image_image case_prod_beta append_at_fold)
qed

lemma descendants1_exact:
  assumes "valid_workflow1 w" "known1 w" "build_graph1 w = Inr g" "k \<in> td1_id ` set (wd1_tasks w)"
  shows "\<exists>ds. descendants1 g k = Inr ds \<and> set ds = {j. (k, j) \<in> (edges1 w)\<^sup>+}"
proof -
  note g = graph_facts1 [OF assms(1-3)]
  have get: "dict_get (g1_downstream g) a = Some ks \<Longrightarrow> ks = deps_of (g1_downstream g) a" for a ks by (simp add: deps_of_def)
  have closed: "{j. (a, j) \<in> edges1 w} \<subseteq> td1_id ` set (wd1_tasks w)" for a by (auto simp: edges1_def)
  have succ: "successors (g1_downstream g) = edges1 w"
  proof (rule set_eqI, clarify)
    fix a b
    have "(a, b) \<in> edges1 w \<Longrightarrow> a \<in> fst ` set (g1_downstream g)"
      using assms(2) g(1,4) by (auto simp: edges1_def known1_def)
    then show "(a, b) \<in> successors (g1_downstream g) \<longleftrightarrow> (a, b) \<in> edges1 w"
      using g(2) [of a] get by (auto simp: successors_def dict_has_iff)
  qed
  let ?pending = "deps_of (g1_downstream g) k"
  have "\<exists>r. collect (g1_downstream g) [] ?pending = Inr r \<and>
      set r = (successors (g1_downstream g))\<^sup>* `` (set [] \<union> set ?pending)"
  proof (rule collect_closure)
    show "set keys \<subseteq> fst ` set (g1_downstream g)" if "dict_get (g1_downstream g) a = Some keys" for a keys
      using closed [of a] g(1,4) g(2) [of a] get [OF that] by simp
    show "set ?pending \<subseteq> fst ` set (g1_downstream g)" using closed g(1,4) g(2) by simp
  qed simp
  moreover have "(edges1 w)\<^sup>* `` set ?pending = {j. (k, j) \<in> (edges1 w)\<^sup>+}"
    unfolding g(2) by (auto simp: trancl_unfold_left)
  ultimately show ?thesis
    using g(1) assms(4) unfolding succ by (auto simp: descendants1_def downstream_of_def known_node_def require_def)
qed

lemma fail_fast_fold:
  assumes "set ids \<subseteq> fst ` set runs"
  shows "foldR (fail_fast_entry failed ds runs) ids decisions = Inr (decisions @
    map (\<lambda>k. (k, if k \<in> set ds then SK1_DEPENDENCY_FAILED else SK1_FAIL_FAST_ABORT))
      (filter (\<lambda>k. k \<noteq> failed \<and> t1_status (the (dict_get runs k)) \<in> {T1_PENDING, T1_READY}) ids))"
  using assms
proof (induction ids arbitrary: decisions)
  case (Cons k ids)
  then obtain t where "dict_get runs k = Some t" using dict_has_iff [of k runs] by auto
  then have "fail_fast_entry failed ds runs k decisions = Inr (decisions @
      (if k \<noteq> failed \<and> t1_status (the (dict_get runs k)) \<in> {T1_PENDING, T1_READY}
       then [(k, if k \<in> set ds then SK1_DEPENDENCY_FAILED else SK1_FAIL_FAST_ABORT)] else []))"
    by (simp add: fail_fast_entry_def key_lookup_def)
  moreover have "set ids \<subseteq> fst ` set runs" using Cons.prems by simp
  ultimately show ?case using Cons.IH by simp
qed simp

text \<open>C23: After a failure, FAIL_FAST skips, in plan order, exactly the other tasks that have not been
  dispatched (PENDING or READY): with DEPENDENCY_FAILED those that depend, directly or through others,
  on the failed task, and with FAIL_FAST_ABORT the rest.\<close>

theorem v1_fail_fast_exact:
  assumes "valid_workflow1 w" "known1 w" "build_graph1 w = Inr g" "failed \<in> td1_id ` set (wd1_tasks w)"
    and "set ids \<subseteq> fst ` set runs"
  shows "plan_fail_fast1 failed g runs ids = Inr
    (map (\<lambda>k. (k, if (failed, k) \<in> (edges1 w)\<^sup>+ then SK1_DEPENDENCY_FAILED else SK1_FAIL_FAST_ABORT))
      (filter (\<lambda>k. k \<noteq> failed \<and> t1_status (the (dict_get runs k)) \<in> {T1_PENDING, T1_READY}) ids))"
  using descendants1_exact [OF assms(1-4)] fail_fast_fold [OF assms(5)]
  by (auto simp: plan_fail_fast1_def)

section \<open>A sample workflow\<close>

definition sample_task1 :: "string \<Rightarrow> string list \<Rightarrow> v1_task" where
  "sample_task1 k ds = \<lparr>td1_id = k, td1_handler_ref = Some (''handler.'' @ k), td1_depends_on = ds,
     td1_retry = \<lparr>rp1_max_attempts = 2, rp1_backoff = B1_FIXED, rp1_delay = PyInt 0, rp1_max_delay = None,
       rp1_categories = []\<rparr>,
     td1_executor_key = ''local'', td1_timeout = None, td1_timeout_mode = TM1_NONE, td1_tags = [],
     td1_description = None\<rparr>"

definition sample_workflow1 :: "v1_task list \<Rightarrow> v1_workflow" where
  "sample_workflow1 ts = \<lparr>wd1_id = ''sample'', wd1_version = ''1'', wd1_tasks = ts, wd1_parameters = [],
     wd1_description = None\<rparr>"

definition diamond1 :: v1_workflow where
  "diamond1 = sample_workflow1 [sample_task1 ''join'' [''right'', ''left''], sample_task1 ''left'' [''start''],
     sample_task1 ''right'' [''start''], sample_task1 ''start'' []]"

definition diamond_graph1 :: v1_graph where
  "diamond_graph1 = (case build_graph1 diamond1 of Inr g \<Rightarrow> g | Inl e \<Rightarrow> undefined)"

lemma diamond1_facts:
  "valid_workflow1 diamond1" "known1 diamond1" "build_graph1 diamond1 = Inr diamond_graph1"
  "shape diamond1 (wf_tasks diamond)" "validate_graph1 diamond1 diamond_graph1 = Inr ()"
proof -
  show "valid_workflow1 diamond1" by code_simp
  show "known1 diamond1" by code_simp
  show "build_graph1 diamond1 = Inr diamond_graph1" by code_simp
  show "shape diamond1 (wf_tasks diamond)" by code_simp
  show "validate_graph1 diamond1 diamond_graph1 = Inr ()" by code_simp
qed

theorem v1_validation_exact_witness:
  "validate_graph1 diamond1 diamond_graph1 = Inr () \<and>
   acyclic {(d, td1_id t) | d t. t \<in> set (wd1_tasks diamond1) \<and> d \<in> set (td1_depends_on t)}"
  using v1_validation_exact [OF diamond1_facts(1,3)] diamond1_facts(5) by (simp add: Let_def)

theorem v1_plan_equals_v2_plan_witness:
  "\<exists>p1. build_plan1 diamond1 diamond_graph1 = Inr p1 \<and>
     pl1_groups p1 = [(0, [''start'']), (1, [''left'', ''right'']), (2, [''join''])]"
proof -
  obtain p where p: "compile sample_codec diamond = Inr p"
    using diamond_fingerprint compile_succeeds [OF diamond_ready] by blast
  have "ep_groups p = [[''start''], [''left'', ''right''], [''join'']]"
    using compile_uses_layers [OF p] diamond_layers by simp
  then have "List.enumerate 0 (ep_groups p) = [(0, [''start'']), (1, [''left'', ''right'']), (2, [''join''])]"
    by simp
  with v1_plan_equals_v2_plan [OF diamond1_facts(1,4,3) p] show ?thesis by auto
qed

definition diamond_runs1 :: task_runs1 where
  "diamond_runs1 = map (\<lambda>(k, s). (k, \<lparr>t1_id = ''run-'' @ k, t1_run_id = ''run'', t1_task_id = k, t1_status = s,
     t1_skip_reason = None, t1_created_at = None, t1_started_at = None, t1_finished_at = None\<rparr>))
     [(''start'', T1_SUCCEEDED), (''left'', T1_RUNNING), (''right'', T1_READY), (''join'', T1_PENDING)]"

theorem v1_fail_fast_exact_witness:
  "plan_fail_fast1 ''left'' diamond_graph1 diamond_runs1 [''start'', ''left'', ''right'', ''join''] =
     Inr [(''right'', SK1_FAIL_FAST_ABORT), (''join'', SK1_DEPENDENCY_FAILED)] \<and>
   (''left'', ''join'') \<in> (edges1 diamond1)\<^sup>+"
proof -
  have run: "plan_fail_fast1 ''left'' diamond_graph1 diamond_runs1 [''start'', ''left'', ''right'', ''join''] =
     Inr [(''right'', SK1_FAIL_FAST_ABORT), (''join'', SK1_DEPENDENCY_FAILED)]"
    and hyp: "''left'' \<in> td1_id ` set (wd1_tasks diamond1)"
      "set [''start'', ''left'', ''right'', ''join''] \<subseteq> fst ` set diamond_runs1"
    by code_simp+
  show ?thesis
    using v1_fail_fast_exact [OF diamond1_facts(1,2,3) hyp] run by (auto split: if_splits)
qed

end
