(* ===== verification/V1_Runs.thy ===== *)
theory V1_Runs
  imports V1_Planning V1_Runner V1_View Contracts
begin

text \<open>
  What a run of the first-generation engine leaves behind.  The locale \<open>runner_ports\<close> is what the
  runner relies on in its ports; inside it every run that was created is settled in the store when
  \<open>run\<close> returns or raises.
\<close>

section \<open>The order of a plan\<close>

lemma plan_facts1:
  assumes w: "valid_workflow1 w" "build_graph1 w = Inr g" and v: "validate_graph1 w g = Inr ()"
    and p: "build_plan1 w g = Inr p"
  shows "known1 w" and "distinct (pl1_task_ids p)" and "set (pl1_task_ids p) = td1_id ` set (wd1_tasks w)"
    and "pl1_task_ids p = pre @ k # post \<Longrightarrow> (d, k) \<in> edges1 w \<Longrightarrow> d \<in> set pre"
proof -
  let ?tasks = "shaped w"
  have known: "deps_known ?tasks" "acyclic (dep_edges ?tasks)"
    using validates1_iff [OF w(1) shape_shaped w(2)] v by auto
  then show "known1 w" using shape_simps(3) [OF shape_shaped [of w]] by (simp add: known1_def)
  note g = graph_of_build1 [OF w(1) shape_shaped known(1) w(2)]
  obtain layers where layers: "topological_layers (as_graph g) = Inr layers" "layering ?tasks layers"
    using topological_layers_correct [OF g known] by blast
  have ids: "pl1_task_ids p = concat layers"
    using build_plan1_layers [OF w(1) shape_shaped w(2) g layers(1)] p by (auto simp: planned_of_facts)
  show dist: "distinct (pl1_task_ids p)" using layers(2) ids by (simp add: layering_def)
  show "set (pl1_task_ids p) = td1_id ` set (wd1_tasks w)"
    using layers(2) shape_simps(1) [OF shape_shaped [of w]] unfolding ids layering_def by (metis set_map)
  show "d \<in> set pre" if split: "pl1_task_ids p = pre @ k # post" and e: "(d, k) \<in> edges1 w"
  proof -
    have "k \<in> set (concat layers)" using split ids by (metis in_set_conv_decomp)
    then obtain l where "l \<in> set layers" "k \<in> set l" by auto
    then obtain i where i: "i < length layers" "k \<in> set (layers ! i)" by (metis in_set_conv_nth)
    have "d \<in> dep_set ?tasks k"
      using e shape_simps(2) [OF shape_shaped [of w]] by (auto simp: dep_set_def edges1_def)
    moreover have "dep_set ?tasks k \<subseteq> set (concat (take i layers))"
      using layers(2) i unfolding layering_def by blast
    ultimately have "d \<in> set (concat (take i layers))" by blast
    moreover have "concat layers = concat (take i layers) @ layers ! i @ concat (drop (Suc i) layers)"
      using i(1) by (metis concat.simps(2) concat_append id_take_nth_drop)
    moreover from i(2) obtain xs ys where "layers ! i = xs @ k # ys" by (meson split_list)
    ultimately have "concat layers = (concat (take i layers) @ xs) @ k # ys @ concat (drop (Suc i) layers)"
      and d: "d \<in> set (concat (take i layers) @ xs)" by simp_all
    then have "pre = concat (take i layers) @ xs"
      using dist split unfolding ids by (auto simp: append_eq_append_conv2 Cons_eq_append_conv append_eq_Cons_conv)
    then show ?thesis using d by simp
  qed
qed

section \<open>Skipping and reading the tasks of a run\<close>

definition set_all :: "(string \<Rightarrow> v1_task_run) \<Rightarrow> string list \<Rightarrow> task_runs1 \<Rightarrow> task_runs1" where
  "set_all U ks d = fold (\<lambda>k. dict_set k (U k)) ks d"

lemma set_all_simps [simp]:
  "set_all U [] d = d" "set_all U (k # ks) d = set_all U ks (dict_set k (U k) d)"
  by (simp_all add: set_all_def)

lemma set_all_get: "dict_get (set_all U ks d) j = (if j \<in> set ks then Some (U j) else dict_get d j)"
  by (induction ks arbitrary: d) (auto simp: dict_get_set)

lemma set_all_keys: "set ks \<subseteq> fst ` set d \<Longrightarrow> fst ` set (set_all U ks d) = fst ` set d"
  by (induction ks arbitrary: d) (auto simp: dict_set_keys insert_absorb)

lemma set_all_ok: "dict_ok d \<Longrightarrow> dict_ok (set_all U ks d)"
  by (induction ks arbitrary: d) auto

definition closes :: "v1_task_run \<Rightarrow> v1_task_run \<Rightarrow> bool" where
  "closes t t' \<longleftrightarrow> valid_task1 t' \<and> t1_id t' = t1_id t \<and> t1_run_id t' = t1_run_id t \<and> t1_task_id t' = t1_task_id t \<and>
     t1_status t' \<notin> {T1_PENDING, T1_READY} \<and> t1_status t \<noteq> T1_SUCCEEDED"

lemma view_save_tasks:
  assumes "run_view s run T n" "distinct ks" "\<forall>k \<in> set ks. \<exists>t. dict_get T k = Some t \<and> closes t (U k)"
  shows "\<exists>u. foldR (\<lambda>w. w) (map (\<lambda>k. save_task1 (U k)) ks) s = Inr u \<and> run_view u run (set_all U ks T) n \<and>
    ids_of u \<subseteq> ids_of s"
  using assms
proof (induction ks arbitrary: s T)
  case (Cons k ks)
  obtain t where t: "dict_get T k = Some t" "closes t (U k)" using Cons.prems(3) by auto
  then have k: "(k, t) \<in> set T" using view_entry [OF Cons.prems(1)] by simp
  note one = view_save_task [OF Cons.prems(1) k, of "U k"]
  let ?u = "s\<lparr>s1_tasks := dict_set (t1_id (U k)) (U k) (s1_tasks s)\<rparr>"
  have u: "save_task1 (U k) s = Inr ?u" "run_view ?u run (dict_set k (U k) T) n" "ids_of ?u \<subseteq> ids_of s"
    using t(2) by (intro one; simp add: closes_def)+
  have "\<exists>v. foldR (\<lambda>w. w) (map (\<lambda>k. save_task1 (U k)) ks) ?u = Inr v \<and>
      run_view v run (set_all U ks (dict_set k (U k) T)) n \<and> ids_of v \<subseteq> ids_of ?u"
    by (rule Cons.IH [OF u(2)]) (use Cons.prems in \<open>auto simp: dict_get_set\<close>)
  then show ?case using u(1,3) by auto
qed auto

definition skipped1 :: "datetime \<Rightarrow> (string \<Rightarrow> v1_skip_reason) \<Rightarrow> task_runs1 \<Rightarrow> string \<Rightarrow> v1_task_run" where
  "skipped1 now reason tasks k = (the (dict_get tasks k))\<lparr>t1_status := T1_SKIPPED, t1_skip_reason := Some (reason k),
     t1_finished_at := Some now\<rparr>"

lemma skip_all:
  assumes "dt_aware now" "distinct ks" "\<forall>k \<in> set ks. \<exists>t. dict_get T k = Some t \<and> t1_status t \<in> {T1_PENDING, T1_READY}"
  shows "foldR (skip_decided1 now) (map (\<lambda>k. (k, reason k)) ks) T = Inr (set_all (skipped1 now reason T) ks T)"
proof -
  have "foldR (skip_decided1 now) (map (\<lambda>k. (k, reason k)) ks) R = Inr (set_all (skipped1 now reason T) ks R)"
    if "\<forall>k \<in> set ks. dict_get R k = dict_get T k" for R
    using assms(2,3) that
  proof (induction ks arbitrary: R)
    case (Cons k ks)
    obtain t where t: "dict_get T k = Some t" "t1_status t \<in> {T1_PENDING, T1_READY}" using Cons.prems(2) by auto
    have "skip_task1 (reason k) now t = Inr (skipped1 now reason T k)"
      using assms(1) t by (simp add: skip_task1_Inr skipped1_def)
    then have "skip_decided1 now (k, reason k) R = Inr (dict_set k (skipped1 now reason T k) R)"
      using Cons.prems(3) t(1) by (simp add: skip_decided1_def key_lookup_def)
    moreover have "foldR (skip_decided1 now) (map (\<lambda>k. (k, reason k)) ks) (dict_set k (skipped1 now reason T k) R) =
        Inr (set_all (skipped1 now reason T) ks (dict_set k (skipped1 now reason T k) R))"
      by (rule Cons.IH) (use Cons.prems in \<open>auto simp: dict_get_set\<close>)
    ultimately show ?case by simp
  qed simp
  then show ?thesis by simp
qed

lemma skipped1_closes:
  assumes "run_view s run T n" "dt_aware now" "dict_get T k = Some t" "t1_status t \<in> {T1_PENDING, T1_READY}"
  shows "closes t (skipped1 now reason T k)"
proof -
  have "skip_task1 (reason k) now t = Inr (skipped1 now reason T k)"
    using assms(2-4) by (simp add: skip_task1_Inr skipped1_def)
  then have "task1_step t (skipped1 now reason T k)" by (rule task1_step.intros)
  moreover have "valid_task1 t" using viewD(7) [OF assms(1)] view_entry [OF assms(1)] assms(3) by blast
  ultimately show ?thesis
    using task1_step_valid assms(3,4) by (auto simp: closes_def skipped1_def)
qed

text \<open>Reading the task runs of a run back gives what the runner holds.\<close>

lemma fold_dict_get:
  assumes "\<forall>t \<in> set ts. \<forall>u \<in> set ts. t1_task_id t = t1_task_id u \<longrightarrow> t = u"
  shows "t \<in> set ts \<Longrightarrow> dict_get (fold (\<lambda>t d. dict_set (t1_task_id t) t d) ts d) (t1_task_id t) = Some t"
    and "k \<notin> t1_task_id ` set ts \<Longrightarrow> dict_get (fold (\<lambda>t d. dict_set (t1_task_id t) t d) ts d) k = dict_get d k"
  using assms
proof (induction ts arbitrary: d k t)
  case (Cons u ts)
  {
    case 1
    show ?case
    proof (cases "t \<in> set ts")
      case False
      then have "t = u" "t1_task_id u \<notin> t1_task_id ` set ts" using 1 by auto
      then show ?thesis using Cons.IH(2) [where k = "t1_task_id u" and d = "dict_set (t1_task_id u) u d"] 1(2) by (simp add: dict_get_set)
    qed (use Cons.IH(1) [where t = t and d = "dict_set (t1_task_id u) u d"] 1 in simp)
  next
    case 2
    then show ?case using Cons.IH(2) [where k = k and d = "dict_set (t1_task_id u) u d"] by (simp add: dict_get_set)
  }
qed simp_all

lemma view_load:
  assumes v: "run_view s run T n"
  obtains ts where "list_tasks1 s (r1_id run) = Inr ts"
    "\<And>k. dict_get (fold (\<lambda>t d. dict_set (t1_task_id t) t d) ts []) k = dict_get T k"
proof -
  define own where "own = filter (\<lambda>t. t1_run_id t = r1_id run) (dict_values (s1_tasks s))"
  have keyed: "keyed t1_id valid_task1 (s1_tasks s)" using viewD(1) [OF v] by (simp add: store1_ok_def)
  have own: "t \<in> set own \<longleftrightarrow> (t1_task_id t, t) \<in> set T" for t
  proof -
    have "t \<in> set own \<longleftrightarrow> t1_run_id t = r1_id run \<and> dict_get (s1_tasks s) (t1_id t) = Some t"
      using keyed_member [OF keyed, of t] by (auto simp: own_def)
    then show ?thesis using v by (simp add: run_view_def)
  qed
  then have "mapR mk_task_run1 own = Inr (map (\<lambda>t. t) own)"
    by (intro mapR_all) (use viewD(7) [OF v] in \<open>auto simp: mk_task_run1_Inr\<close>)
  then have listed: "list_tasks1 s (r1_id run) = Inr (sort_key t1_task_id own)"
    by (simp add: list_tasks1_def own_def)
  have get: "dict_get T k = Some t \<longleftrightarrow> t \<in> set own \<and> t1_task_id t = k" for k t
    using own viewD(7) [OF v] view_entry [OF v] by auto
  have uniq: "\<forall>t \<in> set (sort_key t1_task_id own). \<forall>u \<in> set (sort_key t1_task_id own). t1_task_id t = t1_task_id u \<longrightarrow> t = u"
  proof (intro ballI impI)
    fix t u assume "t \<in> set (sort_key t1_task_id own)" "u \<in> set (sort_key t1_task_id own)" "t1_task_id t = t1_task_id u"
    then have "dict_get T (t1_task_id u) = Some t" "dict_get T (t1_task_id u) = Some u" by (simp_all add: get)
    then show "t = u" by simp
  qed
  have "dict_get (fold (\<lambda>t d. dict_set (t1_task_id t) t d) (sort_key t1_task_id own) []) k = dict_get T k" for k
  proof (cases "dict_get T k")
    case None
    then have "k \<notin> t1_task_id ` set (sort_key t1_task_id own)" using get [of k] by auto
    then show ?thesis using None fold_dict_get(2) [OF uniq] by simp
  next
    case (Some t)
    then have "t \<in> set (sort_key t1_task_id own)" "t1_task_id t = k" by (simp_all add: get)
    then show ?thesis using Some fold_dict_get(1) [OF uniq, where t = t and d = "[]"] by simp
  qed
  then show thesis using that listed by blast
qed

section \<open>Ports that keep their promises\<close>

text \<open>\<open>I\<close> is the set of identifiers issued so far, \<open>C\<close> holds of every reading of the clock.\<close>

definition presentable1 :: "pyexc \<Rightarrow> bool" where
  \<comment> \<open>The error can be recorded on an attempt.\<close>
  "presentable1 e \<longleftrightarrow> is_executor_error e \<and> (case normalize_executor_error1 e of (error_type, error_message, error_category) \<Rightarrow>
     \<not> blank error_type \<and> \<not> blank error_message \<and> \<not> blank error_category)"

definition issues :: "('e \<Rightarrow> string set) \<Rightarrow> ('e, string) act \<Rightarrow> bool" where
  "issues I m \<longleftrightarrow> (\<forall>e. \<exists>i e'. m e = (Inr i, e') \<and> \<not> blank i \<and> i \<notin> I e \<and> insert i (I e) \<subseteq> I e')"

definition new_results :: "v1_task_result \<Rightarrow> string set" where
  "new_results r = ar1_id ` set (res1_artifacts r) \<union> xr1_id ` set (res1_external_refs r)"

definition result_fresh :: "string set \<Rightarrow> v1_task_result \<Rightarrow> bool" where
  "result_fresh X r \<longleftrightarrow> wf_pyval (res1_output r) \<and> distinct (map ar1_id (res1_artifacts r)) \<and>
     distinct (map xr1_id (res1_external_refs r)) \<and>
     ar1_id ` set (res1_artifacts r) \<inter> xr1_id ` set (res1_external_refs r) = {} \<and> new_results r \<inter> X = {}"

locale runner_ports =
  fixes P :: "'e ports1"
    and I :: "'e \<Rightarrow> string set"
    and C :: "datetime \<Rightarrow> bool"
  assumes clock: "\<exists>t e'. po_now P e = (Inr t, e') \<and> C t \<and> dt_aware t \<and> I e \<subseteq> I e'"
    and run_ids: "issues I (po_run_id P)"
    and task_run_ids: "issues I (po_task_run_id P i k)"
    and attempt_ids: "issues I (po_attempt_id P i n)"
    and event_ids: "issues I (po_event_id P i n)"
    and sleeps: "num_gt d 0 \<Longrightarrow> \<exists>e'. po_sleep P d e = (Inr (), e') \<and> I e \<subseteq> I e'"
    and emits: "I e \<subseteq> I (snd (po_emit P sink ev e))"
    and success: "po_execute P td h c e = (Inr r, e') \<Longrightarrow> result_fresh (I e) r \<and> new_results r \<union> I e \<subseteq> I e'"
    and failure: "po_execute P td h c e = (Inl x, e') \<Longrightarrow> presentable1 x \<and> I e \<subseteq> I e'"

text \<open>The store satisfies \<open>A\<close>, and everything it mentions, and \<open>X\<close>, has been issued.\<close>

definition stands :: "('e \<Rightarrow> string set) \<Rightarrow> (v1_store \<Rightarrow> bool) \<Rightarrow> string set \<Rightarrow> 'e engine1 \<Rightarrow> bool" where
  "stands I A X k \<longleftrightarrow> A (en_store k) \<and> ids_of (en_store k) \<union> X \<subseteq> I (en_env k)"

lemma stands_weaken: "stands I A X k \<Longrightarrow> (\<And>s. A s \<Longrightarrow> B s) \<Longrightarrow> Y \<subseteq> X \<Longrightarrow> stands I B Y k"
  unfolding stands_def by blast

lemma stands_env: "stands I A X k \<Longrightarrow> I (en_env k) \<subseteq> I e \<Longrightarrow> stands I A X (k\<lparr>en_env := e\<rparr>)"
  unfolding stands_def by simp blast

lemma stands_store:
  "stands I A X k \<Longrightarrow> B u \<Longrightarrow> ids_of u \<subseteq> ids_of (en_store k) \<union> X \<Longrightarrow> stands I B X (k\<lparr>en_store := u\<rparr>)"
  unfolding stands_def by simp blast

definition flat_payload :: "(string \<times> pyval) list \<Rightarrow> bool" where
  "flat_payload p \<longleftrightarrow> (\<forall>(k, v) \<in> set p. (\<exists>s. v = PyStr s) \<or> (\<exists>n. v = PyNum n))"

lemma flat_event_projects:
  assumes "flat_payload (e1_payload e)" "valid_event1 e"
  shows "\<exists>e'. event_for_sink p e = Inr e'"
proof -
  have "\<exists>q. redact_mapping vs = Inr q" if "flat_payload vs" for vs
    using that
  proof (induction vs)
    case (Cons v vs)
    then obtain q where "redact_mapping vs = Inr q" by (auto simp: flat_payload_def)
    then show ?case using Cons.prems by (cases v) (auto simp: redact_mapping_def flat_payload_def)
  qed (simp add: redact_mapping_def)
  then obtain q where "redact_mapping (e1_payload e) = Inr q" using assms(1) by blast
  moreover have "valid_event1 (e\<lparr>e1_payload := q\<rparr>)" using assms(2) by (simp add: valid_event1_def)
  ultimately show ?thesis
    using mk_event1_Inr [of "e\<lparr>e1_payload := q\<rparr>" "e\<lparr>e1_payload := q\<rparr>"] by (simp add: event_for_sink_def)
qed

text \<open>Events of one run with consecutive numbers, from \<open>n\<close> up to but not including \<open>m\<close>.\<close>

fun batch :: "string \<Rightarrow> int \<Rightarrow> v1_event list \<Rightarrow> int \<Rightarrow> bool" where
  "batch rid n [] m \<longleftrightarrow> m = n"
| "batch rid n (e # es) m \<longleftrightarrow> e1_run_id e = rid \<and> e1_sequence e = Some n \<and> batch rid (n + 1) es m"

lemma batch_snoc: "batch rid n es m \<Longrightarrow> e1_run_id e = rid \<Longrightarrow> e1_sequence e = Some m \<Longrightarrow> batch rid n (es @ [e]) (m + 1)"
  by (induction es arbitrary: n) auto

definition presentable_event :: "v1_event \<Rightarrow> bool" where
  "presentable_event e \<longleftrightarrow> valid_event1 e \<and> flat_payload (e1_payload e)"

lemma view_add_events:
  assumes "run_view s run tasks n" "batch (r1_id run) n es m" "distinct (map e1_id es)" "e1_id ` set es \<inter> ids_of s = {}"
  shows "\<exists>u. foldR (\<lambda>w. w) (map add_event1 es) s = Inr u \<and> run_view u run tasks m \<and> ids_of u = e1_id ` set es \<union> ids_of s \<and>
    s1_attempts u = s1_attempts s"
  using assms
proof (induction es arbitrary: s n)
  case (Cons e es)
  let ?u = "s\<lparr>s1_events := dict_set (e1_id e) e (s1_events s)\<rparr>"
  have e: "e1_run_id e = r1_id run" "e1_sequence e = Some n" "e1_id e \<notin> ids_of s" using Cons.prems by auto
  note u = view_add_event [OF Cons.prems(1) e]
  have "\<exists>v. foldR (\<lambda>w. w) (map add_event1 es) ?u = Inr v \<and> run_view v run tasks m \<and>
      ids_of v = e1_id ` set es \<union> ids_of ?u \<and> s1_attempts v = s1_attempts ?u"
    by (rule Cons.IH [OF u(2)]) (use Cons.prems in auto)
  then show ?case using u(1) by auto
qed simp

context runner_ports
begin

lemma now_contract: "contract (stands I A X) (now1 P) (\<lambda>t k. stands I A X k \<and> (C t \<and> dt_aware t)) never"
proof (rule contractI)
  fix k t k' assume a: "stands I A X k" "now1 P k = (Inr t, k')"
  obtain t' e' where "po_now P (en_env k) = (Inr t', e')" "C t'" "dt_aware t'" "I (en_env k) \<subseteq> I e'" using clock by blast
  then show "stands I A X k' \<and> (C t \<and> dt_aware t)"
    using a by (auto simp: now1_def in_env_def zoomA_def intro: stands_env)
next
  fix k x k' assume a: "now1 P k = (Inl x, k')"
  obtain t' e' where "po_now P (en_env k) = (Inr t', e')" using clock by blast
  then show "never x k'" using a by (simp add: now1_def in_env_def zoomA_def)
qed

lemma sleep_contract:
  assumes "num_gt d 0"
  shows "contract (stands I A X) (in_env (po_sleep P d)) (\<lambda>_. stands I A X) never"
proof (rule contractI)
  fix k t k' assume a: "stands I A X k" "in_env (po_sleep P d) k = (Inr t, k')"
  obtain e' where "po_sleep P d (en_env k) = (Inr (), e')" "I (en_env k) \<subseteq> I e'" using sleeps [OF assms] by blast
  then show "stands I A X k'" using a by (auto simp: in_env_def zoomA_def intro: stands_env)
next
  fix k x k' assume a: "in_env (po_sleep P d) k = (Inl x, k')"
  obtain e' where "po_sleep P d (en_env k) = (Inr (), e')" using sleeps [OF assms] by blast
  then show "never x k'" using a by (simp add: in_env_def zoomA_def)
qed

lemma issue_contract:
  assumes "issues I m"
  shows "contract (stands I A X) (in_env m)
    (\<lambda>i k. stands I (\<lambda>s. A s \<and> i \<notin> ids_of s) (insert i X) k \<and> (\<not> blank i \<and> i \<notin> X)) never"
proof (rule contractI)
  fix k i k' assume a: "stands I A X k" "in_env m k = (Inr i, k')"
  obtain j e' where "m (en_env k) = (Inr j, e')" "\<not> blank j" "j \<notin> I (en_env k)" "insert j (I (en_env k)) \<subseteq> I e'"
    using assms unfolding issues_def by blast
  then show "stands I (\<lambda>s. A s \<and> i \<notin> ids_of s) (insert i X) k' \<and> (\<not> blank i \<and> i \<notin> X)"
    using a by (auto simp: in_env_def zoomA_def stands_def subset_eq)
next
  fix k x k' assume a: "in_env m k = (Inl x, k')"
  obtain j e' where "m (en_env k) = (Inr j, e')" using assms unfolding issues_def by blast
  then show "never x k'" using a by (simp add: in_env_def zoomA_def)
qed

lemma write_contract:
  assumes "\<And>s. A s \<Longrightarrow> store1_ok s \<and> (\<exists>u. foldR (\<lambda>w. w) ws s = Inr u \<and> B u \<and> ids_of u \<subseteq> ids_of s \<union> X)"
  shows "contract (stands I A X) (in_store1 (write1 ws)) (\<lambda>_. stands I B X) never"
proof -
  have w: "\<exists>u. write1 ws (en_store k) = (Inr (), u) \<and> B u \<and> ids_of u \<subseteq> ids_of (en_store k) \<union> X" if "A (en_store k)"
    for k :: "'e engine1"
    using assms [OF that] clone_store1_ok by (auto simp: write1_eq)
  show ?thesis
  proof (rule contractI)
    fix k and r :: unit and k' assume a: "stands I A X k" "in_store1 (write1 ws) k = (Inr r, k')"
    moreover obtain u where "write1 ws (en_store k) = (Inr (), u)" "B u" "ids_of u \<subseteq> ids_of (en_store k) \<union> X"
      using w [of k] a(1) unfolding stands_def by blast
    ultimately show "stands I B X k'" by (auto simp: in_store1_def zoomA_def intro: stands_store)
  next
    fix k x k' assume a: "stands I A X k" "in_store1 (write1 ws) k = (Inl x, k')"
    then show "never x k'" using w [of k] by (auto simp: in_store1_def zoomA_def stands_def)
  qed
qed

lemma emit_all_grows: "foldA (emit_to (po_emit P) e e') names d env = (r, env') \<Longrightarrow> (\<exists>d'. r = Inr d') \<and> I env \<subseteq> I env'"
proof (induction names arbitrary: d env)
  case (Cons name names)
  obtain o1 env1 where one: "po_emit P (the (dict_get (dp_sinks d) name)) e' env = (o1, env1)" by fastforce
  then have grow: "I env \<subseteq> I env1" using emits [of env "the (dict_get (dp_sinks d) name)" e'] by simp
  obtain d1 where "emit_to (po_emit P) e e' name d env = (Inr d1, env1)"
    using one by (auto simp: emit_to_def attemptA_def bindA_def)
  then have "foldA (emit_to (po_emit P) e e') names d1 env1 = (r, env')" using Cons.prems by simp
  from Cons.IH [OF this] grow show ?case by blast
qed auto

lemma publish_contract:
  assumes "presentable_event e"
  shows "contract (stands I A X) (publish_event1 P e) (\<lambda>_. stands I A X) never"
proof -
  have p: "\<exists>d' env'. publish1 (po_emit P) e d env = (Inr d', env') \<and> I env \<subseteq> I env'" for d env
  proof -
    obtain e' where e': "event_for_sink (dp_policy d) e = Inr e'"
      using flat_event_projects assms unfolding presentable_event_def by blast
    obtain r env' where f: "foldA (emit_to (po_emit P) e e') (sink_names d) d env = (r, env')" by fastforce
    from emit_all_grows [OF f] f e' show ?thesis by (auto simp: publish1_def bindA_def)
  qed
  show ?thesis
  proof (rule contractI)
    fix k and r :: unit and k' assume a: "stands I A X k" "publish_event1 P e k = (Inr r, k')"
    obtain d' env' where "publish1 (po_emit P) e (en_dispatcher k) (en_env k) = (Inr d', env')" "I (en_env k) \<subseteq> I env'"
      using p by blast
    then have "k' = k\<lparr>en_env := env'\<rparr>\<lparr>en_dispatcher := d'\<rparr>" "stands I A X (k\<lparr>en_env := env'\<rparr>)"
      using a by (auto simp: publish_event1_def in_env_def zoomA_def bindA_def intro: stands_env)
    then show "stands I A X k'" by (simp add: stands_def)
  next
    fix k x k' assume a: "publish_event1 P e k = (Inl x, k')"
    then show "never x k'" using p [of "en_dispatcher k" "en_env k"]
      by (auto simp: publish_event1_def in_env_def zoomA_def bindA_def)
  qed
qed

lemma persist_contract:
  assumes "\<And>s. A s \<Longrightarrow> store1_ok s \<and> (\<exists>u. foldR (\<lambda>w. w) (ws @ map add_event1 es) s = Inr u \<and> B u \<and> ids_of u \<subseteq> ids_of s \<union> X)"
    and "\<forall>e \<in> set es. presentable_event e"
  shows "contract (stands I A X) (persist1 P ws es) (\<lambda>_. stands I B X) never"
  unfolding persist1_def
  by (rule contract_then [OF write_contract [OF assms(1)] contract_forA])
    (use assms(2) publish_contract in auto)

text \<open>Events that were created but not stored yet.\<close>

definition drafted ::
  "(v1_store \<Rightarrow> bool) \<Rightarrow> string set \<Rightarrow> int \<Rightarrow> v1_event list \<Rightarrow> event_factory1 \<Rightarrow> 'e engine1 \<Rightarrow> bool" where
  "drafted A X n es ef k \<longleftrightarrow> stands I (\<lambda>s. A s \<and> e1_id ` set es \<inter> ids_of s = {}) (X \<union> e1_id ` set es) k \<and>
     (distinct (map e1_id es) \<and> e1_id ` set es \<inter> X = {} \<and> batch (ef1_run_id ef) n es (ef1_next ef) \<and>
      (\<forall>e \<in> set es. presentable_event e) \<and> 1 \<le> n \<and> n \<le> ef1_next ef)"

lemma drafted_Nil: "drafted A X n [] ef k \<longleftrightarrow> stands I A X k \<and> 1 \<le> n \<and> ef1_next ef = n"
  by (auto simp: drafted_def)

definition in_context :: "v1_event_type \<Rightarrow> (string \<times> string) option \<Rightarrow> int option \<Rightarrow> bool" where
  "in_context ty task number \<longleftrightarrow> (if ty \<in> WORKFLOW_EVENT_TYPES1 then task = None \<and> number = None
     else task \<noteq> None \<and> (\<forall>(i, j) \<in> set_option task. \<not> blank i \<and> \<not> blank j) \<and> (\<forall>m \<in> set_option number. 1 \<le> m))"

lemma new_event_contract:
  assumes "in_context ty task number" "\<not> blank (ef1_run_id ef)" "dt_aware t" "flat_payload payload"
  shows "contract (drafted A X n es ef) (new_event1 P ty t task number payload ef)
    (\<lambda>(e, ef') k. drafted A X n (es @ [e]) ef' k \<and> (ef1_run_id ef' = ef1_run_id ef \<and> e1_occurred_at e = t)) never"
proof -
  define draft where "draft i = \<lparr>e1_id = i, e1_type = ty, e1_run_id = ef1_run_id ef, e1_occurred_at = t,
    e1_sequence = Some (ef1_next ef), e1_task_run_id = map_option fst task, e1_task_id = map_option snd task,
    e1_attempt_number = number, e1_payload = payload\<rparr>" for i
  have ok: "event_context (draft []) = Inr ()"
    using assms(1) by (auto simp: event_context_def draft_def in_context_def split: if_splits)
  have new: "\<exists>i e'. new_event1 P ty t task number payload ef k = (Inr (draft i, ef\<lparr>ef1_next := ef1_next ef + 1\<rparr>), k\<lparr>en_env := e'\<rparr>) \<and>
      i \<notin> I (en_env k) \<and> insert i (I (en_env k)) \<subseteq> I e' \<and> valid_event1 (draft i)" if "1 \<le> ef1_next ef" for k
  proof -
    obtain i e' where i: "po_event_id P (ef1_run_id ef) (ef1_next ef) (en_env k) = (Inr i, e')" "\<not> blank i"
      "i \<notin> I (en_env k)" "insert i (I (en_env k)) \<subseteq> I e'"
      using event_ids [of "ef1_run_id ef" "ef1_next ef"] unfolding issues_def by blast
    have v: "valid_event1 (draft i)"
      using assms i(2) that by (auto simp: valid_event1_def draft_def in_context_def split: if_splits)
    then have "mk_event1 (draft i) = Inr (draft i)" by (simp add: mk_event1_Inr)
    moreover have "(draft [])\<lparr>e1_id := j\<rparr> = draft j" for j by (simp add: draft_def)
    ultimately have "new_event1 P ty t task number payload ef k =
        (Inr (draft i, ef\<lparr>ef1_next := ef1_next ef + 1\<rparr>), k\<lparr>en_env := e'\<rparr>)"
      using ok i(1) unfolding new_event1_def create_event1_def Let_def draft_def [symmetric]
      by (simp add: in_env_def zoomA_def bindA_def thenA_def)
    then show ?thesis using i v by blast
  qed
  have step: "drafted A X n (es @ [draft i]) (ef\<lparr>ef1_next := ef1_next ef + 1\<rparr>) (k\<lparr>en_env := e'\<rparr>)"
    if d: "drafted A X n es ef k" and i: "i \<notin> I (en_env k)" "insert i (I (en_env k)) \<subseteq> I e'" "valid_event1 (draft i)" for k i e'
  proof -
    have own: "e1_id (draft i) = i" "e1_run_id (draft i) = ef1_run_id ef" "e1_sequence (draft i) = Some (ef1_next ef)"
      "presentable_event (draft i)"
      using i(3) assms(4) by (simp_all add: presentable_event_def) (simp_all add: draft_def)
    have st: "A (en_store k)" "e1_id ` set es \<inter> ids_of (en_store k) = {}" "ids_of (en_store k) \<subseteq> I (en_env k)"
      "X \<subseteq> I (en_env k)" "e1_id ` set es \<subseteq> I (en_env k)"
      using d by (simp_all add: drafted_def stands_def)
    have "stands I (\<lambda>s. A s \<and> e1_id ` set (es @ [draft i]) \<inter> ids_of s = {}) (X \<union> e1_id ` set (es @ [draft i])) (k\<lparr>en_env := e'\<rparr>)"
      using st i(1,2) own(1) by (auto simp: stands_def)
    moreover have "distinct (map e1_id (es @ [draft i]))" "e1_id ` set (es @ [draft i]) \<inter> X = {}"
      using d st i(1) own(1) by (auto simp: drafted_def)
    ultimately show ?thesis
      using d own batch_snoc [of "ef1_run_id ef" n es "ef1_next ef" "draft i"] by (simp add: drafted_def)
  qed
  have run: "\<exists>i e'. new_event1 P ty t task number payload ef k = (Inr (draft i, ef\<lparr>ef1_next := ef1_next ef + 1\<rparr>), k\<lparr>en_env := e'\<rparr>) \<and>
      drafted A X n (es @ [draft i]) (ef\<lparr>ef1_next := ef1_next ef + 1\<rparr>) (k\<lparr>en_env := e'\<rparr>)"
    if d: "drafted A X n es ef k" for k
  proof -
    have "1 \<le> ef1_next ef" using d by (simp add: drafted_def)
    then show ?thesis using new step [OF d] by blast
  qed
  have at_t: "e1_occurred_at (draft i) = t" for i by (simp add: draft_def)
  show ?thesis
  proof (rule contractI)
    fix k r k' assume "drafted A X n es ef k" "new_event1 P ty t task number payload ef k = (Inr r, k')"
    with run [of k] at_t show "(case r of (e, ef') \<Rightarrow> \<lambda>k. drafted A X n (es @ [e]) ef' k \<and>
        (ef1_run_id ef' = ef1_run_id ef \<and> e1_occurred_at e = t)) k'"
      by auto
  next
    fix k x k' assume "drafted A X n es ef k" "new_event1 P ty t task number payload ef k = (Inl x, k')"
    with run [of k] show "never x k'" by auto
  qed
qed

text \<open>Writing the drafts together with the entities they report on.\<close>

lemma persist_drafts:
  assumes "\<And>s. A s \<Longrightarrow> \<exists>u. foldR (\<lambda>w. w) ws s = Inr u \<and> run_view u run tasks n \<and> ids_of u \<subseteq> ids_of s \<union> X \<and> B (s1_attempts u)"
    and "\<And>s. A s \<Longrightarrow> store1_ok s" and rid: "ef1_run_id ef = r1_id run"
  shows "contract (drafted A X n es ef) (persist1 P ws es)
    (\<lambda>_. stands I (\<lambda>s. run_view s run tasks (ef1_next ef) \<and> B (s1_attempts s)) {}) never"
proof -
  let ?A = "\<lambda>s. A s \<and> e1_id ` set es \<inter> ids_of s = {}"
  let ?B = "\<lambda>s. run_view s run tasks (ef1_next ef) \<and> B (s1_attempts s)"
  show ?thesis
    unfolding drafted_def
  proof (rule contract_pure)
    assume d: "distinct (map e1_id es) \<and> e1_id ` set es \<inter> X = {} \<and> batch (ef1_run_id ef) n es (ef1_next ef) \<and>
      (\<forall>e \<in> set es. presentable_event e) \<and> 1 \<le> n \<and> n \<le> ef1_next ef"
    have "contract (stands I ?A (X \<union> e1_id ` set es)) (persist1 P ws es) (\<lambda>_. stands I ?B (X \<union> e1_id ` set es)) never"
    proof (rule persist_contract)
      fix s assume s: "?A s"
      obtain u where u: "foldR (\<lambda>w. w) ws s = Inr u" "run_view u run tasks n" "ids_of u \<subseteq> ids_of s \<union> X" "B (s1_attempts u)"
        using assms(1) [OF conjunct1 [OF s]] by (elim exE conjE)
      have "e1_id ` set es \<inter> ids_of u = {}" using u(3) conjunct2 [OF s] d by blast
      then have "\<exists>v. foldR (\<lambda>w. w) (map add_event1 es) u = Inr v \<and> run_view v run tasks (ef1_next ef) \<and>
          ids_of v = e1_id ` set es \<union> ids_of u \<and> s1_attempts v = s1_attempts u"
        using d by (intro view_add_events [OF u(2)]) (simp_all only: rid)
      then obtain v where v: "foldR (\<lambda>w. w) (map add_event1 es) u = Inr v" "run_view v run tasks (ef1_next ef)"
        "ids_of v = e1_id ` set es \<union> ids_of u" "s1_attempts v = s1_attempts u"
        by blast
      have "foldR (\<lambda>w. w) (ws @ map add_event1 es) s = Inr v" using u(1) v(1) by (simp add: foldR_writes_append)
      moreover have "?B v" using v(2) u(4) by (simp only: v(4) simp_thms)
      moreover have "ids_of v \<subseteq> ids_of s \<union> (X \<union> e1_id ` set es)" using v(3) u(3) by blast
      ultimately show "store1_ok s \<and> (\<exists>v. foldR (\<lambda>w. w) (ws @ map add_event1 es) s = Inr v \<and> ?B v \<and>
          ids_of v \<subseteq> ids_of s \<union> (X \<union> e1_id ` set es))"
        using assms(2) [OF conjunct1 [OF s]] by iprover
    qed (use d in blast)
    then show "contract (stands I ?A (X \<union> e1_id ` set es)) (persist1 P ws es) (\<lambda>_. stands I ?B {}) never"
      by (rule contract_post) (erule stands_weaken; simp)
  qed
qed

end

end
