(* ===== verification/V1_Settled.thy ===== *)
theory V1_Settled
  imports V1_Runs
begin

text \<open>
  Every run that \<open>run\<close> of the first-generation runner has stored is settled when the method returns
  or raises: it is SUCCEEDED with all its tasks, or FAILED with no task left open.  The contracts
  follow \<open>V1_Runner\<close> method by method.
\<close>

section \<open>What the methods rely on\<close>

lemma contract_bind_pair:
  assumes "contract P m (\<lambda>(x, y). Q x y) E" "\<And>x y. contract (Q x y) (f x y) R E"
  shows "contract P (bindA m (\<lambda>(x, y). f x y)) R E"
  by (rule contract_bind [OF assms(1)]) (use assms(2) in \<open>auto split: prod.splits\<close>)

lemma dict_set_twice: "dict_set k v (dict_set k u d) = dict_set k v d"
  by (simp add: dict_set_def)

lemma dict_set_same: "dict_get d k = Some v \<Longrightarrow> dict_set k v d = d"
  by (simp add: dict_set_def update_triv)

text \<open>Attempt \<open>a\<close> is the latest of the task run with identifier \<open>i\<close>.\<close>

definition latest_of :: "string \<Rightarrow> v1_attempt \<Rightarrow> (string, v1_attempt) dict \<Rightarrow> bool" where
  "latest_of i a ats \<longleftrightarrow> (\<exists>b. dict_get ats (a1_id a) = Some b \<and> a1_task_run_id b = a1_task_run_id a \<and> a1_number b = a1_number a) \<and>
     (\<forall>j b. dict_get ats j = Some b \<longrightarrow> a1_task_run_id b = i \<longrightarrow> a1_number b \<le> a1_number a)"

lemma latest_below: "latest_of i a (s1_attempts s) \<Longrightarrow> attempts_below s i (a1_number a)"
  by (simp add: latest_of_def attempts_below_def)

definition in_hand :: "v1_task_run \<Rightarrow> v1_attempt \<Rightarrow> bool" where
  \<comment> \<open>A running attempt of a running task.\<close>
  "in_hand t a \<longleftrightarrow> valid_attempt1 a \<and> a1_task_run_id a = t1_id t \<and> a1_status a = A1_RUNNING"

definition delays_fit :: "(datetime \<Rightarrow> bool) \<Rightarrow> v1_retry_policy \<Rightarrow> bool" where
  \<comment> \<open>No delay of the policy overflows, as a float or on the calendar.\<close>
  "delays_fit C p \<longleftrightarrow> (\<forall>n. 1 \<le> n \<longrightarrow> n < rp1_max_attempts p \<longrightarrow>
     (\<exists>d. backoff_delay1 p n = Inr d \<and> py_isfinite d \<and> 0 \<le> num_val d \<and> (\<forall>t. C t \<longrightarrow> (\<exists>u. add_seconds t d = Inr u))))"

definition framed :: "(datetime \<Rightarrow> bool) \<Rightarrow> task_frame1 \<Rightarrow> v1_task_run \<Rightarrow> bool" where
  "framed C f t \<longleftrightarrow> valid_run1 (fr_run f) \<and> r1_status (fr_run f) = W1_RUNNING \<and>
     dict_get (fr_tasks f) (t1_task_id t) = Some t \<and> valid_task1 t \<and> t1_run_id t = r1_id (fr_run f) \<and>
     t1_status t = T1_RUNNING \<and>
     (\<forall>(k, u) \<in> set (fr_tasks f). k \<noteq> t1_task_id t \<longrightarrow> t1_status u \<in> {T1_PENDING, T1_READY, T1_SUCCEEDED}) \<and>
     distinct (fr_plan_ids f) \<and> set (fr_plan_ids f) = fst ` set (fr_tasks f) \<and>
     (\<exists>w. valid_workflow1 w \<and> known1 w \<and> build_graph1 w = Inr (fr_graph f) \<and> fst ` set (fr_tasks f) = td1_id ` set (wd1_tasks w)) \<and>
     delays_fit C (td1_retry (fr_task f))"

definition settled :: "string \<Rightarrow> string set \<Rightarrow> v1_run_status \<Rightarrow> v1_store \<Rightarrow> bool" where
  \<comment> \<open>The run is stored with this status, its task runs are those of the tasks in \<open>ids\<close>, one each, all
     of them closed, and its events are numbered from 1 without a gap.\<close>
  "settled i ids st s \<longleftrightarrow> (\<exists>run tasks n. run_view s run tasks n \<and> r1_id run = i \<and> r1_status run = st \<and> fst ` set tasks = ids \<and>
     (\<forall>(k, t) \<in> set tasks. t1_status t \<in> (if st = W1_SUCCEEDED then {T1_SUCCEEDED} else {T1_SUCCEEDED, T1_FAILED, T1_SKIPPED})))"

lemma start_run1_ok: "dt_aware now \<Longrightarrow> r1_status r = W1_PENDING \<Longrightarrow>
    start_run1 now r = Inr (r\<lparr>r1_status := W1_RUNNING, r1_started_at := Some now, r1_finished_at := None\<rparr>)"
  and succeed_run1_ok: "dt_aware now \<Longrightarrow> r1_status r = W1_RUNNING \<Longrightarrow>
    succeed_run1 now r = Inr (r\<lparr>r1_status := W1_SUCCEEDED, r1_finished_at := Some now\<rparr>)"
  and fail_run1_ok: "dt_aware now \<Longrightarrow> r1_status r = W1_RUNNING \<Longrightarrow>
    fail_run1 now r = Inr (r\<lparr>r1_status := W1_FAILED, r1_finished_at := Some now\<rparr>)"
  by (simp_all add: run1_Inr)

lemma mark_ready1_ok: "t1_status t = T1_PENDING \<Longrightarrow> mark_ready1 t = Inr (t\<lparr>t1_status := T1_READY\<rparr>)"
  and start_task1_ok: "dt_aware now \<Longrightarrow> t1_status t = T1_READY \<Longrightarrow> start_task1 now t = Inr
    (t\<lparr>t1_status := T1_RUNNING, t1_started_at := Some now, t1_finished_at := None, t1_skip_reason := None\<rparr>)"
  and succeed_task1_ok: "dt_aware now \<Longrightarrow> t1_status t = T1_RUNNING \<Longrightarrow> succeed_task1 now t = Inr
    (t\<lparr>t1_status := T1_SUCCEEDED, t1_finished_at := Some now, t1_skip_reason := None\<rparr>)"
  and fail_task1_ok: "dt_aware now \<Longrightarrow> t1_status t = T1_RUNNING \<Longrightarrow> fail_task1 now t = Inr
    (t\<lparr>t1_status := T1_FAILED, t1_finished_at := Some now, t1_skip_reason := None\<rparr>)"
  by (simp_all add: task1_Inr)

context runner_ports
begin

lemma drafted_start:
  assumes "\<And>s. A s \<Longrightarrow> \<exists>run tasks. run_view s run tasks (ef1_next ef)"
  shows "stands I A X k \<Longrightarrow> drafted A X (ef1_next ef) [] ef k"
  using assms viewD(4) by (fastforce simp: drafted_Nil stands_def)

lemma new_first_event:
  assumes "in_context ty task number" "\<not> blank (ef1_run_id ef)" "dt_aware t" "flat_payload payload"
    and "\<And>s. A s \<Longrightarrow> \<exists>run tasks. run_view s run tasks (ef1_next ef)"
  shows "contract (stands I A X) (new_event1 P ty t task number payload ef)
    (\<lambda>(e, ef') k. drafted A X (ef1_next ef) [e] ef' k \<and> (ef1_run_id ef' = ef1_run_id ef \<and> e1_occurred_at e = t)) never"
  using contract_pre [OF new_event_contract [OF assms(1-4), of A X "ef1_next ef" "[]"] drafted_start [OF assms(5)]]
  by simp

section \<open>Transitions of the run\<close>

lemma persist_run_contract:
  assumes "run1_step run run'" "valid_run1 run" "ef1_run_id ef = r1_id run"
  shows "contract (drafted (\<lambda>s. run_view s run tasks n) {} n [e] ef) (persist_run1 P run' e)
    (\<lambda>_. stands I (\<lambda>s. run_view s run' tasks (ef1_next ef)) {}) never"
proof -
  have "r1_id run' = r1_id run" "valid_run1 run'"
    using run1_step_frame [OF assms(1)] run1_step_valid [OF assms(1,2)] by simp_all
  then have "contract (drafted (\<lambda>s. run_view s run tasks n) {} n [e] ef) (persist1 P [save_run1 run'] [e])
    (\<lambda>_. stands I (\<lambda>s. run_view s run' tasks (ef1_next ef) \<and> True) {}) never"
    by (intro persist_drafts) (use viewD(1) view_save_run stored_ids(1) [OF viewD(2)] assms(3) in \<open>fastforce simp: insert_absorb\<close>)+
  then show ?thesis by (simp add: persist_run1_def)
qed

lemma start_workflow_contract:
  assumes "valid_run1 run" "r1_status run = W1_PENDING" "ef1_run_id ef = r1_id run"
  shows "contract (stands I (\<lambda>s. run_view s run tasks (ef1_next ef)) {}) (start_workflow1 P run ef)
    (\<lambda>(run', ef') k. stands I (\<lambda>s. run_view s run' tasks (ef1_next ef')) {} k \<and>
      (valid_run1 run' \<and> r1_id run' = r1_id run \<and> r1_status run' = W1_RUNNING \<and> ef1_run_id ef' = r1_id run)) never"
  unfolding start_workflow1_def
proof (rule contract_bind [OF now_contract], rule contract_pure)
  fix t assume t: "C t \<and> dt_aware t"
  let ?run = "run\<lparr>r1_status := W1_RUNNING, r1_started_at := Some t, r1_finished_at := None\<rparr>"
  have started: "start_run1 t run = Inr ?run" using t assms(2) by (simp add: start_run1_ok)
  note step = run1_step.intros(1) [OF started]
  show "contract (stands I (\<lambda>s. run_view s run tasks (ef1_next ef)) {})
    (bindA (liftR (start_run1 t run)) (\<lambda>run. bindA (new_event1 P v1_event_type.WORKFLOW_STARTED t None None [] ef)
      (\<lambda>(e, ef). thenA (persist_run1 P run e) (ret (run, ef)))))
    (\<lambda>(run', ef') k. stands I (\<lambda>s. run_view s run' tasks (ef1_next ef')) {} k \<and>
      (valid_run1 run' \<and> r1_id run' = r1_id run \<and> r1_status run' = W1_RUNNING \<and> ef1_run_id ef' = r1_id run)) never"
    by (rule contract_bind_lift [OF started], rule contract_bind_pair [OF new_first_event], (use assms t in
        \<open>auto simp: in_context_def WORKFLOW_EVENT_TYPES1_def flat_payload_def valid_run1_def\<close>)[5],
      rule contract_pure, rule contract_then [OF persist_run_contract [OF step assms(1)]], use assms(3) in simp,
      rule contract_pre [OF contract_ret]) (use run1_step_valid [OF step assms(1)] assms(3) in simp)
qed

lemma finish_workflow_contract:
  assumes "valid_run1 run" "r1_status run = W1_RUNNING" "ef1_run_id ef = r1_id run" "flat_payload payload"
    and done_all: "\<forall>(k, t) \<in> set tasks. t1_status t = T1_SUCCEEDED"
  shows "contract (stands I (\<lambda>s. run_view s run tasks (ef1_next ef)) {}) (finish_workflow1 P run payload ef)
    (\<lambda>run' k. stands I (settled (r1_id run) (fst ` set tasks) W1_SUCCEEDED) {} k \<and>
      (get_run1 (en_store k) (r1_id run) = Inr run' \<and> r1_status run' = W1_SUCCEEDED \<and> r1_id run' = r1_id run)) never"
  unfolding finish_workflow1_def
proof (rule contract_bind [OF now_contract], rule contract_pure)
  fix t assume t: "C t \<and> dt_aware t"
  let ?run = "run\<lparr>r1_status := W1_SUCCEEDED, r1_finished_at := Some t\<rparr>"
  have finished: "succeed_run1 t run = Inr ?run" using t assms(2) by (simp add: succeed_run1_ok)
  note step = run1_step.intros(2) [OF finished]
  have last: "contract (stands I (\<lambda>s. run_view s ?run tasks n) {}) (bindA (gets en_store) (\<lambda>s. liftR (get_run1 s (r1_id ?run))))
      (\<lambda>run' k. stands I (settled (r1_id run) (fst ` set tasks) W1_SUCCEEDED) {} k \<and>
      (get_run1 (en_store k) (r1_id run) = Inr run' \<and> r1_status run' = W1_SUCCEEDED \<and> r1_id run' = r1_id run)) never" for n
  proof -
    have "get_run1 (en_store k) (r1_id run) = Inr ?run \<and> stands I (settled (r1_id run) (fst ` set tasks) W1_SUCCEEDED) {} k"
      if k: "stands I (\<lambda>s. run_view s ?run tasks n) {} k" for k
    proof
      have v: "run_view (en_store k) ?run tasks n" using k by (simp add: stands_def)
      then show "get_run1 (en_store k) (r1_id run) = Inr ?run"
        using viewD(2,6) [OF v] by (simp add: get_run1_def mk_run1_Inr)
      show "stands I (settled (r1_id run) (fst ` set tasks) W1_SUCCEEDED) {} k"
        by (rule stands_weaken [OF k])
          (unfold settled_def, rule exI [of _ ?run], rule exI [of _ tasks], rule exI [of _ n], use done_all in auto)
    qed
    then show ?thesis unfolding contract_def by (auto simp: bindA_def)
  qed
  show "contract (stands I (\<lambda>s. run_view s run tasks (ef1_next ef)) {})
    (bindA (liftR (succeed_run1 t run)) (\<lambda>run. bindA (new_event1 P v1_event_type.WORKFLOW_SUCCEEDED t None None payload ef)
      (\<lambda>(e, ef). thenA (persist_run1 P run e) (bindA (gets en_store) (\<lambda>s. liftR (get_run1 s (r1_id run)))))))
    (\<lambda>run' k. stands I (settled (r1_id run) (fst ` set tasks) W1_SUCCEEDED) {} k \<and>
      (get_run1 (en_store k) (r1_id run) = Inr run' \<and> r1_status run' = W1_SUCCEEDED \<and> r1_id run' = r1_id run)) never"
    by (rule contract_bind_lift [OF finished], rule contract_bind_pair [OF new_first_event], (use assms t in
        \<open>auto simp: in_context_def WORKFLOW_EVENT_TYPES1_def valid_run1_def\<close>)[5],
      rule contract_pure, rule contract_then [OF persist_run_contract [OF step assms(1)] last]) (use assms(3) in simp)
qed

section \<open>Attempts\<close>

lemma new_attempt_contract:
  assumes "\<not> blank (t1_id t)" "1 \<le> n" "dt_aware now"
  shows "contract (stands I A X) (new_attempt1 P t n now)
    (\<lambda>a k. stands I (\<lambda>s. A s \<and> a1_id a \<notin> ids_of s) (insert (a1_id a) X) k \<and> (in_hand t a \<and> a1_number a = n)) never"
  unfolding new_attempt1_def
proof (rule contract_bind [OF issue_contract [OF attempt_ids]], rule contract_pure)
  fix i assume i: "\<not> blank i \<and> i \<notin> X"
  let ?a = "\<lparr>a1_id = i, a1_task_run_id = t1_id t, a1_number = n, a1_status = A1_RUNNING,
    a1_started_at = Some now, a1_finished_at = None, a1_error_type = None, a1_error_message = None,
    a1_error_category = None, a1_retry_eligible_at = None, a1_error_metadata = []\<rparr>"
  have "valid_attempt1 ?a" using i assms by (simp add: valid_attempt1_def ATTEMPT1_TERMINAL_def)
  then have "mk_attempt1 ?a = Inr ?a" "in_hand t ?a" by (simp_all add: mk_attempt1_Inr in_hand_def)
  then show "contract (stands I (\<lambda>s. A s \<and> i \<notin> ids_of s) (insert i X)) (liftR (mk_attempt1 ?a))
    (\<lambda>a k. stands I (\<lambda>s. A s \<and> a1_id a \<notin> ids_of s) (insert (a1_id a) X) k \<and> (in_hand t a \<and> a1_number a = n)) never"
    by (auto intro!: contract_pre [OF contract_lift])
qed

lemma latest_added: "attempts_below (s\<lparr>s1_attempts := dict_set (a1_id a) a d\<rparr>) i (a1_number a) \<Longrightarrow>
    latest_of i a (dict_set (a1_id a) a d)"
  by (auto simp: latest_of_def attempts_below_def dict_get_set)

lemma view_latest_saved:
  assumes v: "run_view s run T n" and l: "latest_of i a (s1_attempts s)" and "valid_attempt1 a"
  shows "\<exists>u. save_attempt1 a s = Inr u \<and> run_view u run T n \<and> ids_of u \<subseteq> ids_of s \<and> latest_of i a (s1_attempts u)"
proof -
  let ?u = "s\<lparr>s1_attempts := dict_set (a1_id a) a (s1_attempts s)\<rparr>"
  obtain b where b: "dict_get (s1_attempts s) (a1_id a) = Some b" "a1_task_run_id a = a1_task_run_id b" "a1_number a = a1_number b"
    using l by (auto simp: latest_of_def)
  note saved = view_save_attempt [OF v b assms(3)]
  have "attempts_below ?u i (a1_number a)" by (rule attempts_below_save [OF b latest_below [OF l]])
  then have "latest_of i a (s1_attempts ?u)" by (simp add: latest_added)
  then show ?thesis using saved by blast
qed

lemma view_attempt_added:
  assumes v: "run_view s run T n" and k: "dict_get T k = Some t" and a: "in_hand t a" "a1_id a \<notin> ids_of s"
    and "attempts_below s (t1_id t) (a1_number a - 1)" "t1_status t \<notin> {T1_PENDING, T1_READY}"
  shows "\<exists>u. add_attempt1 a s = Inr u \<and> run_view u run T n \<and> ids_of u \<subseteq> insert (a1_id a) (ids_of s) \<and>
    latest_of (t1_id t) a (s1_attempts u)"
proof -
  have "(k, t) \<in> set T" using k view_entry [OF v] by simp
  note added = view_add_attempt [OF v this _ _ a(2) assms(5,6)]
  have "valid_attempt1 a" "a1_task_run_id a = t1_id t" using a(1) by (simp_all add: in_hand_def)
  note added = added [OF this]
  have "latest_of (t1_id t) a (s1_attempts (s\<lparr>s1_attempts := dict_set (a1_id a) a (s1_attempts s)\<rparr>))"
    using latest_added [OF added(3)] by simp
  then show ?thesis using added by blast
qed

section \<open>Transitions of a task\<close>

lemma view_task_step:
  assumes v: "run_view s run T n" and k: "dict_get T k = Some t" and t: "task1_step t t'"
    and "t1_status t' \<in> {T1_PENDING, T1_READY} \<Longrightarrow> t1_status t \<in> {T1_PENDING, T1_READY}"
  shows "\<exists>u. save_task1 t' s = Inr u \<and> run_view u run (dict_set k t' T) n \<and> ids_of u \<subseteq> ids_of s \<and> s1_attempts u = s1_attempts s \<and>
    s1_outputs u = s1_outputs s"
proof -
  have e: "(k, t) \<in> set T" using k view_entry [OF v] by simp
  have valid: "valid_task1 t'" using task1_step_valid [OF t] viewD(7) [OF v e] by blast
  have "t1_status t \<noteq> T1_SUCCEEDED" using task1_step_target [OF t] by auto
  then show ?thesis
    using view_save_task [OF v e valid] task1_step_frame [OF t] assms(4) by auto
qed

lemma persist_task_contract:
  assumes k: "dict_get T k = Some t" and t: "task1_step t t'" and "ef1_run_id ef = r1_id run"
    and "t1_status t' \<in> {T1_PENDING, T1_READY} \<Longrightarrow> t1_status t \<in> {T1_PENDING, T1_READY}"
  shows "contract (drafted (\<lambda>s. run_view s run T n) {} n [e] ef) (persist_task1 P t' e)
    (\<lambda>_. stands I (\<lambda>s. run_view s run (dict_set k t' T) (ef1_next ef)) {}) never"
proof -
  have "contract (drafted (\<lambda>s. run_view s run T n) {} n [e] ef) (persist1 P [save_task1 t'] [e])
    (\<lambda>_. stands I (\<lambda>s. run_view s run (dict_set k t' T) (ef1_next ef) \<and> True) {}) never"
  proof (rule persist_drafts [OF _ viewD(1) assms(3)])
    fix s assume "run_view s run T n"
    from view_task_step [OF this k t assms(4)]
    show "\<exists>u. foldR (\<lambda>w. w) [save_task1 t'] s = Inr u \<and> run_view u run (dict_set k t' T) n \<and> ids_of u \<subseteq> ids_of s \<union> {} \<and> True"
      by auto
  qed
  then show ?thesis by (simp add: persist_task1_def)
qed

lemma persist_start_contract:
  assumes k: "dict_get T k = Some t" and t: "start_task1 now t = Inr t'" and "ef1_run_id ef = r1_id run"
    and a: "in_hand t a" "a1_number a = 1"
  shows "contract (drafted (\<lambda>s. run_view s run T n \<and> a1_id a \<notin> ids_of s) {a1_id a} n [e] ef) (persist_start1 P t' a e)
    (\<lambda>_. stands I (\<lambda>s. run_view s run (dict_set k t' T) (ef1_next ef) \<and> latest_of (t1_id t') a (s1_attempts s)) {}) never"
  unfolding persist_start1_def
proof (rule persist_drafts [OF _ _ assms(3)])
  fix s assume s: "run_view s run T n \<and> a1_id a \<notin> ids_of s"
  have t': "t1_status t = T1_READY" "t1_status t' = T1_RUNNING" "t1_id t' = t1_id t" using t by (auto simp: task1_Inr)
  obtain u where u: "save_task1 t' s = Inr u" "run_view u run (dict_set k t' T) n" "ids_of u \<subseteq> ids_of s" "s1_attempts u = s1_attempts s"
    using view_task_step [OF conjunct1 [OF s] k task1_step.intros(2) [OF t]] t' by auto
  have "(k, t) \<in> set T" using k view_entry [OF conjunct1 [OF s]] by simp
  then have "attempts_below u (t1_id t') (a1_number a - 1)"
    using viewD(8) [OF conjunct1 [OF s]] t' u(4) a(2) by (simp add: attempts_below_def)
  moreover have "in_hand t' a" "a1_id a \<notin> ids_of u" using a(1) t' s u(3) by (auto simp: in_hand_def)
  ultimately obtain v where "add_attempt1 a u = Inr v" "run_view v run (dict_set k t' T) n" "ids_of v \<subseteq> insert (a1_id a) (ids_of u)"
    "latest_of (t1_id t') a (s1_attempts v)"
    using view_attempt_added [OF u(2), of k t' a] t' by (auto simp: dict_get_set)
  then show "\<exists>v. foldR (\<lambda>w. w) [save_task1 t', add_attempt1 a] s = Inr v \<and> run_view v run (dict_set k t' T) n \<and>
      ids_of v \<subseteq> ids_of s \<union> {a1_id a} \<and> latest_of (t1_id t') a (s1_attempts v)"
    using u by auto
qed (use viewD(1) in blast)

section \<open>A failure that ends the run\<close>

definition under_way :: "task_frame1 \<Rightarrow> v1_task_run \<Rightarrow> v1_attempt \<Rightarrow> event_factory1 \<Rightarrow> v1_store \<Rightarrow> bool" where
  "under_way f t a ef s \<longleftrightarrow> run_view s (fr_run f) (fr_tasks f) (ef1_next ef) \<and> latest_of (t1_id t) a (s1_attempts s)"

definition failed_by :: "datetime \<Rightarrow> v1_task_run \<Rightarrow> v1_attempt \<Rightarrow> bool" where
  "failed_by now t a \<longleftrightarrow> valid_attempt1 a \<and> a1_task_run_id a = t1_id t \<and> a1_status a = A1_FAILED \<and> a1_finished_at a = Some now \<and>
     dt_aware now"

lemma skipped_events_contract:
  assumes "\<forall>k \<in> set ks. \<exists>u. dict_get T k = Some u \<and> \<not> blank (t1_id u) \<and> \<not> blank k" "dt_aware now" "\<not> blank rid"
    and "flat_payload prefix"
  shows "contract (\<lambda>k. drafted A X n es ef k \<and> ef1_run_id ef = rid)
    (foldA (skipped_event1 P now prefix failed T) (map (\<lambda>k. (k, reason k)) ks) (es, ef))
    (\<lambda>(es, ef) k. drafted A X n es ef k \<and> ef1_run_id ef = rid) never"
proof -
  define J where "J = (\<lambda>(pre :: (string \<times> v1_skip_reason) list) p k. case p of (es, ef) \<Rightarrow> drafted A X n es ef k \<and> ef1_run_id ef = rid)"
  have "contract (J [] (es, ef)) (foldA (skipped_event1 P now prefix failed T) (map (\<lambda>k. (k, reason k)) ks) (es, ef))
      (J (map (\<lambda>k. (k, reason k)) ks)) never"
  proof (rule contract_foldA)
    fix pre x post and p :: "v1_event list \<times> event_factory1" assume "map (\<lambda>k. (k, reason k)) ks = pre @ x # post"
    then have "x \<in> set (map (\<lambda>k. (k, reason k)) ks)" by simp
    then obtain k where k: "k \<in> set ks" "x = (k, reason k)" by auto
    obtain es ef where p: "p = (es, ef)" by fastforce
    obtain u where u: "dict_get T k = Some u" "\<not> blank (t1_id u)" "\<not> blank k" using assms(1) k(1) by blast
    have "contract (\<lambda>k. drafted A X n es ef k \<and> ef1_run_id ef = rid)
      (bindA (liftR (key_lookup T k)) (\<lambda>t. bindA (new_event1 P v1_event_type.TASK_SKIPPED now (Some (t1_id t, k)) None
        (prefix @ [(''reason'', PyStr (skip1_value (reason k))), (''failed_task_id'', PyStr failed)]) ef)
        (\<lambda>(e, ef). ret (es @ [e], ef)))) (J (pre @ [x])) never"
    proof (rule contract_pure)
      assume rid: "ef1_run_id ef = rid"
      show "contract (drafted A X n es ef)
        (bindA (liftR (key_lookup T k)) (\<lambda>t. bindA (new_event1 P v1_event_type.TASK_SKIPPED now (Some (t1_id t, k)) None
          (prefix @ [(''reason'', PyStr (skip1_value (reason k))), (''failed_task_id'', PyStr failed)]) ef)
          (\<lambda>(e, ef). ret (es @ [e], ef)))) (J (pre @ [x])) never"
        by (rule contract_bind_lift [of _ u], use u in \<open>simp add: key_lookup_def\<close>,
          rule contract_bind_pair [OF new_event_contract],
          (use u assms rid in \<open>auto simp: in_context_def WORKFLOW_EVENT_TYPES1_def flat_payload_def\<close>)[4],
          rule contract_pre [OF contract_ret]) (use rid in \<open>auto simp: J_def\<close>)
    qed
    then show "contract (J pre p) (skipped_event1 P now prefix failed T x p) (J (pre @ [x])) never"
      by (simp add: J_def p k(2) skipped_event1_def)
  qed
  then show ?thesis by (simp add: J_def case_prod_beta')
qed

lemma terminal_writes:
  assumes v: "run_view s (fr_run f) (fr_tasks f) n" and l: "latest_of (t1_id t) a (s1_attempts s)" and fr: "framed C f t"
    and a: "failed_by now t a" and t: "fail_task1 now t = Inr t'" and run: "fail_run1 now (fr_run f) = Inr run'"
    and ks: "distinct ks" "\<forall>k \<in> set ks. \<exists>u. k \<noteq> t1_task_id t \<and> dict_get (fr_tasks f) k = Some u \<and> closes u (U k)"
  shows "\<exists>u. foldR (\<lambda>w. w) ([save_attempt1 a, save_task1 t'] @ map (\<lambda>k. save_task1 (U k)) ks @ [save_run1 run']) s = Inr u \<and>
    run_view u run' (set_all U ks (dict_set (t1_task_id t) t' (fr_tasks f))) n \<and> ids_of u \<subseteq> ids_of s"
proof -
  obtain s1 where s1: "save_attempt1 a s = Inr s1" "run_view s1 (fr_run f) (fr_tasks f) n" "ids_of s1 \<subseteq> ids_of s"
    using view_latest_saved [OF v l] a by (auto simp: failed_by_def)
  have k: "dict_get (fr_tasks f) (t1_task_id t) = Some t" using fr by (simp add: framed_def)
  have t': "t1_status t' \<notin> {T1_PENDING, T1_READY}" using t by (auto simp: task1_Inr)
  let ?T = "dict_set (t1_task_id t) t' (fr_tasks f)"
  obtain s2 where s2: "save_task1 t' s1 = Inr s2" "run_view s2 (fr_run f) ?T n" "ids_of s2 \<subseteq> ids_of s1"
    using view_task_step [OF s1(2) k task1_step.intros(4) [OF t]] t' by blast
  have "\<forall>k \<in> set ks. \<exists>u. dict_get ?T k = Some u \<and> closes u (U k)" using ks(2) by (fastforce simp: dict_get_set)
  then obtain s3 where s3: "foldR (\<lambda>w. w) (map (\<lambda>k. save_task1 (U k)) ks) s2 = Inr s3"
      "run_view s3 (fr_run f) (set_all U ks ?T) n" "ids_of s3 \<subseteq> ids_of s2"
    using view_save_tasks [OF s2(2) ks(1)] by blast
  have r: "valid_run1 run'" "r1_id run' = r1_id (fr_run f)"
    using run1_step_valid [OF run1_step.intros(3) [OF run]] run1_step_frame [OF run1_step.intros(3) [OF run]] fr
    by (simp_all add: framed_def)
  note s4 = view_save_run [OF s3(2) r]
  let ?u = "s3\<lparr>s1_runs := dict_set (r1_id run') run' (s1_runs s3)\<rparr>"
  have "foldR (\<lambda>w. w) ([save_attempt1 a, save_task1 t'] @ map (\<lambda>k. save_task1 (U k)) ks @ [save_run1 run']) s = Inr ?u"
    using s1(1) s2(1) s3(1) s4(1) by (simp add: foldR_writes_append)
  moreover have "r1_id run' \<in> ids_of s3" using stored_ids(1) [OF viewD(2) [OF s3(2)]] r(2) by simp
  then have "ids_of ?u \<subseteq> ids_of s" using s1(3) s2(3) s3(3) by (auto simp: insert_absorb)
  ultimately show ?thesis using s4(2) by blast
qed

end

lemma contract_assume: "(\<And>s. P s \<Longrightarrow> b) \<Longrightarrow> (b \<Longrightarrow> contract P m Q E) \<Longrightarrow> contract P m Q E"
  by (auto simp: contract_def)

lemma terminal_settled:
  assumes v: "run_view s run' (set_all U ks (dict_set k t' T)) n" and "r1_status run' = W1_FAILED" "t1_status t' = T1_FAILED"
    and T: "dict_has T k" "set ks \<subseteq> fst ` set T - {k}" "\<forall>k \<in> set ks. t1_status (U k) = T1_SKIPPED"
    and rest: "\<forall>(j, u) \<in> set T. j \<noteq> k \<longrightarrow> j \<notin> set ks \<longrightarrow> t1_status u = T1_SUCCEEDED" and "dict_ok T"
  shows "settled (r1_id run') (fst ` set T) W1_FAILED s"
  unfolding settled_def
proof (intro exI conjI)
  let ?T = "set_all U ks (dict_set k t' T)"
  have "set ks \<subseteq> fst ` set (dict_set k t' T)" using T(2) by (auto simp: dict_set_keys)
  then show "fst ` set ?T = fst ` set T" using T(1) by (simp add: set_all_keys dict_set_keys insert_absorb)
  show "\<forall>(j, u) \<in> set ?T. t1_status u \<in> (if W1_FAILED = W1_SUCCEEDED then {T1_SUCCEEDED} else {T1_SUCCEEDED, T1_FAILED, T1_SKIPPED})"
  proof clarify
    fix j u assume "(j, u) \<in> set ?T"
    then have "dict_get ?T j = Some u" using view_entry [OF v] by simp
    then show "t1_status u \<in> (if W1_FAILED = W1_SUCCEEDED then {T1_SUCCEEDED} else {T1_SUCCEEDED, T1_FAILED, T1_SKIPPED})"
      using T(3) assms(3) rest dict_get_iff [OF assms(8)] by (auto simp: set_all_get dict_get_set split: if_splits)
  qed
qed (use v assms(2) in simp_all)

context runner_ports
begin

text \<open>The tasks that a failure closes, and the ones it skips.\<close>

lemma fail_fast_decided:
  assumes fr: "framed C f t"
  obtains ks reason where "plan_fail_fast1 (t1_task_id t) (fr_graph f) (fr_tasks f) (fr_plan_ids f) = Inr (map (\<lambda>k. (k, reason k)) ks)"
    "distinct ks" "set ks = {k. k \<noteq> t1_task_id t \<and> (\<exists>u. (k, u) \<in> set (fr_tasks f) \<and> dict_get (fr_tasks f) k = Some u \<and>
      t1_status u \<in> {T1_PENDING, T1_READY})}"
proof -
  let ?k = "t1_task_id t"
  obtain w where w: "valid_workflow1 w" "known1 w" "build_graph1 w = Inr (fr_graph f)" "fst ` set (fr_tasks f) = td1_id ` set (wd1_tasks w)"
    using fr by (auto simp: framed_def)
  have "dict_get (fr_tasks f) ?k = Some t" using fr by (simp add: framed_def)
  then have "?k \<in> td1_id ` set (wd1_tasks w)" using w(4) stored_key by metis
  then obtain ds where ds: "descendants1 (fr_graph f) ?k = Inr ds" using descendants1_exact [OF w(1-3)] by blast
  define ks where "ks = filter (\<lambda>k. k \<noteq> ?k \<and> t1_status (the (dict_get (fr_tasks f) k)) \<in> {T1_PENDING, T1_READY}) (fr_plan_ids f)"
  define reason where "reason k = (if k \<in> set ds then SK1_DEPENDENCY_FAILED else SK1_FAIL_FAST_ABORT)" for k
  have ids: "set (fr_plan_ids f) = fst ` set (fr_tasks f)" "distinct (fr_plan_ids f)" using fr by (simp_all add: framed_def)
  have "plan_fail_fast1 ?k (fr_graph f) (fr_tasks f) (fr_plan_ids f) = Inr (map (\<lambda>k. (k, reason k)) ks)"
    using ds fail_fast_fold [of "fr_plan_ids f" "fr_tasks f" ?k ds "[]"] ids
    by (simp add: plan_fail_fast1_def ks_def reason_def)
  moreover have "set ks = {k. k \<noteq> ?k \<and> (\<exists>u. (k, u) \<in> set (fr_tasks f) \<and> dict_get (fr_tasks f) k = Some u \<and>
      t1_status u \<in> {T1_PENDING, T1_READY})}"
  proof -
    have "k \<in> fst ` set (fr_tasks f) \<longleftrightarrow> (\<exists>u. dict_get (fr_tasks f) k = Some u)" for k by (rule dict_has_iff)
    then show ?thesis unfolding ks_def using ids(1) by (auto dest: map_of_SomeD)
  qed
  moreover have "distinct ks" using ids(2) by (simp add: ks_def)
  ultimately show thesis using that by blast
qed

lemma terminal_contract:
  assumes fr: "framed C f t" and a: "failed_by now t a" and ef: "ef1_run_id ef = r1_id (fr_run f)"
  shows "contract (stands I (under_way f t a ef) {})
    (persist_terminal1 P (fr_run f) t a (fr_graph f) (fr_plan_ids f) (fr_tasks f) ef error_type error_category)
    (\<lambda>_. stands I (settled (r1_id (fr_run f)) (fst ` set (fr_tasks f)) W1_FAILED) {}) never"
proof (rule contract_assume)
  fix k assume "stands I (under_way f t a ef) {} k"
  then have v: "run_view (en_store k) (fr_run f) (fr_tasks f) (ef1_next ef)" by (simp add: stands_def under_way_def)
  show "dict_ok (fr_tasks f) \<and> (\<forall>(k, u) \<in> set (fr_tasks f). valid_task1 u \<and> t1_task_id u = k)"
    using viewD(3,7) [OF v] by blast
next
  assume known: "dict_ok (fr_tasks f) \<and> (\<forall>(k, u) \<in> set (fr_tasks f). valid_task1 u \<and> t1_task_id u = k)"
  let ?k = "t1_task_id t" and ?T = "fr_tasks f" and ?run = "fr_run f"
  have now: "dt_aware now" "a1_finished_at a = Some now" "1 \<le> a1_number a" using a by (simp_all add: failed_by_def valid_attempt1_def)
  have st: "t1_status t = T1_RUNNING" "r1_status ?run = W1_RUNNING" "dict_get ?T ?k = Some t" "valid_run1 ?run" "valid_task1 t"
    using fr by (simp_all add: framed_def)
  obtain ks reason where plan: "plan_fail_fast1 ?k (fr_graph f) ?T (fr_plan_ids f) = Inr (map (\<lambda>k. (k, reason k)) ks)"
    "distinct ks" and ks: "set ks = {k. k \<noteq> ?k \<and> (\<exists>u. (k, u) \<in> set ?T \<and> dict_get ?T k = Some u \<and> t1_status u \<in> {T1_PENDING, T1_READY})}"
    by (rule fail_fast_decided [OF fr])
  define U where "U = skipped1 now reason ?T"
  define T' where "T' = set_all U ks ?T"
  have skip: "foldR (skip_decided1 now) (map (\<lambda>k. (k, reason k)) ks) ?T = Inr T'"
    unfolding T'_def U_def by (rule skip_all [OF now(1) plan(2)]) (use ks in auto)
  define t' where "t' = t\<lparr>t1_status := T1_FAILED, t1_finished_at := Some now, t1_skip_reason := None\<rparr>"
  define run' where "run' = ?run\<lparr>r1_status := W1_FAILED, r1_finished_at := Some now\<rparr>"
  have t': "fail_task1 now t = Inr t'" using now st by (simp add: fail_task1_ok t'_def)
  have run': "fail_run1 now ?run = Inr run'" using now st by (simp add: fail_run1_ok run'_def)
  have closes: "\<exists>u. k \<noteq> ?k \<and> dict_get ?T k = Some u \<and> closes u (U k)" if k: "k \<in> set ks" and v: "run_view s ?run ?T n" for k s n
    using skipped1_closes [OF v now(1), of k] k ks unfolding U_def by blast
  have lookups: "mapR (\<lambda>(k, reason). key_lookup T' k) (map (\<lambda>k. (k, reason k)) ks) = Inr (map U ks)"
    by (auto simp: mapR_Inr_iff list_all2_map1 list_all2_map2 T'_def key_lookup_def set_all_get intro!: list.rel_refl_strong)
  have named: "\<forall>k \<in> set ks. \<exists>u. dict_get T' k = Some u \<and> \<not> blank (t1_id u) \<and> \<not> blank k"
  proof
    fix k assume k: "k \<in> set ks"
    then obtain u where "(k, u) \<in> set ?T" "dict_get ?T k = Some u" using ks by blast
    then have "\<not> blank (t1_id (U k))" "\<not> blank k" "dict_get T' k = Some (U k)"
      using known k by (auto simp: U_def skipped1_def T'_def set_all_get valid_task1_def)
    then show "\<exists>u. dict_get T' k = Some u \<and> \<not> blank (t1_id u) \<and> \<not> blank k" by blast
  qed
  let ?settled = "settled (r1_id ?run) (fst ` set ?T) W1_FAILED"
  have final: "?settled s" if v: "run_view s run' (set_all U ks (dict_set ?k t' ?T)) n" for s n
  proof -
    have "settled (r1_id run') (fst ` set ?T) W1_FAILED s"
    proof (rule terminal_settled [OF v])
      show "\<forall>(j, u) \<in> set ?T. j \<noteq> ?k \<longrightarrow> j \<notin> set ks \<longrightarrow> t1_status u = T1_SUCCEEDED"
      proof clarify
        fix j u assume j: "(j, u) \<in> set ?T" "j \<noteq> ?k" "j \<notin> set ks"
        moreover have "dict_get ?T j = Some u" using j(1) known by (simp add: dict_get_iff)
        ultimately have "t1_status u \<notin> {T1_PENDING, T1_READY}" using ks by blast
        moreover have "t1_status u \<in> {T1_PENDING, T1_READY, T1_SUCCEEDED}" using fr j(1,2) unfolding framed_def by blast
        ultimately show "t1_status u = T1_SUCCEEDED" by blast
      qed
      show "dict_has ?T ?k" using st(3) by (auto simp: dict_has_iff)
      show "set ks \<subseteq> fst ` set ?T - {?k}" using ks by force
      show "\<forall>k \<in> set ks. t1_status (U k) = T1_SKIPPED" by (simp add: U_def skipped1_def)
    qed (use known in \<open>simp_all add: run'_def t'_def\<close>)
    then show ?thesis by (simp add: run'_def)
  qed
  have persists: "contract (drafted (under_way f t a ef) {} (ef1_next ef) es ef')
      (persist1 P ([save_attempt1 a, save_task1 t'] @ map save_task1 (map U ks) @ [save_run1 run']) es) (\<lambda>_. stands I ?settled {}) never"
    if "ef1_run_id ef' = r1_id ?run" for es ef'
  proof (rule contract_post [OF persist_drafts [where run = run' and tasks = "set_all U ks (dict_set ?k t' ?T)" and B = "\<lambda>_. True"]])
    fix s assume s: "under_way f t a ef s"
    then have v: "run_view s ?run ?T (ef1_next ef)" "latest_of (t1_id t) a (s1_attempts s)" by (simp_all add: under_way_def)
    have "\<forall>k \<in> set ks. \<exists>u. k \<noteq> ?k \<and> dict_get ?T k = Some u \<and> closes u (U k)" using closes v(1) by blast
    from terminal_writes [OF v fr a t' run' plan(2) this]
    show "\<exists>u. foldR (\<lambda>w. w) ([save_attempt1 a, save_task1 t'] @ map save_task1 (map U ks) @ [save_run1 run']) s = Inr u \<and>
        run_view u run' (set_all U ks (dict_set ?k t' ?T)) (ef1_next ef) \<and> ids_of u \<subseteq> ids_of s \<union> {} \<and> True"
      by (simp add: comp_def)
    show "store1_ok s" using viewD(1) [OF v(1)] .
  next
    show "ef1_run_id ef' = r1_id run'" using that by (simp add: run'_def)
  next
    fix x k assume "stands I (\<lambda>s. run_view s run' (set_all U ks (dict_set ?k t' ?T)) (ef1_next ef') \<and> True) {} k"
    then show "stands I ?settled {} k" by (rule stands_weaken) (use final in auto)
  qed
  have rid: "\<not> blank (r1_id ?run)" "\<not> blank (ef1_run_id ef)" using st(4) ef by (simp_all add: valid_run1_def)
  have plan': "plan_fail_fast1 (t1_task_id t') (fr_graph f) ?T (fr_plan_ids f) = Inr (map (\<lambda>k. (k, reason k)) ks)"
    using plan(1) by (simp add: t'_def)
  have named': "\<not> blank (t1_id t')" "\<not> blank (t1_task_id t')" using st(5) by (simp_all add: t'_def valid_task1_def)
  show "contract (stands I (under_way f t a ef) {})
    (persist_terminal1 P ?run t a (fr_graph f) (fr_plan_ids f) ?T ef error_type error_category) (\<lambda>_. stands I ?settled {}) never"
    unfolding persist_terminal1_def now(2) option.case
    by (rule contract_bind_lift [OF t'], rule contract_bind_lift [OF plan'], rule contract_bind_lift [OF skip],
      rule contract_bind_lift [OF run'], rule contract_bind_pair [OF new_first_event],
      (use named' now rid in \<open>auto simp: in_context_def WORKFLOW_EVENT_TYPES1_def flat_payload_def under_way_def\<close>)[5],
      rule contract_pure, rule contract_pre [OF contract_bind_pair [OF skipped_events_contract [OF named now(1) rid(1)]]],
      simp add: flat_payload_def, rule contract_pure, rule contract_bind_pair [OF new_event_contract],
      (use now rid in \<open>auto simp: in_context_def WORKFLOW_EVENT_TYPES1_def flat_payload_def\<close>)[4],
      rule contract_pure, rule contract_bind_lift [OF lookups], rule persists) (use ef in simp_all)
qed

end

section \<open>A failed attempt\<close>

text \<open>The two decisions there are: to stop, or to wait a delay that fits and try once more.\<close>

lemma decide1_outcomes:
  assumes "delays_fit C p" "1 \<le> n"
  shows "decide1 p n exc = Inr \<lparr>rd1_should_retry = False, rd1_delay = PyFloat 0, rd1_next = None\<rparr> \<or>
    (\<exists>d. decide1 p n exc = Inr \<lparr>rd1_should_retry = True, rd1_delay = d, rd1_next = Some (n + 1)\<rparr> \<and> n < rp1_max_attempts p \<and>
      py_isfinite d \<and> 0 \<le> num_val d \<and> (\<forall>t. C t \<longrightarrow> (\<exists>u. add_seconds t d = Inr u)))"
proof (cases "rp1_max_attempts p \<le> n")
  case True
  then show ?thesis by (simp add: decide1_def no_retry_def mk_decision1_def require_def)
next
  case False
  then obtain d where d: "backoff_delay1 p n = Inr d" "py_isfinite d" "0 \<le> num_val d" "\<forall>t. C t \<longrightarrow> (\<exists>u. add_seconds t d = Inr u)"
    using assms by (auto simp: delays_fit_def)
  then have "mk_decision1 \<lparr>rd1_should_retry = True, rd1_delay = d, rd1_next = Some (n + 1)\<rparr> =
      Inr \<lparr>rd1_should_retry = True, rd1_delay = d, rd1_next = Some (n + 1)\<rparr>"
    using assms(2) by (simp add: mk_decision1_def require_def)
  moreover have "decide1 p n exc = no_retry \<or> decide1 p n exc = bindR (backoff_delay1 p n) (\<lambda>delay.
             mk_decision1 \<lparr>rd1_should_retry = True, rd1_delay = delay, rd1_next = Some (n + 1)\<rparr>)"
    using False by (auto simp: decide1_def split: pyexc.splits v1_error.splits)
  ultimately show ?thesis using d False by (auto simp: no_retry_def mk_decision1_def require_def)
qed

lemma add_seconds_later:
  assumes "add_seconds t d = Inr u" "0 \<le> num_val d"
  shows "dt_aware u = dt_aware t \<and> t \<le> u"
proof -
  have "0 \<le> num_val d * of_int us_per_second" using assms(2) by (simp add: us_per_second_def)
  then have "0 \<le> round_half_even (num_val d * of_int us_per_second)"
    unfolding round_half_even_def Let_def by (auto split: if_splits)
  then show ?thesis using assms(1) by (auto simp: add_seconds_def Let_def thenR_Inr_iff less_eq_datetime_def)
qed

context runner_ports
begin

lemma latest_cong: "a1_id a = a1_id b \<Longrightarrow> a1_task_run_id a = a1_task_run_id b \<Longrightarrow> a1_number a = a1_number b \<Longrightarrow>
    latest_of i a = latest_of i b"
  by (rule ext) (simp add: latest_of_def)

lemma persist_retry_contract:
  assumes fr: "framed C f t" and a: "failed_by now t a" and "ef1_run_id ef' = r1_id (fr_run f)"
  shows "contract (drafted (under_way f t a ef) {} (ef1_next ef) [e] ef') (persist_retry_failure1 P a e)
    (\<lambda>_. stands I (under_way f t a ef') {}) never"
proof -
  have "contract (drafted (under_way f t a ef) {} (ef1_next ef) [e] ef') (persist1 P [save_attempt1 a] [e])
    (\<lambda>_. stands I (\<lambda>s. run_view s (fr_run f) (fr_tasks f) (ef1_next ef') \<and> latest_of (t1_id t) a (s1_attempts s)) {}) never"
  proof (rule persist_drafts [OF _ _ assms(3)])
    fix s assume "under_way f t a ef s"
    then have s: "run_view s (fr_run f) (fr_tasks f) (ef1_next ef)" "latest_of (t1_id t) a (s1_attempts s)" by (simp_all add: under_way_def)
    have "valid_attempt1 a" using a by (simp add: failed_by_def)
    from view_latest_saved [OF s this]
    show "\<exists>u. foldR (\<lambda>w. w) [save_attempt1 a] s = Inr u \<and> run_view u (fr_run f) (fr_tasks f) (ef1_next ef) \<and>
        ids_of u \<subseteq> ids_of s \<union> {} \<and> latest_of (t1_id t) a (s1_attempts u)"
      by auto
    show "store1_ok s" using viewD(1) [OF s(1)] .
  qed
  then show ?thesis by (simp add: persist_retry_failure1_def under_way_def [abs_def])
qed

lemma next_attempt_contract:
  assumes fr: "framed C f t" and a: "in_hand t b" "a1_number b = a1_number a + 1"
  shows "contract (stands I (\<lambda>s. under_way f t a ef s \<and> a1_id b \<notin> ids_of s) {a1_id b}) (persist_retry_attempt1 b)
    (\<lambda>_. stands I (under_way f t b ef) {}) never"
  unfolding persist_retry_attempt1_def
proof (rule contract_post [OF write_contract])
  fix s assume s: "under_way f t a ef s \<and> a1_id b \<notin> ids_of s"
  then have v: "run_view s (fr_run f) (fr_tasks f) (ef1_next ef)" by (simp add: under_way_def)
  have "attempts_below s (t1_id t) (a1_number b - 1)" using s a(2) latest_below by (auto simp: under_way_def)
  then obtain u where "add_attempt1 b s = Inr u" "run_view u (fr_run f) (fr_tasks f) (ef1_next ef)" "ids_of u \<subseteq> insert (a1_id b) (ids_of s)"
      "latest_of (t1_id t) b (s1_attempts u)"
    using view_attempt_added [OF v, of "t1_task_id t" t b] fr a s by (auto simp: framed_def)
  then show "store1_ok s \<and> (\<exists>u. foldR (\<lambda>w. w) [add_attempt1 b] s = Inr u \<and> under_way f t b ef u \<and> ids_of u \<subseteq> ids_of s \<union> {a1_id b})"
    using viewD(1) [OF v] by (auto simp: under_way_def)
qed (rule stands_weaken; simp)

lemma wait_contract: "contract (stands I A X) (if num_gt d 0 then in_env (po_sleep P d) else ret ()) (\<lambda>_. stands I A X) never"
  using sleep_contract contract_ret [of "\<lambda>_. stands I A X" "()"] by (cases "num_gt d 0") (simp_all only: if_True if_False)

definition retried :: "task_frame1 \<Rightarrow> v1_task_run \<Rightarrow> v1_attempt \<Rightarrow> v1_attempt \<times> event_factory1 \<Rightarrow> 'e engine1 \<Rightarrow> bool" where
  "retried f t a = (\<lambda>(b, ef) k. stands I (under_way f t b ef) {} k \<and>
     (in_hand t b \<and> a1_number b = a1_number a + 1 \<and> ef1_run_id ef = r1_id (fr_run f)))"

lemma retry_contract:
  assumes fr: "framed C f t" and a: "failed_by now t a" and ef: "ef1_run_id ef = r1_id (fr_run f)" and now: "C now"
    and d: "py_isfinite d" "0 \<le> num_val d" "\<forall>t. C t \<longrightarrow> (\<exists>u. add_seconds t d = Inr u)"
    and n: "n = a1_number a + 1"
  shows "contract (stands I (under_way f t a ef) {})
    (bindA (liftR (retry_eligible1 now \<lparr>rd1_should_retry = True, rd1_delay = d, rd1_next = Some n\<rparr>)) (\<lambda>eligible_at.
     bindA (liftR (schedule_retry1 eligible_at a)) (\<lambda>a.
     bindA (new_event1 P v1_event_type.TASK_RETRYING now (Some (t1_id t, t1_task_id t)) (Some (a1_number a))
       (retry_payload1 P error_type error_category \<lparr>rd1_should_retry = True, rd1_delay = d, rd1_next = Some n\<rparr> eligible_at n) ef) (\<lambda>(e, ef).
     thenA (persist_retry_failure1 P a e)
    (thenA (if num_gt d 0 then in_env (po_sleep P d) else ret ())
    (bindA (now1 P) (\<lambda>started_at.
     bindA (new_attempt1 P t n started_at) (\<lambda>a.
     thenA (persist_retry_attempt1 a) (ret (a, ef)))))))))) (retried f t a) never"
proof -
  have aware: "dt_aware now" "a1_finished_at a = Some now" "a1_status a = A1_FAILED" "1 \<le> a1_number a"
    using a by (simp_all add: failed_by_def valid_attempt1_def)
  obtain u where u: "add_seconds now d = Inr u" using d(3) now by blast
  have later: "dt_aware u" "now \<le> u" using add_seconds_later [OF u d(2)] aware by simp_all
  have eligible: "retry_eligible1 now \<lparr>rd1_should_retry = True, rd1_delay = d, rd1_next = Some n\<rparr> = Inr u"
    using aware d(1) u by (simp add: retry_eligible1_def require_def)
  define b where "b = a\<lparr>a1_retry_eligible_at := Some u\<rparr>"
  have b: "schedule_retry1 u a = Inr b" using aware later by (simp add: schedule_retry1_Inr b_def not_less)
  have same: "under_way f t a = under_way f t b"
    using latest_cong [of a b] by (intro ext) (simp add: under_way_def b_def)
  have failed: "failed_by now t b"
    using attempt1_step_valid [OF attempt1_step.intros(4) [OF b]] a by (simp add: failed_by_def b_def)
  have ids: "\<not> blank (t1_id t)" "\<not> blank (t1_task_id t)" "\<not> blank (ef1_run_id ef)"
    using fr ef by (simp_all add: framed_def valid_task1_def valid_run1_def)
  have bn: "a1_number b = a1_number a" "1 \<le> n" using n aware by (simp_all add: b_def)
  have rest: "contract (stands I (under_way f t b ef') {}) (bindA (now1 P) (\<lambda>started_at.
      bindA (new_attempt1 P t n started_at) (\<lambda>a. thenA (persist_retry_attempt1 a) (ret (a, ef'))))) (retried f t a) never"
    if "ef1_run_id ef' = ef1_run_id ef" for ef'
  proof (rule contract_bind [OF now_contract], rule contract_pure, rule contract_bind [OF new_attempt_contract], (use ids bn in simp_all)[3],
      rule contract_pure)
    fix c assume c: "in_hand t c \<and> a1_number c = n"
    show "contract (stands I (\<lambda>s. under_way f t b ef' s \<and> a1_id c \<notin> ids_of s) {a1_id c})
      (thenA (persist_retry_attempt1 c) (ret (c, ef'))) (retried f t a) never"
      by (rule contract_then [OF next_attempt_contract [OF fr]], (use c n bn in simp_all)[2], rule contract_pre [OF contract_ret])
        (use c n that ef in \<open>simp add: retried_def\<close>)
  qed
  show ?thesis
    unfolding same
    by (rule contract_bind_lift [OF eligible], rule contract_bind_lift [OF b], rule contract_bind_pair [OF new_first_event],
      (use ids aware bn in \<open>auto simp: in_context_def WORKFLOW_EVENT_TYPES1_def flat_payload_def retry_payload1_def under_way_def\<close>)[5],
      rule contract_pure, rule contract_then [OF persist_retry_contract [OF fr failed]], use ef in simp,
      rule contract_then [OF wait_contract], rule rest) simp
qed

lemma settle_contract:
  assumes fr: "framed C f t" and a: "in_hand t a" and ef: "ef1_run_id ef = r1_id (fr_run f)" and exc: "presentable1 exc"
  shows "contract (stands I (under_way f t a ef) {}) (settle_failed_attempt1 P f t a ef exc)
    (\<lambda>r k. retried f t a r k \<and> a1_number a < rp1_max_attempts (td1_retry (fr_task f)))
    (\<lambda>x k. stands I (settled (r1_id (fr_run f)) (fst ` set (fr_tasks f)) W1_FAILED) {} k \<and> x = exc)"
  unfolding settle_failed_attempt1_def
proof (rule contract_bind [OF contract_never [OF now_contract]], rule contract_pure)
  fix now assume now: "C now \<and> dt_aware now"
  obtain ty m cat where norm: "normalize_executor_error1 exc = (ty, m, cat)" "\<not> blank ty" "\<not> blank m" "\<not> blank cat"
    using exc by (auto simp: presentable1_def split: prod.splits)
  obtain b where b: "fail_attempt1 now ty m (Some cat) a = Inr b" using norm now a by (simp add: fail_attempt1_Inr in_hand_def)
  have same: "a1_id b = a1_id a" "a1_task_run_id b = a1_task_run_id a" "a1_number b = a1_number a"
    using attempt1_step_frame [OF attempt1_step.intros(2) [OF b]] by simp_all
  have under: "under_way f t a = under_way f t b"
    using latest_cong [of a b] same by (intro ext) (simp add: under_way_def)
  have failed: "failed_by now t b"
    using attempt1_step_valid [OF attempt1_step.intros(2) [OF b]] a b now by (auto simp: failed_by_def in_hand_def fail_attempt1_Inr)
  have "1 \<le> a1_number b" using failed by (simp add: failed_by_def valid_attempt1_def)
  moreover have fit: "delays_fit C (td1_retry (fr_task f))" using fr by (simp add: framed_def)
  ultimately consider (stop) "decide1 (td1_retry (fr_task f)) (a1_number b) exc =
      Inr \<lparr>rd1_should_retry = False, rd1_delay = PyFloat 0, rd1_next = None\<rparr>"
    | (again) d where "decide1 (td1_retry (fr_task f)) (a1_number b) exc =
        Inr \<lparr>rd1_should_retry = True, rd1_delay = d, rd1_next = Some (a1_number b + 1)\<rparr>"
      "a1_number b < rp1_max_attempts (td1_retry (fr_task f))" "py_isfinite d" "0 \<le> num_val d" "\<forall>t. C t \<longrightarrow> (\<exists>u. add_seconds t d = Inr u)"
    using decide1_outcomes [OF fit] by blast
  then show "contract (stands I (under_way f t a ef) {}) (case normalize_executor_error1 exc of (error_type, error_message, error_category) \<Rightarrow>
      bindA (liftR (fail_attempt1 now error_type error_message (Some error_category) a)) (\<lambda>a.
      bindA (liftR (decide1 (td1_retry (fr_task f)) (a1_number a) exc)) (\<lambda>d.
      if rd1_should_retry d then (case rd1_next d of
         None \<Rightarrow> raise (RuntimeInvariant ''retry decision is missing next_attempt_number'')
       | Some n \<Rightarrow>
           bindA (liftR (retry_eligible1 now d)) (\<lambda>eligible_at.
           bindA (liftR (schedule_retry1 eligible_at a)) (\<lambda>a.
           bindA (new_event1 P v1_event_type.TASK_RETRYING now (Some (t1_id t, t1_task_id t)) (Some (a1_number a))
             (retry_payload1 P error_type error_category d eligible_at n) ef) (\<lambda>(e, ef).
           thenA (persist_retry_failure1 P a e)
          (thenA (if num_gt (rd1_delay d) 0 then in_env (po_sleep P (rd1_delay d)) else ret ())
          (bindA (now1 P) (\<lambda>started_at.
           bindA (new_attempt1 P t n started_at) (\<lambda>a.
           thenA (persist_retry_attempt1 a) (ret (a, ef))))))))))
      else
       thenA (persist_terminal1 P (fr_run f) t a (fr_graph f) (fr_plan_ids f) (fr_tasks f) ef error_type error_category)
         (raise exc))))
    (\<lambda>r k. retried f t a r k \<and> a1_number a < rp1_max_attempts (td1_retry (fr_task f)))
    (\<lambda>x k. stands I (settled (r1_id (fr_run f)) (fst ` set (fr_tasks f)) W1_FAILED) {} k \<and> x = exc)"
  proof cases
    case stop
    show ?thesis
      unfolding norm(1) prod.case under
      by (rule contract_bind_lift [OF b], rule contract_bind_lift [OF stop],
        simp only: v1_retry_decision.simps if_False,
        rule contract_then [OF contract_never [OF terminal_contract [OF fr failed ef]]], rule contract_pre [OF contract_raise]) simp
  next
    case again
    note go = retry_contract [OF fr failed ef conjunct1 [OF now] again(3-5) refl, of ty cat]
    have "retried f t b = retried f t a" by (simp add: retried_def same)
    note go = go [unfolded this]
    show ?thesis
      unfolding norm(1) prod.case under
      by (rule contract_bind_lift [OF b], rule contract_bind_lift [OF again(1)],
        simp only: v1_retry_decision.simps if_True option.case,
        rule contract_post [OF contract_never [OF go]]) (use again(2) same in simp)
  qed
qed

end

end
