(* ===== verification/V1_Execution.thy ===== *)
theory V1_Execution
  imports V1_Settled
begin

text \<open>
  The contracts of one task and of the whole run: a task that succeeds is stored with its output,
  artifacts and external references, the retry loop ends within \<open>attempt_fuel1\<close> rounds, and the loop
  over the plan leaves every task SUCCEEDED or the run settled as FAILED.
\<close>

section \<open>Success\<close>

lemma checkpoint_written:
  assumes v: "run_view s run T n" and k: "(k, t) \<in> set T" "t1_status t = T1_SUCCEEDED" "\<not> dict_has (s1_outputs s) (t1_id t)"
    and "wf_pyval out"
  shows "\<exists>u. foldR (\<lambda>w. w) (checkpoint_writes1 (t1_id t) out) s = Inr u \<and> run_view u run T n \<and> ids_of u = ids_of s"
proof (cases "portable1 (''task_result.'' @ t1_id t @ ''.output'') out")
  case (Inr j)
  then have "normal_json j" using normal_form [OF assms(5)] portable1_Inr_iff by blast
  from view_add_output [OF v k this] show ?thesis using Inr by (auto simp: checkpoint_writes1_def)
qed (use v in \<open>simp add: checkpoint_writes1_def\<close>)

lemma results_written:
  assumes v: "run_view s run T n" and k: "(k, t) \<in> set T" and r: "result_fresh {} r" "new_results r \<inter> ids_of s = {}"
  shows "\<exists>u. foldR (\<lambda>w. w) (map (add_artifact1 (t1_id t)) (res1_artifacts r) @ map (add_external1 (t1_id t)) (res1_external_refs r)) s = Inr u \<and>
    run_view u run T n \<and> ids_of u = new_results r \<union> ids_of s"
proof -
  have ars: "distinct (map ar1_id (res1_artifacts r))" "ar1_id ` set (res1_artifacts r) \<inter> ids_of s = {}"
    using r by (auto simp: result_fresh_def new_results_def)
  obtain u where u: "foldR (\<lambda>w. w) (map (add_artifact1 (t1_id t)) (res1_artifacts r)) s = Inr u" "run_view u run T n"
      "ids_of u = ar1_id ` set (res1_artifacts r) \<union> ids_of s"
    using view_add_artifacts [OF v k ars] by blast
  have xs: "distinct (map xr1_id (res1_external_refs r))" "xr1_id ` set (res1_external_refs r) \<inter> ids_of u = {}"
    using r u(3) by (auto simp: result_fresh_def new_results_def)
  obtain x where x: "foldR (\<lambda>w. w) (map (add_external1 (t1_id t)) (res1_external_refs r)) u = Inr x" "run_view x run T n"
      "ids_of x = xr1_id ` set (res1_external_refs r) \<union> ids_of u"
    using view_add_externals [OF u(2) k xs] by blast
  have "ids_of x = new_results r \<union> ids_of s" using u(3) x(3) by (auto simp: new_results_def)
  then show ?thesis using u(1) x(1,2) by (auto simp: foldR_writes_append)
qed

definition success_writes1 :: "v1_task_run \<Rightarrow> v1_attempt \<Rightarrow> v1_task_result \<Rightarrow> v1_event \<Rightarrow> (v1_store \<Rightarrow> v1_store result) list" where
  "success_writes1 t a r e = [save_attempt1 a, save_task1 t, add_event1 e] @ checkpoint_writes1 (t1_id t) (res1_output r) @
     map (add_artifact1 (t1_id t)) (res1_artifacts r) @ map (add_external1 (t1_id t)) (res1_external_refs r)"

context runner_ports
begin

lemma success_written:
  assumes v: "run_view s run T n" and l: "latest_of (t1_id t) a (s1_attempts s)" and k: "dict_get T k = Some t"
    and a: "valid_attempt1 a" and t: "succeed_task1 now t = Inr t'"
    and e: "e1_run_id e = r1_id run" "e1_sequence e = Some n" "e1_id e \<notin> ids_of s"
    and r: "result_fresh {} r" "new_results r \<inter> ids_of s = {}" "e1_id e \<notin> new_results r"
  shows "\<exists>u. foldR (\<lambda>w. w) (success_writes1 t' a r e) s = Inr u \<and> run_view u run (dict_set k t' T) (n + 1) \<and>
    ids_of u \<subseteq> ids_of s \<union> insert (e1_id e) (new_results r)"
proof -
  obtain s1 where s1: "save_attempt1 a s = Inr s1" "run_view s1 run T n" "ids_of s1 \<subseteq> ids_of s"
    using view_latest_saved [OF v l a] by blast
  have t': "t1_status t = T1_RUNNING" "t1_status t' = T1_SUCCEEDED" "t1_id t' = t1_id t" using t by (auto simp: task1_Inr)
  let ?T = "dict_set k t' T"
  obtain s2 where s2: "save_task1 t' s1 = Inr s2" "run_view s2 run ?T n" "ids_of s2 \<subseteq> ids_of s1" "s1_outputs s2 = s1_outputs s1"
    using view_task_step [OF s1(2) k task1_step.intros(3) [OF t]] t' by auto
  have "(k, t) \<in> set T" using k view_entry [OF v] by simp
  then have free: "\<not> dict_has (s1_outputs s2) (t1_id t')"
    using viewD(9) [OF s1(2), of k t] t' by (simp only: s2(4)) simp
  have "e1_id e \<notin> ids_of s2" using e(3) s1(3) s2(3) by blast
  note s3 = view_add_event [OF s2(2) e(1,2) this]
  let ?s3 = "s2\<lparr>s1_events := dict_set (e1_id e) e (s1_events s2)\<rparr>"
  have k': "(k, t') \<in> set ?T" using view_entry [OF s2(2), of k t'] by (simp add: dict_get_set)
  have "wf_pyval (res1_output r)" using r(1) by (simp add: result_fresh_def)
  then obtain s4 where s4: "foldR (\<lambda>w. w) (checkpoint_writes1 (t1_id t') (res1_output r)) ?s3 = Inr s4" "run_view s4 run ?T (n + 1)"
      "ids_of s4 = ids_of ?s3"
    using checkpoint_written [OF s3(2) k' t'(2), of "res1_output r"] free by auto
  have "new_results r \<inter> ids_of s4 = {}" using r(2,3) s1(3) s2(3) s4(3) by auto
  then obtain s5 where s5: "foldR (\<lambda>w. w) (map (add_artifact1 (t1_id t')) (res1_artifacts r) @
      map (add_external1 (t1_id t')) (res1_external_refs r)) s4 = Inr s5" "run_view s5 run ?T (n + 1)" "ids_of s5 = new_results r \<union> ids_of s4"
    using results_written [OF s4(2) k' r(1)] by blast
  have "foldR (\<lambda>w. w) (success_writes1 t' a r e) s = Inr s5"
    using s1(1) s2(1) s3(1) s4(1) s5(1) by (simp add: success_writes1_def foldR_writes_append)
  moreover have "ids_of s5 \<subseteq> ids_of s \<union> insert (e1_id e) (new_results r)"
    using s1(3) s2(3) s4(3) s5(3) by auto
  ultimately show ?thesis using s5(2) by blast
qed

lemma persist_success_contract:
  assumes fr: "framed C f t" and a: "in_hand t a" and ef: "ef1_run_id ef' = r1_id (fr_run f)"
    and e: "e1_occurred_at e = now" "dt_aware now" and r: "result_fresh {} r"
  shows "contract (drafted (\<lambda>s. under_way f t a ef s \<and> new_results r \<inter> ids_of s = {}) (new_results r) (ef1_next ef) [e] ef')
    (persist_success1 P t a r e)
    (\<lambda>t' k. stands I (\<lambda>s. run_view s (fr_run f) (dict_set (t1_task_id t) t' (fr_tasks f)) (ef1_next ef')) {} k \<and>
      t1_status t' = T1_SUCCEEDED) never"
proof -
  let ?A = "\<lambda>s. under_way f t a ef s \<and> new_results r \<inter> ids_of s = {}"
  obtain b where b: "succeed_attempt1 now a = Inr b" using a e(2) by (simp add: succeed_attempt1_Inr in_hand_def)
  obtain t' where t': "succeed_task1 now t = Inr t'" using fr e(2) by (simp add: task1_Inr framed_def)
  have same: "latest_of i a = latest_of i b" for i
    using attempt1_step_frame [OF attempt1_step.intros(1) [OF b]] latest_cong [of a b] by simp
  have valid: "valid_attempt1 b"
    using attempt1_step_valid [OF attempt1_step.intros(1) [OF b]] a by (simp add: in_hand_def)
  have k: "dict_get (fr_tasks f) (t1_task_id t) = Some t" using fr by (simp add: framed_def)
  let ?B = "\<lambda>s. run_view s (fr_run f) (dict_set (t1_task_id t) t' (fr_tasks f)) (ef1_next ef')"
  show ?thesis
    unfolding drafted_def
  proof (rule contract_pure)
    assume d: "distinct (map e1_id [e]) \<and> e1_id ` set [e] \<inter> new_results r = {} \<and> batch (ef1_run_id ef') (ef1_next ef) [e] (ef1_next ef') \<and>
      (\<forall>e \<in> set [e]. presentable_event e) \<and> 1 \<le> ef1_next ef \<and> ef1_next ef \<le> ef1_next ef'"
    have "contract (stands I (\<lambda>s. ?A s \<and> e1_id ` set [e] \<inter> ids_of s = {}) (new_results r \<union> e1_id ` set [e]))
      (in_store1 (write1 (success_writes1 t' b r e))) (\<lambda>_. stands I ?B (new_results r \<union> e1_id ` set [e])) never"
    proof (rule write_contract)
      fix s assume s: "?A s \<and> e1_id ` set [e] \<inter> ids_of s = {}"
      then have v: "run_view s (fr_run f) (fr_tasks f) (ef1_next ef)" "latest_of (t1_id t) b (s1_attempts s)"
        by (simp_all add: under_way_def same)
      have "\<exists>u. foldR (\<lambda>w. w) (success_writes1 t' b r e) s = Inr u \<and>
          run_view u (fr_run f) (dict_set (t1_task_id t) t' (fr_tasks f)) (ef1_next ef + 1) \<and>
          ids_of u \<subseteq> ids_of s \<union> insert (e1_id e) (new_results r)"
        by (rule success_written [OF v k valid t']) (use d s ef r in auto)
      moreover have "ef1_next ef' = ef1_next ef + 1" using d by simp
      ultimately show "store1_ok s \<and> (\<exists>u. foldR (\<lambda>w. w) (success_writes1 t' b r e) s = Inr u \<and> ?B u \<and>
          ids_of u \<subseteq> ids_of s \<union> (new_results r \<union> e1_id ` set [e]))"
        using viewD(1) [OF v(1)] by auto
    qed
    then show "contract (stands I (\<lambda>s. ?A s \<and> e1_id ` set [e] \<inter> ids_of s = {}) (new_results r \<union> e1_id ` set [e]))
      (persist_success1 P t a r e) (\<lambda>t' k. stands I (\<lambda>s. run_view s (fr_run f) (dict_set (t1_task_id t) t' (fr_tasks f)) (ef1_next ef')) {} k \<and>
      t1_status t' = T1_SUCCEEDED) never"
      unfolding persist_success1_def e(1) success_writes1_def
      by (intro contract_bind_lift [OF b] contract_bind_lift [OF t'], elim contract_then,
        intro contract_then [OF publish_contract], use d in simp, intro contract_pre [OF contract_ret])
        (use t' in \<open>auto simp: task1_Inr elim: stands_weaken\<close>)
  qed
qed

lemma execute_contract:
  "contract (stands I A {}) (in_env (po_execute P td h c))
    (\<lambda>r k. stands I (\<lambda>s. A s \<and> new_results r \<inter> ids_of s = {}) (new_results r) k \<and> result_fresh {} r)
    (\<lambda>x k. stands I A {} k \<and> presentable1 x)"
proof (rule contractI)
  fix k r k' assume a: "stands I A {} k" "in_env (po_execute P td h c) k = (Inr r, k')"
  then obtain e' where "po_execute P td h c (en_env k) = (Inr r, e')" and k': "k' = k\<lparr>en_env := e'\<rparr>"
    by (auto simp: in_env_def zoomA_def split: prod.splits)
  then have "result_fresh (I (en_env k)) r" "new_results r \<union> I (en_env k) \<subseteq> I e'" using success by blast+
  moreover have "A (en_store k)" "ids_of (en_store k) \<subseteq> I (en_env k)" using a(1) by (simp_all add: stands_def)
  ultimately show "stands I (\<lambda>s. A s \<and> new_results r \<inter> ids_of s = {}) (new_results r) k' \<and> result_fresh {} r"
    unfolding stands_def k' result_fresh_def by auto
next
  fix k x k' assume a: "stands I A {} k" "in_env (po_execute P td h c) k = (Inl x, k')"
  then obtain e' where "po_execute P td h c (en_env k) = (Inl x, e')" and k': "k' = k\<lparr>en_env := e'\<rparr>"
    by (auto simp: in_env_def zoomA_def split: prod.splits)
  then have "presentable1 x" "I (en_env k) \<subseteq> I e'" using failure by blast+
  then show "stands I A {} k' \<and> presentable1 x" using stands_env [OF a(1)] k' by blast
qed

section \<open>The retry loop\<close>

definition finished :: "task_frame1 \<Rightarrow> v1_task_run \<Rightarrow> v1_task_result \<times> v1_task_run \<times> event_factory1 \<Rightarrow> 'e engine1 \<Rightarrow> bool" where
  "finished f t = (\<lambda>(r, t', ef) k.
     stands I (\<lambda>s. run_view s (fr_run f) (dict_set (t1_task_id t) t' (fr_tasks f)) (ef1_next ef)) {} k \<and>
     (t1_status t' = T1_SUCCEEDED \<and> ef1_run_id ef = r1_id (fr_run f)))"

definition ruined :: "task_frame1 \<Rightarrow> pyexc \<Rightarrow> 'e engine1 \<Rightarrow> bool" where
  "ruined f = (\<lambda>x k. stands I (settled (r1_id (fr_run f)) (fst ` set (fr_tasks f)) W1_FAILED) {} k \<and> is_executor_error x)"

lemma success_contract:
  assumes fr: "framed C f t" and a: "in_hand t a" and ef: "ef1_run_id ef = r1_id (fr_run f)" and r: "result_fresh {} r"
  shows "contract (stands I (\<lambda>s. under_way f t a ef s \<and> new_results r \<inter> ids_of s = {}) (new_results r))
    (bindA (now1 P) (\<lambda>now. bindA (new_event1 P v1_event_type.TASK_SUCCEEDED now (Some (t1_id t, t1_task_id t)) (Some (a1_number a)) [] ef) (\<lambda>(e, ef).
      bindA (persist_success1 P t a r e) (\<lambda>t. ret (r, t, ef))))) (finished f t) never"
proof -
  have ids: "\<not> blank (t1_id t)" "\<not> blank (t1_task_id t)" "\<not> blank (ef1_run_id ef)" "1 \<le> a1_number a"
    using fr ef a by (simp_all add: framed_def valid_task1_def valid_run1_def in_hand_def valid_attempt1_def)
  show ?thesis
    by (rule contract_bind [OF now_contract], rule contract_pure, rule contract_bind_pair [OF new_first_event],
      (use ids in \<open>auto simp: in_context_def WORKFLOW_EVENT_TYPES1_def flat_payload_def under_way_def\<close>)[5],
      rule contract_pure, rule contract_bind [OF persist_success_contract [OF fr a]], (use ef r in auto)[4],
      rule contract_pre [OF contract_ret]) (use ef in \<open>auto simp: finished_def\<close>)
qed

text \<open>With enough fuel the loop ends: the task has succeeded, or the run is settled.\<close>

lemma retry_loop_contract:
  assumes fr: "framed C f t"
  shows "in_hand t a \<Longrightarrow> ef1_run_id ef = r1_id (fr_run f) \<Longrightarrow> nat (rp1_max_attempts (td1_retry (fr_task f)) - a1_number a) < fuel \<Longrightarrow>
    contract (stands I (under_way f t a ef) {}) (execute_with_retry1 fuel P f t a ef) (finished f t) (ruined f)"
proof (induction fuel arbitrary: a ef)
  case (Suc fuel)
  note a = Suc.prems(1) and ef = Suc.prems(2)
  let ?c = "\<lparr>rc1_run_id = r1_id (fr_run f), rc1_task_run_id = t1_id t, rc1_attempt_id = a1_id a,
       rc1_task_id = t1_task_id t, rc1_number = a1_number a, rc1_parameters = fr_parameters f, rc1_outputs = fr_outputs f\<rparr>"
  have "\<not> blank (r1_id (fr_run f))" "\<not> blank (t1_id t)" "\<not> blank (a1_id a)" "\<not> blank (t1_task_id t)" "1 \<le> a1_number a"
    using fr a by (simp_all add: framed_def valid_run1_def valid_task1_def in_hand_def valid_attempt1_def)
  then have c: "mk_context1 ?c = Inr ?c" by (simp add: mk_context1_def nonempty_id_def require_def)
  have fails: "contract (stands I (under_way f t a ef) {})
      (if is_executor_error exc then bindA (settle_failed_attempt1 P f t a ef exc) (\<lambda>(a, ef). execute_with_retry1 fuel P f t a ef)
       else raise exc) (finished f t) (ruined f)" if exc: "presentable1 exc" for exc
  proof -
    have executor: "is_executor_error exc" using exc by (simp add: presentable1_def)
    have settle: "contract (stands I (under_way f t a ef) {}) (settle_failed_attempt1 P f t a ef exc)
        (\<lambda>r k. retried f t a r k \<and> a1_number a < rp1_max_attempts (td1_retry (fr_task f))) (ruined f)"
      by (rule contract_weaken [OF settle_contract [OF fr a ef exc]]) (use executor in \<open>auto simp: ruined_def\<close>)
    have "contract (\<lambda>k. retried f t a r k \<and> a1_number a < rp1_max_attempts (td1_retry (fr_task f)))
        (case r of (a, ef) \<Rightarrow> execute_with_retry1 fuel P f t a ef) (finished f t) (ruined f)" for r
    proof (cases r)
      case (Pair b ef')
      have "contract (\<lambda>k. stands I (under_way f t b ef') {} k \<and> (in_hand t b \<and> a1_number b = a1_number a + 1 \<and>
          ef1_run_id ef' = r1_id (fr_run f) \<and> a1_number a < rp1_max_attempts (td1_retry (fr_task f))))
          (execute_with_retry1 fuel P f t b ef') (finished f t) (ruined f)"
        by (rule contract_pure, rule Suc.IH) (use Suc.prems(3) in auto)
      then show ?thesis unfolding Pair by (auto simp: retried_def elim!: contract_pre)
    qed
    then have "contract (stands I (under_way f t a ef) {}) (bindA (settle_failed_attempt1 P f t a ef exc)
        (\<lambda>(a, ef). execute_with_retry1 fuel P f t a ef)) (finished f t) (ruined f)"
      by (rule contract_bind [OF settle])
    then show ?thesis using executor by (simp only: if_True)
  qed
  have outcome: "contract (\<lambda>k. case o1 of Inl x \<Rightarrow> stands I (under_way f t a ef) {} k \<and> presentable1 x
      | Inr r \<Rightarrow> stands I (\<lambda>s. under_way f t a ef s \<and> new_results r \<inter> ids_of s = {}) (new_results r) k \<and> result_fresh {} r)
      (case o1 of Inl exc \<Rightarrow> (if is_executor_error exc
          then bindA (settle_failed_attempt1 P f t a ef exc) (\<lambda>(a, ef). execute_with_retry1 fuel P f t a ef) else raise exc)
       | Inr result \<Rightarrow> bindA (now1 P) (\<lambda>at_time. bindA (new_event1 P v1_event_type.TASK_SUCCEEDED at_time (Some (t1_id t, t1_task_id t))
           (Some (a1_number a)) [] ef) (\<lambda>(e, ef). bindA (persist_success1 P t a result e) (\<lambda>t. ret (result, t, ef)))))
      (finished f t) (ruined f)" for o1
  proof (cases o1)
    case (Inl exc)
    show ?thesis unfolding Inl sum.case by (rule contract_pure) (rule fails)
  next
    case (Inr r)
    show ?thesis
      unfolding Inr sum.case by (rule contract_pure) (rule contract_never [OF success_contract [OF fr a ef]])
  qed
  show ?case
    unfolding execute_with_retry1.simps
    by (rule contract_bind_lift [OF c], rule contract_bind [OF contract_never [OF contract_attempt [OF execute_contract]]]) (rule outcome)
qed simp

section \<open>One task of the plan\<close>

lemma loaded:
  assumes "\<And>persisted. (\<And>j. dict_get persisted j = dict_get T j) \<Longrightarrow> contract (stands I (\<lambda>s. run_view s run T n) {}) (K persisted) R E"
  shows "contract (stands I (\<lambda>s. run_view s run T n) {}) (bindA (load_task_runs1 run) K) R E"
  unfolding contract_def
proof (intro allI impI)
  fix k assume k: "stands I (\<lambda>s. run_view s run T n) {} k"
  then have v: "run_view (en_store k) run T n" by (simp add: stands_def)
  obtain ts where ts: "list_tasks1 (en_store k) (r1_id run) = Inr ts"
    "\<And>j. dict_get (fold (\<lambda>t d. dict_set (t1_task_id t) t d) ts []) j = dict_get T j"
    using view_load [OF v] by blast
  let ?d = "fold (\<lambda>t d. dict_set (t1_task_id t) t d) ts []"
  have "bindA (load_task_runs1 run) K k = K ?d k"
    using ts(1) by (simp add: load_task_runs1_def bindA_def)
  moreover have "case K ?d k of (Inl e, t) \<Rightarrow> E e t | (Inr x, t) \<Rightarrow> R x t"
    using assms [OF ts(2)] k by (simp add: contract_def)
  ultimately show "case bindA (load_task_runs1 run) K k of (Inl e, t) \<Rightarrow> E e t | (Inr x, t) \<Rightarrow> R x t" by simp
qed

lemma readied:
  assumes t: "dict_get T k = Some t" "t1_status t = T1_PENDING" "\<not> blank (t1_id t)" "\<not> blank k"
    and ef: "ef1_run_id ef = r1_id run" "\<not> blank (r1_id run)"
    and rest: "\<And>ef'. ef1_run_id ef' = r1_id run \<Longrightarrow>
      contract (stands I (\<lambda>s. run_view s run (dict_set k (t\<lparr>t1_status := T1_READY\<rparr>) T) (ef1_next ef')) {}) (K (t\<lparr>t1_status := T1_READY\<rparr>) ef') R E"
  shows "contract (stands I (\<lambda>s. run_view s run T (ef1_next ef)) {})
    (bindA (now1 P) (\<lambda>ready_at. bindA (liftR (mark_ready1 t)) (\<lambda>t.
     bindA (new_event1 P v1_event_type.TASK_READY ready_at (Some (t1_id t, k)) None [] ef) (\<lambda>(e, ef). thenA (persist_task1 P t e) (K t ef))))) R E"
proof -
  have marked: "mark_ready1 t = Inr (t\<lparr>t1_status := T1_READY\<rparr>)" using t(2) by (rule mark_ready1_ok)
  show ?thesis
    by (rule contract_bind [OF contract_never [OF now_contract]], rule contract_pure, rule contract_bind_lift [OF marked],
      rule contract_bind_pair [OF contract_never [OF new_first_event]],
      (use t ef in \<open>auto simp: in_context_def WORKFLOW_EVENT_TYPES1_def flat_payload_def\<close>)[5],
      rule contract_pure, rule contract_then [OF contract_never [OF persist_task_contract [OF t(1) task1_step.intros(1) [OF marked]]]],
      (use t ef in auto)[2], rule rest) (use ef in simp)
qed

lemma started:
  assumes t: "dict_get T k = Some t" "t1_status t = T1_READY" "\<not> blank (t1_id t)" "\<not> blank k"
    and ef: "ef1_run_id ef = r1_id run" "\<not> blank (r1_id run)"
    and rest: "\<And>now t' a ef'. start_task1 now t = Inr t' \<Longrightarrow> in_hand t' a \<Longrightarrow> a1_number a = 1 \<Longrightarrow> ef1_run_id ef' = r1_id run \<Longrightarrow>
      contract (stands I (\<lambda>s. run_view s run (dict_set k t' T) (ef1_next ef') \<and> latest_of (t1_id t') a (s1_attempts s)) {}) (K t' a ef') R E"
  shows "contract (stands I (\<lambda>s. run_view s run T (ef1_next ef)) {})
    (bindA (now1 P) (\<lambda>started_at. bindA (liftR (start_task1 started_at t)) (\<lambda>t. bindA (new_attempt1 P t 1 started_at) (\<lambda>a.
     bindA (new_event1 P v1_event_type.TASK_STARTED started_at (Some (t1_id t, k)) (Some 1) [] ef) (\<lambda>(e, ef).
     thenA (persist_start1 P t a e) (K t a ef)))))) R E"
proof (rule contract_bind [OF contract_never [OF now_contract]], rule contract_pure)
  fix now assume now: "C now \<and> dt_aware now"
  obtain t' where t': "start_task1 now t = Inr t'" "t1_id t' = t1_id t" using start_task1_ok [of now t] now t(2) by auto
  show "contract (stands I (\<lambda>s. run_view s run T (ef1_next ef)) {})
    (bindA (liftR (start_task1 now t)) (\<lambda>t. bindA (new_attempt1 P t 1 now) (\<lambda>a.
     bindA (new_event1 P v1_event_type.TASK_STARTED now (Some (t1_id t, k)) (Some 1) [] ef) (\<lambda>(e, ef).
     thenA (persist_start1 P t a e) (K t a ef))))) R E"
  proof (rule contract_bind_lift [OF t'(1)], rule contract_bind [OF contract_never [OF new_attempt_contract]], (use t' t now in simp_all)[3],
      rule contract_pure)
    fix a assume a: "in_hand t' a \<and> a1_number a = 1"
    then have a': "in_hand t a" by (simp add: in_hand_def t'(2))
    show "contract (stands I (\<lambda>s. run_view s run T (ef1_next ef) \<and> a1_id a \<notin> ids_of s) {a1_id a})
      (bindA (new_event1 P v1_event_type.TASK_STARTED now (Some (t1_id t', k)) (Some 1) [] ef) (\<lambda>(e, ef).
       thenA (persist_start1 P t' a e) (K t' a ef))) R E"
      by (rule contract_bind_pair [OF contract_never [OF new_first_event]],
        (use t t' ef now in \<open>auto simp: in_context_def WORKFLOW_EVENT_TYPES1_def flat_payload_def\<close>)[5],
        rule contract_pure, rule contract_then [OF contract_never [OF persist_start_contract [OF t(1) t'(1)]]],
        (use a a' ef in auto)[3], rule rest [OF t'(1)]) (use a ef in auto)
  qed
qed

end

lemma upstream_ready_all:
  "\<forall>u \<in> set ups. \<exists>t. dict_get runs u = Some t \<and> t1_task_id t = u \<and> t1_status t = T1_SUCCEEDED \<Longrightarrow> upstream_ready runs ups = Inr True"
  by (induction ups) (auto simp: mapping_identity_def require_def)

text \<open>What the checks before the run establish.\<close>

lemma prepared_facts:
  assumes w: "valid_workflow1 w" and p: "prepare1 P registry w supplied = Inr pr"
  shows "build_graph1 w = Inr (pr_graph pr) \<and> known1 w \<and> distinct (pr_plan_ids pr) \<and> set (pr_plan_ids pr) = td1_id ` set (wd1_tasks w) \<and>
      pr_definitions pr = map (\<lambda>t. (td1_id t, t)) (wd1_tasks w)"
    and "\<And>pre k post d. pr_plan_ids pr = pre @ k # post \<Longrightarrow> (d, k) \<in> edges1 w \<Longrightarrow> d \<in> set pre"
    and "fst ` set (pr_handlers pr) = td1_id ` set (wd1_tasks w)"
proof -
  obtain g plan params where g: "build_graph1 w = Inr g" "validate_graph1 w g = Inr ()" "build_plan1 w g = Inr plan"
      "preflight_handlers1 P registry w = Inr (pr_handlers pr)"
    and pr: "pr_graph pr = g" "pr_plan_ids pr = pl1_task_ids plan" "pr_definitions pr = map (\<lambda>t. (td1_id t, t)) (wd1_tasks w)"
    using p by (auto simp: prepare1_def bindR_Inr_iff thenR_Inr_iff)
  note facts = plan_facts1 [OF w g(1-3)]
  show "build_graph1 w = Inr (pr_graph pr) \<and> known1 w \<and> distinct (pr_plan_ids pr) \<and> set (pr_plan_ids pr) = td1_id ` set (wd1_tasks w) \<and>
      pr_definitions pr = map (\<lambda>t. (td1_id t, t)) (wd1_tasks w)"
    using facts(1-3) g(1) pr by simp
  show "d \<in> set pre" if "pr_plan_ids pr = pre @ k # post" "(d, k) \<in> edges1 w" for pre k post d
    using facts(4) [of pre k post d] that pr(2) by simp
  have "fst ` set hs' = fst ` set hs \<union> td1_id ` set ts" if "foldR (preflight_handler1 P registry v) ts hs = Inr hs'" for ts hs hs' v
    using that
  proof (induction ts arbitrary: hs)
    case (Cons t ts)
    then obtain hs1 where "preflight_handler1 P registry v t hs = Inr hs1" "foldR (preflight_handler1 P registry v) ts hs1 = Inr hs'"
      by (auto simp: bindR_Inr_iff)
    moreover from this(1) obtain x where "hs1 = dict_set (td1_id t) x hs"
      by (auto simp: preflight_handler1_def thenR_Inr_iff bindR_Inr_iff split: option.splits)
    then have "fst ` set hs1 = insert (td1_id t) (fst ` set hs)" by (simp add: dict_set_keys)
    ultimately show ?case using Cons.IH by auto
  qed simp
  from this [of "''execution''" "wd1_tasks w" "[]"] show "fst ` set (pr_handlers pr) = td1_id ` set (wd1_tasks w)"
    using g(4) by (simp add: preflight_handlers1_def)
qed

lemma dependencies_found:
  assumes "valid_workflow1 w" "known1 w" "build_graph1 w = Inr (pr_graph pr)" "k \<in> td1_id ` set (wd1_tasks w)"
    and before: "\<And>d. (d, k) \<in> edges1 w \<Longrightarrow> d \<in> fst ` set outputs"
  obtains ups deps where "upstream_of (pr_graph pr) k = Inr ups" "set ups = {d. (d, k) \<in> edges1 w}"
    "dependency_outputs1 pr k outputs = Inr deps"
proof -
  obtain td where td: "td \<in> set (wd1_tasks w)" "k = td1_id td" using assms(4) by blast
  note g = graph_facts1 [OF assms(1-3)]
  have one: "t = td" if "t \<in> set (wd1_tasks w)" "td1_id t = td1_id td" for t
    using assms(1) td(1) that by (auto simp: valid_workflow1_def distinct_map dest: inj_onD)
  have ups: "upstream_of (pr_graph pr) k = Inr (sort (td1_depends_on td))"
    using g(1) g(3) [OF td(1)] td by (simp add: upstream_of_def known_node_def require_def)
  have set_ups: "set (sort (td1_depends_on td)) = {d. (d, k) \<in> edges1 w}"
    using one td by (auto simp: edges1_def)
  have found: "bindR (key_lookup outputs u) (\<lambda>v. Inr (u, v)) = Inr (u, the (dict_get outputs u))" if "u \<in> set (sort (td1_depends_on td))" for u
  proof -
    have "u \<in> fst ` set outputs" using that set_ups before by blast
    then have "\<exists>v. dict_get outputs u = Some v" by (simp only: dict_has_iff [symmetric])
    then show ?thesis by (auto simp: key_lookup_def)
  qed
  have "dependency_outputs1 pr k outputs = Inr (map (\<lambda>u. (u, the (dict_get outputs u))) (sort (td1_depends_on td)))"
    unfolding dependency_outputs1_def ups bindR_simps by (rule mapR_all [OF found])
  then show thesis using that ups set_ups by blast
qed

context runner_ports
begin

definition rounds :: "v1_run \<Rightarrow> string set \<Rightarrow> string list \<Rightarrow> progress1 \<Rightarrow> 'e engine1 \<Rightarrow> bool" where
  \<comment> \<open>After the rounds for \<open>pre\<close>: these tasks have succeeded and the others have not been touched.\<close>
  "rounds run ids pre p k \<longleftrightarrow> stands I (\<lambda>s. run_view s run (pg_tasks p) (ef1_next (pg_factory p))) {} k \<and>
     (ef1_run_id (pg_factory p) = r1_id run \<and> fst ` set (pg_tasks p) = ids \<and> fst ` set (pg_outputs p) = set pre \<and>
      (\<forall>(j, t) \<in> set (pg_tasks p). t1_status t = (if j \<in> set pre then T1_SUCCEEDED else T1_PENDING)))"

definition broken :: "string \<Rightarrow> string set \<Rightarrow> pyexc \<Rightarrow> 'e engine1 \<Rightarrow> bool" where
  "broken i ids = (\<lambda>x k. stands I (settled i ids W1_FAILED) {} k \<and> is_executor_error x)"

lemma framed_started:
  assumes run: "valid_run1 run" "r1_status run = W1_RUNNING" and t: "valid_task1 t'" "t1_run_id t' = r1_id run" "t1_task_id t' = k"
      "t1_status t' = T1_RUNNING"
    and T: "dict_ok T" "k \<in> fst ` set T" "\<forall>(j, u) \<in> set T. t1_status u \<in> {T1_PENDING, T1_SUCCEEDED}"
    and ids: "distinct ids" "set ids = fst ` set T" "fst ` set T = td1_id ` set (wd1_tasks w)"
    and w: "valid_workflow1 w" "known1 w" "build_graph1 w = Inr g" and "delays_fit C (td1_retry td)"
  shows "framed C \<lparr>fr_run = run, fr_task = td, fr_handler = h, fr_parameters = ps, fr_outputs = os, fr_graph = g,
    fr_plan_ids = ids, fr_tasks = dict_set k t' T\<rparr> t'"
proof -
  have "fst ` set (dict_set k t' T) = fst ` set T" using T(2) by (auto simp: dict_set_keys)
  moreover have "\<forall>(j, u) \<in> set (dict_set k t' T). j \<noteq> k \<longrightarrow> t1_status u \<in> {T1_PENDING, T1_READY, T1_SUCCEEDED}"
    using T(3) by (auto simp: dict_set_set [OF T(1)])
  ultimately show ?thesis using assms unfolding framed_def by (auto simp: dict_get_set)
qed

lemma round_contract:
  assumes w: "valid_workflow1 w" and p: "prepare1 P registry w supplied = Inr pr"
    and fit: "\<forall>td \<in> set (wd1_tasks w). delays_fit C (td1_retry td)"
    and run: "valid_run1 run" "r1_status run = W1_RUNNING" and split: "pr_plan_ids pr = pre @ k # post"
  shows "contract (rounds run (set (pr_plan_ids pr)) pre q) (run_planned1 P pr run k q) (rounds run (set (pr_plan_ids pr)) (pre @ [k]))
    (broken (r1_id run) (set (pr_plan_ids pr)))"
proof (rule contract_assume)
  fix s assume "rounds run (set (pr_plan_ids pr)) pre q s"
  then have v: "run_view (en_store s) run (pg_tasks q) (ef1_next (pg_factory q))" by (simp add: rounds_def stands_def)
  show "dict_ok (pg_tasks q) \<and> (\<forall>(j, u) \<in> set (pg_tasks q). valid_task1 u \<and> t1_task_id u = j \<and> t1_run_id u = r1_id run)"
    using viewD(3,7) [OF v] by blast
next
  let ?T = "pg_tasks q" and ?ids = "set (pr_plan_ids pr)"
  assume known: "dict_ok ?T \<and> (\<forall>(j, u) \<in> set ?T. valid_task1 u \<and> t1_task_id u = j \<and> t1_run_id u = r1_id run)"
  note facts = prepared_facts(1) [OF w p] and order = prepared_facts(2) [OF w p] and handlers = prepared_facts(3) [OF w p]
  have rid: "\<not> blank (r1_id run)" using run(1) by (simp add: valid_run1_def)
  show "contract (rounds run ?ids pre q) (run_planned1 P pr run k q) (rounds run ?ids (pre @ [k])) (broken (r1_id run) ?ids)"
    unfolding rounds_def [of run ?ids pre q]
  proof (rule contract_pure)
    assume q: "ef1_run_id (pg_factory q) = r1_id run \<and> fst ` set ?T = ?ids \<and> fst ` set (pg_outputs q) = set pre \<and>
      (\<forall>(j, t) \<in> set ?T. t1_status t = (if j \<in> set pre then T1_SUCCEEDED else T1_PENDING))"
    have kin: "k \<in> ?ids" "k \<notin> set pre" using split facts by auto
    then have "dict_has ?T k" using q by simp
    then obtain t where t: "dict_get ?T k = Some t" unfolding dict_has_iff by blast
    then have tin: "(k, t) \<in> set ?T" using known by (simp add: dict_get_iff)
    then have t': "valid_task1 t" "t1_task_id t = k" "t1_run_id t = r1_id run" "t1_status t = T1_PENDING" using known q kin by auto
    then have ids: "\<not> blank (t1_id t)" "\<not> blank k" by (auto simp: valid_task1_def)
    have tasks: "k \<in> td1_id ` set (wd1_tasks w)" using kin facts by blast
    then obtain td where td: "td \<in> set (wd1_tasks w)" "td1_id td = k" by blast
    have tdk: "key_lookup (pr_definitions pr) k = Inr td"
    proof -
      have "distinct (map fst (pr_definitions pr))" using facts w by (simp add: comp_def valid_workflow1_def)
      moreover have "(k, td) \<in> set (pr_definitions pr)" using td facts by auto
      ultimately show ?thesis by (simp add: key_lookup_def)
    qed
    have "dict_has (pr_handlers pr) k" using handlers tasks by simp
    then obtain h where h: "key_lookup (pr_handlers pr) k = Inr h" by (auto simp: dict_has_iff key_lookup_def)
    have outputs: "\<And>d. (d, k) \<in> edges1 w \<Longrightarrow> d \<in> fst ` set (pg_outputs q)" using order [OF split] q by blast
    obtain ups deps where ups: "upstream_of (pr_graph pr) k = Inr ups" "set ups = {d. (d, k) \<in> edges1 w}"
      "dependency_outputs1 pr k (pg_outputs q) = Inr deps"
      using dependencies_found [OF w _ _ tasks outputs] facts by blast
    have ready: "is_ready1 (pr_graph pr) persisted t = Inr True" if "\<And>j. dict_get persisted j = dict_get ?T j" for persisted
    proof -
      have "\<exists>u. dict_get persisted d = Some u \<and> t1_task_id u = d \<and> t1_status u = T1_SUCCEEDED" if d: "d \<in> set ups" for d
      proof -
        have dpre: "d \<in> set pre" using d ups(2) order [OF split] by blast
        then have "dict_has ?T d" using q split by simp
        then obtain u where u: "dict_get ?T d = Some u" unfolding dict_has_iff by blast
        then have "(d, u) \<in> set ?T" using known by (simp add: dict_get_iff)
        then have "t1_task_id u = d \<and> t1_status u = T1_SUCCEEDED" using known q dpre by auto
        then show ?thesis using u \<open>\<And>j. dict_get persisted j = dict_get ?T j\<close> by simp
      qed
      then have "upstream_ready persisted ups = Inr True" by (intro upstream_ready_all) blast
      moreover have "k \<in> set (g1_nodes (pr_graph pr))" using graph_facts1(1) [OF w] facts tasks by blast
      ultimately show ?thesis using ups(1) t' by (simp add: is_ready1_def require_def)
    qed
    let ?R = "rounds run ?ids (pre @ [k])" and ?E = "broken (r1_id run) ?ids"
    have rest: "contract (stands I (\<lambda>s. run_view s run (dict_set k t2 (dict_set k t1 ?T)) (ef1_next ef) \<and> latest_of (t1_id t2) a (s1_attempts s)) {})
      (bindA (liftR (key_lookup (pr_definitions pr) k)) (\<lambda>td. bindA (liftR (key_lookup (pr_handlers pr) k)) (\<lambda>h.
       bindA (liftR (dependency_outputs1 pr k (pg_outputs q))) (\<lambda>deps.
       bindA (execute_with_retry1 (attempt_fuel1 td 1) P \<lparr>fr_run = run, fr_task = td, fr_handler = h,
         fr_parameters = pr_parameters pr, fr_outputs = deps, fr_graph = pr_graph pr,
         fr_plan_ids = pr_plan_ids pr, fr_tasks = dict_set k t2 ?T\<rparr> t2 a ef) (\<lambda>(result, t, ef).
       ret \<lparr>pg_tasks = dict_set k t ?T, pg_factory = ef, pg_outputs = dict_set k (res1_output result) (pg_outputs q)\<rparr>))))) ?R ?E"
      if t2: "start_task1 now (t\<lparr>t1_status := T1_READY\<rparr>) = Inr t2" and a: "in_hand t2 a" "a1_number a = 1" and ef: "ef1_run_id ef = r1_id run"
      for now t1 t2 a ef
    proof -
      let ?f = "\<lparr>fr_run = run, fr_task = td, fr_handler = h, fr_parameters = pr_parameters pr, fr_outputs = deps, fr_graph = pr_graph pr,
         fr_plan_ids = pr_plan_ids pr, fr_tasks = dict_set k t2 ?T\<rparr>"
      have ready_valid: "valid_task1 (t\<lparr>t1_status := T1_READY\<rparr>)"
        using task1_step_valid [OF task1_step.intros(1) [OF mark_ready1_ok [OF t'(4)]]] t'(1) by blast
      have t2': "valid_task1 t2" "t1_run_id t2 = r1_id run" "t1_task_id t2 = k" "t1_status t2 = T1_RUNNING"
        using task1_step_valid [OF task1_step.intros(2) [OF t2] ready_valid] task1_step_frame [OF task1_step.intros(2) [OF t2]] t' t2
        by (auto simp: task1_Inr)
      have "\<forall>(j, u) \<in> set ?T. t1_status u \<in> {T1_PENDING, T1_SUCCEEDED}" using q by fastforce
      then have fr: "framed C ?f t2"
        using framed_started [OF run t2'] known kin q facts w fit td by simp
      have keys: "fst ` set (dict_set k t2 ?T) = ?ids" using q kin by (auto simp: dict_set_keys)
      have loop: "contract (stands I (under_way ?f t2 a ef) {}) (execute_with_retry1 (attempt_fuel1 td 1) P ?f t2 a ef) (finished ?f t2) ?E"
        using retry_loop_contract [OF fr a(1), of ef "attempt_fuel1 td 1"] ef a(2) keys by (simp add: ruined_def broken_def attempt_fuel1_def)
      have last: "contract (finished ?f t2 r) (case r of (result, t, ef) \<Rightarrow>
          ret \<lparr>pg_tasks = dict_set k t ?T, pg_factory = ef, pg_outputs = dict_set k (res1_output result) (pg_outputs q)\<rparr>) ?R ?E" for r
      proof (cases r)
        case (fields result t3 ef3)
        have "\<forall>(j, u) \<in> set (dict_set k t3 ?T). t1_status u = (if j \<in> set (pre @ [k]) then T1_SUCCEEDED else T1_PENDING)"
          if "t1_status t3 = T1_SUCCEEDED"
          using q that by (auto simp: dict_set_set [OF conjunct1 [OF known]])
        moreover have "fst ` set (dict_set k t3 ?T) = ?ids" using q kin by (auto simp: dict_set_keys)
        ultimately show ?thesis
          unfolding fields prod.case
          by (intro contract_pre [OF contract_ret]) (use q in \<open>auto simp: finished_def rounds_def dict_set_twice dict_set_keys t2'\<close>)
      qed
      have "(\<lambda>s. run_view s run (dict_set k t2 (dict_set k t1 ?T)) (ef1_next ef) \<and> latest_of (t1_id t2) a (s1_attempts s)) = under_way ?f t2 a ef"
        by (rule ext) (simp add: under_way_def dict_set_twice)
      then show ?thesis
        by (simp only:) (rule contract_bind_lift [OF tdk], rule contract_bind_lift [OF h], rule contract_bind_lift [OF ups(3)],
          rule contract_bind [OF loop last])
    qed
    have found: "key_lookup ?T k = Inr t" using t by (simp add: key_lookup_def)
    show "contract (stands I (\<lambda>s. run_view s run ?T (ef1_next (pg_factory q))) {}) (run_planned1 P pr run k q) ?R ?E"
      unfolding run_planned1_def
      by (rule contract_bind_lift [OF found], rule loaded, rule contract_bind_lift [of _ t], simp add: key_lookup_def t,
        rule contract_bind_lift [OF ready], assumption, rule contract_then_require, rule TrueI,
        rule readied [OF t], (use t' ids q rid in simp_all)[5], rule started, (use t' ids rid in \<open>simp_all add: dict_get_set\<close>)[6])
        (rule rest; simp)
  qed
qed

end

section \<open>The whole run\<close>

context runner_ports
begin

definition unsaved :: "v1_store \<Rightarrow> v1_run \<Rightarrow> string list \<Rightarrow> task_runs1 \<Rightarrow> 'e engine1 \<Rightarrow> bool" where
  \<comment> \<open>The run and the task runs created so far, none of them stored yet.\<close>
  "unsaved s0 run ks T k \<longleftrightarrow> stands I (\<lambda>s. s = s0) (insert (r1_id run) (t1_id ` snd ` set T)) k \<and>
     (map fst T = ks \<and> distinct (map t1_id (map snd T)) \<and> r1_id run \<notin> ids_of s0 \<and> r1_id run \<notin> t1_id ` snd ` set T \<and>
      (\<forall>(j, t) \<in> set T. fresh_task s0 run j t))"

lemma create_run_contract:
  assumes "\<not> blank (wd1_id w)" "\<not> blank (wd1_version w)"
  shows "contract (stands I (\<lambda>s. s = s0) {}) (create_run1 P w params)
    (\<lambda>run k. unsaved s0 run [] [] k \<and> (valid_run1 run \<and> r1_status run = W1_PENDING \<and> r1_id run \<notin> ids_of s0)) never"
  unfolding create_run1_def
proof (rule contract_bind [OF issue_contract [OF run_ids]], rule contract_pure, rule contract_bind [OF now_contract], rule contract_pure)
  fix i now assume i: "\<not> blank i \<and> i \<notin> {}" and now: "C now \<and> dt_aware now"
  let ?run = "\<lparr>r1_id = i, r1_workflow_id = wd1_id w, r1_version = wd1_version w, r1_status = W1_PENDING,
       r1_parameters = params, r1_created_at = Some now, r1_started_at = None, r1_finished_at = None\<rparr>"
  have v: "valid_run1 ?run" using i now assms by (simp add: valid_run1_def RUN1_TERMINAL_def)
  have "stands I (\<lambda>s. s = s0) {i} k \<and> i \<notin> ids_of s0" if "stands I (\<lambda>s. s = s0 \<and> i \<notin> ids_of s) {i} k" for k
    using that by (auto simp: stands_def)
  then show "contract (stands I (\<lambda>s. s = s0 \<and> i \<notin> ids_of s) {i}) (liftR (mk_run1 ?run))
      (\<lambda>run k. unsaved s0 run [] [] k \<and> (valid_run1 run \<and> r1_status run = W1_PENDING \<and> r1_id run \<notin> ids_of s0)) never"
    by (intro contract_pre [OF contract_lift]) (use v in \<open>auto simp: mk_run1_Inr unsaved_def\<close>)
qed

lemma create_task_run_contract:
  assumes run: "valid_run1 run" and k: "\<not> blank k" "k \<notin> set ks" and now: "dt_aware now"
  shows "contract (unsaved s0 run ks T) (create_task_run1 P run now k T) (unsaved s0 run (ks @ [k])) never"
  unfolding create_task_run1_def unsaved_def [of s0 run ks T]
proof (rule contract_pure, rule contract_bind [OF issue_contract [OF task_run_ids]], rule contract_pure)
  fix i
  let ?X = "insert (r1_id run) (t1_id ` snd ` set T)"
  assume T: "map fst T = ks \<and> distinct (map t1_id (map snd T)) \<and> r1_id run \<notin> ids_of s0 \<and> r1_id run \<notin> t1_id ` snd ` set T \<and>
      (\<forall>(j, t) \<in> set T. fresh_task s0 run j t)" and i: "\<not> blank i \<and> i \<notin> ?X"
  let ?t = "\<lparr>t1_id = i, t1_run_id = r1_id run, t1_task_id = k, t1_status = T1_PENDING,
       t1_skip_reason = None, t1_created_at = Some now, t1_started_at = None, t1_finished_at = None\<rparr>"
  have v: "valid_task1 ?t" using i k run now by (simp add: valid_task1_def valid_run1_def TASK1_TERMINAL_def)
  then have made: "mk_task_run1 ?t = Inr ?t" by (simp add: mk_task_run1_Inr)
  have set_eq: "dict_set k ?t T = T @ [(k, ?t)]" using T k(2) by (intro dict_set_fresh) (metis set_map)
  have "unsaved s0 run (ks @ [k]) (T @ [(k, ?t)]) e" if e: "stands I (\<lambda>s. s = s0 \<and> i \<notin> ids_of s) (insert i ?X) e" for e
  proof -
    have st: "en_store e = s0" "i \<notin> ids_of s0" "ids_of s0 \<subseteq> I (en_env e)" "insert i ?X \<subseteq> I (en_env e)"
      using e by (auto simp: stands_def)
    have "stands I (\<lambda>s. s = s0) (insert (r1_id run) (t1_id ` snd ` set (T @ [(k, ?t)]))) e" using st by (auto simp: stands_def)
    moreover have "fresh_task s0 run k ?t" using v st(2) by (simp add: fresh_task_def)
    ultimately show ?thesis using T i by (auto simp: unsaved_def)
  qed
  then show "contract (stands I (\<lambda>s. s = s0 \<and> i \<notin> ids_of s) (insert i ?X))
      (bindA (liftR (mk_task_run1 ?t)) (\<lambda>t. ret (dict_set k t T))) (unsaved s0 run (ks @ [k])) never"
    by (intro contract_bind_lift [OF made] contract_pre [OF contract_ret]) (simp add: set_eq)
qed

lemma create_task_runs_contract:
  assumes run: "valid_run1 run" and ids: "distinct ids" "\<forall>k \<in> set ids. \<not> blank k"
  shows "contract (unsaved s0 run [] []) (create_task_runs1 P run ids) (unsaved s0 run ids) never"
  unfolding create_task_runs1_def
proof (rule contract_bind)
  show "contract (unsaved s0 run [] []) (now1 P) (\<lambda>now k. unsaved s0 run [] [] k \<and> dt_aware now) never"
    unfolding unsaved_def by (rule contract_pure, rule contract_post [OF now_contract]) simp
  fix now
  show "contract (\<lambda>k. unsaved s0 run [] [] k \<and> dt_aware now) (foldA (create_task_run1 P run now) ids []) (unsaved s0 run ids) never"
    by (rule contract_pure, rule contract_foldA, rule create_task_run_contract [OF run]) (use ids in auto)
qed

lemma persist_initial_contract:
  assumes ok: "store1_ok s0" and run: "valid_run1 run" and ids: "distinct ids"
  shows "contract (unsaved s0 run ids T) (persist_initial1 run T)
    (\<lambda>_ k. stands I (\<lambda>s. run_view s run T 1) {} k \<and> (map fst T = ids \<and> (\<forall>(j, t) \<in> set T. t1_status t = T1_PENDING))) never"
  unfolding unsaved_def
proof (rule contract_pure)
  let ?X = "insert (r1_id run) (t1_id ` snd ` set T)"
  assume T: "map fst T = ids \<and> distinct (map t1_id (map snd T)) \<and> r1_id run \<notin> ids_of s0 \<and> r1_id run \<notin> t1_id ` snd ` set T \<and>
      (\<forall>(j, t) \<in> set T. fresh_task s0 run j t)"
  obtain s1 where s1: "add_run1 run s0 = Inr s1" "run_view s1 run [] 1" "ids_of s1 = insert (r1_id run) (ids_of s0)"
    using view_add_run [OF ok run] T by blast
  have "\<forall>(j, t) \<in> set T. fresh_task s1 run j t"
  proof clarify
    fix j t assume jt: "(j, t) \<in> set T"
    then have "t1_id t \<noteq> r1_id run" using T by force
    moreover have "fresh_task s0 run j t" using T jt by blast
    ultimately show "fresh_task s1 run j t" using s1(3) by (simp add: fresh_task_def)
  qed
  then have "\<exists>u. foldR (\<lambda>w. w) (map add_task1 (map snd T)) s1 = Inr u \<and> run_view u run ([] @ T) 1 \<and>
      ids_of u \<subseteq> t1_id ` snd ` set T \<union> ids_of s1"
    by (rule view_add_tasks [OF s1(2)]) (use T ids in auto)
  then obtain u where u: "foldR (\<lambda>w. w) (map add_task1 (map snd T)) s1 = Inr u" "run_view u run T 1"
    "ids_of u \<subseteq> t1_id ` snd ` set T \<union> ids_of s1" by auto
  have u3: "ids_of u \<subseteq> ids_of s0 \<union> ?X" using u(3) s1(3) by blast
  have "contract (stands I (\<lambda>s. s = s0) ?X) (persist_initial1 run T) (\<lambda>_. stands I (\<lambda>s. run_view s run T 1) ?X) never"
    unfolding persist_initial1_def by (rule write_contract) (use ok s1(1) u(1,2) u3 in \<open>auto simp: dict_values_def\<close>)
  moreover have "\<forall>(j, t) \<in> set T. t1_status t = T1_PENDING" using T by (auto simp: fresh_task_def)
  ultimately show "contract (stands I (\<lambda>s. s = s0) ?X) (persist_initial1 run T)
      (\<lambda>_ k. stands I (\<lambda>s. run_view s run T 1) {} k \<and> (map fst T = ids \<and> (\<forall>(j, t) \<in> set T. t1_status t = T1_PENDING))) never"
    using T by (elim contract_post) (auto elim: stands_weaken)
qed

text \<open>The run that \<open>run\<close> returns, and the one it leaves behind when it raises.\<close>

lemma run_contract:
  assumes w: "valid_workflow1 w" and p: "prepare1 P registry w supplied = Inr pr"
    and fit: "\<forall>td \<in> set (wd1_tasks w). delays_fit C (td1_retry td)" and ok: "store1_ok s0"
  shows "contract (stands I (\<lambda>s. s = s0) {}) (run1 P registry w supplied)
    (\<lambda>run k. settled (r1_id run) (td1_id ` set (wd1_tasks w)) W1_SUCCEEDED (en_store k) \<and> get_run1 (en_store k) (r1_id run) = Inr run \<and>
      r1_id run \<notin> ids_of s0)
    (\<lambda>x k. is_executor_error x \<and> (\<exists>i. i \<notin> ids_of s0 \<and> settled i (td1_id ` set (wd1_tasks w)) W1_FAILED (en_store k)))"
proof -
  note facts = prepared_facts(1) [OF w p]
  have ids: "set (pr_plan_ids pr) = td1_id ` set (wd1_tasks w)" "distinct (pr_plan_ids pr)" "\<forall>k \<in> set (pr_plan_ids pr). \<not> blank k"
    using facts w by (auto simp: valid_workflow1_def)
  let ?ids = "set (pr_plan_ids pr)"
  let ?R = "\<lambda>run k. settled (r1_id run) ?ids W1_SUCCEEDED (en_store k) \<and> get_run1 (en_store k) (r1_id run) = Inr run \<and> r1_id run \<notin> ids_of s0"
  let ?E = "\<lambda>x k. is_executor_error x \<and> (\<exists>i. i \<notin> ids_of s0 \<and> settled i ?ids W1_FAILED (en_store k))"
  have closing: "contract (rounds run ?ids (pr_plan_ids pr) q)
      (thenA (requireA (\<forall>t \<in> set (dict_values (pg_tasks q)). t1_status t = T1_SUCCEEDED)
        (RuntimeInvariant ''workflow exhausted its plan before all tasks succeeded'')) (finish_workflow1 P run [] (pg_factory q))) ?R ?E"
    if run: "valid_run1 run" "r1_status run = W1_RUNNING" "r1_id run \<notin> ids_of s0" for run q
    unfolding rounds_def
  proof (rule contract_pure, rule contract_then_require)
    assume q: "ef1_run_id (pg_factory q) = r1_id run \<and> fst ` set (pg_tasks q) = ?ids \<and> fst ` set (pg_outputs q) = ?ids \<and>
      (\<forall>(j, t) \<in> set (pg_tasks q). t1_status t = (if j \<in> ?ids then T1_SUCCEEDED else T1_PENDING))"
    then have succeeded: "\<forall>(j, t) \<in> set (pg_tasks q). t1_status t = T1_SUCCEEDED" by force
    then show "\<forall>t \<in> set (dict_values (pg_tasks q)). t1_status t = T1_SUCCEEDED" by (auto simp: dict_values_def)
    show "contract (stands I (\<lambda>s. run_view s run (pg_tasks q) (ef1_next (pg_factory q))) {}) (finish_workflow1 P run [] (pg_factory q)) ?R ?E"
      by (rule contract_weaken [OF contract_never [OF finish_workflow_contract [OF run(1,2) _ _ succeeded]]])
        (use q run(3) in \<open>auto simp: flat_payload_def stands_def\<close>)
  qed
  have loop: "contract (rounds run ?ids [] \<lparr>pg_tasks = T, pg_factory = ef, pg_outputs = []\<rparr>) (bindA
      (foldA (run_planned1 P pr run) (pr_plan_ids pr) \<lparr>pg_tasks = T, pg_factory = ef, pg_outputs = []\<rparr>) (\<lambda>q.
      thenA (requireA (\<forall>t \<in> set (dict_values (pg_tasks q)). t1_status t = T1_SUCCEEDED)
        (RuntimeInvariant ''workflow exhausted its plan before all tasks succeeded'')) (finish_workflow1 P run [] (pg_factory q)))) ?R ?E"
    if run: "valid_run1 run" "r1_status run = W1_RUNNING" "r1_id run \<notin> ids_of s0" for run T ef
  proof (rule contract_bind [OF _ closing [OF run]])
    show "contract (rounds run ?ids [] \<lparr>pg_tasks = T, pg_factory = ef, pg_outputs = []\<rparr>)
        (foldA (run_planned1 P pr run) (pr_plan_ids pr) \<lparr>pg_tasks = T, pg_factory = ef, pg_outputs = []\<rparr>)
        (rounds run ?ids (pr_plan_ids pr)) ?E"
      by (rule contract_weaken [OF contract_foldA [OF round_contract [OF w p fit run(1,2)]]])
        (use run(3) in \<open>auto simp: broken_def stands_def\<close>)
  qed
  have first: "rounds run ?ids [] \<lparr>pg_tasks = T, pg_factory = ef, pg_outputs = []\<rparr> k"
    if "stands I (\<lambda>s. run_view s run T (ef1_next ef)) {} k" "ef1_run_id ef = r1_id run"
      "map fst T = pr_plan_ids pr \<and> (\<forall>(j, t) \<in> set T. t1_status t = T1_PENDING)" for run T ef k
  proof -
    have "fst ` set T = ?ids" using that(3) by (metis set_map)
    then show ?thesis using that by (simp add: rounds_def)
  qed
  have factory: "mk_event_factory1 i 1 = Inr \<lparr>ef1_run_id = i, ef1_next = 1\<rparr>" for i by (simp add: mk_event_factory1_def require_def)
  have "contract (stands I (\<lambda>s. s = s0) {}) (run1 P registry w supplied) ?R ?E"
    unfolding run1_def
    by (rule contract_bind_lift [OF p], rule contract_bind [OF contract_never [OF create_run_contract]],
      (use w in \<open>simp_all add: valid_workflow1_def\<close>)[2], rule contract_pure, rule contract_bind_lift [OF factory],
      rule contract_bind [OF contract_never [OF create_task_runs_contract]], (use ids in simp_all)[3],
      rule contract_then [OF contract_never [OF persist_initial_contract [OF ok]]], (use ids in simp_all)[2], rule contract_pure,
      rule contract_bind_pair [OF contract_never], rule contract_pre [OF start_workflow_contract], simp_all, rule contract_pure,
      rule contract_pre [OF loop]) (simp_all add: first)
  then show ?thesis by (simp add: ids(1))
qed

end

end
