(* ===== verification/V1_Default.thy ===== *)
theory V1_Default
  imports V1_Execution
begin

text \<open>
  The ports that \<open>Runner\<close> is given by default (\<open>adapters/runtime.py\<close>, with \<open>LocalExecutor\<close>), which
  satisfy \<open>runner_ports\<close> when the handlers do what a handler may do, and what \<open>run\<close> then guarantees.
  The strings that \<open>uuid4\<close> returns and the readings of the system clock are sequences.
\<close>

section \<open>The default adapters\<close>

record 'h system1 =
  sy_uuids :: nat  \<comment> \<open>how many uuids were drawn\<close>
  sy_ticks :: nat  \<comment> \<open>how often the clock was read\<close>
  sy_user :: 'h    \<comment> \<open>the state of the handlers and of the observers\<close>

definition on_user :: "('h, 'a) act \<Rightarrow> ('h system1, 'a) act" where
  "on_user m = zoomA sy_user (\<lambda>u e. e\<lparr>sy_user := u\<rparr>) m"

definition system_now1 :: "(nat \<Rightarrow> datetime) \<Rightarrow> ('h system1, datetime) act" where
  "system_now1 tick = bindA (gets sy_ticks) (\<lambda>n. thenA (modifyA (\<lambda>e. e\<lparr>sy_ticks := Suc n\<rparr>)) (ret (tick n)))"

definition system_sleep1 :: "pynum \<Rightarrow> ('h system1, unit) act" where
  \<comment> \<open>For a number that is not a NaN or infinite.\<close>
  "system_sleep1 seconds = requireA (\<not> num_val seconds < 0) (ValueError ''seconds must be non-negative'')"

definition uuid_id1 :: "(nat \<Rightarrow> string) \<Rightarrow> ('h system1, string) act" where
  \<comment> \<open>The four methods of \<open>UuidRuntimeIdFactory\<close> drop their arguments.\<close>
  "uuid_id1 uuid = bindA (gets sy_uuids) (\<lambda>n. thenA (modifyA (\<lambda>e. e\<lparr>sy_uuids := Suc n\<rparr>)) (ret (uuid n)))"

definition default_ports1 ::
  "(nat \<Rightarrow> parameter list result) \<Rightarrow> (nat \<Rightarrow> run_context1 option \<Rightarrow> ('h, returned1) act) \<Rightarrow>
   (nat \<Rightarrow> v1_event \<Rightarrow> ('h, unit) act) \<Rightarrow> (datetime \<Rightarrow> string) \<Rightarrow> (nat \<Rightarrow> string) \<Rightarrow> (nat \<Rightarrow> datetime) \<Rightarrow> 'h system1 ports1" where
  "default_ports1 inspect call emit isoformat uuid tick =
     \<lparr>po_now = system_now1 tick, po_run_id = uuid_id1 uuid, po_task_run_id = (\<lambda>i k. uuid_id1 uuid),
      po_attempt_id = (\<lambda>i n. uuid_id1 uuid), po_event_id = (\<lambda>i n. uuid_id1 uuid), po_sleep = system_sleep1,
      po_executor_key = ''local'', po_timeout = cp1_timeout LOCAL_CAPABILITIES,
      po_execute = (\<lambda>t h c. on_user (local_execute1 inspect call t h c)), po_emit = (\<lambda>sink e. on_user (emit sink e)),
      po_isoformat = isoformat\<rparr>"

lemmas default_port_defs = default_ports1_def system_now1_def system_sleep1_def uuid_id1_def on_user_def zoomA_def
  bindA_def thenA_def

definition issued :: "(nat \<Rightarrow> string) \<Rightarrow> ('h \<Rightarrow> string set) \<Rightarrow> 'h system1 \<Rightarrow> string set" where
  "issued uuid J e = uuid ` {..<sy_uuids e} \<union> J (sy_user e)"

lemma invalid_handler_presentable: "presentable1 (V1Error (InvalidHandler t r))"
proof -
  have "\<not> blank (''Handler for task '' @ x)" "\<not> blank ''InvalidHandlerError''" for x
    by (simp_all add: blank_def py_isspace_def)
  then show ?thesis by (simp add: presentable1_def is_executor_error_def normalize_executor_error1_def exc_summary_def)
qed

text \<open>
  What the program relies on: uuids are new and not blank, the clock is aware; handlers return
  values with new identifiers of their own (those issued so far are \<open>J\<close> of their state), and the
  errors they raise have names and messages that are not only white space.
\<close>

lemma default_ports1_sound:
  fixes J :: "'h \<Rightarrow> string set"
  assumes uuid: "inj uuid" "\<And>n. \<not> blank (uuid n)" and tick: "\<And>n. C (tick n) \<and> dt_aware (tick n)"
    and own: "\<And>u. J u \<inter> range uuid = {}"
    and returns: "\<And>h c u r u'. call h c u = (Inr r, u') \<Longrightarrow>
      result_fresh (J u) (normalize_result1 r) \<and> new_results (normalize_result1 r) \<union> J u \<subseteq> J u'"
    and raises: "\<And>h c u x u' t. call h c u = (Inl x, u') \<Longrightarrow> presentable1 (handler_failure1 t x) \<and> J u \<subseteq> J u'"
    and inspected: "\<And>h x. inspect h = Inl x \<Longrightarrow> is_type_or_value_error x"
    and emits: "\<And>sink e u. J u \<subseteq> J (snd (emit sink e u))"
  shows "runner_ports (default_ports1 inspect call emit isoformat uuid tick) (issued uuid J) C"
proof -
  have id: "issues (issued uuid J) (uuid_id1 uuid)"
    unfolding issues_def
  proof
    fix e :: "'h system1"
    have "uuid (sy_uuids e) \<notin> issued uuid J e"
      using uuid(1) own [of "sy_user e"] by (auto simp: issued_def inj_def)
    then show "\<exists>i e'. uuid_id1 uuid e = (Inr i, e') \<and> \<not> blank i \<and> i \<notin> issued uuid J e \<and> insert i (issued uuid J e) \<subseteq> issued uuid J e'"
      using uuid(2) by (auto simp: default_port_defs issued_def lessThan_Suc)
  qed
  have raised: "presentable1 x \<and> J u \<subseteq> J u'" if x: "local_execute1 inspect call t h c u = (Inl x, u')" for t h c u x u'
  proof -
    consider (invalid) r where "x = V1Error (InvalidHandler (td1_id t) r)" "u' = u"
      | (failed) a y where "call h a u = (Inl y, u')" "x = handler_failure1 t y"
      using x inspected by (auto simp: local_execute1_def invoke_handler1_def bindA_def thenA_def attemptA_def resolve_arity1_def
          invalid_handler1_def split: sum.splits prod.splits if_splits)
    then show ?thesis
    proof cases
      case invalid
      then show ?thesis using invalid_handler_presentable by simp
    next
      case failed
      then show ?thesis using raises by blast
    qed
  qed
  have returned: "result_fresh (J u) r \<and> new_results r \<union> J u \<subseteq> J u'" if r: "local_execute1 inspect call t h c u = (Inr r, u')" for t h c u r u'
  proof -
    obtain a y where "call h a u = (Inr y, u')" "r = normalize_result1 y"
      using r by (auto simp: local_execute1_def invoke_handler1_def bindA_def thenA_def attemptA_def split: sum.splits prod.splits if_splits)
    then show ?thesis using returns by blast
  qed
  show ?thesis
  proof
    show "\<exists>t e'. po_now (default_ports1 inspect call emit isoformat uuid tick) e = (Inr t, e') \<and> C t \<and> dt_aware t \<and> issued uuid J e \<subseteq> issued uuid J e'" for e
      using tick by (auto simp: default_port_defs issued_def)
    show "\<exists>e'. po_sleep (default_ports1 inspect call emit isoformat uuid tick) d e = (Inr (), e') \<and> issued uuid J e \<subseteq> issued uuid J e'"
      if "num_gt d 0" for d e
      using that by (cases d) (auto simp: default_port_defs requireA_def)
    show "issued uuid J e \<subseteq> issued uuid J (snd (po_emit (default_ports1 inspect call emit isoformat uuid tick) sink ev e))" for e sink ev
      using emits [of "sy_user e" sink ev] by (auto simp: default_port_defs issued_def split: prod.splits)
  next
    fix td h c e r e'
    assume "po_execute (default_ports1 inspect call emit isoformat uuid tick) td h c e = (Inr r, e')"
    then obtain u' where u': "local_execute1 inspect call td h c (sy_user e) = (Inr r, u')" "e' = e\<lparr>sy_user := u'\<rparr>"
      by (auto simp: default_port_defs split: prod.splits)
    then have r: "result_fresh (J (sy_user e)) r" "new_results r \<union> J (sy_user e) \<subseteq> J u'" using returned by blast+
    then have "new_results r \<inter> range uuid = {}" using own [of u'] by blast
    then show "result_fresh (issued uuid J e) r \<and> new_results r \<union> issued uuid J e \<subseteq> issued uuid J e'"
      using r u'(2) by (auto simp: issued_def result_fresh_def)
  next
    fix td h c e x e'
    assume "po_execute (default_ports1 inspect call emit isoformat uuid tick) td h c e = (Inl x, e')"
    then obtain u' where u': "local_execute1 inspect call td h c (sy_user e) = (Inl x, u')" "e' = e\<lparr>sy_user := u'\<rparr>"
      by (auto simp: default_port_defs split: prod.splits)
    then show "presentable1 x \<and> issued uuid J e \<subseteq> issued uuid J e'" using raised [OF u'(1)] by (auto simp: issued_def)
  qed (use id in \<open>simp_all add: default_ports1_def\<close>)
qed

section \<open>What a run leaves\<close>

lemma run_settles:
  assumes ports: "runner_ports P I C" and w: "valid_workflow1 w" and fit: "\<forall>td \<in> set (wd1_tasks w). delays_fit C (td1_retry td)"
    and ok: "store1_ok (en_store k)" "ids_of (en_store k) \<subseteq> I (en_env k)"
  shows "run1 P registry w supplied k = (Inr run, k') \<Longrightarrow> settled (r1_id run) (td1_id ` set (wd1_tasks w)) W1_SUCCEEDED (en_store k') \<and>
      get_run1 (en_store k') (r1_id run) = Inr run \<and> r1_id run \<notin> ids_of (en_store k)"
    and "run1 P registry w supplied k = (Inl x, k') \<Longrightarrow> k' = k \<and> prepare1 P registry w supplied = Inl x \<or>
      is_executor_error x \<and> (\<exists>i. i \<notin> ids_of (en_store k) \<and> settled i (td1_id ` set (wd1_tasks w)) W1_FAILED (en_store k'))"
proof -
  have k: "stands I (\<lambda>s. s = en_store k) {} k" using ok by (simp add: stands_def)
  show "settled (r1_id run) (td1_id ` set (wd1_tasks w)) W1_SUCCEEDED (en_store k') \<and>
      get_run1 (en_store k') (r1_id run) = Inr run \<and> r1_id run \<notin> ids_of (en_store k)"
    if r: "run1 P registry w supplied k = (Inr run, k')"
  proof (cases "prepare1 P registry w supplied")
    case (Inr pr)
    from contractD(1) [OF runner_ports.run_contract [OF ports w Inr fit ok(1)] k r] show ?thesis .
  qed (use r in \<open>simp add: run1_def bindA_def\<close>)
  show "k' = k \<and> prepare1 P registry w supplied = Inl x \<or>
      is_executor_error x \<and> (\<exists>i. i \<notin> ids_of (en_store k) \<and> settled i (td1_id ` set (wd1_tasks w)) W1_FAILED (en_store k'))"
    if r: "run1 P registry w supplied k = (Inl x, k')"
  proof (cases "prepare1 P registry w supplied")
    case (Inr pr)
    from contractD(2) [OF runner_ports.run_contract [OF ports w Inr fit ok(1)] k r] show ?thesis by blast
  qed (use r in \<open>simp add: run1_def bindA_def\<close>)
qed

section \<open>A sample run\<close>

text \<open>Uuids in unary notation, a clock that stands still, and a handler for each task, of which that
  of \<open>left\<close> always fails.\<close>

definition sample_registry1 :: handlers1 where
  "sample_registry1 = [(''handler.start'', 0), (''handler.left'', 1), (''handler.right'', 2), (''handler.join'', 3)]"

definition sample_call1 :: "nat \<Rightarrow> run_context1 option \<Rightarrow> (nat, returned1) act" where
  \<comment> \<open>The state counts the calls.\<close>
  "sample_call1 h c = thenA (modifyA Suc) (if h = 1 then raise (ValueError ''boom'') else ret (Returned1 (PyStr ''done'')))"

definition sample_uuid :: "nat \<Rightarrow> string" where
  "sample_uuid n = replicate (Suc n) CHR ''x''"

definition sample_ports1 :: "nat system1 ports1" where
  "sample_ports1 = default_ports1 (\<lambda>h. Inr []) sample_call1 (\<lambda>sink e. ret ()) (\<lambda>t. ''now'') sample_uuid (\<lambda>n. Datetime 0 True)"

definition sample_engine1 :: "nat system1 engine1" where
  "sample_engine1 = \<lparr>en_store = empty_store1, en_dispatcher = \<lparr>dp_sinks = [], dp_failures = [],
       dp_policy = \<lparr>sp_redact = True, sp_expose = False, sp_max_chars = 100\<rparr>\<rparr>,
     en_env = \<lparr>sy_uuids = 0, sy_ticks = 0, sy_user = 0\<rparr>\<rparr>"

interpretation sample_run: runner_ports sample_ports1 "issued sample_uuid (\<lambda>u. {})" "\<lambda>t. t = Datetime 0 True"
  unfolding sample_ports1_def
proof (rule default_ports1_sound)
  show "inj sample_uuid" by (rule injI) (metis length_replicate sample_uuid_def old.nat.inject)
  show "\<not> blank (sample_uuid n)" for n by (simp add: sample_uuid_def blank_def py_isspace_def)
next
  fix h c u r u' assume "sample_call1 h c u = (Inr r, u')"
  then have "r = Returned1 (PyStr ''done'')" by (auto simp: sample_call1_def thenA_def bindA_def modifyA_def split: if_splits)
  then show "result_fresh {} (normalize_result1 r) \<and> new_results (normalize_result1 r) \<union> {} \<subseteq> {}"
    by (simp add: normalize_result1_def output_result1_def result_fresh_def new_results_def)
next
  fix h c u x u' t assume "sample_call1 h c u = (Inl x, u')"
  then have "x = ValueError ''boom''" by (auto simp: sample_call1_def thenA_def bindA_def modifyA_def split: if_splits)
  then show "presentable1 (handler_failure1 t x) \<and> {} \<subseteq> {}"
    by (simp add: presentable1_def is_executor_error_def handler_failure1_def task_execution_error_def
        normalize_executor_error1_def blank_def py_isspace_def)
qed simp_all

lemma sample_engine1_ok:
  "store1_ok (en_store sample_engine1)" "ids_of (en_store sample_engine1) \<subseteq> issued sample_uuid (\<lambda>u. {}) (en_env sample_engine1)"
  using empty_store1_ok by (simp_all add: sample_engine1_def ids_of_def) (simp_all add: empty_store1_def)

lemma sample_delays_fit: "td \<in> set (wd1_tasks diamond1) \<Longrightarrow> delays_fit (\<lambda>t. t = Datetime 0 True) (td1_retry td)"
proof -
  assume "td \<in> set (wd1_tasks diamond1)"
  then have p: "td1_retry td = \<lparr>rp1_max_attempts = 2, rp1_backoff = B1_FIXED, rp1_delay = PyInt 0, rp1_max_delay = None, rp1_categories = []\<rparr>"
    by (auto simp: diamond1_def sample_workflow1_def sample_task1_def)
  have "backoff_delay1 (td1_retry td) 1 = Inr (PyFloat 0)" unfolding p by code_simp
  moreover have "add_seconds (Datetime 0 True) (PyFloat 0) = Inr (Datetime 0 True)" by code_simp
  moreover have "n = 1" if "1 \<le> n" "n < rp1_max_attempts (td1_retry td)" for n using that unfolding p by simp
  ultimately show ?thesis unfolding delays_fit_def by (intro allI impI exI [of _ "PyFloat 0"]) auto
qed

section \<open>Every run is settled\<close>

text \<open>
  Not every valid policy has delays that fit: from the failure of attempt 1025 on an exponential delay
  overflows before the cap can bound it, and the decision raises instead of answering.
\<close>

theorem v1_exponential_delay_overflows:
  assumes "1025 \<le> n" and "rp1_backoff p = B1_EXPONENTIAL" and "rp1_delay p = PyFloat d"
  shows "backoff_delay1 p n = Inl (OverflowError ''int too large to convert to float'') \<and>
    (n < rp1_max_attempts p \<longrightarrow> \<not> delays_fit C p)"
proof -
  have "(2::int) ^ 1024 \<le> 2 ^ nat (n - 1)" using assms(1) by (intro power_increasing) auto
  then have "FLOAT_LIMIT \<le> of_int (2 ^ nat (n - 1))"
    unfolding FLOAT_LIMIT_eq by (metis of_int_le_iff of_int_numeral of_int_power)
  then have "backoff_delay1 p n = Inl (OverflowError ''int too large to convert to float'')"
    by (simp add: backoff_delay1_def assms times_int_def to_float_def)
  moreover have "\<not> delays_fit C p" if less: "n < rp1_max_attempts p"
  proof
    assume fit: "delays_fit C p"
    have "1 \<le> n" using assms(1) by simp
    from fit [unfolded delays_fit_def, THEN spec, THEN mp, OF this, THEN mp, OF less]
    show False using calculation by simp
  qed
  ultimately show ?thesis by blast
qed

theorem v1_exponential_delay_overflows_witness:
  "backoff_delay1 \<lparr>rp1_max_attempts = 2000, rp1_backoff = B1_EXPONENTIAL, rp1_delay = PyFloat 1,
      rp1_max_delay = Some (PyFloat 5), rp1_categories = []\<rparr> 1025 =
    Inl (OverflowError ''int too large to convert to float'')"
  using v1_exponential_delay_overflows [of 1025 "\<lparr>rp1_max_attempts = 2000, rp1_backoff = B1_EXPONENTIAL,
      rp1_delay = PyFloat 1, rp1_max_delay = Some (PyFloat 5), rp1_categories = []\<rparr>" 1] by simp

text \<open>C17: A valid workflow run by the first-generation runner is settled, provided that the retry delays of its
  tasks fit (\<open>delays_fit\<close>: none overflows as a float, and the clock's time plus the delay stays on the
  calendar; otherwise an OverflowError leaves \<open>run\<close> and the run stays RUNNING) and that the ports keep
  the contract \<open>runner_ports\<close> (the clock answers aware times, the identifiers that ports and
  handlers issue are new, sleeping raises nothing, handlers answer well-formed results or raise
  errors with a type, a message and a category that are not blank).  Whatever the store, as long as its invariant holds and its identifiers count
  as issued, and whatever the handlers do within that contract, \<open>run\<close> then returns the stored run, SUCCEEDED with all its tasks and of a new
  identifier, or it raises: either before anything was created, by one of the checks, and the engine
  is as it was, or with an executor error, and then a new run is in the store that is FAILED, with no
  task left open and its events numbered without a gap.  Under this proviso the loop of retries ends
  and no other exception leaves \<open>run\<close>, in particular not \<open>Diverged\<close>.\<close>

theorem v1_run_settles:
  assumes "runner_ports P I C" and "valid_workflow1 w" and "\<forall>td \<in> set (wd1_tasks w). delays_fit C (td1_retry td)"
    and "store1_ok (en_store k)" "ids_of (en_store k) \<subseteq> I (en_env k)"
  shows "case run1 P registry w supplied k of
      (Inr run, k') \<Rightarrow> r1_id run \<notin> ids_of (en_store k) \<and> get_run1 (en_store k') (r1_id run) = Inr run \<and>
        settled (r1_id run) (td1_id ` set (wd1_tasks w)) W1_SUCCEEDED (en_store k')
    | (Inl x, k') \<Rightarrow> k' = k \<and> prepare1 P registry w supplied = Inl x \<or>
        is_executor_error x \<and> (\<exists>i. i \<notin> ids_of (en_store k) \<and>
          settled i (td1_id ` set (wd1_tasks w)) W1_FAILED (en_store k'))"
  using run_settles [OF assms, of registry supplied] by (auto split: prod.splits sum.splits)

lemma sample_prepared: "\<exists>pr. prepare1 sample_ports1 sample_registry1 diamond1 [] = Inr pr"
proof -
  have "case prepare1 sample_ports1 sample_registry1 diamond1 [] of Inl x \<Rightarrow> False | Inr pr \<Rightarrow> True" by code_simp
  then show ?thesis by (auto split: sum.splits)
qed

theorem v1_run_settles_witness:
  "case run1 sample_ports1 sample_registry1 diamond1 [] sample_engine1 of
      (Inr run, k') \<Rightarrow> settled (r1_id run) {''start'', ''left'', ''right'', ''join''} W1_SUCCEEDED (en_store k')
    | (Inl x, k') \<Rightarrow> is_executor_error x \<and> (\<exists>i. settled i {''start'', ''left'', ''right'', ''join''} W1_FAILED (en_store k'))"
proof -
  have ids: "td1_id ` set (wd1_tasks diamond1) = {''start'', ''left'', ''right'', ''join''}"
    by (auto simp: diamond1_def sample_workflow1_def sample_task1_def)
  obtain pr where "prepare1 sample_ports1 sample_registry1 diamond1 [] = Inr pr" using sample_prepared by blast
  then show ?thesis
    using v1_run_settles [OF sample_run.runner_ports_axioms diamond1_facts(1) ballI [OF sample_delays_fit] sample_engine1_ok,
      where registry = sample_registry1 and supplied = "[]"]
    unfolding ids by (auto split: prod.splits sum.splits)
qed

end
