(* ===== verification/V1_Resumption.thy ===== *)
theory V1_Resumption
  imports V1_Kept V1_Default
begin

text \<open>
  What holds of running, reconciling and resuming in the first-generation engine, whatever the ports
  do: finished entities and evidence stay, a report that lists an unresolved task never gets past the
  checks of \<open>resume\<close>, and reconciliation reads the store and confirms only what all providers agree on.
\<close>

section \<open>History\<close>

lemma safe1_keeps:
  assumes "\<And>s0. safe1 s0 m (\<lambda>_. True)" "store1_ok (en_store k)" "m k = (r, k')"
  shows "keeps_history1 (en_store k) (en_store k') \<and> store1_ok (en_store k')"
proof -
  have k: "kept1 (en_store k) (en_store k)" using assms(2) by (simp add: kept1_def keeps_history1_def)
  have "kept1 (en_store k) (en_store k')"
    using contractD [OF assms(1) [unfolded safe1_def] k] assms(3) by (cases r) auto
  then show ?thesis by (simp add: kept1_def)
qed

text \<open>C18: The first-generation runner never changes finished work.  Whatever the ports, handlers and
  workflow are and whether \<open>run\<close> or \<open>resume\<close> returns or raises: every run, task run and attempt that
  was terminal in the store is stored unchanged afterwards, no event, output checkpoint, artifact or
  external reference has been lost or changed, and the invariant of the store holds again.\<close>

theorem v1_history_kept:
  assumes "store1_ok (en_store k)"
    and "m = run1 P registry w supplied \<or> m = resume1 P registry w run_id report" and "m k = (r, k')"
  shows "keeps_history1 (en_store k) (en_store k') \<and> store1_ok (en_store k')"
  using assms(2) by (elim disjE) (use safe1_keeps [OF safe1_run assms(1)] safe1_keeps [OF safe1_resume assms(1)] assms(3) in blast)+

theorem v1_history_kept_witness:
  "let ran = snd (run1 sample_ports1 sample_registry1 diamond1 [] sample_engine1);
       resumed = snd (resume1 sample_ports1 sample_registry1 diamond1 ''run'' \<lparr>rep1_run_id = ''run'', rep1_tasks = []\<rparr> ran) in
   keeps_history1 (en_store ran) (en_store resumed) \<and> store1_ok (en_store resumed)"
proof -
  let ?run = "run1 sample_ports1 sample_registry1 diamond1 []"
  let ?resume = "resume1 sample_ports1 sample_registry1 diamond1 ''run'' \<lparr>rep1_run_id = ''run'', rep1_tasks = []\<rparr>"
  let ?k = "snd (?run sample_engine1)"
  have "store1_ok (en_store ?k)"
    using v1_history_kept [OF sample_engine1_ok(1) disjI1 [OF refl] surjective_pairing] by blast
  then show ?thesis
    using v1_history_kept [OF _ disjI2 [OF refl] surjective_pairing, of ?k] by (simp add: Let_def)
qed

section \<open>Refusals\<close>

lemma resolved_split: "fully_resolved1 report \<longleftrightarrow> \<not> requires_manual1 report \<and> \<not> has_still_running1 report"
proof -
  have "d \<in> {DI1_CONFIRMED_SUCCEEDED, DI1_CONFIRMED_FAILED, DI1_CONFIRMED_CANCELLED} \<longleftrightarrow>
      d \<noteq> DI1_MANUAL_REQUIRED \<and> d \<noteq> DI1_STILL_RUNNING" for d by (cases d) simp_all
  then show ?thesis unfolding fully_resolved1_def requires_manual1_def has_still_running1_def list_all_iff list_ex_iff by blast
qed

lemma refuses_bind: "(\<And>x. r = Inr x \<Longrightarrow> \<exists>e. f x k = (Inl e, k)) \<Longrightarrow> \<exists>e. bindA (liftR r) f k = (Inl e, k)"
  by (cases r) (simp_all add: bindA_def liftR_def)

lemma refuses_then: "(r = Inr () \<Longrightarrow> \<exists>e. m k = (Inl e, k)) \<Longrightarrow> \<exists>e. thenA (liftR r) m k = (Inl e, k)"
  unfolding thenA_def by (rule refuses_bind) simp

lemma refuses_gets: "\<exists>e. f (g k) k = (Inl e, k) \<Longrightarrow> \<exists>e. bindA (gets g) f k = (Inl e, k)"
  by (simp add: bindA_def)

lemma loaded_tasks: "fst ` set (fold (\<lambda>t d. dict_set (t1_task_id t) t d) ts d) = t1_task_id ` set ts \<union> fst ` set d"
  by (induction ts arbitrary: d) (auto simp: dict_set_keys)

text \<open>C20: \<open>resume\<close> of a valid definition refuses without a trace.  Unless the run is stored as RUNNING for just this workflow
  and version, its task runs are those of the definition, the report belongs to the run and every
  entry that the report lists is a confirmed outcome (none still runs, none needs a person),
  \<open>resume\<close> raises and neither the store nor the observers nor the handlers have seen anything of it.
  What the report leaves out is not part of these checks: an ambiguous task that it does not list is
  noticed only when the loop over the plan comes to it.\<close>

theorem v1_resume_refuses:
  assumes "valid_workflow1 w"
    and "\<not> (\<exists>run ts. get_run1 (en_store k) run_id = Inr run \<and> list_tasks1 (en_store k) (r1_id run) = Inr ts \<and>
      r1_status run = W1_RUNNING \<and> r1_workflow_id run = wd1_id w \<and> r1_version run = wd1_version w \<and>
      t1_task_id ` set ts = td1_id ` set (wd1_tasks w) \<and> rep1_run_id report = run_id \<and> fully_resolved1 report)"
  shows "\<exists>e. resume1 P registry w run_id report k = (Inl e, k)"
  unfolding resume1_def
proof (intro refuses_bind refuses_then refuses_gets)
  fix g plan run params
  assume g: "build_graph1 w = Inr g" "validate_graph1 w g = Inr ()" "build_plan1 w g = Inr plan"
    and run: "get_run1 (en_store k) run_id = Inr run" "resume_checks1 w run run_id report = Inr ()"
  have checks: "r1_status run = W1_RUNNING \<and> r1_workflow_id run = wd1_id w \<and> r1_version run = wd1_version w \<and>
      rep1_run_id report = run_id \<and> fully_resolved1 report"
    using run(2) by (simp add: resume_checks1_def thenR_Inr_iff resolved_split)
  show "\<exists>e. bindA (load_task_runs1 run) (\<lambda>tasks.
     thenA (requireA (fst ` set tasks = set (pl1_task_ids plan))
       (resume_error1 run_id ''persisted TaskRun set does not match workflow definition'')) (f tasks)) k = (Inl e, k)" for f
  proof (cases "list_tasks1 (en_store k) (r1_id run)")
    case (Inl e)
    then show ?thesis by (simp add: load_task_runs1_def bindA_def liftR_def)
  next
    case (Inr ts)
    then have "t1_task_id ` set ts \<noteq> td1_id ` set (wd1_tasks w)" using assms(2) run(1) checks by blast
    then have "fst ` set (fold (\<lambda>t d. dict_set (t1_task_id t) t d) ts []) \<noteq> set (pl1_task_ids plan)"
      using plan_facts1(3) [OF assms(1) g] by (simp add: loaded_tasks)
    then show ?thesis using Inr by (simp add: load_task_runs1_def bindA_def liftR_def thenA_def requireA_def)
  qed
qed

theorem v1_resume_refuses_witness:
  "\<exists>e. resume1 sample_ports1 sample_registry1 diamond1 ''run'' \<lparr>rep1_run_id = ''run'', rep1_tasks = [
     \<lparr>tk1_task_run_id = ''left-run'', tk1_task_id = ''left'', tk1_disposition = DI1_STILL_RUNNING,
      tk1_running_attempts = [''a''], tk1_observations = [], tk1_reasons = []\<rparr>]\<rparr> sample_engine1 = (Inl e, sample_engine1)"
  by (rule v1_resume_refuses [OF diamond1_facts(1)]) (simp add: fully_resolved1_def)

section \<open>Reconciliation\<close>

text \<open>
  Computations that leave the store alone, whether they return or raise, and the environment within
  \<open>E\<close>: the environments that can come up during a call, one reading of the clock or one question to
  a verifier after the other.
\<close>

inductive reach1 :: "'e ports1 \<Rightarrow> 'e verify1 \<Rightarrow> 'e \<Rightarrow> 'e \<Rightarrow> bool" for P verify e0 where
  reach1_start: "reach1 P verify e0 e0"
| reach1_clock: "reach1 P verify e0 e \<Longrightarrow> reach1 P verify e0 (snd (po_now P e))"
| reach1_asked: "reach1 P verify e0 e \<Longrightarrow> reach1 P verify e0 (snd (verify v x e))"

definition reads1 :: "('e \<Rightarrow> bool) \<Rightarrow> v1_store \<Rightarrow> ('e engine1, 'a) act \<Rightarrow> ('a \<Rightarrow> bool) \<Rightarrow> bool" where
  "reads1 E s m Q \<longleftrightarrow> contract (\<lambda>k. en_store k = s \<and> E (en_env k)) m
     (\<lambda>x k. en_store k = s \<and> E (en_env k) \<and> Q x) (\<lambda>e k. en_store k = s)"

lemma reads1_weaken: "reads1 E s m Q \<Longrightarrow> (\<And>x. Q x \<Longrightarrow> R x) \<Longrightarrow> reads1 E s m R"
  unfolding reads1_def by (erule contract_post) auto

lemma reads1_bind: "reads1 E s m Q \<Longrightarrow> (\<And>x. Q x \<Longrightarrow> reads1 E s (f x) R) \<Longrightarrow> reads1 E s (bindA m f) R"
  unfolding reads1_def by (erule contract_bind) (auto simp: contract_def)

lemma reads1_ret: "Q x \<Longrightarrow> reads1 E s (ret x) Q"
  by (auto simp: reads1_def contract_def)

lemma reads1_bind_store: "reads1 E s (f s) R \<Longrightarrow> reads1 E s (bindA (gets en_store) f) R"
  by (auto simp: reads1_def contract_def bindA_def)

lemma reads1_bind_lift: "(\<And>x. r = Inr x \<Longrightarrow> reads1 E s (f x) R) \<Longrightarrow> reads1 E s (bindA (liftR r) f) R"
  by (cases r) (auto simp: reads1_def contract_def bindA_def liftR_def)

lemma reads1_then_require: "(b \<Longrightarrow> reads1 E s m R) \<Longrightarrow> reads1 E s (thenA (requireA b e) m) R"
  by (cases b) (auto simp: reads1_def contract_def bindA_def thenA_def requireA_def)

lemma reads1_clock: "\<forall>e. E e \<longrightarrow> E (snd (po_now P e)) \<Longrightarrow> reads1 E s (now1 P) (\<lambda>_. True)"
  unfolding reads1_def contract_def now1_def in_env_def zoomA_def
  by (auto split: prod.splits sum.splits)

lemma reads1_ask:
  "\<forall>e. E e \<longrightarrow> E (snd (m e)) \<Longrightarrow> reads1 E s (attemptA (in_env m)) (\<lambda>answer. \<exists>e. E e \<and> fst (m e) = answer)"
  unfolding reads1_def contract_def in_env_def zoomA_def attemptA_def
  by (auto split: prod.splits sum.splits)

lemma reads1_mapA: "(\<And>x. reads1 E s (f x) (R x)) \<Longrightarrow> reads1 E s (mapA f xs) (list_all2 R xs)"
proof (induction xs)
  case (Cons x xs)
  show ?case
    unfolding mapA.simps
    by (rule reads1_bind [OF Cons.prems], rule reads1_bind [OF Cons.IH [OF Cons.prems]]) (simp add: reads1_ret)
qed (simp add: reads1_ret)

lemma reads1_foldA:
  assumes "\<And>pre x a. J pre a \<Longrightarrow> x \<in> set xs \<Longrightarrow> reads1 E s (f x a) (J (pre @ [x]))"
  shows "J pre a \<Longrightarrow> reads1 E s (foldA f xs a) (J (pre @ xs))"
  using assms
proof (induction xs arbitrary: pre a)
  case (Cons x xs)
  have "reads1 E s (bindA (f x a) (foldA f xs)) (J ((pre @ [x]) @ xs))"
    by (rule reads1_bind [OF Cons.prems(2) [OF Cons.prems(1)]], simp) (rule Cons.IH, assumption, rule Cons.prems(2), simp_all)
  then show ?case by simp
qed (simp add: reads1_ret)

text \<open>
  An observation of an external run.  Its status and reason are what the verifier registered for the
  provider answered when it was asked about this reference in one of the environments \<open>E\<close>; without
  a verifier, without a valid answer and when the verifier raised, the status is unknown.
\<close>

definition answered1 ::
  "('e \<Rightarrow> bool) \<Rightarrow> 'e verify1 \<Rightarrow> (string, nat) dict \<Rightarrow> v1_external_ref \<Rightarrow> external_run_status \<Rightarrow> string option \<Rightarrow> bool" where
  "answered1 E verify verifiers x status reason \<longleftrightarrow> (case dict_get verifiers (xr1_provider x) of
     None \<Rightarrow> status = X_UNKNOWN \<and> reason = Some ''verifier_not_registered''
   | Some v \<Rightarrow> (\<exists>e. E e \<and> (case fst (verify v x e) of
         Inl err \<Rightarrow> status = X_UNKNOWN \<and> reason = Some (''verification_failed:'' @ exc_name err)
       | Inr None \<Rightarrow> status = X_UNKNOWN \<and> reason = Some ''verifier_returned_invalid_status''
       | Inr (Some answer) \<Rightarrow> status = answer \<and> reason = None)))"

definition observed1 ::
  "('e \<Rightarrow> bool) \<Rightarrow> 'e verify1 \<Rightarrow> (string, nat) dict \<Rightarrow> v1_external_ref \<Rightarrow> observation1 \<Rightarrow> bool" where
  "observed1 E verify verifiers x ob \<longleftrightarrow> ob1_ref_id ob = xr1_id x \<and> ob1_provider ob = xr1_provider x \<and>
     ob1_external_run_id ob = xr1_external_run_id x \<and> answered1 E verify verifiers x (ob1_status ob) (ob1_reason ob)"

lemma reads1_verify:
  assumes "\<forall>v x e. E e \<longrightarrow> E (snd (verify v x e))"
  shows "reads1 E s (verify_ref1 verify verifiers x) (observed1 E verify verifiers x)"
proof (cases "dict_get verifiers (xr1_provider x)")
  case None
  then show ?thesis by (simp add: verify_ref1_def reads1_ret observed1_def answered1_def observation_of1_def)
next
  case (Some v)
  show ?thesis
    unfolding verify_ref1_def Some option.case
  proof (rule reads1_bind [OF reads1_ask])
    show "\<forall>e. E e \<longrightarrow> E (snd (verify v x e))" using assms by blast
    fix answer assume "\<exists>e. E e \<and> fst (verify v x e) = answer"
    then obtain e where e: "E e" "fst (verify v x e) = answer" by blast
    have "answered1 E verify verifiers x status reason" if "case answer of
         Inl err \<Rightarrow> status = X_UNKNOWN \<and> reason = Some (''verification_failed:'' @ exc_name err)
       | Inr None \<Rightarrow> status = X_UNKNOWN \<and> reason = Some ''verifier_returned_invalid_status''
       | Inr (Some st) \<Rightarrow> status = st \<and> reason = None" for status reason
      unfolding answered1_def Some option.case using e that by blast
    then show "reads1 E s (case answer of
         Inl e \<Rightarrow> ret (observation_of1 x X_UNKNOWN (Some (''verification_failed:'' @ exc_name e)))
       | Inr None \<Rightarrow> ret (observation_of1 x X_UNKNOWN (Some ''verifier_returned_invalid_status''))
       | Inr (Some status) \<Rightarrow> ret (observation_of1 x status None)) (observed1 E verify verifiers x)"
      by (auto simp: observed1_def observation_of1_def intro!: reads1_ret split: sum.split option.split)
  qed
qed

text \<open>The verdict is that of all observations, or none.\<close>

definition agreed1 :: "external_run_status list \<Rightarrow> v1_disposition \<Rightarrow> bool" where
  "agreed1 ss d \<longleftrightarrow> (\<exists>s. set ss = {s} \<and> disposition_of1 s = Some d)"

lemma verdict1_exact:
  assumes "obs \<noteq> []" "d \<noteq> DI1_MANUAL_REQUIRED"
  shows "fst (verdict1 obs) = d \<longleftrightarrow> agreed1 (map ob1_status obs) d"
proof -
  let ?ss = "remdups (map ob1_status obs)"
  have set_ss: "set ?ss = set (map ob1_status obs)" by simp
  show ?thesis
  proof (cases "\<exists>x. ?ss = [x]")
    case True
    then obtain x where x: "?ss = [x]" by blast
    then have "set (map ob1_status obs) = {x}" using set_ss by simp
    then have "agreed1 (map ob1_status obs) d \<longleftrightarrow> disposition_of1 x = Some d" unfolding agreed1_def by auto
    moreover have "fst (verdict1 obs) = d \<longleftrightarrow> disposition_of1 x = Some d"
      using assms(2) by (cases x) (auto simp: verdict1_def x)
    ultimately show ?thesis by simp
  next
    case False
    then have len: "length ?ss \<noteq> 1" by (auto simp: length_Suc_conv)
    have "set (map ob1_status obs) \<noteq> {x}" for x
    proof
      assume "set (map ob1_status obs) = {x}"
      then have "card (set (map ob1_status obs)) = 1" by simp
      then show False using len by (simp add: length_remdups_card_conv)
    qed
    then have "\<not> agreed1 (map ob1_status obs) d" by (simp add: agreed1_def)
    moreover have "fst (verdict1 obs) = DI1_MANUAL_REQUIRED" using len by (simp add: verdict1_def Let_def)
    ultimately show ?thesis using assms(2) by simp
  qed
qed

text \<open>What a report may say of one task run of a run, and which task runs it must speak of.\<close>

definition ambiguous_task1 :: "v1_store \<Rightarrow> v1_task_run \<Rightarrow> bool" where
  "ambiguous_task1 s t \<longleftrightarrow> t1_status t \<notin> TASK1_TERMINAL \<and> (list_externals1 s (t1_id t) \<noteq> [] \<or>
     t1_status t = T1_RUNNING \<and> (\<exists>ats. list_attempts1 s (t1_id t) = Inr ats \<and>
       (pending_retry1 ats = None \<or> (\<exists>a \<in> set ats. a1_status a = A1_RUNNING))))"

definition task_report_ok1 ::
  "('e \<Rightarrow> bool) \<Rightarrow> 'e verify1 \<Rightarrow> v1_store \<Rightarrow> (string, nat) dict \<Rightarrow> task_report1 \<Rightarrow> v1_task_run \<Rightarrow> bool" where
  "task_report_ok1 E verify s verifiers x t \<longleftrightarrow> tk1_task_run_id x = t1_id t \<and> tk1_task_id x = t1_task_id t \<and>
     ambiguous_task1 s t \<and>
     (\<exists>ats. list_attempts1 s (t1_id t) = Inr ats \<and>
       tk1_running_attempts x = map a1_id (filter (\<lambda>a. a1_status a = A1_RUNNING) ats)) \<and>
     list_all2 (observed1 E verify verifiers) (list_externals1 s (t1_id t)) (tk1_observations x) \<and>
     (\<forall>d. d \<noteq> DI1_MANUAL_REQUIRED \<longrightarrow> (tk1_disposition x = d \<longleftrightarrow> agreed1 (map ob1_status (tk1_observations x)) d))"

lemma reads1_reconcile_task:
  assumes closed: "\<forall>v x e. E e \<longrightarrow> E (snd (verify v x e))" and "ambiguous_task1 s t"
    and "list_attempts1 s (t1_id t) = Inr ats" "running = map a1_id (filter (\<lambda>a. a1_status a = A1_RUNNING) ats)"
  shows "reads1 E s (reconcile_task1 verify verifiers t running (list_externals1 s (t1_id t)))
    (\<lambda>x. task_report_ok1 E verify s verifiers x t)"
proof (cases "list_externals1 s (t1_id t) = []")
  case True
  then show ?thesis
    using assms by (auto simp: reconcile_task1_def task_report_ok1_def agreed1_def intro!: reads1_ret)
next
  case False
  show ?thesis
    unfolding reconcile_task1_def if_not_P [OF False]
  proof (rule reads1_bind [OF reads1_mapA [OF reads1_verify [OF closed]]])
    fix obs assume obs: "list_all2 (observed1 E verify verifiers) (list_externals1 s (t1_id t)) obs"
    then have "obs \<noteq> []" using False by auto
    then show "reads1 E s (case verdict1 obs of (disposition, reason) \<Rightarrow>
        ret \<lparr>tk1_task_run_id = t1_id t, tk1_task_id = t1_task_id t, tk1_disposition = disposition,
          tk1_running_attempts = running, tk1_observations = obs, tk1_reasons = [reason]\<rparr>) (\<lambda>x. task_report_ok1 E verify s verifiers x t)"
    proof (cases "verdict1 obs")
      case (Pair disposition reason)
      then have "\<forall>d. d \<noteq> DI1_MANUAL_REQUIRED \<longrightarrow> (disposition = d \<longleftrightarrow> agreed1 (map ob1_status obs) d)"
        using verdict1_exact [OF \<open>obs \<noteq> []\<close>] by simp
      then show ?thesis
        using assms obs unfolding Pair prod.case by (intro reads1_ret) (simp add: task_report_ok1_def)
    qed
  qed
qed

lemma reads1_reconcile_entry:
  assumes closed: "\<forall>v x e. E e \<longrightarrow> E (snd (verify v x e))"
    and old: "\<forall>x \<in> set reports. \<exists>t \<in> set pre. task_report_ok1 E verify s verifiers x t"
      "\<forall>t \<in> set pre. ambiguous_task1 s t \<longrightarrow> t1_id t \<in> tk1_task_run_id ` set reports"
  shows "reads1 E s (reconcile_entry1 verify verifiers t reports) (\<lambda>reports.
    (\<forall>x \<in> set reports. \<exists>t \<in> set (pre @ [t]). task_report_ok1 E verify s verifiers x t) \<and>
    (\<forall>t \<in> set (pre @ [t]). ambiguous_task1 s t \<longrightarrow> t1_id t \<in> tk1_task_run_id ` set reports))"
proof (cases "t1_status t \<in> TASK1_TERMINAL")
  case True
  then show ?thesis using old by (simp add: reconcile_entry1_def ambiguous_task1_def reads1_ret)
next
  case False
  show ?thesis
    unfolding reconcile_entry1_def if_not_P [OF False] Let_def
  proof (rule reads1_bind_store, rule reads1_bind_lift)
    fix ats assume ats: "list_attempts1 s (t1_id t) = Inr ats"
    let ?running = "map a1_id (filter (\<lambda>a. a1_status a = A1_RUNNING) ats)" and ?refs = "list_externals1 s (t1_id t)"
    let ?Q = "\<lambda>reports. (\<forall>x \<in> set reports. \<exists>t \<in> set (pre @ [t]). task_report_ok1 E verify s verifiers x t) \<and>
      (\<forall>t \<in> set (pre @ [t]). ambiguous_task1 s t \<longrightarrow> t1_id t \<in> tk1_task_run_id ` set reports)"
    have skip: "reads1 E s (ret reports) ?Q" if "\<not> ambiguous_task1 s t"
      using old that by (intro reads1_ret) auto
    have clear: "\<not> ambiguous_task1 s t"
      if "t1_status t = T1_RUNNING \<and> ?running = [] \<and> pending_retry1 ats \<noteq> None \<and> ?refs = [] \<or> t1_status t \<noteq> T1_RUNNING \<and> ?refs = []"
      using that ats by (auto simp: ambiguous_task1_def filter_empty_conv)
    have add: "reads1 E s (bindA (reconcile_task1 verify verifiers t ?running ?refs) (\<lambda>r. ret (reports @ [r]))) ?Q"
      if "ambiguous_task1 s t"
      by (rule reads1_bind [OF reads1_reconcile_task [OF closed that ats refl]], rule reads1_ret)
        (use old in \<open>auto simp: task_report_ok1_def\<close>)
    have doubt: "ambiguous_task1 s t"
      if "\<not> (t1_status t = T1_RUNNING \<and> ?running = [] \<and> pending_retry1 ats \<noteq> None \<and> ?refs = [])"
        "\<not> (t1_status t \<noteq> T1_RUNNING \<and> ?refs = [])"
      using that ats False by (auto simp: ambiguous_task1_def filter_empty_conv)
    show "reads1 E s (if t1_status t = T1_RUNNING \<and> ?running = [] \<and> pending_retry1 ats \<noteq> None \<and> ?refs = [] then ret reports
        else if t1_status t \<noteq> T1_RUNNING \<and> ?refs = [] then ret reports
        else bindA (reconcile_task1 verify verifiers t ?running ?refs) (\<lambda>r. ret (reports @ [r]))) ?Q"
      using skip clear add doubt by (simp only: split: if_splits) blast
  qed
qed

lemma reads1_assess:
  assumes "\<forall>e. E e \<longrightarrow> E (snd (po_now P e))"
  shows "reads1 E s (assess1 P stale_after run_id) (\<lambda>_. True)"
  unfolding assess1_def
  by (rule reads1_bind [OF reads1_clock [OF assms]], intro reads1_then_require reads1_bind_store reads1_bind_lift reads1_ret TrueI)

lemma reads1_reconcile:
  assumes clock: "\<forall>e. E e \<longrightarrow> E (snd (po_now P e))" and closed: "\<forall>v x e. E e \<longrightarrow> E (snd (verify v x e))"
  shows "reads1 E s (reconcile1 P verify verifiers stale_after run_id) (\<lambda>rep. rep1_run_id rep = run_id \<and>
    (\<exists>ts. list_tasks1 s run_id = Inr ts \<and>
      (\<forall>x \<in> set (rep1_tasks rep). \<exists>t \<in> set ts. task_report_ok1 E verify s verifiers x t) \<and>
      (\<forall>t \<in> set ts. ambiguous_task1 s t \<longrightarrow> t1_id t \<in> tk1_task_run_id ` set (rep1_tasks rep))))"
  unfolding reconcile1_def
proof (rule reads1_bind [OF reads1_assess [OF clock]], intro reads1_then_require reads1_bind_store reads1_bind_lift)
  fix ts assume ts: "list_tasks1 s run_id = Inr ts"
  let ?J = "\<lambda>pre reports. (\<forall>x \<in> set reports. \<exists>t \<in> set pre. task_report_ok1 E verify s verifiers x t) \<and>
      (\<forall>t \<in> set pre. ambiguous_task1 s t \<longrightarrow> t1_id t \<in> tk1_task_run_id ` set reports)"
  have "reads1 E s (foldA (reconcile_entry1 verify verifiers) (sort_key t1_task_id ts) []) (?J ([] @ sort_key t1_task_id ts))"
    by (rule reads1_foldA [where J = ?J], erule conjE, rule reads1_reconcile_entry [OF closed]) simp_all
  then show "reads1 E s (bindA (foldA (reconcile_entry1 verify verifiers) (sort_key t1_task_id ts) [])
      (\<lambda>reports. ret \<lparr>rep1_run_id = run_id, rep1_tasks = reports\<rparr>)) (\<lambda>rep. rep1_run_id rep = run_id \<and>
    (\<exists>ts. list_tasks1 s run_id = Inr ts \<and>
      (\<forall>x \<in> set (rep1_tasks rep). \<exists>t \<in> set ts. task_report_ok1 E verify s verifiers x t) \<and>
      (\<forall>t \<in> set ts. ambiguous_task1 s t \<longrightarrow> t1_id t \<in> tk1_task_run_id ` set (rep1_tasks rep))))"
    by (rule reads1_bind) (use ts in \<open>auto intro!: reads1_ret\<close>)
qed

text \<open>C19: What \<open>reconcile\<close> reports is what the providers say.  Whether it returns or raises, it does not
  change the store.  The report it returns speaks of exactly the ambiguous task runs of the run (not
  terminal, and with external work or RUNNING without a scheduled retry), each with its running
  attempts.  Of each it holds one observation per external reference, in order, whose status is what
  the verifier registered for the provider answered when it was asked about this very reference in
  the course of the call; the status is UNKNOWN, with the reason, when there is no verifier, when it
  raised or when it answered no valid status.  The report confirms an outcome, or that the work still
  runs, exactly if there is an observation and all of them agree on the status this outcome belongs
  to; in all other cases a person is asked.\<close>

theorem v1_reconcile_exact:
  assumes "reconcile1 P verify verifiers stale_after run_id k = (r, k')"
  shows "en_store k' = en_store k \<and> (\<forall>rep. r = Inr rep \<longrightarrow> rep1_run_id rep = run_id \<and>
    (\<exists>ts. list_tasks1 (en_store k) run_id = Inr ts \<and>
      (\<forall>x \<in> set (rep1_tasks rep). \<exists>t \<in> set ts.
        task_report_ok1 (reach1 P verify (en_env k)) verify (en_store k) verifiers x t) \<and>
      (\<forall>t \<in> set ts. ambiguous_task1 (en_store k) t \<longrightarrow> t1_id t \<in> tk1_task_run_id ` set (rep1_tasks rep))))"
proof -
  have "\<forall>e. reach1 P verify (en_env k) e \<longrightarrow> reach1 P verify (en_env k) (snd (po_now P e))"
    "\<forall>v x e. reach1 P verify (en_env k) e \<longrightarrow> reach1 P verify (en_env k) (snd (verify v x e))"
    by (blast intro: reach1_clock reach1_asked)+
  note reads = reads1_reconcile [OF this, of "en_store k" verifiers stale_after run_id, unfolded reads1_def]
  have start: "en_store k = en_store k \<and> reach1 P verify (en_env k) (en_env k)" by (simp add: reach1_start)
  show ?thesis
    using contractD [OF reads start] assms by (cases r) blast+
qed

text \<open>A run whose process died while one task ran outside.\<close>

definition stale_store1 :: v1_store where
  "stale_store1 = empty_store1\<lparr>
     s1_runs := [(''r'', sample_run1\<lparr>r1_status := W1_RUNNING, r1_started_at := Some (sample_instant1 1)\<rparr>)],
     s1_tasks := [(''t'', sample_task_run1\<lparr>t1_status := T1_RUNNING, t1_started_at := Some (sample_instant1 1)\<rparr>)],
     s1_attempts := [(''a'', sample_attempt1)],
     s1_externals := [(''x'', (''t'', \<lparr>xr1_id = ''x'', xr1_provider = ''batch'', xr1_external_run_id = ''job'',
       xr1_uri = None, xr1_metadata = []\<rparr>))]\<rparr>"

definition stale_engine1 :: "nat system1 engine1" where
  "stale_engine1 = sample_engine1\<lparr>en_store := stale_store1\<rparr>"

definition later_ports1 :: "nat system1 ports1" where
  "later_ports1 = sample_ports1\<lparr>po_now := ret (Datetime 100 True)\<rparr>"

definition done_everywhere1 :: "nat system1 verify1" where
  "done_everywhere1 = (\<lambda>v x. ret (Some X_SUCCEEDED))"

lemma stale_reconciled:
  "\<exists>rep k'. reconcile1 later_ports1 done_everywhere1 [(''batch'', 0)] 10 ''r'' stale_engine1 = (Inr rep, k') \<and>
     map tk1_disposition (rep1_tasks rep) = [DI1_CONFIRMED_SUCCEEDED]"
proof -
  have "case reconcile1 later_ports1 done_everywhere1 [(''batch'', 0)] 10 ''r'' stale_engine1 of
      (Inl e, k') \<Rightarrow> False | (Inr rep, k') \<Rightarrow> map tk1_disposition (rep1_tasks rep) = [DI1_CONFIRMED_SUCCEEDED]"
    by code_simp
  then show ?thesis by (auto split: prod.splits sum.splits)
qed

theorem v1_reconcile_exact_witness:
  "\<exists>x t. task_report_ok1 (reach1 later_ports1 done_everywhere1 (en_env stale_engine1)) done_everywhere1 stale_store1
       [(''batch'', 0)] x t \<and> tk1_disposition x = DI1_CONFIRMED_SUCCEEDED \<and> map ob1_status (tk1_observations x) = [X_SUCCEEDED]"
proof -
  obtain rep k' where rep: "reconcile1 later_ports1 done_everywhere1 [(''batch'', 0)] 10 ''r'' stale_engine1 = (Inr rep, k')"
    and d: "map tk1_disposition (rep1_tasks rep) = [DI1_CONFIRMED_SUCCEEDED]"
    using stale_reconciled by (elim exE conjE) (rule that)
  obtain x where x: "rep1_tasks rep = [x]" "tk1_disposition x = DI1_CONFIRMED_SUCCEEDED" using d by auto
  have "en_store stale_engine1 = stale_store1" by (simp add: stale_engine1_def)
  then obtain ts t where ts: "list_tasks1 stale_store1 ''r'' = Inr ts" "t \<in> set ts"
    and t: "task_report_ok1 (reach1 later_ports1 done_everywhere1 (en_env stale_engine1)) done_everywhere1 stale_store1
      [(''batch'', 0)] x t"
    using v1_reconcile_exact [OF rep] x(1) by auto
  have "case list_tasks1 stale_store1 ''r'' of Inl e \<Rightarrow> False | Inr us \<Rightarrow>
      map (\<lambda>u. map xr1_provider (list_externals1 stale_store1 (t1_id u))) us = [[''batch'']]"
    by code_simp
  then obtain y where "list_externals1 stale_store1 (t1_id t) = [y]" "xr1_provider y = ''batch''"
    using ts by auto
  then have seen: "map ob1_status (tk1_observations x) = [X_SUCCEEDED]"
    using t by (auto simp: task_report_ok1_def list_all2_Cons1 observed1_def answered1_def done_everywhere1_def)
  show ?thesis by (rule exI [of _ x], rule exI [of _ t], intro conjI t x(2) seen)
qed

end
