(* ===== verification/Spec2Isabelle.thy ===== *)
theory Spec2Isabelle
  imports Retention Outcomes Reporting Builders V1_Resumption
begin

text \<open>
  A verification library for PyWorkflowKit (\<open>src/src/pyworkflowkit\<close>), first for its
  second-generation runtime: the engine that validates and compiles a workflow, runs its tasks
  attempt by attempt with retries and deadlines, resumes failed runs, cancels them, recovers from
  crashes, and keeps all of this in a metadata store.

  \<^bold>\<open>The program and the theories.\<close>  An author declares tasks and a workflow
  (\<open>authoring/\<close>), which the planner (\<open>planning/\<close>) compiles into an \<open>ExecutionPlan\<close>.
  \<open>WorkflowRuntime\<close> (\<open>runtime/workflow.py\<close>) executes the plan: it creates a run and its task runs
  in the metadata store (\<open>persistence/memory.py\<close>), decides with the state machines
  (\<open>states/machine.py\<close>) which status may follow which, hands every attempt to an executor
  (\<open>executors/\<close>), asks the retry evaluator (\<open>policies/retry.py\<close>) what to do with a failure,
  and records outputs as checkpoints (\<open>runtime/evidence.py\<close>).  Other users of the same store
  cancel, resume, reconcile or prune runs while this happens.

  \<^item> \<open>Prelude\<close>: text, timestamps, exceptions (\<open>errors.py\<close>) as a datatype, the
    state-and-exception computations \<open>('s, 'a) act\<close>, insertion-ordered dictionaries, the locale
    \<open>state_preorder\<close> with the rules for computations that respect a preorder on states.
  \<^item> \<open>States\<close>, \<open>Entities\<close>: \<open>states/enums.py\<close>, \<open>machine.py\<close>, \<open>contracts.py\<close>,
    \<open>runtime/entities.py\<close>.  Statuses and transition tables, the locale \<open>lifecycle\<close> interpreted
    for runs, task runs and attempts, the entities with their validation, the three transition
    functions.
  \<^item> \<open>Evidence\<close>: \<open>runtime/identity.py\<close>, \<open>context.py\<close>, \<open>references.py\<close>,
    \<open>diagnostics/failure.py\<close>, \<open>diagnostics/model.py\<close>.
  \<^item> \<open>Json\<close>: \<open>runtime/evidence.py\<close> and \<open>authoring/_values.py\<close>, portable values.
  \<^item> \<open>Retry\<close>: \<open>policies/\<close>, retry and timeout policies, the retry evaluator.
  \<^item> \<open>Authoring\<close>, \<open>Planning\<close>: \<open>authoring/definitions.py\<close>, \<open>workloads.py\<close>, \<open>io.py\<close> and
    \<open>planning/\<close>: definitions, fingerprints, acyclicity, layers, the compiler.
  \<^item> \<open>Builders\<close>: \<open>authoring/builders.py\<close>, \<open>decorators.py\<close>, \<open>validation.py\<close>: the mutable builder
    with its depth-first cycle check, and the flow operators on task objects.
  \<^item> \<open>Store\<close>: \<open>persistence/memory.py\<close> and the values of \<open>persistence/contracts.py\<close>.  The record
    \<open>store\<close> has one field per dictionary of \<open>InMemoryMetadataStore\<close>, every method is one atomic
    computation on it (the class holds a lock for exactly that), and the locale \<open>entity_table\<close> is
    the contract of the three entity tables.
  \<^item> \<open>Retention\<close>: \<open>persistence/retention.py\<close>, pruning.
  \<^item> \<open>Readiness\<close>, \<open>Executors\<close>: \<open>runtime/_readiness.py\<close>, \<open>_attempts.py\<close>,
    \<open>executors/contracts.py\<close>, \<open>registry.py\<close>, \<open>_common.py\<close>, \<open>inline.py\<close>.
  \<^item> \<open>World\<close>, \<open>Runtime\<close>: \<open>runtime/workflow.py\<close>, \<open>results.py\<close>, \<open>_resume.py\<close>.  A \<open>world\<close> is the
    store, the executor registry, the table of running requests and the state of the environment.
  \<^item> \<open>Recovery\<close>: \<open>diagnostics/recovery.py\<close>, \<open>runtime/reconciliation.py\<close>.
  \<^item> \<open>Lineage\<close>: \<open>lineage/\<close>, \<open>diagnostics/inspection.py\<close>, the three readers of the store: run
    manifests, execution lineage, inspection.
  \<^item> \<open>Execution\<close>, \<open>Attempts\<close>, \<open>Outcomes\<close>, \<open>Resuming\<close>, \<open>Cancelling\<close>, \<open>Reconciling\<close>,
    \<open>Reporting\<close>: the properties of the runtime, of recovery and of the readers; \<open>Samples\<close> holds the concrete services, runtime and
    worlds on which the properties are instantiated.
  \<^item> \<open>V1_Errors\<close>, \<open>V1_Domain\<close>, \<open>V1_Graph\<close>, \<open>V1_Machine\<close>: the first-generation engine, which the
    second one keeps beside itself: \<open>errors.py\<close>, \<open>domain/\<close>, \<open>application/planning.py\<close>,
    \<open>failure.py\<close>, \<open>state_machine.py\<close>, \<open>retry.py\<close>.  \<open>V1_Planning\<close> compares its planner with the
    one of the second generation.
  \<^item> \<open>V1_Store\<close>, \<open>V1_Observability\<close>, \<open>V1_Local\<close>: its metadata store with units of work
    (\<open>adapters/metadata/memory.py\<close>, \<open>application/events.py\<close>), the delivery of events to observers
    (\<open>application/observability.py\<close>, \<open>security.py\<close>), the local executor (\<open>ports/executor.py\<close>,
    \<open>application/execution.py\<close>, \<open>adapters/executors/\<close>).
  \<^item> \<open>V1_Runner\<close>, \<open>V1_Default\<close>: its sequential runner, the method \<open>run\<close> of
    \<open>application/runner.py\<close> with everything it calls, and the adapters it is given by default
    (\<open>adapters/runtime.py\<close>).  An \<open>engine1\<close> is the store, the dispatcher of events and the state of
    the ports.  \<open>V1_View\<close> relates the store to the entities that the runner holds in memory,
    \<open>Contracts\<close> has the rules for pre- and postconditions of computations, and \<open>V1_Runs\<close>,
    \<open>V1_Settled\<close>, \<open>V1_Execution\<close> prove the contract of each method, bottom up.
  \<^item> \<open>V1_Recovery\<close>, \<open>V1_Resume\<close>: \<open>application/recovery.py\<close>, \<open>application/reconciliation.py\<close> and the
    method \<open>resume\<close> of the runner with everything it calls.  \<open>V1_History\<close> has the calculus of
    computations that keep what is finished, \<open>V1_Kept\<close> goes through the methods of the runner with
    it, \<open>V1_Resumption\<close> holds the properties.

  \<^bold>\<open>What the lemmas show.\<close>  Lifecycles are followed: statuses move only along the tables,
  terminal ones never move, and every command of the runtime or of reconciliation keeps the
  recorded history (\<open>Execution\<close>).  Updates of the store are compare-and-set (\<open>Store\<close>).
  The events of a run are exactly what its journal announces (\<open>Store\<close>).
  The retry loop ends and repeats only what is safe to repeat (\<open>Attempts\<close>).  A run that is
  recorded as succeeded has only finished tasks, and a request carries the deadline that its timeout
  demands (\<open>Outcomes\<close>).  The planner schedules every task
  after its dependencies and the acyclicity check is exact (\<open>Planning\<close>, \<open>Authoring\<close>); the second
  cycle check, of the builder, agrees with it, and the flow operators keep the graph of the
  dependencies drawn with them acyclic; dependencies given to constructors are not in that graph
  (\<open>Builders\<close>).  Resuming
  reuses exactly the tasks that the specification allows (\<open>Resuming\<close>); cancelling a run that has
  not started settles all of it, if nobody writes to the store meanwhile (\<open>Cancelling\<close>); reconciliation settles a task only on unanimous
  evidence (\<open>Reconciling\<close>); pruning deletes exactly the runs that the policy names with all that belongs
  to them, and nothing else (\<open>Retention\<close>);
  lineage and inspection tell exactly what the store holds (\<open>Reporting\<close>);
  encoding and decoding of portable values agree (\<open>Json\<close>).  The two generations accept and
  plan the same workflows (\<open>V1_Planning\<close>).  In the first one, units of work are atomic and the
  store keeps its invariant (\<open>V1_Store\<close>), observers get every event once and redacted,
  unless redaction itself fails (\<open>V1_Observability\<close>), and every run that was created is settled when
  \<open>run\<close> returns or raises, as long as no retry delay overflows (\<open>V1_Default\<close>).  Neither \<open>run\<close> nor \<open>resume\<close> ever changes finished work or evidence, \<open>resume\<close>
  refuses a report that lists something unresolved without a trace, and reconciliation there confirms
  exactly what all providers answer alike (\<open>V1_Resumption\<close>).  Where the code does not do what it
  means to do, a theorem states what it does instead.

  \<^bold>\<open>Interfaces.\<close>  \<open>lifecycle\<close> (a transition table with its terminal statuses),
  \<open>entity_table\<close> (lookup, insertion and guarded update of a table of entities) and
  \<open>state_preorder\<close> (a reflexive and transitive relation between states that sequencing, loops and
  error handling respect), \<open>keyed_table\<close> (insertion and replacement in a table of the first-generation
  store) and \<open>runner_ports\<close> (what its runner relies on in clock, identifiers, sleeper, executor and
  observers) are locales; each is interpreted on the definitions of the model, and the properties
  rest on the interpretations.

  \<^bold>\<open>Services and interference.\<close>  The record \<open>services\<close> holds what the runtime calls and does
  not define: the clock, the identifier generators, the jitter source, waiting, the registered
  executors, the registered verifiers, trace injection.  Each is a computation on the world, so a
  call may change the store: this is how other threads and processes appear.  They act only during
  such calls, which include every reading of the clock, hence between any two store operations of a
  transition.  The hypothesis \<open>lawful_services\<close> says that what they do there respects the law of
  evolution, that is, they use the store through its own operations; \<open>Samples\<close> has services that
  satisfy it.  Two properties, of cancelling an unstarted run and of closing a run, need more for
  their claim that the call succeeds: \<open>steady_clock\<close>, that nobody writes while the clock is read.

  \<^bold>\<open>Fuel.\<close>  The \<open>while True\<close> loop of \<open>_execute_plan_tasks\<close> takes as many rounds as the retry
  policy allows attempts (\<open>attempt_fuel\<close>); that this is enough is a theorem (\<open>Attempts\<close>).  The
  retry loop of the first-generation runner has \<open>attempt_fuel1\<close>, enough by \<open>V1_Execution\<close>.  The
  depth-first search of the builder takes one level more than there are tasks (\<open>Builders\<close>).  The other
  graph algorithms are total functions with termination proofs.

  \<^bold>\<open>Numbers and text.\<close>  Floating-point numbers are exact rationals with the range check of
  doubles where the code can overflow; timestamps are unbounded counts of microseconds, with the
  range check of \<open>timedelta\<close> where the code computes a deadline; the cutoffs of the retention policy
  have no range check, so the OverflowError of a retention of thousands of years is not modelled, nor
  is that of \<open>math.isfinite\<close> on an integer beyond the doubles.  Copies that the code makes so that
  callers cannot share its objects are identities here, since values are not shared.  Characters are the code points
  below 256.  Values that the source type-checks with \<open>isinstance\<close> carry a HOL type, so those
  \<open>TypeError\<close> branches have no counterpart.

  The ports of the first-generation runner have no access to its store: handlers and observers that
  write to it behind the runner's back are not modelled there.

  \<^bold>\<open>Not modelled.\<close>  Of the first-generation engine: the concurrent runner with its capacity
  manager, which interleaves worker threads over the operations modelled here, the readers of the
  store, serialization, and the shims between the generations; storage through SQL drivers, whose
  contract the in-memory store carries; the thread, process, asyncio and subprocess executors,
  which the runtime sees through the executor contract; telemetry records; the command line,
  configuration loading, plugins and integrations, which call services that are not under \<open>src/\<close>.
\<close>

end
